(* ===== verification/Prelude.thy ===== *)
theory Prelude
  imports Main "HOL-Library.Multiset" "HOL-Library.AList"
begin

text \<open>
  Shared vocabulary of the development: the fact collections the component
  proofs draw on, the Go idioms that are plain list processing
  (\<^verbatim>\<open>sort.Slice\<close> with a \<^verbatim>\<open>less\<close> closure, the
  \<^verbatim>\<open>if limit > 0 && len(out) > limit\<close> cut, a membership loop with
  \<^verbatim>\<open>break\<close>), and the lemmas on association lists that stand for Go maps.

  A Go map is an association list whose keys are distinct. Ranging over a map
  visits the entries in an order the language leaves open: every definition that
  ranges takes the order as an argument, a function that may be any permutation
  (predicate \<open>range_order\<close> below).
\<close>

named_theorems status_defs \<open>the string constants behind the status enumerations\<close>
named_theorems validate_defs \<open>the Validate methods of the aggregates\<close>
named_theorems clone_simps \<open>defensive copies are identities on values\<close>
named_theorems engine_defs \<open>the definitions of the scoring and policy engines\<close>


section \<open>sort.Slice\<close>

text \<open>
  \<^verbatim>\<open>sort.Slice\<close> is given by insertion sort on the strict order
  \<^verbatim>\<open>less\<close> (what the library runs on short slices). The library's sort is
  not stable on long slices; the inputs sorted by the code come from a map range,
  whose order is arbitrary, so every arrangement of equal elements is already
  among the results.
\<close>

fun insert_by :: "('a \<Rightarrow> 'a \<Rightarrow> bool) \<Rightarrow> 'a \<Rightarrow> 'a list \<Rightarrow> 'a list" where
  "insert_by lt x [] = [x]"
| "insert_by lt x (y # ys) = (if lt x y then x # y # ys else y # insert_by lt x ys)"

definition sort_slice :: "('a \<Rightarrow> 'a \<Rightarrow> bool) \<Rightarrow> 'a list \<Rightarrow> 'a list" where
  "sort_slice lt xs = foldl (\<lambda>acc x. insert_by lt x acc) [] xs"

lemma mset_insert_by [simp]: "mset (insert_by lt x ys) = add_mset x (mset ys)"
  by (induction ys) auto

lemma set_insert_by [simp]: "set (insert_by lt x ys) = insert x (set ys)"
  by (induction ys) auto

lemma mset_foldl_insert_by:
  "mset (foldl (\<lambda>acc x. insert_by lt x acc) acc xs) = mset acc + mset xs"
  by (induction xs arbitrary: acc) auto

lemma mset_sort_slice [simp]: "mset (sort_slice lt xs) = mset xs"
  by (simp add: sort_slice_def mset_foldl_insert_by)

lemma set_sort_slice [simp]: "set (sort_slice lt xs) = set xs"
  by (metis mset_sort_slice set_mset_mset)

lemma length_sort_slice [simp]: "length (sort_slice lt xs) = length xs"
  by (metis mset_sort_slice size_mset)

text \<open>
  The contract a \<^verbatim>\<open>less\<close> closure owes \<^verbatim>\<open>sort.Slice\<close>: on the elements
  that occur (predicate \<open>ok\<close>) it is a strict weak order. The result is then free of
  inversions, and a limit keeps the least elements.
\<close>

locale slice_less =
  fixes ok :: "'a \<Rightarrow> bool" and lt :: "'a \<Rightarrow> 'a \<Rightarrow> bool"
  assumes asym: "ok a \<Longrightarrow> ok b \<Longrightarrow> lt a b \<Longrightarrow> \<not> lt b a"
    and neg_trans: "ok a \<Longrightarrow> ok b \<Longrightarrow> ok c \<Longrightarrow> \<not> lt a b \<Longrightarrow> \<not> lt b c \<Longrightarrow> \<not> lt a c"
begin

abbreviation inorder :: "'a list \<Rightarrow> bool" where
  "inorder \<equiv> sorted_wrt (\<lambda>a b. \<not> lt b a)"

lemma inorder_insert_by:
  assumes "\<forall>y \<in> set ys. ok y" and "ok x" and "inorder ys"
  shows "inorder (insert_by lt x ys)"
  using assms
proof (induction ys)
  case (Cons y ys)
  show ?case
  proof (cases "lt x y")
    case True
    then have "\<not> lt z x" if "z \<in> set (y # ys)" for z
      using that Cons.prems asym [of x y] neg_trans [of z y x] by auto
    with True Cons.prems show ?thesis by auto
  next
    case False
    with Cons show ?thesis by auto
  qed
qed simp

lemma inorder_foldl:
  assumes "\<forall>x \<in> set xs \<union> set acc. ok x" and "inorder acc"
  shows "inorder (foldl (\<lambda>acc x. insert_by lt x acc) acc xs)"
  using assms by (induction xs arbitrary: acc) (auto simp: inorder_insert_by)

lemma inorder_sort_slice: "\<forall>x \<in> set xs. ok x \<Longrightarrow> inorder (sort_slice lt xs)"
  by (simp add: sort_slice_def inorder_foldl)

lemma inorder_unique:
  assumes "inorder xs" and "inorder ys" and "mset xs = mset ys"
    and "\<forall>a \<in> set xs. \<forall>b \<in> set xs. \<not> lt a b \<and> \<not> lt b a \<longrightarrow> a = b"
  shows "xs = ys"
  using assms
proof (induction xs arbitrary: ys)
  case (Cons a xs)
  obtain b ys' where ys: "ys = b # ys'" using Cons.prems(3) by (cases ys) auto
  have "b \<in> set (a # xs)" "a \<in> set ys" using Cons.prems(3) ys by (metis list.set_intros(1) mset_eq_setD)+
  then have "a = b" using Cons.prems(1,2,4) ys by auto
  then show ?case using Cons ys by auto
qed simp

lemma inorder_take_drop:
  "inorder xs \<Longrightarrow> a \<in> set (take n xs) \<Longrightarrow> b \<in> set (drop n xs) \<Longrightarrow> \<not> lt b a"
  by (metis append_take_drop_id sorted_wrt_append)

end


text \<open>Two orders that agree on the elements sort alike.\<close>

lemma insert_by_cong:
  "\<forall>y \<in> set ys. lt x y = lt' x y \<Longrightarrow> insert_by lt x ys = insert_by lt' x ys"
  by (induction ys) auto

lemma sort_slice_cong:
  assumes "\<forall>x \<in> set xs. \<forall>y \<in> set xs. lt x y = lt' x y"
  shows "sort_slice lt xs = sort_slice lt' xs"
proof -
  have "set acc \<subseteq> set xs \<Longrightarrow> set zs \<subseteq> set xs \<Longrightarrow>
      foldl (\<lambda>acc x. insert_by lt x acc) acc zs = foldl (\<lambda>acc x. insert_by lt' x acc) acc zs" for acc zs
  proof (induction zs arbitrary: acc)
    case (Cons z zs)
    then have "insert_by lt z acc = insert_by lt' z acc" using assms by (intro insert_by_cong) auto
    then show ?case using Cons.IH [of "insert_by lt' z acc"] Cons.prems by simp
  qed simp
  then show ?thesis by (simp add: sort_slice_def)
qed


section \<open>Limits, membership loops, range orders\<close>

text \<open>
  \<^verbatim>\<open>if limit > 0 && len(out) > limit { out = out[:limit] }\<close>
\<close>

definition limit_slice :: "int \<Rightarrow> 'a list \<Rightarrow> 'a list" where
  "limit_slice limit out =
     (if 0 < limit \<and> limit < int (length out) then take (nat limit) out else out)"

lemma set_limit_slice: "set (limit_slice n xs) \<subseteq> set xs"
  by (auto simp: limit_slice_def dest: in_set_takeD)

lemma length_limit_slice:
  "length (limit_slice n xs) = (if 0 < n then min (nat n) (length xs) else length xs)"
  by (auto simp: limit_slice_def)

lemma limit_slice_take: "limit_slice n xs = take (if 0 < n then nat n else length xs) xs"
  by (auto simp: limit_slice_def)

lemma limit_slice_nolimit [simp]: "limit_slice 0 xs = xs"
  by (simp add: limit_slice_def)

text \<open>
  The loop \<^verbatim>\<open>match := false; for _, s := range xs { if x == s { match = true; break } }\<close>.
\<close>

fun match_any :: "'a \<Rightarrow> 'a list \<Rightarrow> bool" where
  "match_any x [] = False"
| "match_any x (s # ss) = (if x = s then True else match_any x ss)"

lemma match_any_iff [simp]: "match_any x ss \<longleftrightarrow> x \<in> set ss"
  by (induction ss) auto

definition range_order :: "('a list \<Rightarrow> 'a list) \<Rightarrow> bool" where
  "range_order rng \<longleftrightarrow> (\<forall>xs. mset (rng xs) = mset xs)"

lemma range_order_set: "range_order rng \<Longrightarrow> set (rng xs) = set xs"
  by (metis range_order_def set_mset_mset)

lemma range_order_length: "range_order rng \<Longrightarrow> length (rng xs) = length xs"
  by (metis range_order_def size_mset)

lemma range_order_mset: "range_order rng \<Longrightarrow> mset (rng xs) = mset xs"
  by (simp add: range_order_def)

lemma range_order_id [simp]: "range_order (\<lambda>xs. xs)"
  by (simp add: range_order_def)

lemma range_order_rev [simp]: "range_order rev"
  by (simp add: range_order_def)


text \<open>
  What a sorted and limited query owes its caller: the result is part of the candidates
  in order, as long as the limit allows, and nothing left out precedes anything returned.
\<close>

definition top_rows :: "('a \<Rightarrow> 'a \<Rightarrow> bool) \<Rightarrow> int \<Rightarrow> 'a list \<Rightarrow> 'a list \<Rightarrow> bool" where
  "top_rows lt n xs out \<longleftrightarrow>
     sorted_wrt (\<lambda>a b. \<not> lt b a) out
     \<and> (\<exists>rest. mset xs = mset out + mset rest \<and> (\<forall>a \<in> set out. \<forall>b \<in> set rest. \<not> lt b a))
     \<and> length out = (if 0 < n then min (nat n) (length xs) else length xs)"

context slice_less
begin

lemma top_rows_sort:
  assumes "\<forall>x \<in> set xs. ok x"
  shows "top_rows lt n xs (limit_slice n (sort_slice lt xs))"
proof -
  let ?s = "sort_slice lt xs" and ?k = "if 0 < n then nat n else length xs"
  have srt: "inorder ?s" using assms by (rule inorder_sort_slice)
  have lim: "limit_slice n ?s = take ?k ?s" by (simp add: limit_slice_take)
  have "mset xs = mset (take ?k ?s) + mset (drop ?k ?s)"
    by (metis append_take_drop_id mset_append mset_sort_slice)
  moreover have "\<forall>a \<in> set (take ?k ?s). \<forall>b \<in> set (drop ?k ?s). \<not> lt b a"
    using inorder_take_drop [OF srt] by blast
  moreover have "inorder (take ?k ?s)" using srt by (rule sorted_wrt_take)
  ultimately show ?thesis unfolding top_rows_def lim
    by (intro conjI exI [of _ "drop ?k ?s"]) auto
qed

end

lemma top_rows_mset: "mset xs = mset ys \<Longrightarrow> top_rows lt n xs out \<longleftrightarrow> top_rows lt n ys out"
  using mset_eq_length [of xs ys] by (simp add: top_rows_def)

lemma top_rows_subset: "top_rows lt n xs out \<Longrightarrow> set out \<subseteq> set xs"
  by (auto simp: top_rows_def dest: arg_cong [where f = set_mset])

lemma mset_filter_range: "range_order rng \<Longrightarrow> mset (filter p (rng xs)) = mset (filter p xs)"
  by (simp add: range_order_mset)


section \<open>Maps as association lists\<close>

abbreviation keys_of :: "('k \<times> 'v) list \<Rightarrow> 'k list" where
  "keys_of m \<equiv> map fst m"

abbreviation rows_of :: "('k \<times> 'v) list \<Rightarrow> 'v list" where
  "rows_of m \<equiv> map snd m"

lemma rows_of_iff: "distinct (keys_of m) \<Longrightarrow> v \<in> set (rows_of m) \<longleftrightarrow> (\<exists>k. map_of m k = Some v)"
  by (metis (no_types, lifting) image_iff list.set_map map_of_SomeD map_of_eq_Some_iff snd_conv surj_pair)

lemma map_of_update [simp]: "map_of (AList.update k v m) = (map_of m)(k \<mapsto> v)"
  by (rule update_conv')

lemma distinct_keys_update: "distinct (keys_of m) \<Longrightarrow> distinct (keys_of (AList.update k v m))"
  by (rule distinct_update)

lemma length_update_new:
  "k \<notin> set (keys_of m) \<Longrightarrow> length (AList.update k v m) = Suc (length m)"
  by (induction m) auto

lemma length_update_old: "k \<in> set (keys_of m) \<Longrightarrow> length (AList.update k v m) = length m"
  by (induction m) auto

text \<open>
  A table: rows stored under the text of their identifier, every row acceptable.
\<close>

definition table_wf :: "('i \<Rightarrow> string) \<Rightarrow> ('v \<Rightarrow> 'i) \<Rightarrow> ('v \<Rightarrow> bool) \<Rightarrow> (string \<times> 'v) list \<Rightarrow> bool" where
  "table_wf str ident ok m \<longleftrightarrow>
     distinct (keys_of m) \<and> (\<forall>(k, v) \<in> set m. k = str (ident v) \<and> ok v)"

lemma table_wf_Nil [simp]: "table_wf str ident ok []"
  by (simp add: table_wf_def)

lemma set_update: "set (AList.update k v m) \<subseteq> insert (k, v) (set m)"
  by (induction m) auto

lemma table_wf_update:
  "table_wf str ident ok m \<Longrightarrow> ok v \<Longrightarrow> table_wf str ident ok (AList.update (str (ident v)) v m)"
  using set_update [of "str (ident v)" v m] by (auto simp: table_wf_def distinct_update)

lemma table_wf_lookup:
  "table_wf str ident ok m \<Longrightarrow> map_of m k = Some v \<Longrightarrow> k = str (ident v) \<and> ok v"
  by (auto simp: table_wf_def dest: map_of_SomeD)

lemma table_wf_rows:
  "table_wf str ident ok m \<Longrightarrow> v \<in> set (rows_of m) \<longleftrightarrow> map_of m (str (ident v)) = Some v"
  using table_wf_lookup [of str ident ok m] rows_of_iff [of m v] unfolding table_wf_def by blast

lemma table_wf_ok: "table_wf str ident ok m \<Longrightarrow> v \<in> set (rows_of m) \<Longrightarrow> ok v"
  by (auto simp: table_wf_def)

lemma table_wf_keys: "table_wf str ident ok m \<Longrightarrow> keys_of m = map (\<lambda>v. str (ident v)) (rows_of m)"
  by (induction m) (auto simp: table_wf_def)

lemma table_wf_distinct:
  assumes "table_wf str ident ok m"
  shows "distinct (map ident (rows_of m))"
proof -
  have "distinct (keys_of m)" using assms by (simp add: table_wf_def)
  then have "distinct (map str (map ident (rows_of m)))"
    using table_wf_keys [OF assms] by (metis (no_types, lifting) list.map_comp map_eq_conv comp_apply)
  then show ?thesis by (meson distinct_map)
qed

lemma map_of_in_keys: "map_of m k = Some v \<Longrightarrow> k \<in> set (keys_of m)"
  by (metis domI dom_map_of_conv_image_fst list.set_map)

end
