(* ===== verification/Go_Float64.thy ===== *)
theory Go_Float64
  imports Complex_Main "HOL-Library.Log_Nat" Prelude
begin

text \<open>
  Go's \<^verbatim>\<open>float64\<close>: IEEE 754 binary64 with rounding to nearest, ties to even.
  A finite value is the rational number it denotes; arithmetic is exact rational
  arithmetic followed by \<open>f_round\<close>, which rounds to 53 significant bits (fewer below
  $2^{-1022}$) and overflows to an infinity. Comparisons are the IEEE ones: every
  comparison with NaN is false. The two zeros are identified: the programs modelled
  here never divide by a zero and never print a signed one.

  The lemmas show that rounding is monotone, that the comparisons form a linear order
  away from NaN, and that addition of non-NaN values is monotone; the engine proofs
  need nothing else about rounding.
\<close>

section \<open>Rounding\<close>

text \<open>Round a rational to an integer, halves to even.\<close>

definition rhe :: "rat \<Rightarrow> int" where
  "rhe x = (let f = \<lfloor>x\<rfloor>; d = x - of_int f in
     if d < 1/2 then f else if 1/2 < d then f + 1 else if even f then f else f + 1)"

text \<open>The exponent of the leading bit of a positive rational.\<close>

definition ilog2 :: "rat \<Rightarrow> int" where
  "ilog2 x = (case quotient_of x of (p, q) \<Rightarrow>
     let k = bitlen p - bitlen q in if 2 powi k \<le> x then k else k - 1)"

text \<open>The exponent of the last place: 53 bits, but never below the subnormal unit.\<close>

definition gexp :: "rat \<Rightarrow> int" where
  "gexp x = max (- 1074) (ilog2 \<bar>x\<bar> - 52)"

definition round_rat :: "rat \<Rightarrow> rat" where
  "round_rat x = (if x = 0 then 0
     else of_int (rhe (x / 2 powi gexp x)) * 2 powi gexp x)"

datatype float64 = NaN | PInf | NInf | Fin rat

definition f_round :: "rat \<Rightarrow> float64" where
  "f_round x = (let y = round_rat x in
     if y \<noteq> 0 \<and> 1024 \<le> ilog2 \<bar>y\<bar> then (if 0 < y then PInf else NInf) else Fin y)"

lemma rhe_of_int [simp]: "rhe (of_int m) = m"
  by (simp add: rhe_def)

lemma rhe_mono: "x \<le> y \<Longrightarrow> rhe x \<le> rhe y"
proof -
  assume le: "x \<le> y"
  then have f: "\<lfloor>x\<rfloor> \<le> \<lfloor>y\<rfloor>" by (rule floor_mono)
  show ?thesis
  proof (cases "\<lfloor>x\<rfloor> = \<lfloor>y\<rfloor>")
    case True
    with le show ?thesis by (auto simp: rhe_def Let_def)
  next
    case False
    with f have "\<lfloor>x\<rfloor> + 1 \<le> \<lfloor>y\<rfloor>" by simp
    then show ?thesis by (auto simp: rhe_def Let_def)
  qed
qed

lemma rhe_uminus: "rhe (- x) = - rhe x"
proof (cases "x = of_int \<lfloor>x\<rfloor>")
  case True
  then show ?thesis by (metis of_int_minus rhe_of_int)
next
  case False
  then have "\<lfloor>- x\<rfloor> = - \<lfloor>x\<rfloor> - 1"
    by (simp add: floor_minus ceiling_altdef)
  then show ?thesis using False by (auto simp: rhe_def Let_def)
qed

lemma ilog2_bounds:
  assumes "0 < x"
  shows "2 powi ilog2 x \<le> x" and "x < 2 powi (ilog2 x + 1)"
proof -
  obtain p q where pq: "quotient_of x = (p, q)" by (cases "quotient_of x")
  then have q: "0 < q" by (rule quotient_of_denom_pos)
  have x: "x = of_int p / of_int q" using pq by (rule quotient_of_div)
  with assms q have p: "0 < p" by (simp add: zero_less_divide_iff)
  let ?k = "bitlen p - bitlen q"
  have bp: "bitlen p \<ge> 1" and bq: "bitlen q \<ge> 1"
    using p q by (auto simp: bitlen_alt_def)
  have pl: "2 powi (bitlen p - 1) \<le> (of_int p :: rat)" and pu: "(of_int p :: rat) < 2 powi bitlen p"
    using bitlen_bounds [OF p] bp by (auto simp: power_int_def nat_diff_distrib)
  have ql: "2 powi (bitlen q - 1) \<le> (of_int q :: rat)" and qu: "(of_int q :: rat) < 2 powi bitlen q"
    using bitlen_bounds [OF q] bq by (auto simp: power_int_def nat_diff_distrib)
  have "x < 2 powi bitlen p / 2 powi (bitlen q - 1)"
    unfolding x using pu ql p q by (intro frac_less) auto
  also have "\<dots> = 2 powi (?k + 1)"
    by (simp flip: power_int_diff add: algebra_simps)
  finally have up: "x < 2 powi (?k + 1)" .
  have "2 powi (?k - 1) = (2 powi (bitlen p - 1) / 2 powi bitlen q :: rat)"
    by (simp flip: power_int_diff add: algebra_simps)
  also have "\<dots> \<le> x"
    unfolding x using pl qu p q by (intro frac_le) auto
  finally have lo: "2 powi (?k - 1) \<le> x" .
  show "2 powi ilog2 x \<le> x" "x < 2 powi (ilog2 x + 1)"
    using up lo by (auto simp: ilog2_def pq Let_def)
qed


lemma powi_less_imp: "(2::rat) powi a < 2 powi b \<Longrightarrow> a < b"
  by (metis linorder_not_less numeral_One power_int_increasing numeral_le_iff semiring_norm(68) one_le_numeral)

lemma ilog2_mono: "0 < x \<Longrightarrow> x \<le> y \<Longrightarrow> ilog2 x \<le> ilog2 y"
proof -
  assume x: "0 < x" "x \<le> y"
  have "2 powi ilog2 x \<le> x" using x by (intro ilog2_bounds)
  also have "\<dots> < 2 powi (ilog2 y + 1)" using x ilog2_bounds(2) [of y] by linarith
  finally have "ilog2 x < ilog2 y + 1" by (rule powi_less_imp)
  then show ?thesis by simp
qed

lemma gexp_mono: "0 < x \<Longrightarrow> x \<le> y \<Longrightarrow> gexp x \<le> gexp y"
  using ilog2_mono [of x y] by (auto simp: gexp_def)

lemma powi_of_int: "0 \<le> n \<Longrightarrow> (2::rat) powi n = of_int (2 ^ nat n)"
  by (simp add: power_int_def)

lemma round_rat_uminus: "round_rat (- x) = - round_rat x"
  by (simp add: round_rat_def gexp_def rhe_uminus)

lemma round_rat_0 [simp]: "round_rat 0 = 0"
  by (simp add: round_rat_def)

lemma round_rat_nonneg: "0 \<le> x \<Longrightarrow> 0 \<le> round_rat x"
proof -
  assume "0 \<le> x"
  then have "rhe (of_int 0) \<le> rhe (x / 2 powi gexp x)" by (intro rhe_mono) simp
  then have "0 \<le> rhe (x / 2 powi gexp x)" by (simp only: rhe_of_int)
  then show ?thesis by (simp add: round_rat_def)
qed

lemma rhe_le_powi: "y \<le> 2 powi n \<Longrightarrow> 0 \<le> n \<Longrightarrow> of_int (rhe y) \<le> (2::rat) powi n"
  using rhe_mono [of y "of_int (2 ^ nat n)"] by (simp add: powi_of_int del: of_int_power)

lemma rhe_ge_powi: "2 powi n \<le> y \<Longrightarrow> 0 \<le> n \<Longrightarrow> (2::rat) powi n \<le> of_int (rhe y)"
  using rhe_mono [of "of_int (2 ^ nat n)" y] by (simp add: powi_of_int del: of_int_power)

lemma round_rat_mono_pos:
  assumes x: "0 < x" and xy: "x \<le> y"
  shows "round_rat x \<le> round_rat y"
proof (cases "gexp x = gexp y")
  case True
  have "rhe (x / 2 powi gexp y) \<le> rhe (y / 2 powi gexp y)"
    using xy by (intro rhe_mono divide_right_mono) auto
  then show ?thesis using x xy True by (simp add: round_rat_def)
next
  case False
  with gexp_mono [OF x xy] have lt: "gexp x < gexp y" by simp
  then have ey: "gexp y = ilog2 y - 52" using x xy by (auto simp: gexp_def)
  have "ilog2 x < ilog2 y" using lt x xy by (auto simp: gexp_def)
  then have "x < 2 powi ilog2 y"
    using ilog2_bounds(2) [OF x] power_int_increasing [of "ilog2 x + 1" "ilog2 y" "2::rat"] by simp
  then have "x / 2 powi gexp x \<le> 2 powi (ilog2 y - gexp x)"
    by (simp add: power_int_diff divide_right_mono)
  then have "of_int (rhe (x / 2 powi gexp x)) \<le> (2::rat) powi (ilog2 y - gexp x)"
    using lt ey by (intro rhe_le_powi) auto
  then have lo: "round_rat x \<le> 2 powi ilog2 y"
    using x by (simp add: round_rat_def power_int_diff field_simps)
  have "2 powi 52 \<le> y / 2 powi gexp y"
    using ilog2_bounds(1) [of y] x xy by (simp add: ey power_int_diff field_simps)
  then have "(2::rat) powi 52 \<le> of_int (rhe (y / 2 powi gexp y))" by (intro rhe_ge_powi) auto
  then have "(2::rat) powi 52 * 2 powi gexp y \<le> round_rat y"
    using x xy by (simp add: round_rat_def)
  then have "2 powi ilog2 y \<le> round_rat y"
    by (simp add: ey power_int_diff field_simps)
  with lo show ?thesis by simp
qed

lemma round_rat_mono: "x \<le> y \<Longrightarrow> round_rat x \<le> round_rat y"
proof -
  assume xy: "x \<le> y"
  consider "0 < x" | "x \<le> 0" "0 \<le> y" | "y < 0" by linarith
  then show ?thesis
  proof cases
    case 1 then show ?thesis using xy by (rule round_rat_mono_pos)
  next
    case 2
    then show ?thesis
      using round_rat_nonneg [of y] round_rat_nonneg [of "- x"] by (simp add: round_rat_uminus)
  next
    case 3
    then show ?thesis
      using round_rat_mono_pos [of "- y" "- x"] xy by (simp add: round_rat_uminus)
  qed
qed


section \<open>Comparisons\<close>

fun f_lt :: "float64 \<Rightarrow> float64 \<Rightarrow> bool" where
  "f_lt (Fin a) (Fin b) = (a < b)"
| "f_lt NInf (Fin b) = True"
| "f_lt NInf PInf = True"
| "f_lt (Fin a) PInf = True"
| "f_lt _ _ = False"

definition f_le :: "float64 \<Rightarrow> float64 \<Rightarrow> bool" where
  "f_le x y \<longleftrightarrow> f_lt x y \<or> (x = y \<and> x \<noteq> NaN)"

definition f_sgn :: "float64 \<Rightarrow> int" where
  "f_sgn x = (case x of NaN \<Rightarrow> 0 | PInf \<Rightarrow> 1 | NInf \<Rightarrow> - 1
     | Fin a \<Rightarrow> (if 0 < a then 1 else if a < 0 then - 1 else 0))"

instantiation float64 :: "{ord, zero, one, plus, times, uminus}"
begin

definition less_float64 :: "float64 \<Rightarrow> float64 \<Rightarrow> bool" where
  "less_float64 = f_lt"

definition less_eq_float64 :: "float64 \<Rightarrow> float64 \<Rightarrow> bool" where
  "less_eq_float64 = f_le"

definition zero_float64 :: float64 where
  "zero_float64 = Fin 0"

definition one_float64 :: float64 where
  "one_float64 = Fin 1"

fun uminus_float64 :: "float64 \<Rightarrow> float64" where
  "uminus_float64 NaN = NaN"
| "uminus_float64 PInf = NInf"
| "uminus_float64 NInf = PInf"
| "uminus_float64 (Fin a) = Fin (- a)"

fun plus_float64 :: "float64 \<Rightarrow> float64 \<Rightarrow> float64" where
  "plus_float64 (Fin a) (Fin b) = f_round (a + b)"
| "plus_float64 NaN y = NaN"
| "plus_float64 x NaN = NaN"
| "plus_float64 PInf NInf = NaN"
| "plus_float64 NInf PInf = NaN"
| "plus_float64 PInf y = PInf"
| "plus_float64 NInf y = NInf"
| "plus_float64 x PInf = PInf"
| "plus_float64 x NInf = NInf"

definition times_float64 :: "float64 \<Rightarrow> float64 \<Rightarrow> float64" where
  "times_float64 x y =
     (if x = NaN \<or> y = NaN then NaN
      else case (x, y) of
        (Fin a, Fin b) \<Rightarrow> f_round (a * b)
      | _ \<Rightarrow> (let s = f_sgn x * f_sgn y in
               if s = 0 then NaN else if 0 < s then PInf else NInf))"

instance ..

end

text \<open>
  A decimal literal and an \<^verbatim>\<open>int\<close> conversion are the correctly rounded value;
  division is used with non-zero finite divisors only; \<open>f_eq\<close> is Go's \<^verbatim>\<open>==\<close>.
\<close>

abbreviation f_lit :: "rat \<Rightarrow> float64" where
  "f_lit \<equiv> f_round"

definition f_of_int :: "int \<Rightarrow> float64" where
  "f_of_int i = f_round (of_int i)"

fun f_div :: "float64 \<Rightarrow> float64 \<Rightarrow> float64" where
  "f_div (Fin a) (Fin b) = (if b \<noteq> 0 then f_round (a / b)
     else if a = 0 then NaN else if 0 < a then PInf else NInf)"
| "f_div NaN y = NaN"
| "f_div x NaN = NaN"
| "f_div (Fin a) y = Fin 0"
| "f_div PInf (Fin b) = (if b < 0 then NInf else PInf)"
| "f_div NInf (Fin b) = (if b < 0 then PInf else NInf)"
| "f_div _ _ = NaN"

definition f_eq :: "float64 \<Rightarrow> float64 \<Rightarrow> bool" where
  "f_eq x y \<longleftrightarrow> x = y \<and> x \<noteq> NaN"

lemmas float_less_defs = less_float64_def less_eq_float64_def f_le_def zero_float64_def one_float64_def

lemma less_float_simps [simp]:
  "(Fin a < Fin b) = (a < b)" "NInf < Fin b" "NInf < PInf" "Fin a < PInf"
  "\<not> NaN < y" "\<not> x < NaN" "\<not> PInf < y" "\<not> x < NInf"
  by (cases x; cases y; simp add: less_float64_def)+

lemma le_float_simps [simp]:
  "(Fin a \<le> Fin b) = (a \<le> b)" "NInf \<le> Fin b" "NInf \<le> PInf" "Fin a \<le> PInf" "PInf \<le> PInf" "NInf \<le> NInf"
  "\<not> NaN \<le> y" "\<not> x \<le> NaN" "\<not> PInf \<le> Fin b" "\<not> PInf \<le> NInf" "\<not> Fin a \<le> NInf"
  by (cases x; cases y; auto simp: float_less_defs)+

lemma f_not_less: "x \<noteq> NaN \<Longrightarrow> y \<noteq> NaN \<Longrightarrow> (\<not> x < y) = (y \<le> x)" for x y :: float64
  by (cases x; cases y) auto

lemma f_not_le: "x \<noteq> NaN \<Longrightarrow> y \<noteq> NaN \<Longrightarrow> (\<not> x \<le> y) = (y < x)" for x y :: float64
  by (cases x; cases y) auto

lemma f_le_refl: "x \<noteq> NaN \<Longrightarrow> x \<le> x" for x :: float64
  by (cases x) auto

lemma f_le_trans: "x \<le> y \<Longrightarrow> y \<le> z \<Longrightarrow> x \<le> z" for x y z :: float64
  by (cases x; cases y; cases z) auto

lemma f_le_less_trans: "x \<le> y \<Longrightarrow> y < z \<Longrightarrow> x < z" for x y z :: float64
  by (cases x; cases y; cases z) auto

lemma f_less_le_trans: "x < y \<Longrightarrow> y \<le> z \<Longrightarrow> x < z" for x y z :: float64
  by (cases x; cases y; cases z) auto

lemma f_less_asym: "x < y \<Longrightarrow> \<not> y < x" for x y :: float64
  by (cases x; cases y) auto

lemma f_less_imp_le: "x < y \<Longrightarrow> x \<le> y" for x y :: float64
  by (cases x; cases y) auto

lemma f_le_antisym: "x \<le> y \<Longrightarrow> y \<le> x \<Longrightarrow> x = y" for x y :: float64
  by (cases x; cases y) auto

lemma f_le_not_NaN: "x \<le> y \<Longrightarrow> x \<noteq> NaN \<and> y \<noteq> NaN" for x y :: float64
  by (cases x; cases y) auto


section \<open>Arithmetic\<close>

lemma f_round_not_NaN [simp]: "f_round x \<noteq> NaN" "NaN \<noteq> f_round x"
  by (auto simp: f_round_def Let_def)

lemma f_round_mono: "x \<le> y \<Longrightarrow> f_round x \<le> f_round y"
proof -
  assume "x \<le> y"
  then have r: "round_rat x \<le> round_rat y" by (rule round_rat_mono)
  have up: "ilog2 \<bar>round_rat x\<bar> \<le> ilog2 \<bar>round_rat y\<bar>" if "0 < round_rat x"
    using that r by (intro ilog2_mono) auto
  have dn: "ilog2 \<bar>round_rat y\<bar> \<le> ilog2 \<bar>round_rat x\<bar>" if "round_rat y < 0"
    using that r by (intro ilog2_mono) auto
  show ?thesis using r up dn by (auto simp: f_round_def Let_def)
qed

lemma f_round_0 [simp]: "f_round 0 = Fin 0"
  by (simp add: f_round_def)

lemma f_round_nonneg: "0 \<le> x \<Longrightarrow> 0 \<le> f_round x"
  using f_round_mono [of 0 x] by (simp add: zero_float64_def)

lemma plus_not_NaN: "0 \<le> x \<Longrightarrow> 0 \<le> y \<Longrightarrow> x + y \<noteq> NaN" for x y :: float64
  by (cases x; cases y) (auto simp: zero_float64_def)

lemma plus_nonneg: "0 \<le> x \<Longrightarrow> 0 \<le> y \<Longrightarrow> 0 \<le> x + y" for x y :: float64
  by (cases x; cases y) (auto simp: zero_float64_def f_round_nonneg [unfolded zero_float64_def])

lemma plus_mono_nonneg:
  "0 \<le> a \<Longrightarrow> a \<le> a' \<Longrightarrow> 0 \<le> b \<Longrightarrow> b \<le> b' \<Longrightarrow> a + b \<le> a' + b'" for a b :: float64
proof -
  assume h: "0 \<le> a" "a \<le> a'" "0 \<le> b" "b \<le> b'"
  have "f_round x \<le> PInf" for x by (cases "f_round x") (use f_round_not_NaN in auto)
  with h show ?thesis
    by (cases a; cases a'; cases b; cases b') (auto simp: zero_float64_def intro: f_round_mono)
qed

lemma times_nonneg: "0 \<le> x \<Longrightarrow> 0 < y \<Longrightarrow> y < PInf \<or> 0 < x \<Longrightarrow> 0 \<le> x * y" for x y :: float64
  by (cases x; cases y)
    (auto simp: zero_float64_def times_float64_def f_sgn_def Let_def
       f_round_nonneg [unfolded zero_float64_def])

lemma times_pos_nonneg: "0 < x \<Longrightarrow> 0 < y \<Longrightarrow> 0 \<le> x * y" for x y :: float64
  using times_nonneg [of x y] f_less_imp_le by blast

lemma f_nonneg_refl: "0 \<le> x \<Longrightarrow> x \<le> x" for x :: float64
  by (cases x) auto

lemma times_mono_finite:
  "0 \<le> a \<Longrightarrow> a \<le> a' \<Longrightarrow> 0 \<le> w \<Longrightarrow> Fin a * Fin w \<le> Fin a' * Fin w"
  by (auto simp: times_float64_def intro!: f_round_mono mult_right_mono)

lemma f_sign_cases: "x \<noteq> NaN \<Longrightarrow> x < 0 \<or> x = 0 \<or> 0 < x" for x :: float64
  by (cases x) (auto simp: zero_float64_def)

lemma zero_le_one_float [simp]: "(0::float64) \<le> 1" "(0::float64) < 1" "\<not> (1::float64) < 0"
  by (auto simp: zero_float64_def one_float64_def)


text \<open>Off NaN the comparison is a strict linear order.\<close>

lemma float_linear: "x \<noteq> NaN \<Longrightarrow> y \<noteq> NaN \<Longrightarrow> x < y \<or> x = y \<or> y < x" for x y :: float64
  by (cases x; cases y) auto

lemma float_irrefl [simp]: "\<not> x < x" for x :: float64
  by (cases x) auto

lemma float_less_trans: "x < y \<Longrightarrow> y < z \<Longrightarrow> x < z" for x y z :: float64
  by (cases x; cases y; cases z) auto

lemma f_eq_iff: "x \<noteq> NaN \<Longrightarrow> f_eq x y \<longleftrightarrow> x = y"
  by (cases x; cases y) (auto simp: f_eq_def)

end
