(* ===== verification/Go_Base.thy ===== *)
theory Go_Base
  imports Go_Float64 "HOL-Library.Word"
begin

text \<open>
  The parts of Go and its standard library the sources use: identifiers, instants and
  durations, dynamically typed values, errors with \<^verbatim>\<open>%w\<close> wrapping, and the
  string functions \<^verbatim>\<open>strings.TrimSpace\<close>, \<^verbatim>\<open>strconv.Quote\<close> (the verb
  \<^verbatim>\<open>%q\<close>), \<^verbatim>\<open>%d\<close> and \<^verbatim>\<open>%.2f\<close>.

  A Go string is its byte sequence, a \<^typ>\<open>string\<close>. An instant
  (\<^verbatim>\<open>time.Time\<close>) is the number of nanoseconds since the Unix epoch, so
  \<^verbatim>\<open>t.UTC()\<close>, which only changes the zone an instant is shown in, is the
  identity. A \<^verbatim>\<open>time.Duration\<close> is an integer of nanoseconds in the range of an
  \<^verbatim>\<open>int64\<close>; subtraction of instants saturates at that range and negation wraps.
\<close>

type_synonym uuid = "128 word"
type_synonym time = int
type_synonym duration = int

definition uuid_Nil :: uuid where
  "uuid_Nil = 0"

definition time_UTC :: "time \<Rightarrow> time" where
  "time_UTC t = t"

lemma time_UTC_id [simp]: "time_UTC t = t"
  by (simp add: time_UTC_def)

definition min_int64 :: int where "min_int64 = - (2 ^ 63)"
definition max_int64 :: int where "max_int64 = 2 ^ 63 - 1"

definition wrap64 :: "int \<Rightarrow> int" where
  "wrap64 i = (i + 2 ^ 63) mod 2 ^ 64 - 2 ^ 63"

text \<open>\<^verbatim>\<open>t.Sub(u)\<close> saturates; \<^verbatim>\<open>-d\<close> wraps around at the least duration.\<close>

definition time_Sub :: "time \<Rightarrow> time \<Rightarrow> duration" where
  "time_Sub t u = max min_int64 (min max_int64 (t - u))"

definition duration_neg :: "duration \<Rightarrow> duration" where
  "duration_neg d = wrap64 (- d)"

abbreviation second :: duration where "second \<equiv> 1000000000"
abbreviation minute :: duration where "minute \<equiv> 60 * second"
abbreviation hour :: duration where "hour \<equiv> 60 * minute"

text \<open>
  \<^verbatim>\<open>d.Seconds()\<close>: whole seconds and remaining nanoseconds by truncating division,
  each converted to \<^verbatim>\<open>float64\<close>, the latter divided by \<^verbatim>\<open>1e9\<close>.
\<close>

definition trunc_quot :: "int \<Rightarrow> int \<Rightarrow> int" where
  "trunc_quot a b = sgn a * sgn b * (\<bar>a\<bar> div \<bar>b\<bar>)"

definition trunc_rem :: "int \<Rightarrow> int \<Rightarrow> int" where
  "trunc_rem a b = a - b * trunc_quot a b"

definition duration_Seconds :: "duration \<Rightarrow> float64" where
  "duration_Seconds d =
     f_of_int (trunc_quot d second) + f_div (f_of_int (trunc_rem d second)) (Fin 1000000000)"

lemma wrap64_id: "min_int64 \<le> i \<Longrightarrow> i \<le> max_int64 \<Longrightarrow> wrap64 i = i"
  by (simp add: wrap64_def min_int64_def max_int64_def)

lemma duration_neg_id: "min_int64 < d \<Longrightarrow> d \<le> max_int64 \<Longrightarrow> duration_neg d = - d"
  by (simp add: duration_neg_def wrap64_id min_int64_def max_int64_def)

lemma time_Sub_le_iff: "w < max_int64 \<Longrightarrow> min_int64 \<le> w \<Longrightarrow> time_Sub t u \<le> w \<longleftrightarrow> t - u \<le> w"
  by (auto simp: time_Sub_def)

lemma time_Sub_nonneg: "u \<le> t \<Longrightarrow> 0 \<le> time_Sub t u"
  by (simp add: time_Sub_def min_int64_def max_int64_def)


section \<open>Dynamic values and errors\<close>

text \<open>
  A value of type \<^verbatim>\<open>any\<close> as the code stores it in \<^verbatim>\<open>map[string]any\<close>. The
  constructor is the dynamic type a type assertion tests: \<open>VList\<close> is an \<^verbatim>\<open>[]any\<close>,
  \<open>VSlice\<close> a slice of the named element type, \<open>VMap\<close> a \<^verbatim>\<open>map[string]any\<close>.
\<close>

datatype anyval =
    VNil
  | VBool bool
  | VInt int
  | VFloat float64
  | VString string
  | VTime time
  | VTimePtr "time option"
  | VList "anyval list"
  | VSlice string "anyval list"
  | VMap "(string \<times> anyval) list"
  | VStruct "(string \<times> anyval) list"

type_synonym anymap = "(string \<times> anyval) list"

text \<open>
  The sentinel errors of \<^verbatim>\<open>internal/domain/errors.go\<close>, with the operands their
  wrapping format strings print; \<open>ErrPlain\<close> is an \<^verbatim>\<open>errors.New\<close> or an error of a
  library, \<open>ErrWrap\<close> a \<^verbatim>\<open>fmt.Errorf\<close> with \<^verbatim>\<open>%w\<close>.
\<close>

datatype error =
    ErrCommitmentNotFound uuid
  | ErrDecisionNotFound uuid
  | ErrInterventionNotFound uuid
  | ErrGoalNotFound uuid
  | ErrTaskNotFound uuid
  | ErrInvalidTransition string string
  | ErrValidation string "anyval list"
  | ErrPlain string
  | ErrWrap string error

text \<open>\<^verbatim>\<open>errors.Is\<close> against a sentinel looks through the wrappers.\<close>

fun err_root :: "error \<Rightarrow> error" where
  "err_root (ErrWrap _ e) = err_root e"
| "err_root e = e"

type_synonym 'a result = "error + 'a"


section \<open>Strings\<close>

text \<open>
  The white space \<^verbatim>\<open>strings.TrimSpace\<close> removes is \<^verbatim>\<open>unicode.IsSpace\<close>; in UTF-8 it is
  the following byte sequences. Matching a whole sequence at an end of the string is what
  decoding the first or the last rune there does, since every one of them is a complete
  encoding.
\<close>

definition space_seqs :: "string list" where
  "space_seqs =
     [[CHR 0x09], [CHR 0x0A], [CHR 0x0B], [CHR 0x0C], [CHR 0x0D], [CHR 0x20],
      [CHR 0xC2, CHR 0x85], [CHR 0xC2, CHR 0xA0], [CHR 0xE1, CHR 0x9A, CHR 0x80],
      [CHR 0xE2, CHR 0x80, CHR 0x80], [CHR 0xE2, CHR 0x80, CHR 0x81],
      [CHR 0xE2, CHR 0x80, CHR 0x82], [CHR 0xE2, CHR 0x80, CHR 0x83],
      [CHR 0xE2, CHR 0x80, CHR 0x84], [CHR 0xE2, CHR 0x80, CHR 0x85],
      [CHR 0xE2, CHR 0x80, CHR 0x86], [CHR 0xE2, CHR 0x80, CHR 0x87],
      [CHR 0xE2, CHR 0x80, CHR 0x88], [CHR 0xE2, CHR 0x80, CHR 0x89],
      [CHR 0xE2, CHR 0x80, CHR 0x8A], [CHR 0xE2, CHR 0x80, CHR 0xA8],
      [CHR 0xE2, CHR 0x80, CHR 0xA9], [CHR 0xE2, CHR 0x80, CHR 0xAF],
      [CHR 0xE2, CHR 0x81, CHR 0x9F], [CHR 0xE3, CHR 0x80, CHR 0x80]]"

definition starts_with :: "string \<Rightarrow> string \<Rightarrow> bool" where
  "starts_with p s \<longleftrightarrow> take (length p) s = p"

function trim_seqs :: "string list \<Rightarrow> string \<Rightarrow> string" where
  "trim_seqs ps s =
     (case find (\<lambda>p. p \<noteq> [] \<and> starts_with p s) ps of
        None \<Rightarrow> s
      | Some p \<Rightarrow> trim_seqs ps (drop (length p) s))"
  by pat_completeness auto
termination
proof (relation "measure (\<lambda>(ps, s). length s)", simp)
  fix ps s p
  assume "find (\<lambda>p. p \<noteq> [] \<and> starts_with p s) ps = Some p"
  then have p: "p \<noteq> []" "starts_with p s" by (auto simp: find_Some_iff)
  then have "s \<noteq> []" by (auto simp: starts_with_def)
  with p show "((ps, drop (length p) s), (ps, s)) \<in> measure (\<lambda>(ps, s). length s)" by simp
qed

declare trim_seqs.simps [simp del]

definition TrimSpace :: "string \<Rightarrow> string" where
  "TrimSpace s = rev (trim_seqs (map rev space_seqs) (rev (trim_seqs space_seqs s)))"

lemma trim_seqs_Nil [simp]: "trim_seqs ps [] = []"
proof -
  have "\<not> (p \<noteq> [] \<and> starts_with p [])" for p by (auto simp: starts_with_def)
  then have "find (\<lambda>p. p \<noteq> [] \<and> starts_with p []) ps = None" by (simp add: find_None_iff)
  then show ?thesis by (subst trim_seqs.simps) simp
qed

lemma TrimSpace_Nil [simp]: "TrimSpace [] = []"
  by (simp add: TrimSpace_def)

text \<open>A character that belongs to no white space sequence survives trimming.\<close>

lemma trim_seqs_keeps:
  assumes "c \<in> set s" and "c \<notin> \<Union> (set ` set ps)"
  shows "c \<in> set (trim_seqs ps s)"
  using assms
proof (induction ps s rule: trim_seqs.induct)
  case (1 ps s)
  show ?case
  proof (cases "find (\<lambda>p. p \<noteq> [] \<and> starts_with p s) ps")
    case None
    with "1.prems" show ?thesis by (subst trim_seqs.simps) simp
  next
    case (Some p)
    then have p: "p \<in> set ps" "starts_with p s" by (auto simp: find_Some_iff)
    have "s = p @ drop (length p) s"
      using p(2) by (metis append_take_drop_id starts_with_def)
    moreover have "c \<notin> set p" using p(1) "1.prems"(2) by auto
    ultimately have "c \<in> set (drop (length p) s)"
      using "1.prems"(1) by (metis Un_iff set_append)
    with "1.IH" [OF Some] "1.prems"(2) Some show ?thesis
      by (subst trim_seqs.simps) simp
  qed
qed

lemma TrimSpace_nonempty:
  assumes "c \<in> set s" and "c \<notin> \<Union> (set ` set space_seqs)"
  shows "TrimSpace s \<noteq> []"
proof -
  have "c \<in> set (trim_seqs space_seqs s)" using assms by (rule trim_seqs_keeps)
  moreover have "\<Union> (set ` set (map rev space_seqs)) = \<Union> (set ` set space_seqs)" by simp
  ultimately have "c \<in> set (trim_seqs (map rev space_seqs) (rev (trim_seqs space_seqs s)))"
    using assms(2) by (intro trim_seqs_keeps) auto
  then show ?thesis by (auto simp: TrimSpace_def)
qed

text \<open>Trimming is idempotent: what is left neither starts nor ends with white space.\<close>

lemma trim_seqs_suffix: "\<exists>u. s = u @ trim_seqs ps s"
proof (induction ps s rule: trim_seqs.induct)
  case (1 ps s)
  show ?case
  proof (cases "find (\<lambda>p. p \<noteq> [] \<and> starts_with p s) ps")
    case None
    then have "trim_seqs ps s = s" by (subst trim_seqs.simps) simp
    then show ?thesis by simp
  next
    case (Some p)
    obtain u where "drop (length p) s = u @ trim_seqs ps (drop (length p) s)"
      using "1.IH" [OF Some] by blast
    then have "s = (take (length p) s @ u) @ trim_seqs ps (drop (length p) s)"
      by (metis append.assoc append_take_drop_id)
    moreover have "trim_seqs ps s = trim_seqs ps (drop (length p) s)"
      using Some by (subst trim_seqs.simps) simp
    ultimately show ?thesis by metis
  qed
qed

lemma trim_seqs_stuck: "find (\<lambda>p. p \<noteq> [] \<and> starts_with p (trim_seqs ps s)) ps = None"
proof (induction ps s rule: trim_seqs.induct)
  case (1 ps s)
  show ?case
  proof (cases "find (\<lambda>p. p \<noteq> [] \<and> starts_with p s) ps")
    case None
    then have "trim_seqs ps s = s" by (subst trim_seqs.simps) simp
    with None show ?thesis by simp
  next
    case (Some p)
    then have "trim_seqs ps s = trim_seqs ps (drop (length p) s)" by (subst trim_seqs.simps) simp
    with "1.IH" [OF Some] show ?thesis by simp
  qed
qed

lemma trim_seqs_fix: "find (\<lambda>p. p \<noteq> [] \<and> starts_with p s) ps = None \<Longrightarrow> trim_seqs ps s = s"
  by (subst trim_seqs.simps) simp

lemma starts_with_append: "starts_with p t \<Longrightarrow> starts_with p (t @ u)"
  by (metis append.assoc append_eq_conv_conj append_take_drop_id starts_with_def)

lemma TrimSpace_idem [simp]: "TrimSpace (TrimSpace s) = TrimSpace s"
proof -
  let ?u = "trim_seqs space_seqs s"
  let ?r = "trim_seqs (map rev space_seqs) (rev ?u)"
  obtain v where v: "rev ?u = v @ ?r" using trim_seqs_suffix by blast
  then have u: "?u = rev ?r @ rev v" by (metis rev_append rev_rev_ident)
  have "\<not> (p \<noteq> [] \<and> starts_with p (rev ?r))" if "p \<in> set space_seqs" for p
    using that trim_seqs_stuck [of space_seqs s] starts_with_append [of p "rev ?r" "rev v"] u
    by (metis (mono_tags, lifting) find_None_iff)
  then have "find (\<lambda>p. p \<noteq> [] \<and> starts_with p (rev ?r)) space_seqs = None"
    by (metis (mono_tags, lifting) find_None_iff)
  then have l: "trim_seqs space_seqs (rev ?r) = rev ?r" by (rule trim_seqs_fix)
  have "trim_seqs (map rev space_seqs) ?r = ?r" by (rule trim_seqs_fix) (rule trim_seqs_stuck)
  with l show ?thesis by (simp add: TrimSpace_def)
qed


subsection \<open>The verbs of fmt.Sprintf\<close>

definition digit_char :: "nat \<Rightarrow> char" where
  "digit_char d = char_of (48 + d)"

fun nat_dec :: "nat \<Rightarrow> string" where
  "nat_dec n = (if n < 10 then [digit_char n] else nat_dec (n div 10) @ [digit_char (n mod 10)])"

declare nat_dec.simps [simp del]

text \<open>\<^verbatim>\<open>%d\<close> of an \<^verbatim>\<open>int\<close>.\<close>

definition fmt_d :: "int \<Rightarrow> string" where
  "fmt_d i = (if i < 0 then ''-'' @ nat_dec (nat (- i)) else nat_dec (nat i))"

text \<open>\<^verbatim>\<open>%.2f\<close>: the exact value rounded to two decimals, halves to even.\<close>

definition fmt_2f :: "float64 \<Rightarrow> string" where
  "fmt_2f x = (case x of
       NaN \<Rightarrow> ''NaN'' | PInf \<Rightarrow> ''+Inf'' | NInf \<Rightarrow> ''-Inf''
     | Fin a \<Rightarrow> (let n = nat (rhe (\<bar>a\<bar> * 100)) in
         (if a < 0 then ''-'' else []) @ nat_dec (n div 100) @ ''.'' @
         [digit_char (n mod 100 div 10), digit_char (n mod 10)]))"

text \<open>
  Decoding the first rune of a byte string as \<^verbatim>\<open>utf8.DecodeRuneInString\<close> does: the rune
  and the number of bytes it takes; a malformed sequence is the replacement rune U+FFFD
  of width 1.
\<close>

definition cont_byte :: "nat \<Rightarrow> nat \<Rightarrow> nat \<Rightarrow> bool" where
  "cont_byte lo hi b \<longleftrightarrow> lo \<le> b \<and> b \<le> hi"

definition rune_error :: "nat \<times> nat" where
  "rune_error = (0xFFFD, 1)"

fun decode_rune :: "string \<Rightarrow> nat \<times> nat" where
  "decode_rune [] = (0xFFFD, 0)"
| "decode_rune (c0 # s) =
    (let b0 = of_char c0; b = map of_char (take 3 s) in
     if b0 < 0x80 then (b0, 1)
     else if 0xC2 \<le> b0 \<and> b0 \<le> 0xDF then
       (case b of b1 # _ \<Rightarrow>
          if cont_byte 0x80 0xBF b1 then ((b0 - 0xC0) * 64 + (b1 - 0x80), 2) else rune_error
        | _ \<Rightarrow> rune_error)
     else if 0xE0 \<le> b0 \<and> b0 \<le> 0xEF then
       (case b of b1 # b2 # _ \<Rightarrow>
          if cont_byte (if b0 = 0xE0 then 0xA0 else 0x80) (if b0 = 0xED then 0x9F else 0xBF) b1
             \<and> cont_byte 0x80 0xBF b2
          then ((b0 - 0xE0) * 4096 + (b1 - 0x80) * 64 + (b2 - 0x80), 3) else rune_error
        | _ \<Rightarrow> rune_error)
     else if 0xF0 \<le> b0 \<and> b0 \<le> 0xF4 then
       (case b of b1 # b2 # b3 # _ \<Rightarrow>
          if cont_byte (if b0 = 0xF0 then 0x90 else 0x80) (if b0 = 0xF4 then 0x8F else 0xBF) b1
             \<and> cont_byte 0x80 0xBF b2 \<and> cont_byte 0x80 0xBF b3
          then ((b0 - 0xF0) * 262144 + (b1 - 0x80) * 4096 + (b2 - 0x80) * 64 + (b3 - 0x80), 4)
          else rune_error
        | _ \<Rightarrow> rune_error)
     else rune_error)"

lemma decode_rune_width_pos: "0 < snd (decode_rune (c # s))"
  by (auto simp: Let_def rune_error_def split: list.splits)

declare decode_rune.simps [simp del]

lemma decode_rune_width: "(r, w) = decode_rune (c # s) \<Longrightarrow> 0 < w"
  using decode_rune_width_pos [of c s] by (metis snd_conv)

definition hex_char :: "nat \<Rightarrow> char" where
  "hex_char d = (if d < 10 then digit_char d else char_of (87 + d))"

text \<open>
  \<^verbatim>\<open>%q\<close>, that is \<^verbatim>\<open>strconv.Quote\<close>. Which runes from U+0080 on count as printable is
  a Unicode table: the argument \<open>printable\<close>.
\<close>

definition quote_rune :: "(nat \<Rightarrow> bool) \<Rightarrow> nat \<Rightarrow> string \<Rightarrow> string" where
  "quote_rune printable r bytes =
     (if r = 0x22 \<or> r = 0x5C then CHR 0x5C # bytes
      else if (if r < 0x80 then 0x20 \<le> r \<and> r < 0x7F else printable r) then bytes
      else if r = 7 then [CHR 0x5C, CHR ''a''] else if r = 8 then [CHR 0x5C, CHR ''b'']
      else if r = 12 then [CHR 0x5C, CHR ''f''] else if r = 10 then [CHR 0x5C, CHR ''n'']
      else if r = 13 then [CHR 0x5C, CHR ''r''] else if r = 9 then [CHR 0x5C, CHR ''t'']
      else if r = 11 then [CHR 0x5C, CHR ''v'']
      else if r < 0x20 \<or> r = 0x7F then [CHR 0x5C, CHR ''x'', hex_char (r div 16), hex_char (r mod 16)]
      else if r < 0x10000 then [CHR 0x5C, CHR ''u''] @
        map (\<lambda>i. hex_char (r div 16 ^ i mod 16)) [3, 2, 1, 0]
      else [CHR 0x5C, CHR ''U''] @ map (\<lambda>i. hex_char (r div 16 ^ i mod 16)) [7, 6, 5, 4, 3, 2, 1, 0])"

function quote_body :: "(nat \<Rightarrow> bool) \<Rightarrow> string \<Rightarrow> string" where
  "quote_body printable [] = []"
| "quote_body printable (c # s) =
    (case decode_rune (c # s) of (r, w) \<Rightarrow>
       (if w = 1 \<and> r = 0xFFFD
        then [CHR 0x5C, CHR ''x'', hex_char (of_char c div 16), hex_char (of_char c mod 16)]
        else quote_rune printable r (take w (c # s))) @
       quote_body printable (drop w (c # s)))"
  by pat_completeness auto
termination
  by (relation "measure (\<lambda>(printable, s). length s)") (auto dest: decode_rune_width)

definition fmt_q :: "(nat \<Rightarrow> bool) \<Rightarrow> string \<Rightarrow> string" where
  "fmt_q printable s = [CHR 0x22] @ quote_body printable s @ [CHR 0x22]"


section \<open>The text of an identifier\<close>

text \<open>
  The sources use \<^verbatim>\<open>uuid.UUID.String\<close> of a third-party package; the definitions take it
  as an argument, and what they rely on is that it is injective. The canonical form of
  RFC 4122, which that package documents, is such a function: the witnesses use it.
\<close>

definition hexes :: "uuid \<Rightarrow> nat list \<Rightarrow> string" where
  "hexes u is = map (\<lambda>i. hex_char (unat u div 16 ^ i mod 16)) is"

definition canonical_text :: "uuid \<Rightarrow> string" where
  "canonical_text u = hexes u (rev [24..<32]) @ ''-'' @ hexes u (rev [20..<24]) @ ''-'' @
     hexes u (rev [16..<20]) @ ''-'' @ hexes u (rev [12..<16]) @ ''-'' @ hexes u (rev [0..<12])"

lemma char_of_inj_small: "m < 256 \<Longrightarrow> n < 256 \<Longrightarrow> char_of m = char_of n \<Longrightarrow> m = n" for m n :: nat
  by (metis mod_less of_char_of)

lemma hex_char_inj:
  assumes "d < 16" and "e < 16" and "hex_char d = hex_char e"
  shows "d = e"
proof -
  define f where "f x = (if x < 10 then 48 + x else 87 + x :: nat)" for x
  have "hex_char x = char_of (f x)" for x 
    by (cases "x < 10") (simp_all only: hex_char_def digit_char_def f_def if_True if_False)
  with assms(3) have "char_of (f d) = (char_of (f e) :: char)" by metis
  moreover have "f d < 256" "f e < 256" using assms(1,2) by (auto simp: f_def)
  ultimately have "f d = f e" using char_of_inj_small by blast
  then show ?thesis using assms(1,2) by (auto simp: f_def split: if_splits)
qed

lemma digits_determine:
  fixes a b :: nat
  assumes "\<forall>i < n. a div 16 ^ i mod 16 = b div 16 ^ i mod 16"
  shows "a mod 16 ^ n = b mod 16 ^ n"
  using assms
proof (induction n)
  case (Suc n)
  have "x mod (16 ^ n * 16) = 16 ^ n * (x div 16 ^ n mod 16) + x mod 16 ^ n" for x :: nat
    by (rule mod_mult2_eq)
  with Suc show ?case by (simp add: mult.commute)
qed simp

lemma hexes_eq:
  assumes "hexes u is = hexes v is" and "i \<in> set is"
  shows "unat u div 16 ^ i mod 16 = unat v div 16 ^ i mod 16"
  using assms by (auto simp: hexes_def intro: hex_char_inj)

lemma inj_canonical_text: "inj canonical_text"
proof (rule injI)
  fix u v
  assume eq: "canonical_text u = canonical_text v"
  have len: "length (hexes w is) = length is" for w "is" by (simp add: hexes_def)
  have "hexes u (rev [24..<32]) = hexes v (rev [24..<32])" "hexes u (rev [20..<24]) = hexes v (rev [20..<24])"
    "hexes u (rev [16..<20]) = hexes v (rev [16..<20])" "hexes u (rev [12..<16]) = hexes v (rev [12..<16])"
    "hexes u (rev [0..<12]) = hexes v (rev [0..<12])"
    using eq by (auto simp: canonical_text_def len)
  moreover have "i \<in> set (rev [24..<32]) \<or> i \<in> set (rev [20..<24]) \<or> i \<in> set (rev [16..<20])
      \<or> i \<in> set (rev [12..<16]) \<or> i \<in> set (rev [0..<12])" if "i < 32" for i
    using that by (simp only: set_rev set_upt atLeastLessThan_iff) arith
  ultimately have "unat u div 16 ^ i mod 16 = unat v div 16 ^ i mod 16" if "i < 32" for i
    using that hexes_eq [of u _ v i] by blast
  then have "unat u mod 16 ^ 32 = unat v mod 16 ^ 32" by (intro digits_determine) simp
  moreover have "unat w < 16 ^ 32" for w :: uuid using unsigned_less [of w] by simp
  ultimately have "unat u = unat v" by (simp only: mod_less)
  then show "u = v" by (simp only: word_unat_eq_iff)
qed


end
