(* ===== verification/Lifecycle.thy ===== *)
theory Lifecycle
  imports Go_Base
begin

text \<open>
  The contract the status enumerations of \<^verbatim>\<open>internal/domain\<close> share. Each aggregate has
  a \<^verbatim>\<open>Valid\<close> predicate on status strings, a table \<^verbatim>\<open>CanTransitionTo\<close> and a mutating
  method (\<^verbatim>\<open>Transition\<close> or \<^verbatim>\<open>Resolve\<close>) that consults the table and either returns
  \<^verbatim>\<open>ErrInvalidTransition\<close> without touching the record or sets the status.
  The locales state that contract; each aggregate interprets them with its own
  definitions, and the consequences for arbitrary call sequences come for free.
\<close>

text \<open>A sequence of calls of the mutating method; a refused call leaves the record as it was.\<close>

fun run_transitions ::
  "('o \<Rightarrow> string \<Rightarrow> time \<Rightarrow> error + 'o) \<Rightarrow> 'o \<Rightarrow> (string \<times> time) list \<Rightarrow> 'o" where
  "run_transitions tr x [] = x"
| "run_transitions tr x ((target, now) # calls) =
     run_transitions tr (case tr x target now of Inl _ \<Rightarrow> x | Inr y \<Rightarrow> y) calls"

lemma run_transitions_append:
  "run_transitions tr x (cs @ ds) = run_transitions tr (run_transitions tr x cs) ds"
  by (induction tr x cs rule: run_transitions.induct) auto

locale lifecycle =
  fixes Valid :: "string \<Rightarrow> bool"
    and can :: "string \<Rightarrow> string \<Rightarrow> bool"
    and terminal :: "string \<Rightarrow> bool"
  assumes can_self: "can s s"
    and can_valid: "can s t \<Longrightarrow> s \<noteq> t \<Longrightarrow> Valid s \<and> Valid t"
    and terminal_sticky: "terminal s \<Longrightarrow> can s t \<Longrightarrow> t = s"
    and escape: "Valid s \<Longrightarrow> \<exists>t. can s t \<and> terminal t"

locale stateful = lifecycle +
  fixes status :: "'o \<Rightarrow> string"
    and transition :: "'o \<Rightarrow> string \<Rightarrow> time \<Rightarrow> error + 'o"
  assumes transition_ok: "can (status x) t \<Longrightarrow> \<exists>y. transition x t n = Inr y \<and> status y = t"
    and transition_refused:
      "\<not> can (status x) t \<Longrightarrow> transition x t n = Inl (ErrInvalidTransition (status x) t)"
begin

lemma transition_cases:
  "(can (status x) t \<and> (\<exists>y. transition x t n = Inr y \<and> status y = t))
   \<or> (\<not> can (status x) t \<and> transition x t n = Inl (ErrInvalidTransition (status x) t))"
  using transition_ok transition_refused by blast

lemma step_status:
  "status (case transition x t n of Inl _ \<Rightarrow> x | Inr y \<Rightarrow> y)
     = (if can (status x) t then t else status x)"
  using transition_cases [of x t n] by auto

lemma run_terminal:
  "terminal (status x) \<Longrightarrow> status (run_transitions transition x calls) = status x"
proof (induction calls arbitrary: x)
  case (Cons c calls)
  obtain t n where c: "c = (t, n)" by (cases c)
  let ?y = "case transition x t n of Inl _ \<Rightarrow> x | Inr y \<Rightarrow> y"
  have "status ?y = status x"
    using step_status [of x t n] terminal_sticky Cons.prems by auto
  then show ?case using Cons.IH [of ?y] Cons.prems c by simp
qed simp

lemma run_path: "can\<^sup>*\<^sup>* (status x) (status (run_transitions transition x calls))"
proof (induction calls arbitrary: x)
  case (Cons c calls)
  obtain t n where c: "c = (t, n)" by (cases c)
  let ?y = "case transition x t n of Inl _ \<Rightarrow> x | Inr y \<Rightarrow> y"
  have "can (status x) (status ?y)"
    using step_status [of x t n] can_self by auto
  with Cons.IH [of ?y] show ?case using c by (simp add: converse_rtranclp_into_rtranclp)
qed simp

lemma run_valid:
  assumes "Valid (status x)"
  shows "Valid (status (run_transitions transition x calls))"
  using run_path [of x calls] assms by (induction rule: rtranclp_induct) (use can_valid in metis)+

lemma can_close:
  assumes "Valid (status x)"
  shows "\<exists>t y. transition x t n = Inr y \<and> status y = t \<and> terminal t"
proof -
  obtain t where "can (status x) t" "terminal t" using escape [OF assms] by blast
  then show ?thesis using transition_ok [of x t n] by blast
qed

end

text \<open>
  All lifecycles but that of a task are acyclic: a rank strictly grows along every
  proper edge, so a status that was left never comes back.
\<close>

locale acyclic_stateful = stateful +
  fixes rank :: "string \<Rightarrow> nat"
  assumes rank_grows: "can s t \<Longrightarrow> s \<noteq> t \<Longrightarrow> rank s < rank t"
begin

lemma rank_path: "can\<^sup>*\<^sup>* s t \<Longrightarrow> rank s \<le> rank t \<and> (rank s = rank t \<longrightarrow> s = t)"
proof (induction rule: rtranclp_induct)
  case (step t u)
  then show ?case using rank_grows [of t u] by (cases "t = u") auto
qed simp

lemma never_returns:
  assumes "status (run_transitions transition x (cs @ ds)) = status x"
  shows "status (run_transitions transition x cs) = status x"
proof -
  let ?y = "run_transitions transition x cs"
  have "rank (status x) \<le> rank (status ?y)" using run_path rank_path by blast
  moreover have "rank (status ?y) \<le> rank (status x)"
    using run_path [of ?y ds] rank_path assms by (metis run_transitions_append)
  ultimately show ?thesis using run_path [of x cs] rank_path by (metis le_antisym)
qed

end

end
