(* ===== verification/Domain_Types.thy ===== *)
theory Domain_Types
  imports Lifecycle
begin

text \<open>
  \<^verbatim>\<open>internal/domain/types.go\<close>: identifiers, priorities and the reference structs the
  aggregates carry. The enumerations are open string types in Go, so they are strings
  here, with their constants.
\<close>

type_synonym GoalID = uuid
type_synonym CommitmentID = uuid
type_synonym TaskID = uuid
type_synonym PlanID = uuid
type_synonym DecisionID = uuid
type_synonym InterventionID = uuid
type_synonym AssignmentID = uuid
type_synonym AgentID = string

type_synonym Priority = int

definition PriorityLow :: Priority where "PriorityLow = 0"
definition PriorityNormal :: Priority where "PriorityNormal = 50"
definition PriorityHigh :: Priority where "PriorityHigh = 75"
definition PriorityUrgent :: Priority where "PriorityUrgent = 100"
definition PriorityCritical :: Priority where "PriorityCritical = 150"

type_synonym SourceKind = string

definition SourceMnemosEvent :: SourceKind where "SourceMnemosEvent = ''mnemos.event''"
definition SourceMnemosMemory :: SourceKind where "SourceMnemosMemory = ''mnemos.memory''"
definition SourceChronosSignal :: SourceKind where "SourceChronosSignal = ''chronos.signal''"
definition SourceUserInput :: SourceKind where "SourceUserInput = ''user.input''"
definition SourcePraxisResult :: SourceKind where "SourcePraxisResult = ''praxis.result''"
definition SourceNousDecision :: SourceKind where "SourceNousDecision = ''nous.decision''"

record SourceRef =
  sr_Kind :: SourceKind
  sr_Locator :: string

type_synonym EntityKind = string

definition EntityPerson :: EntityKind where "EntityPerson = ''person''"
definition EntityProject :: EntityKind where "EntityProject = ''project''"
definition EntityTool :: EntityKind where "EntityTool = ''tool''"
definition EntityDocument :: EntityKind where "EntityDocument = ''document''"
definition EntityTeam :: EntityKind where "EntityTeam = ''team''"
definition EntityOther :: EntityKind where "EntityOther = ''other''"

record EntityRef =
  er_Kind :: EntityKind
  er_Name :: string
  er_ID :: string

record MemoryRef =
  mr_ID :: string
  mr_Kind :: string
  mr_OccurredAt :: time

record ChronosSignal =
  cs_ID :: uuid
  cs_Pattern :: string
  cs_ScopeID :: uuid
  cs_Series :: uuid
  cs_Confidence :: float64
  cs_DetectedAt :: time
  cs_Entities :: "EntityRef list"

text \<open>
  The check every aggregate with a probability makes, \<^verbatim>\<open>v < 0 || v > 1\<close>. Every
  comparison with NaN is false, so NaN is not reported.
\<close>

definition out_of_unit :: "float64 \<Rightarrow> bool" where
  "out_of_unit v \<longleftrightarrow> v < 0 \<or> 1 < v"

lemma out_of_unit_iff: "\<not> out_of_unit v \<longleftrightarrow> v = NaN \<or> (0 \<le> v \<and> v \<le> 1)"
  by (cases v) (auto simp: out_of_unit_def zero_float64_def one_float64_def)

lemma out_of_unit_0 [simp]: "\<not> out_of_unit 0"
  by (simp add: out_of_unit_def zero_float64_def one_float64_def)

end
