(* ===== verification/Domain_Commitment.thy ===== *)
theory Domain_Commitment
  imports Domain_Types
begin

text \<open>
  \<^verbatim>\<open>internal/domain/commitment.go\<close>: the commitment aggregate, its status lifecycle, its
  validation, its constructor and the promotion of an extractor's draft.
  \<^verbatim>\<open>uuid.New()\<close> belongs to a third-party package: the identifier it returns is an
  argument of every constructor.
\<close>

section \<open>Status\<close>

type_synonym CommitmentStatus = string

definition CommitmentPending :: CommitmentStatus where
  [status_defs]: "CommitmentPending = ''pending''"
definition CommitmentInProgress :: CommitmentStatus where
  [status_defs]: "CommitmentInProgress = ''in_progress''"
definition CommitmentCompleted :: CommitmentStatus where
  [status_defs]: "CommitmentCompleted = ''completed''"
definition CommitmentMissed :: CommitmentStatus where
  [status_defs]: "CommitmentMissed = ''missed''"
definition CommitmentCancelled :: CommitmentStatus where
  [status_defs]: "CommitmentCancelled = ''cancelled''"

definition CommitmentStatus_IsActive :: "CommitmentStatus \<Rightarrow> bool" where
  "CommitmentStatus_IsActive s =
     (if s = CommitmentPending \<or> s = CommitmentInProgress then True else False)"

definition CommitmentStatus_Valid :: "CommitmentStatus \<Rightarrow> bool" where
  "CommitmentStatus_Valid s =
     (if s = CommitmentPending \<or> s = CommitmentInProgress \<or> s = CommitmentCompleted
        \<or> s = CommitmentMissed \<or> s = CommitmentCancelled then True else False)"

definition CommitmentStatus_CanTransitionTo :: "CommitmentStatus \<Rightarrow> CommitmentStatus \<Rightarrow> bool" where
  "CommitmentStatus_CanTransitionTo s target =
     (if s = target then True
      else if s = CommitmentPending then
        target = CommitmentInProgress \<or> target = CommitmentCompleted
        \<or> target = CommitmentMissed \<or> target = CommitmentCancelled
      else if s = CommitmentInProgress then
        target = CommitmentCompleted \<or> target = CommitmentMissed \<or> target = CommitmentCancelled
      else False)"

section \<open>The aggregate\<close>

record Commitment =
  c_ID :: CommitmentID
  c_OwnerID :: string
  c_Description :: string
  c_SourceRefs :: "SourceRef list"
  c_Entities :: "EntityRef list"
  c_DueAt :: "time option"
  c_Status :: CommitmentStatus
  c_Confidence :: float64
  c_RiskScore :: float64
  c_LastEvaluatedAt :: "time option"
  c_CreatedAt :: time
  c_UpdatedAt :: time

definition Commitment_Validate :: "Commitment \<Rightarrow> error option" where
  "Commitment_Validate c =
     (if c_ID c = uuid_Nil then Some (ErrValidation ''id is required'' [])
      else if c_OwnerID c = [] then Some (ErrValidation ''owner_id is required'' [])
      else if c_Description c = [] then Some (ErrValidation ''description is required'' [])
      else if out_of_unit (c_Confidence c) then Some (ErrValidation ''confidence must be in [0,1]'' [])
      else if out_of_unit (c_RiskScore c) then Some (ErrValidation ''risk_score must be in [0,1]'' [])
      else if \<not> CommitmentStatus_Valid (c_Status c)
        then Some (ErrValidation ''unknown status %q'' [VString (c_Status c)])
      else None)"

definition NewCommitment ::
  "uuid \<Rightarrow> string \<Rightarrow> string \<Rightarrow> time option \<Rightarrow> float64 \<Rightarrow> time \<Rightarrow> error + Commitment" where
  "NewCommitment newID ownerID description dueAt confidence now =
     (let c = \<lparr>c_ID = newID, c_OwnerID = TrimSpace ownerID, c_Description = TrimSpace description,
               c_SourceRefs = [], c_Entities = [], c_DueAt = dueAt, c_Status = CommitmentPending,
               c_Confidence = confidence, c_RiskScore = 0, c_LastEvaluatedAt = None,
               c_CreatedAt = time_UTC now, c_UpdatedAt = time_UTC now\<rparr>
      in case Commitment_Validate c of Some err \<Rightarrow> Inl err | None \<Rightarrow> Inr c)"

definition Commitment_Transition ::
  "Commitment \<Rightarrow> CommitmentStatus \<Rightarrow> time \<Rightarrow> error + Commitment" where
  "Commitment_Transition c target now =
     (if \<not> CommitmentStatus_CanTransitionTo (c_Status c) target
      then Inl (ErrInvalidTransition (c_Status c) target)
      else Inr (c\<lparr>c_Status := target, c_UpdatedAt := time_UTC now\<rparr>))"

record CommitmentDraft =
  cd_OwnerID :: string
  cd_Description :: string
  cd_DueAt :: "time option"
  cd_Entities :: "EntityRef list"
  cd_SourceRefs :: "SourceRef list"
  cd_Confidence :: float64

definition CommitmentDraft_ToCommitment :: "uuid \<Rightarrow> CommitmentDraft \<Rightarrow> time \<Rightarrow> error + Commitment" where
  "CommitmentDraft_ToCommitment newID d now =
     (case NewCommitment newID (cd_OwnerID d) (cd_Description d) (cd_DueAt d) (cd_Confidence d) now of
        Inl err \<Rightarrow> Inl err
      | Inr c \<Rightarrow> Inr (c\<lparr>c_Entities := [] @ cd_Entities d, c_SourceRefs := [] @ cd_SourceRefs d\<rparr>))"


section \<open>Lemmas\<close>

declare Commitment_Validate_def [validate_defs]

lemma CommitmentStatus_Valid_Pending [simp]: "CommitmentStatus_Valid CommitmentPending"
  by (simp add: CommitmentStatus_Valid_def)

lemma CommitmentStatus_IsActive_Pending [simp]: "CommitmentStatus_IsActive CommitmentPending"
  by (simp add: CommitmentStatus_IsActive_def)

lemma CommitmentStatus_active_valid: "CommitmentStatus_IsActive s \<Longrightarrow> CommitmentStatus_Valid s"
  by (auto simp: CommitmentStatus_IsActive_def CommitmentStatus_Valid_def)

abbreviation commitment_terminal :: "CommitmentStatus \<Rightarrow> bool" where
  "commitment_terminal s \<equiv> CommitmentStatus_Valid s \<and> \<not> CommitmentStatus_IsActive s"

definition commitment_rank :: "CommitmentStatus \<Rightarrow> nat" where
  "commitment_rank s = (if s = CommitmentPending then 0 else if s = CommitmentInProgress then 1 else 2)"

interpretation commitment: acyclic_stateful CommitmentStatus_Valid CommitmentStatus_CanTransitionTo
  commitment_terminal c_Status Commitment_Transition commitment_rank
proof unfold_locales
  fix s
  assume "CommitmentStatus_Valid s"
  then have "CommitmentStatus_CanTransitionTo s (if CommitmentStatus_IsActive s then CommitmentCancelled else s)"
    by (auto simp: CommitmentStatus_Valid_def CommitmentStatus_IsActive_def CommitmentStatus_CanTransitionTo_def)
  moreover have "commitment_terminal CommitmentCancelled"
    by (simp add: CommitmentStatus_Valid_def CommitmentStatus_IsActive_def status_defs)
  ultimately show "\<exists>t. CommitmentStatus_CanTransitionTo s t \<and> commitment_terminal t"
    using \<open>CommitmentStatus_Valid s\<close> by (metis (full_types))
qed (auto simp: CommitmentStatus_CanTransitionTo_def CommitmentStatus_Valid_def
      CommitmentStatus_IsActive_def Commitment_Transition_def commitment_rank_def status_defs
      split: if_splits)

text \<open>What \<^verbatim>\<open>Validate\<close> accepts.\<close>

lemma Commitment_Validate_None:
  "Commitment_Validate c = None \<longleftrightarrow>
     c_ID c \<noteq> uuid_Nil \<and> c_OwnerID c \<noteq> [] \<and> c_Description c \<noteq> []
     \<and> \<not> out_of_unit (c_Confidence c) \<and> \<not> out_of_unit (c_RiskScore c)
     \<and> CommitmentStatus_Valid (c_Status c)"
  by (simp add: Commitment_Validate_def)

lemma Commitment_Validate_update:
  "Commitment_Validate (c\<lparr>c_RiskScore := r, c_LastEvaluatedAt := e, c_UpdatedAt := u\<rparr>) = None
   \<longleftrightarrow> Commitment_Validate (c\<lparr>c_RiskScore := 0\<rparr>) = None \<and> \<not> out_of_unit r"
  by (auto simp: Commitment_Validate_None)

lemma NewCommitment_Inr:
  "NewCommitment newID ow desc due conf now = Inr c \<longleftrightarrow>
     newID \<noteq> uuid_Nil \<and> TrimSpace ow \<noteq> [] \<and> TrimSpace desc \<noteq> [] \<and> \<not> out_of_unit conf
     \<and> c = \<lparr>c_ID = newID, c_OwnerID = TrimSpace ow, c_Description = TrimSpace desc,
            c_SourceRefs = [], c_Entities = [], c_DueAt = due, c_Status = CommitmentPending,
            c_Confidence = conf, c_RiskScore = 0, c_LastEvaluatedAt = None,
            c_CreatedAt = now, c_UpdatedAt = now\<rparr>"
  by (auto simp: NewCommitment_def Let_def Commitment_Validate_def split: option.splits if_splits)

lemma NewCommitment_Inl:
  "(\<exists>e. NewCommitment newID ow desc due conf now = Inl e) \<longleftrightarrow>
     newID = uuid_Nil \<or> TrimSpace ow = [] \<or> TrimSpace desc = [] \<or> out_of_unit conf"
  by (auto simp: NewCommitment_def Let_def Commitment_Validate_def split: option.splits if_splits)

lemma ToCommitment_Inr:
  "CommitmentDraft_ToCommitment newID d now = Inr c \<longleftrightarrow>
     newID \<noteq> uuid_Nil \<and> TrimSpace (cd_OwnerID d) \<noteq> [] \<and> TrimSpace (cd_Description d) \<noteq> []
     \<and> \<not> out_of_unit (cd_Confidence d)
     \<and> c = \<lparr>c_ID = newID, c_OwnerID = TrimSpace (cd_OwnerID d),
            c_Description = TrimSpace (cd_Description d), c_SourceRefs = cd_SourceRefs d,
            c_Entities = cd_Entities d, c_DueAt = cd_DueAt d, c_Status = CommitmentPending,
            c_Confidence = cd_Confidence d, c_RiskScore = 0, c_LastEvaluatedAt = None,
            c_CreatedAt = now, c_UpdatedAt = now\<rparr>"
  by (auto simp: CommitmentDraft_ToCommitment_def NewCommitment_Inr split: sum.splits)
     (metis NewCommitment_Inl Inr_Inl_False)+

lemma ToCommitment_valid:
  "CommitmentDraft_ToCommitment newID d now = Inr c \<Longrightarrow> Commitment_Validate c = None"
  by (auto simp: ToCommitment_Inr Commitment_Validate_None)

lemma ToCommitment_ID: "CommitmentDraft_ToCommitment newID d now = Inr c \<Longrightarrow> c_ID c = newID"
  by (auto simp: ToCommitment_Inr)


section \<open>Properties\<close>

text \<open>A concrete commitment for the witnesses: due at instant 1000, confidence 1.\<close>

definition sample_commitment :: Commitment where
  "sample_commitment = \<lparr>c_ID = 7, c_OwnerID = ''u1'', c_Description = ''send report'',
     c_SourceRefs = [], c_Entities = [], c_DueAt = Some 1000, c_Status = CommitmentPending,
     c_Confidence = 1, c_RiskScore = 0, c_LastEvaluatedAt = None, c_CreatedAt = 5, c_UpdatedAt = 5\<rparr>"

lemma sample_commitment_valid: "Commitment_Validate sample_commitment = None"
  by (simp add: Commitment_Validate_None sample_commitment_def uuid_Nil_def out_of_unit_def
      zero_float64_def one_float64_def)

text \<open>
  A closed commitment stays closed: once the status is completed, missed or
  cancelled, no sequence of \<^verbatim>\<open>Transition\<close> calls changes the status or anything else of
  the record but the \<^verbatim>\<open>UpdatedAt\<close> stamp.
\<close>

lemma commitment_closed_forever:
  assumes "CommitmentStatus_Valid (c_Status c)" and "\<not> CommitmentStatus_IsActive (c_Status c)"
  shows "\<exists>u. run_transitions Commitment_Transition c calls = c\<lparr>c_UpdatedAt := u\<rparr>"
  using assms
proof (induction calls arbitrary: c)
  case Nil
  show ?case by (rule exI [of _ "c_UpdatedAt c"]) simp
next
  case (Cons call calls)
  obtain t n where call: "call = (t, n)" by (cases call)
  let ?d = "case Commitment_Transition c t n of Inl _ \<Rightarrow> c | Inr y \<Rightarrow> y"
  have d: "\<exists>u. ?d = c\<lparr>c_UpdatedAt := u\<rparr>"
    using commitment.terminal_sticky [of "c_Status c" t] Cons.prems
    by (cases "CommitmentStatus_CanTransitionTo (c_Status c) t")
       (auto simp: Commitment_Transition_def intro: exI [of _ "c_UpdatedAt c"])
  then obtain u where u: "?d = c\<lparr>c_UpdatedAt := u\<rparr>" by blast
  with Cons.IH [of ?d] Cons.prems obtain v where
    "run_transitions Commitment_Transition ?d calls = ?d\<lparr>c_UpdatedAt := v\<rparr>" by auto
  with u call show ?case by auto
qed

text \<open>
  Promotion of a draft: \<^verbatim>\<open>ToCommitment\<close> succeeds exactly when the identifier is not
  nil, owner and description are not blank and the confidence is not outside [0,1]; the
  result is a valid pending commitment that carries the trimmed texts and the draft's due
  time, entities and source references, with risk score 0 and both stamps at \<^verbatim>\<open>now\<close>.
\<close>

lemma draft_promotion:
  "CommitmentDraft_ToCommitment newID d now = Inr c \<longleftrightarrow>
     newID \<noteq> uuid_Nil \<and> TrimSpace (cd_OwnerID d) \<noteq> [] \<and> TrimSpace (cd_Description d) \<noteq> []
     \<and> (cd_Confidence d = NaN \<or> 0 \<le> cd_Confidence d \<and> cd_Confidence d \<le> 1)
     \<and> Commitment_Validate c = None
     \<and> c = \<lparr>c_ID = newID, c_OwnerID = TrimSpace (cd_OwnerID d),
            c_Description = TrimSpace (cd_Description d), c_SourceRefs = cd_SourceRefs d,
            c_Entities = cd_Entities d, c_DueAt = cd_DueAt d, c_Status = CommitmentPending,
            c_Confidence = cd_Confidence d, c_RiskScore = 0, c_LastEvaluatedAt = None,
            c_CreatedAt = now, c_UpdatedAt = now\<rparr>"
  using ToCommitment_valid [of newID d now c]
  by (auto simp: ToCommitment_Inr out_of_unit_iff)

text \<open>
  The range check of \<^verbatim>\<open>Validate\<close> lets NaN through: a commitment that is otherwise
  well formed is accepted exactly when confidence and risk score are each in [0,1] or NaN.
\<close>

lemma validate_accepts_NaN:
  assumes "c_ID c \<noteq> uuid_Nil" and "c_OwnerID c \<noteq> []" and "c_Description c \<noteq> []"
    and "CommitmentStatus_Valid (c_Status c)"
  shows "Commitment_Validate c = None \<longleftrightarrow>
     (c_Confidence c = NaN \<or> 0 \<le> c_Confidence c \<and> c_Confidence c \<le> 1)
     \<and> (c_RiskScore c = NaN \<or> 0 \<le> c_RiskScore c \<and> c_RiskScore c \<le> 1)"
  using assms by (simp add: Commitment_Validate_None out_of_unit_iff)

end
