(* ===== verification/Risk_Engine.thy ===== *)
theory Risk_Engine
  imports Domain_Commitment
begin

text \<open>
  \<^verbatim>\<open>internal/risk/engine.go\<close>: the additive risk score. The engine is pure, so it is one
  function of its configuration, the commitment, the Chronos signals and the clock; the
  additions happen in the order of the source, each rounded.
\<close>

section \<open>Configuration and result\<close>

record risk_Config =
  rc_OverdueWeight :: float64
  rc_DueSoonWeight :: float64
  rc_DueSoonWindow :: duration
  rc_ConfidenceWeight :: float64
  rc_SignalWeight :: float64

definition risk_DefaultConfig :: risk_Config where
  "risk_DefaultConfig = \<lparr>
     rc_OverdueWeight = f_lit (6/10), rc_DueSoonWeight = f_lit (3/10),
     rc_DueSoonWindow = 2 * hour, rc_ConfidenceWeight = f_lit (2/10),
     rc_SignalWeight = f_lit (15/100)\<rparr>"

record RiskFactor =
  rf_Type :: string
  rf_Weight :: float64
  rf_Reason :: string

record RiskAssessment =
  ra_Score :: float64
  ra_Factors :: "RiskFactor list"
  ra_Confidence :: float64

record risk_Engine =
  re_cfg :: risk_Config

definition risk_New :: "risk_Config \<Rightarrow> risk_Engine" where
  "risk_New cfg = \<lparr>re_cfg = cfg\<rparr>"

definition risk_Engine_Weights :: "risk_Engine \<Rightarrow> (string \<times> float64) list" where
  "risk_Engine_Weights e =
     [(''overdue'', rc_OverdueWeight (re_cfg e)),
      (''due_soon'', rc_DueSoonWeight (re_cfg e)),
      (''due_soon_window_seconds'', duration_Seconds (rc_DueSoonWindow (re_cfg e))),
      (''confidence'', rc_ConfidenceWeight (re_cfg e)),
      (''signal'', rc_SignalWeight (re_cfg e))]"


section \<open>Scoring\<close>

definition EvaluateCommitment ::
  "risk_Engine \<Rightarrow> Commitment \<Rightarrow> ChronosSignal list \<Rightarrow> MemoryRef list \<Rightarrow> time \<Rightarrow> RiskAssessment" where
  "EvaluateCommitment e c signals memories now =
    (let cfg = re_cfg e; factors = []; score = 0;
         (score, factors) =
           (case c_DueAt c of
              None \<Rightarrow> (score, factors)
            | Some due \<Rightarrow>
                if due < now then
                  (score + rc_OverdueWeight cfg,
                   factors @ [\<lparr>rf_Type = ''overdue'', rf_Weight = rc_OverdueWeight cfg,
                               rf_Reason = ''Commitment is past its due time.''\<rparr>])
                else if time_Sub due now \<le> rc_DueSoonWindow cfg then
                  (score + rc_DueSoonWeight cfg,
                   factors @ [\<lparr>rf_Type = ''due_soon'', rf_Weight = rc_DueSoonWeight cfg,
                               rf_Reason = ''Commitment is due within the soon-window.''\<rparr>])
                else (score, factors));
         (score, factors) =
           (if 0 < c_Confidence c then
              let contribution = c_Confidence c * rc_ConfidenceWeight cfg in
              (score + contribution,
               factors @ [\<lparr>rf_Type = ''confidence'', rf_Weight = contribution,
                           rf_Reason = ''Commitment is high-confidence; tracked strictly.''\<rparr>])
            else (score, factors));
         (score, factors) =
           (if 0 < length signals then
              let contribution = rc_SignalWeight cfg in
              (score + contribution,
               factors @ [\<lparr>rf_Type = ''chronos_signal'', rf_Weight = contribution,
                           rf_Reason = ''Chronos detected a temporal pattern matching this commitment.''\<rparr>])
            else (score, factors));
         score = (if 1 < score then 1 else score);
         score = (if score < 0 then 0 else score)
     in \<lparr>ra_Score = score, ra_Factors = factors, ra_Confidence = c_Confidence c\<rparr>)"


section \<open>The score as a clamped sum\<close>

text \<open>
  Proof view: the three contributions as lists of weights, added from the left to zero
  and clamped.
\<close>

definition due_weights :: "risk_Config \<Rightarrow> time option \<Rightarrow> time \<Rightarrow> float64 list" where
  "due_weights cfg dueAt now = (case dueAt of None \<Rightarrow> [] | Some due \<Rightarrow>
     if due < now then [rc_OverdueWeight cfg]
     else if time_Sub due now \<le> rc_DueSoonWindow cfg then [rc_DueSoonWeight cfg] else [])"

definition conf_weights :: "risk_Config \<Rightarrow> float64 \<Rightarrow> float64 list" where
  "conf_weights cfg conf = (if 0 < conf then [conf * rc_ConfidenceWeight cfg] else [])"

definition signal_weights :: "risk_Config \<Rightarrow> ChronosSignal list \<Rightarrow> float64 list" where
  "signal_weights cfg signals = (if signals = [] then [] else [rc_SignalWeight cfg])"

definition risk_clamp :: "float64 \<Rightarrow> float64" where
  "risk_clamp score =
     (let score = (if 1 < score then 1 else score) in if score < 0 then 0 else score)"

abbreviation sum_weights :: "float64 list \<Rightarrow> float64" where
  "sum_weights \<equiv> foldl (+) 0"

lemmas weight_defs = due_weights_def conf_weights_def signal_weights_def

lemma Factors_weights:
  "map rf_Weight (ra_Factors (EvaluateCommitment e c signals mems now)) =
     due_weights (re_cfg e) (c_DueAt c) now @ conf_weights (re_cfg e) (c_Confidence c)
     @ signal_weights (re_cfg e) signals"
  by (simp add: EvaluateCommitment_def Let_def weight_defs split: option.splits)

lemma Score_sum:
  "ra_Score (EvaluateCommitment e c signals mems now) =
     risk_clamp (sum_weights
       (due_weights (re_cfg e) (c_DueAt c) now @ conf_weights (re_cfg e) (c_Confidence c)
        @ signal_weights (re_cfg e) signals))"
  by (simp add: EvaluateCommitment_def Let_def weight_defs risk_clamp_def split: option.splits)

lemma Confidence_carried [simp]: "ra_Confidence (EvaluateCommitment e c signals mems now) = c_Confidence c"
  by (simp add: EvaluateCommitment_def Let_def split: option.splits prod.splits)

lemma risk_clamp_cases: "risk_clamp x = NaN \<and> x = NaN \<or> 0 \<le> risk_clamp x \<and> risk_clamp x \<le> 1"
  by (cases x) (auto simp: risk_clamp_def zero_float64_def one_float64_def)

lemma risk_clamp_mono: "x \<le> y \<Longrightarrow> risk_clamp x \<le> risk_clamp y"
  by (cases x; cases y) (auto simp: risk_clamp_def zero_float64_def one_float64_def)

lemma risk_clamp_less: "x < 1 \<Longrightarrow> 0 \<le> x \<Longrightarrow> risk_clamp x = x"
  by (cases x) (auto simp: risk_clamp_def zero_float64_def one_float64_def)

lemma sum_weights_nonneg:
  "0 \<le> a \<Longrightarrow> \<forall>w \<in> set ws. 0 \<le> w \<Longrightarrow> 0 \<le> foldl (+) a ws" for a :: float64
  by (induction ws arbitrary: a) (auto intro: plus_nonneg)

lemma sum_weights_mono:
  "0 \<le> a \<Longrightarrow> a \<le> b \<Longrightarrow> \<forall>w \<in> set ws. 0 \<le> w \<Longrightarrow> foldl (+) a ws \<le> foldl (+) b ws"
  for a b :: float64
proof (induction ws arbitrary: a b)
  case (Cons w ws)
  then have w: "0 \<le> w" by simp
  have "a + w \<le> b + w" using Cons.prems(1,2) w f_nonneg_refl [OF w] by (rule plus_mono_nonneg)
  moreover have "0 \<le> a + w" using Cons.prems(1) w by (rule plus_nonneg)
  ultimately show ?case using Cons by simp
qed simp

text \<open>
  No negative weight, as in all configurations \<^verbatim>\<open>main\<close> builds. Zero times infinity is not a number, so an infinite
  confidence, which no valid commitment has, needs a confidence weight that is not zero.
\<close>

definition risk_cfg_ok :: "risk_Config \<Rightarrow> bool" where
  "risk_cfg_ok cfg \<longleftrightarrow> 0 \<le> rc_OverdueWeight cfg \<and> 0 \<le> rc_DueSoonWeight cfg
     \<and> 0 \<le> rc_ConfidenceWeight cfg \<and> 0 \<le> rc_SignalWeight cfg"

lemma due_weights_nonneg: "risk_cfg_ok cfg \<Longrightarrow> \<forall>w \<in> set (due_weights cfg d now). 0 \<le> w"
  by (cases d) (auto simp: due_weights_def risk_cfg_ok_def)

definition confidence_ok :: "risk_Config \<Rightarrow> float64 \<Rightarrow> bool" where
  "confidence_ok cfg x \<longleftrightarrow> x \<noteq> PInf \<or> rc_ConfidenceWeight cfg \<noteq> 0"

lemma valid_confidence_ok: "Commitment_Validate c = None \<Longrightarrow> confidence_ok cfg (c_Confidence c)"
  by (auto simp: Commitment_Validate_None confidence_ok_def out_of_unit_def one_float64_def)

lemma times_nonneg_finite: "0 < x \<Longrightarrow> 0 \<le> y \<Longrightarrow> x \<noteq> PInf \<or> y \<noteq> 0 \<Longrightarrow> 0 \<le> x * y" for x y :: float64
  by (cases x; cases y)
    (auto simp: zero_float64_def times_float64_def f_sgn_def Let_def f_round_nonneg [unfolded zero_float64_def])

lemma conf_weights_nonneg: "risk_cfg_ok cfg \<Longrightarrow> confidence_ok cfg x \<Longrightarrow> \<forall>w \<in> set (conf_weights cfg x). 0 \<le> w"
  by (cases "0 < x") (auto simp: conf_weights_def risk_cfg_ok_def confidence_ok_def times_nonneg_finite)

lemma signal_weights_nonneg: "risk_cfg_ok cfg \<Longrightarrow> \<forall>w \<in> set (signal_weights cfg s). 0 \<le> w"
  by (cases s) (auto simp: signal_weights_def risk_cfg_ok_def)

lemmas weights_nonneg = due_weights_nonneg conf_weights_nonneg signal_weights_nonneg

lemma zero_le_zero_float [simp]: "(0::float64) \<le> 0"
  by (simp add: zero_float64_def)

lemma due_weights_mono:
  assumes ok: "risk_cfg_ok cfg" and le: "rc_DueSoonWeight cfg \<le> rc_OverdueWeight cfg"
    and now: "now \<le> later"
  shows "sum_weights (due_weights cfg d now) \<le> sum_weights (due_weights cfg d later)"
proof -
  have ow: "0 \<le> rc_OverdueWeight cfg" and dw: "0 \<le> rc_DueSoonWeight cfg"
    using ok by (auto simp: risk_cfg_ok_def)
  have sub: "time_Sub due later \<le> time_Sub due now" for due
    using now by (auto simp: time_Sub_def)
  have "0 \<le> 0 + rc_DueSoonWeight cfg" "0 + rc_DueSoonWeight cfg \<le> 0 + rc_OverdueWeight cfg"
    "0 \<le> 0 + rc_OverdueWeight cfg"
    using ow dw le by (auto intro: plus_nonneg plus_mono_nonneg)
  then show ?thesis
    using now sub by (cases d) (auto simp: due_weights_def f_nonneg_refl, (meson order_trans)+)
qed


section \<open>Properties\<close>

text \<open>
  (C26) The score is explained by the factors: it is the sum of their weights, added in the
  order of the list to zero and clamped at 0 and 1, and there is one factor per condition
  that holds (overdue or due soon, positive confidence, at least one signal), in that order.
\<close>

theorem risk_score_explained:
  "ra_Score (EvaluateCommitment e c signals mems now) =
     risk_clamp (foldl (+) 0 (map rf_Weight (ra_Factors (EvaluateCommitment e c signals mems now))))
   \<and> map rf_Type (ra_Factors (EvaluateCommitment e c signals mems now)) =
     (case c_DueAt c of None \<Rightarrow> [] | Some due \<Rightarrow> if due < now then [''overdue'']
        else if time_Sub due now \<le> rc_DueSoonWindow (re_cfg e) then [''due_soon''] else [])
     @ (if 0 < c_Confidence c then [''confidence''] else [])
     @ (if signals \<noteq> [] then [''chronos_signal''] else [])"
proof
  show "ra_Score (EvaluateCommitment e c signals mems now) =
     risk_clamp (foldl (+) 0 (map rf_Weight (ra_Factors (EvaluateCommitment e c signals mems now))))"
    unfolding Factors_weights by (rule Score_sum)
qed (simp add: EvaluateCommitment_def Let_def split: option.splits)

text \<open>
  With non-negative weights the score is a number between 0 and 1, whatever the
  confidence of the commitment (NaN included, infinity only with a positive confidence weight), its due time,
  the signals and the clock.
\<close>

lemma risk_score_bounds:
  assumes "risk_cfg_ok (re_cfg e)" and "confidence_ok (re_cfg e) (c_Confidence c)"
  shows "0 \<le> ra_Score (EvaluateCommitment e c signals mems now)
    \<and> ra_Score (EvaluateCommitment e c signals mems now) \<le> 1"
proof -
  let ?ws = "due_weights (re_cfg e) (c_DueAt c) now @ conf_weights (re_cfg e) (c_Confidence c)
    @ signal_weights (re_cfg e) signals"
  have "0 \<le> sum_weights ?ws"
    using weights_nonneg(1,3) [OF assms(1)] weights_nonneg(2) [OF assms] by (intro sum_weights_nonneg) auto
  then have "sum_weights ?ws \<noteq> NaN" by (auto dest: f_le_not_NaN)
  then show ?thesis using risk_clamp_cases [of "sum_weights ?ws"] by (auto simp: Score_sum)
qed

lemma default_cfg_ok: "risk_cfg_ok risk_DefaultConfig"
  unfolding risk_cfg_ok_def risk_DefaultConfig_def by code_simp

lemma default_confidence_ok [simp]: "confidence_ok risk_DefaultConfig x"
proof -
  have "rc_ConfidenceWeight risk_DefaultConfig \<noteq> 0" unfolding risk_DefaultConfig_def by code_simp
  then show ?thesis by (simp add: confidence_ok_def)
qed

lemmas default_weights_nonneg = due_weights_nonneg [OF default_cfg_ok] signal_weights_nonneg [OF default_cfg_ok]
  conf_weights_nonneg [OF default_cfg_ok default_confidence_ok]

text \<open>
  (C25) Risk does not fall as time passes: with non-negative weights and an overdue weight at
  least the due-soon weight, a later evaluation of the same commitment with the same signals
  never gives a lower score. A weight may be zero; the confidence of the commitment is not infinite, as in every valid
  commitment, unless the confidence weight is positive.
\<close>

theorem risk_rises_with_time:
  assumes ok: "risk_cfg_ok (re_cfg e)" and le: "rc_DueSoonWeight (re_cfg e) \<le> rc_OverdueWeight (re_cfg e)"
    and conf: "confidence_ok (re_cfg e) (c_Confidence c)" and now: "now \<le> later"
  shows "ra_Score (EvaluateCommitment e c signals mems now) \<le> ra_Score (EvaluateCommitment e c signals mems later)"
proof -
  let ?d = "due_weights (re_cfg e) (c_DueAt c)"
  let ?r = "conf_weights (re_cfg e) (c_Confidence c) @ signal_weights (re_cfg e) signals"
  have "foldl (+) (sum_weights (?d now)) ?r \<le> foldl (+) (sum_weights (?d later)) ?r"
    using weights_nonneg(1,3) [OF ok] weights_nonneg(2) [OF ok conf] due_weights_mono [OF ok le now, of "c_DueAt c"]
    by (intro sum_weights_mono sum_weights_nonneg) auto
  then show ?thesis by (simp add: Score_sum risk_clamp_mono)
qed

theorem risk_rises_with_time_witness:
  "ra_Score (EvaluateCommitment (risk_New risk_DefaultConfig) sample_commitment [] [] 999)
     \<le> ra_Score (EvaluateCommitment (risk_New risk_DefaultConfig) sample_commitment [] [] 2000)"
proof (rule risk_rises_with_time)
  show "risk_cfg_ok (re_cfg (risk_New risk_DefaultConfig))" by (simp add: risk_New_def default_cfg_ok)
  show "rc_DueSoonWeight (re_cfg (risk_New risk_DefaultConfig)) \<le> rc_OverdueWeight (re_cfg (risk_New risk_DefaultConfig))"
    unfolding risk_New_def risk_DefaultConfig_def by code_simp
qed (simp_all add: confidence_ok_def sample_commitment_def one_float64_def)

end
