(* ===== verification/Domain_Intervention.thy ===== *)
theory Domain_Intervention
  imports Domain_Types
begin

text \<open>
  \<^verbatim>\<open>internal/domain/intervention.go\<close>: interventions, the action requests they may carry,
  their status lifecycle and \<^verbatim>\<open>Resolve\<close>.
\<close>

section \<open>Types and statuses\<close>

type_synonym InterventionType = string

definition InterventionNudge :: InterventionType where [status_defs]: "InterventionNudge = ''nudge''"
definition InterventionSuggestion :: InterventionType where
  [status_defs]: "InterventionSuggestion = ''suggestion''"
definition InterventionEscalation :: InterventionType where
  [status_defs]: "InterventionEscalation = ''escalation''"
definition InterventionAutomation :: InterventionType where
  [status_defs]: "InterventionAutomation = ''automation''"

definition InterventionType_Valid :: "InterventionType \<Rightarrow> bool" where
  "InterventionType_Valid t =
     (if t = InterventionNudge \<or> t = InterventionSuggestion \<or> t = InterventionEscalation
        \<or> t = InterventionAutomation then True else False)"

type_synonym InterventionStatus = string

definition InterventionPending :: InterventionStatus where [status_defs]: "InterventionPending = ''pending''"
definition InterventionAccepted :: InterventionStatus where [status_defs]: "InterventionAccepted = ''accepted''"
definition InterventionRejected :: InterventionStatus where [status_defs]: "InterventionRejected = ''rejected''"
definition InterventionExpired :: InterventionStatus where [status_defs]: "InterventionExpired = ''expired''"
definition InterventionExecuted :: InterventionStatus where [status_defs]: "InterventionExecuted = ''executed''"

definition InterventionStatus_Valid :: "InterventionStatus \<Rightarrow> bool" where
  "InterventionStatus_Valid s =
     (if s = InterventionPending \<or> s = InterventionAccepted \<or> s = InterventionRejected
        \<or> s = InterventionExpired \<or> s = InterventionExecuted then True else False)"

definition InterventionStatus_CanTransitionTo :: "InterventionStatus \<Rightarrow> InterventionStatus \<Rightarrow> bool" where
  "InterventionStatus_CanTransitionTo s target =
     (if s = target then True
      else if s = InterventionPending then
        target = InterventionAccepted \<or> target = InterventionRejected \<or> target = InterventionExpired
      else if s = InterventionAccepted then target = InterventionExecuted
      else False)"


section \<open>The aggregate\<close>

record ActionConstraint =
  ac_Key :: string
  ac_Value :: string

text \<open>A nil payload map and an empty one differ on the wire, hence the option.\<close>

record ActionRequest =
  ar_ID :: uuid
  ar_Capability :: string
  ar_Payload :: "anymap option"
  ar_Constraints :: "ActionConstraint list"
  ar_IdempotencyKey :: string

record Intervention =
  iv_ID :: InterventionID
  iv_CommitmentID :: "CommitmentID option"
  iv_TaskID :: "TaskID option"
  iv_Type :: InterventionType
  iv_Message :: string
  iv_SuggestedAction :: "ActionRequest option"
  iv_Status :: InterventionStatus
  iv_TriggeredAt :: time
  iv_ResolvedAt :: "time option"

definition Intervention_Validate :: "Intervention \<Rightarrow> error option" where
  "Intervention_Validate iv =
     (if iv_ID iv = uuid_Nil then Some (ErrValidation ''id is required'' [])
      else if \<not> InterventionType_Valid (iv_Type iv)
        then Some (ErrValidation ''unknown type %q'' [VString (iv_Type iv)])
      else if \<not> InterventionStatus_Valid (iv_Status iv)
        then Some (ErrValidation ''unknown status %q'' [VString (iv_Status iv)])
      else if iv_Message iv = [] then Some (ErrValidation ''message is required'' [])
      else if iv_CommitmentID iv = None \<and> iv_TaskID iv = None
        then Some (ErrValidation ''commitment_id or task_id is required'' [])
      else None)"

definition NewIntervention ::
  "uuid \<Rightarrow> InterventionType \<Rightarrow> string \<Rightarrow> CommitmentID option \<Rightarrow> TaskID option \<Rightarrow>
   ActionRequest option \<Rightarrow> time \<Rightarrow> error + Intervention" where
  "NewIntervention newID t message commitmentID taskID suggested now =
     (let iv = \<lparr>iv_ID = newID, iv_CommitmentID = commitmentID, iv_TaskID = taskID, iv_Type = t,
                iv_Message = TrimSpace message, iv_SuggestedAction = suggested,
                iv_Status = InterventionPending, iv_TriggeredAt = time_UTC now,
                iv_ResolvedAt = None\<rparr>
      in case Intervention_Validate iv of Some err \<Rightarrow> Inl err | None \<Rightarrow> Inr iv)"

definition Intervention_Resolve :: "Intervention \<Rightarrow> InterventionStatus \<Rightarrow> time \<Rightarrow> error + Intervention" where
  "Intervention_Resolve iv target now =
     (if \<not> InterventionStatus_CanTransitionTo (iv_Status iv) target
      then Inl (ErrInvalidTransition (iv_Status iv) target)
      else Inr (iv\<lparr>iv_Status := target, iv_ResolvedAt := Some (time_UTC now)\<rparr>))"


section \<open>Lemmas\<close>

declare Intervention_Validate_def [validate_defs]

definition intervention_rank :: "InterventionStatus \<Rightarrow> nat" where
  "intervention_rank s = (if s = InterventionPending then 0 else if s = InterventionAccepted then 1 else 2)"

abbreviation intervention_final :: "InterventionStatus \<Rightarrow> bool" where
  "intervention_final s \<equiv>
     s = InterventionRejected \<or> s = InterventionExpired \<or> s = InterventionExecuted"

lemma intervention_escape:
  "InterventionStatus_Valid s \<Longrightarrow>
     \<exists>t. InterventionStatus_CanTransitionTo s t \<and> intervention_final t"
  by (rule exI [of _ "if s = InterventionPending then InterventionRejected
        else if s = InterventionAccepted then InterventionExecuted else s"])
     (auto simp: InterventionStatus_Valid_def InterventionStatus_CanTransitionTo_def split: if_splits)

interpretation intervention: acyclic_stateful InterventionStatus_Valid InterventionStatus_CanTransitionTo
  intervention_final iv_Status Intervention_Resolve intervention_rank
  by unfold_locales
     (use intervention_escape in \<open>auto simp: InterventionStatus_CanTransitionTo_def
        InterventionStatus_Valid_def Intervention_Resolve_def intervention_rank_def status_defs
        split: if_splits\<close>)

lemma Intervention_Validate_None:
  "Intervention_Validate iv = None \<longleftrightarrow>
     iv_ID iv \<noteq> uuid_Nil \<and> InterventionType_Valid (iv_Type iv)
     \<and> InterventionStatus_Valid (iv_Status iv) \<and> iv_Message iv \<noteq> []
     \<and> \<not> (iv_CommitmentID iv = None \<and> iv_TaskID iv = None)"
  by (simp add: Intervention_Validate_def)

lemma InterventionStatus_Valid_Pending [simp]: "InterventionStatus_Valid InterventionPending"
  by (simp add: InterventionStatus_Valid_def)

lemma NewIntervention_Inr:
  "NewIntervention newID t msg cid tid sug now = Inr iv \<longleftrightarrow>
     newID \<noteq> uuid_Nil \<and> InterventionType_Valid t \<and> TrimSpace msg \<noteq> []
     \<and> \<not> (cid = None \<and> tid = None)
     \<and> iv = \<lparr>iv_ID = newID, iv_CommitmentID = cid, iv_TaskID = tid, iv_Type = t,
             iv_Message = TrimSpace msg, iv_SuggestedAction = sug,
             iv_Status = InterventionPending, iv_TriggeredAt = now, iv_ResolvedAt = None\<rparr>"
  by (auto simp: NewIntervention_def Let_def Intervention_Validate_def split: option.splits if_splits)

lemma NewIntervention_Inl:
  "NewIntervention newID t msg cid tid sug now = Inl e \<Longrightarrow>
     newID = uuid_Nil \<or> \<not> InterventionType_Valid t \<or> TrimSpace msg = [] \<or> (cid = None \<and> tid = None)"
  by (auto simp: NewIntervention_def Let_def Intervention_Validate_def split: option.splits if_splits)

lemma Resolve_Validate:
  "Intervention_Validate iv = None \<Longrightarrow> Intervention_Resolve iv target now = Inr iv' \<Longrightarrow>
     Intervention_Validate iv' = None"
  using intervention.can_valid [of "iv_Status iv" target]
  by (cases "iv_Status iv = target")
     (auto simp: Intervention_Resolve_def Intervention_Validate_None split: if_splits)

text \<open>An intervention that ends up executed was accepted at some moment before.\<close>

lemma executed_was_accepted:
  assumes "iv_Status (run_transitions Intervention_Resolve iv calls) = InterventionExecuted"
    and "iv_Status iv \<noteq> InterventionExecuted"
  shows "\<exists>pre post. calls = pre @ post \<and>
    iv_Status (run_transitions Intervention_Resolve iv pre) = InterventionAccepted"
  using assms
proof (induction calls arbitrary: iv)
  case (Cons c calls)
  obtain t n where c: "c = (t, n)" by (cases c)
  let ?y = "case Intervention_Resolve iv t n of Inl _ \<Rightarrow> iv | Inr y \<Rightarrow> y"
  show ?case
  proof (cases "iv_Status ?y = InterventionExecuted")
    case True
    then have "iv_Status iv = InterventionAccepted"
      using Cons.prems(2) intervention.step_status [of iv t n]
      by (auto simp: InterventionStatus_CanTransitionTo_def status_defs split: if_splits)
    then have "c # calls = [] @ c # calls \<and>
        iv_Status (run_transitions Intervention_Resolve iv []) = InterventionAccepted" by simp
    then show ?thesis by blast
  next
    case False
    have "iv_Status (run_transitions Intervention_Resolve ?y calls) = InterventionExecuted"
      using Cons.prems(1) c by simp
    from Cons.IH [OF this False] obtain pre post where "calls = pre @ post"
      "iv_Status (run_transitions Intervention_Resolve ?y pre) = InterventionAccepted" by blast
    then have "c # calls = (c # pre) @ post \<and>
        iv_Status (run_transitions Intervention_Resolve iv (c # pre)) = InterventionAccepted"
      using c by simp
    then show ?thesis by blast
  qed
qed simp


section \<open>Properties\<close>

text \<open>
  No execution without acceptance: when an intervention made by \<^verbatim>\<open>NewIntervention\<close>
  is executed after some sequence of \<^verbatim>\<open>Resolve\<close> calls, an earlier prefix of the calls had
  brought it to accepted.
\<close>

lemma executed_only_after_acceptance:
  assumes "NewIntervention newID t msg cid tid suggested now = Inr iv"
    and "iv_Status (run_transitions Intervention_Resolve iv calls) = InterventionExecuted"
  shows "\<exists>pre post. calls = pre @ post \<and>
    iv_Status (run_transitions Intervention_Resolve iv pre) = InterventionAccepted"
proof (rule executed_was_accepted)
  show "iv_Status iv \<noteq> InterventionExecuted" using assms(1) by (auto simp: NewIntervention_Inr status_defs)
qed (rule assms(2))

lemma trim_hi: "TrimSpace ''hi'' = ''hi''"
  by code_simp

text \<open>
  \<^verbatim>\<open>Resolve\<close> to the status an intervention already has succeeds, whatever the status,
  and overwrites the resolution stamp: a pending intervention can be stamped as resolved
  while it stays pending.
\<close>

lemma resolve_same_status_restamps:
  "Intervention_Resolve iv (iv_Status iv) now = Inr (iv\<lparr>iv_ResolvedAt := Some now\<rparr>)"
  by (simp add: Intervention_Resolve_def InterventionStatus_CanTransitionTo_def)

end
