(* ===== verification/Intervention_Engine.thy ===== *)
theory Intervention_Engine
  imports Risk_Engine Domain_Intervention
begin

text \<open>
  \<^verbatim>\<open>internal/intervention/engine.go\<close>: the policy that turns a risk assessment into an
  intervention. The identifier of a new intervention and the Unicode table behind the verb
  \<^verbatim>\<open>%q\<close> are arguments.
\<close>

record intervention_Config =
  ic_NudgeThreshold :: float64
  ic_EscalateThreshold :: float64
  ic_AutomationConfidence :: float64

definition intervention_DefaultConfig :: intervention_Config where
  "intervention_DefaultConfig = \<lparr>ic_NudgeThreshold = f_lit (5/10),
     ic_EscalateThreshold = f_lit (85/100), ic_AutomationConfidence = f_lit (95/100)\<rparr>"

record intervention_Engine =
  ie_cfg :: intervention_Config

definition intervention_New :: "intervention_Config \<Rightarrow> intervention_Engine" where
  "intervention_New cfg = \<lparr>ie_cfg = cfg\<rparr>"

text \<open>The loop of \<^verbatim>\<open>topReason\<close>: a later factor replaces the top one only when strictly heavier.\<close>

fun top_factor :: "RiskFactor \<Rightarrow> RiskFactor list \<Rightarrow> RiskFactor" where
  "top_factor best [] = best"
| "top_factor best (f # fs) = top_factor (if rf_Weight best < rf_Weight f then f else best) fs"

definition topReason :: "RiskAssessment \<Rightarrow> string" where
  "topReason a = (case ra_Factors a of
       [] \<Rightarrow> ''Risk threshold exceeded.''
     | f # fs \<Rightarrow> rf_Reason (top_factor f fs))"

definition MaybeIntervene ::
  "(nat \<Rightarrow> bool) \<Rightarrow> uuid \<Rightarrow> intervention_Engine \<Rightarrow> Commitment \<Rightarrow> RiskAssessment \<Rightarrow> time \<Rightarrow>
   error + Intervention option" where
  "MaybeIntervene printable newID e c assessment now =
    (let cfg = ie_cfg e in
     if ra_Score assessment < ic_NudgeThreshold cfg then Inr None
     else
      (let t = InterventionNudge;
           t = (if ic_EscalateThreshold cfg \<le> ra_Score assessment then InterventionEscalation
                else if ic_AutomationConfidence cfg \<le> ra_Confidence assessment
                        \<and> ic_NudgeThreshold cfg \<le> ra_Score assessment then InterventionAutomation
                else t);
           msg = fmt_q printable (c_Description c) @ '' is at risk of being missed (risk='' @
                 fmt_2f (ra_Score assessment) @ '', confidence='' @
                 fmt_2f (ra_Confidence assessment) @ ''). '' @ topReason assessment;
           commitmentID = c_ID c
       in case NewIntervention newID t msg (Some commitmentID) None None now of
            Inl err \<Rightarrow> Inl (ErrWrap ''intervention: build'' err)
          | Inr iv \<Rightarrow> Inr (Some iv)))"


section \<open>Lemmas\<close>

text \<open>The kind of intervention the policy picks once it fires.\<close>

definition policy_type :: "intervention_Config \<Rightarrow> float64 \<Rightarrow> float64 \<Rightarrow> InterventionType" where
  "policy_type cfg score conf =
     (if ic_EscalateThreshold cfg \<le> score then InterventionEscalation
      else if ic_AutomationConfidence cfg \<le> conf \<and> ic_NudgeThreshold cfg \<le> score
        then InterventionAutomation
      else InterventionNudge)"

lemma policy_type_valid [simp]: "InterventionType_Valid (policy_type cfg score conf)"
  by (simp add: policy_type_def InterventionType_Valid_def)

lemma policy_type_escalation:
  "policy_type cfg score conf = InterventionEscalation \<longleftrightarrow> ic_EscalateThreshold cfg \<le> score"
  by (simp add: policy_type_def status_defs)

text \<open>The message starts with a quotation mark, which is not white space.\<close>

lemma quote_not_space: "CHR 0x22 \<notin> \<Union> (set ` set space_seqs)"
  by (simp add: space_seqs_def)

lemma message_nonblank: "TrimSpace (fmt_q printable s @ rest) \<noteq> []"
  by (rule TrimSpace_nonempty [OF _ quote_not_space]) (simp add: fmt_q_def)

lemma MaybeIntervene_quiet:
  "ra_Score a < ic_NudgeThreshold (ie_cfg e) \<Longrightarrow> MaybeIntervene printable newID e c a now = Inr None"
  by (simp add: MaybeIntervene_def)

lemma MaybeIntervene_fires:
  assumes "newID \<noteq> uuid_Nil" and "\<not> ra_Score a < ic_NudgeThreshold (ie_cfg e)"
  shows "\<exists>msg. msg \<noteq> [] \<and> MaybeIntervene printable newID e c a now = Inr (Some
     \<lparr>iv_ID = newID, iv_CommitmentID = Some (c_ID c), iv_TaskID = None,
      iv_Type = policy_type (ie_cfg e) (ra_Score a) (ra_Confidence a), iv_Message = msg,
      iv_SuggestedAction = None, iv_Status = InterventionPending, iv_TriggeredAt = now,
      iv_ResolvedAt = None\<rparr>)"
proof -
  let ?msg = "fmt_q printable (c_Description c) @ '' is at risk of being missed (risk='' @
     fmt_2f (ra_Score a) @ '', confidence='' @ fmt_2f (ra_Confidence a) @ ''). '' @ topReason a"
  let ?iv = "\<lparr>iv_ID = newID, iv_CommitmentID = Some (c_ID c), iv_TaskID = None,
      iv_Type = policy_type (ie_cfg e) (ra_Score a) (ra_Confidence a), iv_Message = TrimSpace ?msg,
      iv_SuggestedAction = None, iv_Status = InterventionPending, iv_TriggeredAt = now,
      iv_ResolvedAt = None\<rparr>"
  have nb: "TrimSpace ?msg \<noteq> []" by (rule message_nonblank)
  have "NewIntervention newID (policy_type (ie_cfg e) (ra_Score a) (ra_Confidence a)) ?msg
      (Some (c_ID c)) None None now = Inr ?iv"
    using assms(1) nb by (simp add: NewIntervention_Inr)
  then have "MaybeIntervene printable newID e c a now = Inr (Some ?iv)"
    using assms(2) by (simp add: MaybeIntervene_def Let_def policy_type_def split: if_splits)
  with nb show ?thesis by blast
qed

lemma MaybeIntervene_valid:
  "MaybeIntervene printable newID e c a now = Inr (Some iv) \<Longrightarrow> Intervention_Validate iv = None"
  by (auto simp: MaybeIntervene_def Let_def NewIntervention_Inr Intervention_Validate_None
      split: if_splits sum.splits)

lemma MaybeIntervene_ID:
  "MaybeIntervene printable newID e c a now = Inr (Some iv) \<Longrightarrow> iv_ID iv = newID"
  by (auto simp: MaybeIntervene_def Let_def NewIntervention_Inr split: if_splits sum.splits)

lemma MaybeIntervene_type:
  "MaybeIntervene printable newID e c a now = Inr (Some iv) \<Longrightarrow>
     iv_Type iv = policy_type (ie_cfg e) (ra_Score a) (ra_Confidence a)"
  by (auto simp: MaybeIntervene_def Let_def NewIntervention_Inr policy_type_def split: if_splits sum.splits)

text \<open>\<open>top_factor\<close> picks the first of the heaviest factors.\<close>

lemma top_factor_in: "top_factor t fs \<in> set (t # fs)"
proof (induction fs arbitrary: t)
  case (Cons f fs)
  show ?case using Cons [of f] Cons [of t] by auto
qed simp


lemma top_factor_split:
  assumes "\<forall>f \<in> set (t # fs). rf_Weight f \<noteq> NaN"
  shows "\<exists>pre post. t # fs = pre @ top_factor t fs # post
    \<and> (\<forall>f \<in> set (t # fs). rf_Weight f \<le> rf_Weight (top_factor t fs))
    \<and> (\<forall>f \<in> set pre. rf_Weight f < rf_Weight (top_factor t fs))"
  using assms
proof (induction fs arbitrary: t)
  case Nil
  then show ?case by (intro exI [of _ "[]"]) (auto simp: f_le_refl)
next
  case (Cons g fs)
  define b where "b = (if rf_Weight t < rf_Weight g then g else t)"
  define m where "m = top_factor b fs"
  have nn: "\<forall>f \<in> set (b # fs). rf_Weight f \<noteq> NaN" using Cons.prems by (auto simp: b_def)
  obtain pre post where sp: "b # fs = pre @ m # post"
    and le: "\<forall>f \<in> set (b # fs). rf_Weight f \<le> rf_Weight m"
    and lt: "\<forall>f \<in> set pre. rf_Weight f < rf_Weight m"
    using Cons.IH [OF nn, folded m_def] by (elim exE conjE) (rule that)
  have top: "top_factor t (g # fs) = m" by (simp add: m_def b_def)
  show ?case unfolding top
  proof (cases "rf_Weight t < rf_Weight g")
    case True
    then have bg: "b = g" by (simp add: b_def)
    then have tm: "rf_Weight t < rf_Weight m" using True le f_less_le_trans by auto
    show "\<exists>pre post. t # g # fs = pre @ m # post \<and> (\<forall>f \<in> set (t # g # fs). rf_Weight f \<le> rf_Weight m)
        \<and> (\<forall>f \<in> set pre. rf_Weight f < rf_Weight m)"
      using tm sp le lt bg by (intro exI [of _ "t # pre"] exI [of _ post]) (auto simp: f_less_imp_le)
  next
    case False
    then have bt: "b = t" by (simp add: b_def)
    have gt: "rf_Weight g \<le> rf_Weight t" using False Cons.prems f_not_less by auto
    then have gm: "rf_Weight g \<le> rf_Weight m" using le bt f_le_trans by auto
    have "\<exists>pre' post'. t # g # fs = pre' @ m # post' \<and> (\<forall>f \<in> set pre'. rf_Weight f < rf_Weight m)"
    proof (cases pre)
      case Nil
      then show ?thesis using sp bt by (intro exI [of _ "[]"] exI [of _ "g # fs"]) simp
    next
      case (Cons u us)
      then have u: "u = t" "fs = us @ m # post" using sp bt by auto
      then have "rf_Weight g < rf_Weight m" using lt Cons gt f_le_less_trans by auto
      then show ?thesis
        using u lt Cons by (intro exI [of _ "t # g # us"] exI [of _ post]) auto
    qed
    moreover have "\<forall>f \<in> set (t # g # fs). rf_Weight f \<le> rf_Weight m" using le gm bt by auto
    ultimately show "\<exists>pre post. t # g # fs = pre @ m # post \<and> (\<forall>f \<in> set (t # g # fs). rf_Weight f \<le> rf_Weight m)
        \<and> (\<forall>f \<in> set pre. rf_Weight f < rf_Weight m)" by blast
  qed
qed


section \<open>Properties\<close>

text \<open>
  The decision table of the policy: below the nudge threshold nothing happens; from it
  on there is exactly one pending intervention about the commitment, an escalation when the
  score reaches the escalation threshold, else an automation when the confidence reaches
  the automation threshold, else a nudge. Building it never fails.
\<close>

lemma policy_decision_table:
  assumes "newID \<noteq> uuid_Nil"
  shows "(MaybeIntervene printable newID e c a now = Inr None \<longleftrightarrow> ra_Score a < ic_NudgeThreshold (ie_cfg e))
    \<and> (\<not> ra_Score a < ic_NudgeThreshold (ie_cfg e) \<longrightarrow>
        (\<exists>iv. MaybeIntervene printable newID e c a now = Inr (Some iv)
          \<and> Intervention_Validate iv = None \<and> iv_ID iv = newID \<and> iv_CommitmentID iv = Some (c_ID c)
          \<and> iv_Status iv = InterventionPending \<and> iv_TriggeredAt iv = now
          \<and> iv_Type iv = (if ic_EscalateThreshold (ie_cfg e) \<le> ra_Score a then InterventionEscalation
               else if ic_AutomationConfidence (ie_cfg e) \<le> ra_Confidence a
                       \<and> ic_NudgeThreshold (ie_cfg e) \<le> ra_Score a then InterventionAutomation
               else InterventionNudge)))"
proof (cases "ra_Score a < ic_NudgeThreshold (ie_cfg e)")
  case True
  then show ?thesis by (simp add: MaybeIntervene_quiet)
next
  case False
  obtain msg where "MaybeIntervene printable newID e c a now = Inr (Some
     \<lparr>iv_ID = newID, iv_CommitmentID = Some (c_ID c), iv_TaskID = None,
      iv_Type = policy_type (ie_cfg e) (ra_Score a) (ra_Confidence a), iv_Message = msg,
      iv_SuggestedAction = None, iv_Status = InterventionPending, iv_TriggeredAt = now,
      iv_ResolvedAt = None\<rparr>)"
    using MaybeIntervene_fires [OF assms False] by blast
  with MaybeIntervene_valid [OF this] False show ?thesis by (simp add: policy_type_def)
qed

text \<open>
  \<^verbatim>\<open>topReason\<close> quotes the heaviest factor: when no weight is NaN, the reason is that of
  a factor whose weight no other exceeds and which all earlier factors fall short of.
\<close>

lemma top_reason_heaviest:
  assumes "ra_Factors a \<noteq> []" and "\<forall>f \<in> set (ra_Factors a). rf_Weight f \<noteq> NaN"
  shows "\<exists>pre f post. ra_Factors a = pre @ f # post \<and> topReason a = rf_Reason f
    \<and> (\<forall>g \<in> set (ra_Factors a). rf_Weight g \<le> rf_Weight f) \<and> (\<forall>g \<in> set pre. rf_Weight g < rf_Weight f)"
proof -
  obtain t fs where a: "ra_Factors a = t # fs" using assms(1) by (cases "ra_Factors a") auto
  then show ?thesis
    using top_factor_split [of t fs] assms(2) unfolding topReason_def by (auto intro: exI)
qed

end
