(* ===== verification/Default_Policy.thy ===== *)
theory Default_Policy
  imports Intervention_Engine
begin

text \<open>
  The two engines together, with the configurations \<^verbatim>\<open>DefaultConfig\<close> of both packages
  return: which commitments the evaluation pass bothers anyone about.
\<close>

definition default_assessment :: "Commitment \<Rightarrow> ChronosSignal list \<Rightarrow> time \<Rightarrow> RiskAssessment" where
  "default_assessment c signals now = EvaluateCommitment (risk_New risk_DefaultConfig) c signals [] now"

lemma default_score:
  "ra_Score (default_assessment c signals now) = risk_clamp (sum_weights
     (due_weights risk_DefaultConfig (c_DueAt c) now @ conf_weights risk_DefaultConfig (c_Confidence c)
      @ signal_weights risk_DefaultConfig signals))"
  by (simp add: default_assessment_def Score_sum risk_New_def)

text \<open>The confidence contribution is at most the confidence weight.\<close>

lemma conf_contribution:
  assumes "\<not> out_of_unit x" and "0 < x"
  shows "0 \<le> x * f_lit (2/10)" and "x * f_lit (2/10) \<le> f_lit (2/10)"
proof -
  have w: "0 < f_lit (2/10)" "f_lit (2/10) < 1" "(1::float64) * f_lit (2/10) = f_lit (2/10)" by code_simp+
  then obtain y where y: "f_lit (2/10) = Fin y" "0 \<le> y"
    by (cases "f_lit (2/10)") (auto simp: zero_float64_def one_float64_def)
  obtain z where z: "x = Fin z" "0 < z" "z \<le> 1"
    using assms by (cases x) (auto simp: out_of_unit_def zero_float64_def one_float64_def)
  show "0 \<le> x * f_lit (2/10)" using assms(2) w(1) by (rule times_pos_nonneg)
  show "x * f_lit (2/10) \<le> f_lit (2/10)"
    using times_mono_finite [of z 1 y] y z w(3) by (simp add: one_float64_def)
qed

lemma conf_weights_default:
  assumes "\<not> out_of_unit x"
  shows "conf_weights risk_DefaultConfig x = []
    \<or> (\<exists>v. conf_weights risk_DefaultConfig x = [v] \<and> 0 \<le> v \<and> v \<le> f_lit (2/10))"
  using conf_contribution [OF assms] by (auto simp: conf_weights_def risk_DefaultConfig_def)

text \<open>
  The score is at most the one with the full confidence weight, and at least the one of
  the due-time contribution alone.
\<close>

abbreviation due_default :: "Commitment \<Rightarrow> time \<Rightarrow> float64 list" where
  "due_default c now \<equiv> due_weights risk_DefaultConfig (c_DueAt c) now"

abbreviation sig_default :: "ChronosSignal list \<Rightarrow> float64 list" where
  "sig_default signals \<equiv> signal_weights risk_DefaultConfig signals"

lemma due_default_cases: "due_default c now \<in> {[], [f_lit (6/10)], [f_lit (3/10)]}"
  by (auto simp: due_weights_def risk_DefaultConfig_def split: option.splits)

lemma sig_default_cases: "sig_default signals = (if signals = [] then [] else [f_lit (15/100)])"
  by (simp add: signal_weights_def risk_DefaultConfig_def)

text \<open>The arithmetic of the default weights, in floating point.\<close>

lemma w6_grows: "0 + f_lit (6/10) \<le> 0 + f_lit (6/10) + f_lit (2/10)"
  by code_simp

lemma w3_grows: "0 + f_lit (3/10) \<le> 0 + f_lit (3/10) + f_lit (2/10)"
  by code_simp

lemma w2_nudge: "0 + f_lit (2/10) < f_lit (5/10)"
  by code_simp

lemma w2s_nudge: "0 + f_lit (2/10) + f_lit (15/100) < f_lit (5/10)"
  by code_simp

lemma w32_esc: "0 + f_lit (3/10) + f_lit (2/10) < f_lit (85/100)"
  by code_simp

lemma w32s_esc: "0 + f_lit (3/10) + f_lit (2/10) + f_lit (15/100) < f_lit (85/100)"
  by code_simp

lemma w62_esc: "0 + f_lit (6/10) + f_lit (2/10) < f_lit (85/100)"
  by code_simp

lemma nudge_esc: "f_lit (5/10) < f_lit (85/100)"
  by code_simp

lemma esc_one: "f_lit (85/100) \<le> 1"
  by code_simp

lemma w6_zero: "f_lit (6/10) + 0 = f_lit (6/10)"
  by code_simp

lemma zero_w6: "0 + f_lit (6/10) = f_lit (6/10)"
  by code_simp

lemma w6_nudge: "f_lit (5/10) \<le> risk_clamp (f_lit (6/10))"
  by code_simp

lemma nudge_one: "f_lit (5/10) \<le> 1"
  using nudge_esc esc_one by (meson f_le_trans f_less_imp_le)

lemma w6_nonneg: "0 \<le> f_lit (6/10)"
  using default_cfg_ok by (simp add: risk_cfg_ok_def risk_DefaultConfig_def)

lemma w2_esc: "0 + f_lit (2/10) < f_lit (85/100)" "0 + f_lit (2/10) + f_lit (15/100) < f_lit (85/100)"
  using w2_nudge w2s_nudge nudge_esc float_less_trans by blast+

lemma due_sum_grows:
  "0 \<le> sum_weights (due_default c now)"
  "sum_weights (due_default c now) \<le> sum_weights (due_default c now) + f_lit (2/10)"
proof -
  show n: "0 \<le> sum_weights (due_default c now)"
    using due_weights_nonneg [OF default_cfg_ok] by (intro sum_weights_nonneg) simp_all
  have "0 \<le> 0 + f_lit (2/10)"
    using default_cfg_ok by (intro plus_nonneg) (simp_all add: risk_cfg_ok_def risk_DefaultConfig_def f_less_imp_le)
  then show "sum_weights (due_default c now) \<le> sum_weights (due_default c now) + f_lit (2/10)"
    using due_default_cases [of c now] w6_grows w3_grows by (elim insertE emptyE) (simp_all only: foldl.simps)
qed

lemma default_sum_le:
  assumes "\<not> out_of_unit (c_Confidence c)"
  shows "sum_weights (due_default c now @ conf_weights risk_DefaultConfig (c_Confidence c) @ sig_default signals)
    \<le> sum_weights (due_default c now @ [f_lit (2/10)] @ sig_default signals)"
proof -
  let ?d = "sum_weights (due_default c now)"
  have s: "\<forall>w \<in> set (sig_default signals). 0 \<le> w" using weights_nonneg(3) [OF default_cfg_ok] .
  note d = due_sum_grows [of c now]
  show ?thesis
  proof (cases "conf_weights risk_DefaultConfig (c_Confidence c) = []")
    case True
    have "foldl (+) ?d (sig_default signals) \<le> foldl (+) (?d + f_lit (2/10)) (sig_default signals)"
      using d s by (rule sum_weights_mono)
    with True show ?thesis by simp
  next
    case False
    then obtain v where v: "conf_weights risk_DefaultConfig (c_Confidence c) = [v]" "0 \<le> v" "v \<le> f_lit (2/10)"
      using conf_weights_default [OF assms] by auto
    have "?d + v \<le> ?d + f_lit (2/10)" using d(1) f_nonneg_refl [OF d(1)] v(2,3) by (rule plus_mono_nonneg)
    then have "foldl (+) (?d + v) (sig_default signals) \<le> foldl (+) (?d + f_lit (2/10)) (sig_default signals)"
      using s plus_nonneg [OF d(1) v(2)] by (intro sum_weights_mono)
    with v show ?thesis by simp
  qed
qed

lemma default_score_less:
  assumes "\<not> out_of_unit (c_Confidence c)" and "b \<le> 1"
    and "sum_weights (due_default c now @ [f_lit (2/10)] @ sig_default signals) < b"
  shows "ra_Score (default_assessment c signals now) < b"
proof -
  let ?x = "sum_weights (due_default c now @ conf_weights risk_DefaultConfig (c_Confidence c) @ sig_default signals)"
  have lt: "?x < b" using default_sum_le [OF assms(1)] assms(3) by (rule f_le_less_trans)
  have "0 \<le> ?x" using default_weights_nonneg by (intro sum_weights_nonneg) auto
  moreover have "?x < 1" using lt assms(2) by (rule f_less_le_trans)
  ultimately show ?thesis using lt by (simp add: default_score risk_clamp_less del: foldl_append)
qed

lemma default_score_overdue:
  assumes "c_DueAt c = Some due" and "due < now"
  shows "f_lit (5/10) \<le> ra_Score (default_assessment c signals now)"
proof -
  let ?r = "conf_weights risk_DefaultConfig (c_Confidence c) @ sig_default signals"
  have d: "due_default c now = [f_lit (6/10)]" using assms by (simp add: due_weights_def risk_DefaultConfig_def)
  note c = w6_nudge w6_nonneg w6_zero zero_w6
  have "0 \<le> a \<Longrightarrow> f_lit (6/10) \<le> a \<Longrightarrow> \<forall>w \<in> set ws. 0 \<le> w \<Longrightarrow> f_lit (6/10) \<le> foldl (+) a ws" for a ws
  proof (induction ws arbitrary: a)
    case (Cons w ws)
    then have w: "0 \<le> w" by simp
    have "f_lit (6/10) + 0 \<le> a + w" using c(2) Cons.prems(2) _ w by (rule plus_mono_nonneg) simp
    then have "f_lit (6/10) \<le> a + w" by (simp only: c(3))
    then show ?case using Cons plus_nonneg [OF Cons.prems(1) w] by simp
  qed simp
  then have "f_lit (6/10) \<le> foldl (+) (f_lit (6/10)) ?r"
    using c(2) f_nonneg_refl [OF c(2)] by this (use default_weights_nonneg in auto)
  then have "risk_clamp (f_lit (6/10)) \<le> ra_Score (default_assessment c signals now)"
    using c(4) by (simp add: default_score d risk_clamp_mono)
  with c(1) show ?thesis by (rule f_le_trans)
qed

lemma default_escalation:
  assumes "MaybeIntervene printable newID (intervention_New intervention_DefaultConfig) c a now = Inr (Some iv)"
    and "iv_Type iv = InterventionEscalation"
  shows "\<not> ra_Score a < f_lit (85/100)"
proof -
  have "ic_EscalateThreshold (ie_cfg (intervention_New intervention_DefaultConfig)) = f_lit (85/100)"
    by (simp add: intervention_New_def intervention_DefaultConfig_def)
  then have "f_lit (85/100) \<le> ra_Score a"
    using MaybeIntervene_type [OF assms(1)] assms(2) policy_type_escalation by metis
  then show ?thesis using f_le_less_trans float_irrefl by metis
qed

lemma default_escalation_signal:
  assumes "Commitment_Validate c = None"
    and "MaybeIntervene printable newID (intervention_New intervention_DefaultConfig) c (default_assessment c signals now) now = Inr (Some iv)"
    and "iv_Type iv = InterventionEscalation"
  shows "signals \<noteq> []"
proof
  assume "signals = []"
  then have "sum_weights (due_default c now @ [f_lit (2/10)] @ sig_default signals) < f_lit (85/100)"
    using due_default_cases [of c now] w2_esc w32_esc w62_esc
    by (elim insertE emptyE) (simp_all add: sig_default_cases)
  moreover have "\<not> out_of_unit (c_Confidence c)" using assms(1) by (simp add: Commitment_Validate_None)
  ultimately show False
    using default_escalation [OF assms(2,3)] default_score_less [OF _ esc_one] by blast
qed

text \<open>
  (C6) The default engines together: a valid commitment without a due time is never
  acted upon; one that is past its due time always gets an intervention; and an escalation
  implies both that the commitment is past its due time and that Chronos reported a signal.
\<close>

theorem default_policy_profile:
  assumes "Commitment_Validate c = None" and "newID \<noteq> uuid_Nil"
  shows "(c_DueAt c = None \<longrightarrow>
      MaybeIntervene printable newID (intervention_New intervention_DefaultConfig) c (default_assessment c signals now) now = Inr None)
    \<and> (\<forall>due. c_DueAt c = Some due \<and> due < now \<longrightarrow>
      (\<exists>iv. MaybeIntervene printable newID (intervention_New intervention_DefaultConfig) c (default_assessment c signals now) now = Inr (Some iv)))
    \<and> (\<forall>iv. MaybeIntervene printable newID (intervention_New intervention_DefaultConfig) c (default_assessment c signals now) now = Inr (Some iv)
        \<and> iv_Type iv = InterventionEscalation \<longrightarrow> (\<exists>due. c_DueAt c = Some due \<and> due < now) \<and> signals \<noteq> [])"
proof (intro conjI impI allI)
  let ?e = "intervention_New intervention_DefaultConfig" and ?a = "default_assessment c signals now"
  have conf: "\<not> out_of_unit (c_Confidence c)" using assms(1) by (simp add: Commitment_Validate_None)
  have th: "ic_NudgeThreshold (ie_cfg ?e) = f_lit (5/10)" "ic_EscalateThreshold (ie_cfg ?e) = f_lit (85/100)"
    by (simp_all add: intervention_New_def intervention_DefaultConfig_def)
  {
    assume "c_DueAt c = None"
    then have d: "due_default c now = []" by (simp add: due_weights_def)
    have "ra_Score ?a < f_lit (5/10)"
      by (intro default_score_less conf nudge_one)
         (use w2_nudge w2s_nudge in \<open>simp add: d sig_default_cases\<close>)
    then show "MaybeIntervene printable newID ?e c ?a now = Inr None" by (simp add: MaybeIntervene_quiet th)
  next
    fix due assume "c_DueAt c = Some due \<and> due < now"
    then have "f_lit (5/10) \<le> ra_Score ?a" using default_score_overdue by blast
    then have "\<not> ra_Score ?a < ic_NudgeThreshold (ie_cfg ?e)" unfolding th using f_le_less_trans [of "f_lit (5/10)" "ra_Score ?a"] float_irrefl by metis
    from MaybeIntervene_fires [OF assms(2) this] show "\<exists>iv. MaybeIntervene printable newID ?e c ?a now = Inr (Some iv)" by blast
  next
    fix iv assume iv: "MaybeIntervene printable newID ?e c ?a now = Inr (Some iv) \<and> iv_Type iv = InterventionEscalation"
    have no: "\<not> ra_Score ?a < f_lit (85/100)" using iv default_escalation by blast
    show "signals \<noteq> []" using iv default_escalation_signal [OF assms(1)] by blast
    show "\<exists>due. c_DueAt c = Some due \<and> due < now"
    proof (rule ccontr)
      assume "\<not> (\<exists>due. c_DueAt c = Some due \<and> due < now)"
      then have "due_default c now \<in> {[], [f_lit (3/10)]}"
        by (auto simp: due_weights_def risk_DefaultConfig_def split: option.splits)
      then have "sum_weights (due_default c now @ [f_lit (2/10)] @ sig_default signals) < f_lit (85/100)"
        using w2_esc w32_esc w32s_esc by (elim insertE emptyE) (simp_all add: sig_default_cases)
      with no default_score_less [OF conf esc_one] show False by blast
    qed
  }
qed


theorem default_policy_profile_witness:
  "\<exists>iv. MaybeIntervene (\<lambda>_. True) 11 (intervention_New intervention_DefaultConfig) sample_commitment
     (default_assessment sample_commitment [] 2000) 2000 = Inr (Some iv)"
proof -
  have i: "(11::uuid) \<noteq> uuid_Nil" by (simp add: uuid_Nil_def)
  have d: "c_DueAt sample_commitment = Some 1000 \<and> (1000::int) < 2000" by (simp add: sample_commitment_def)
  show ?thesis
    using default_policy_profile [OF sample_commitment_valid i, of "\<lambda>_. True" "[]" 2000] d by blast
qed

end
