(* ===== verification/Domain_Decision.thy ===== *)
theory Domain_Decision
  imports Domain_Types
begin

text \<open>
  \<^verbatim>\<open>internal/domain/decision.go\<close>: the append-only audit record. The three maps of a
  decision may be nil, hence the options.
\<close>

type_synonym DecisionInputs = anymap
type_synonym DecisionWeights = "(string \<times> float64) list"
type_synonym DecisionOutcome = anymap

record Decision =
  d_ID :: DecisionID
  d_Subject :: string
  d_ContextRefs :: "SourceRef list"
  d_Inputs :: "DecisionInputs option"
  d_Weights :: "DecisionWeights option"
  d_Outcome :: "DecisionOutcome option"
  d_Reason :: string
  d_Confidence :: float64
  d_CreatedAt :: time

definition Decision_Validate :: "Decision \<Rightarrow> error option" where
  "Decision_Validate d =
     (if d_ID d = uuid_Nil then Some (ErrValidation ''id is required'' [])
      else if d_Subject d = [] then Some (ErrValidation ''subject is required'' [])
      else if d_Reason d = [] then Some (ErrValidation ''reason is required'' [])
      else if out_of_unit (d_Confidence d) then Some (ErrValidation ''confidence must be in [0,1]'' [])
      else None)"

definition NewDecision :: "uuid \<Rightarrow> string \<Rightarrow> string \<Rightarrow> float64 \<Rightarrow> time \<Rightarrow> error + Decision" where
  "NewDecision newID subject reason confidence now =
     (let d = \<lparr>d_ID = newID, d_Subject = TrimSpace subject, d_ContextRefs = [], d_Inputs = None,
               d_Weights = None, d_Outcome = None, d_Reason = TrimSpace reason,
               d_Confidence = confidence, d_CreatedAt = time_UTC now\<rparr>
      in case Decision_Validate d of Some err \<Rightarrow> Inl err | None \<Rightarrow> Inr d)"

declare Decision_Validate_def [validate_defs]

lemma Decision_Validate_None:
  "Decision_Validate d = None \<longleftrightarrow>
     d_ID d \<noteq> uuid_Nil \<and> d_Subject d \<noteq> [] \<and> d_Reason d \<noteq> [] \<and> \<not> out_of_unit (d_Confidence d)"
  by (simp add: Decision_Validate_def)

lemma NewDecision_Inr:
  "NewDecision newID subject reason conf now = Inr d \<longleftrightarrow>
     newID \<noteq> uuid_Nil \<and> TrimSpace subject \<noteq> [] \<and> TrimSpace reason \<noteq> [] \<and> \<not> out_of_unit conf
     \<and> d = \<lparr>d_ID = newID, d_Subject = TrimSpace subject, d_ContextRefs = [], d_Inputs = None,
            d_Weights = None, d_Outcome = None, d_Reason = TrimSpace reason,
            d_Confidence = conf, d_CreatedAt = now\<rparr>"
  by (auto simp: NewDecision_def Let_def Decision_Validate_def split: option.splits if_splits)

lemma NewDecision_Inl:
  "(\<exists>e. NewDecision newID subject reason conf now = Inl e) \<longleftrightarrow>
     newID = uuid_Nil \<or> TrimSpace subject = [] \<or> TrimSpace reason = [] \<or> out_of_unit conf"
  by (auto simp: NewDecision_def Let_def Decision_Validate_def split: option.splits if_splits)

end
