(* ===== verification/Domain_Goal.thy ===== *)
theory Domain_Goal
  imports Domain_Types
begin

text \<open>
  \<^verbatim>\<open>internal/domain/goal.go\<close>: goals, plans and plan steps, with their two lifecycles and
  the validation loop over the steps of a plan.
\<close>

section \<open>Goals\<close>

type_synonym GoalStatus = string

definition GoalOpen :: GoalStatus where [status_defs]: "GoalOpen = ''open''"
definition GoalPlanned :: GoalStatus where [status_defs]: "GoalPlanned = ''planned''"
definition GoalActive :: GoalStatus where [status_defs]: "GoalActive = ''active''"
definition GoalCompleted :: GoalStatus where [status_defs]: "GoalCompleted = ''completed''"
definition GoalCancelled :: GoalStatus where [status_defs]: "GoalCancelled = ''cancelled''"

definition GoalStatus_Valid :: "GoalStatus \<Rightarrow> bool" where
  "GoalStatus_Valid s =
     (if s = GoalOpen \<or> s = GoalPlanned \<or> s = GoalActive \<or> s = GoalCompleted \<or> s = GoalCancelled
      then True else False)"

definition GoalStatus_CanTransitionTo :: "GoalStatus \<Rightarrow> GoalStatus \<Rightarrow> bool" where
  "GoalStatus_CanTransitionTo s target =
     (if s = target then True
      else if s = GoalOpen then target = GoalPlanned \<or> target = GoalCancelled
      else if s = GoalPlanned then target = GoalActive \<or> target = GoalCancelled
      else if s = GoalActive then target = GoalCompleted \<or> target = GoalCancelled
      else False)"

record Goal =
  g_ID :: GoalID
  g_OwnerID :: string
  g_Title :: string
  g_Description :: string
  g_Priority :: Priority
  g_Status :: GoalStatus
  g_SourceRefs :: "SourceRef list"
  g_CreatedAt :: time
  g_UpdatedAt :: time

definition Goal_Validate :: "Goal \<Rightarrow> error option" where
  "Goal_Validate g =
     (if g_ID g = uuid_Nil then Some (ErrValidation ''id is required'' [])
      else if g_OwnerID g = [] then Some (ErrValidation ''owner_id is required'' [])
      else if g_Title g = [] then Some (ErrValidation ''title is required'' [])
      else if \<not> GoalStatus_Valid (g_Status g)
        then Some (ErrValidation ''unknown status %q'' [VString (g_Status g)])
      else None)"

definition NewGoal ::
  "uuid \<Rightarrow> string \<Rightarrow> string \<Rightarrow> string \<Rightarrow> Priority \<Rightarrow> time \<Rightarrow> error + Goal" where
  "NewGoal newID ownerID title description priority now =
     (let g = \<lparr>g_ID = newID, g_OwnerID = TrimSpace ownerID, g_Title = TrimSpace title,
               g_Description = TrimSpace description, g_Priority = priority, g_Status = GoalOpen,
               g_SourceRefs = [], g_CreatedAt = time_UTC now, g_UpdatedAt = time_UTC now\<rparr>
      in case Goal_Validate g of Some err \<Rightarrow> Inl err | None \<Rightarrow> Inr g)"

definition Goal_Transition :: "Goal \<Rightarrow> GoalStatus \<Rightarrow> time \<Rightarrow> error + Goal" where
  "Goal_Transition g target now =
     (if \<not> GoalStatus_CanTransitionTo (g_Status g) target
      then Inl (ErrInvalidTransition (g_Status g) target)
      else Inr (g\<lparr>g_Status := target, g_UpdatedAt := time_UTC now\<rparr>))"


section \<open>Plans\<close>

type_synonym PlanStatus = string

definition PlanDraft :: PlanStatus where [status_defs]: "PlanDraft = ''draft''"
definition PlanActive :: PlanStatus where [status_defs]: "PlanActive = ''active''"
definition PlanCompleted :: PlanStatus where [status_defs]: "PlanCompleted = ''completed''"
definition PlanSuperseded :: PlanStatus where [status_defs]: "PlanSuperseded = ''superseded''"

definition PlanStatus_Valid :: "PlanStatus \<Rightarrow> bool" where
  "PlanStatus_Valid s =
     (if s = PlanDraft \<or> s = PlanActive \<or> s = PlanCompleted \<or> s = PlanSuperseded then True else False)"

definition PlanStatus_CanTransitionTo :: "PlanStatus \<Rightarrow> PlanStatus \<Rightarrow> bool" where
  "PlanStatus_CanTransitionTo s target =
     (if s = target then True
      else if s = PlanDraft then target = PlanActive \<or> target = PlanSuperseded
      else if s = PlanActive then target = PlanCompleted \<or> target = PlanSuperseded
      else False)"

record PlanStep =
  ps_ID :: string
  ps_Order :: int
  ps_Description :: string
  ps_RequiredCapability :: "string option"
  ps_DependsOn :: "string list"

record Plan =
  pl_ID :: PlanID
  pl_GoalID :: GoalID
  pl_Status :: PlanStatus
  pl_Steps :: "PlanStep list"
  pl_CreatedAt :: time
  pl_UpdatedAt :: time

text \<open>The loop \<^verbatim>\<open>for i, step := range p.Steps\<close>, from index \<open>i\<close> on.\<close>

fun Plan_Validate_steps :: "nat \<Rightarrow> PlanStep list \<Rightarrow> error option" where
  "Plan_Validate_steps i [] = None"
| "Plan_Validate_steps i (step # steps) =
     (if ps_ID step = [] then Some (ErrValidation ''step[%d] id is required'' [VInt (int i)])
      else if ps_Description step = []
        then Some (ErrValidation ''step[%d] description is required'' [VInt (int i)])
      else Plan_Validate_steps (Suc i) steps)"

definition Plan_Validate :: "Plan \<Rightarrow> error option" where
  "Plan_Validate p =
     (if pl_ID p = uuid_Nil then Some (ErrValidation ''id is required'' [])
      else if pl_GoalID p = uuid_Nil then Some (ErrValidation ''goal_id is required'' [])
      else if \<not> PlanStatus_Valid (pl_Status p)
        then Some (ErrValidation ''unknown status %q'' [VString (pl_Status p)])
      else Plan_Validate_steps 0 (pl_Steps p))"

definition Plan_Transition :: "Plan \<Rightarrow> PlanStatus \<Rightarrow> time \<Rightarrow> error + Plan" where
  "Plan_Transition p target now =
     (if \<not> PlanStatus_CanTransitionTo (pl_Status p) target
      then Inl (ErrInvalidTransition (pl_Status p) target)
      else Inr (p\<lparr>pl_Status := target, pl_UpdatedAt := time_UTC now\<rparr>))"


section \<open>Lemmas\<close>

declare Goal_Validate_def [validate_defs] Plan_Validate_def [validate_defs]

definition goal_rank :: "GoalStatus \<Rightarrow> nat" where
  "goal_rank s = (if s = GoalOpen then 0 else if s = GoalPlanned then 1 else if s = GoalActive then 2 else 3)"

lemma goal_escape:
  "GoalStatus_Valid s \<Longrightarrow>
     \<exists>t. GoalStatus_CanTransitionTo s t \<and> (t = GoalCompleted \<or> t = GoalCancelled)"
  by (rule exI [of _ "if s = GoalCompleted then s else GoalCancelled"])
     (auto simp: GoalStatus_Valid_def GoalStatus_CanTransitionTo_def split: if_splits)

interpretation goal: acyclic_stateful GoalStatus_Valid GoalStatus_CanTransitionTo
  "\<lambda>s. s = GoalCompleted \<or> s = GoalCancelled" g_Status Goal_Transition goal_rank
  by unfold_locales
     (use goal_escape in \<open>auto simp: GoalStatus_CanTransitionTo_def GoalStatus_Valid_def
        Goal_Transition_def goal_rank_def status_defs split: if_splits\<close>)

definition plan_rank :: "PlanStatus \<Rightarrow> nat" where
  "plan_rank s = (if s = PlanDraft then 0 else if s = PlanActive then 1 else 2)"

lemma plan_escape:
  "PlanStatus_Valid s \<Longrightarrow>
     \<exists>t. PlanStatus_CanTransitionTo s t \<and> (t = PlanCompleted \<or> t = PlanSuperseded)"
  by (rule exI [of _ "if s = PlanCompleted then s else PlanSuperseded"])
     (auto simp: PlanStatus_Valid_def PlanStatus_CanTransitionTo_def split: if_splits)

interpretation plan: acyclic_stateful PlanStatus_Valid PlanStatus_CanTransitionTo
  "\<lambda>s. s = PlanCompleted \<or> s = PlanSuperseded" pl_Status Plan_Transition plan_rank
  by unfold_locales
     (use plan_escape in \<open>auto simp: PlanStatus_CanTransitionTo_def PlanStatus_Valid_def
        Plan_Transition_def plan_rank_def status_defs split: if_splits\<close>)

lemma Goal_Validate_None:
  "Goal_Validate g = None \<longleftrightarrow>
     g_ID g \<noteq> uuid_Nil \<and> g_OwnerID g \<noteq> [] \<and> g_Title g \<noteq> [] \<and> GoalStatus_Valid (g_Status g)"
  by (simp add: Goal_Validate_def)

lemma NewGoal_Inr:
  "NewGoal newID ow title desc prio now = Inr g \<longleftrightarrow>
     newID \<noteq> uuid_Nil \<and> TrimSpace ow \<noteq> [] \<and> TrimSpace title \<noteq> []
     \<and> g = \<lparr>g_ID = newID, g_OwnerID = TrimSpace ow, g_Title = TrimSpace title,
            g_Description = TrimSpace desc, g_Priority = prio, g_Status = GoalOpen,
            g_SourceRefs = [], g_CreatedAt = now, g_UpdatedAt = now\<rparr>"
  by (auto simp: NewGoal_def Let_def Goal_Validate_def GoalStatus_Valid_def split: option.splits if_splits)

text \<open>The step loop reports the first step that lacks an identifier or a description.\<close>

definition bad_step :: "PlanStep \<Rightarrow> bool" where
  "bad_step s \<longleftrightarrow> ps_ID s = [] \<or> ps_Description s = []"

lemma Plan_Validate_steps_None:
  "Plan_Validate_steps i steps = None \<longleftrightarrow> (\<forall>s \<in> set steps. \<not> bad_step s)"
  by (induction i steps rule: Plan_Validate_steps.induct) (auto simp: bad_step_def)

lemma Plan_Validate_steps_first:
  assumes "\<forall>s \<in> set pre. \<not> bad_step s" and "bad_step s"
  shows "Plan_Validate_steps i (pre @ s # post) =
    Some (ErrValidation (if ps_ID s = [] then ''step[%d] id is required''
                         else ''step[%d] description is required'') [VInt (int (i + length pre))])"
  using assms by (induction pre arbitrary: i) (auto simp: bad_step_def)


section \<open>Properties\<close>

definition sample_goal :: Goal where
  "sample_goal = \<lparr>g_ID = 3, g_OwnerID = ''u1'', g_Title = ''ship'', g_Description = [],
     g_Priority = PriorityHigh, g_Status = GoalOpen, g_SourceRefs = [], g_CreatedAt = 1, g_UpdatedAt = 1\<rparr>"

text \<open>
  The lifecycle of a goal has no way back: when the status after a sequence of
  \<^verbatim>\<open>Transition\<close> calls is the one before it, the status was the same all along.
\<close>

lemma goal_never_returns:
  assumes "g_Status (run_transitions Goal_Transition g (cs @ ds)) = g_Status g"
  shows "g_Status (run_transitions Goal_Transition g cs) = g_Status g"
  using assms by (rule goal.never_returns)

text \<open>
  \<^verbatim>\<open>Plan.Validate\<close> checks its fields before its steps and then reports the first step
  that lacks an identifier or a description, by its index, the identifier first; it accepts
  a plan exactly when the fields are set, the status is known and no step is incomplete.
\<close>

lemma plan_validate_steps:
  "(Plan_Validate p = None \<longleftrightarrow> pl_ID p \<noteq> uuid_Nil \<and> pl_GoalID p \<noteq> uuid_Nil \<and> PlanStatus_Valid (pl_Status p)
      \<and> list_all (\<lambda>s. ps_ID s \<noteq> [] \<and> ps_Description s \<noteq> []) (pl_Steps p))
   \<and> (pl_ID p \<noteq> uuid_Nil \<and> pl_GoalID p \<noteq> uuid_Nil \<and> PlanStatus_Valid (pl_Status p)
        \<and> pl_Steps p = pre @ s # post \<and> list_all (\<lambda>s. ps_ID s \<noteq> [] \<and> ps_Description s \<noteq> []) pre
        \<and> (ps_ID s = [] \<or> ps_Description s = [])
      \<longrightarrow> Plan_Validate p = Some (ErrValidation (if ps_ID s = [] then ''step[%d] id is required''
            else ''step[%d] description is required'') [VInt (int (length pre))]))"
  using Plan_Validate_steps_first [of pre s 0 post]
  by (auto simp: Plan_Validate_def Plan_Validate_steps_None bad_step_def list_all_iff)

end
