(* ===== verification/Domain_Task.thy ===== *)
theory Domain_Task
  imports Domain_Types
begin

text \<open>
  \<^verbatim>\<open>internal/domain/task.go\<close>: tasks and the assignments that tie them to agents. A task
  is the one aggregate whose lifecycle has cycles (pending, assigned and blocked can be
  revisited), so it interprets the plain contract and not the acyclic one.
\<close>

section \<open>Tasks\<close>

type_synonym TaskStatus = string

definition TaskPending :: TaskStatus where [status_defs]: "TaskPending = ''pending''"
definition TaskAssigned :: TaskStatus where [status_defs]: "TaskAssigned = ''assigned''"
definition TaskRunning :: TaskStatus where [status_defs]: "TaskRunning = ''running''"
definition TaskBlocked :: TaskStatus where [status_defs]: "TaskBlocked = ''blocked''"
definition TaskCompleted :: TaskStatus where [status_defs]: "TaskCompleted = ''completed''"
definition TaskFailed :: TaskStatus where [status_defs]: "TaskFailed = ''failed''"
definition TaskCancelled :: TaskStatus where [status_defs]: "TaskCancelled = ''cancelled''"

definition TaskStatus_Valid :: "TaskStatus \<Rightarrow> bool" where
  "TaskStatus_Valid s =
     (if s = TaskPending \<or> s = TaskAssigned \<or> s = TaskRunning \<or> s = TaskBlocked
        \<or> s = TaskCompleted \<or> s = TaskFailed \<or> s = TaskCancelled then True else False)"

definition TaskStatus_IsTerminal :: "TaskStatus \<Rightarrow> bool" where
  "TaskStatus_IsTerminal s =
     (if s = TaskCompleted \<or> s = TaskFailed \<or> s = TaskCancelled then True else False)"

definition TaskStatus_CanTransitionTo :: "TaskStatus \<Rightarrow> TaskStatus \<Rightarrow> bool" where
  "TaskStatus_CanTransitionTo s target =
     (if s = target then True
      else if TaskStatus_IsTerminal s then False
      else if s = TaskPending then
        target = TaskAssigned \<or> target = TaskBlocked \<or> target = TaskCancelled
      else if s = TaskAssigned then
        target = TaskRunning \<or> target = TaskBlocked \<or> target = TaskCancelled \<or> target = TaskPending
      else if s = TaskRunning then
        target = TaskCompleted \<or> target = TaskFailed \<or> target = TaskBlocked \<or> target = TaskCancelled
      else if s = TaskBlocked then
        target = TaskPending \<or> target = TaskAssigned \<or> target = TaskCancelled
      else False)"

record Task =
  t_ID :: TaskID
  t_GoalID :: "GoalID option"
  t_PlanID :: "PlanID option"
  t_CommitmentID :: "CommitmentID option"
  t_Title :: string
  t_Description :: string
  t_AssignedTo :: "AgentID option"
  t_Status :: TaskStatus
  t_Priority :: Priority
  t_DueAt :: "time option"
  t_CreatedAt :: time
  t_UpdatedAt :: time

definition Task_Validate :: "Task \<Rightarrow> error option" where
  "Task_Validate t =
     (if t_ID t = uuid_Nil then Some (ErrValidation ''id is required'' [])
      else if t_Title t = [] then Some (ErrValidation ''title is required'' [])
      else if \<not> TaskStatus_Valid (t_Status t)
        then Some (ErrValidation ''unknown status %q'' [VString (t_Status t)])
      else None)"

definition NewTask :: "uuid \<Rightarrow> string \<Rightarrow> string \<Rightarrow> Priority \<Rightarrow> time option \<Rightarrow> time \<Rightarrow> error + Task" where
  "NewTask newID title description priority dueAt now =
     (let t = \<lparr>t_ID = newID, t_GoalID = None, t_PlanID = None, t_CommitmentID = None,
               t_Title = TrimSpace title, t_Description = TrimSpace description,
               t_AssignedTo = None, t_Status = TaskPending, t_Priority = priority,
               t_DueAt = dueAt, t_CreatedAt = time_UTC now, t_UpdatedAt = time_UTC now\<rparr>
      in case Task_Validate t of Some err \<Rightarrow> Inl err | None \<Rightarrow> Inr t)"

definition Task_Transition :: "Task \<Rightarrow> TaskStatus \<Rightarrow> time \<Rightarrow> error + Task" where
  "Task_Transition t target now =
     (if \<not> TaskStatus_CanTransitionTo (t_Status t) target
      then Inl (ErrInvalidTransition (t_Status t) target)
      else Inr (t\<lparr>t_Status := target, t_UpdatedAt := time_UTC now\<rparr>))"


section \<open>Assignments\<close>

type_synonym AssignmentStatus = string

definition AssignmentAssigned :: AssignmentStatus where [status_defs]: "AssignmentAssigned = ''assigned''"
definition AssignmentRunning :: AssignmentStatus where [status_defs]: "AssignmentRunning = ''running''"
definition AssignmentCompleted :: AssignmentStatus where [status_defs]: "AssignmentCompleted = ''completed''"
definition AssignmentCancelled :: AssignmentStatus where [status_defs]: "AssignmentCancelled = ''cancelled''"

definition AssignmentStatus_CanTransitionTo :: "AssignmentStatus \<Rightarrow> AssignmentStatus \<Rightarrow> bool" where
  "AssignmentStatus_CanTransitionTo s target =
     (if s = target then True
      else if s = AssignmentAssigned then target = AssignmentRunning \<or> target = AssignmentCancelled
      else if s = AssignmentRunning then target = AssignmentCompleted \<or> target = AssignmentCancelled
      else False)"

definition AssignmentStatus_Valid :: "AssignmentStatus \<Rightarrow> bool" where
  "AssignmentStatus_Valid s =
     (if s = AssignmentAssigned \<or> s = AssignmentRunning \<or> s = AssignmentCompleted
        \<or> s = AssignmentCancelled then True else False)"

record Assignment =
  a_ID :: AssignmentID
  a_TaskID :: TaskID
  a_AgentID :: AgentID
  a_Status :: AssignmentStatus
  a_AssignedAt :: time
  a_CompletedAt :: "time option"

definition Assignment_Validate :: "Assignment \<Rightarrow> error option" where
  "Assignment_Validate a =
     (if a_ID a = uuid_Nil then Some (ErrValidation ''id is required'' [])
      else if a_TaskID a = uuid_Nil then Some (ErrValidation ''task_id is required'' [])
      else if a_AgentID a = [] then Some (ErrValidation ''agent_id is required'' [])
      else if \<not> AssignmentStatus_Valid (a_Status a)
        then Some (ErrValidation ''unknown status %q'' [VString (a_Status a)])
      else None)"

definition NewAssignment :: "uuid \<Rightarrow> TaskID \<Rightarrow> AgentID \<Rightarrow> time \<Rightarrow> error + Assignment" where
  "NewAssignment newID taskID agentID now =
     (let a = \<lparr>a_ID = newID, a_TaskID = taskID, a_AgentID = agentID,
               a_Status = AssignmentAssigned, a_AssignedAt = time_UTC now, a_CompletedAt = None\<rparr>
      in case Assignment_Validate a of Some err \<Rightarrow> Inl err | None \<Rightarrow> Inr a)"

definition Assignment_Transition :: "Assignment \<Rightarrow> AssignmentStatus \<Rightarrow> time \<Rightarrow> error + Assignment" where
  "Assignment_Transition a target now =
     (if \<not> AssignmentStatus_CanTransitionTo (a_Status a) target
      then Inl (ErrInvalidTransition (a_Status a) target)
      else let a' = a\<lparr>a_Status := target\<rparr> in
        Inr (if target = AssignmentCompleted \<or> target = AssignmentCancelled
             then a'\<lparr>a_CompletedAt := Some (time_UTC now)\<rparr> else a'))"


section \<open>Lemmas\<close>

declare Task_Validate_def [validate_defs] Assignment_Validate_def [validate_defs]

lemma task_escape:
  "TaskStatus_Valid s \<Longrightarrow> \<exists>t. TaskStatus_CanTransitionTo s t \<and> TaskStatus_IsTerminal t"
  by (rule exI [of _ "if TaskStatus_IsTerminal s then s else TaskCancelled"])
     (auto simp: TaskStatus_Valid_def TaskStatus_IsTerminal_def TaskStatus_CanTransitionTo_def
        split: if_splits)

interpretation task: stateful TaskStatus_Valid TaskStatus_CanTransitionTo
  TaskStatus_IsTerminal t_Status Task_Transition
  by unfold_locales
     (use task_escape in \<open>auto simp: TaskStatus_CanTransitionTo_def TaskStatus_Valid_def
        TaskStatus_IsTerminal_def Task_Transition_def split: if_splits\<close>)

definition assignment_rank :: "AssignmentStatus \<Rightarrow> nat" where
  "assignment_rank s = (if s = AssignmentAssigned then 0 else if s = AssignmentRunning then 1 else 2)"

lemma assignment_escape:
  "AssignmentStatus_Valid s \<Longrightarrow>
     \<exists>t. AssignmentStatus_CanTransitionTo s t \<and> (t = AssignmentCompleted \<or> t = AssignmentCancelled)"
  by (rule exI [of _ "if s = AssignmentCompleted then s else AssignmentCancelled"])
     (auto simp: AssignmentStatus_Valid_def AssignmentStatus_CanTransitionTo_def split: if_splits)

interpretation assignment: acyclic_stateful AssignmentStatus_Valid AssignmentStatus_CanTransitionTo
  "\<lambda>s. s = AssignmentCompleted \<or> s = AssignmentCancelled" a_Status Assignment_Transition assignment_rank
  by unfold_locales
     (use assignment_escape in \<open>auto simp: AssignmentStatus_CanTransitionTo_def AssignmentStatus_Valid_def
        Assignment_Transition_def Let_def assignment_rank_def status_defs split: if_splits\<close>)

lemma Task_Validate_None:
  "Task_Validate t = None \<longleftrightarrow> t_ID t \<noteq> uuid_Nil \<and> t_Title t \<noteq> [] \<and> TaskStatus_Valid (t_Status t)"
  by (simp add: Task_Validate_def)

lemma NewAssignment_Inr:
  "NewAssignment newID taskID agentID now = Inr a \<longleftrightarrow>
     newID \<noteq> uuid_Nil \<and> taskID \<noteq> uuid_Nil \<and> agentID \<noteq> []
     \<and> a = \<lparr>a_ID = newID, a_TaskID = taskID, a_AgentID = agentID,
            a_Status = AssignmentAssigned, a_AssignedAt = now, a_CompletedAt = None\<rparr>"
  by (auto simp: NewAssignment_def Let_def Assignment_Validate_def AssignmentStatus_Valid_def
      split: option.splits if_splits)

text \<open>The stamp invariant of an assignment: \<^verbatim>\<open>CompletedAt\<close> is set exactly in the final states.\<close>

definition assignment_stamped :: "Assignment \<Rightarrow> bool" where
  "assignment_stamped a \<longleftrightarrow>
     (a_CompletedAt a \<noteq> None \<longleftrightarrow> a_Status a = AssignmentCompleted \<or> a_Status a = AssignmentCancelled)"

lemma Assignment_Transition_stamped:
  "assignment_stamped a \<Longrightarrow> Assignment_Transition a target now = Inr b \<Longrightarrow> assignment_stamped b"
  by (auto simp: assignment_stamped_def Assignment_Transition_def AssignmentStatus_CanTransitionTo_def
      Let_def status_defs split: if_splits)

lemma run_assignment_stamped:
  "assignment_stamped a \<Longrightarrow> assignment_stamped (run_transitions Assignment_Transition a calls)"
proof (induction calls arbitrary: a)
  case (Cons c calls)
  then show ?case
    by (cases c) (auto split: sum.splits dest: Assignment_Transition_stamped)
qed simp


section \<open>Properties\<close>

text \<open>
  A task that is completed, failed or cancelled stays so: no sequence of
  \<^verbatim>\<open>Transition\<close> calls changes its status, while from every other valid status some call
  closes it.
\<close>

lemma task_terminal_forever:
  "(TaskStatus_IsTerminal (t_Status t) \<longrightarrow>
      t_Status (run_transitions Task_Transition t calls) = t_Status t)
   \<and> (TaskStatus_Valid (t_Status t) \<longrightarrow>
      (\<exists>target t'. Task_Transition t target now = Inr t' \<and> TaskStatus_IsTerminal (t_Status t')))"
  using task.run_terminal [of t calls] task.can_close [of t now] by metis

definition sample_task :: Task where
  "sample_task = \<lparr>t_ID = 4, t_GoalID = None, t_PlanID = None, t_CommitmentID = None, t_Title = ''call'',
     t_Description = [], t_AssignedTo = None, t_Status = TaskFailed, t_Priority = PriorityNormal,
     t_DueAt = None, t_CreatedAt = 1, t_UpdatedAt = 1\<rparr>"

text \<open>
  The completion stamp of an assignment: along every sequence of calls from
  \<^verbatim>\<open>NewAssignment\<close> on, \<^verbatim>\<open>CompletedAt\<close> is set exactly when the status is completed or
  cancelled.
\<close>

lemma assignment_completion_stamp:
  assumes "NewAssignment newID taskID agentID now = Inr a"
  shows "a_CompletedAt (run_transitions Assignment_Transition a calls) \<noteq> None \<longleftrightarrow>
    a_Status (run_transitions Assignment_Transition a calls) = AssignmentCompleted
    \<or> a_Status (run_transitions Assignment_Transition a calls) = AssignmentCancelled"
proof -
  have "assignment_stamped a" using assms by (auto simp: NewAssignment_Inr assignment_stamped_def status_defs)
  from run_assignment_stamped [OF this, of calls] show ?thesis by (simp add: assignment_stamped_def)
qed

end
