(* ===== verification/Ports.thy ===== *)
theory Ports
  imports Domain_Commitment Domain_Decision Domain_Intervention Domain_Goal Domain_Task
begin

text \<open>
  \<^verbatim>\<open>internal/ports/interfaces.go\<close>: the query structs, the records the outbound clients
  exchange, and the repository and client interfaces. An interface value is a record of
  its methods. The repositories act on a store of any type \<open>'s\<close>: a method that writes
  returns its error (\<open>None\<close> is nil) and the store after the call. Contexts are dropped
  from the method signatures; where the code asks a context for its error, that answer
  is an argument of the caller.

  A client is a service: its answer may depend on everything that went out before, so a
  client method takes the log of outbound calls made so far.
\<close>

definition ErrClientNotConfigured :: error where
  "ErrClientNotConfigured = ErrPlain ''outbound client not configured''"

section \<open>Filters\<close>

record CommitmentFilter =
  cf_OwnerID :: string
  cf_Statuses :: "CommitmentStatus list"
  cf_DueBy :: "time option"
  cf_Limit :: int

record InterventionFilter =
  if_CommitmentID :: "CommitmentID option"
  if_TaskID :: "TaskID option"
  if_Statuses :: "InterventionStatus list"
  if_Since :: "time option"
  if_Limit :: int

record TaskFilter =
  tf_GoalID :: "GoalID option"
  tf_CommitmentID :: "CommitmentID option"
  tf_AssignedTo :: "AgentID option"
  tf_Statuses :: "TaskStatus list"
  tf_Limit :: int


section \<open>Repositories\<close>

record 's CommitmentRepository =
  CSave :: "'s \<Rightarrow> Commitment \<Rightarrow> error option \<times> 's"
  CGet :: "'s \<Rightarrow> CommitmentID \<Rightarrow> error + Commitment"
  CList :: "'s \<Rightarrow> CommitmentFilter \<Rightarrow> error + Commitment list"
  CFindActive :: "'s \<Rightarrow> int \<Rightarrow> error + Commitment list"
  CUpdateRisk :: "'s \<Rightarrow> CommitmentID \<Rightarrow> float64 \<Rightarrow> time \<Rightarrow> error option \<times> 's"

record 's DecisionRepository =
  DSave :: "'s \<Rightarrow> Decision \<Rightarrow> error option \<times> 's"
  DGet :: "'s \<Rightarrow> DecisionID \<Rightarrow> error + Decision"
  DListBySubject :: "'s \<Rightarrow> string \<Rightarrow> int \<Rightarrow> error + Decision list"

record 's InterventionRepository =
  ISave :: "'s \<Rightarrow> Intervention \<Rightarrow> error option \<times> 's"
  IGet :: "'s \<Rightarrow> InterventionID \<Rightarrow> error + Intervention"
  IList :: "'s \<Rightarrow> InterventionFilter \<Rightarrow> error + Intervention list"

record 's GoalRepository =
  GSave :: "'s \<Rightarrow> Goal \<Rightarrow> error option \<times> 's"
  GGet :: "'s \<Rightarrow> GoalID \<Rightarrow> error + Goal"
  GListByOwner :: "'s \<Rightarrow> string \<Rightarrow> int \<Rightarrow> error + Goal list"

record 's TaskRepository =
  TSave :: "'s \<Rightarrow> Task \<Rightarrow> error option \<times> 's"
  TGet :: "'s \<Rightarrow> TaskID \<Rightarrow> error + Task"
  TList :: "'s \<Rightarrow> TaskFilter \<Rightarrow> error + Task list"


section \<open>Outbound clients\<close>

record RecallQuery =
  rq_Text :: string
  rq_Entities :: "EntityRef list"
  rq_Since :: "time option"
  rq_Limit :: int

record MnemosEvent =
  me_Kind :: string
  me_OccurredAt :: time
  me_Actor :: string
  me_Subject :: string
  me_Body :: anymap
  me_SourceRefs :: "SourceRef list"

record SignalFilter =
  sf_ScopeID :: string
  sf_EntityRefs :: "EntityRef list"
  sf_Since :: "time option"
  sf_Patterns :: "string list"
  sf_Limit :: int

record Capability =
  cap_Name :: string
  cap_Description :: string
  cap_InputSchema :: "anymap option"

record SimulationResult =
  sim_Capability :: string
  sim_Predictions :: "string list"
  sim_Blockers :: "string list"

record ExecutionResult =
  er_Capability :: string
  er_Success :: bool
  er_Output :: "anymap option"
  er_Error :: string
  er_IdempotencyKey :: string
  er_ExecutedAt :: time

text \<open>
  One entry of the log per call that leaves the process; the Prometheus updates are
  entries too.
\<close>

datatype out_call =
    OutGetSignals SignalFilter
  | OutRecall RecallQuery
  | OutAppendEvent MnemosEvent
  | OutListCapabilities
  | OutDryRun ActionRequest
  | OutExecute ActionRequest
  | OutCounter string string float64
  | OutObserve string string float64

type_synonym out_log = "out_call list"

record MnemosClient =
  Recall :: "out_log \<Rightarrow> RecallQuery \<Rightarrow> error + MemoryRef list"
  AppendEvent :: "out_log \<Rightarrow> MnemosEvent \<Rightarrow> error + string"

record ChronosClient =
  GetSignals :: "out_log \<Rightarrow> SignalFilter \<Rightarrow> error + ChronosSignal list"

record PraxisClient =
  ListCapabilities :: "out_log \<Rightarrow> error + Capability list"
  DryRun :: "out_log \<Rightarrow> ActionRequest \<Rightarrow> error + SimulationResult"
  Execute :: "out_log \<Rightarrow> ActionRequest \<Rightarrow> error + ExecutionResult"


section \<open>The contract of a repository\<close>

text \<open>
  What the comments of the interfaces promise, for any aggregate: \<^verbatim>\<open>Save\<close> refuses what
  \<^verbatim>\<open>Validate\<close> refuses and otherwise is an upsert, \<^verbatim>\<open>Get\<close> finds what was saved last
  under the identifier and reports the not-found sentinel for anything else.
\<close>

locale repository =
  fixes inv :: "'s \<Rightarrow> bool"
    and Validate :: "'v \<Rightarrow> error option"
    and ident :: "'v \<Rightarrow> uuid"
    and not_found :: "uuid \<Rightarrow> error"
    and Save :: "'s \<Rightarrow> 'v \<Rightarrow> error option \<times> 's"
    and Get :: "'s \<Rightarrow> uuid \<Rightarrow> error + 'v"
  assumes save_refused: "Validate v = Some e \<Longrightarrow> Save s v = (Some e, s)"
    and save_accepted: "Validate v = None \<Longrightarrow> fst (Save s v) = None"
    and save_inv: "inv s \<Longrightarrow> inv (snd (Save s v))"
    and get_save: "Validate v = None \<Longrightarrow>
          Get (snd (Save s v)) k = (if k = ident v then Inr v else Get s k)"
    and get_missing: "Get s k = Inl e \<Longrightarrow> e = not_found k"
    and get_wf: "inv s \<Longrightarrow> Get s k = Inr v \<Longrightarrow> Validate v = None \<and> ident v = k"
begin

text \<open>The store after a sequence of saves, refused ones included.\<close>

abbreviation save_all :: "'s \<Rightarrow> 'v list \<Rightarrow> 's" where
  "save_all \<equiv> foldl (\<lambda>s v. snd (Save s v))"

lemma save_all_inv: "inv s \<Longrightarrow> inv (save_all s vs)"
  by (induction vs arbitrary: s) (auto simp: save_inv)

lemma get_save_step:
  "Get (snd (Save s v)) k = (if Validate v = None \<and> ident v = k then Inr v else Get s k)"
  by (cases "Validate v") (auto simp: get_save save_refused)

lemma last_write_wins:
  "Get (save_all s vs) k =
     (case filter (\<lambda>v. Validate v = None \<and> ident v = k) vs of
        [] \<Rightarrow> Get s k | ws \<Rightarrow> Inr (last ws))"
proof (induction vs rule: rev_induct)
  case (snoc v vs)
  then show ?case
    by (cases "Validate v = None \<and> ident v = k") (auto simp: get_save_step split: list.splits)
qed simp

lemma save_idem: "Get (snd (Save (snd (Save s v)) v)) k = Get (snd (Save s v)) k"
  by (simp add: get_save_step)

end

end
