(* ===== verification/Memory_Store.thy ===== *)
theory Memory_Store
  imports Ports
begin

text \<open>
  \<^verbatim>\<open>internal/store/memory\<close>: the in-process backend. The shared struct \<^verbatim>\<open>state\<close> is a record
  of five tables keyed by the text of the identifier; its mutex makes every method one
  step, so a method is one function on the record. \<open>str\<close> is \<^verbatim>\<open>uuid.UUID.String\<close>, a
  function of a third-party package whose one property the store relies on, that distinct
  identifiers have distinct texts, is the hypothesis \<open>inj str\<close>; \<open>rng\<close> is the order in
  which a \<^verbatim>\<open>range\<close> over a map visits the rows. The wrappers \<^verbatim>\<open>stored*\<close> have one field and are
  left out.
\<close>

section \<open>State and copies\<close>

type_synonym 'v rows = "(string \<times> 'v) list"

record state =
  st_commitments :: "Commitment rows"
  st_decisions :: "Decision rows"
  st_interventions :: "Intervention rows"
  st_goals :: "Goal rows"
  st_tasks :: "Task rows"

definition cloneCommitment :: "Commitment \<Rightarrow> Commitment" where
  "cloneCommitment c = (let out = c;
     out = out\<lparr>c_SourceRefs := [] @ c_SourceRefs c\<rparr>;
     out = out\<lparr>c_Entities := [] @ c_Entities c\<rparr>;
     out = (case c_DueAt c of None \<Rightarrow> out | Some t \<Rightarrow> out\<lparr>c_DueAt := Some t\<rparr>);
     out = (case c_LastEvaluatedAt c of None \<Rightarrow> out | Some t \<Rightarrow> out\<lparr>c_LastEvaluatedAt := Some t\<rparr>)
     in out)"

text \<open>Copying a map entry by entry.\<close>

definition copy_map :: "('k \<times> 'v) list \<Rightarrow> ('k \<times> 'v) list" where
  "copy_map m = fold (\<lambda>(k, v) out. out @ [(k, v)]) m []"

definition cloneDecision :: "Decision \<Rightarrow> Decision" where
  "cloneDecision d = (let out = d;
     out = out\<lparr>d_ContextRefs := [] @ d_ContextRefs d\<rparr>;
     out = (case d_Inputs d of None \<Rightarrow> out | Some m \<Rightarrow> out\<lparr>d_Inputs := Some (copy_map m)\<rparr>);
     out = (case d_Outcome d of None \<Rightarrow> out | Some m \<Rightarrow> out\<lparr>d_Outcome := Some (copy_map m)\<rparr>)
     in out)"

definition cloneIntervention :: "Intervention \<Rightarrow> Intervention" where
  "cloneIntervention iv = (let out = iv;
     out = (case iv_SuggestedAction iv of None \<Rightarrow> out | Some act \<Rightarrow>
       let ar = act;
           ar = ar\<lparr>ar_Constraints := [] @ ar_Constraints act\<rparr>;
           ar = (case ar_Payload act of None \<Rightarrow> ar | Some m \<Rightarrow> ar\<lparr>ar_Payload := Some (copy_map m)\<rparr>)
       in out\<lparr>iv_SuggestedAction := Some ar\<rparr>);
     out = (case iv_ResolvedAt iv of None \<Rightarrow> out | Some t \<Rightarrow> out\<lparr>iv_ResolvedAt := Some t\<rparr>);
     out = (case iv_CommitmentID iv of None \<Rightarrow> out | Some i \<Rightarrow> out\<lparr>iv_CommitmentID := Some i\<rparr>);
     out = (case iv_TaskID iv of None \<Rightarrow> out | Some i \<Rightarrow> out\<lparr>iv_TaskID := Some i\<rparr>)
     in out)"

definition cloneGoal :: "Goal \<Rightarrow> Goal" where
  "cloneGoal g = (let out = g; out = out\<lparr>g_SourceRefs := [] @ g_SourceRefs g\<rparr> in out)"

definition cloneTask :: "Task \<Rightarrow> Task" where
  "cloneTask t = (let out = t;
     out = (case t_GoalID t of None \<Rightarrow> out | Some i \<Rightarrow> out\<lparr>t_GoalID := Some i\<rparr>);
     out = (case t_PlanID t of None \<Rightarrow> out | Some i \<Rightarrow> out\<lparr>t_PlanID := Some i\<rparr>);
     out = (case t_CommitmentID t of None \<Rightarrow> out | Some i \<Rightarrow> out\<lparr>t_CommitmentID := Some i\<rparr>);
     out = (case t_AssignedTo t of None \<Rightarrow> out | Some s \<Rightarrow> out\<lparr>t_AssignedTo := Some s\<rparr>);
     out = (case t_DueAt t of None \<Rightarrow> out | Some due \<Rightarrow> out\<lparr>t_DueAt := Some due\<rparr>)
     in out)"


section \<open>commitment_repo.go\<close>

definition commitmentRepo_Save :: "(uuid \<Rightarrow> string) \<Rightarrow> state \<Rightarrow> Commitment \<Rightarrow> error option \<times> state" where
  "commitmentRepo_Save str st c = (case Commitment_Validate c of
       Some err \<Rightarrow> (Some err, st)
     | None \<Rightarrow> (None, st\<lparr>st_commitments :=
           AList.update (str (c_ID c)) (cloneCommitment c) (st_commitments st)\<rparr>))"

definition commitmentRepo_Get :: "(uuid \<Rightarrow> string) \<Rightarrow> state \<Rightarrow> CommitmentID \<Rightarrow> error + Commitment" where
  "commitmentRepo_Get str st k = (case map_of (st_commitments st) (str k) of
       None \<Rightarrow> Inl (ErrCommitmentNotFound k)
     | Some row \<Rightarrow> Inr (cloneCommitment row))"

definition matchesCommitment :: "Commitment \<Rightarrow> CommitmentFilter \<Rightarrow> bool" where
  "matchesCommitment c f =
     (if cf_OwnerID f \<noteq> [] \<and> c_OwnerID c \<noteq> cf_OwnerID f then False
      else if 0 < length (cf_Statuses f) \<and> \<not> match_any (c_Status c) (cf_Statuses f) then False
      else case cf_DueBy f of
          None \<Rightarrow> True
        | Some due \<Rightarrow> (case c_DueAt c of None \<Rightarrow> False | Some d \<Rightarrow> \<not> due < d))"

definition less_created :: "Commitment \<Rightarrow> Commitment \<Rightarrow> bool" where
  "less_created a b \<longleftrightarrow> c_CreatedAt a < c_CreatedAt b"

definition commitmentRepo_List ::
  "(Commitment list \<Rightarrow> Commitment list) \<Rightarrow> state \<Rightarrow> CommitmentFilter \<Rightarrow> error + Commitment list" where
  "commitmentRepo_List rng st f =
     (let out = map cloneCommitment (filter (\<lambda>row. matchesCommitment row f) (rng (rows_of (st_commitments st))));
          out = sort_slice less_created out
      in Inr (limit_slice (cf_Limit f) out))"

text \<open>The \<^verbatim>\<open>less\<close> closure of \<^verbatim>\<open>FindActive\<close>.\<close>

definition less_active :: "Commitment \<Rightarrow> Commitment \<Rightarrow> bool" where
  "less_active a b =
     (if \<not> f_eq (c_RiskScore a) (c_RiskScore b) then c_RiskScore b < c_RiskScore a
      else case (c_DueAt a, c_DueAt b) of
          (Some _, None) \<Rightarrow> True
        | (None, Some _) \<Rightarrow> False
        | (Some x, Some y) \<Rightarrow> if x \<noteq> y then x < y else c_CreatedAt a < c_CreatedAt b
        | (None, None) \<Rightarrow> c_CreatedAt a < c_CreatedAt b)"

definition commitmentRepo_FindActive ::
  "(Commitment list \<Rightarrow> Commitment list) \<Rightarrow> state \<Rightarrow> int \<Rightarrow> error + Commitment list" where
  "commitmentRepo_FindActive rng st limit =
     (let out = map cloneCommitment
            (filter (\<lambda>row. CommitmentStatus_IsActive (c_Status row)) (rng (rows_of (st_commitments st))));
          out = sort_slice less_active out
      in Inr (limit_slice limit out))"

definition commitmentRepo_UpdateRisk ::
  "(uuid \<Rightarrow> string) \<Rightarrow> state \<Rightarrow> CommitmentID \<Rightarrow> float64 \<Rightarrow> time \<Rightarrow> error option \<times> state" where
  "commitmentRepo_UpdateRisk str st k score evaluatedAt =
     (case map_of (st_commitments st) (str k) of
        None \<Rightarrow> (Some (ErrCommitmentNotFound k), st)
      | Some row \<Rightarrow>
          let c = row; c = c\<lparr>c_RiskScore := score\<rparr>; t = time_UTC evaluatedAt;
              c = c\<lparr>c_LastEvaluatedAt := Some t\<rparr>; c = c\<lparr>c_UpdatedAt := t\<rparr>
          in (None, st\<lparr>st_commitments := AList.update (str k) c (st_commitments st)\<rparr>))"


section \<open>decision_repo.go\<close>

definition decisionRepo_Save :: "(uuid \<Rightarrow> string) \<Rightarrow> state \<Rightarrow> Decision \<Rightarrow> error option \<times> state" where
  "decisionRepo_Save str st d = (case Decision_Validate d of
       Some err \<Rightarrow> (Some err, st)
     | None \<Rightarrow> (None, st\<lparr>st_decisions :=
           AList.update (str (d_ID d)) (cloneDecision d) (st_decisions st)\<rparr>))"

definition decisionRepo_Get :: "(uuid \<Rightarrow> string) \<Rightarrow> state \<Rightarrow> DecisionID \<Rightarrow> error + Decision" where
  "decisionRepo_Get str st k = (case map_of (st_decisions st) (str k) of
       None \<Rightarrow> Inl (ErrDecisionNotFound k)
     | Some row \<Rightarrow> Inr (cloneDecision row))"

definition decisionRepo_ListBySubject ::
  "(Decision list \<Rightarrow> Decision list) \<Rightarrow> state \<Rightarrow> string \<Rightarrow> int \<Rightarrow> error + Decision list" where
  "decisionRepo_ListBySubject rng st subject limit =
     (let out = map cloneDecision (filter (\<lambda>row. \<not> d_Subject row \<noteq> subject) (rng (rows_of (st_decisions st))));
          out = sort_slice (\<lambda>a b. d_CreatedAt b < d_CreatedAt a) out
      in Inr (limit_slice limit out))"


section \<open>intervention_repo.go\<close>

definition interventionRepo_Save :: "(uuid \<Rightarrow> string) \<Rightarrow> state \<Rightarrow> Intervention \<Rightarrow> error option \<times> state" where
  "interventionRepo_Save str st iv = (case Intervention_Validate iv of
       Some err \<Rightarrow> (Some err, st)
     | None \<Rightarrow> (None, st\<lparr>st_interventions :=
           AList.update (str (iv_ID iv)) (cloneIntervention iv) (st_interventions st)\<rparr>))"

definition interventionRepo_Get :: "(uuid \<Rightarrow> string) \<Rightarrow> state \<Rightarrow> InterventionID \<Rightarrow> error + Intervention" where
  "interventionRepo_Get str st k = (case map_of (st_interventions st) (str k) of
       None \<Rightarrow> Inl (ErrInterventionNotFound k)
     | Some row \<Rightarrow> Inr (cloneIntervention row))"

text \<open>A pointer filter \<^verbatim>\<open>if f.X != nil { if v.X == nil || *v.X != *f.X { return false } }\<close>.\<close>

definition ptr_mismatch :: "'a option \<Rightarrow> 'a option \<Rightarrow> bool" where
  "ptr_mismatch fx vx = (case fx of None \<Rightarrow> False
     | Some x \<Rightarrow> (case vx of None \<Rightarrow> True | Some y \<Rightarrow> y \<noteq> x))"

definition matchesIntervention :: "Intervention \<Rightarrow> InterventionFilter \<Rightarrow> bool" where
  "matchesIntervention iv f =
     (if ptr_mismatch (if_CommitmentID f) (iv_CommitmentID iv) then False
      else if ptr_mismatch (if_TaskID f) (iv_TaskID iv) then False
      else if 0 < length (if_Statuses f) \<and> \<not> match_any (iv_Status iv) (if_Statuses f) then False
      else case if_Since f of None \<Rightarrow> True | Some since \<Rightarrow> \<not> iv_TriggeredAt iv < since)"

definition interventionRepo_List ::
  "(Intervention list \<Rightarrow> Intervention list) \<Rightarrow> state \<Rightarrow> InterventionFilter \<Rightarrow> error + Intervention list" where
  "interventionRepo_List rng st f =
     (let out = map cloneIntervention
            (filter (\<lambda>row. matchesIntervention row f) (rng (rows_of (st_interventions st))));
          out = sort_slice (\<lambda>a b. iv_TriggeredAt b < iv_TriggeredAt a) out
      in Inr (limit_slice (if_Limit f) out))"


section \<open>goal_repo.go\<close>

definition goalRepo_Save :: "(uuid \<Rightarrow> string) \<Rightarrow> state \<Rightarrow> Goal \<Rightarrow> error option \<times> state" where
  "goalRepo_Save str st g = (case Goal_Validate g of
       Some err \<Rightarrow> (Some err, st)
     | None \<Rightarrow> (None, st\<lparr>st_goals := AList.update (str (g_ID g)) (cloneGoal g) (st_goals st)\<rparr>))"

definition goalRepo_Get :: "(uuid \<Rightarrow> string) \<Rightarrow> state \<Rightarrow> GoalID \<Rightarrow> error + Goal" where
  "goalRepo_Get str st k = (case map_of (st_goals st) (str k) of
       None \<Rightarrow> Inl (ErrGoalNotFound k)
     | Some row \<Rightarrow> Inr (cloneGoal row))"

definition goalRepo_ListByOwner ::
  "(Goal list \<Rightarrow> Goal list) \<Rightarrow> state \<Rightarrow> string \<Rightarrow> int \<Rightarrow> error + Goal list" where
  "goalRepo_ListByOwner rng st ownerID limit =
     (let out = map cloneGoal (filter (\<lambda>row. \<not> g_OwnerID row \<noteq> ownerID) (rng (rows_of (st_goals st))));
          out = sort_slice (\<lambda>a b. g_CreatedAt b < g_CreatedAt a) out
      in Inr (limit_slice limit out))"


section \<open>task_repo.go\<close>

definition taskRepo_Save :: "(uuid \<Rightarrow> string) \<Rightarrow> state \<Rightarrow> Task \<Rightarrow> error option \<times> state" where
  "taskRepo_Save str st t = (case Task_Validate t of
       Some err \<Rightarrow> (Some err, st)
     | None \<Rightarrow> (None, st\<lparr>st_tasks := AList.update (str (t_ID t)) (cloneTask t) (st_tasks st)\<rparr>))"

definition taskRepo_Get :: "(uuid \<Rightarrow> string) \<Rightarrow> state \<Rightarrow> TaskID \<Rightarrow> error + Task" where
  "taskRepo_Get str st k = (case map_of (st_tasks st) (str k) of
       None \<Rightarrow> Inl (ErrTaskNotFound k)
     | Some row \<Rightarrow> Inr (cloneTask row))"

definition matchesTask :: "Task \<Rightarrow> TaskFilter \<Rightarrow> bool" where
  "matchesTask t f =
     (if ptr_mismatch (tf_GoalID f) (t_GoalID t) then False
      else if ptr_mismatch (tf_CommitmentID f) (t_CommitmentID t) then False
      else if ptr_mismatch (tf_AssignedTo f) (t_AssignedTo t) then False
      else if 0 < length (tf_Statuses f) \<and> \<not> match_any (t_Status t) (tf_Statuses f) then False
      else True)"

definition taskRepo_List ::
  "(Task list \<Rightarrow> Task list) \<Rightarrow> state \<Rightarrow> TaskFilter \<Rightarrow> error + Task list" where
  "taskRepo_List rng st f =
     (let out = map cloneTask (filter (\<lambda>row. matchesTask row f) (rng (rows_of (st_tasks st))));
          out = sort_slice (\<lambda>a b. t_CreatedAt a < t_CreatedAt b) out
      in Inr (limit_slice (tf_Limit f) out))"


section \<open>conn.go\<close>

record 's Conn =
  conn_Commitments :: "'s CommitmentRepository"
  conn_Decisions :: "'s DecisionRepository"
  conn_Interventions :: "'s InterventionRepository"
  conn_Goals :: "'s GoalRepository"
  conn_Tasks :: "'s TaskRepository"

definition memory_empty :: state where
  "memory_empty = \<lparr>st_commitments = [], st_decisions = [], st_interventions = [], st_goals = [], st_tasks = []\<rparr>"

text \<open>One iteration order per table.\<close>

record range_orders =
  rng_c :: "Commitment list \<Rightarrow> Commitment list"
  rng_d :: "Decision list \<Rightarrow> Decision list"
  rng_i :: "Intervention list \<Rightarrow> Intervention list"
  rng_g :: "Goal list \<Rightarrow> Goal list"
  rng_t :: "Task list \<Rightarrow> Task list"

definition memory_New :: "(uuid \<Rightarrow> string) \<Rightarrow> range_orders \<Rightarrow> state Conn \<times> state" where
  "memory_New str r = (\<lparr>
     conn_Commitments = \<lparr>CSave = commitmentRepo_Save str, CGet = commitmentRepo_Get str,
       CList = commitmentRepo_List (rng_c r), CFindActive = commitmentRepo_FindActive (rng_c r),
       CUpdateRisk = commitmentRepo_UpdateRisk str\<rparr>,
     conn_Decisions = \<lparr>DSave = decisionRepo_Save str, DGet = decisionRepo_Get str,
       DListBySubject = decisionRepo_ListBySubject (rng_d r)\<rparr>,
     conn_Interventions = \<lparr>ISave = interventionRepo_Save str, IGet = interventionRepo_Get str,
       IList = interventionRepo_List (rng_i r)\<rparr>,
     conn_Goals = \<lparr>GSave = goalRepo_Save str, GGet = goalRepo_Get str,
       GListByOwner = goalRepo_ListByOwner (rng_g r)\<rparr>,
     conn_Tasks = \<lparr>TSave = taskRepo_Save str, TGet = taskRepo_Get str,
       TList = taskRepo_List (rng_t r)\<rparr>\<rparr>, memory_empty)"

definition memory_Conn_Close :: "state Conn \<Rightarrow> error option" where
  "memory_Conn_Close c = None"

definition memory_Conn_Ping :: "state Conn \<Rightarrow> error option" where
  "memory_Conn_Ping c = None"


section \<open>Copies are copies\<close>

lemma copy_map_id [clone_simps]: "copy_map m = m"
proof -
  have "fold (\<lambda>(k, v) out. out @ [(k, v)]) m acc = acc @ m" for acc
    by (induction m arbitrary: acc) auto
  then show ?thesis by (simp add: copy_map_def)
qed

lemma cloneCommitment_id [clone_simps]: "cloneCommitment c = c"
  by (cases c) (auto simp: cloneCommitment_def Let_def split: option.splits)

lemma cloneDecision_id [clone_simps]: "cloneDecision d = d"
  by (cases d) (auto simp: cloneDecision_def Let_def copy_map_id split: option.splits)

lemma cloneIntervention_id [clone_simps]: "cloneIntervention iv = iv"
  by (cases iv) (auto simp: cloneIntervention_def Let_def copy_map_id split: option.splits)

lemma cloneGoal_id [clone_simps]: "cloneGoal g = g"
  by (simp add: cloneGoal_def Let_def)

lemma cloneTask_id [clone_simps]: "cloneTask t = t"
  by (cases t) (auto simp: cloneTask_def Let_def split: option.splits)

section \<open>The store invariant\<close>

definition state_wf :: "(uuid \<Rightarrow> string) \<Rightarrow> state \<Rightarrow> bool" where
  "state_wf str st \<longleftrightarrow>
     table_wf str c_ID (\<lambda>c. Commitment_Validate c = None) (st_commitments st)
     \<and> table_wf str d_ID (\<lambda>d. Decision_Validate d = None) (st_decisions st)
     \<and> table_wf str iv_ID (\<lambda>iv. Intervention_Validate iv = None) (st_interventions st)
     \<and> table_wf str g_ID (\<lambda>g. Goal_Validate g = None) (st_goals st)
     \<and> table_wf str t_ID (\<lambda>t. Task_Validate t = None) (st_tasks st)"

lemma state_wf_empty [simp]: "state_wf str memory_empty"
  by (simp add: state_wf_def memory_empty_def)

lemmas save_defs = commitmentRepo_Save_def decisionRepo_Save_def interventionRepo_Save_def
  goalRepo_Save_def taskRepo_Save_def
lemmas get_defs = commitmentRepo_Get_def decisionRepo_Get_def interventionRepo_Get_def
  goalRepo_Get_def taskRepo_Get_def

text \<open>
  The interface facts hold for every injective rendering of identifiers.
\<close>

locale id_text =
  fixes str :: "uuid \<Rightarrow> string"
  assumes inj_str: "inj str"
begin

lemma str_eq [simp]: "str a = str b \<longleftrightarrow> a = b"
  using inj_str by (auto dest: injD)

end

sublocale id_text \<subseteq> crepo: repository "state_wf str" Commitment_Validate c_ID ErrCommitmentNotFound
  "commitmentRepo_Save str" "commitmentRepo_Get str"
  by unfold_locales
     (auto simp: save_defs get_defs clone_simps state_wf_def table_wf_update
        split: option.splits if_splits dest: table_wf_lookup)

sublocale id_text \<subseteq> drepo: repository "state_wf str" Decision_Validate d_ID ErrDecisionNotFound
  "decisionRepo_Save str" "decisionRepo_Get str"
  by unfold_locales
     (auto simp: save_defs get_defs clone_simps state_wf_def table_wf_update
        split: option.splits if_splits dest: table_wf_lookup)

sublocale id_text \<subseteq> irepo: repository "state_wf str" Intervention_Validate iv_ID ErrInterventionNotFound
  "interventionRepo_Save str" "interventionRepo_Get str"
  by unfold_locales
     (auto simp: save_defs get_defs clone_simps state_wf_def table_wf_update
        split: option.splits if_splits dest: table_wf_lookup)

sublocale id_text \<subseteq> grepo: repository "state_wf str" Goal_Validate g_ID ErrGoalNotFound
  "goalRepo_Save str" "goalRepo_Get str"
  by unfold_locales
     (auto simp: save_defs get_defs clone_simps state_wf_def table_wf_update
        split: option.splits if_splits dest: table_wf_lookup)

sublocale id_text \<subseteq> trepo: repository "state_wf str" Task_Validate t_ID ErrTaskNotFound
  "taskRepo_Save str" "taskRepo_Get str"
  by unfold_locales
     (auto simp: save_defs get_defs clone_simps state_wf_def table_wf_update
        split: option.splits if_splits dest: table_wf_lookup)

interpretation canonical: id_text canonical_text
  by unfold_locales (rule inj_canonical_text)


section \<open>The orders of the queries\<close>

interpretation created: slice_less "\<lambda>_. True" less_created
  by unfold_locales (auto simp: less_created_def)

text \<open>
  The scan order the port documents: risk score descending, due time ascending with
  missing ones last, creation time ascending.
\<close>

definition due_before :: "time option \<Rightarrow> time option \<Rightarrow> bool" where
  "due_before x y \<longleftrightarrow> (case (x, y) of (Some a, Some b) \<Rightarrow> a < b | (Some _, None) \<Rightarrow> True | _ \<Rightarrow> False)"

definition scan_before :: "Commitment \<Rightarrow> Commitment \<Rightarrow> bool" where
  "scan_before a b \<longleftrightarrow> c_RiskScore b < c_RiskScore a
     \<or> c_RiskScore a = c_RiskScore b \<and> (due_before (c_DueAt a) (c_DueAt b)
        \<or> c_DueAt a = c_DueAt b \<and> c_CreatedAt a < c_CreatedAt b)"

lemma less_active_scan:
  "c_RiskScore a \<noteq> NaN \<Longrightarrow> c_RiskScore b \<noteq> NaN \<Longrightarrow> less_active a b \<longleftrightarrow> scan_before a b"
  by (auto simp: less_active_def scan_before_def due_before_def f_eq_iff split: option.splits)

lemma due_before_linear: "due_before x y \<or> x = y \<or> due_before y x"
  by (auto simp: due_before_def split: option.splits)

lemma due_before_trans: "due_before x y \<Longrightarrow> due_before y z \<Longrightarrow> due_before x z"
  by (auto simp: due_before_def split: option.splits)

lemma due_before_irrefl [simp]: "\<not> due_before x x"
  by (auto simp: due_before_def split: option.splits)

text \<open>The negation of the scan order, as an order of its own.\<close>

definition scan_after :: "Commitment \<Rightarrow> Commitment \<Rightarrow> bool" where
  "scan_after a b \<longleftrightarrow> c_RiskScore a < c_RiskScore b
     \<or> c_RiskScore a = c_RiskScore b \<and> (due_before (c_DueAt b) (c_DueAt a)
        \<or> c_DueAt a = c_DueAt b \<and> c_CreatedAt b \<le> c_CreatedAt a)"

lemma due_before_asym: "due_before x y \<Longrightarrow> \<not> due_before y x"
  by (auto simp: due_before_def split: option.splits)

lemma not_scan_before:
  assumes "c_RiskScore a \<noteq> NaN" "c_RiskScore b \<noteq> NaN"
  shows "\<not> scan_before a b \<longleftrightarrow> scan_after a b"
proof -
  note r = float_linear [OF assms] and d = due_before_linear [of "c_DueAt a" "c_DueAt b"]
  show ?thesis unfolding scan_before_def scan_after_def
    using r d f_less_asym [of "c_RiskScore a" "c_RiskScore b"] due_before_asym [of "c_DueAt a" "c_DueAt b"]
    by auto
qed

lemma scan_after_trans: "scan_after a b \<Longrightarrow> scan_after b c \<Longrightarrow> scan_after a c"
  unfolding scan_after_def by (auto dest: float_less_trans due_before_trans)

lemma scan_asym: "scan_before a b \<Longrightarrow> \<not> scan_before b a"
  unfolding scan_before_def by (auto dest: f_less_asym due_before_asym)

interpretation scan: slice_less "\<lambda>c. c_RiskScore c \<noteq> NaN" scan_before
  by unfold_locales (auto simp: not_scan_before dest: scan_asym scan_after_trans)


interpretation newest_decision: slice_less "\<lambda>_. True" "\<lambda>a b. d_CreatedAt b < d_CreatedAt a"
  by unfold_locales auto

interpretation newest_intervention: slice_less "\<lambda>_. True" "\<lambda>a b. iv_TriggeredAt b < iv_TriggeredAt a"
  by unfold_locales auto

interpretation newest_goal: slice_less "\<lambda>_. True" "\<lambda>a b. g_CreatedAt b < g_CreatedAt a"
  by unfold_locales auto

interpretation oldest_task: slice_less "\<lambda>_. True" "\<lambda>a b. t_CreatedAt a < t_CreatedAt b"
  by unfold_locales auto

lemmas query_defs = commitmentRepo_List_def commitmentRepo_FindActive_def decisionRepo_ListBySubject_def
  interventionRepo_List_def goalRepo_ListByOwner_def taskRepo_List_def

lemma map_clone [clone_simps]:
  "map cloneCommitment cs = cs" "map cloneDecision ds = ds" "map cloneIntervention is = is"
  "map cloneGoal gs = gs" "map cloneTask ts = ts"
  by (auto simp: clone_simps intro: map_idI)

lemma FindActive_top:
  assumes "range_order rng"
    and "\<forall>c \<in> set (rows_of (st_commitments st)). CommitmentStatus_IsActive (c_Status c) \<longrightarrow> c_RiskScore c \<noteq> NaN"
  shows "\<exists>out. commitmentRepo_FindActive rng st n = Inr out \<and>
    top_rows scan_before n
      (filter (\<lambda>c. CommitmentStatus_IsActive (c_Status c)) (rows_of (st_commitments st))) out"
proof -
  let ?p = "\<lambda>c. CommitmentStatus_IsActive (c_Status c)"
  let ?xs = "filter ?p (rng (rows_of (st_commitments st)))"
  have ok: "\<forall>c \<in> set ?xs. c_RiskScore c \<noteq> NaN" using assms by (auto simp: range_order_set)
  then have eq: "sort_slice less_active ?xs = sort_slice scan_before ?xs"
    by (intro sort_slice_cong) (auto simp: less_active_scan)
  have "top_rows scan_before n ?xs (limit_slice n (sort_slice scan_before ?xs))"
    using ok by (rule scan.top_rows_sort)
  then have "top_rows scan_before n (filter ?p (rows_of (st_commitments st)))
      (limit_slice n (sort_slice scan_before ?xs))"
    using top_rows_mset [OF mset_filter_range [OF assms(1)]] by blast
  then show ?thesis by (simp add: query_defs clone_simps eq Let_def)
qed

lemma FindActive_rows:
  assumes "range_order rng" and "commitmentRepo_FindActive rng st n = Inr out"
  shows "set out \<subseteq> {c \<in> set (rows_of (st_commitments st)). CommitmentStatus_IsActive (c_Status c)}"
  using assms set_limit_slice by (fastforce simp: query_defs clone_simps Let_def range_order_set)

lemma FindActive_distinct:
  assumes "range_order rng" and "state_wf str st" and "commitmentRepo_FindActive rng st n = Inr out"
  shows "distinct (map c_ID out)"
proof -
  let ?p = "\<lambda>c. CommitmentStatus_IsActive (c_Status c)"
  let ?xs = "filter ?p (rng (rows_of (st_commitments st)))"
  have "distinct (map c_ID (rows_of (st_commitments st)))"
    using assms(2) table_wf_distinct unfolding state_wf_def by blast
  then have "distinct (map c_ID (sort_slice less_active ?xs))"
    using range_order_mset [OF assms(1), of "rows_of (st_commitments st)"]
    by (metis (no_types, lifting) distinct_map_filter mset_eq_imp_distinct_iff mset_map mset_sort_slice)
  then show ?thesis
    using assms(3) by (auto simp: query_defs clone_simps Let_def limit_slice_take take_map [symmetric])
qed


lemma FindActive_length:
  assumes "range_order rng" and "commitmentRepo_FindActive rng st n = Inr out"
  shows "length out \<le> length (st_commitments st)"
proof -
  let ?xs = "filter (\<lambda>c. CommitmentStatus_IsActive (c_Status c)) (rng (rows_of (st_commitments st)))"
  have "out = limit_slice n (sort_slice less_active ?xs)"
    using assms(2) by (simp add: query_defs clone_simps Let_def)
  then have "length out \<le> length ?xs" by (simp add: length_limit_slice)
  also have "\<dots> \<le> length (rng (rows_of (st_commitments st)))" by (rule length_filter_le)
  finally show ?thesis using assms(1) by (simp add: range_order_length)
qed


section \<open>UpdateRisk\<close>

lemma UpdateRisk_missing:
  "map_of (st_commitments st) (str k) = None \<Longrightarrow>
     commitmentRepo_UpdateRisk str st k score t = (Some (ErrCommitmentNotFound k), st)"
  by (simp add: commitmentRepo_UpdateRisk_def)

lemma UpdateRisk_found:
  "map_of (st_commitments st) (str k) = Some c \<Longrightarrow>
     commitmentRepo_UpdateRisk str st k score t = (None, st\<lparr>st_commitments :=
       AList.update (str k) (c\<lparr>c_RiskScore := score, c_LastEvaluatedAt := Some t, c_UpdatedAt := t\<rparr>)
         (st_commitments st)\<rparr>)"
  by (simp add: commitmentRepo_UpdateRisk_def)

lemma UpdateRisk_others [simp]:
  "st_decisions (snd (commitmentRepo_UpdateRisk str st k score t)) = st_decisions st"
  "st_interventions (snd (commitmentRepo_UpdateRisk str st k score t)) = st_interventions st"
  "st_goals (snd (commitmentRepo_UpdateRisk str st k score t)) = st_goals st"
  "st_tasks (snd (commitmentRepo_UpdateRisk str st k score t)) = st_tasks st"
  by (auto simp: commitmentRepo_UpdateRisk_def Let_def split: option.splits)

lemma UpdateRisk_wf:
  assumes wf: "state_wf str st" and score: "\<not> out_of_unit score"
  shows "state_wf str (snd (commitmentRepo_UpdateRisk str st k score t))"
proof (cases "map_of (st_commitments st) (str k)")
  case None
  with wf show ?thesis by (simp add: UpdateRisk_missing)
next
  case (Some c)
  let ?c = "c\<lparr>c_RiskScore := score, c_LastEvaluatedAt := Some t, c_UpdatedAt := t\<rparr>"
  have tw: "table_wf str c_ID (\<lambda>c. Commitment_Validate c = None) (st_commitments st)"
    using wf by (simp add: state_wf_def)
  from table_wf_lookup [OF tw Some] have k: "str k = str (c_ID ?c)" and v: "Commitment_Validate ?c = None"
    using score by (auto simp: Commitment_Validate_None)
  have "table_wf str c_ID (\<lambda>c. Commitment_Validate c = None) (AList.update (str k) ?c (st_commitments st))"
    unfolding k using tw v by (rule table_wf_update)
  with wf Some show ?thesis by (simp add: UpdateRisk_found state_wf_def)
qed


section \<open>The store refines five finite maps\<close>

text \<open>
  The abstract store: a partial map per aggregate. A save is an upsert of what the
  aggregate's \<^verbatim>\<open>Validate\<close> accepts.
\<close>

record store_spec =
  sp_c :: "uuid \<Rightarrow> Commitment option"
  sp_d :: "uuid \<Rightarrow> Decision option"
  sp_i :: "uuid \<Rightarrow> Intervention option"
  sp_g :: "uuid \<Rightarrow> Goal option"
  sp_t :: "uuid \<Rightarrow> Task option"

datatype store_op =
    OpSaveCommitment Commitment
  | OpSaveDecision Decision
  | OpSaveIntervention Intervention
  | OpSaveGoal Goal
  | OpSaveTask Task
  | OpUpdateRisk uuid float64 time

definition upsert :: "('v \<Rightarrow> error option) \<Rightarrow> ('v \<Rightarrow> uuid) \<Rightarrow> 'v \<Rightarrow> (uuid \<Rightarrow> 'v option) \<Rightarrow> uuid \<Rightarrow> 'v option" where
  "upsert Validate ident v m = (if Validate v = None then m(ident v \<mapsto> v) else m)"

fun spec_op :: "store_spec \<Rightarrow> store_op \<Rightarrow> store_spec" where
  "spec_op s (OpSaveCommitment c) = s\<lparr>sp_c := upsert Commitment_Validate c_ID c (sp_c s)\<rparr>"
| "spec_op s (OpSaveDecision d) = s\<lparr>sp_d := upsert Decision_Validate d_ID d (sp_d s)\<rparr>"
| "spec_op s (OpSaveIntervention iv) = s\<lparr>sp_i := upsert Intervention_Validate iv_ID iv (sp_i s)\<rparr>"
| "spec_op s (OpSaveGoal g) = s\<lparr>sp_g := upsert Goal_Validate g_ID g (sp_g s)\<rparr>"
| "spec_op s (OpSaveTask t) = s\<lparr>sp_t := upsert Task_Validate t_ID t (sp_t s)\<rparr>"
| "spec_op s (OpUpdateRisk k score ts) = s\<lparr>sp_c := (case sp_c s k of None \<Rightarrow> sp_c s
     | Some c \<Rightarrow> (sp_c s)(k \<mapsto> c\<lparr>c_RiskScore := score, c_LastEvaluatedAt := Some ts, c_UpdatedAt := ts\<rparr>))\<rparr>"

fun memory_op :: "(uuid \<Rightarrow> string) \<Rightarrow> state \<Rightarrow> store_op \<Rightarrow> state" where
  "memory_op str st (OpSaveCommitment c) = snd (commitmentRepo_Save str st c)"
| "memory_op str st (OpSaveDecision d) = snd (decisionRepo_Save str st d)"
| "memory_op str st (OpSaveIntervention iv) = snd (interventionRepo_Save str st iv)"
| "memory_op str st (OpSaveGoal g) = snd (goalRepo_Save str st g)"
| "memory_op str st (OpSaveTask t) = snd (taskRepo_Save str st t)"
| "memory_op str st (OpUpdateRisk k score ts) = snd (commitmentRepo_UpdateRisk str st k score ts)"

definition abs_store :: "(uuid \<Rightarrow> string) \<Rightarrow> state \<Rightarrow> store_spec" where
  "abs_store str st = \<lparr>
     sp_c = (\<lambda>k. map_of (st_commitments st) (str k)), sp_d = (\<lambda>k. map_of (st_decisions st) (str k)),
     sp_i = (\<lambda>k. map_of (st_interventions st) (str k)), sp_g = (\<lambda>k. map_of (st_goals st) (str k)),
     sp_t = (\<lambda>k. map_of (st_tasks st) (str k))\<rparr>"

context id_text
begin

lemma map_upd_str: "(\<lambda>k. if str k = str i then Some v else m (str k)) = (\<lambda>k. m (str k))(i \<mapsto> v)"
  by (auto simp: fun_eq_iff)

lemma memory_op_refines: "abs_store str (memory_op str st op) = spec_op (abs_store str st) op"
  by (cases op)
     (auto simp: abs_store_def save_defs clone_simps upsert_def commitmentRepo_UpdateRisk_def Let_def
        fun_eq_iff split: option.splits)

lemma memory_ops_refine: "abs_store str (foldl (memory_op str) st ops) = foldl spec_op (abs_store str st) ops"
  by (induction ops arbitrary: st) (simp_all add: memory_op_refines)

lemma memory_op_wf:
  assumes "state_wf str st" and "\<forall>k score ts. op = OpUpdateRisk k score ts \<longrightarrow> \<not> out_of_unit score"
  shows "state_wf str (memory_op str st op)"
  using assms
  by (cases op) (auto simp: crepo.save_inv drepo.save_inv irepo.save_inv grepo.save_inv trepo.save_inv UpdateRisk_wf)

end

definition empty_spec :: store_spec where
  "empty_spec = \<lparr>sp_c = Map.empty, sp_d = Map.empty, sp_i = Map.empty, sp_g = Map.empty, sp_t = Map.empty\<rparr>"

lemma abs_store_empty: "abs_store str memory_empty = empty_spec"
  by (simp add: abs_store_def memory_empty_def empty_spec_def)

definition op_score_ok :: "store_op \<Rightarrow> bool" where
  "op_score_ok op = (case op of OpUpdateRisk k score ts \<Rightarrow> \<not> out_of_unit score | _ \<Rightarrow> True)"

lemma memory_ops_wf:
  "inj str \<Longrightarrow> state_wf str st \<Longrightarrow> \<forall>op \<in> set ops. op_score_ok op \<Longrightarrow>
     state_wf str (foldl (memory_op str) st ops)"
proof (induction ops arbitrary: st)
  case (Cons op ops)
  have "state_wf str (memory_op str st op)"
    using Cons.prems by (intro id_text.memory_op_wf [OF id_text.intro]) (auto simp: op_score_ok_def)
  with Cons show ?case by simp
qed simp



section \<open>Properties\<close>

definition sample_orders :: range_orders where
  "sample_orders = \<lparr>rng_c = rev, rng_d = rev, rng_i = rev, rng_g = rev, rng_t = rev\<rparr>"

text \<open>
  (C11) The in-memory store implements five maps: after any sequence of saves and risk
  updates on a fresh store, refused ones included, the rows it holds are those of the
  abstract store that upserts exactly the values their \<^verbatim>\<open>Validate\<close> accepts, and the
  \<^verbatim>\<open>Get\<close> of each of the five repositories answers with the row of the map or with the not-found error of the
  identifier.
\<close>

theorem memory_refines_maps:
  assumes "inj str"
  shows "abs_store str (foldl (memory_op str) memory_empty ops) = foldl spec_op empty_spec ops
    \<and> (\<forall>k. commitmentRepo_Get str (foldl (memory_op str) memory_empty ops) k =
         (case sp_c (foldl spec_op empty_spec ops) k of
            None \<Rightarrow> Inl (ErrCommitmentNotFound k) | Some c \<Rightarrow> Inr c))
    \<and> (\<forall>k. decisionRepo_Get str (foldl (memory_op str) memory_empty ops) k =
         (case sp_d (foldl spec_op empty_spec ops) k of
            None \<Rightarrow> Inl (ErrDecisionNotFound k) | Some d \<Rightarrow> Inr d))
    \<and> (\<forall>k. interventionRepo_Get str (foldl (memory_op str) memory_empty ops) k =
         (case sp_i (foldl spec_op empty_spec ops) k of
            None \<Rightarrow> Inl (ErrInterventionNotFound k) | Some iv \<Rightarrow> Inr iv))
    \<and> (\<forall>k. goalRepo_Get str (foldl (memory_op str) memory_empty ops) k =
         (case sp_g (foldl spec_op empty_spec ops) k of
            None \<Rightarrow> Inl (ErrGoalNotFound k) | Some g \<Rightarrow> Inr g))
    \<and> (\<forall>k. taskRepo_Get str (foldl (memory_op str) memory_empty ops) k =
         (case sp_t (foldl spec_op empty_spec ops) k of
            None \<Rightarrow> Inl (ErrTaskNotFound k) | Some t \<Rightarrow> Inr t))"
proof -
  have t: "id_text str" using assms by (rule id_text.intro)
  let ?st = "foldl (memory_op str) memory_empty ops"
  have a: "abs_store str ?st = foldl spec_op empty_spec ops"
    using id_text.memory_ops_refine [OF t, of memory_empty ops] by (simp add: abs_store_empty)
  have "sp_c (abs_store str ?st) = (\<lambda>k. map_of (st_commitments ?st) (str k))"
    "sp_d (abs_store str ?st) = (\<lambda>k. map_of (st_decisions ?st) (str k))"
    "sp_i (abs_store str ?st) = (\<lambda>k. map_of (st_interventions ?st) (str k))"
    "sp_g (abs_store str ?st) = (\<lambda>k. map_of (st_goals ?st) (str k))"
    "sp_t (abs_store str ?st) = (\<lambda>k. map_of (st_tasks ?st) (str k))"
    by (simp_all add: abs_store_def)
  then show ?thesis unfolding a by (simp add: a get_defs clone_simps split: option.splits)
qed

theorem memory_refines_maps_witness:
  "commitmentRepo_Get canonical_text (foldl (memory_op canonical_text) memory_empty
     [OpSaveCommitment sample_commitment, OpSaveCommitment (sample_commitment\<lparr>c_ID := 0\<rparr>),
      OpUpdateRisk 7 1 99]) 7
   = Inr (sample_commitment\<lparr>c_RiskScore := 1, c_LastEvaluatedAt := Some 99, c_UpdatedAt := 99\<rparr>)"
proof -
  let ?ops = "[OpSaveCommitment sample_commitment, OpSaveCommitment (sample_commitment\<lparr>c_ID := 0\<rparr>),
      OpUpdateRisk 7 1 99]"
  have bad: "Commitment_Validate (sample_commitment\<lparr>c_ID := 0\<rparr>) \<noteq> None"
    by (simp add: Commitment_Validate_None uuid_Nil_def)
  have "sp_c (foldl spec_op empty_spec ?ops) 7 =
      Some (sample_commitment\<lparr>c_RiskScore := 1, c_LastEvaluatedAt := Some 99, c_UpdatedAt := 99\<rparr>)"
    using bad by (simp add: upsert_def empty_spec_def sample_commitment_valid)
       (simp add: sample_commitment_def)
  then show ?thesis using memory_refines_maps [OF inj_canonical_text, of ?ops] by simp
qed

text \<open>
  (C22) The store invariant: from a fresh store, any sequence of saves and of risk updates
  whose scores pass the range check keeps every table keyed by the identifiers of its rows,
  without duplicates, and every row valid.
\<close>

theorem memory_invariant:
  assumes "inj str" and "\<forall>op \<in> set ops. op_score_ok op"
  shows "state_wf str (foldl (memory_op str) memory_empty ops)"
  using assms by (simp add: memory_ops_wf)

theorem memory_invariant_witness:
  "state_wf canonical_text (foldl (memory_op canonical_text) memory_empty
     [OpSaveCommitment sample_commitment, OpUpdateRisk 7 1 99])"
proof -
  have "\<forall>op \<in> set [OpSaveCommitment sample_commitment, OpUpdateRisk 7 1 99]. op_score_ok op"
    by (simp add: op_score_ok_def out_of_unit_def zero_float64_def one_float64_def)
  then show ?thesis by (rule memory_invariant [OF inj_canonical_text])
qed

text \<open>
  (C18) \<^verbatim>\<open>FindActive\<close> returns the active backlog in the documented scan order (risk score
  descending, due time ascending with missing ones last, creation time ascending), cut to
  the limit: it is the first rows of that order among all pending and in-progress
  commitments, whatever order the map is ranged in, provided no stored score is NaN.
\<close>

theorem find_active_scan_order:
  assumes "range_order rng"
    and "\<forall>c \<in> set (rows_of (st_commitments st)). CommitmentStatus_IsActive (c_Status c) \<longrightarrow> c_RiskScore c \<noteq> NaN"
  shows "\<exists>out. commitmentRepo_FindActive rng st limit = Inr out \<and>
    top_rows scan_before limit
      (filter (\<lambda>c. c_Status c = CommitmentPending \<or> c_Status c = CommitmentInProgress)
        (rows_of (st_commitments st))) out"
proof -
  have "CommitmentStatus_IsActive (c_Status c) \<longleftrightarrow>
      c_Status c = CommitmentPending \<or> c_Status c = CommitmentInProgress" for c :: Commitment
    by (simp add: CommitmentStatus_IsActive_def)
  with FindActive_top [OF assms, of limit] show ?thesis by (simp only:)
qed

definition sample_store :: state where
  "sample_store = memory_empty\<lparr>st_commitments :=
     [(canonical_text 7, sample_commitment),
      (canonical_text 8, sample_commitment\<lparr>c_ID := 8, c_RiskScore := 1\<rparr>),
      (canonical_text 9, sample_commitment\<lparr>c_ID := 9, c_Status := CommitmentMissed\<rparr>)]\<rparr>"

lemma sample_store_scores:
  "\<forall>c \<in> set (rows_of (st_commitments sample_store)). CommitmentStatus_IsActive (c_Status c) \<longrightarrow> c_RiskScore c \<noteq> NaN"
  by (auto simp: sample_store_def sample_commitment_def zero_float64_def one_float64_def)

theorem find_active_scan_order_witness:
  "\<exists>out. commitmentRepo_FindActive rev sample_store 1 = Inr out \<and>
    top_rows scan_before 1
      (filter (\<lambda>c. c_Status c = CommitmentPending \<or> c_Status c = CommitmentInProgress)
        (rows_of (st_commitments sample_store))) out"
  by (rule find_active_scan_order [OF range_order_rev sample_store_scores])

text \<open>
  \<^verbatim>\<open>List\<close> returns, oldest first and cut to the limit, exactly the commitments that
  pass every part of the filter that is set: the owner, one of the statuses, due at or
  before \<^verbatim>\<open>DueBy\<close> (which excludes commitments without a due time).
\<close>

lemma list_commitments_filter:
  assumes "range_order rng"
  shows "\<exists>out. commitmentRepo_List rng st f = Inr out \<and>
    top_rows (\<lambda>a b. c_CreatedAt a < c_CreatedAt b) (cf_Limit f)
      (filter (\<lambda>c. (cf_OwnerID f = [] \<or> c_OwnerID c = cf_OwnerID f)
         \<and> (cf_Statuses f = [] \<or> c_Status c \<in> set (cf_Statuses f))
         \<and> (\<forall>due. cf_DueBy f = Some due \<longrightarrow> (\<exists>d. c_DueAt c = Some d \<and> d \<le> due)))
       (rows_of (st_commitments st))) out"
proof -
  let ?p = "\<lambda>c. (cf_OwnerID f = [] \<or> c_OwnerID c = cf_OwnerID f)
         \<and> (cf_Statuses f = [] \<or> c_Status c \<in> set (cf_Statuses f))
         \<and> (\<forall>due. cf_DueBy f = Some due \<longrightarrow> (\<exists>d. c_DueAt c = Some d \<and> d \<le> due))"
  have p: "matchesCommitment c f \<longleftrightarrow> ?p c" for c
    by (auto simp: matchesCommitment_def split: option.splits)
  have lt: "less_created = (\<lambda>a b. c_CreatedAt a < c_CreatedAt b)"
    by (simp add: fun_eq_iff less_created_def)
  let ?xs = "filter ?p (rng (rows_of (st_commitments st)))"
  have "top_rows less_created (cf_Limit f) ?xs (limit_slice (cf_Limit f) (sort_slice less_created ?xs))"
    by (rule created.top_rows_sort) simp
  then show ?thesis
    using top_rows_mset [OF mset_filter_range [OF assms, of ?p]]
    by (simp add: query_defs clone_simps Let_def p lt)
qed

end
