(* ===== verification/Pipeline_Evaluate.thy ===== *)
theory Pipeline_Evaluate
  imports Memory_Store Intervention_Engine
begin

text \<open>
  \<^verbatim>\<open>internal/pipeline/evaluate.go\<close>: the worker's evaluation pass. The pipeline works on
  any repositories over a store \<open>'s\<close>; what it touches is a record \<open>world\<close>: the store, the log of
  outbound calls, the number of identifiers drawn from \<^verbatim>\<open>uuid.New\<close> and the number of
  readings of the clock. The record \<open>runtime\<close> holds what the pipeline cannot control: the identifiers,
  their text, the printable runes, and the answer of \<^verbatim>\<open>ctx.Err()\<close> at each iteration.
  Tracing spans are left out: nothing reads them.
\<close>

section \<open>The world\<close>

record 's world =
  w_store :: 's
  w_out :: out_log
  w_ids :: nat
  w_ticks :: nat

record runtime =
  rt_uuid :: "nat \<Rightarrow> uuid"
  rt_str :: "uuid \<Rightarrow> string"
  rt_printable :: "nat \<Rightarrow> bool"
  rt_ctxErr :: "nat \<Rightarrow> error option"

definition emit :: "out_call \<Rightarrow> 's world \<Rightarrow> 's world" where
  "emit c w = w\<lparr>w_out := w_out w @ [c]\<rparr>"

type_synonym Clock = "nat \<Rightarrow> time"

definition SystemClock :: "(nat \<Rightarrow> time) \<Rightarrow> Clock" where
  "SystemClock time_Now = (\<lambda>n. time_UTC (time_Now n))"

text \<open>
  \<^verbatim>\<open>internal/observability/metrics.go\<close>: the updates the pipelines make. The engine's metrics
  are present or nil, which is all the pipeline asks.
\<close>

definition IncCommitmentsExtracted :: "string \<Rightarrow> int \<Rightarrow> 's world \<Rightarrow> 's world" where
  "IncCommitmentsExtracted status n = emit (OutCounter ''nous_commitments_extracted_total'' status (f_of_int n))"

definition IncEvaluationsRun :: "string \<Rightarrow> int \<Rightarrow> 's world \<Rightarrow> 's world" where
  "IncEvaluationsRun status n = emit (OutCounter ''nous_evaluations_run_total'' status (f_of_int n))"

definition IncInterventionsCreated :: "string \<Rightarrow> int \<Rightarrow> 's world \<Rightarrow> 's world" where
  "IncInterventionsCreated action n = emit (OutCounter ''nous_interventions_created_total'' action (f_of_int n))"

definition ObserveRiskScore :: "string \<Rightarrow> float64 \<Rightarrow> 's world \<Rightarrow> 's world" where
  "ObserveRiskScore outcome score = emit (OutObserve ''nous_risk_score'' outcome score)"


section \<open>Construction\<close>

record EvaluateOptions =
  eo_Limit :: int
  eo_SignalLookback :: duration

record 's Evaluator =
  e_commitments :: "'s CommitmentRepository"
  e_decisions :: "'s DecisionRepository"
  e_interventions :: "'s InterventionRepository"
  e_mnemos :: "MnemosClient option"
  e_chronos :: "ChronosClient option"
  e_praxis :: "PraxisClient option"
  e_risk :: risk_Engine
  e_intervention :: intervention_Engine
  e_clock :: Clock
  e_metrics :: bool

record 's EvaluatorConfig =
  ec_Commitments :: "'s CommitmentRepository option"
  ec_Decisions :: "'s DecisionRepository option"
  ec_Interventions :: "'s InterventionRepository option"
  ec_Mnemos :: "MnemosClient option"
  ec_Chronos :: "ChronosClient option"
  ec_Praxis :: "PraxisClient option"
  ec_Risk :: "risk_Engine option"
  ec_Intervention :: "intervention_Engine option"
  ec_Clock :: "Clock option"
  ec_Metrics :: bool

definition NewEvaluator :: "(nat \<Rightarrow> time) \<Rightarrow> 's EvaluatorConfig \<Rightarrow> error + 's Evaluator" where
  "NewEvaluator time_Now cfg =
    (case ec_Commitments cfg of None \<Rightarrow> Inl (ErrPlain ''pipeline: commitments repository required'')
     | Some cs \<Rightarrow>
    (case ec_Decisions cfg of None \<Rightarrow> Inl (ErrPlain ''pipeline: decisions repository required'')
     | Some ds \<Rightarrow>
    (case ec_Interventions cfg of None \<Rightarrow> Inl (ErrPlain ''pipeline: interventions repository required'')
     | Some is \<Rightarrow>
    (case ec_Risk cfg of None \<Rightarrow> Inl (ErrPlain ''pipeline: risk engine required'')
     | Some r \<Rightarrow>
    (case ec_Intervention cfg of None \<Rightarrow> Inl (ErrPlain ''pipeline: intervention engine required'')
     | Some ie \<Rightarrow>
       let clock = (case ec_Clock cfg of None \<Rightarrow> SystemClock time_Now | Some c \<Rightarrow> c)
       in Inr \<lparr>e_commitments = cs, e_decisions = ds, e_interventions = is, e_mnemos = ec_Mnemos cfg,
               e_chronos = ec_Chronos cfg, e_praxis = ec_Praxis cfg, e_risk = r,
               e_intervention = ie, e_clock = clock, e_metrics = ec_Metrics cfg\<rparr>)))))"

record EvaluateResult =
  r_Evaluated :: nat
  r_Updated :: nat
  r_Interventions :: "InterventionID list"
  r_Decisions :: "DecisionID list"


section \<open>Evidence\<close>

definition fetchSignals ::
  "'s Evaluator \<Rightarrow> Commitment \<Rightarrow> duration \<Rightarrow> time \<Rightarrow> 's world \<Rightarrow> ChronosSignal list \<times> 's world" where
  "fetchSignals e c lookback now w = (case e_chronos e of
       None \<Rightarrow> ([], w)
     | Some chronos \<Rightarrow>
        (let lookback = (if lookback = 0 then 72 * hour else lookback);
             since = now + duration_neg lookback;
             f = \<lparr>sf_ScopeID = [], sf_EntityRefs = c_Entities c, sf_Since = Some since,
                  sf_Patterns = [], sf_Limit = 0\<rparr>
         in (case GetSignals chronos (w_out w) f of Inl _ \<Rightarrow> [] | Inr sigs \<Rightarrow> sigs,
             emit (OutGetSignals f) w)))"

definition fetchMemories ::
  "'s Evaluator \<Rightarrow> Commitment \<Rightarrow> time \<Rightarrow> 's world \<Rightarrow> MemoryRef list \<times> 's world" where
  "fetchMemories e c now w = (case e_mnemos e of
       None \<Rightarrow> ([], w)
     | Some mnemos \<Rightarrow>
        (let q = \<lparr>rq_Text = c_Description c, rq_Entities = c_Entities c, rq_Since = None, rq_Limit = 10\<rparr>
         in (case Recall mnemos (w_out w) q of Inl _ \<Rightarrow> [] | Inr mems \<Rightarrow> mems,
             emit (OutRecall q) w)))"


section \<open>The audit record\<close>

definition any_of_factor :: "RiskFactor \<Rightarrow> anyval" where
  "any_of_factor f = VStruct [(''type'', VString (rf_Type f)), (''weight'', VFloat (rf_Weight f)),
     (''reason'', VString (rf_Reason f))]"

definition recordDecision ::
  "runtime \<Rightarrow> 's Evaluator \<Rightarrow> Commitment \<Rightarrow> RiskAssessment \<Rightarrow> ChronosSignal list \<Rightarrow> time \<Rightarrow>
   's world \<Rightarrow> (error + Decision) \<times> 's world" where
  "recordDecision rt e c a signals now w =
    (let newID = rt_uuid rt (w_ids w); w = w\<lparr>w_ids := Suc (w_ids w)\<rparr> in
     case NewDecision newID ''commitment.evaluate'' ''Risk evaluated against current signals.''
            (ra_Confidence a) now of
       Inl err \<Rightarrow> (Inl err, w)
     | Inr dec \<Rightarrow>
        (let dec = dec\<lparr>d_ContextRefs := [] @ c_SourceRefs c\<rparr>;
             dec = dec\<lparr>d_Inputs := Some [(''commitment_id'', VString (rt_str rt (c_ID c))),
                                          (''signal_count'', VInt (int (length signals)))]\<rparr>;
             dec = dec\<lparr>d_Weights := Some (risk_Engine_Weights (e_risk e))\<rparr>;
             dec = dec\<lparr>d_Outcome := Some [(''risk_score'', VFloat (ra_Score a)),
                     (''factors'', VSlice ''RiskFactor'' (map any_of_factor (ra_Factors a)))]\<rparr>
         in case DSave (e_decisions e) (w_store w) dec of
              (Some err, st) \<Rightarrow> (Inl err, w\<lparr>w_store := st\<rparr>)
            | (None, st) \<Rightarrow>
               (let w = w\<lparr>w_store := st\<rparr> in
                (Inr dec, case e_mnemos e of None \<Rightarrow> w
                  | Some _ \<Rightarrow> emit (OutAppendEvent \<lparr>me_Kind = ''nous.decision'', me_OccurredAt = now,
                       me_Actor = ''nous'', me_Subject = rt_str rt (c_ID c),
                       me_Body = [(''decision_id'', VString (rt_str rt (d_ID dec))),
                                  (''risk_score'', VFloat (ra_Score a)),
                                  (''confidence'', VFloat (ra_Confidence a)),
                                  (''signal_count'', VInt (int (length signals)))],
                       me_SourceRefs = [] @ d_ContextRefs dec\<rparr>) w))))"


section \<open>Praxis hand-off\<close>

definition praxisDryRun ::
  "runtime \<Rightarrow> 's Evaluator \<Rightarrow> Commitment \<Rightarrow> Intervention \<Rightarrow> 's world \<Rightarrow> 's world" where
  "praxisDryRun rt e c iv w = (case e_praxis e of None \<Rightarrow> w
     | Some _ \<Rightarrow> emit (OutDryRun \<lparr>ar_ID = iv_ID iv, ar_Capability = ''commitment.nudge'',
            ar_Payload = Some [(''commitment_id'', VString (rt_str rt (c_ID c))),
                               (''owner_id'', VString (c_OwnerID c)), (''due_at'', VTimePtr (c_DueAt c))],
            ar_Constraints = [], ar_IdempotencyKey = rt_str rt (iv_ID iv)\<rparr>) w)"

definition riskLabel :: "float64 \<Rightarrow> string" where
  "riskLabel score =
     (if score < f_lit (4/10) then ''low'' else if score < f_lit (7/10) then ''medium'' else ''high'')"


section \<open>The loop\<close>

text \<open>The policy call; \<^verbatim>\<open>uuid.New\<close> is reached only when the policy fires.\<close>

definition intervene ::
  "runtime \<Rightarrow> 's Evaluator \<Rightarrow> Commitment \<Rightarrow> RiskAssessment \<Rightarrow> time \<Rightarrow> 's world \<Rightarrow>
   (error + Intervention option) \<times> 's world" where
  "intervene rt e c a now w =
     (let r = MaybeIntervene (rt_printable rt) (rt_uuid rt (w_ids w)) (e_intervention e) c a now
      in (r, case r of Inr None \<Rightarrow> w | _ \<Rightarrow> w\<lparr>w_ids := Suc (w_ids w)\<rparr>))"

text \<open>
  The body of the loop for one commitment, after the check of the context, in three parts:
  scoring and \<^verbatim>\<open>UpdateRisk\<close>, then the decision and the policy, then the intervention.
\<close>

definition Evaluate_save ::
  "runtime \<Rightarrow> 's Evaluator \<Rightarrow> Commitment \<Rightarrow> Intervention \<Rightarrow> EvaluateResult \<Rightarrow> 's world \<Rightarrow>
   EvaluateResult \<times> 's world" where
  "Evaluate_save rt e c iv result w =
    (case ISave (e_interventions e) (w_store w) iv of
       (Some err, st) \<Rightarrow> (result, w\<lparr>w_store := st\<rparr>)
     | (None, st) \<Rightarrow>
        (let w = w\<lparr>w_store := st\<rparr>;
             result = result\<lparr>r_Interventions := r_Interventions result @ [iv_ID iv]\<rparr>;
             w = (if e_metrics e then IncInterventionsCreated ''created'' 1 w else w);
             w = (if iv_Type iv = InterventionAutomation then praxisDryRun rt e c iv w else w)
         in (result, w)))"

definition Evaluate_decide ::
  "runtime \<Rightarrow> 's Evaluator \<Rightarrow> Commitment \<Rightarrow> RiskAssessment \<Rightarrow> ChronosSignal list \<Rightarrow> time \<Rightarrow>
   EvaluateResult \<Rightarrow> 's world \<Rightarrow> EvaluateResult \<times> 's world" where
  "Evaluate_decide rt e c a signals now result w =
    (let (dec, w) = recordDecision rt e c a signals now w;
         result = (case dec of Inl _ \<Rightarrow> result
                   | Inr d \<Rightarrow> result\<lparr>r_Decisions := r_Decisions result @ [d_ID d]\<rparr>);
         (iv, w) = intervene rt e c a now w
     in case iv of
          Inl err \<Rightarrow> (result, w)
        | Inr None \<Rightarrow> (result, w)
        | Inr (Some iv) \<Rightarrow> Evaluate_save rt e c iv result w)"

definition Evaluate_one ::
  "runtime \<Rightarrow> 's Evaluator \<Rightarrow> EvaluateOptions \<Rightarrow> time \<Rightarrow> Commitment \<Rightarrow> EvaluateResult \<Rightarrow> 's world \<Rightarrow>
   EvaluateResult \<times> 's world" where
  "Evaluate_one rt e opts now c result w =
    (let (signals, w) = fetchSignals e c (eo_SignalLookback opts) now w;
         (memories, w) = fetchMemories e c now w;
         a = EvaluateCommitment (e_risk e) c signals memories now;
         w = (if e_metrics e then ObserveRiskScore ''scored'' (ra_Score a) w else w)
     in case CUpdateRisk (e_commitments e) (w_store w) (c_ID c) (ra_Score a) now of
          (Some err, st) \<Rightarrow> (result, w\<lparr>w_store := st\<rparr>)
        | (None, st) \<Rightarrow>
            Evaluate_decide rt e c a signals now
              (result\<lparr>r_Updated := Suc (r_Updated result)\<rparr>) (w\<lparr>w_store := st\<rparr>))"

fun Evaluate_loop ::
  "runtime \<Rightarrow> 's Evaluator \<Rightarrow> EvaluateOptions \<Rightarrow> time \<Rightarrow> nat \<Rightarrow> Commitment list \<Rightarrow> EvaluateResult \<Rightarrow>
   's world \<Rightarrow> (EvaluateResult \<times> error option) \<times> 's world" where
  "Evaluate_loop rt e opts now i [] result w = ((result, None), w)"
| "Evaluate_loop rt e opts now i (c # cs) result w =
    (case rt_ctxErr rt i of
       Some err \<Rightarrow> ((result, Some err), w)
     | None \<Rightarrow>
        (let (result, w) = Evaluate_one rt e opts now c result w
         in Evaluate_loop rt e opts now (Suc i) cs result w))"

definition Evaluate ::
  "runtime \<Rightarrow> 's Evaluator \<Rightarrow> EvaluateOptions \<Rightarrow> 's world \<Rightarrow> (EvaluateResult \<times> error option) \<times> 's world" where
  "Evaluate rt e opts w =
    (let w = (if e_metrics e then IncEvaluationsRun ''success'' 1 w else w);
         result = \<lparr>r_Evaluated = 0, r_Updated = 0, r_Interventions = [], r_Decisions = []\<rparr>;
         now = e_clock e (w_ticks w); w = w\<lparr>w_ticks := Suc (w_ticks w)\<rparr>
     in case CFindActive (e_commitments e) (w_store w) (eo_Limit opts) of
          Inl err \<Rightarrow> ((result, Some (ErrWrap ''pipeline: find active'' err)), w)
        | Inr commitments \<Rightarrow>
            Evaluate_loop rt e opts now 0 commitments (result\<lparr>r_Evaluated := length commitments\<rparr>) w)"

end
