(* ===== verification/Evaluate_Laws.thy ===== *)
theory Evaluate_Laws
  imports Pipeline_Evaluate
begin

text \<open>
  What an evaluation pass guarantees: on any repositories and clients, which calls leave the
  process, that failures are survived and how cancellation cuts the pass; on the memory
  store, the exact effect on scores, decisions and interventions.
\<close>

section \<open>What leaves the process\<close>

definition out_grows :: "(out_call \<Rightarrow> bool) \<Rightarrow> 's world \<Rightarrow> 's world \<Rightarrow> bool" where
  "out_grows P w w' \<longleftrightarrow> (\<exists>new. w_out w' = w_out w @ new \<and> list_all P new)"

lemma out_grows_refl [simp]: "out_grows P w w"
  by (simp add: out_grows_def)

lemma out_grows_trans: "out_grows P u v \<Longrightarrow> out_grows P v w \<Longrightarrow> out_grows P u w"
  by (auto simp: out_grows_def)

lemma out_grows_emit [simp]: "out_grows P w (emit c w) \<longleftrightarrow> P c"
  by (simp add: out_grows_def emit_def)

lemma out_grows_emitI: "out_grows P w w' \<Longrightarrow> P c \<Longrightarrow> out_grows P w (emit c w')"
  by (auto intro: out_grows_trans)

lemma out_grows_same [simp]:
  "out_grows P w (w'\<lparr>w_store := st\<rparr>) = out_grows P w w'"
  "out_grows P w (w'\<lparr>w_ids := n\<rparr>) = out_grows P w w'"
  "out_grows P w (w'\<lparr>w_ticks := n\<rparr>) = out_grows P w w'"
  "out_grows P (w\<lparr>w_store := st\<rparr>) w' = out_grows P w w'"
  "out_grows P (w\<lparr>w_ids := n\<rparr>) w' = out_grows P w w'"
  "out_grows P (w\<lparr>w_ticks := n\<rparr>) w' = out_grows P w w'"
  by (simp_all add: out_grows_def)

lemma emit_fields [simp]:
  "w_store (emit c w) = w_store w" "w_ids (emit c w) = w_ids w" "w_ticks (emit c w) = w_ticks w"
  by (simp_all add: emit_def)

text \<open>The calls the evaluation pass may make: reads, the event, the metrics and a dry run.\<close>

definition pass_call :: "runtime \<Rightarrow> out_call \<Rightarrow> bool" where
  "pass_call rt c = (case c of
       OutExecute _ \<Rightarrow> False
     | OutListCapabilities \<Rightarrow> False
     | OutDryRun req \<Rightarrow> ar_Capability req = ''commitment.nudge'' \<and> ar_IdempotencyKey req = rt_str rt (ar_ID req)
     | _ \<Rightarrow> True)"

lemmas metric_defs = IncCommitmentsExtracted_def IncEvaluationsRun_def IncInterventionsCreated_def
  ObserveRiskScore_def

lemma fetchSignals_out: "out_grows (pass_call rt) w (snd (fetchSignals e c lb now w))"
  by (simp add: fetchSignals_def Let_def pass_call_def split: option.splits)

lemma fetchMemories_out: "out_grows (pass_call rt) w (snd (fetchMemories e c now w))"
  by (simp add: fetchMemories_def Let_def pass_call_def split: option.splits)

lemma recordDecision_out: "out_grows (pass_call rt) w (snd (recordDecision rt e c a sigs now w))"
  by (auto simp: recordDecision_def Let_def split: sum.splits option.splits prod.splits)
     (simp add: out_grows_def emit_def pass_call_def)+

lemma praxisDryRun_out: "out_grows (pass_call rt) w (praxisDryRun rt e c iv w)"
  by (simp add: praxisDryRun_def pass_call_def split: option.splits)

lemma intervene_out: "out_grows (pass_call rt) w (snd (intervene rt e c a now w))"
  by (auto simp: intervene_def Let_def split: sum.splits option.splits)

lemma metric_out:
  "out_grows (pass_call rt) w w' \<Longrightarrow> out_grows (pass_call rt) w (ObserveRiskScore s x w')"
  "out_grows (pass_call rt) w w' \<Longrightarrow> out_grows (pass_call rt) w (IncInterventionsCreated s n w')"
  "out_grows (pass_call rt) w w' \<Longrightarrow> out_grows (pass_call rt) w (IncEvaluationsRun s n w')"
  by (simp_all add: metric_defs pass_call_def out_grows_emitI)

lemma Evaluate_save_out: "out_grows (pass_call rt) w (snd (Evaluate_save rt e c iv result w))"
proof -
  let ?w = "\<lambda>st. if e_metrics e then IncInterventionsCreated ''created'' 1 (w\<lparr>w_store := st\<rparr>) else w\<lparr>w_store := st\<rparr>"
  have m: "out_grows (pass_call rt) w (?w st)" for st
    by (simp add: metric_out)
  then have "out_grows (pass_call rt) w (praxisDryRun rt e c iv (?w st))" for st
    using out_grows_trans praxisDryRun_out by blast
  with m show ?thesis
    by (cases "ISave (e_interventions e) (w_store w) iv"; cases "e_metrics e")
       (simp_all add: Evaluate_save_def Let_def split: option.splits)
qed

lemma Evaluate_decide_out: "out_grows (pass_call rt) w (snd (Evaluate_decide rt e c a sigs now result w))"
proof -
  obtain dec w1 where 1: "recordDecision rt e c a sigs now w = (dec, w1)" by fastforce
  obtain ivr w2 where 2: "intervene rt e c a now w1 = (ivr, w2)" by fastforce
  have g: "out_grows (pass_call rt) w w2"
    using recordDecision_out [of rt w e c a sigs now] intervene_out [of rt w1 e c a now] 1 2
    by (auto intro: out_grows_trans)
  then have "out_grows (pass_call rt) w (snd (Evaluate_save rt e c iv r w2))" for iv r
    using out_grows_trans Evaluate_save_out by blast
  with g show ?thesis by (simp add: Evaluate_decide_def 1 2 split: option.splits sum.splits)
qed

lemma Evaluate_one_out: "out_grows (pass_call rt) w (snd (Evaluate_one rt e opts now c result w))"
proof -
  obtain sigs w1 where 1: "fetchSignals e c (eo_SignalLookback opts) now w = (sigs, w1)" by fastforce
  obtain mems w2 where 2: "fetchMemories e c now w1 = (mems, w2)" by fastforce
  let ?a = "EvaluateCommitment (e_risk e) c sigs mems now"
  let ?w3 = "if e_metrics e then ObserveRiskScore ''scored'' (ra_Score ?a) w2 else w2"
  have "out_grows (pass_call rt) w w2"
    using fetchSignals_out [of rt w e c "eo_SignalLookback opts" now] fetchMemories_out [of rt w1 e c now] 1 2
    by (auto intro: out_grows_trans)
  then have g: "out_grows (pass_call rt) w ?w3" by (auto intro: metric_out)
  obtain ue st where u: "CUpdateRisk (e_commitments e) (w_store ?w3) (c_ID c) (ra_Score ?a) now = (ue, st)" by fastforce
  have d: "out_grows (pass_call rt) w (snd (Evaluate_decide rt e c ?a sigs now r (?w3\<lparr>w_store := st\<rparr>)))" for r
    using out_grows_trans [OF _ Evaluate_decide_out, of rt w "?w3\<lparr>w_store := st\<rparr>"] g by simp
  show ?thesis
    using g d by (cases ue) (simp_all add: Evaluate_one_def 1 2 u Let_def del: if_split)
qed

lemma Evaluate_loop_out: "out_grows (pass_call rt) w (snd (Evaluate_loop rt e opts now i cs result w))"
proof (induction cs arbitrary: i result w)
  case (Cons c cs)
  show ?case
    using Evaluate_one_out [of rt w e opts now c result] Cons
    by (auto split: option.splits prod.splits intro: out_grows_trans)
qed simp

lemma Evaluate_out: "out_grows (pass_call rt) w (snd (Evaluate rt e opts w))"
proof -
  let ?w = "if e_metrics e then IncEvaluationsRun ''success'' 1 w else w"
  have g: "out_grows (pass_call rt) w ?w" by (auto intro: metric_out)
  have l: "out_grows (pass_call rt) w (snd (Evaluate_loop rt e opts t i cs r (?w\<lparr>w_ticks := n\<rparr>)))" for t i cs r n
    using out_grows_trans [OF _ Evaluate_loop_out, of rt w "?w\<lparr>w_ticks := n\<rparr>"] g by simp
  show ?thesis using g l
    by (cases "CFindActive (e_commitments e) (w_store ?w) (eo_Limit opts)")
       (simp_all add: Evaluate_def Let_def del: if_split)
qed

section \<open>Progress\<close>

text \<open>One iteration counts the commitment as updated, or leaves the result as it was.\<close>

lemma Evaluate_save_counts:
  "\<exists>is. length is \<le> 1 \<and> fst (Evaluate_save rt e c iv result w) =
     result\<lparr>r_Interventions := r_Interventions result @ is\<rparr>"
  by (cases "ISave (e_interventions e) (w_store w) iv")
     (auto simp: Evaluate_save_def Let_def split: option.splits
       intro: exI [of _ "[]"] exI [of _ "[iv_ID iv]"])

lemma Evaluate_decide_counts:
  "\<exists>ds is. length ds \<le> 1 \<and> length is \<le> 1 \<and> fst (Evaluate_decide rt e c a sigs now result w) =
     result\<lparr>r_Decisions := r_Decisions result @ ds, r_Interventions := r_Interventions result @ is\<rparr>"
proof -
  obtain dec w1 where 1: "recordDecision rt e c a sigs now w = (dec, w1)" by fastforce
  obtain ivr w2 where 2: "intervene rt e c a now w1 = (ivr, w2)" by fastforce
  define ds where "ds = (case dec of Inl _ \<Rightarrow> [] | Inr d \<Rightarrow> [d_ID d])"
  define r where "r = result\<lparr>r_Decisions := r_Decisions result @ ds\<rparr>"
  have r: "(case dec of Inl _ \<Rightarrow> result | Inr d \<Rightarrow> result\<lparr>r_Decisions := r_Decisions result @ [d_ID d]\<rparr>) = r"
    by (simp add: r_def ds_def split: sum.split)
  have "length ds \<le> 1" by (simp add: ds_def split: sum.split)
  moreover have "\<exists>is. length is \<le> 1 \<and> fst (Evaluate_decide rt e c a sigs now result w) =
      r\<lparr>r_Interventions := r_Interventions r @ is\<rparr>"
    using Evaluate_save_counts [of rt e c _ r w2]
    by (simp add: Evaluate_decide_def 1 2 r split: option.splits sum.splits)
       (auto intro: exI [of _ "[]"])
  ultimately show ?thesis by (auto simp: r_def)
qed

lemma Evaluate_one_counts:
  assumes "Evaluate_one rt e opts now c result w = (res, w')"
  shows "res = result \<or> (\<exists>ds is. length ds \<le> 1 \<and> length is \<le> 1 \<and>
    res = result\<lparr>r_Updated := Suc (r_Updated result), r_Decisions := r_Decisions result @ ds,
      r_Interventions := r_Interventions result @ is\<rparr>)"
proof -
  obtain sigs w1 where 1: "fetchSignals e c (eo_SignalLookback opts) now w = (sigs, w1)" by fastforce
  obtain mems w2 where 2: "fetchMemories e c now w1 = (mems, w2)" by fastforce
  let ?a = "EvaluateCommitment (e_risk e) c sigs mems now"
  let ?w3 = "if e_metrics e then ObserveRiskScore ''scored'' (ra_Score ?a) w2 else w2"
  let ?r = "result\<lparr>r_Updated := Suc (r_Updated result)\<rparr>"
  obtain ue st where u: "CUpdateRisk (e_commitments e) (w_store ?w3) (c_ID c) (ra_Score ?a) now = (ue, st)" by fastforce
  have "res = (case ue of Some _ \<Rightarrow> result
      | None \<Rightarrow> fst (Evaluate_decide rt e c ?a sigs now ?r (?w3\<lparr>w_store := st\<rparr>)))"
    using arg_cong [OF assms, of fst]
    by (cases ue) (simp_all add: Evaluate_one_def 1 2 u Let_def del: if_split)
  with Evaluate_decide_counts [of rt e c ?a sigs now ?r "?w3\<lparr>w_store := st\<rparr>"] show ?thesis
    by (cases ue) auto
qed

definition counts_ok :: "EvaluateResult \<Rightarrow> bool" where
  "counts_ok r \<longleftrightarrow> length (r_Decisions r) \<le> r_Updated r \<and> length (r_Interventions r) \<le> r_Updated r"

lemma Evaluate_loop_counts:
  "Evaluate_loop rt e opts now i cs result w = ((res, err), w') \<Longrightarrow> counts_ok result \<Longrightarrow>
     counts_ok res \<and> r_Evaluated res = r_Evaluated result \<and> r_Updated res \<le> r_Updated result + length cs"
proof (induction cs arbitrary: i result w)
  case (Cons c cs)
  obtain r1 w1 where one: "Evaluate_one rt e opts now c result w = (r1, w1)" by fastforce
  show ?case
  proof (cases "rt_ctxErr rt i")
    case (Some x)
    with Cons.prems show ?thesis by simp
  next
    case None
    then have loop: "Evaluate_loop rt e opts now (Suc i) cs r1 w1 = ((res, err), w')"
      using Cons.prems(1) one by simp
    have "counts_ok r1 \<and> r_Evaluated r1 = r_Evaluated result \<and> r_Updated r1 \<le> Suc (r_Updated result)"
      using Evaluate_one_counts [OF one] Cons.prems(2) by (auto simp: counts_ok_def)
    with Cons.IH [OF loop] show ?thesis by auto
  qed
qed simp

lemma Evaluate_loop_no_error:
  "\<forall>i. rt_ctxErr rt i = None \<Longrightarrow> snd (fst (Evaluate_loop rt e opts now i cs result w)) = None"
  by (induction cs arbitrary: i result w) (auto split: prod.splits)

lemma Evaluate_loop_no_error_below:
  "length cs \<le> n \<Longrightarrow> \<forall>k < n. rt_ctxErr rt (i + k) = None \<Longrightarrow>
     snd (fst (Evaluate_loop rt e opts now i cs result w)) = None"
proof (induction cs arbitrary: i result w n)
  case (Cons c cs)
  then obtain m where m: "n = Suc m" by (cases n) auto
  have "rt_ctxErr rt i = None" using Cons.prems m by (metis add.right_neutral zero_less_Suc)
  moreover have "\<forall>k < m. rt_ctxErr rt (Suc i + k) = None" using Cons.prems m by auto
  ultimately show ?case using Cons.IH [of m "Suc i"] Cons.prems(1) m by (auto split: prod.splits)
qed simp

text \<open>A context error at iteration \<open>j\<close> stops the pass after the first commitments.\<close>

lemma Evaluate_loop_cancelled:
  assumes "rt_ctxErr rt (i + j) = Some err" and "\<forall>k < j. rt_ctxErr rt (i + k) = None" and "j < length cs"
  shows "Evaluate_loop rt e opts now i cs result w =
    (case Evaluate_loop rt e opts now i (take j cs) result w of ((res, _), w') \<Rightarrow> ((res, Some err), w'))"
  using assms
proof (induction j arbitrary: i cs result w)
  case 0
  then show ?case by (cases cs) auto
next
  case (Suc j)
  obtain c cs' where cs: "cs = c # cs'" using Suc.prems(3) by (cases cs) auto
  have z: "rt_ctxErr rt i = None" using Suc.prems(2) by (metis add.right_neutral zero_less_Suc)
  have k: "\<forall>k < j. rt_ctxErr rt (Suc i + k) = None" using Suc.prems(2) by auto
  show ?case
    using Suc.IH [of "Suc i" cs', OF _ k] Suc.prems(1,3) by (simp add: cs z split: prod.splits)
qed


section \<open>The pass on the memory store\<close>

definition memory_wired :: "runtime \<Rightarrow> range_orders \<Rightarrow> state Evaluator \<Rightarrow> bool" where
  "memory_wired rt r e \<longleftrightarrow>
     e_commitments e = conn_Commitments (fst (memory_New (rt_str rt) r))
     \<and> e_decisions e = conn_Decisions (fst (memory_New (rt_str rt) r))
     \<and> e_interventions e = conn_Interventions (fst (memory_New (rt_str rt) r))"

lemma wired_ops:
  assumes "memory_wired rt r e"
  shows "CUpdateRisk (e_commitments e) = commitmentRepo_UpdateRisk (rt_str rt)"
    and "CFindActive (e_commitments e) = commitmentRepo_FindActive (rng_c r)"
    and "DSave (e_decisions e) = decisionRepo_Save (rt_str rt)"
    and "ISave (e_interventions e) = interventionRepo_Save (rt_str rt)"
  using assms by (simp_all add: memory_wired_def memory_New_def)

text \<open>The decision a pass records for a commitment.\<close>

definition pass_decision ::
  "runtime \<Rightarrow> 's Evaluator \<Rightarrow> Commitment \<Rightarrow> RiskAssessment \<Rightarrow> ChronosSignal list \<Rightarrow> time \<Rightarrow> uuid \<Rightarrow> Decision" where
  "pass_decision rt e c a sigs now i = \<lparr>d_ID = i, d_Subject = ''commitment.evaluate'',
     d_ContextRefs = c_SourceRefs c,
     d_Inputs = Some [(''commitment_id'', VString (rt_str rt (c_ID c))), (''signal_count'', VInt (int (length sigs)))],
     d_Weights = Some (risk_Engine_Weights (e_risk e)),
     d_Outcome = Some [(''risk_score'', VFloat (ra_Score a)),
       (''factors'', VSlice ''RiskFactor'' (map any_of_factor (ra_Factors a)))],
     d_Reason = ''Risk evaluated against current signals.'', d_Confidence = ra_Confidence a, d_CreatedAt = now\<rparr>"

definition pass_commitment :: "Commitment \<Rightarrow> RiskAssessment \<Rightarrow> time \<Rightarrow> Commitment" where
  "pass_commitment c a now =
     c\<lparr>c_RiskScore := ra_Score a, c_LastEvaluatedAt := Some now, c_UpdatedAt := now\<rparr>"

definition fires :: "'s Evaluator \<Rightarrow> RiskAssessment \<Rightarrow> bool" where
  "fires e a \<longleftrightarrow> \<not> ra_Score a < ic_NudgeThreshold (ie_cfg (e_intervention e))"

lemma trim_literals:
  "TrimSpace ''commitment.evaluate'' = ''commitment.evaluate''"
  "TrimSpace ''Risk evaluated against current signals.'' = ''Risk evaluated against current signals.''"
  by code_simp+

lemma memories_irrelevant: "EvaluateCommitment e c sigs mems now = EvaluateCommitment e c sigs [] now"
  by (simp add: EvaluateCommitment_def)

lemma score_in_unit: "\<not> out_of_unit (ra_Score (EvaluateCommitment e c sigs mems now))"
  using risk_clamp_cases by (auto simp: Score_sum out_of_unit_iff)

lemma recordDecision_memory:
  fixes rt e c a sigs now w
  assumes wired: "memory_wired rt r e" and i: "rt_uuid rt (w_ids w) \<noteq> uuid_Nil"
    and conf: "\<not> out_of_unit (ra_Confidence a)"
  defines "dec \<equiv> pass_decision rt e c a sigs now (rt_uuid rt (w_ids w))"
  shows "\<exists>w'. recordDecision rt e c a sigs now w = (Inr dec, w') \<and> w_ids w' = Suc (w_ids w)
    \<and> w_store w' = snd (decisionRepo_Save (rt_str rt) (w_store w) dec)
    \<and> Decision_Validate dec = None"
proof -
  have v: "Decision_Validate dec = None"
    using i conf by (simp add: dec_def pass_decision_def Decision_Validate_None)
  have n: "NewDecision (rt_uuid rt (w_ids w)) ''commitment.evaluate'' ''Risk evaluated against current signals.''
      (ra_Confidence a) now = Inr \<lparr>d_ID = rt_uuid rt (w_ids w), d_Subject = ''commitment.evaluate'',
        d_ContextRefs = [], d_Inputs = None, d_Weights = None, d_Outcome = None,
        d_Reason = ''Risk evaluated against current signals.'', d_Confidence = ra_Confidence a, d_CreatedAt = now\<rparr>"
    using i conf by (simp add: NewDecision_Inr trim_literals)
  obtain st where s: "decisionRepo_Save (rt_str rt) (w_store w) dec = (None, st)"
    using v by (simp add: decisionRepo_Save_def)
  show ?thesis
    using s v by (cases "e_mnemos e")
      (simp_all add: recordDecision_def n Let_def wired_ops [OF wired] dec_def pass_decision_def)
qed

text \<open>What the pass stores when the policy fires.\<close>

definition pass_intervention :: "'s Evaluator \<Rightarrow> Commitment \<Rightarrow> RiskAssessment \<Rightarrow> time \<Rightarrow> Intervention \<Rightarrow> bool" where
  "pass_intervention e c a now iv \<longleftrightarrow>
     iv_CommitmentID iv = Some (c_ID c) \<and> iv_TaskID iv = None
     \<and> iv_Type iv = policy_type (ie_cfg (e_intervention e)) (ra_Score a) (ra_Confidence a)
     \<and> iv_Status iv = InterventionPending \<and> iv_TriggeredAt iv = now \<and> iv_ResolvedAt iv = None
     \<and> iv_SuggestedAction iv = None"

lemma intervene_fires:
  assumes "fires e a" and "rt_uuid rt (w_ids w) \<noteq> uuid_Nil"
  shows "\<exists>iv. intervene rt e c a now w = (Inr (Some iv), w\<lparr>w_ids := Suc (w_ids w)\<rparr>)
    \<and> iv_ID iv = rt_uuid rt (w_ids w) \<and> pass_intervention e c a now iv \<and> Intervention_Validate iv = None"
proof -
  obtain msg where m: "msg \<noteq> []" and eq: "MaybeIntervene (rt_printable rt) (rt_uuid rt (w_ids w)) (e_intervention e) c a now =
      Inr (Some \<lparr>iv_ID = rt_uuid rt (w_ids w), iv_CommitmentID = Some (c_ID c), iv_TaskID = None,
      iv_Type = policy_type (ie_cfg (e_intervention e)) (ra_Score a) (ra_Confidence a), iv_Message = msg,
      iv_SuggestedAction = None, iv_Status = InterventionPending, iv_TriggeredAt = now,
      iv_ResolvedAt = None\<rparr>)"
    using MaybeIntervene_fires [OF assms(2), of a "e_intervention e"] assms(1) unfolding fires_def by blast
  show ?thesis
    using MaybeIntervene_valid [OF eq] by (simp add: intervene_def eq pass_intervention_def)
qed

lemma intervene_quiet: "\<not> fires e a \<Longrightarrow> intervene rt e c a now w = (Inr None, w)"
  by (simp add: intervene_def fires_def MaybeIntervene_quiet)

lemma fetch_store [simp]:
  "w_store (snd (fetchSignals e c lb now w)) = w_store w" "w_ids (snd (fetchSignals e c lb now w)) = w_ids w"
  "w_store (snd (fetchMemories e c now w)) = w_store w" "w_ids (snd (fetchMemories e c now w)) = w_ids w"
  by (simp_all add: fetchSignals_def fetchMemories_def Let_def split: option.splits)

lemma metric_store [simp]:
  "w_store (ObserveRiskScore s x w) = w_store w" "w_ids (ObserveRiskScore s x w) = w_ids w"
  "w_store (IncInterventionsCreated s n w) = w_store w" "w_ids (IncInterventionsCreated s n w) = w_ids w"
  "w_store (IncEvaluationsRun s n w) = w_store w" "w_ids (IncEvaluationsRun s n w) = w_ids w"
  "w_ticks (IncEvaluationsRun s n w) = w_ticks w"
  by (simp_all add: metric_defs)

lemma praxisDryRun_store [simp]:
  "w_store (praxisDryRun rt e c iv w) = w_store w" "w_ids (praxisDryRun rt e c iv w) = w_ids w"
  by (simp_all add: praxisDryRun_def split: option.splits)

lemma Evaluate_save_memory:
  assumes "memory_wired rt r e" and "Intervention_Validate iv = None"
  shows "\<exists>w'. Evaluate_save rt e c iv result w =
      (result\<lparr>r_Interventions := r_Interventions result @ [iv_ID iv]\<rparr>, w')
    \<and> w_store w' = snd (interventionRepo_Save (rt_str rt) (w_store w) iv) \<and> w_ids w' = w_ids w"
  using assms(2)
  by (simp add: Evaluate_save_def wired_ops [OF assms(1)] interventionRepo_Save_def Let_def)

text \<open>
  One iteration on the memory store, for a commitment the store holds: the row gets the
  new score, a decision is stored under the next identifier, and an intervention under
  the one after it exactly when the policy fires.
\<close>

definition step_store ::
  "(uuid \<Rightarrow> string) \<Rightarrow> state \<Rightarrow> Commitment \<Rightarrow> RiskAssessment \<Rightarrow> time \<Rightarrow> Decision \<Rightarrow> Intervention option \<Rightarrow> state" where
  "step_store str st c a now dec ivo =
     (let st = snd (commitmentRepo_UpdateRisk str st (c_ID c) (ra_Score a) now);
          st = snd (decisionRepo_Save str st dec)
      in case ivo of None \<Rightarrow> st | Some iv \<Rightarrow> snd (interventionRepo_Save str st iv))"

definition stored_intervention ::
  "'s Evaluator \<Rightarrow> Commitment \<Rightarrow> RiskAssessment \<Rightarrow> time \<Rightarrow> uuid \<Rightarrow> Intervention option \<Rightarrow> bool" where
  "stored_intervention e c a now i ivo \<longleftrightarrow>
     (if fires e a then \<exists>iv. ivo = Some iv \<and> iv_ID iv = i \<and> pass_intervention e c a now iv
        \<and> Intervention_Validate iv = None
      else ivo = None)"

lemma Evaluate_decide_memory:
  assumes wired: "memory_wired rt r e" and ids: "\<forall>n. rt_uuid rt n \<noteq> uuid_Nil"
    and conf: "\<not> out_of_unit (ra_Confidence a)"
  shows "\<exists>ivo w'. Evaluate_decide rt e c a sigs now result w =
      (result\<lparr>r_Decisions := r_Decisions result @ [rt_uuid rt (w_ids w)],
         r_Interventions := r_Interventions result @ (if fires e a then [rt_uuid rt (Suc (w_ids w))] else [])\<rparr>, w')
    \<and> w_ids w' = w_ids w + (if fires e a then 2 else 1)
    \<and> w_store w' = (let st = snd (decisionRepo_Save (rt_str rt) (w_store w) (pass_decision rt e c a sigs now (rt_uuid rt (w_ids w))))
        in case ivo of None \<Rightarrow> st | Some iv \<Rightarrow> snd (interventionRepo_Save (rt_str rt) st iv))
    \<and> stored_intervention e c a now (rt_uuid rt (Suc (w_ids w))) ivo"
proof -
  let ?dec = "pass_decision rt e c a sigs now (rt_uuid rt (w_ids w))"
  let ?r = "result\<lparr>r_Decisions := r_Decisions result @ [rt_uuid rt (w_ids w)]\<rparr>"
  obtain w1 where d: "recordDecision rt e c a sigs now w = (Inr ?dec, w1)" and i1: "w_ids w1 = Suc (w_ids w)"
    and s1: "w_store w1 = snd (decisionRepo_Save (rt_str rt) (w_store w) ?dec)"
    using recordDecision_memory [OF wired _ conf] ids by blast
  have dID: "d_ID ?dec = rt_uuid rt (w_ids w)" by (simp add: pass_decision_def)
  show ?thesis
  proof (cases "fires e a")
    case True
    obtain iv where iv: "intervene rt e c a now w1 = (Inr (Some iv), w1\<lparr>w_ids := Suc (w_ids w1)\<rparr>)"
      "iv_ID iv = rt_uuid rt (w_ids w1)" "pass_intervention e c a now iv" "Intervention_Validate iv = None"
      using intervene_fires [OF True] ids by blast
    obtain w2 where w2: "Evaluate_save rt e c iv ?r (w1\<lparr>w_ids := Suc (w_ids w1)\<rparr>) =
        (?r\<lparr>r_Interventions := r_Interventions ?r @ [iv_ID iv]\<rparr>, w2)"
      "w_store w2 = snd (interventionRepo_Save (rt_str rt) (w_store w1) iv)" "w_ids w2 = Suc (w_ids w1)"
      using Evaluate_save_memory [OF wired iv(4), of c ?r "w1\<lparr>w_ids := Suc (w_ids w1)\<rparr>"] by auto
    show ?thesis
      using True i1 s1 iv w2 dID
      by (intro exI [of _ "Some iv"] exI [of _ w2]) (simp add: Evaluate_decide_def d Let_def stored_intervention_def)
  next
    case False
    then show ?thesis
      using i1 s1 dID intervene_quiet [OF False, of rt c now w1]
      by (intro exI [of _ None] exI [of _ w1]) (simp add: Evaluate_decide_def d Let_def stored_intervention_def)
  qed
qed


lemma Evaluate_one_memory:
  fixes now
  assumes wired: "memory_wired rt r e" and ids: "\<forall>n. rt_uuid rt n \<noteq> uuid_Nil"
    and row: "map_of (st_commitments (w_store w)) (rt_str rt (c_ID c)) = Some c"
    and conf: "\<not> out_of_unit (c_Confidence c)"
  defines "a \<equiv> \<lambda>sigs. EvaluateCommitment (e_risk e) c sigs [] now"
  shows "\<exists>sigs ivo w'. Evaluate_one rt e opts now c result w =
      (result\<lparr>r_Updated := Suc (r_Updated result),
         r_Decisions := r_Decisions result @ [rt_uuid rt (w_ids w)],
         r_Interventions := r_Interventions result @ (if fires e (a sigs) then [rt_uuid rt (Suc (w_ids w))] else [])\<rparr>, w')
    \<and> w_ids w' = w_ids w + (if fires e (a sigs) then 2 else 1)
    \<and> w_store w' = step_store (rt_str rt) (w_store w) c (a sigs) now
         (pass_decision rt e c (a sigs) sigs now (rt_uuid rt (w_ids w))) ivo
    \<and> stored_intervention e c (a sigs) now (rt_uuid rt (Suc (w_ids w))) ivo"
proof -
  obtain sigs w1 where 1: "fetchSignals e c (eo_SignalLookback opts) now w = (sigs, w1)" by fastforce
  obtain mems w2 where 2: "fetchMemories e c now w1 = (mems, w2)" by fastforce
  have a: "EvaluateCommitment (e_risk e) c sigs mems now = a sigs"
    unfolding a_def by (rule memories_irrelevant)
  let ?w3 = "if e_metrics e then ObserveRiskScore ''scored'' (ra_Score (a sigs)) w2 else w2"
  have w2: "w_store w2 = w_store w" "w_ids w2 = w_ids w"
    using fetch_store(1,2) [of e c "eo_SignalLookback opts" now w] fetch_store(3,4) [of e c now w1] 1 2 by auto
  then have w3: "w_store ?w3 = w_store w" "w_ids ?w3 = w_ids w" by auto
  have cf: "\<not> out_of_unit (ra_Confidence (a sigs))" using conf by (simp add: a_def)
  let ?st = "snd (commitmentRepo_UpdateRisk (rt_str rt) (w_store w) (c_ID c) (ra_Score (a sigs)) now)"
  have u: "CUpdateRisk (e_commitments e) (w_store w) (c_ID c) (ra_Score (a sigs)) now = (None, ?st)"
    by (simp add: wired_ops [OF wired] UpdateRisk_found [where str = "rt_str rt" and k = "c_ID c", OF row])
  let ?r = "result\<lparr>r_Updated := Suc (r_Updated result)\<rparr>"
  define w4 where "w4 = ?w3\<lparr>w_store := ?st\<rparr>"
  have w4: "w_store w4 = ?st" "w_ids w4 = w_ids w" using w3 by (simp_all add: w4_def)
  have one: "Evaluate_one rt e opts now c result w = Evaluate_decide rt e c (a sigs) sigs now ?r w4"
    by (simp add: Evaluate_one_def 1 2 a w2 u Let_def w4_def)
  show ?thesis
    using Evaluate_decide_memory [OF wired ids cf, of c sigs now ?r w4]
    unfolding one w4 step_store_def Let_def
    by (elim exE, intro exI [of _ sigs] exI) auto
qed

section \<open>What one step does to the tables\<close>

context id_text
begin

lemma step_commitments:
  assumes "map_of (st_commitments st) (str (c_ID c)) = Some c"
  shows "map_of (st_commitments (step_store str st c a now dec ivo)) (str k) =
    (if k = c_ID c then Some (pass_commitment c a now) else map_of (st_commitments st) (str k))"
  using UpdateRisk_found [where str = str and k = "c_ID c", OF assms, of "ra_Score a" now]
  by (auto simp: step_store_def Let_def decisionRepo_Save_def interventionRepo_Save_def pass_commitment_def
      split: option.splits)

lemma step_decisions:
  assumes "Decision_Validate dec = None"
  shows "map_of (st_decisions (step_store str st c a now dec ivo)) (str k) =
    (if k = d_ID dec then Some dec else map_of (st_decisions st) (str k))"
  using assms
  by (auto simp: step_store_def Let_def decisionRepo_Save_def interventionRepo_Save_def clone_simps
      split: option.splits)

lemma step_interventions:
  assumes "\<forall>iv. ivo = Some iv \<longrightarrow> Intervention_Validate iv = None"
  shows "map_of (st_interventions (step_store str st c a now dec ivo)) (str k) =
    (case ivo of None \<Rightarrow> map_of (st_interventions st) (str k)
     | Some iv \<Rightarrow> if k = iv_ID iv then Some iv else map_of (st_interventions st) (str k))"
  using assms
  by (auto simp: step_store_def Let_def decisionRepo_Save_def interventionRepo_Save_def clone_simps
      split: option.splits)

lemma step_wf:
  assumes "state_wf str st" and "\<not> out_of_unit (ra_Score a)"
  shows "state_wf str (step_store str st c a now dec ivo)"
  using assms UpdateRisk_wf
  by (auto simp: step_store_def Let_def drepo.save_inv irepo.save_inv split: option.splits)

end


section \<open>The whole loop\<close>

text \<open>
  What a pass over \<open>cs\<close> starting at identifier \<open>n\<close> leaves in the store: scores, decisions
  and interventions of exactly these commitments, from signals \<open>sigs\<close>; everything else
  as it was.
\<close>

definition pass_scores ::
  "state Evaluator \<Rightarrow> (uuid \<Rightarrow> string) \<Rightarrow> time \<Rightarrow> (uuid \<Rightarrow> ChronosSignal list) \<Rightarrow> Commitment list \<Rightarrow> state \<Rightarrow> state \<Rightarrow> bool" where
  "pass_scores e str now sigs cs st st' \<longleftrightarrow>
     (\<forall>c \<in> set cs. map_of (st_commitments st') (str (c_ID c)) =
        Some (pass_commitment c (EvaluateCommitment (e_risk e) c (sigs (c_ID c)) [] now) now))
     \<and> (\<forall>k. k \<notin> c_ID ` set cs \<longrightarrow> map_of (st_commitments st') (str k) = map_of (st_commitments st) (str k))"

text \<open>The identifiers from the \<open>n\<close>-th to before the \<open>N\<close>-th.\<close>

definition drawn_from :: "runtime \<Rightarrow> nat \<Rightarrow> nat \<Rightarrow> uuid \<Rightarrow> bool" where
  "drawn_from rt n N i \<longleftrightarrow> (\<exists>m \<ge> n. m < N \<and> i = rt_uuid rt m)"

lemma drawn_from_mono: "drawn_from rt n1 N i \<Longrightarrow> n \<le> n1 \<Longrightarrow> drawn_from rt n N i"
  by (auto simp: drawn_from_def intro: order.trans)

lemma drawn_from_own [simp]:
  "inj_on (rt_uuid rt) {..<N} \<Longrightarrow> m < N \<Longrightarrow> drawn_from rt n N (rt_uuid rt m) \<longleftrightarrow> n \<le> m"
  by (auto simp: drawn_from_def dest: inj_onD)

lemma not_drawn: "\<not> drawn_from rt n N k \<Longrightarrow> n \<le> m \<Longrightarrow> m < N \<Longrightarrow> k \<noteq> rt_uuid rt m"
  by (auto simp: drawn_from_def)

definition pass_audit ::
  "runtime \<Rightarrow> state Evaluator \<Rightarrow> time \<Rightarrow> (uuid \<Rightarrow> ChronosSignal list) \<Rightarrow> nat \<Rightarrow> nat \<Rightarrow> Commitment list \<Rightarrow> uuid list \<Rightarrow> state \<Rightarrow> state \<Rightarrow> bool" where
  "pass_audit rt e now sigs n N cs ds st st' \<longleftrightarrow>
     list_all2 (\<lambda>c i. drawn_from rt n N i \<and> map_of (st_decisions st') (rt_str rt i) =
       Some (pass_decision rt e c (EvaluateCommitment (e_risk e) c (sigs (c_ID c)) [] now) (sigs (c_ID c)) now i)) cs ds
     \<and> (\<forall>k. \<not> drawn_from rt n N k \<longrightarrow> map_of (st_decisions st') (rt_str rt k) = map_of (st_decisions st) (rt_str rt k))"

definition pass_policy ::
  "runtime \<Rightarrow> state Evaluator \<Rightarrow> time \<Rightarrow> (uuid \<Rightarrow> ChronosSignal list) \<Rightarrow> nat \<Rightarrow> nat \<Rightarrow> Commitment list \<Rightarrow> uuid list \<Rightarrow> state \<Rightarrow> state \<Rightarrow> bool" where
  "pass_policy rt e now sigs n N cs is st st' \<longleftrightarrow>
     list_all2 (\<lambda>c i. drawn_from rt n N i \<and> (\<exists>iv. map_of (st_interventions st') (rt_str rt i) = Some iv
        \<and> iv_ID iv = i
        \<and> pass_intervention e c (EvaluateCommitment (e_risk e) c (sigs (c_ID c)) [] now) now iv))
       (filter (\<lambda>c. fires e (EvaluateCommitment (e_risk e) c (sigs (c_ID c)) [] now)) cs) is
     \<and> (\<forall>k. \<not> drawn_from rt n N k \<longrightarrow> map_of (st_interventions st') (rt_str rt k) = map_of (st_interventions st) (rt_str rt k))"

text \<open>The three descriptions extend by one commitment.\<close>

lemma pass_scores_Cons:
  assumes com: "\<And>k. map_of (st_commitments st1) (str k) = (if k = c_ID c
        then Some (pass_commitment c (EvaluateCommitment (e_risk e) c sg [] now) now)
        else map_of (st_commitments st) (str k))"
    and sc: "pass_scores e str now sigs cs st1 st'" and new: "c_ID c \<notin> c_ID ` set cs"
  shows "pass_scores e str now (sigs(c_ID c := sg)) (c # cs) st st'"
proof -
  have "c_ID d \<noteq> c_ID c" if "d \<in> set cs" for d using new that by (metis image_eqI)
  moreover have "map_of (st_commitments st') (str (c_ID c)) = map_of (st_commitments st1) (str (c_ID c))"
    using sc new by (simp add: pass_scores_def)
  ultimately show ?thesis
    using sc unfolding pass_scores_def by (simp add: com)
qed

lemma pass_audit_Cons:
  assumes inj: "inj_on (rt_uuid rt) {..<N}" and n: "n < n1" "n1 \<le> N" and new: "c_ID c \<notin> c_ID ` set cs"
    and dec: "\<And>k. map_of (st_decisions st1) (rt_str rt k) = (if k = rt_uuid rt n
        then Some (pass_decision rt e c (EvaluateCommitment (e_risk e) c sg [] now) sg now (rt_uuid rt n))
        else map_of (st_decisions st) (rt_str rt k))"
    and au: "pass_audit rt e now sigs n1 N cs ds st1 st'"
  shows "pass_audit rt e now (sigs(c_ID c := sg)) n N (c # cs) (rt_uuid rt n # ds) st st'"
proof -
  have ne: "c_ID d \<noteq> c_ID c" if "d \<in> set cs" for d using new that by (metis image_eqI)
  have "\<not> drawn_from rt n1 N (rt_uuid rt n)" using inj n by (simp add: drawn_from_own)
  then have h: "map_of (st_decisions st') (rt_str rt (rt_uuid rt n)) = map_of (st_decisions st1) (rt_str rt (rt_uuid rt n))"
    using au by (simp add: pass_audit_def)
  have "map_of (st_decisions st') (rt_str rt k) = map_of (st_decisions st) (rt_str rt k)"
    if "\<not> drawn_from rt n N k" for k
  proof -
    have "k \<noteq> rt_uuid rt n" using that by (rule not_drawn) (use n in simp_all)
    moreover have "\<not> drawn_from rt n1 N k" using that n drawn_from_mono [of rt n1 N k n] by auto
    ultimately show ?thesis using au by (simp add: pass_audit_def dec)
  qed
  moreover have "list_all2 (\<lambda>d i. drawn_from rt n N i \<and> map_of (st_decisions st') (rt_str rt i) =
      Some (pass_decision rt e d (EvaluateCommitment (e_risk e) d ((sigs(c_ID c := sg)) (c_ID d)) [] now)
        ((sigs(c_ID c := sg)) (c_ID d)) now i)) cs ds"
    using conjunct1 [OF au [unfolded pass_audit_def]]
    by (rule list.rel_mono_strong) (use n ne drawn_from_mono [of rt n1 N _ n] in \<open>auto simp: drawn_from_mono\<close>)
  ultimately show ?thesis using h inj n by (auto simp: pass_audit_def dec)
qed

lemma pass_policy_Cons:
  assumes inj: "inj_on (rt_uuid rt) {..<N}" and n: "Suc n < n1 \<or> \<not> fires e a \<and> n < n1" "n1 \<le> N" and new: "c_ID c \<notin> c_ID ` set cs"
    and a: "a = EvaluateCommitment (e_risk e) c sg [] now"
    and iv: "stored_intervention e c a now (rt_uuid rt (Suc n)) ivo"
    and stv: "\<And>k. map_of (st_interventions st1) (rt_str rt k) = (case ivo of
        None \<Rightarrow> map_of (st_interventions st) (rt_str rt k)
      | Some iv \<Rightarrow> if k = iv_ID iv then Some iv else map_of (st_interventions st) (rt_str rt k))"
    and po: "pass_policy rt e now sigs n1 N cs is st1 st'"
  shows "pass_policy rt e now (sigs(c_ID c := sg)) n N (c # cs)
    ((if fires e a then [rt_uuid rt (Suc n)] else []) @ is) st st'"
proof -
  let ?s = "sigs(c_ID c := sg)"
  have ne: "c_ID d \<noteq> c_ID c" if "d \<in> set cs" for d using new that by (metis image_eqI)
  have flt: "filter (\<lambda>d. fires e (EvaluateCommitment (e_risk e) d (?s (c_ID d)) [] now)) cs =
      filter (\<lambda>d. fires e (EvaluateCommitment (e_risk e) d (sigs (c_ID d)) [] now)) cs"
    using ne by (intro filter_cong) auto
  have tail: "list_all2 (\<lambda>d i. drawn_from rt n N i \<and> (\<exists>iv. map_of (st_interventions st') (rt_str rt i) = Some iv
      \<and> iv_ID iv = i \<and> pass_intervention e d (EvaluateCommitment (e_risk e) d (?s (c_ID d)) [] now) now iv))
      (filter (\<lambda>d. fires e (EvaluateCommitment (e_risk e) d (?s (c_ID d)) [] now)) cs) is"
    unfolding flt using conjunct1 [OF po [unfolded pass_policy_def]]
    by (rule list.rel_mono_strong) (use n ne drawn_from_mono [of rt n1 N _ n] in auto)
  have frame: "map_of (st_interventions st') (rt_str rt k) = map_of (st_interventions st1) (rt_str rt k)"
    if "\<not> drawn_from rt n1 N k" for k
    using that po by (simp add: pass_policy_def)
  have later: "\<not> drawn_from rt n1 N k" if "\<not> drawn_from rt n N k" for k
    using that n drawn_from_mono [of rt n1 N k n] by auto
  show ?thesis
  proof (cases "fires e a")
    case True
    then obtain v where v: "ivo = Some v" "iv_ID v = rt_uuid rt (Suc n)" "pass_intervention e c a now v"
      using iv by (auto simp: stored_intervention_def)
    have "\<not> drawn_from rt n1 N (rt_uuid rt (Suc n))" using inj n True by (simp add: drawn_from_own)
    then have "map_of (st_interventions st') (rt_str rt (rt_uuid rt (Suc n))) = Some v"
      using frame v stv by simp
    then show ?thesis
      using tail frame v stv True n inj later not_drawn [of rt n N _ "Suc n"] unfolding pass_policy_def a by simp
  next
    case False
    then have "ivo = None" using iv by (simp add: stored_intervention_def)
    then show ?thesis
      using tail frame stv False later unfolding pass_policy_def a by simp
  qed
qed

lemma Evaluate_loop_memory:
  assumes wired: "memory_wired rt r e" and inj: "inj (rt_str rt)"
    and ids: "\<forall>n. rt_uuid rt n \<noteq> uuid_Nil" "inj_on (rt_uuid rt) {..<N}" and ctx: "\<forall>i. rt_ctxErr rt i = None"
    and wf: "state_wf (rt_str rt) (w_store w)"
    and rows: "\<forall>c \<in> set cs. map_of (st_commitments (w_store w)) (rt_str rt (c_ID c)) = Some c"
    and dist: "distinct (map c_ID cs)" and N: "w_ids w + 2 * length cs \<le> N"
  shows "\<exists>sigs ds is w'. Evaluate_loop rt e opts now i cs result w =
      ((result\<lparr>r_Updated := r_Updated result + length cs, r_Decisions := r_Decisions result @ ds,
         r_Interventions := r_Interventions result @ is\<rparr>, None), w')
    \<and> state_wf (rt_str rt) (w_store w')
    \<and> pass_scores e (rt_str rt) now sigs cs (w_store w) (w_store w')
    \<and> pass_audit rt e now sigs (w_ids w) N cs ds (w_store w) (w_store w')
    \<and> pass_policy rt e now sigs (w_ids w) N cs is (w_store w) (w_store w')"
  using wf rows dist N
proof (induction cs arbitrary: i result w)
  case Nil
  show ?case
    by (rule exI [of _ "\<lambda>_. []"], rule exI [of _ "[]"], rule exI [of _ "[]"], rule exI [of _ w])
       (use Nil in \<open>simp add: pass_scores_def pass_audit_def pass_policy_def\<close>)
next
  case (Cons c cs)
  have t: "id_text (rt_str rt)" using inj by (rule id_text.intro)
  have row: "map_of (st_commitments (w_store w)) (rt_str rt (c_ID c)) = Some c" using Cons.prems by simp
  have valid: "Commitment_Validate c = None"
    using table_wf_lookup [OF _ row] Cons.prems(1) unfolding state_wf_def by blast
  then have conf: "\<not> out_of_unit (c_Confidence c)" by (simp add: Commitment_Validate_None)
  let ?a = "\<lambda>sigs. EvaluateCommitment (e_risk e) c sigs [] now"
  let ?i = "rt_uuid rt (w_ids w)" and ?j = "rt_uuid rt (Suc (w_ids w))"
  obtain sg ivo w1 where one: "Evaluate_one rt e opts now c result w =
      (result\<lparr>r_Updated := Suc (r_Updated result), r_Decisions := r_Decisions result @ [?i],
         r_Interventions := r_Interventions result @ (if fires e (?a sg) then [?j] else [])\<rparr>, w1)"
    and n1: "w_ids w1 = w_ids w + (if fires e (?a sg) then 2 else 1)"
    and s1: "w_store w1 = step_store (rt_str rt) (w_store w) c (?a sg) now (pass_decision rt e c (?a sg) sg now ?i) ivo"
    and iv: "stored_intervention e c (?a sg) now ?j ivo"
    using Evaluate_one_memory [where c = c, OF wired ids(1) row conf, of opts now result] by blast
  let ?r1 = "result\<lparr>r_Updated := Suc (r_Updated result), r_Decisions := r_Decisions result @ [?i],
         r_Interventions := r_Interventions result @ (if fires e (?a sg) then [?j] else [])\<rparr>"
  have wf1: "state_wf (rt_str rt) (w_store w1)"
    unfolding s1 using Cons.prems(1) score_in_unit by (intro id_text.step_wf [OF t])
  have com: "map_of (st_commitments (w_store w1)) (rt_str rt k) =
      (if k = c_ID c then Some (pass_commitment c (?a sg) now) else map_of (st_commitments (w_store w)) (rt_str rt k))" for k
    unfolding s1 using row by (rule id_text.step_commitments [OF t])
  have rows1: "\<forall>d \<in> set cs. map_of (st_commitments (w_store w1)) (rt_str rt (c_ID d)) = Some d"
  proof
    fix d assume d: "d \<in> set cs"
    then have "c_ID d \<noteq> c_ID c" using Cons.prems(3) by (metis distinct.simps(2) image_eqI list.set_map list.simps(9))
    with d Cons.prems(2) show "map_of (st_commitments (w_store w1)) (rt_str rt (c_ID d)) = Some d" by (simp only: com if_False) simp
  qed
  have dist1: "distinct (map c_ID cs)" and N1: "w_ids w1 + 2 * length cs \<le> N"
    using Cons.prems(3,4) n1 by auto
  obtain sigs ds "is" w' where loop: "Evaluate_loop rt e opts now (Suc i) cs ?r1 w1 =
      ((?r1\<lparr>r_Updated := r_Updated ?r1 + length cs, r_Decisions := r_Decisions ?r1 @ ds,
         r_Interventions := r_Interventions ?r1 @ is\<rparr>, None), w')"
    and wf': "state_wf (rt_str rt) (w_store w')"
    and sc: "pass_scores e (rt_str rt) now sigs cs (w_store w1) (w_store w')"
    and au: "pass_audit rt e now sigs (w_ids w1) N cs ds (w_store w1) (w_store w')"
    and po: "pass_policy rt e now sigs (w_ids w1) N cs is (w_store w1) (w_store w')"
    using Cons.IH [OF wf1 rows1 dist1 N1, of "Suc i" ?r1] by blast
  let ?sigs = "sigs(c_ID c := sg)" and ?is = "(if fires e (?a sg) then [?j] else []) @ is"
  have new: "c_ID c \<notin> c_ID ` set cs" using Cons.prems(3) by simp
  have dv: "Decision_Validate (pass_decision rt e c (?a sg) sg now ?i) = None"
    using ids(1) conf by (simp add: pass_decision_def Decision_Validate_None)
  have ivv: "\<forall>v. ivo = Some v \<longrightarrow> Intervention_Validate v = None"
    using iv by (auto simp: stored_intervention_def split: if_splits)
  have "pass_scores e (rt_str rt) now ?sigs (c # cs) (w_store w) (w_store w')"
    using com sc new by (rule pass_scores_Cons)
  moreover have "pass_audit rt e now ?sigs (w_ids w) N (c # cs) (?i # ds) (w_store w) (w_store w')"
    using ids(2) _ _ new _ au
    by (rule pass_audit_Cons) (use Cons.prems(4) in \<open>simp_all add: n1 s1 id_text.step_decisions [OF t dv], simp add: pass_decision_def\<close>)
  moreover have "pass_policy rt e now ?sigs (w_ids w) N (c # cs) ?is (w_store w) (w_store w')"
    using ids(2) _ _ new refl iv _ po
    by (rule pass_policy_Cons) (use Cons.prems(4) in \<open>simp_all add: n1 s1 id_text.step_interventions [OF t ivv]\<close>)
  moreover have "Evaluate_loop rt e opts now i (c # cs) result w =
      ((result\<lparr>r_Updated := r_Updated result + length (c # cs), r_Decisions := r_Decisions result @ (?i # ds),
         r_Interventions := r_Interventions result @ ?is\<rparr>, None), w')"
    using ctx one loop by simp
  ultimately show ?case using wf' by blast
qed


text \<open>The world when the loop starts: the run is counted and the clock has been read.\<close>

definition start_world :: "'s Evaluator \<Rightarrow> 's world \<Rightarrow> 's world" where
  "start_world e w = (if e_metrics e then IncEvaluationsRun ''success'' 1 w else w)\<lparr>w_ticks := Suc (w_ticks w)\<rparr>"

lemma start_world_fields [simp]: "w_store (start_world e w) = w_store w" "w_ids (start_world e w) = w_ids w"
  by (simp_all add: start_world_def)

definition start_result :: "Commitment list \<Rightarrow> EvaluateResult" where
  "start_result cs = \<lparr>r_Evaluated = length cs, r_Updated = 0, r_Interventions = [], r_Decisions = []\<rparr>"

lemma Evaluate_scanned:
  "CFindActive (e_commitments e) (w_store w) (eo_Limit opts) = Inr cs \<Longrightarrow>
     Evaluate rt e opts w = Evaluate_loop rt e opts (e_clock e (w_ticks w)) 0 cs (start_result cs) (start_world e w)"
  by (cases "e_metrics e") (simp_all add: Evaluate_def Let_def start_world_def start_result_def)


section \<open>Properties\<close>

text \<open>A memory-backed evaluator with the default engines, for the witnesses.\<close>

definition sample_runtime :: runtime where
  "sample_runtime = \<lparr>rt_uuid = (\<lambda>n. if n = 0 then 100 else if n = 1 then 101
       else if n = 2 then 102 else if n = 3 then 103 else if n = 4 then 104 else 105), rt_str = canonical_text,
     rt_printable = (\<lambda>_. True), rt_ctxErr = (\<lambda>_. None)\<rparr>"

definition sample_evaluator :: "state Evaluator" where
  "sample_evaluator = \<lparr>
     e_commitments = conn_Commitments (fst (memory_New canonical_text sample_orders)),
     e_decisions = conn_Decisions (fst (memory_New canonical_text sample_orders)),
     e_interventions = conn_Interventions (fst (memory_New canonical_text sample_orders)),
     e_mnemos = None, e_chronos = None, e_praxis = None,
     e_risk = risk_New risk_DefaultConfig, e_intervention = intervention_New intervention_DefaultConfig,
     e_clock = (\<lambda>n. 2000 + int n), e_metrics = True\<rparr>"

definition sample_world :: "state world" where
  "sample_world = \<lparr>w_store = sample_store, w_out = [], w_ids = 0, w_ticks = 0\<rparr>"

lemma sample_store_wf: "state_wf canonical_text sample_store"
  by (simp add: state_wf_def table_wf_def sample_store_def memory_empty_def inj_eq [OF inj_canonical_text]
      sample_commitment_def Commitment_Validate_None uuid_Nil_def out_of_unit_def zero_float64_def
      one_float64_def CommitmentStatus_Valid_def)



lemma sample_ids:
  "\<forall>n. rt_uuid sample_runtime n \<noteq> uuid_Nil" "inj_on (rt_uuid sample_runtime) {..<6}"
  by (simp_all add: sample_runtime_def uuid_Nil_def inj_on_def lessThan_nat_numeral)

lemma sample_wired: "memory_wired sample_runtime sample_orders sample_evaluator"
  by (simp add: memory_wired_def sample_evaluator_def sample_runtime_def)


text \<open>
  (C2) Nous never executes: whatever the repositories, clients and engines do, an evaluation
  pass only adds to the log of outbound calls, no added call is a Praxis execution or a
  capability listing, and every dry run it asks for is of the generic nudge capability with
  the text of the request's identifier as its idempotency key.
\<close>

theorem evaluate_never_executes:
  "\<exists>new. w_out (snd (Evaluate rt e opts w)) = w_out w @ new
     \<and> (\<forall>req. OutExecute req \<notin> set new) \<and> OutListCapabilities \<notin> set new
     \<and> {req. OutDryRun req \<in> set new} \<subseteq>
         {req. ar_Capability req = ''commitment.nudge'' \<and> ar_IdempotencyKey req = rt_str rt (ar_ID req)}"
proof -
  obtain new where "w_out (snd (Evaluate rt e opts w)) = w_out w @ new" "list_all (pass_call rt) new"
    using Evaluate_out [of rt w e opts] by (auto simp: out_grows_def)
  then show ?thesis by (intro exI [of _ new]) (auto simp: list_all_iff pass_call_def)
qed

text \<open>
  (C21) One bad row does not stall the worker: whatever the repositories answer to the writes,
  a pass whose scan succeeds and whose context stays alive returns no error and reports the
  length of the scan; it never reports more decisions or interventions than updates, nor
  more updates than commitments scanned.
\<close>

theorem evaluate_survives_failures:
  assumes "CFindActive (e_commitments e) (w_store w) (eo_Limit opts) = Inr cs" and "\<forall>i. rt_ctxErr rt i = None"
  shows "\<exists>res w'. Evaluate rt e opts w = ((res, None), w') \<and> r_Evaluated res = length cs
    \<and> r_Updated res \<le> length cs \<and> length (r_Decisions res) \<le> r_Updated res
    \<and> length (r_Interventions res) \<le> r_Updated res"
proof -
  obtain res err w' where l: "Evaluate_loop rt e opts (e_clock e (w_ticks w)) 0 cs (start_result cs) (start_world e w)
      = ((res, err), w')" by (metis prod.collapse)
  have "err = None" using Evaluate_loop_no_error [OF assms(2)] l by (metis fst_conv snd_conv)
  with Evaluate_loop_counts [OF l] Evaluate_scanned [OF assms(1), of rt] l show ?thesis
    by (simp add: counts_ok_def start_result_def)
qed

text \<open>A commitment repository whose \<^verbatim>\<open>UpdateRisk\<close> always fails.\<close>

definition failing_evaluator :: "state Evaluator" where
  "failing_evaluator = sample_evaluator\<lparr>e_commitments := (e_commitments sample_evaluator)
     \<lparr>CUpdateRisk := (\<lambda>st k score t. (Some (ErrPlain ''disk full''), st))\<rparr>\<rparr>"

theorem evaluate_survives_failures_witness:
  "\<exists>cs res w'. commitmentRepo_FindActive rev sample_store 0 = Inr cs
     \<and> Evaluate sample_runtime failing_evaluator \<lparr>eo_Limit = 0, eo_SignalLookback = 0\<rparr> sample_world = ((res, None), w')
     \<and> r_Evaluated res = length cs"
proof -
  obtain cs where cs: "commitmentRepo_FindActive rev sample_store 0 = Inr cs"
    by (simp add: commitmentRepo_FindActive_def Let_def)
  have h: "CFindActive (e_commitments failing_evaluator) (w_store sample_world)
      (eo_Limit \<lparr>eo_Limit = 0, eo_SignalLookback = 0\<rparr>) = Inr cs"
    using cs by (simp add: failing_evaluator_def sample_evaluator_def memory_New_def sample_orders_def sample_world_def)
  have "\<forall>i. rt_ctxErr sample_runtime i = None" by (simp add: sample_runtime_def)
  from evaluate_survives_failures [OF h this] cs show ?thesis by blast
qed

text \<open>
  Cancellation: when the context reports an error for the first time before the
  commitment at position \<open>j\<close>, the pass stops there with that error, and its partial result
  and the world it leaves are those of the loop run on the first \<open>j\<close> commitments.
\<close>

lemma evaluate_cancelled:
  assumes "CFindActive (e_commitments e) (w_store w) (eo_Limit opts) = Inr cs" and "j < length cs"
    and "rt_ctxErr rt j = Some err" and "\<forall>k < j. rt_ctxErr rt k = None"
  shows "\<exists>res w'. Evaluate rt e opts w = ((res, Some err), w')
    \<and> Evaluate_loop rt e opts (e_clock e (w_ticks w)) 0 (take j cs) (start_result cs) (start_world e w)
        = ((res, None), w')"
proof -
  let ?loop = "\<lambda>xs. Evaluate_loop rt e opts (e_clock e (w_ticks w)) 0 xs (start_result cs) (start_world e w)"
  have "?loop cs = (case ?loop (take j cs) of ((res, _), w') \<Rightarrow> ((res, Some err), w'))"
    using assms(2-4) by (intro Evaluate_loop_cancelled) simp_all
  moreover obtain res er w' where l: "?loop (take j cs) = ((res, er), w')" by (metis prod.collapse)
  moreover have "er = None"
    using Evaluate_loop_no_error_below [of "take j cs" j rt 0 e opts] assms(4) l
    by (metis add_0 fst_conv length_take min.cobounded2 snd_conv)
  ultimately show ?thesis using Evaluate_scanned [OF assms(1), of rt] by simp
qed

end
