(* ===== verification/Pipeline_Extract.thy ===== *)
theory Pipeline_Extract
  imports Evaluate_Laws
begin

text \<open>
  \<^verbatim>\<open>internal/pipeline/extract.go\<close> with the port it drives, \<^verbatim>\<open>internal/llm/extractor.go\<close>, and
  the deterministic implementation of that port, \<^verbatim>\<open>internal/llm/scripted.go\<close>. An extractor
  is a function of the input; an LLM-backed one is any such function.
\<close>

section \<open>The extractor port\<close>

record ExtractInput =
  ei_OwnerID :: string
  ei_Text :: string
  ei_Hints :: "string list"
  ei_SourceRefs :: "SourceRef list"

type_synonym CommitmentExtractor = "ExtractInput \<Rightarrow> error + CommitmentDraft list"

text \<open>The scripted extractor: the first rule whose trigger accepts the text gives the drafts.\<close>

record ScriptRule =
  rule_Trigger :: "(string \<Rightarrow> bool) option"
  rule_Drafts :: "CommitmentDraft list"

definition orDefault :: "string \<Rightarrow> string \<Rightarrow> string" where
  "orDefault v fallback = (if v = [] then fallback else v)"

definition annotate_draft :: "ExtractInput \<Rightarrow> CommitmentDraft \<Rightarrow> CommitmentDraft" where
  "annotate_draft i d =
     d\<lparr>cd_OwnerID := orDefault (cd_OwnerID d) (ei_OwnerID i),
       cd_SourceRefs := ([] @ cd_SourceRefs d) @ ei_SourceRefs i\<rparr>"

fun ScriptedExtractor_Extract :: "ScriptRule list \<Rightarrow> CommitmentExtractor" where
  "ScriptedExtractor_Extract [] i = Inr []"
| "ScriptedExtractor_Extract (rule # rules) i =
     (case rule_Trigger rule of
        None \<Rightarrow> ScriptedExtractor_Extract rules i
      | Some trig \<Rightarrow>
          if \<not> trig (ei_Text i) then ScriptedExtractor_Extract rules i
          else Inr (map (annotate_draft i) (rule_Drafts rule)))"

text \<open>
  \<^verbatim>\<open>ContainsAny\<close>; \<^verbatim>\<open>strings.ToLower\<close> maps runes by a Unicode table, the argument \<open>lower\<close>.
\<close>

fun contains_at :: "string \<Rightarrow> string \<Rightarrow> bool" where
  "contains_at [] n = (n = [])"
| "contains_at (c # s) n = (starts_with n (c # s) \<or> contains_at s n)"

definition ContainsAny :: "(string \<Rightarrow> string) \<Rightarrow> string list \<Rightarrow> string \<Rightarrow> bool" where
  "ContainsAny lower needles text =
     (let lowered = map lower needles; t = lower text
      in list_ex (\<lambda>n. contains_at t n) lowered)"


section \<open>The pipeline\<close>

record 's ExtractorConfig =
  xc_Commitments :: "'s CommitmentRepository option"
  xc_Decisions :: "'s DecisionRepository option"
  xc_Extractor :: "CommitmentExtractor option"
  xc_MinConfidence :: float64
  xc_Clock :: "Clock option"
  xc_Metrics :: bool

record 's Extractor =
  x_commitments :: "'s CommitmentRepository"
  x_decisions :: "'s DecisionRepository"
  x_extractor :: CommitmentExtractor
  x_minConfidence :: float64
  x_clock :: Clock
  x_metrics :: bool

definition NewExtractor :: "(nat \<Rightarrow> time) \<Rightarrow> 's ExtractorConfig \<Rightarrow> error + 's Extractor" where
  "NewExtractor time_Now cfg =
    (case xc_Commitments cfg of None \<Rightarrow> Inl (ErrPlain ''pipeline: commitments repository required'')
     | Some cs \<Rightarrow>
    (case xc_Decisions cfg of None \<Rightarrow> Inl (ErrPlain ''pipeline: decisions repository required'')
     | Some ds \<Rightarrow>
    (case xc_Extractor cfg of None \<Rightarrow> Inl (ErrPlain ''pipeline: commitment extractor required'')
     | Some x \<Rightarrow>
       if xc_MinConfidence cfg < 0 \<or> 1 < xc_MinConfidence cfg
       then Inl (ErrPlain ''pipeline: min_confidence out of [0,1]'')
       else let clock = (case xc_Clock cfg of None \<Rightarrow> SystemClock time_Now | Some c \<Rightarrow> c)
            in Inr \<lparr>x_commitments = cs, x_decisions = ds, x_extractor = x,
                    x_minConfidence = xc_MinConfidence cfg, x_clock = clock, x_metrics = xc_Metrics cfg\<rparr>)))"

record ExtractResult =
  xr_Considered :: nat
  xr_Saved :: "CommitmentID list"
  xr_Dropped :: nat
  xr_DecisionID :: "DecisionID option"

text \<open>
  The error of an out-of-range threshold prints the value; the operand is left out.

  One draft. \<^verbatim>\<open>uuid.New\<close> is called by \<^verbatim>\<open>ToCommitment\<close>, so only for a draft that passes the
  threshold.
\<close>

definition Extract_one ::
  "runtime \<Rightarrow> 's Extractor \<Rightarrow> time \<Rightarrow> CommitmentDraft \<Rightarrow> ExtractResult \<times> 's world \<Rightarrow> ExtractResult \<times> 's world" where
  "Extract_one rt e now d rw = (case rw of (res, w) \<Rightarrow>
     if cd_Confidence d < x_minConfidence e then (res\<lparr>xr_Dropped := Suc (xr_Dropped res)\<rparr>, w)
     else
       (let newID = rt_uuid rt (w_ids w); w = w\<lparr>w_ids := Suc (w_ids w)\<rparr> in
        case CommitmentDraft_ToCommitment newID d now of
          Inl err \<Rightarrow> (res\<lparr>xr_Dropped := Suc (xr_Dropped res)\<rparr>, w)
        | Inr c \<Rightarrow>
           (case CSave (x_commitments e) (w_store w) c of
              (Some err, st) \<Rightarrow> (res\<lparr>xr_Dropped := Suc (xr_Dropped res)\<rparr>, w\<lparr>w_store := st\<rparr>)
            | (None, st) \<Rightarrow> (res\<lparr>xr_Saved := xr_Saved res @ [c_ID c]\<rparr>, w\<lparr>w_store := st\<rparr>))))"

text \<open>\<^verbatim>\<open>Saved %d/%d drafts above confidence %.2f.\<close>\<close>

definition extract_reason :: "nat \<Rightarrow> nat \<Rightarrow> float64 \<Rightarrow> string" where
  "extract_reason saved considered minc =
     ''Saved '' @ fmt_d (int saved) @ ''/'' @ fmt_d (int considered) @ '' drafts above confidence '' @
     fmt_2f minc @ ''.''"

text \<open>The audit record after the loop.\<close>

definition Extract_record ::
  "runtime \<Rightarrow> 's Extractor \<Rightarrow> time \<Rightarrow> ExtractInput \<Rightarrow> ExtractResult \<times> 's world \<Rightarrow> ExtractResult \<times> 's world" where
  "Extract_record rt e now i rw = (case rw of (res, w) \<Rightarrow>
     (let newID = rt_uuid rt (w_ids w); w = w\<lparr>w_ids := Suc (w_ids w)\<rparr> in
      case NewDecision newID ''commitment.extract''
             (extract_reason (length (xr_Saved res)) (xr_Considered res) (x_minConfidence e)) 1 now of
        Inl err \<Rightarrow> (res, w)
      | Inr dec \<Rightarrow>
         (let dec = dec\<lparr>d_ContextRefs := [] @ ei_SourceRefs i\<rparr>;
              dec = dec\<lparr>d_Inputs := Some [(''owner_id'', VString (ei_OwnerID i)),
                      (''considered'', VInt (int (xr_Considered res))),
                      (''min_confidence'', VFloat (x_minConfidence e))]\<rparr>;
              saved = map (rt_str rt) (xr_Saved res);
              dec = dec\<lparr>d_Outcome := Some [(''saved_ids'', VSlice ''string'' (map VString saved)),
                      (''dropped'', VInt (int (xr_Dropped res)))]\<rparr>
          in case DSave (x_decisions e) (w_store w) dec of
               (None, st) \<Rightarrow> (res\<lparr>xr_DecisionID := Some (d_ID dec)\<rparr>, w\<lparr>w_store := st\<rparr>)
             | (Some err, st) \<Rightarrow> (res, w\<lparr>w_store := st\<rparr>))))"

definition Extract ::
  "runtime \<Rightarrow> 's Extractor \<Rightarrow> ExtractInput \<Rightarrow> 's world \<Rightarrow> (ExtractResult \<times> error option) \<times> 's world" where
  "Extract rt e i w =
    (let now = x_clock e (w_ticks w); w = w\<lparr>w_ticks := Suc (w_ticks w)\<rparr>;
         zero = \<lparr>xr_Considered = 0, xr_Saved = [], xr_Dropped = 0, xr_DecisionID = None\<rparr>
     in case x_extractor e i of
          Inl err \<Rightarrow> ((zero, Some (ErrWrap ''pipeline: extractor'' err)), w)
        | Inr drafts \<Rightarrow>
           (let (res, w) = fold (Extract_one rt e now) drafts (zero\<lparr>xr_Considered := length drafts\<rparr>, w);
                w = (if x_metrics e then IncCommitmentsExtracted ''success'' (int (length (xr_Saved res))) w else w);
                (res, w) = Extract_record rt e now i (res, w)
            in ((res, None), w)))"


section \<open>Lemmas\<close>

text \<open>A draft is saved or dropped, never both and never neither.\<close>

lemma Extract_one_accounts:
  assumes "Extract_one rt e now d (res, w) = (res', w')"
  shows "length (xr_Saved res') + xr_Dropped res' = Suc (length (xr_Saved res) + xr_Dropped res)
    \<and> xr_Considered res' = xr_Considered res \<and> xr_DecisionID res' = xr_DecisionID res"
  using assms
  by (cases "CommitmentDraft_ToCommitment (rt_uuid rt (w_ids w)) d now")
     (auto simp: Extract_one_def Let_def split: if_splits prod.splits option.splits)

lemma Extract_loop_accounts:
  "fold (Extract_one rt e now) ds (res, w) = (res', w') \<Longrightarrow>
     length (xr_Saved res') + xr_Dropped res' = length (xr_Saved res) + xr_Dropped res + length ds
     \<and> xr_Considered res' = xr_Considered res \<and> xr_DecisionID res' = xr_DecisionID res"
proof (induction ds arbitrary: res w)
  case (Cons d ds)
  obtain r1 w1 where one: "Extract_one rt e now d (res, w) = (r1, w1)" by fastforce
  with Cons.prems have "fold (Extract_one rt e now) ds (r1, w1) = (res', w')" by simp
  from Cons.IH [OF this] Extract_one_accounts [OF one] show ?case by simp
qed simp

lemma Extract_record_accounts:
  assumes "Extract_record rt e now i (res, w) = (res', w')"
  shows "xr_Saved res' = xr_Saved res \<and> xr_Dropped res' = xr_Dropped res \<and> xr_Considered res' = xr_Considered res"
  using assms
  by (auto simp: Extract_record_def Let_def split: sum.splits prod.splits option.splits)


section \<open>Extraction into the memory store\<close>

definition memory_extractor :: "runtime \<Rightarrow> range_orders \<Rightarrow> state Extractor \<Rightarrow> bool" where
  "memory_extractor rt r e \<longleftrightarrow>
     x_commitments e = conn_Commitments (fst (memory_New (rt_str rt) r))
     \<and> x_decisions e = conn_Decisions (fst (memory_New (rt_str rt) r))"

lemma extractor_ops:
  assumes "memory_extractor rt r e"
  shows "CSave (x_commitments e) = commitmentRepo_Save (rt_str rt)"
    and "DSave (x_decisions e) = decisionRepo_Save (rt_str rt)"
  using assms by (simp_all add: memory_extractor_def memory_New_def)

text \<open>The drafts that become commitments.\<close>

definition kept_draft :: "float64 \<Rightarrow> CommitmentDraft \<Rightarrow> bool" where
  "kept_draft minc d \<longleftrightarrow> \<not> cd_Confidence d < minc \<and> TrimSpace (cd_OwnerID d) \<noteq> []
     \<and> TrimSpace (cd_Description d) \<noteq> []
     \<and> (cd_Confidence d = NaN \<or> 0 \<le> cd_Confidence d \<and> cd_Confidence d \<le> 1)"

lemma Extract_one_memory:
  assumes mem: "memory_extractor rt r e" and ids: "rt_uuid rt (w_ids w) \<noteq> uuid_Nil"
  shows "if kept_draft (x_minConfidence e) d
    then \<exists>c. CommitmentDraft_ToCommitment (rt_uuid rt (w_ids w)) d now = Inr c \<and> c_ID c = rt_uuid rt (w_ids w)
      \<and> Commitment_Validate c = None
      \<and> Extract_one rt e now d (res, w) = (res\<lparr>xr_Saved := xr_Saved res @ [rt_uuid rt (w_ids w)]\<rparr>,
          w\<lparr>w_ids := Suc (w_ids w), w_store := snd (commitmentRepo_Save (rt_str rt) (w_store w) c)\<rparr>)
    else \<exists>n. (n = w_ids w \<or> n = Suc (w_ids w))
      \<and> Extract_one rt e now d (res, w) = (res\<lparr>xr_Dropped := Suc (xr_Dropped res)\<rparr>, w\<lparr>w_ids := n\<rparr>)"
proof (cases "CommitmentDraft_ToCommitment (rt_uuid rt (w_ids w)) d now")
  case (Inl err)
  then have "\<not> kept_draft (x_minConfidence e) d"
    using ids ToCommitment_Inr [of "rt_uuid rt (w_ids w)" d now] by (auto simp: kept_draft_def out_of_unit_iff)
  then show ?thesis using Inl by (auto simp: Extract_one_def Let_def intro: exI [of _ "w_ids w"])
next
  case (Inr c)
  note c = ToCommitment_valid [OF Inr] ToCommitment_ID [OF Inr]
  have k: "kept_draft (x_minConfidence e) d \<longleftrightarrow> \<not> cd_Confidence d < x_minConfidence e"
    using Inr by (auto simp: kept_draft_def ToCommitment_Inr out_of_unit_iff)
  have s: "commitmentRepo_Save (rt_str rt) (w_store w) c =
      (None, snd (commitmentRepo_Save (rt_str rt) (w_store w) c))"
    using c(1) by (simp add: commitmentRepo_Save_def)
  show ?thesis
  proof (cases "cd_Confidence d < x_minConfidence e")
    case True
    then show ?thesis using k by (simp add: Extract_one_def) (rule exI [of _ "w_ids w"], simp)
  next
    case False
    obtain st where "commitmentRepo_Save (rt_str rt) (w_store w) c = (None, st)" using s by blast
    with False show ?thesis using k Inr c by (simp add: Extract_one_def Let_def extractor_ops [OF mem])
  qed
qed

definition saved_drafts ::
  "runtime \<Rightarrow> time \<Rightarrow> nat \<Rightarrow> nat \<Rightarrow> CommitmentDraft list \<Rightarrow> uuid list \<Rightarrow> state \<Rightarrow> bool" where
  "saved_drafts rt now n N ds is st \<longleftrightarrow>
     list_all2 (\<lambda>d i. drawn_from rt n N i \<and> (\<exists>c. CommitmentDraft_ToCommitment i d now = Inr c
        \<and> map_of (st_commitments st) (rt_str rt i) = Some c)) ds is"

lemma saved_drafts_mono: "saved_drafts rt now n1 N ds is st \<Longrightarrow> n \<le> n1 \<Longrightarrow> saved_drafts rt now n N ds is st"
  unfolding saved_drafts_def by (erule list.rel_mono_strong) (auto intro: drawn_from_mono)

lemma saved_drafts_drawn: "saved_drafts rt now n N ds is st \<Longrightarrow> i \<in> set is \<Longrightarrow> drawn_from rt n N i"
  unfolding saved_drafts_def by (induction ds "is" rule: list_all2_induct) auto

text \<open>Only the table of commitments may change.\<close>

definition only_commitments :: "state \<Rightarrow> state \<Rightarrow> bool" where
  "only_commitments st st' \<longleftrightarrow> st' = st\<lparr>st_commitments := st_commitments st'\<rparr>"

lemma only_commitments_Save: "only_commitments st (snd (commitmentRepo_Save str st c))"
  by (cases "Commitment_Validate c") (simp_all add: only_commitments_def commitmentRepo_Save_def)

lemma only_commitments_trans: "only_commitments st1 st2 \<Longrightarrow> only_commitments st2 st3 \<Longrightarrow> only_commitments st1 st3"
  by (cases st1; cases st2; cases st3) (simp add: only_commitments_def)

lemma Extract_loop_memory:
  assumes mem: "memory_extractor rt r e" and inj: "inj (rt_str rt)"
    and ids: "\<forall>n. rt_uuid rt n \<noteq> uuid_Nil" "inj_on (rt_uuid rt) {..<N}"
    and wf: "state_wf (rt_str rt) (w_store w)" and N: "w_ids w + length ds \<le> N"
  defines "good \<equiv> filter (kept_draft (x_minConfidence e))"
  shows "\<exists>is w'. fold (Extract_one rt e now) ds (res, w) =
      (res\<lparr>xr_Saved := xr_Saved res @ is, xr_Dropped := xr_Dropped res + (length ds - length (good ds))\<rparr>, w')
    \<and> w_ids w \<le> w_ids w' \<and> w_ids w' \<le> w_ids w + length ds \<and> state_wf (rt_str rt) (w_store w')
    \<and> saved_drafts rt now (w_ids w) N (good ds) is (w_store w') \<and> distinct is
    \<and> (\<forall>k. k \<notin> set is \<longrightarrow>
         map_of (st_commitments (w_store w')) (rt_str rt k) = map_of (st_commitments (w_store w)) (rt_str rt k))
    \<and> only_commitments (w_store w) (w_store w') \<and> w_out w' = w_out w"
  using wf N
proof (induction ds arbitrary: res w)
  case Nil
  then show ?case by (intro exI [of _ "[]"] exI [of _ w]) (simp add: good_def saved_drafts_def only_commitments_def)
next
  case (Cons d ds)
  let ?i = "rt_uuid rt (w_ids w)"
  have t: "id_text (rt_str rt)" using inj by (rule id_text.intro)
  have gl: "length (good ds) \<le> length ds" by (simp add: good_def)
  show ?case
  proof (cases "kept_draft (x_minConfidence e) d")
    case True
    obtain c where c: "CommitmentDraft_ToCommitment ?i d now = Inr c" "c_ID c = ?i" "Commitment_Validate c = None"
      and one: "Extract_one rt e now d (res, w) = (res\<lparr>xr_Saved := xr_Saved res @ [?i]\<rparr>,
          w\<lparr>w_ids := Suc (w_ids w), w_store := snd (commitmentRepo_Save (rt_str rt) (w_store w) c)\<rparr>)"
      using Extract_one_memory [OF mem, of w d now res] ids(1) True by auto
    define w1 where "w1 = w\<lparr>w_ids := Suc (w_ids w), w_store := snd (commitmentRepo_Save (rt_str rt) (w_store w) c)\<rparr>"
    have w1: "w_ids w1 = Suc (w_ids w)" "w_store w1 = snd (commitmentRepo_Save (rt_str rt) (w_store w) c)"
      by (simp_all add: w1_def)
    have look: "map_of (st_commitments (w_store w1)) (rt_str rt k) =
        (if k = ?i then Some c else map_of (st_commitments (w_store w)) (rt_str rt k))" for k
      using c(2,3) by (simp add: w1 commitmentRepo_Save_def clone_simps id_text.str_eq [OF t])
    have "state_wf (rt_str rt) (w_store w1)"
      unfolding w1 using id_text.memory_op_wf [OF t Cons.prems(1), of "OpSaveCommitment c"] by simp
    then obtain "is" w' where IH: "fold (Extract_one rt e now) ds (res\<lparr>xr_Saved := xr_Saved res @ [?i]\<rparr>, w1) =
        (res\<lparr>xr_Saved := (xr_Saved res @ [?i]) @ is, xr_Dropped := xr_Dropped res + (length ds - length (good ds))\<rparr>, w')"
      "w_ids w1 \<le> w_ids w'" "w_ids w' \<le> w_ids w1 + length ds" "state_wf (rt_str rt) (w_store w')"
      "saved_drafts rt now (w_ids w1) N (good ds) is (w_store w')" "distinct is"
      "\<forall>k. k \<notin> set is \<longrightarrow>
         map_of (st_commitments (w_store w')) (rt_str rt k) = map_of (st_commitments (w_store w1)) (rt_str rt k)"
      "only_commitments (w_store w1) (w_store w')" "w_out w' = w_out w"
      using Cons.IH [of w1 "res\<lparr>xr_Saved := xr_Saved res @ [?i]\<rparr>"] Cons.prems(2) by (auto simp: w1 w1_def)
    have own: "\<not> drawn_from rt (w_ids w1) N ?i" "drawn_from rt (w_ids w) N ?i"
      using ids(2) Cons.prems(2) by (simp_all add: w1)
    then have new: "?i \<notin> set is" using saved_drafts_drawn [OF IH(5)] by blast
    have "saved_drafts rt now (w_ids w) N (good (d # ds)) (?i # is) (w_store w')"
      using saved_drafts_mono [OF IH(5), of "w_ids w"] own(2) new c(1) IH(7) look True
      by (auto simp: saved_drafts_def good_def w1)
    moreover have "map_of (st_commitments (w_store w')) (rt_str rt k) = map_of (st_commitments (w_store w)) (rt_str rt k)"
      if "k \<notin> set (?i # is)" for k
      using that IH(7) look by simp
    moreover have "only_commitments (w_store w) (w_store w')"
      using only_commitments_trans [OF only_commitments_Save IH(8) [unfolded w1]] .
    moreover have "fold (Extract_one rt e now) (d # ds) (res, w) =
        (res\<lparr>xr_Saved := xr_Saved res @ (?i # is),
           xr_Dropped := xr_Dropped res + (length (d # ds) - length (good (d # ds)))\<rparr>, w')"
      using one IH(1) True by (simp add: w1_def good_def)
    ultimately show ?thesis using IH(2,3,4,6,9) w1(1) new by (intro exI [of _ "?i # is"] exI [of _ w']) simp
  next
    case False
    obtain n where n: "n = w_ids w \<or> n = Suc (w_ids w)"
      and one: "Extract_one rt e now d (res, w) = (res\<lparr>xr_Dropped := Suc (xr_Dropped res)\<rparr>, w\<lparr>w_ids := n\<rparr>)"
      using Extract_one_memory [OF mem, of w d now res] ids(1) False by auto
    obtain "is" w' where IH: "fold (Extract_one rt e now) ds (res\<lparr>xr_Dropped := Suc (xr_Dropped res)\<rparr>, w\<lparr>w_ids := n\<rparr>) =
        (res\<lparr>xr_Dropped := Suc (xr_Dropped res), xr_Saved := xr_Saved res @ is,
           xr_Dropped := Suc (xr_Dropped res) + (length ds - length (good ds))\<rparr>, w')"
      "n \<le> w_ids w'" "w_ids w' \<le> n + length ds" "state_wf (rt_str rt) (w_store w')"
      "saved_drafts rt now n N (good ds) is (w_store w')" "distinct is"
      "\<forall>k. k \<notin> set is \<longrightarrow>
         map_of (st_commitments (w_store w')) (rt_str rt k) = map_of (st_commitments (w_store w)) (rt_str rt k)"
      "only_commitments (w_store w) (w_store w')" "w_out w' = w_out w"
      using Cons.IH [of "w\<lparr>w_ids := n\<rparr>" "res\<lparr>xr_Dropped := Suc (xr_Dropped res)\<rparr>"] Cons.prems n by auto
    have "saved_drafts rt now (w_ids w) N (good (d # ds)) is (w_store w')"
      using saved_drafts_mono [OF IH(5), of "w_ids w"] n False by (auto simp: good_def)
    moreover have "fold (Extract_one rt e now) (d # ds) (res, w) =
        (res\<lparr>xr_Saved := xr_Saved res @ is,
           xr_Dropped := xr_Dropped res + (length (d # ds) - length (good (d # ds)))\<rparr>, w')"
      using one IH(1) False gl by (simp add: good_def Suc_diff_le)
    ultimately show ?thesis using IH(2,3,4,6-9) n by (intro exI [of _ "is"] exI [of _ w']) auto
  qed
qed


section \<open>Properties\<close>

text \<open>
  Bookkeeping of an extraction, whatever the repositories answer: an extractor failure
  is reported, with nothing considered and the store and the log as they were; otherwise there is
  no error, every draft is counted exactly once as saved or as dropped, and saved plus
  dropped is the number of drafts considered.
\<close>

lemma extract_accounting:
  "case x_extractor e i of
     Inl err \<Rightarrow> fst (Extract rt e i w) = (\<lparr>xr_Considered = 0, xr_Saved = [], xr_Dropped = 0, xr_DecisionID = None\<rparr>,
         Some (ErrWrap ''pipeline: extractor'' err))
       \<and> w_store (snd (Extract rt e i w)) = w_store w \<and> w_out (snd (Extract rt e i w)) = w_out w
   | Inr drafts \<Rightarrow> (\<exists>res w'. Extract rt e i w = ((res, None), w') \<and> xr_Considered res = length drafts
       \<and> length (xr_Saved res) + xr_Dropped res = length drafts)"
proof (cases "x_extractor e i")
  case (Inl err)
  then show ?thesis by (simp add: Extract_def Let_def)
next
  case (Inr drafts)
  let ?now = "x_clock e (w_ticks w)"
  let ?r = "\<lparr>xr_Considered = length drafts, xr_Saved = [], xr_Dropped = 0, xr_DecisionID = None\<rparr>"
  obtain r1 w1 where l: "fold (Extract_one rt e ?now) drafts (?r, w\<lparr>w_ticks := Suc (w_ticks w)\<rparr>) = (r1, w1)"
    by fastforce
  let ?w2 = "if x_metrics e then IncCommitmentsExtracted ''success'' (int (length (xr_Saved r1))) w1 else w1"
  obtain r2 w3 where r: "Extract_record rt e ?now i (r1, ?w2) = (r2, w3)" by fastforce
  have "Extract rt e i w = ((r2, None), w3)"
    using Inr l r by (simp add: Extract_def Let_def del: if_split)
  with Extract_loop_accounts [OF l] Extract_record_accounts [OF r] Inr show ?thesis by simp
qed

lemma extract_reason_nonblank: "TrimSpace (extract_reason a b x) \<noteq> []"
proof (rule TrimSpace_nonempty)
  show "CHR ''S'' \<in> set (extract_reason a b x)" by (simp add: extract_reason_def)
  show "CHR ''S'' \<notin> \<Union> (set ` set space_seqs)" by (simp add: space_seqs_def)
qed

lemma trim_extract: "TrimSpace ''commitment.extract'' = ''commitment.extract''"
  by code_simp

text \<open>The audit record on the memory store.\<close>

lemma Extract_record_memory:
  assumes mem: "memory_extractor rt r e" and i: "rt_uuid rt (w_ids w) \<noteq> uuid_Nil"
  shows "\<exists>dec. d_Subject dec = ''commitment.extract'' \<and> d_ID dec = rt_uuid rt (w_ids w)
    \<and> d_Outcome dec = Some [(''saved_ids'', VSlice ''string'' (map (VString \<circ> rt_str rt) (xr_Saved res))),
        (''dropped'', VInt (int (xr_Dropped res)))]
    \<and> Decision_Validate dec = None
    \<and> Extract_record rt e now inp (res, w) = (res\<lparr>xr_DecisionID := Some (rt_uuid rt (w_ids w))\<rparr>,
        w\<lparr>w_ids := Suc (w_ids w), w_store := snd (decisionRepo_Save (rt_str rt) (w_store w) dec)\<rparr>)"
proof -
  let ?reason = "extract_reason (length (xr_Saved res)) (xr_Considered res) (x_minConfidence e)"
  define dec where "dec = \<lparr>d_ID = rt_uuid rt (w_ids w), d_Subject = ''commitment.extract'', d_ContextRefs = ei_SourceRefs inp,
     d_Inputs = Some [(''owner_id'', VString (ei_OwnerID inp)), (''considered'', VInt (int (xr_Considered res))),
       (''min_confidence'', VFloat (x_minConfidence e))], d_Weights = None,
     d_Outcome = Some [(''saved_ids'', VSlice ''string'' (map (VString \<circ> rt_str rt) (xr_Saved res))),
       (''dropped'', VInt (int (xr_Dropped res)))], d_Reason = TrimSpace ?reason, d_Confidence = 1, d_CreatedAt = now\<rparr>"
  have one: "\<not> out_of_unit 1" by (simp add: out_of_unit_def)
  have n: "NewDecision (rt_uuid rt (w_ids w)) ''commitment.extract'' ?reason 1 now =
      Inr \<lparr>d_ID = rt_uuid rt (w_ids w), d_Subject = ''commitment.extract'', d_ContextRefs = [], d_Inputs = None,
        d_Weights = None, d_Outcome = None, d_Reason = TrimSpace ?reason, d_Confidence = 1, d_CreatedAt = now\<rparr>"
    using i one extract_reason_nonblank by (simp add: NewDecision_Inr trim_extract)
  have v: "Decision_Validate dec = None"
    using i one extract_reason_nonblank by (simp add: dec_def Decision_Validate_None)
  obtain st where s: "decisionRepo_Save (rt_str rt) (w_store w) dec = (None, st)"
    using v by (simp add: decisionRepo_Save_def)
  have "Extract_record rt e now inp (res, w) = (res\<lparr>xr_DecisionID := Some (rt_uuid rt (w_ids w))\<rparr>,
      w\<lparr>w_ids := Suc (w_ids w), w_store := snd (decisionRepo_Save (rt_str rt) (w_store w) dec)\<rparr>)"
    using s by (simp add: Extract_record_def n Let_def extractor_ops [OF mem] dec_def)
  then show ?thesis using v by (intro exI [of _ dec]) (simp add: dec_def)
qed

text \<open>
  (C19) Extraction into the memory store: the drafts whose confidence is not below the
  threshold, with an owner and a description that are not blank and a confidence in [0,1]
  (or NaN, which passes every comparison), are saved in order, each under a fresh identifier
  of its own as the commitment its promotion gives, and nothing else is: the answer of \<^verbatim>\<open>Get\<close> for every
  other identifier, a drawn one included, is what it was. The rest is counted as dropped. One decision is
  recorded, listing the saved identifiers and the number dropped, and no other decision changes; interventions,
  goals and tasks are as they were; all that leaves the pipeline is the metric.
\<close>

theorem extract_saves:
  assumes "memory_extractor rt r e" and "inj (rt_str rt)" and "x_extractor e i = Inr drafts"
    and "\<forall>n. rt_uuid rt n \<noteq> uuid_Nil" and "inj_on (rt_uuid rt) {..< w_ids w + length drafts}"
    and "state_wf (rt_str rt) (w_store w)"
  shows "\<exists>is di dec w'. Extract rt e i w = ((\<lparr>xr_Considered = length drafts, xr_Saved = is,
        xr_Dropped = length drafts - length (filter (kept_draft (x_minConfidence e)) drafts),
        xr_DecisionID = Some di\<rparr>, None), w')
    \<and> saved_drafts rt (x_clock e (w_ticks w)) (w_ids w) (w_ids w + length drafts)
        (filter (kept_draft (x_minConfidence e)) drafts) is (w_store w')
    \<and> distinct is
    \<and> (\<forall>k. k \<in> set is
         \<or> commitmentRepo_Get (rt_str rt) (w_store w') k = commitmentRepo_Get (rt_str rt) (w_store w) k)
    \<and> decisionRepo_Get (rt_str rt) (w_store w') di = Inr dec \<and> d_Subject dec = ''commitment.extract''
    \<and> d_Outcome dec = Some [(''saved_ids'', VSlice ''string'' (map (VString \<circ> rt_str rt) is)),
        (''dropped'', VInt (int (length drafts - length (filter (kept_draft (x_minConfidence e)) drafts))))]
    \<and> (\<forall>k. k = di \<or> decisionRepo_Get (rt_str rt) (w_store w') k = decisionRepo_Get (rt_str rt) (w_store w) k)
    \<and> state_wf (rt_str rt) (w_store w')
    \<and> st_interventions (w_store w') = st_interventions (w_store w) \<and> st_goals (w_store w') = st_goals (w_store w)
    \<and> st_tasks (w_store w') = st_tasks (w_store w)
    \<and> w_out w' = w_out (if x_metrics e then IncCommitmentsExtracted ''success'' (int (length is)) w else w)"
proof -
  let ?now = "x_clock e (w_ticks w)" and ?good = "filter (kept_draft (x_minConfidence e)) drafts"
  let ?r = "\<lparr>xr_Considered = length drafts, xr_Saved = [], xr_Dropped = 0, xr_DecisionID = None\<rparr>"
  let ?w0 = "w\<lparr>w_ticks := Suc (w_ticks w)\<rparr>"
  have t: "id_text (rt_str rt)" using assms(2) by (rule id_text.intro)
  obtain "is" w1 where l: "fold (Extract_one rt e ?now) drafts (?r, ?w0) =
      (?r\<lparr>xr_Saved := is, xr_Dropped := length drafts - length ?good\<rparr>, w1)"
    and wf: "state_wf (rt_str rt) (w_store w1)" and dist: "distinct is"
    and sv: "saved_drafts rt ?now (w_ids w) (w_ids w + length drafts) ?good is (w_store w1)"
    and fr: "\<forall>k. k \<notin> set is \<longrightarrow>
         map_of (st_commitments (w_store w1)) (rt_str rt k) = map_of (st_commitments (w_store w)) (rt_str rt k)"
    and oc: "only_commitments (w_store w) (w_store w1)" "w_out w1 = w_out w"
    using Extract_loop_memory [OF assms(1,2,4,5), of ?w0 drafts ?now ?r] assms(6) by auto
  let ?res = "?r\<lparr>xr_Saved := is, xr_Dropped := length drafts - length ?good\<rparr>"
  define w2 where "w2 = (if x_metrics e then IncCommitmentsExtracted ''success'' (int (length is)) w1 else w1)"
  have w2: "w_store w2 = w_store w1"
    "w_out w2 = w_out (if x_metrics e then IncCommitmentsExtracted ''success'' (int (length is)) w else w)"
    by (simp_all add: w2_def metric_defs emit_def oc(2))
  obtain dec where d: "d_Subject dec = ''commitment.extract''" "d_ID dec = rt_uuid rt (w_ids w2)"
    "d_Outcome dec = Some [(''saved_ids'', VSlice ''string'' (map (VString \<circ> rt_str rt) (xr_Saved ?res))),
        (''dropped'', VInt (int (xr_Dropped ?res)))]" "Decision_Validate dec = None"
    and rec: "Extract_record rt e ?now i (?res, w2) = (?res\<lparr>xr_DecisionID := Some (rt_uuid rt (w_ids w2))\<rparr>,
        w2\<lparr>w_ids := Suc (w_ids w2), w_store := snd (decisionRepo_Save (rt_str rt) (w_store w2) dec)\<rparr>)"
    using Extract_record_memory [OF assms(1), of w2 ?res ?now i] assms(4) by blast
  let ?st = "snd (decisionRepo_Save (rt_str rt) (w_store w1) dec)"
  have other: "st_decisions (w_store w1) = st_decisions (w_store w)" "st_interventions (w_store w1) = st_interventions (w_store w)"
    "st_goals (w_store w1) = st_goals (w_store w)" "st_tasks (w_store w1) = st_tasks (w_store w)"
    using oc(1) unfolding only_commitments_def by (metis state.select_convs state.update_convs(1) state.surjective)+
  have st: "st_commitments ?st = st_commitments (w_store w1)" "decisionRepo_Get (rt_str rt) ?st (d_ID dec) = Inr dec"
    "st_interventions ?st = st_interventions (w_store w)" "st_goals ?st = st_goals (w_store w)" "st_tasks ?st = st_tasks (w_store w)"
    using d(4) by (simp_all add: decisionRepo_Save_def decisionRepo_Get_def clone_simps other)
  have decs: "k = d_ID dec \<or> decisionRepo_Get (rt_str rt) ?st k = decisionRepo_Get (rt_str rt) (w_store w) k" for k
    using d(4) by (simp add: decisionRepo_Save_def decisionRepo_Get_def clone_simps other id_text.str_eq [OF t])
  have "Extract rt e i w = (let (res, w) = Extract_record rt e ?now i (?res, w2) in ((res, None), w))"
    using assms(3) l by (simp add: Extract_def Let_def w2_def del: if_split)
  then have "Extract rt e i w = ((?res\<lparr>xr_DecisionID := Some (rt_uuid rt (w_ids w2))\<rparr>, None),
      w2\<lparr>w_ids := Suc (w_ids w2), w_store := ?st\<rparr>)"
    by (simp only: rec w2 Let_def prod.case)
  moreover have "state_wf (rt_str rt) ?st" using id_text.memory_op_wf [OF t wf, of "OpSaveDecision dec"] by simp
  moreover have "saved_drafts rt ?now (w_ids w) (w_ids w + length drafts) ?good is ?st"
    using sv by (simp add: saved_drafts_def st)
  moreover have "k \<in> set is
      \<or> commitmentRepo_Get (rt_str rt) ?st k = commitmentRepo_Get (rt_str rt) (w_store w) k" for k
    using fr by (auto simp: commitmentRepo_Get_def st(1))
  ultimately show ?thesis using d st(2-5) decs dist
    by (intro exI [of _ "is"] exI [of _ "rt_uuid rt (w_ids w2)"] exI [of _ dec]
        exI [of _ "w2\<lparr>w_ids := Suc (w_ids w2), w_store := ?st\<rparr>"]) (simp add: w2(2))
qed

text \<open>A scripted extractor with one rule: a good draft, one with NaN confidence and a blank one.\<close>

definition sample_draft :: CommitmentDraft where
  "sample_draft = \<lparr>cd_OwnerID = [], cd_Description = ''call Bob'', cd_DueAt = None, cd_Entities = [],
     cd_SourceRefs = [], cd_Confidence = 1\<rparr>"

definition sample_extractor :: "state Extractor" where
  "sample_extractor = \<lparr>
     x_commitments = conn_Commitments (fst (memory_New canonical_text sample_orders)),
     x_decisions = conn_Decisions (fst (memory_New canonical_text sample_orders)),
     x_extractor = ScriptedExtractor_Extract [\<lparr>rule_Trigger = Some (\<lambda>t. t = ''x''), rule_Drafts =
       [sample_draft, sample_draft\<lparr>cd_Confidence := NaN\<rparr>, sample_draft\<lparr>cd_Description := ''  ''\<rparr>]\<rparr>],
     x_minConfidence = f_lit (5/10), x_clock = (\<lambda>n. 50), x_metrics = False\<rparr>"

definition sample_input :: ExtractInput where
  "sample_input = \<lparr>ei_OwnerID = ''u1'', ei_Text = ''x'', ei_Hints = [], ei_SourceRefs = []\<rparr>"

theorem extract_saves_witness:
  "\<exists>is di w'. Extract sample_runtime sample_extractor sample_input sample_world =
     ((\<lparr>xr_Considered = 3, xr_Saved = is, xr_Dropped = 1, xr_DecisionID = Some di\<rparr>, None), w') \<and> length is = 2"
proof -
  let ?ds = "[sample_draft\<lparr>cd_OwnerID := ''u1''\<rparr>, sample_draft\<lparr>cd_OwnerID := ''u1'', cd_Confidence := NaN\<rparr>,
     sample_draft\<lparr>cd_OwnerID := ''u1'', cd_Description := ''  ''\<rparr>]"
  have x: "x_extractor sample_extractor sample_input = Inr ?ds"
    by (simp add: sample_extractor_def sample_input_def annotate_draft_def orDefault_def sample_draft_def)
  have lit: "\<not> 1 < f_lit (5/10)" "TrimSpace ''u1'' = ''u1''" "TrimSpace ''call Bob'' = ''call Bob''" "TrimSpace ''  '' = []"
    by code_simp+
  have minc: "x_minConfidence sample_extractor = f_lit (5/10)" by (simp add: sample_extractor_def)
  have nan: "\<not> NaN < f_lit (5/10)" by simp
  have good: "length (filter (kept_draft (f_lit (5/10))) ?ds) = 2"
    using lit nan by (simp add: kept_draft_def sample_draft_def one_float64_def zero_float64_def)
  have f: "rt_str sample_runtime = canonical_text" "w_ids sample_world = 0" "w_store sample_world = sample_store"
    by (simp_all add: sample_runtime_def sample_world_def)
  have m: "memory_extractor sample_runtime sample_orders sample_extractor"
    by (simp add: memory_extractor_def sample_extractor_def f)
  have inj3: "inj_on (rt_uuid sample_runtime) {..< w_ids sample_world + length ?ds}"
    using sample_ids(2) by (rule inj_on_subset) (auto simp: f)
  have wf: "inj (rt_str sample_runtime)" "state_wf (rt_str sample_runtime) (w_store sample_world)"
    using inj_canonical_text sample_store_wf by (simp_all add: f)
  from extract_saves [OF m wf(1) x sample_ids(1) inj3 wf(2)] obtain "is" di w' where
    ex: "Extract sample_runtime sample_extractor sample_input sample_world = ((\<lparr>xr_Considered = length ?ds, xr_Saved = is,
        xr_Dropped = length ?ds - length (filter (kept_draft (f_lit (5/10))) ?ds), xr_DecisionID = Some di\<rparr>, None), w')"
    and sv: "saved_drafts sample_runtime (x_clock sample_extractor (w_ticks sample_world)) (w_ids sample_world)
        (w_ids sample_world + length ?ds) (filter (kept_draft (f_lit (5/10))) ?ds) is (w_store w')"
    unfolding minc by (elim exE conjE) (rule that)
  have "length is = 2" using list_all2_lengthD [OF sv [unfolded saved_drafts_def]] by (simp only: good)
  with ex good show ?thesis by (simp only: good) simp
qed

end
