(* ===== verification/Circuit_Breaker.thy ===== *)
theory Circuit_Breaker
  imports Go_Base
begin

text \<open>
  \<^verbatim>\<open>internal/circuit/breaker.go\<close>. The struct is a record; \<open>Call\<close> is the method of one
  goroutine undisturbed by others, \<open>thread_step\<close> the same method cut at its lock regions, so that
  any interleaving of goroutines is a sequence of \<open>thread_step\<close>s (relation \<open>breaker_reach\<close>).
  A reading of \<^verbatim>\<open>time.Now\<close> and the outcome of the protected function are arguments. The two counters are Go
  \<^verbatim>\<open>int\<close>s, which wrap around at 64 bits.
\<close>

section \<open>The breaker\<close>

datatype breaker_State = StateClosed | StateOpen | StateHalfOpen

record breaker_Config =
  bc_MaxFailures :: int
  bc_Timeout :: duration
  bc_MaxRequests :: int

definition breaker_DefaultConfig :: breaker_Config where
  "breaker_DefaultConfig = \<lparr>bc_MaxFailures = 5, bc_Timeout = 30 * second, bc_MaxRequests = 1\<rparr>"

record Breaker =
  b_config :: breaker_Config
  b_state :: breaker_State
  b_failures :: int
  b_nextTry :: time
  b_halfOpenRequests :: int

text \<open>The zero value of \<^verbatim>\<open>time.Time\<close>: the first instant of year 1.\<close>

definition zero_Time :: time where
  "zero_Time = - 62135596800 * second"

definition breaker_New :: "breaker_Config \<Rightarrow> Breaker" where
  "breaker_New config =
    (let config = (if bc_MaxFailures config = 0
           then config\<lparr>bc_MaxFailures := bc_MaxFailures breaker_DefaultConfig\<rparr> else config);
         config = (if bc_Timeout config = 0
           then config\<lparr>bc_Timeout := bc_Timeout breaker_DefaultConfig\<rparr> else config)
     in \<lparr>b_config = config, b_state = StateClosed, b_failures = 0, b_nextTry = zero_Time,
         b_halfOpenRequests = 0\<rparr>)"

definition ErrCircuitOpen :: error where
  "ErrCircuitOpen = ErrPlain ''circuit breaker is open''"

definition CircuitOpenError :: "error \<Rightarrow> bool" where
  "CircuitOpenError err \<longleftrightarrow> err = ErrCircuitOpen"

definition onSuccess :: "Breaker \<Rightarrow> Breaker" where
  "onSuccess b =
    (let b = b\<lparr>b_failures := 0\<rparr> in
     if b_state b = StateHalfOpen then b\<lparr>b_state := StateClosed\<rparr> else b)"

definition onFailure :: "time \<Rightarrow> Breaker \<Rightarrow> Breaker" where
  "onFailure now b =
    (let b = b\<lparr>b_failures := wrap64 (b_failures b + 1)\<rparr> in
     if bc_MaxFailures (b_config b) \<le> b_failures b
     then b\<lparr>b_state := StateOpen, b_nextTry := now + bc_Timeout (b_config b)\<rparr> else b)"

text \<open>
  \<^verbatim>\<open>Call\<close>: \<open>t1\<close> is read at the check of an open circuit, \<open>t2\<close> after the function returned
  \<open>res\<close>. The result says whether the function was run, the error returned and the breaker.
\<close>

definition Call :: "Breaker \<Rightarrow> time \<Rightarrow> error option \<Rightarrow> time \<Rightarrow> bool \<times> error option \<times> Breaker" where
  "Call b t1 res t2 =
    (let state = b_state b in
     if state = StateOpen \<and> t1 < b_nextTry b then (False, Some ErrCircuitOpen, b)
     else
      (let b = (if state = StateOpen then
                  (if b_state b = StateOpen then b\<lparr>b_state := StateHalfOpen, b_halfOpenRequests := 0\<rparr> else b)
                else b)
       in if b_state b = StateHalfOpen \<and> bc_MaxRequests (b_config b) \<le> b_halfOpenRequests b
          then (False, Some ErrCircuitOpen, b)
          else
           (let b = (if b_state b = StateHalfOpen
                     then b\<lparr>b_halfOpenRequests := wrap64 (b_halfOpenRequests b + 1)\<rparr> else b)
            in (True, res, case res of None \<Rightarrow> onSuccess b | Some _ \<Rightarrow> onFailure t2 b))))"

definition breaker_State_of :: "Breaker \<Rightarrow> breaker_State" where
  "breaker_State_of b = b_state b"

definition Failures :: "Breaker \<Rightarrow> int" where
  "Failures b = b_failures b"


section \<open>Interleaved calls\<close>

text \<open>
  The program points of \<^verbatim>\<open>Call\<close> between its critical sections: before the first, at the
  unlocked check of the time, before the switch to half-open, before the admission, inside
  the function, and returned.
\<close>

datatype call_pc = AtStart | AtCheck | AtPromote | AtAdmit | Running | Returned "error option"

fun thread_step :: "time \<Rightarrow> error option \<Rightarrow> Breaker \<Rightarrow> call_pc \<Rightarrow> Breaker \<times> call_pc" where
  "thread_step now res b AtStart = (b, if b_state b = StateOpen then AtCheck else AtAdmit)"
| "thread_step now res b AtCheck =
     (b, if now < b_nextTry b then Returned (Some ErrCircuitOpen) else AtPromote)"
| "thread_step now res b AtPromote =
     (if b_state b = StateOpen then b\<lparr>b_state := StateHalfOpen, b_halfOpenRequests := 0\<rparr> else b, AtAdmit)"
| "thread_step now res b AtAdmit =
     (if b_state b = StateHalfOpen then
        if bc_MaxRequests (b_config b) \<le> b_halfOpenRequests b then (b, Returned (Some ErrCircuitOpen))
        else (b\<lparr>b_halfOpenRequests := wrap64 (b_halfOpenRequests b + 1)\<rparr>, Running)
      else (b, Running))"
| "thread_step now res b Running =
     (case res of None \<Rightarrow> onSuccess b | Some _ \<Rightarrow> onFailure now b, Returned res)"
| "thread_step now res b (Returned r) = (b, Returned r)"

inductive breaker_reach :: "Breaker \<times> (nat \<Rightarrow> call_pc) \<Rightarrow> Breaker \<times> (nat \<Rightarrow> call_pc) \<Rightarrow> bool" for s where
  here: "breaker_reach s s"
| step: "breaker_reach s (b, p) \<Longrightarrow> thread_step now res b (p t) = (b', q) \<Longrightarrow> breaker_reach s (b', p(t := q))"

text \<open>Running a list of such steps: thread, clock, outcome.\<close>

fun run_threads ::
  "(nat \<times> time \<times> error option) list \<Rightarrow> Breaker \<times> (nat \<Rightarrow> call_pc) \<Rightarrow> Breaker \<times> (nat \<Rightarrow> call_pc)" where
  "run_threads [] s = s"
| "run_threads ((t, now, res) # acts) (b, p) =
     (case thread_step now res b (p t) of (b', q) \<Rightarrow> run_threads acts (b', p(t := q)))"


section \<open>Lemmas\<close>

lemma breaker_reach_trans: "breaker_reach s u \<Longrightarrow> breaker_reach r s \<Longrightarrow> breaker_reach r u"
  by (induction rule: breaker_reach.induct) (auto intro: breaker_reach.step)

lemma run_threads_reach: "breaker_reach s (run_threads acts s)"
proof (induction acts s rule: run_threads.induct)
  case (2 t now res acts b p)
  obtain b' q where s: "thread_step now res b (p t) = (b', q)" by fastforce
  have "breaker_reach (b, p) (b', p(t := q))" using breaker_reach.here s by (rule breaker_reach.step)
  with "2.IH" [OF s [symmetric]] show ?case by (auto simp: s intro: breaker_reach_trans)
qed (simp add: breaker_reach.here)

text \<open>A goroutine that runs alone does what \<open>Call\<close> says.\<close>

definition alone :: "time \<Rightarrow> error option \<Rightarrow> time \<Rightarrow> Breaker \<times> call_pc \<Rightarrow> Breaker \<times> call_pc" where
  "alone t1 res t2 bp =
     (case bp of (b, pc) \<Rightarrow> thread_step (if pc = Running then t2 else t1) res b pc)"

lemma config_fixed [simp]:
  "b_config (onSuccess b) = b_config b" "b_config (onFailure now b) = b_config b"
  by (simp_all add: onSuccess_def onFailure_def Let_def)

lemma config_thread_step: "thread_step now res b pc = (b', q) \<Longrightarrow> b_config b' = b_config b"
  by (cases pc) (auto split: if_splits option.splits)

text \<open>
  The limits of a configuration are Go \<^verbatim>\<open>int\<close>s; \<^verbatim>\<open>New\<close> replaces a maximum of zero, but not a negative one. The failure
  count of a breaker that is not closed may pass the maximum (late failures of calls that began before it opened) and
  so, in principle, wrap around; the count of a closed one cannot.
\<close>

definition int_limits :: "breaker_Config \<Rightarrow> bool" where
  "int_limits cfg \<longleftrightarrow> bc_MaxFailures cfg \<le> max_int64 \<and> bc_MaxRequests cfg \<le> max_int64"

definition breaker_inv :: "Breaker \<Rightarrow> bool" where
  "breaker_inv b \<longleftrightarrow> 0 \<le> b_halfOpenRequests b
     \<and> b_halfOpenRequests b \<le> max 0 (bc_MaxRequests (b_config b))
     \<and> (b_state b = StateClosed \<longrightarrow> 0 \<le> b_failures b \<and> b_failures b < bc_MaxFailures (b_config b))"

lemma breaker_inv_step:
  "breaker_inv b \<Longrightarrow> 0 < bc_MaxFailures (b_config b) \<Longrightarrow> int_limits (b_config b) \<Longrightarrow> thread_step now res b pc = (b', q) \<Longrightarrow>
     breaker_inv b'"
  by (cases pc)
    (auto simp: breaker_inv_def onSuccess_def onFailure_def Let_def int_limits_def wrap64_id min_int64_def
      split: if_splits option.splits)

lemma breaker_reach_inv:
  "breaker_reach s s' \<Longrightarrow> breaker_inv (fst s) \<Longrightarrow> 0 < bc_MaxFailures (b_config (fst s)) \<Longrightarrow> int_limits (b_config (fst s)) \<Longrightarrow>
     breaker_inv (fst s') \<and> b_config (fst s') = b_config (fst s)"
proof (induction rule: breaker_reach.induct)
  case (step b p now res t b' q)
  then show ?case using breaker_inv_step [of b now res "p t" b' q] config_thread_step [OF step.hyps(2)] by simp
qed simp

lemma breaker_New_inv: "0 \<le> bc_MaxFailures cfg \<Longrightarrow> breaker_inv (breaker_New cfg)"
  by (auto simp: breaker_inv_def breaker_New_def breaker_DefaultConfig_def Let_def)

lemma breaker_New_fields [simp]:
  "b_state (breaker_New cfg) = StateClosed" "b_failures (breaker_New cfg) = 0"
  "bc_MaxRequests (b_config (breaker_New cfg)) = bc_MaxRequests cfg"
  by (simp_all add: breaker_New_def Let_def)

lemma breaker_New_limits: "int_limits cfg \<Longrightarrow> int_limits (b_config (breaker_New cfg))"
  by (simp add: int_limits_def breaker_New_def breaker_DefaultConfig_def max_int64_def Let_def)

lemma default_limits [simp]: "int_limits breaker_DefaultConfig"
  by (simp add: int_limits_def breaker_DefaultConfig_def max_int64_def)

lemma breaker_New_MaxFailures: "0 \<le> bc_MaxFailures cfg \<Longrightarrow> 0 < bc_MaxFailures (b_config (breaker_New cfg))"
  by (simp add: breaker_New_def breaker_DefaultConfig_def Let_def)

text \<open>A sequence of calls one after the other.\<close>

definition after_call :: "Breaker \<Rightarrow> time \<times> error option \<times> time \<Rightarrow> Breaker" where
  "after_call b c = (case c of (t1, res, t2) \<Rightarrow> snd (snd (Call b t1 res t2)))"

abbreviation run_calls :: "Breaker \<Rightarrow> (time \<times> error option \<times> time) list \<Rightarrow> Breaker" where
  "run_calls \<equiv> foldl after_call"

definition failing :: "time \<times> error option \<times> time \<Rightarrow> bool" where
  "failing c \<longleftrightarrow> (case c of (t1, res, t2) \<Rightarrow> res \<noteq> None)"

lemma Call_closed_failure:
  "b_state b = StateClosed \<Longrightarrow> after_call b (t1, Some err, t2) = onFailure t2 b"
  by (simp add: after_call_def Call_def Let_def)

lemma config_after_call [simp]: "b_config (after_call b c) = b_config b"
  by (cases c) (auto simp: after_call_def Call_def Let_def split: option.splits)

lemma failure_below:
  assumes "0 \<le> b_failures b" and "int_limits (b_config b)" and "b_failures b + 1 < bc_MaxFailures (b_config b)"
  shows "onFailure now b = b\<lparr>b_failures := b_failures b + 1\<rparr>"
proof -
  have "wrap64 (b_failures b + 1) = b_failures b + 1"
    using assms by (intro wrap64_id) (simp_all add: int_limits_def min_int64_def)
  then show ?thesis using assms(3) by (simp add: onFailure_def Let_def)
qed

lemma failures_below:
  "b_state b = StateClosed \<Longrightarrow> 0 \<le> b_failures b \<Longrightarrow> int_limits (b_config b) \<Longrightarrow> list_all failing cs \<Longrightarrow>
     b_failures b + int (length cs) < bc_MaxFailures (b_config b) \<Longrightarrow>
     b_state (run_calls b cs) = StateClosed \<and> b_failures (run_calls b cs) = b_failures b + int (length cs)
     \<and> b_config (run_calls b cs) = b_config b"
proof (induction cs arbitrary: b)
  case (Cons c cs)
  obtain t1 err t2 where c: "c = (t1, Some err, t2)" using Cons.prems(4) by (cases c) (auto simp: failing_def)
  let ?b = "onFailure t2 b"
  have "b_state ?b = StateClosed" "b_failures ?b = b_failures b + 1"
    using Cons.prems(1,5) failure_below [OF Cons.prems(2,3), of t2] by simp_all
  then show ?case using Cons.IH [of ?b] Cons.prems Call_closed_failure [OF Cons.prems(1), of t1 err t2] by (simp add: c)
qed simp

lemma trips:
  assumes "b_state b = StateClosed" and "b_failures b = 0" and "int_limits (b_config b)" and "list_all failing (cs @ [(t1, res, t2)])"
    and "int (length (cs @ [(t1, res, t2)])) = bc_MaxFailures (b_config b)"
  shows "b_state (run_calls b (cs @ [(t1, res, t2)])) = StateOpen
    \<and> b_nextTry (run_calls b (cs @ [(t1, res, t2)])) = t2 + bc_Timeout (b_config b)
    \<and> b_config (run_calls b (cs @ [(t1, res, t2)])) = b_config b"
proof -
  obtain err where res: "res = Some err" using assms(4) by (auto simp: failing_def)
  have h: "b_state (run_calls b cs) = StateClosed" "b_failures (run_calls b cs) = int (length cs)"
    "b_config (run_calls b cs) = b_config b"
    using failures_below [OF assms(1), of cs] assms(2-5) by auto
  have "run_calls b (cs @ [(t1, res, t2)]) = onFailure t2 (run_calls b cs)"
    using Call_closed_failure [OF h(1)] res by simp
  moreover have "wrap64 (int (length cs) + 1) = int (length cs) + 1"
    using assms(3,5) by (intro wrap64_id) (simp_all add: int_limits_def min_int64_def)
  ultimately show ?thesis using h assms(5) by (simp add: onFailure_def Let_def)
qed

text \<open>With no request allowed in half-open state, a breaker that is not closed never runs anything.\<close>

definition shut :: "Breaker \<Rightarrow> bool" where
  "shut b \<longleftrightarrow> b_state b \<noteq> StateClosed \<and> bc_MaxRequests (b_config b) \<le> 0 \<and> 0 \<le> b_halfOpenRequests b"

lemma run_calls_halfOpen:
  "0 \<le> b_halfOpenRequests b \<Longrightarrow> int_limits (b_config b) \<Longrightarrow> 0 \<le> b_halfOpenRequests (run_calls b cs)"
proof (induction cs arbitrary: b)
  case (Cons c cs)
  obtain t1 res t2 where c: "c = (t1, res, t2)" by (cases c)
  have "0 \<le> b_halfOpenRequests (after_call b c)"
    using Cons.prems by (auto simp: after_call_def c Call_def Let_def onSuccess_def onFailure_def int_limits_def
        wrap64_id min_int64_def max_int64_def split: option.splits)
  with Cons.IH Cons.prems(2) show ?case by simp
qed simp

lemma shut_Call: "shut b \<Longrightarrow> \<exists>b'. Call b t1 res t2 = (False, Some ErrCircuitOpen, b') \<and> shut b'"
  by (cases "b_state b") (auto simp: shut_def Call_def Let_def)

lemma shut_run: "shut b \<Longrightarrow> shut (run_calls b cs)"
proof (induction cs arbitrary: b)
  case (Cons c cs)
  obtain t1 res t2 where c: "c = (t1, res, t2)" by (cases c)
  have "shut (after_call b c)" using shut_Call [OF Cons.prems, of t1 res t2] by (auto simp: after_call_def c)
  with Cons.IH show ?case by simp
qed simp

text \<open>A half-open breaker with its requests used up and nothing in flight stays so.\<close>

definition wedged :: "Breaker \<times> (nat \<Rightarrow> call_pc) \<Rightarrow> bool" where
  "wedged s \<longleftrightarrow> (case s of (b, p) \<Rightarrow> b_state b = StateHalfOpen
     \<and> bc_MaxRequests (b_config b) \<le> b_halfOpenRequests b \<and> (\<forall>t. p t \<noteq> Running))"

lemma wedged_step: "wedged (b, p) \<Longrightarrow> thread_step now res b (p t) = (b', q) \<Longrightarrow> wedged (b', p(t := q))"
  by (cases "p t") (auto simp: wedged_def split: if_splits)

lemma wedged_forever: "breaker_reach s s' \<Longrightarrow> wedged s \<Longrightarrow> wedged s'"
  by (induction rule: breaker_reach.induct) (auto intro: wedged_step)


section \<open>Properties\<close>

text \<open>
  \<^verbatim>\<open>Call\<close> undisturbed is the five steps of its interleaved form: a goroutine that runs
  alone through the lock regions returns the error of \<open>Call\<close> and leaves its breaker.
\<close>

lemma call_is_its_steps:
  "(alone t1 res t2 ^^ 5) (b, AtStart) = (snd (snd (Call b t1 res t2)), Returned (fst (snd (Call b t1 res t2))))"
  by (cases "b_state b"; cases "t1 < b_nextTry b"; cases "bc_MaxRequests (b_config b) \<le> b_halfOpenRequests b";
      cases "bc_MaxRequests (b_config b) \<le> 0")
     (simp_all add: eval_nat_numeral alone_def Call_def Let_def)



text \<open>
  The breaker trips: starting from \<^verbatim>\<open>New\<close>, as many failing calls in a row as the maximum
  allows open the circuit for the timeout after the last one, and until then every call is
  refused without running its function.
\<close>

lemma breaker_trips:
  assumes "0 \<le> bc_MaxFailures cfg" and "int_limits cfg" and "list_all failing (cs @ [(t1, res, t2)])"
    and "int (length (cs @ [(t1, res, t2)])) = bc_MaxFailures (b_config (breaker_New cfg))"
    and "t < t2 + bc_Timeout (b_config (breaker_New cfg))"
  shows "Call (run_calls (breaker_New cfg) (cs @ [(t1, res, t2)])) t r u =
    (False, Some ErrCircuitOpen, run_calls (breaker_New cfg) (cs @ [(t1, res, t2)]))"
  using trips [OF breaker_New_fields(1,2) breaker_New_limits [OF assms(2)] assms(3,4)] assms(5) by (simp add: Call_def Let_def)

definition failing_calls :: "nat \<Rightarrow> (time \<times> error option \<times> time) list" where
  "failing_calls n = replicate n (0, Some (ErrPlain ''down''), 0)"

text \<open>
  (C33) Recovery: when the time has come and at least one request is allowed in half-open
  state, the next call runs its function; a success closes the circuit and clears the
  count, and a failure that leaves the count (a 64-bit integer) at the maximum or beyond opens it for another timeout.
\<close>

theorem breaker_probe:
  assumes "b_state b = StateOpen" and "b_nextTry b \<le> t1" and "1 \<le> bc_MaxRequests (b_config b)"
  shows "(\<exists>b'. Call b t1 None t2 = (True, None, b') \<and> b_state b' = StateClosed \<and> b_failures b' = 0)
    \<and> (bc_MaxFailures (b_config b) \<le> wrap64 (b_failures b + 1) \<longrightarrow>
        (\<exists>b'. Call b t1 (Some err) t2 = (True, Some err, b') \<and> b_state b' = StateOpen
          \<and> b_nextTry b' = t2 + bc_Timeout (b_config b)))"
  using assms by (auto simp: Call_def Let_def onSuccess_def onFailure_def)

theorem breaker_probe_witness:
  "\<exists>b'. Call \<lparr>b_config = breaker_DefaultConfig, b_state = StateOpen, b_failures = 5, b_nextTry = 10,
        b_halfOpenRequests = 0\<rparr> 10 None 11 = (True, None, b') \<and> b_state b' = StateClosed"
  using breaker_probe [of "\<lparr>b_config = breaker_DefaultConfig, b_state = StateOpen, b_failures = 5, b_nextTry = 10,
        b_halfOpenRequests = 0\<rparr>" 10 11]
  by (auto simp: breaker_DefaultConfig_def)

text \<open>
  A configuration that leaves \<^verbatim>\<open>MaxRequests\<close> at zero, as the Praxis adapter does, never
  recovers: once the maximum of consecutive failures is reached, no later call, at any time
  and in any number, runs its function again.
\<close>

lemma zero_MaxRequests_never_recovers:
  assumes "bc_MaxRequests cfg \<le> 0" and "0 \<le> bc_MaxFailures cfg" and "int_limits cfg" and "list_all failing (cs @ [c])"
    and "int (length (cs @ [c])) = bc_MaxFailures (b_config (breaker_New cfg))"
  shows "fst (Call (run_calls (breaker_New cfg) ((cs @ [c]) @ later)) t1 res t2) = False"
proof -
  obtain u1 r u2 where c: "c = (u1, r, u2)" by (cases c)
  have t: "b_state (run_calls (breaker_New cfg) (cs @ [c])) = StateOpen"
    "b_config (run_calls (breaker_New cfg) (cs @ [c])) = b_config (breaker_New cfg)"
    using trips [OF breaker_New_fields(1,2) breaker_New_limits [OF assms(3)], of cs u1 r u2] assms(4,5) c by auto
  have "0 \<le> b_halfOpenRequests (run_calls (breaker_New cfg) (cs @ [c]))"
    by (rule run_calls_halfOpen [OF _ breaker_New_limits [OF assms(3)]]) (simp add: breaker_New_def Let_def)
  with t assms(1) have "shut (run_calls (breaker_New cfg) (cs @ [c]))" by (simp add: shut_def)
  from shut_Call [OF shut_run [OF this, of later], of t1 res t2] show ?thesis by auto
qed

text \<open>
  (C8) A late success wedges the breaker: with the default configuration, some interleaving in
  which a call that started before the circuit opened succeeds after it leads to a state
  in which no goroutine is inside the function and from which, whatever happens and
  whenever, none ever gets there again.
\<close>

theorem late_success_wedges:
  "\<exists>s. breaker_reach (breaker_New breaker_DefaultConfig, \<lambda>_. AtStart) s
     \<and> {u. breaker_reach s u} \<subseteq> {u. \<forall>t. snd u t \<noteq> Running}"
proof -
  let ?e = "Some (ErrPlain ''down'')"
  let ?fail = "\<lambda>t. [(t, 0, None), (t, 0, None), (t, 0, ?e)]"
  let ?acts = "[(0, 0, None), (0, 0, None)] @ ?fail 1 @ ?fail 2 @ ?fail 3 @ ?fail 4 @ ?fail 5 @ [(0, 1, None)]
     @ [(6, 60 * second, None), (6, 60 * second, None), (6, 60 * second, None), (6, 60 * second, None), (6, 61 * second, ?e)]"
  let ?s = "run_threads ?acts (breaker_New breaker_DefaultConfig, \<lambda>_. AtStart)"
  have "wedged ?s"
    by (simp add: wedged_def breaker_New_def breaker_DefaultConfig_def onFailure_def onSuccess_def Let_def wrap64_def)
  then have "\<forall>t. snd u t \<noteq> Running" if "breaker_reach ?s u" for u
    using wedged_forever [OF that] by (auto simp: wedged_def split: prod.splits)
  moreover have "breaker_reach (breaker_New breaker_DefaultConfig, \<lambda>_. AtStart) ?s" by (rule run_threads_reach)
  ultimately show ?thesis by blast
qed

end
