(* ===== verification/Evaluation_Worker.thy ===== *)
theory Evaluation_Worker
  imports Evaluate_Laws
begin

text \<open>
  \<^verbatim>\<open>internal/worker/worker.go\<close>: the background loop that runs the evaluation pass on a
  tick. \<^verbatim>\<open>Start\<close> runs under the mutex and is one step; \<^verbatim>\<open>Stop\<close> is the
  sequence of its three parts, since the loop and other callers run between them; the loop
  goroutine is a program counter. A tick has a beginning and an end, so that a
  cancellation can fall between the two. The state holds every loop goroutine ever
  spawned, so that there is never more than one is a theorem, and every caller of
  \<^verbatim>\<open>Stop\<close>.
\<close>

section \<open>One tick\<close>

datatype log_entry =
    LogFailed error
  | LogCompleted nat nat nat nat "duration option"
  | LogShuttingDown

definition zero_options :: EvaluateOptions where
  "zero_options = \<lparr>eo_Limit = 0, eo_SignalLookback = 0\<rparr>"

text \<open>The two clock readings of a tick only appear in the logged duration.\<close>

definition tick ::
  "runtime \<Rightarrow> 's Evaluator \<Rightarrow> time \<Rightarrow> time \<Rightarrow> 's world \<Rightarrow> log_entry \<times> 's world" where
  "tick rt e t_start t_end w =
    (let start = t_start in
     case Evaluate rt e zero_options w of
       ((res, Some err), w) \<Rightarrow> (LogFailed err, w)
     | ((res, None), w) \<Rightarrow>
        (LogCompleted (r_Evaluated res) (r_Updated res) (length (r_Interventions res))
           (length (r_Decisions res)) (Some (time_Sub t_end start)), w))"

definition RunOnce ::
  "runtime \<Rightarrow> 's Evaluator \<Rightarrow> 's world \<Rightarrow> (error option \<times> log_entry list) \<times> 's world" where
  "RunOnce rt e w =
    (case Evaluate rt e zero_options w of
       ((res, Some err), w) \<Rightarrow> ((Some (ErrWrap ''worker: evaluate'' err), []), w)
     | ((res, None), w) \<Rightarrow>
        ((None, [LogCompleted (r_Evaluated res) (r_Updated res) (length (r_Interventions res))
           (length (r_Decisions res)) None]), w))"


section \<open>The worker and its goroutines\<close>

record 's Worker =
  wk_evaluator :: "'s Evaluator"
  wk_interval :: duration
  wk_cancel :: bool
  wk_wg :: nat

definition worker_New :: "'s Evaluator \<Rightarrow> duration \<Rightarrow> 's Worker" where
  "worker_New evaluator interval =
     \<lparr>wk_evaluator = evaluator, wk_interval = interval, wk_cancel = False, wk_wg = 0\<rparr>"

text \<open>
  Program points of the loop: before the ticker is made, inside a tick (with whether the
  context was done when it began), at the \<^verbatim>\<open>select\<close>, returned, and the panic
  of \<^verbatim>\<open>time.NewTicker\<close> on an interval that is not positive. Program points of
  \<^verbatim>\<open>Stop\<close>: before it, with its copy of \<^verbatim>\<open>cancel\<close>, at
  \<^verbatim>\<open>wg.Wait\<close>, returned.
\<close>

datatype loop_pc = LEnter | LTicking bool | LSelect | LExited | LPanic

datatype stop_pc = SIdle | SCancel bool | SWaiting | SReturned

record 's wsystem =
  sy_worker :: "'s Worker"
  sy_done :: bool
  sy_loops :: "loop_pc list"
  sy_stops :: "nat \<Rightarrow> stop_pc"
  sy_world :: "'s world"
  sy_log :: "log_entry list"

definition system_init :: "'s Worker \<Rightarrow> 's world \<Rightarrow> 's wsystem" where
  "system_init wk w = \<lparr>sy_worker = wk, sy_done = False, sy_loops = [], sy_stops = (\<lambda>_. SIdle),
     sy_world = w, sy_log = []\<rparr>"

text \<open>\<open>ctx_done\<close> says whether the caller's context is done already; the derived one is then too.\<close>

definition Start :: "bool \<Rightarrow> 's wsystem \<Rightarrow> 's wsystem" where
  "Start ctx_done s =
    (if wk_cancel (sy_worker s) then s
     else s\<lparr>sy_worker := (sy_worker s)\<lparr>wk_cancel := True, wk_wg := Suc (wk_wg (sy_worker s))\<rparr>,
            sy_done := ctx_done, sy_loops := sy_loops s @ [LEnter]\<rparr>)"

definition stop_step :: "nat \<Rightarrow> 's wsystem \<Rightarrow> 's wsystem option" where
  "stop_step i s = (case sy_stops s i of
       SIdle \<Rightarrow> Some (s\<lparr>sy_stops := (sy_stops s)(i := SCancel (wk_cancel (sy_worker s)))\<rparr>)
     | SCancel c \<Rightarrow> Some (s\<lparr>sy_stops := (sy_stops s)(i := SWaiting), sy_done := sy_done s \<or> c\<rparr>)
     | SWaiting \<Rightarrow> (if wk_wg (sy_worker s) = 0
         then Some (s\<lparr>sy_stops := (sy_stops s)(i := SReturned)\<rparr>) else None)
     | SReturned \<Rightarrow> None)"

text \<open>
  A step of loop goroutine \<open>j\<close>. \<open>fired\<close> is the choice of the \<^verbatim>\<open>select\<close>: the ticker's
  channel (which may be ready at any time) or \<^verbatim>\<open>ctx.Done()\<close> (which is ready once the
  context is done).
\<close>

definition loop_step ::
  "bool \<Rightarrow> runtime \<Rightarrow> time \<Rightarrow> time \<Rightarrow> nat \<Rightarrow> 's wsystem \<Rightarrow> 's wsystem option" where
  "loop_step fired rt t_start t_end j s =
    (let wk = sy_worker s; loops = sy_loops s in
     if length loops \<le> j then None
     else case loops ! j of
       LEnter \<Rightarrow> Some (s\<lparr>sy_loops := loops[j := if 0 < wk_interval wk then LTicking (sy_done s) else LPanic]\<rparr>)
     | LTicking _ \<Rightarrow>
         (case tick rt (wk_evaluator wk) t_start t_end (sy_world s) of (entry, w) \<Rightarrow>
            Some (s\<lparr>sy_loops := loops[j := LSelect], sy_world := w, sy_log := sy_log s @ [entry]\<rparr>))
     | LSelect \<Rightarrow>
         (if fired then Some (s\<lparr>sy_loops := loops[j := LTicking (sy_done s)]\<rparr>)
          else if sy_done s then
            Some (s\<lparr>sy_loops := loops[j := LExited], sy_log := sy_log s @ [LogShuttingDown],
                    sy_worker := wk\<lparr>wk_wg := wk_wg wk - 1\<rparr>\<rparr>)
          else None)
     | LExited \<Rightarrow> None
     | LPanic \<Rightarrow> None)"

text \<open>
  What a context tells a tick: once it is done it answers with an error at every iteration,
  and it answers with none while it is not done.
\<close>

definition ctx_agrees :: "runtime \<Rightarrow> nat \<Rightarrow> 's wsystem \<Rightarrow> bool" where
  "ctx_agrees rt j s \<longleftrightarrow> (sy_loops s ! j = LTicking True \<longrightarrow> rt_ctxErr rt 0 \<noteq> None)
     \<and> (\<not> sy_done s \<longrightarrow> (\<forall>i. rt_ctxErr rt i = None))"

inductive worker_step :: "'s wsystem \<Rightarrow> 's wsystem \<Rightarrow> bool" where
  start: "worker_step s (Start ctx_done s)"
| ctx_cancelled: "sy_loops s \<noteq> [] \<Longrightarrow> worker_step s (s\<lparr>sy_done := True\<rparr>)"
| stop: "stop_step i s = Some s' \<Longrightarrow> worker_step s s'"
| loop: "ctx_agrees rt j s \<Longrightarrow> loop_step fired rt t1 t2 j s = Some s' \<Longrightarrow> worker_step s s'"

inductive worker_reach :: "'s wsystem \<Rightarrow> 's wsystem \<Rightarrow> bool" for s where
  here: "worker_reach s s"
| step: "worker_reach s s' \<Longrightarrow> worker_step s' s'' \<Longrightarrow> worker_reach s s''"


section \<open>Lemmas\<close>

lemma worker_reach_trans: "worker_reach s u \<Longrightarrow> worker_reach r s \<Longrightarrow> worker_reach r u"
  by (induction rule: worker_reach.induct) (auto intro: worker_reach.step)

lemma worker_reach_stop: "worker_reach r s \<Longrightarrow> stop_step i s = Some s' \<Longrightarrow> worker_reach r s'"
  by (blast intro: worker_reach.step worker_step.stop)

lemma worker_reach_loop:
  "worker_reach r s \<Longrightarrow> ctx_agrees rt j s \<Longrightarrow> loop_step fired rt t1 t2 j s = Some s' \<Longrightarrow> worker_reach r s'"
  by (blast intro: worker_reach.step worker_step.loop)

text \<open>What the lifecycle keeps: one loop at most, counted by the wait group until it has returned.\<close>

definition lifecycle_inv :: "'s wsystem \<Rightarrow> bool" where
  "lifecycle_inv s \<longleftrightarrow> (case sy_loops s of
       [] \<Rightarrow> \<not> wk_cancel (sy_worker s) \<and> wk_wg (sy_worker s) = 0
     | [pc] \<Rightarrow> wk_cancel (sy_worker s) \<and> wk_wg (sy_worker s) = (if pc = LExited then 0 else 1)
         \<and> (pc = LExited \<or> pc = LTicking True \<longrightarrow> sy_done s) \<and> (pc = LPanic \<longrightarrow> wk_interval (sy_worker s) \<le> 0)
     | _ \<Rightarrow> False)"

lemma stop_step_parts:
  "stop_step i s = Some s' \<Longrightarrow> sy_worker s' = sy_worker s \<and> sy_loops s' = sy_loops s \<and> (sy_done s \<longrightarrow> sy_done s')
     \<and> sy_world s' = sy_world s"
  by (cases "sy_stops s i") (auto simp: stop_step_def split: if_splits)

lemma lifecycle_loops:
  assumes "lifecycle_inv s"
  obtains "sy_loops s = []" "\<not> wk_cancel (sy_worker s)" "wk_wg (sy_worker s) = 0"
  | pc where "sy_loops s = [pc]" "wk_cancel (sy_worker s)"
      "wk_wg (sy_worker s) = (if pc = LExited then 0 else 1)" "pc = LExited \<or> pc = LTicking True \<longrightarrow> sy_done s"
      "pc = LPanic \<longrightarrow> wk_interval (sy_worker s) \<le> 0"
  using assms by (auto simp: lifecycle_inv_def split: list.splits)

lemma lifecycle_step: "worker_step s s' \<Longrightarrow> lifecycle_inv s \<Longrightarrow> lifecycle_inv s'"
proof (induction rule: worker_step.induct)
  case (start s ctx_done)
  from start show ?case by (cases rule: lifecycle_loops) (simp_all add: lifecycle_inv_def Start_def)
next
  case (ctx_cancelled s)
  from ctx_cancelled(2) show ?case by (cases rule: lifecycle_loops) (simp_all add: lifecycle_inv_def)
next
  case (stop i s s')
  from stop(2) show ?case using stop_step_parts [OF stop(1)]
    by (cases rule: lifecycle_loops) (simp_all add: lifecycle_inv_def)
next
  case (loop rt j s fired t1 t2 s')
  then have j: "j < length (sy_loops s)" by (auto simp: loop_step_def Let_def split: if_splits)
  obtain entry w where t: "tick rt (wk_evaluator (sy_worker s)) t1 t2 (sy_world s) = (entry, w)" by fastforce
  from loop(3) show ?case
  proof (cases rule: lifecycle_loops)
    case (2 pc)
    then show ?thesis using loop.hyps(2) j t
      by (cases pc) (auto simp: lifecycle_inv_def loop_step_def Let_def split: if_splits)
  qed (use j in simp)
qed

lemma lifecycle_reach: "worker_reach s s' \<Longrightarrow> lifecycle_inv s \<Longrightarrow> lifecycle_inv s'"
  by (induction rule: worker_reach.induct) (auto dest: lifecycle_step)

lemma lifecycle_init: "lifecycle_inv (system_init (worker_New e d) w)"
  by (simp add: lifecycle_inv_def system_init_def worker_New_def)

lemma worker_fixed:
  "worker_step s s' \<Longrightarrow> wk_interval (sy_worker s') = wk_interval (sy_worker s)
     \<and> wk_evaluator (sy_worker s') = wk_evaluator (sy_worker s)
     \<and> (wk_cancel (sy_worker s) \<longrightarrow> wk_cancel (sy_worker s') \<and> (sy_done s \<longrightarrow> sy_done s'))"
proof (induction rule: worker_step.induct)
  case (stop i s s')
  then show ?case using stop_step_parts [of i s s'] by simp
next
  case (loop rt j s fired t1 t2 s')
  then show ?case
    by (cases "sy_loops s ! j") (auto simp: loop_step_def Let_def split: if_splits prod.splits)
qed (simp_all add: Start_def)

lemma worker_fixed_reach:
  "worker_reach s s' \<Longrightarrow> wk_interval (sy_worker s') = wk_interval (sy_worker s)
     \<and> (wk_cancel (sy_worker s) \<longrightarrow> wk_cancel (sy_worker s') \<and> (sy_done s \<longrightarrow> sy_done s'))"
  by (induction rule: worker_reach.induct) (auto dest: worker_fixed)

text \<open>After the loop has returned nothing happens to the world.\<close>

lemma exited_step:
  "worker_step s s' \<Longrightarrow> wk_cancel (sy_worker s) \<Longrightarrow> sy_loops s = [LExited] \<Longrightarrow>
     sy_loops s' = [LExited] \<and> sy_world s' = sy_world s"
proof (induction rule: worker_step.induct)
  case (stop i s s')
  then show ?case using stop_step_parts [of i s s'] by simp
next
  case (loop rt j s fired t1 t2 s')
  then show ?case by (cases j) (auto simp: loop_step_def Let_def split: if_splits)
qed (simp_all add: Start_def)

lemma exited_reach:
  "worker_reach s s' \<Longrightarrow> wk_cancel (sy_worker s) \<Longrightarrow> sy_loops s = [LExited] \<Longrightarrow>
     sy_loops s' = [LExited] \<and> sy_world s' = sy_world s"
  by (induction rule: worker_reach.induct) (use exited_step worker_fixed_reach in metis)+

text \<open>Program points of \<open>Stop\<close> change only by its own steps.\<close>

lemma stops_step:
  "worker_step s s' \<Longrightarrow> sy_stops s' i = sy_stops s i
     \<or> stop_step i s = Some s'"
proof (induction rule: worker_step.induct)
  case (stop i' s s')
  then show ?case by (cases "sy_stops s i'"; cases "i' = i") (auto simp: stop_step_def split: if_splits)
next
  case (loop rt j s fired t1 t2 s')
  then show ?case
    by (cases "sy_loops s ! j") (auto simp: loop_step_def Let_def split: if_splits prod.splits)
qed (simp_all add: Start_def)

text \<open>A \<open>Stop\<close> that has returned after the worker was started has seen the loop return.\<close>

lemma stop_returned_step:
  assumes "worker_step s s'" and "lifecycle_inv s" and "wk_cancel (sy_worker s)"
    and "sy_stops s i = SReturned \<longrightarrow> sy_loops s = [LExited]"
  shows "sy_stops s' i = SReturned \<longrightarrow> sy_loops s' = [LExited]"
proof
  assume r: "sy_stops s' i = SReturned"
  from stops_step [OF assms(1), of i] show "sy_loops s' = [LExited]"
  proof
    assume "sy_stops s' i = sy_stops s i"
    with r assms exited_step show ?thesis by metis
  next
    assume st: "stop_step i s = Some s'"
    with r have "wk_wg (sy_worker s) = 0"
      by (cases "sy_stops s i") (auto simp: stop_step_def split: if_splits)
    with assms(2,3) have "sy_loops s = [LExited]" by (cases rule: lifecycle_loops) (auto split: if_splits)
    with stop_step_parts [OF st] show ?thesis by simp
  qed
qed

lemma stop_returned_reach:
  assumes "worker_reach s s'" and "lifecycle_inv s" and "wk_cancel (sy_worker s)" and "sy_stops s i \<noteq> SReturned"
  shows "sy_stops s' i = SReturned \<longrightarrow> sy_loops s' = [LExited]"
  using assms
proof (induction rule: worker_reach.induct)
  case (step s' s'')
  then show ?case
    using stop_returned_step [of s' s'' i] lifecycle_reach [of s s'] worker_fixed_reach [of s s'] by blast
qed simp

text \<open>A pass whose context is done before its first iteration does not touch the store.\<close>

lemma Evaluate_loop_done_store:
  "rt_ctxErr rt i \<noteq> None \<Longrightarrow> w_store (snd (Evaluate_loop rt e opts now i cs res w)) = w_store w"
  by (cases cs) auto

lemma Evaluate_done_store: "rt_ctxErr rt 0 \<noteq> None \<Longrightarrow> w_store (snd (Evaluate rt e opts w)) = w_store w"
  by (auto simp: Evaluate_def Let_def IncEvaluationsRun_def emit_def Evaluate_loop_done_store split: sum.splits)

lemma tick_done_store: "rt_ctxErr rt 0 \<noteq> None \<Longrightarrow> w_store (snd (tick rt e t1 t2 w)) = w_store w"
  using Evaluate_done_store [of rt e zero_options w]
  by (auto simp: tick_def Let_def split: prod.splits option.splits)

definition quiet :: "'s wsystem \<Rightarrow> bool" where
  "quiet s \<longleftrightarrow> wk_cancel (sy_worker s) \<and> sy_done s \<and> LTicking False \<notin> set (sy_loops s)"

lemma quiet_step:
  "worker_step s s' \<Longrightarrow> quiet s \<Longrightarrow> quiet s' \<and> w_store (sy_world s') = w_store (sy_world s)"
proof (induction rule: worker_step.induct)
  case (stop i s s')
  then show ?case using stop_step_parts [of i s s'] by (simp add: quiet_def)
next
  case (loop rt j s fired t1 t2 s')
  let ?t = "tick rt (wk_evaluator (sy_worker s)) t1 t2 (sy_world s)"
  have j: "j < length (sy_loops s)" using loop(2) by (auto simp: loop_step_def Let_def split: if_splits)
  have set: "x \<in> set ((sy_loops s)[j := y]) \<Longrightarrow> x = y \<or> x \<in> set (sy_loops s)" for x y
    using set_update_subset_insert [of "sy_loops s" j y] by blast
  have "w_store (snd ?t) = w_store (sy_world s)" if "sy_loops s ! j = LTicking b" for b
  proof (rule tick_done_store)
    have "b" using that loop(3) j nth_mem [OF j] by (cases b) (auto simp: quiet_def)
    with loop(1) that show "rt_ctxErr rt 0 \<noteq> None" by (simp add: ctx_agrees_def)
  qed
  with loop(2,3) j show ?case
    by (cases "sy_loops s ! j")
      (auto simp: quiet_def loop_step_def Let_def dest!: set split: if_splits prod.splits)
qed (simp_all add: Start_def quiet_def)

lemma quiet_reach: "worker_reach s s' \<Longrightarrow> quiet s \<Longrightarrow> quiet s' \<and> w_store (sy_world s') = w_store (sy_world s)"
  by (induction rule: worker_reach.induct) (use quiet_step in metis)+

text \<open>Once the context is done the loop can return, whatever it is doing.\<close>

lemma exit_from_select:
  assumes "worker_reach r s" and "sy_loops s = [LSelect]" and "sy_done s"
  shows "\<exists>s'. worker_reach r s' \<and> sy_loops s' = [LExited] \<and> sy_stops s' = sy_stops s \<and> wk_wg (sy_worker s') = wk_wg (sy_worker s) - 1"
proof (intro exI conjI)
  let ?rt = "\<lparr>rt_uuid = (\<lambda>_. 0), rt_str = canonical_text, rt_printable = (\<lambda>_. True), rt_ctxErr = (\<lambda>_. None)\<rparr>"
  let ?s = "s\<lparr>sy_loops := [LExited], sy_log := sy_log s @ [LogShuttingDown],
      sy_worker := (sy_worker s)\<lparr>wk_wg := wk_wg (sy_worker s) - 1\<rparr>\<rparr>"
  have "ctx_agrees ?rt 0 s" using assms by (simp add: ctx_agrees_def)
  moreover have "loop_step False ?rt 0 0 0 s = Some ?s" using assms by (simp add: loop_step_def Let_def)
  ultimately show "worker_reach r ?s" using assms(1) worker_reach_loop by blast
qed simp_all

lemma exit_from_tick:
  assumes "worker_reach r s" and "sy_loops s = [LTicking b]" and "sy_done s"
  shows "\<exists>s'. worker_reach r s' \<and> sy_loops s' = [LExited] \<and> sy_stops s' = sy_stops s \<and> wk_wg (sy_worker s') = wk_wg (sy_worker s) - 1"
proof -
  let ?rt = "\<lparr>rt_uuid = (\<lambda>_. 0), rt_str = canonical_text, rt_printable = (\<lambda>_. True),
      rt_ctxErr = (\<lambda>_. Some (ErrPlain ''context canceled''))\<rparr>"
  obtain entry w where t: "tick ?rt (wk_evaluator (sy_worker s)) 0 0 (sy_world s) = (entry, w)" by fastforce
  let ?s = "s\<lparr>sy_loops := [LSelect], sy_world := w, sy_log := sy_log s @ [entry]\<rparr>"
  have "ctx_agrees ?rt 0 s" using assms by (simp add: ctx_agrees_def)
  moreover have "loop_step False ?rt 0 0 0 s = Some ?s" using assms t by (simp add: loop_step_def Let_def)
  ultimately have "worker_reach r ?s" using assms(1) worker_reach_loop by blast
  from exit_from_select [OF this] assms(3) show ?thesis by simp
qed

lemma exit_from_any:
  assumes "worker_reach r s" and "lifecycle_inv s" and "wk_cancel (sy_worker s)" and "sy_done s"
    and "0 < wk_interval (sy_worker s)"
  shows "\<exists>s'. worker_reach r s' \<and> sy_loops s' = [LExited] \<and> sy_stops s' = sy_stops s \<and> wk_wg (sy_worker s') = 0"
proof -
  from assms(2,3) obtain pc where pc: "sy_loops s = [pc]" "wk_wg (sy_worker s) = (if pc = LExited then 0 else 1)"
    "pc = LPanic \<longrightarrow> wk_interval (sy_worker s) \<le> 0"
    by (cases rule: lifecycle_loops) auto
  show ?thesis
  proof (cases pc)
    case LEnter
    let ?s = "s\<lparr>sy_loops := [LTicking True]\<rparr>"
    let ?rt = "\<lparr>rt_uuid = (\<lambda>_. 0), rt_str = canonical_text, rt_printable = (\<lambda>_. True), rt_ctxErr = (\<lambda>_. None)\<rparr>"
    have "ctx_agrees ?rt 0 s" using assms(4) pc LEnter by (simp add: ctx_agrees_def)
    moreover have "loop_step False ?rt 0 0 0 s = Some ?s"
      using assms(4,5) pc LEnter by (simp add: loop_step_def Let_def)
    ultimately have "worker_reach r ?s" using assms(1) worker_reach_loop by blast
    from exit_from_tick [OF this] show ?thesis using assms(4) pc LEnter by simp
  next
    case (LTicking b)
    then show ?thesis using exit_from_tick [OF assms(1)] assms(4) pc by simp
  next
    case LSelect
    then show ?thesis using exit_from_select [OF assms(1)] assms(4) pc by simp
  next
    case LExited
    then show ?thesis using assms(1) pc by auto
  next
    case LPanic
    then show ?thesis using assms(5) pc by simp
  qed
qed

lemma return_from_wait:
  assumes "worker_reach r s" and "sy_stops s i = SWaiting \<or> sy_stops s i = SReturned" and "wk_wg (sy_worker s) = 0"
  shows "\<exists>s'. worker_reach r s' \<and> sy_stops s' i = SReturned"
proof (cases "sy_stops s i = SReturned")
  case True
  with assms(1) show ?thesis by blast
next
  case False
  let ?s = "s\<lparr>sy_stops := (sy_stops s)(i := SReturned)\<rparr>"
  have "stop_step i s = Some ?s" using assms False by (auto simp: stop_step_def)
  then have "worker_reach r ?s" using assms(1) worker_reach_stop by blast
  then show ?thesis by (intro exI [of _ ?s]) simp
qed

lemma stop_to_wait:
  assumes "worker_reach r s" and "wk_cancel (sy_worker s)"
    and "sy_done s \<or> sy_stops s i = SIdle \<or> sy_stops s i = SCancel True"
  shows "\<exists>s'. worker_reach r s' \<and> sy_done s' \<and> sy_worker s' = sy_worker s \<and> (sy_stops s' i = SWaiting \<or> sy_stops s' i = SReturned)"
proof -
  have from_cancel: "\<exists>s'. worker_reach r s' \<and> sy_done s' \<and> sy_worker s' = sy_worker t \<and> (sy_stops s' i = SWaiting \<or> sy_stops s' i = SReturned)"
    if "worker_reach r t" "sy_stops t i = SCancel c" "sy_done t \<or> c" for t c
  proof (intro exI conjI)
    show "worker_reach r (t\<lparr>sy_stops := (sy_stops t)(i := SWaiting), sy_done := sy_done t \<or> c\<rparr>)"
      using that worker_reach_stop [OF that(1), of i] by (simp add: stop_step_def)
  qed (use that in simp_all)
  show ?thesis
  proof (cases "sy_stops s i")
    case SIdle
    let ?t = "s\<lparr>sy_stops := (sy_stops s)(i := SCancel True)\<rparr>"
    have "worker_reach r ?t" using SIdle assms(2) worker_reach_stop [OF assms(1), of i] by (simp add: stop_step_def)
    from from_cancel [OF this, of True] show ?thesis by simp
  next
    case (SCancel c)
    then show ?thesis using from_cancel [OF assms(1)] assms(3) by auto
  qed (use assms in auto)
qed


lemma stop_can_return:
  assumes "worker_reach (system_init (worker_New e d) w) s" and "0 < d" and "wk_cancel (sy_worker s)"
    and "sy_done s \<or> sy_stops s i = SIdle \<or> sy_stops s i = SCancel True"
  shows "\<exists>s'. worker_reach s s' \<and> sy_stops s' i = SReturned"
proof -
  have inv: "lifecycle_inv s" using assms(1) lifecycle_init by (rule lifecycle_reach)
  obtain s1 where s1: "worker_reach s s1" "sy_done s1" "sy_worker s1 = sy_worker s"
    "sy_stops s1 i = SWaiting \<or> sy_stops s1 i = SReturned"
    using stop_to_wait [OF worker_reach.here assms(3,4)] by blast
  have "wk_interval (sy_worker s) = d"
    using worker_fixed_reach [OF assms(1)] by (simp add: system_init_def worker_New_def)
  then obtain s2 where s2: "worker_reach s s2" "sy_stops s2 = sy_stops s1" "wk_wg (sy_worker s2) = 0"
    using exit_from_any [OF s1(1) lifecycle_reach [OF s1(1) inv]] s1(2,3) assms(2,3) by auto
  show ?thesis using return_from_wait [OF s2(1)] s1(4) s2(2,3) by simp
qed


section \<open>Properties\<close>

text \<open>
  However calls of \<open>Start\<close> and \<open>Stop\<close> interleave there is at most one loop goroutine, and the
  wait group counts the loops that have not returned.
\<close>

lemma single_loop:
  assumes "worker_reach (system_init (worker_New e d) w) s"
  shows "length (sy_loops s) \<le> 1
    \<and> wk_wg (sy_worker s) = length (filter (\<lambda>pc. pc \<noteq> LExited) (sy_loops s))
    \<and> (wk_cancel (sy_worker s) \<longleftrightarrow> sy_loops s \<noteq> [])"
  using lifecycle_reach [OF assms lifecycle_init] by (cases rule: lifecycle_loops) auto

text \<open>
  (C34) Stop is final. In every interleaving of any number of goroutines calling \<open>Start\<close> and
  \<open>Stop\<close> on a new worker, when a \<open>Stop\<close> that began after the worker was started has
  returned, the one loop goroutine has returned, its context is done, and no later step
  of anybody, further calls of \<open>Start\<close> included, brings it back or touches the world: no tick is
  running and none will run.
\<close>

theorem stop_is_final:
  assumes "worker_reach (system_init (worker_New e d) w) s"
    and "wk_cancel (sy_worker s)" and "sy_stops s i = SIdle"
    and "worker_reach s s'" and "sy_stops s' i = SReturned"
    and "worker_reach s' s''"
  shows "sy_loops s'' = [LExited] \<and> sy_world s'' = sy_world s' \<and> sy_done s''"
proof -
  have inv: "lifecycle_inv s" using assms(1) lifecycle_init by (rule lifecycle_reach)
  have e: "sy_loops s' = [LExited]"
    using stop_returned_reach [OF assms(4) inv assms(2), of i] assms(3,5) by simp
  moreover have c: "wk_cancel (sy_worker s')" using worker_fixed_reach [OF assms(4)] assms(2) by blast
  ultimately have x: "sy_loops s'' = [LExited] \<and> sy_world s'' = sy_world s'"
    using exited_reach [OF assms(6)] by blast
  have "lifecycle_inv s''" using inv assms(4,6) lifecycle_reach by blast
  then have "sy_done s''" using x by (cases rule: lifecycle_loops) auto
  with x show ?thesis by blast
qed

text \<open>
  (C35) Stop does not deadlock. In every state a new worker with a positive interval can come
  to, in which it has been started, any \<open>Stop\<close> call that has not begun yet, or has begun with
  a non-nil cancel function, or finds the context already done, can run to its return.
\<close>

theorem stop_returns:
  assumes "worker_reach (system_init (worker_New e d) w) s" and "0 < d" and "wk_cancel (sy_worker s)"
    and "sy_done s \<or> sy_stops s i = SIdle \<or> sy_stops s i = SCancel True"
  shows "\<exists>s'. worker_reach s s' \<and> sy_stops s' i = SReturned"
  using assms by (rule stop_can_return)

text \<open>
  Cancellation stops the writes. Whatever the repositories, clients and engines are,
  once the context of a started worker is done and the tick in flight (if any) began after
  that, nothing the worker does changes the store: ticks that the \<^verbatim>\<open>select\<close> still picks
  from the ticker scan and give up.
\<close>

lemma cancelled_worker_writes_nothing:
  assumes "wk_cancel (sy_worker s)" and "sy_done s"
    and "LTicking False \<notin> set (sy_loops s)" and "worker_reach s s'"
  shows "w_store (sy_world s') = w_store (sy_world s)"
  using quiet_reach [OF assms(4)] assms(1-3) by (simp add: quiet_def)

definition sample_system :: "state wsystem" where
  "sample_system = system_init (worker_New sample_evaluator minute) sample_world"

lemma sample_started:
  "worker_reach sample_system (Start True sample_system)"
  "wk_cancel (sy_worker (Start True sample_system))" "sy_stops (Start True sample_system) 0 = SIdle"
  "sy_done (Start True sample_system)" "LTicking False \<notin> set (sy_loops (Start True sample_system))"
proof -
  show "worker_reach sample_system (Start True sample_system)"
    using worker_reach.here worker_step.start by (rule worker_reach.step)
qed (simp_all add: sample_system_def Start_def system_init_def worker_New_def)

lemma sample_stopped:
  "\<exists>s'. worker_reach (Start True sample_system) s' \<and> sy_stops s' 0 = SReturned"
  by (rule stop_can_return [OF sample_started(1) [unfolded sample_system_def] _
        sample_started(2) [unfolded sample_system_def], folded sample_system_def])
    (use sample_started in simp_all)

theorem stop_is_final_witness:
  "\<exists>s'. worker_reach (Start True sample_system) s' \<and> sy_stops s' 0 = SReturned \<and> sy_loops s' = [LExited] \<and> sy_done s'"
proof -
  obtain s' where s': "worker_reach (Start True sample_system) s'" "sy_stops s' 0 = SReturned"
    using sample_stopped by blast
  from stop_is_final [OF sample_started(1) [unfolded sample_system_def] sample_started(2,3) [unfolded sample_system_def]
      s' [unfolded sample_system_def] worker_reach.here] s'
  show ?thesis by blast
qed

theorem stop_returns_witness:
  "\<exists>s'. worker_reach (Start True sample_system) s' \<and> sy_stops s' 0 = SReturned"
  unfolding sample_system_def
  by (rule stop_returns [OF sample_started(1) [unfolded sample_system_def] _
        sample_started(2) [unfolded sample_system_def]])
    (use sample_started in \<open>simp_all add: sample_system_def\<close>)

end
