(* ===== verification/Go_Json.thy ===== *)
theory Go_Json
  imports Go_Base
begin

text \<open>
  What the sources use of \<^verbatim>\<open>encoding/json\<close>: the grammar of the scanner, the unquoting of
  strings (escapes, surrogate pairs, replacement of malformed UTF-8) and the matching of
  object keys with struct fields. A number keeps its literal. The recursion of the parser
  is bounded by a fuel; \<open>parse_value_fuel\<close> shows that more fuel than the text is long never runs
  out. The argument \<open>d\<close> is the nesting depth, which the scanner bounds.
\<close>

datatype json =
    JNull
  | JBool bool
  | JNumber string
  | JString string
  | JArray "json list"
  | JObject "(string \<times> json) list"


section \<open>Characters and strings\<close>

definition json_space :: "char \<Rightarrow> bool" where
  "json_space c \<longleftrightarrow> c = CHR '' '' \<or> c = CHR 0x09 \<or> c = CHR 0x0A \<or> c = CHR 0x0D"

definition skip_ws :: "string \<Rightarrow> string" where
  "skip_ws s = dropWhile json_space s"

definition is_digit :: "char \<Rightarrow> bool" where
  "is_digit c \<longleftrightarrow> 48 \<le> (of_char c :: nat) \<and> (of_char c :: nat) \<le> 57"

definition hex_val :: "char \<Rightarrow> nat option" where
  "hex_val c = (let n = of_char c in
     if 48 \<le> n \<and> n \<le> 57 then Some (n - 48)
     else if 97 \<le> n \<and> n \<le> 102 then Some (n - 87)
     else if 65 \<le> n \<and> n \<le> 70 then Some (n - 55) else None)"

text \<open>\<^verbatim>\<open>getu4\<close>: a \<^verbatim>\<open>\uXXXX\<close> escape at the head of the text.\<close>

definition getu4 :: "string \<Rightarrow> nat option" where
  "getu4 s = (case s of
       c0 # c1 # a # b # c # d # _ \<Rightarrow>
         (if c0 = CHR 0x5C \<and> c1 = CHR ''u'' then
            (case (hex_val a, hex_val b, hex_val c, hex_val d) of
               (Some a, Some b, Some c, Some d) \<Rightarrow> Some (a * 4096 + b * 256 + c * 16 + d)
             | _ \<Rightarrow> None)
          else None)
     | _ \<Rightarrow> None)"

text \<open>\<^verbatim>\<open>utf8.AppendRune\<close>, for runes that are not surrogates.\<close>

definition encode_rune :: "nat \<Rightarrow> string" where
  "encode_rune r =
     (if r < 0x80 then [char_of r]
      else if r < 0x800 then [char_of (0xC0 + r div 64), char_of (0x80 + r mod 64)]
      else if r < 0x10000 then
        [char_of (0xE0 + r div 4096), char_of (0x80 + r div 64 mod 64), char_of (0x80 + r mod 64)]
      else [char_of (0xF0 + r div 262144), char_of (0x80 + r div 4096 mod 64),
            char_of (0x80 + r div 64 mod 64), char_of (0x80 + r mod 64)])"

definition unescape :: "char \<Rightarrow> char option" where
  "unescape c =
     (if c = CHR 0x22 \<or> c = CHR 0x5C \<or> c = CHR ''/'' then Some c
      else if c = CHR ''b'' then Some (CHR 0x08) else if c = CHR ''f'' then Some (CHR 0x0C)
      else if c = CHR ''n'' then Some (CHR 0x0A) else if c = CHR ''r'' then Some (CHR 0x0D)
      else if c = CHR ''t'' then Some (CHR 0x09) else None)"

text \<open>The rest of a string literal after its opening quote, with what follows the closing one.\<close>

definition string_step :: "string \<Rightarrow> (string \<times> string) option" where
  "string_step s = (case s of [] \<Rightarrow> None
     | c # cs \<Rightarrow>
       (if c = CHR 0x5C then
          (case getu4 s of
             Some rr \<Rightarrow>
               (if 0xD800 \<le> rr \<and> rr < 0xE000 then
                  (case getu4 (drop 6 s) of
                     Some r2 \<Rightarrow>
                       (if rr < 0xDC00 \<and> 0xDC00 \<le> r2 \<and> r2 < 0xE000
                        then Some (encode_rune ((rr - 0xD800) * 1024 + (r2 - 0xDC00) + 0x10000), drop 12 s)
                        else Some (encode_rune 0xFFFD, drop 6 s))
                   | None \<Rightarrow> Some (encode_rune 0xFFFD, drop 6 s))
                else Some (encode_rune rr, drop 6 s))
           | None \<Rightarrow>
               (case cs of [] \<Rightarrow> None
                | e # rest \<Rightarrow> (case unescape e of None \<Rightarrow> None | Some u \<Rightarrow> Some ([u], rest))))
        else if (of_char c :: nat) < 0x20 then None
        else (case decode_rune s of (r, w) \<Rightarrow>
                Some (if r = 0xFFFD \<and> w = 1 then encode_rune 0xFFFD else take w s, drop w s))))"

lemma string_step_shorter: "string_step s = Some (out, rest) \<Longrightarrow> length rest < length s"
proof (cases s)
  case (Cons c cs)
  assume "string_step s = Some (out, rest)"
  moreover obtain r w where "decode_rune (c # cs) = (r, w)" by fastforce
  moreover from this have "0 < w" using decode_rune_width [of r w c cs] by simp
  ultimately show ?thesis using Cons
    by (auto simp: string_step_def split: if_splits option.splits list.splits)
qed (simp add: string_step_def)

function parse_string :: "string \<Rightarrow> (string \<times> string) option" where
  "parse_string s = (case s of [] \<Rightarrow> None
     | c # cs \<Rightarrow>
       if c = CHR 0x22 then Some ([], cs)
       else (case string_step s of None \<Rightarrow> None
             | Some (out, rest) \<Rightarrow>
                 (case parse_string rest of None \<Rightarrow> None | Some (more, rest') \<Rightarrow> Some (out @ more, rest'))))"
  by pat_completeness auto
termination
  by (relation "measure length") (auto dest: string_step_shorter)

declare parse_string.simps [simp del]

text \<open>
  A number: an optional minus, an integer part without superfluous zeros, an optional
  fraction and an optional exponent. Each part returns its literal and what follows.
\<close>

definition opt_char :: "char list \<Rightarrow> string \<Rightarrow> string \<times> string" where
  "opt_char cs s = (case s of c # r \<Rightarrow> if c \<in> set cs then ([c], r) else ([], s) | [] \<Rightarrow> ([], s))"

definition digits1 :: "string \<Rightarrow> (string \<times> string) option" where
  "digits1 s = (if takeWhile is_digit s = [] then None else Some (takeWhile is_digit s, dropWhile is_digit s))"

definition number_whole :: "string \<Rightarrow> (string \<times> string) option" where
  "number_whole s = (case s of c # r \<Rightarrow> if c = CHR ''0'' then Some ([c], r) else digits1 s | [] \<Rightarrow> None)"

definition number_frac :: "string \<Rightarrow> (string \<times> string) option" where
  "number_frac s = (case opt_char ''.'' s of
       ([], r) \<Rightarrow> Some ([], r)
     | (p, r) \<Rightarrow> map_option (\<lambda>(ds, r). (p @ ds, r)) (digits1 r))"

definition number_exp :: "string \<Rightarrow> (string \<times> string) option" where
  "number_exp s = (case opt_char ''eE'' s of
       ([], r) \<Rightarrow> Some ([], r)
     | (e, r) \<Rightarrow> (case opt_char ''+-'' r of (sg, r) \<Rightarrow> map_option (\<lambda>(ds, r). (e @ sg @ ds, r)) (digits1 r)))"

definition parse_number :: "string \<Rightarrow> (string \<times> string) option" where
  "parse_number s = (case opt_char ''-'' s of (sg, s) \<Rightarrow>
     (case number_whole s of None \<Rightarrow> None
      | Some (w, s) \<Rightarrow> (case number_frac s of None \<Rightarrow> None
          | Some (f, s) \<Rightarrow> (case number_exp s of None \<Rightarrow> None
              | Some (e, s) \<Rightarrow> Some (sg @ w @ f @ e, s)))))"

lemma opt_char_le: "opt_char cs s = (x, r) \<Longrightarrow> length r \<le> length s"
  by (cases s) (auto simp: opt_char_def split: if_splits)

lemma digits1_less: "digits1 s = Some (x, r) \<Longrightarrow> length r < length s"
  using length_dropWhile_le [of is_digit "tl s"]
  by (cases s) (auto simp: digits1_def split: if_splits)

lemma number_whole_less: "number_whole s = Some (x, r) \<Longrightarrow> length r < length s"
  by (cases s) (auto simp: number_whole_def split: if_splits dest: digits1_less)

lemma number_frac_le: "number_frac s = Some (x, r) \<Longrightarrow> length r \<le> length s"
  by (cases "opt_char ''.'' s"; cases "fst (opt_char ''.'' s)")
    (auto simp: number_frac_def dest!: opt_char_le digits1_less)

lemma number_exp_le: "number_exp s = Some (x, r) \<Longrightarrow> length r \<le> length s"
  by (cases "opt_char ''eE'' s"; cases "fst (opt_char ''eE'' s)")
    (auto simp: number_exp_def dest!: opt_char_le digits1_less split: prod.splits)

lemma parse_number_shorter: "parse_number s = Some (x, rest) \<Longrightarrow> length rest < length s"
  by (auto simp: parse_number_def split: prod.splits option.splits
      dest!: opt_char_le number_whole_less number_frac_le number_exp_le)


section \<open>Values\<close>

definition max_depth :: nat where
  "max_depth = 10000"

definition parse_word :: "string \<Rightarrow> json \<Rightarrow> string \<Rightarrow> (json \<times> string) option" where
  "parse_word w v s = (if starts_with w s then Some (v, drop (length w) s) else None)"

definition parse_scalar :: "string \<Rightarrow> (json \<times> string) option" where
  "parse_scalar s = (case s of [] \<Rightarrow> None
     | c # cs \<Rightarrow>
       if c = CHR 0x22 then map_option (\<lambda>(x, rest). (JString x, rest)) (parse_string cs)
       else if c = CHR ''t'' then parse_word ''true'' (JBool True) s
       else if c = CHR ''f'' then parse_word ''false'' (JBool False) s
       else if c = CHR ''n'' then parse_word ''null'' JNull s
       else map_option (\<lambda>(x, rest). (JNumber x, rest)) (parse_number s))"

text \<open>
  \<open>parse_value\<close> expects a value after white space; \<open>parse_elems\<close> and \<open>parse_members\<close> expect the elements and
  the members that remain, after an opening bracket or a comma.
\<close>

fun parse_value :: "nat \<Rightarrow> nat \<Rightarrow> string \<Rightarrow> (json \<times> string) option"
  and parse_elems :: "nat \<Rightarrow> nat \<Rightarrow> string \<Rightarrow> (json list \<times> string) option"
  and parse_members :: "nat \<Rightarrow> nat \<Rightarrow> string \<Rightarrow> ((string \<times> json) list \<times> string) option" where
  "parse_value 0 d s = None"
| "parse_value (Suc n) d s = (case skip_ws s of [] \<Rightarrow> None
     | c # cs \<Rightarrow>
       if c = CHR ''['' then
         (if max_depth \<le> d then None
          else (case skip_ws cs of x # xs \<Rightarrow>
                 if x = CHR '']'' then Some (JArray [], xs)
                 else map_option (\<lambda>(vs, rest). (JArray vs, rest)) (parse_elems n (Suc d) cs)
               | [] \<Rightarrow> None))
       else if c = CHR ''{'' then
         (if max_depth \<le> d then None
          else (case skip_ws cs of x # xs \<Rightarrow>
                 if x = CHR ''}'' then Some (JObject [], xs)
                 else map_option (\<lambda>(ms, rest). (JObject ms, rest)) (parse_members n (Suc d) cs)
               | [] \<Rightarrow> None))
       else parse_scalar (c # cs))"
| "parse_elems 0 d s = None"
| "parse_elems (Suc n) d s = (case parse_value n d s of None \<Rightarrow> None
     | Some (v, rest) \<Rightarrow> (case skip_ws rest of [] \<Rightarrow> None
         | c # cs \<Rightarrow>
           if c = CHR '']'' then Some ([v], cs)
           else if c = CHR '','' then
             (case parse_elems n d cs of None \<Rightarrow> None | Some (vs, rest) \<Rightarrow> Some (v # vs, rest))
           else None))"
| "parse_members 0 d s = None"
| "parse_members (Suc n) d s = (case skip_ws s of [] \<Rightarrow> None
     | q # qs \<Rightarrow>
       if q \<noteq> CHR 0x22 then None
       else (case parse_string qs of None \<Rightarrow> None
         | Some (key, r1) \<Rightarrow> (case skip_ws r1 of [] \<Rightarrow> None
             | c # cs \<Rightarrow>
               if c \<noteq> CHR '':'' then None
               else (case parse_value n d cs of None \<Rightarrow> None
                 | Some (v, r2) \<Rightarrow> (case skip_ws r2 of [] \<Rightarrow> None
                     | e # es \<Rightarrow>
                       if e = CHR ''}'' then Some ([(key, v)], es)
                       else if e = CHR '','' then
                         (case parse_members n d es of None \<Rightarrow> None | Some (ms, r3) \<Rightarrow> Some ((key, v) # ms, r3))
                       else None)))))"

text \<open>Every part consumes text, so the fuel of \<open>json_Unmarshal\<close> and \<open>json_Decode\<close> never runs out.\<close>

lemma skip_ws_Cons: "skip_ws s = c # cs \<Longrightarrow> length cs < length s"
  using length_dropWhile_le [of json_space s] by (simp add: skip_ws_def)

lemma parse_string_shorter: "parse_string s = Some (x, rest) \<Longrightarrow> length rest < length s"
proof (induction s arbitrary: x rest rule: parse_string.induct)
  case (1 s)
  show ?case
  proof (cases s)
    case Nil
    with "1.prems" show ?thesis by (subst (asm) parse_string.simps) simp
  next
    case (Cons c cs)
    show ?thesis
    proof (cases "c = CHR 0x22")
      case True
      with "1.prems" Cons show ?thesis by (subst (asm) parse_string.simps) simp
    next
      case False
      with "1.prems" Cons obtain out r where st: "string_step s = Some (out, r)"
        by (subst (asm) parse_string.simps) (auto split: option.splits)
      with "1.prems" Cons False obtain more where "parse_string r = Some (more, rest)"
        by (subst (asm) parse_string.simps) (auto split: option.splits)
      with "1.IH" [OF Cons False st] have "length rest < length r" by blast
      with string_step_shorter [OF st] show ?thesis by simp
    qed
  qed
qed

lemma parse_scalar_shorter: "parse_scalar s = Some (v, rest) \<Longrightarrow> length rest < length s"
  by (cases s) (auto simp: parse_scalar_def parse_word_def split: if_splits
      dest!: parse_string_shorter parse_number_shorter)

lemma parse_shorter:
  "(parse_value n d s = Some (v, rest) \<longrightarrow> length rest < length s)
   \<and> (parse_elems n d s = Some (vs, rest) \<longrightarrow> length rest < length s)
   \<and> (parse_members n d s = Some (ms, rest) \<longrightarrow> length rest < length s)"
proof (induction n arbitrary: d s v vs ms rest)
  case (Suc n)
  note IH = Suc [THEN conjunct1, rule_format] Suc [THEN conjunct2, THEN conjunct1, rule_format]
    Suc [THEN conjunct2, THEN conjunct2, rule_format]
  have "parse_value (Suc n) d s = Some (v, rest) \<Longrightarrow> length rest < length s"
    by (auto split: list.splits if_splits nat.splits dest!: skip_ws_Cons parse_scalar_shorter IH)
  moreover have "parse_elems (Suc n) d s = Some (vs, rest) \<Longrightarrow> length rest < length s"
    by (auto split: list.splits if_splits option.splits dest!: skip_ws_Cons IH)
  moreover have "parse_members (Suc n) d s = Some (ms, rest) \<Longrightarrow> length rest < length s"
    by (auto split: list.splits if_splits option.splits dest!: skip_ws_Cons IH parse_string_shorter)
  ultimately show ?case by blast
qed simp

lemmas parse_value_shorter = parse_shorter [THEN conjunct1, rule_format]

text \<open>Two fuels above the bound give the same result.\<close>

lemma value_fuel_step:
  assumes "\<And>c cs d'. skip_ws s = c # cs \<Longrightarrow>
    parse_elems n d' cs = parse_elems m d' cs \<and> parse_members n d' cs = parse_members m d' cs"
  shows "parse_value (Suc n) d s = parse_value (Suc m) d s"
proof (cases "skip_ws s")
  case (Cons c cs)
  have "parse_elems n d' cs = parse_elems m d' cs" "parse_members n d' cs = parse_members m d' cs" for d'
    using assms [OF Cons] by auto
  then show ?thesis by (simp only: parse_value.simps Cons list.case)
qed simp

lemma elems_fuel_step:
  assumes "parse_value n d s = parse_value m d s"
    and "\<And>v rest c cs. parse_value m d s = Some (v, rest) \<Longrightarrow> skip_ws rest = c # cs \<Longrightarrow>
      parse_elems n d cs = parse_elems m d cs"
  shows "parse_elems (Suc n) d s = parse_elems (Suc m) d s"
proof (cases "parse_value m d s")
  case (Some p)
  obtain v rest where p: "p = (v, rest)" by (cases p)
  show ?thesis using assms(1) assms(2) [of v rest] Some p
    by (cases "skip_ws rest") (simp_all only: parse_elems.simps option.case prod.case list.case)
qed (simp add: assms(1))

lemma members_fuel_step:
  assumes "\<And>cs. length cs < length s \<Longrightarrow> parse_value n d cs = parse_value m d cs"
    and "\<And>es. length es < length s \<Longrightarrow> parse_members n d es = parse_members m d es"
  shows "parse_members (Suc n) d s = parse_members (Suc m) d s"
proof (cases "skip_ws s")
  case (Cons q qs)
  note q = this
  show ?thesis
  proof (cases "parse_string qs")
    case (Some p)
    obtain key r1 where p: "p = (key, r1)" by (cases p)
    have r1: "length r1 < length s" using skip_ws_Cons [OF q] parse_string_shorter Some p by force
    show ?thesis
    proof (cases "skip_ws r1")
      case (Cons c cs)
      have cs: "length cs < length s" using skip_ws_Cons [OF Cons] r1 by simp
      note v = assms(1) [OF cs]
      show ?thesis
      proof (cases "parse_value m d cs")
        case (Some w)
        obtain x r2 where w: "w = (x, r2)" by (cases w)
        have r2: "length r2 < length s" using parse_value_shorter Some w cs by fastforce
        have "parse_members n d es = parse_members m d es" if "skip_ws r2 = e # es" for e es
          using assms(2) skip_ws_Cons [OF that] r2 by simp
        then show ?thesis using q \<open>parse_string qs = Some p\<close> p Cons v Some w
          by (cases "skip_ws r2") (simp_all only: parse_members.simps option.case prod.case list.case)
      qed (simp add: q \<open>parse_string qs = Some p\<close> p Cons v)
    qed (simp add: q Some p)
  qed (simp add: q)
qed simp

lemma parse_fuel:
  "(2 * length s < n \<longrightarrow> 2 * length s < m \<longrightarrow> parse_value n d s = parse_value m d s)
   \<and> (2 * length s + 1 < n \<longrightarrow> 2 * length s + 1 < m \<longrightarrow> parse_elems n d s = parse_elems m d s)
   \<and> (2 * length s < n \<longrightarrow> 2 * length s < m \<longrightarrow> parse_members n d s = parse_members m d s)"
proof (induction n arbitrary: m d s)
  case (Suc n)
  note IH = Suc [THEN conjunct1, rule_format] Suc [THEN conjunct2, THEN conjunct1, rule_format]
    Suc [THEN conjunct2, THEN conjunct2, rule_format]
  show ?case
  proof (cases m)
    case m: (Suc m')
    have "parse_value (Suc n) d s = parse_value m d s" if l: "2 * length s < Suc n" "2 * length s < m"
      unfolding m
    proof (rule value_fuel_step)
      fix c cs d' assume "skip_ws s = c # cs"
      then show "parse_elems n d' cs = parse_elems m' d' cs \<and> parse_members n d' cs = parse_members m' d' cs"
        using skip_ws_Cons [of s c cs] l m IH(2) [of cs m' d'] IH(3) [of cs m' d'] by simp
    qed
    moreover have "parse_elems (Suc n) d s = parse_elems m d s"
      if l: "2 * length s + 1 < Suc n" "2 * length s + 1 < m"
      unfolding m
    proof (rule elems_fuel_step)
      show "parse_value n d s = parse_value m' d s" using l m by (intro IH(1)) simp_all
      show "parse_elems n d cs = parse_elems m' d cs"
        if "parse_value m' d s = Some (v, rest)" "skip_ws rest = c # cs" for v rest c cs
        using skip_ws_Cons [OF that(2)] parse_value_shorter [OF that(1)] l m by (intro IH(2)) simp_all
    qed
    moreover have "parse_members (Suc n) d s = parse_members m d s"
      if l: "2 * length s < Suc n" "2 * length s < m"
      unfolding m
    proof (rule members_fuel_step)
      show "parse_value n d cs = parse_value m' d cs" if "length cs < length s" for cs
        using that l m by (intro IH(1)) simp_all
      show "parse_members n d es = parse_members m' d es" if "length es < length s" for es
        using that l m by (intro IH(3)) simp_all
    qed
    ultimately show ?thesis by blast
  qed simp
qed simp

lemma parse_value_fuel: "2 * length s < n \<Longrightarrow> parse_value n d s = parse_value (2 * length s + 2) d s"
  using parse_fuel [of s n "2 * length s + 2" d] by simp

text \<open>
  \<^verbatim>\<open>json.Unmarshal\<close> wants one value and nothing but white space after it;
  \<^verbatim>\<open>Decoder.Decode\<close> takes the first value of the stream.
\<close>

definition json_Unmarshal :: "string \<Rightarrow> json option" where
  "json_Unmarshal s = (case parse_value (2 * length s + 2) 0 s of
       Some (v, rest) \<Rightarrow> if skip_ws rest = [] then Some v else None
     | None \<Rightarrow> None)"

definition json_Decode :: "string \<Rightarrow> json option" where
  "json_Decode s = map_option fst (parse_value (2 * length s + 2) 0 s)"


section \<open>Fields\<close>

text \<open>
  The key of a struct field matches exactly or up to the case of ASCII letters, the long s
  and the Kelvin sign included; every occurrence is decoded in order.
\<close>

fun fold_key :: "string \<Rightarrow> string" where
  "fold_key [] = []"
| "fold_key (c # s) =
    (if c = CHR 0xC5 \<and> s \<noteq> [] \<and> hd s = CHR 0xBF then CHR ''s'' # fold_key (tl s)
     else if c = CHR 0xE2 \<and> starts_with [CHR 0x84, CHR 0xAA] s then CHR ''k'' # fold_key (drop 2 s)
     else (if 65 \<le> (of_char c :: nat) \<and> (of_char c :: nat) \<le> 90 then char_of (of_char c + 32 :: nat) else c) # fold_key s)"

definition field_values :: "string \<Rightarrow> (string \<times> json) list \<Rightarrow> json list" where
  "field_values name ms = map snd (filter (\<lambda>(k, v). fold_key k = fold_key name) ms)"

text \<open>
  Decoding into a string field: null leaves it alone, a value of another kind is a type
  error that is reported after the rest has been decoded.
\<close>

definition string_field :: "string \<Rightarrow> (string \<times> json) list \<Rightarrow> string \<times> bool" where
  "string_field name ms = foldl (\<lambda>(s, ok) v. case v of JString x \<Rightarrow> (x, ok) | JNull \<Rightarrow> (s, ok) | _ \<Rightarrow> (s, False))
     ([], True) (field_values name ms)"

text \<open>
  Decoding into an element of type string, and into a slice of elements; a decoder returns
  the value and whether no type error occurred.
\<close>

definition decode_string :: "json \<Rightarrow> string \<times> bool" where
  "decode_string v = (case v of JString x \<Rightarrow> (x, True) | JNull \<Rightarrow> ([], True) | _ \<Rightarrow> ([], False))"

definition decode_list :: "(json \<Rightarrow> 'a \<times> bool) \<Rightarrow> json \<Rightarrow> 'a list \<times> bool" where
  "decode_list f v = (case v of JArray vs \<Rightarrow> (map (fst \<circ> f) vs, list_all (snd \<circ> f) vs)
     | JNull \<Rightarrow> ([], True) | _ \<Rightarrow> ([], False))"

definition list_field :: "(json \<Rightarrow> 'a \<times> bool) \<Rightarrow> string \<Rightarrow> (string \<times> json) list \<Rightarrow> 'a list \<times> bool" where
  "list_field f name ms = (let rs = map (decode_list f) (field_values name ms) in
     (if rs = [] then [] else fst (last rs), list_all snd rs))"


section \<open>Evaluation\<close>

text \<open>Rules for reading concrete documents with plain ASCII strings.\<close>

lemma parse_string_Nil: "parse_string [] = None"
  by (subst parse_string.simps) simp

lemma parse_string_quote: "parse_string (CHR 0x22 # s) = Some ([], s)"
  by (subst parse_string.simps) simp

lemma parse_string_plain:
  assumes "c \<noteq> CHR 0x22" and "c \<noteq> CHR 0x5C" and "0x20 \<le> (of_char c :: nat)" and "(of_char c :: nat) < 0x80"
  shows "parse_string (c # s) = map_option (\<lambda>(m, r). (c # m, r)) (parse_string s)"
proof -
  have "decode_rune (c # s) = (of_char c, 1)" using assms by (simp add: decode_rune.simps Let_def)
  then have "string_step (c # s) = Some ([c], s)" using assms by (simp add: string_step_def)
  then show ?thesis using assms(1) by (subst parse_string.simps) (auto split: option.splits)
qed

lemmas parse_eval = parse_string_Nil parse_string_quote parse_string_plain skip_ws_def json_space_def parse_scalar_def max_depth_def

end
