(* ===== verification/Rate_Limiter.thy ===== *)
theory Rate_Limiter
  imports Go_Base
begin

text \<open>
  The token bucket of \<^verbatim>\<open>internal/transport/http/ratelimit.go\<close>: \<^verbatim>\<open>Allow\<close> and
  \<^verbatim>\<open>Cleanup\<close> in floating-point arithmetic. Both run under the mutex and are
  one step each. A bucket is held in the map by pointer and nothing else keeps it, so the
  map holds the bucket itself. The clock readings are arguments.
\<close>

section \<open>The limiter\<close>

record bucket =
  bk_tokens :: float64
  bk_lastCheck :: time

record RateLimiter =
  rl_buckets :: "(string \<times> bucket) list"
  rl_rate :: float64
  rl_capacity :: int

definition NewRateLimiter :: "float64 \<Rightarrow> int \<Rightarrow> RateLimiter" where
  "NewRateLimiter rate capacity = \<lparr>rl_buckets = [], rl_rate = rate, rl_capacity = capacity\<rparr>"

text \<open>The package's own \<^verbatim>\<open>min\<close>, which answers its second argument when a comparison with NaN fails.\<close>

definition rl_min :: "float64 \<Rightarrow> float64 \<Rightarrow> float64" where
  "rl_min a b = (if a < b then a else b)"

text \<open>\<open>now0\<close> is read only when the key is new.\<close>

definition Allow :: "time \<Rightarrow> time \<Rightarrow> string \<Rightarrow> RateLimiter \<Rightarrow> bool \<times> RateLimiter" where
  "Allow now0 now key rl =
    (let b = (case map_of (rl_buckets rl) key of
                Some b \<Rightarrow> b
              | None \<Rightarrow> \<lparr>bk_tokens = f_of_int (rl_capacity rl), bk_lastCheck = now0\<rparr>);
         elapsed = duration_Seconds (time_Sub now (bk_lastCheck b));
         tokens = rl_min (f_of_int (rl_capacity rl)) (bk_tokens b + elapsed * rl_rate rl);
         put = (\<lambda>t. rl\<lparr>rl_buckets := AList.update key \<lparr>bk_tokens = t, bk_lastCheck = now\<rparr> (rl_buckets rl)\<rparr>)
     in if 1 \<le> tokens then (True, put (tokens + - 1)) else (False, put tokens))"

definition Cleanup :: "time \<Rightarrow> duration \<Rightarrow> RateLimiter \<Rightarrow> RateLimiter" where
  "Cleanup now maxAge rl =
     rl\<lparr>rl_buckets := filter (\<lambda>(k, b). \<not> time_Sub now (bk_lastCheck b) > maxAge) (rl_buckets rl)\<rparr>"


section \<open>Exact integers\<close>

text \<open>Integers of at most 53 bits are floating-point numbers.\<close>

lemma gexp_small_int:
  assumes "i \<noteq> 0" and "\<bar>i\<bar> < 2 ^ 53"
  shows "gexp (of_int i) \<le> 0"
proof -
  have "0 < \<bar>of_int i :: rat\<bar>" using assms(1) by simp
  then have "2 powi ilog2 \<bar>of_int i\<bar> \<le> \<bar>of_int i :: rat\<bar>" by (rule ilog2_bounds)
  also have "\<bar>of_int i :: rat\<bar> = of_int \<bar>i\<bar>" by simp
  also have "\<dots> < of_int (2 ^ 53)" using assms(2) by (simp only: of_int_less_iff)
  also have "\<dots> = 2 powi 53" by simp
  finally have "ilog2 \<bar>of_int i\<bar> < 53" by (rule powi_less_imp)
  then show ?thesis by (simp add: gexp_def)
qed

lemma round_rat_int:
  assumes "\<bar>i\<bar> < 2 ^ 53"
  shows "round_rat (of_int i) = of_int i"
proof (cases "i = 0")
  case False
  let ?g = "gexp (of_int i)"
  have g: "?g \<le> 0" using False assms by (rule gexp_small_int)
  have "(of_int i :: rat) / 2 powi ?g = of_int i * 2 powi (- ?g)" by (simp add: power_int_minus field_simps)
  also have "\<dots> = of_int (i * 2 ^ nat (- ?g))" using powi_of_int [of "- ?g"] g by simp
  finally have q: "(of_int i :: rat) / 2 powi ?g = of_int (i * 2 ^ nat (- ?g))" .
  then have "of_int (rhe (of_int i / 2 powi ?g)) = (of_int i :: rat) / 2 powi ?g"
    by (simp only: rhe_of_int)
  then show ?thesis using False by (simp add: round_rat_def)
qed simp

lemma f_round_int: "\<bar>i\<bar> < 2 ^ 53 \<Longrightarrow> f_round (of_int i) = Fin (of_int i)"
proof -
  assume i: "\<bar>i\<bar> < 2 ^ 53"
  have "ilog2 \<bar>of_int i\<bar> < 1024" if "i \<noteq> 0"
  proof -
    have "0 < \<bar>of_int i :: rat\<bar>" using that by simp
    then have "2 powi ilog2 \<bar>of_int i\<bar> \<le> \<bar>of_int i :: rat\<bar>" by (rule ilog2_bounds)
    also have "\<bar>of_int i :: rat\<bar> = of_int \<bar>i\<bar>" by simp
    also have "\<dots> < of_int (2 ^ 53)" using i by (simp only: of_int_less_iff)
    also have "\<dots> = 2 powi 53" by simp
    finally show ?thesis using powi_less_imp [of "ilog2 \<bar>of_int i\<bar>" 53] by simp
  qed
  then show ?thesis by (auto simp: f_round_def Let_def round_rat_int [OF i])
qed

lemma f_of_int_exact: "\<bar>i\<bar> < 2 ^ 53 \<Longrightarrow> f_of_int i = Fin (of_int i)"
  by (simp add: f_of_int_def f_round_int)

lemma f_round_between:
  assumes "of_int i \<le> x" and "x \<le> of_int j" and "\<bar>i\<bar> < 2 ^ 53" and "\<bar>j\<bar> < 2 ^ 53"
  obtains y where "f_round x = Fin y" and "of_int i \<le> y" and "y \<le> of_int j"
proof -
  have "Fin (of_int i) \<le> f_round x" "f_round x \<le> Fin (of_int j)"
    using f_round_mono [OF assms(1)] f_round_mono [OF assms(2)] assms(3,4) by (simp_all add: f_round_int)
  then show ?thesis using that by (cases "f_round x") auto
qed


section \<open>Elapsed seconds\<close>

lemma duration_Seconds_0 [simp]: "duration_Seconds 0 = Fin 0"
  by (simp add: duration_Seconds_def trunc_quot_def trunc_rem_def f_of_int_exact)

lemma time_Sub_self [simp]: "time_Sub t t = 0"
  by (simp add: time_Sub_def min_int64_def max_int64_def)

definition Seconds_parts :: "duration \<Rightarrow> rat \<times> rat \<Rightarrow> bool" where
  "Seconds_parts d p \<longleftrightarrow> (case p of (s, f) \<Rightarrow> duration_Seconds d = f_round (s + f) \<and> s = of_int (d div second)
     \<and> 0 \<le> f \<and> f \<le> 1 \<and> Fin f = f_round (of_int (d mod second) / 1000000000))"

lemma Seconds_split:
  assumes "0 \<le> d" and "d \<le> max_int64"
  shows "\<exists>f. Seconds_parts d (of_int (d div second), f)"
proof -
  have q: "trunc_quot d second = d div second" using assms(1) by (cases "d = 0") (auto simp: trunc_quot_def)
  have r: "trunc_rem d second = d mod second" by (simp add: trunc_rem_def q minus_mult_div_eq_mod)
  have dm: "0 \<le> d mod second" "d mod second < second" by simp_all
  have "d div second < 2 ^ 53" "0 \<le> d div second" using assms by (simp_all add: max_int64_def)
  then have qs: "f_of_int (d div second) = Fin (of_int (d div second))" by (intro f_of_int_exact) simp
  have rs: "f_of_int (d mod second) = Fin (of_int (d mod second))" using dm by (intro f_of_int_exact) simp
  have "(of_int 0 :: rat) \<le> of_int (d mod second) / 1000000000" "of_int (d mod second) / 1000000000 \<le> (of_int 1 :: rat)"
    using dm by (auto simp: divide_le_eq)
  then obtain f where f: "f_round (of_int (d mod second) / 1000000000) = Fin f" "0 \<le> f" "f \<le> 1"
    by (rule f_round_between) auto
  have "duration_Seconds d = Fin (of_int (d div second)) + Fin f"
    by (simp only: duration_Seconds_def q r qs rs f_div.simps) (simp add: f(1))
  then show ?thesis using f by (auto simp: Seconds_parts_def)
qed

lemma duration_Seconds_mono:
  assumes "0 \<le> d" and "d \<le> d'" and "d' \<le> max_int64"
  shows "duration_Seconds d \<le> duration_Seconds d'"
proof -
  obtain f where f: "Seconds_parts d (of_int (d div second), f)" using Seconds_split [of d] assms by auto
  obtain f' where f': "Seconds_parts d' (of_int (d' div second), f')" using Seconds_split [of d'] assms by auto
  have "of_int (d div second) + f \<le> of_int (d' div second) + f'"
  proof (cases "d div second = d' div second")
    case True
    then have "d mod second \<le> d' mod second" using assms(2) by (simp flip: minus_mult_div_eq_mod)
    then have "f_round (of_int (d mod second) / 1000000000) \<le> f_round (of_int (d' mod second) / 1000000000)"
      by (intro f_round_mono divide_right_mono) auto
    then have "Fin f \<le> Fin f'" using f f' by (simp add: Seconds_parts_def)
    then show ?thesis using True by simp
  next
    case False
    moreover have "d div second \<le> d' div second" using assms(2) by (simp add: zdiv_mono1)
    ultimately have "d div second + 1 \<le> d' div second" by simp
    then have "of_int (d div second + 1) \<le> (of_int (d' div second) :: rat)" by (simp only: of_int_le_iff)
    then show ?thesis using f f' by (simp add: Seconds_parts_def)
  qed
  then show ?thesis using f f' f_round_mono by (simp add: Seconds_parts_def)
qed

lemma duration_Seconds_finite:
  assumes "0 \<le> d" and "d \<le> max_int64"
  obtains x where "duration_Seconds d = Fin x" and "0 \<le> x"
proof -
  obtain f where f: "Seconds_parts d (of_int (d div second), f)" using Seconds_split [OF assms] by blast
  have dv: "0 \<le> d div second" "d div second + 1 < 2 ^ 53" using assms by (simp_all add: max_int64_def)
  have "of_int 0 \<le> of_int (d div second) + f" "of_int (d div second) + f \<le> of_int (d div second + 1)"
    using f dv by (simp_all add: Seconds_parts_def)
  then obtain y where "f_round (of_int (d div second) + f) = Fin y" "of_int 0 \<le> y"
    by (rule f_round_between) (use dv in auto)
  with f show ?thesis by (auto simp: Seconds_parts_def intro: that)
qed


section \<open>Refilling\<close>

lemma f_round_le_PInf: "f_round x \<le> PInf"
  by (cases "f_round x") (use f_round_not_NaN in auto)

lemma refill:
  assumes "0 \<le> t" and "t \<le> of_int cap" and "0 \<le> x" and "cap < 2 ^ 53" and "0 \<le> cap"
  shows "\<exists>y. rl_min (Fin (of_int cap)) (Fin t + x) = Fin y \<and> 0 \<le> y \<and> y \<le> of_int cap
    \<and> (1 \<le> x \<longrightarrow> 1 \<le> cap \<longrightarrow> 1 \<le> y) \<and> (Fin (of_int cap) \<le> x \<longrightarrow> y = of_int cap)"
proof (cases x)
  case (Fin a)
  have a: "0 \<le> a" using assms(3) Fin by (simp add: zero_float64_def)
  have capr: "f_round (of_int cap) = Fin (of_int cap)" using assms(4,5) by (intro f_round_int) simp
  have lo: "Fin (of_int i) \<le> f_round (t + a)" if "of_int i \<le> t + a" "\<bar>i\<bar> < 2 ^ 53" for i
    using f_round_mono [OF that(1)] f_round_int [OF that(2)] by simp
  have nn: "0 \<le> f_round (t + a)" using a assms(1) by (intro f_round_nonneg) simp
  show ?thesis
  proof (cases "Fin (of_int cap) < f_round (t + a)")
    case True
    then show ?thesis using Fin assms(5) by (simp add: rl_min_def one_float64_def)
  next
    case False
    then obtain y where y: "f_round (t + a) = Fin y" "y \<le> of_int cap"
      using f_round_not_NaN [of "t + a"] nn by (cases "f_round (t + a)") (auto simp: zero_float64_def)
    have "1 \<le> y" if "1 \<le> x" using lo [of 1] that Fin assms(1) y(1) by (simp add: one_float64_def)
    moreover have "y = of_int cap" if "Fin (of_int cap) \<le> x"
      using lo [of cap] that Fin assms(1,4,5) y by simp
    ultimately show ?thesis using y nn False Fin by (auto simp: rl_min_def zero_float64_def)
  qed
next
  case PInf
  then show ?thesis using assms by (simp add: rl_min_def one_float64_def)
qed (use assms(3) in \<open>simp_all add: zero_float64_def\<close>)

text \<open>
  A limiter in order at an instant: a finite rate that is not negative, a capacity a
  floating-point number holds exactly, and in every bucket a number of tokens within the
  capacity, last checked in the past.
\<close>

definition bucket_ok :: "RateLimiter \<Rightarrow> time \<Rightarrow> bucket \<Rightarrow> bool" where
  "bucket_ok rl now b \<longleftrightarrow> bk_lastCheck b \<le> now
     \<and> (case bk_tokens b of Fin t \<Rightarrow> 0 \<le> t \<and> t \<le> of_int (rl_capacity rl) | _ \<Rightarrow> False)"

definition rate_ok :: "RateLimiter \<Rightarrow> bool" where
  "rate_ok rl \<longleftrightarrow> 0 \<le> rl_capacity rl \<and> rl_capacity rl < 2 ^ 53
     \<and> (case rl_rate rl of Fin r \<Rightarrow> 0 \<le> r | _ \<Rightarrow> False)"

definition limiter_ok :: "time \<Rightarrow> RateLimiter \<Rightarrow> bool" where
  "limiter_ok now rl \<longleftrightarrow> rate_ok rl \<and> distinct (keys_of (rl_buckets rl))
     \<and> list_all (bucket_ok rl now) (rows_of (rl_buckets rl))"

definition refilled :: "RateLimiter \<Rightarrow> time \<Rightarrow> bucket \<Rightarrow> float64" where
  "refilled rl now b = rl_min (f_of_int (rl_capacity rl))
     (bk_tokens b + duration_Seconds (time_Sub now (bk_lastCheck b)) * rl_rate rl)"

definition bucket_of :: "RateLimiter \<Rightarrow> time \<Rightarrow> string \<Rightarrow> bucket" where
  "bucket_of rl now0 key = (case map_of (rl_buckets rl) key of
       Some b \<Rightarrow> b | None \<Rightarrow> \<lparr>bk_tokens = f_of_int (rl_capacity rl), bk_lastCheck = now0\<rparr>)"

lemma Allow_eq:
  "Allow now0 now key rl = (let t = refilled rl now (bucket_of rl now0 key) in
     (1 \<le> t, rl\<lparr>rl_buckets := AList.update key
        \<lparr>bk_tokens = (if 1 \<le> t then t + - 1 else t), bk_lastCheck = now\<rparr> (rl_buckets rl)\<rparr>))"
  by (simp add: Allow_def refilled_def bucket_of_def Let_def)

lemma elapsed_nonneg:
  assumes "rate_ok rl" and "t0 \<le> t"
  shows "0 \<le> duration_Seconds (time_Sub t t0) * rl_rate rl"
proof -
  obtain r where r: "rl_rate rl = Fin r" "0 \<le> r" using assms(1) by (auto simp: rate_ok_def split: float64.splits)
  have "0 \<le> time_Sub t t0" "time_Sub t t0 \<le> max_int64"
    using assms(2) by (auto simp: time_Sub_def min_int64_def max_int64_def)
  then obtain x where "duration_Seconds (time_Sub t t0) = Fin x" "0 \<le> x" by (rule duration_Seconds_finite)
  with r show ?thesis by (simp add: times_float64_def f_round_nonneg)
qed

lemma refilled_ok:
  assumes "rate_ok rl" and "bucket_ok rl now b"
  shows "\<exists>y. refilled rl now b = Fin y \<and> 0 \<le> y \<and> y \<le> of_int (rl_capacity rl)
    \<and> (1 \<le> duration_Seconds (time_Sub now (bk_lastCheck b)) * rl_rate rl \<longrightarrow> 1 \<le> rl_capacity rl \<longrightarrow> 1 \<le> y)
    \<and> (f_of_int (rl_capacity rl) \<le> duration_Seconds (time_Sub now (bk_lastCheck b)) * rl_rate rl
        \<longrightarrow> y = of_int (rl_capacity rl))"
proof -
  obtain t where t: "bk_tokens b = Fin t" "0 \<le> t" "t \<le> of_int (rl_capacity rl)"
    using assms(2) by (auto simp: bucket_ok_def split: float64.splits)
  have c: "0 \<le> rl_capacity rl" "rl_capacity rl < 2 ^ 53" using assms(1) by (auto simp: rate_ok_def)
  then have "f_of_int (rl_capacity rl) = Fin (of_int (rl_capacity rl))" by (intro f_of_int_exact) simp
  moreover have "0 \<le> duration_Seconds (time_Sub now (bk_lastCheck b)) * rl_rate rl"
    using assms by (intro elapsed_nonneg) (auto simp: bucket_ok_def)
  ultimately show ?thesis using refill [OF t(2,3) _ c(2,1)] by (simp only: refilled_def t(1))
qed

lemma fresh_bucket_ok: "rate_ok rl \<Longrightarrow> now0 \<le> now \<Longrightarrow>
    bucket_ok rl now \<lparr>bk_tokens = f_of_int (rl_capacity rl), bk_lastCheck = now0\<rparr>"
  by (auto simp: bucket_ok_def rate_ok_def f_of_int_exact)

lemma bucket_of_ok:
  assumes "limiter_ok now rl" and "now0 \<le> now"
  shows "bucket_ok rl now (bucket_of rl now0 key)"
proof (cases "map_of (rl_buckets rl) key")
  case (Some b)
  then have "b \<in> set (rows_of (rl_buckets rl))" by (force dest: map_of_SomeD)
  with assms(1) Some show ?thesis by (auto simp: bucket_of_def limiter_ok_def list_all_iff)
qed (use assms fresh_bucket_ok in \<open>simp add: bucket_of_def limiter_ok_def\<close>)

lemma bucket_ok_later: "bucket_ok rl now b \<Longrightarrow> now \<le> now' \<Longrightarrow> bucket_ok rl now' b"
  by (auto simp: bucket_ok_def)

lemma limiter_ok_later: "limiter_ok now rl \<Longrightarrow> now \<le> now' \<Longrightarrow> limiter_ok now' rl"
  unfolding limiter_ok_def list_all_iff using bucket_ok_later by blast

lemma spend:
  assumes "0 \<le> y" and "y \<le> of_int cap" and "1 \<le> y" and "0 \<le> cap" and "cap < 2 ^ 53"
  shows "\<exists>z. Fin y + - 1 = Fin z \<and> 0 \<le> z \<and> z \<le> of_int cap"
proof -
  have "of_int 0 \<le> y - 1" "y - 1 \<le> of_int cap" using assms by simp_all
  then obtain z where "f_round (y - 1) = Fin z" "of_int 0 \<le> z" "z \<le> of_int cap"
    by (rule f_round_between) (use assms in auto)
  then show ?thesis by (simp add: one_float64_def)
qed

lemma Allow_frame:
  "rl_rate (snd (Allow now0 now key rl)) = rl_rate rl"
  "rl_capacity (snd (Allow now0 now key rl)) = rl_capacity rl"
  by (simp_all add: Allow_eq Let_def)

lemma rows_update: "set (rows_of (AList.update k v m)) \<subseteq> insert v (set (rows_of m))"
  using set_update [of k v m] by force

lemma Allow_ok:
  assumes "limiter_ok now rl" and "now0 \<le> now"
  shows "limiter_ok now (snd (Allow now0 now key rl))"
proof -
  let ?b = "bucket_of rl now0 key"
  have rok: "rate_ok rl" using assms(1) by (simp add: limiter_ok_def)
  then have c: "0 \<le> rl_capacity rl" "rl_capacity rl < 2 ^ 53" by (auto simp: rate_ok_def)
  obtain y where y: "refilled rl now ?b = Fin y" "0 \<le> y" "y \<le> of_int (rl_capacity rl)"
    using refilled_ok [OF rok bucket_of_ok [OF assms]] by blast
  define n where "n = \<lparr>bk_tokens = (if 1 \<le> refilled rl now ?b then refilled rl now ?b + - 1 else refilled rl now ?b),
      bk_lastCheck = now\<rparr>"
  have n: "bucket_ok rl now n"
  proof (cases "1 \<le> y")
    case True
    with spend [OF y(2,3) _ c] obtain z where "Fin y + - 1 = Fin z" "0 \<le> z" "z \<le> of_int (rl_capacity rl)" by blast
    with True y show ?thesis by (simp add: n_def bucket_ok_def one_float64_def)
  qed (use y in \<open>simp add: n_def bucket_ok_def one_float64_def\<close>)
  let ?rl = "snd (Allow now0 now key rl)"
  have rl: "?rl = rl\<lparr>rl_buckets := AList.update key n (rl_buckets rl)\<rparr>" by (simp add: n_def Allow_eq Let_def)
  have same: "bucket_ok ?rl now b = bucket_ok rl now b" for b
    by (cases "bk_tokens b") (simp_all add: bucket_ok_def Allow_frame)
  have "bucket_ok ?rl now b" if "b \<in> set (rows_of (rl_buckets ?rl))" for b
  proof -
    have "b \<in> set (rows_of (AList.update key n (rl_buckets rl)))" using that by (simp only: rl) simp
    then have "b \<in> insert n (set (rows_of (rl_buckets rl)))" by (rule subsetD [OF rows_update])
    then have "b = n \<or> b \<in> set (rows_of (rl_buckets rl))" by (simp only: insert_iff)
    then have "bucket_ok rl now b" using n assms(1) by (auto simp only: limiter_ok_def list_all_iff)
    then show ?thesis by (simp only: same)
  qed
  moreover have "rate_ok ?rl" using rok by (simp add: rate_ok_def Allow_frame)
  moreover have "distinct (keys_of (rl_buckets ?rl))" using assms(1) by (simp add: rl limiter_ok_def distinct_update)
  ultimately show ?thesis by (simp add: limiter_ok_def list_all_iff)
qed


section \<open>Sequences of requests\<close>

text \<open>A request is the two clock readings and the key.\<close>

fun run_allow :: "(time \<times> time \<times> string) list \<Rightarrow> RateLimiter \<Rightarrow> bool list \<times> RateLimiter" where
  "run_allow [] rl = ([], rl)"
| "run_allow ((now0, now, key) # rs) rl =
    (let (ok, rl) = Allow now0 now key rl; (oks, rl) = run_allow rs rl in (ok # oks, rl))"

text \<open>
  An admission control with separate accounts: what an account sees is a function of its
  own state, and a request leaves the other accounts alone. The answers an account gets in
  any sequence of requests are then those it would get if it were alone.
\<close>

locale separate_accounts =
  fixes account :: "'l \<Rightarrow> 'k \<Rightarrow> 'v" and admit :: "'i \<Rightarrow> 'k \<Rightarrow> 'l \<Rightarrow> bool \<times> 'l" and same :: "'l \<Rightarrow> 'l \<Rightarrow> bool"
  assumes own: "same l l' \<Longrightarrow> account l k = account l' k \<Longrightarrow>
      fst (admit i k l) = fst (admit i k l') \<and> account (snd (admit i k l)) k = account (snd (admit i k l')) k"
    and other: "k \<noteq> k' \<Longrightarrow> account (snd (admit i k l)) k' = account l k'"
    and same_admit: "same l l' \<Longrightarrow> same (snd (admit i k l)) l' \<and> same l (snd (admit i k l'))"
    and same_refl: "same l l"
begin

fun answers :: "('i \<times> 'k) list \<Rightarrow> 'l \<Rightarrow> bool list" where
  "answers [] l = []"
| "answers ((i, k) # rs) l = fst (admit i k l) # answers rs (snd (admit i k l))"

definition answers_to :: "'k \<Rightarrow> ('i \<times> 'k) list \<Rightarrow> 'l \<Rightarrow> bool list" where
  "answers_to k rs l = map snd (filter (\<lambda>((i, k'), a). k' = k) (zip rs (answers rs l)))"

lemma alone_sim:
  "same l l' \<Longrightarrow> account l k = account l' k \<Longrightarrow>
     answers_to k rs l = answers (filter (\<lambda>(i, k'). k' = k) rs) l'"
proof (induction rs arbitrary: l l')
  case (Cons r rs)
  obtain i k' where r: "r = (i, k')" by (cases r)
  show ?case
  proof (cases "k' = k")
    case True
    let ?l = "snd (admit i k l)" and ?l' = "snd (admit i k l')"
    have "same ?l ?l'" using Cons.prems(1) same_admit by blast
    moreover have a: "fst (admit i k l) = fst (admit i k l')" "account ?l k = account ?l' k"
      using own [OF Cons.prems] by blast+
    ultimately have "answers_to k rs ?l = answers (filter (\<lambda>(i, k'). k' = k) rs) ?l'"
      using Cons.IH by blast
    then show ?thesis using a(1) by (simp add: r True answers_to_def)
  next
    case False
    let ?l = "snd (admit i k' l)"
    have "same ?l l'" using Cons.prems(1) same_admit by blast
    moreover have "account ?l k = account l' k" using other [OF False] Cons.prems(2) by simp
    ultimately have "answers_to k rs ?l = answers (filter (\<lambda>(i, k'). k' = k) rs) l'"
      using Cons.IH by blast
    then show ?thesis by (simp add: r False answers_to_def)
  qed
qed (simp add: answers_to_def)

lemma alone: "answers_to k rs l = answers (filter (\<lambda>(i, k'). k' = k) rs) l"
  using same_refl by (rule alone_sim) simp

end

abbreviation admit_at :: "time \<times> time \<Rightarrow> string \<Rightarrow> RateLimiter \<Rightarrow> bool \<times> RateLimiter" where
  "admit_at i key rl \<equiv> Allow (fst i) (snd i) key rl"

abbreviation same_settings :: "RateLimiter \<Rightarrow> RateLimiter \<Rightarrow> bool" where
  "same_settings rl rl' \<equiv> rl_rate rl = rl_rate rl' \<and> rl_capacity rl = rl_capacity rl'"

lemma bucket_of_cong:
  "same_settings rl rl' \<Longrightarrow> map_of (rl_buckets rl) k = map_of (rl_buckets rl') k \<Longrightarrow>
     refilled rl now (bucket_of rl now0 k) = refilled rl' now (bucket_of rl' now0 k)"
  by (cases "map_of (rl_buckets rl') k") (simp_all add: refilled_def bucket_of_def)

interpretation limiter: separate_accounts "\<lambda>rl. map_of (rl_buckets rl)" admit_at same_settings
proof unfold_locales
  show "fst (admit_at i k l) = fst (admit_at i k l')
      \<and> map_of (rl_buckets (snd (admit_at i k l))) k = map_of (rl_buckets (snd (admit_at i k l'))) k"
    if "same_settings l l'" "map_of (rl_buckets l) k = map_of (rl_buckets l') k" for l l' k i
    using bucket_of_cong [OF that] by (simp add: Allow_eq Let_def)
qed (simp_all add: Allow_eq Let_def)

lemma run_allow_answers:
  "fst (run_allow (map (\<lambda>((now0, now), k). (now0, now, k)) rs) rl) = limiter.answers rs rl"
proof (induction rs arbitrary: rl)
  case (Cons r rs)
  obtain now0 now k where r: "r = ((now0, now), k)" by (metis prod.exhaust)
  show ?case using Cons.IH [of "snd (Allow now0 now k rl)"] by (simp add: r Let_def case_prod_unfold)
qed simp


text \<open>At one instant nothing is refilled: a bucket of \<open>m\<close> tokens admits \<open>m\<close> requests.\<close>

lemma refilled_now:
  assumes "rate_ok rl" and "bk_lastCheck b = now" and "bk_tokens b = Fin (of_int m)"
    and "0 \<le> m" and "m \<le> rl_capacity rl"
  shows "refilled rl now b = Fin (of_int m)"
proof -
  obtain r where r: "rl_rate rl = Fin r" using assms(1) by (auto simp: rate_ok_def split: float64.splits)
  have c: "\<bar>rl_capacity rl\<bar> < 2 ^ 53" "\<bar>m\<bar> < 2 ^ 53" using assms by (auto simp: rate_ok_def)
  show ?thesis using assms(5)
    by (simp add: refilled_def r assms(2,3) times_float64_def f_of_int_exact [OF c(1)] f_round_int [OF c(2)] rl_min_def)
qed

lemma burst_from:
  assumes "rate_ok rl" and "bucket_of rl now key = \<lparr>bk_tokens = Fin (of_int (int m)), bk_lastCheck = now\<rparr>"
    and "int m \<le> rl_capacity rl"
  shows "fst (run_allow (replicate n (now, now, key)) rl) = replicate (min n m) True @ replicate (n - m) False"
  using assms
proof (induction n arbitrary: rl m)
  case (Suc n)
  have t: "refilled rl now (bucket_of rl now key) = Fin (of_int (int m))"
    using Suc.prems by (intro refilled_now) simp_all
  let ?rl = "snd (Allow now now key rl)"
  have ok: "rate_ok ?rl" using Suc.prems(1) by (simp add: rate_ok_def Allow_frame)
  have cap: "rl_capacity rl < 2 ^ 53" using Suc.prems(1) by (simp add: rate_ok_def)
  show ?case
  proof (cases m)
    case 0
    then have "\<not> 1 \<le> refilled rl now (bucket_of rl now key)" using t by (simp add: one_float64_def)
    then have a: "fst (Allow now now key rl) = False"
        "bucket_of ?rl now key = \<lparr>bk_tokens = Fin (of_int (int 0)), bk_lastCheck = now\<rparr>"
      using t 0 by (simp_all add: Allow_eq Let_def bucket_of_def)
    from Suc.IH [OF ok a(2)] Suc.prems(3) 0 show ?thesis by (simp add: a(1) Allow_frame case_prod_unfold Let_def)
  next
    case (Suc k)
    have "f_round (of_int (int k)) = Fin (of_int (int k))" using Suc Suc.prems(3) cap by (intro f_round_int) simp
    then have "Fin (of_int (int m)) + - 1 = Fin (of_int (int k))" using Suc by (simp add: one_float64_def)
    moreover have "1 \<le> refilled rl now (bucket_of rl now key)" using t Suc by (simp add: one_float64_def)
    ultimately have a: "fst (Allow now now key rl) = True"
        "bucket_of ?rl now key = \<lparr>bk_tokens = Fin (of_int (int k)), bk_lastCheck = now\<rparr>"
      using t by (simp_all add: Allow_eq Let_def bucket_of_def)
    from Suc.IH [OF ok a(2)] \<open>int m \<le> rl_capacity rl\<close> Suc show ?thesis
      by (simp add: a(1) Allow_frame case_prod_unfold Let_def)
  qed
qed simp

text \<open>Removing a bucket that is due a full refill cannot be told from keeping it.\<close>

definition stale :: "RateLimiter \<Rightarrow> time \<Rightarrow> bucket \<Rightarrow> bool" where
  "stale rl now b \<longleftrightarrow> bk_lastCheck b \<le> now
     \<and> f_of_int (rl_capacity rl) \<le> duration_Seconds (time_Sub now (bk_lastCheck b)) * rl_rate rl"

definition swept :: "time \<Rightarrow> RateLimiter \<Rightarrow> RateLimiter \<Rightarrow> bool" where
  "swept now rl rl' \<longleftrightarrow> same_settings rl rl' \<and> (\<forall>k. map_of (rl_buckets rl') k = map_of (rl_buckets rl) k
     \<or> map_of (rl_buckets rl') k = None \<and> stale rl now (the (map_of (rl_buckets rl) k)))"

lemma times_mono_rate:
  assumes "0 \<le> d" and "d \<le> d'" and "d' \<le> max_int64" and "rate_ok rl"
  shows "duration_Seconds d * rl_rate rl \<le> duration_Seconds d' * rl_rate rl"
proof -
  obtain r where r: "rl_rate rl = Fin r" "0 \<le> r" using assms(4) by (auto simp: rate_ok_def split: float64.splits)
  obtain x where x: "duration_Seconds d = Fin x" "0 \<le> x" using duration_Seconds_finite assms by (metis order_trans)
  obtain y where y: "duration_Seconds d' = Fin y" using duration_Seconds_finite assms by (metis order_trans)
  have "x \<le> y" using duration_Seconds_mono [OF assms(1-3)] x(1) y by simp
  then show ?thesis using x(2) r(2) by (simp add: x(1) y r(1) times_mono_finite)
qed

lemma stale_later:
  assumes "stale rl now b" and "now \<le> now'" and "rate_ok rl"
  shows "stale rl now' b"
proof -
  have "0 \<le> time_Sub now (bk_lastCheck b)" using assms(1) by (intro time_Sub_nonneg) (simp add: stale_def)
  moreover have "time_Sub now (bk_lastCheck b) \<le> time_Sub now' (bk_lastCheck b)" "time_Sub now' (bk_lastCheck b) \<le> max_int64"
    using assms(2) by (auto simp: time_Sub_def min_int64_def max_int64_def)
  ultimately have "duration_Seconds (time_Sub now (bk_lastCheck b)) * rl_rate rl
      \<le> duration_Seconds (time_Sub now' (bk_lastCheck b)) * rl_rate rl" using assms(3) by (rule times_mono_rate)
  with assms(1,2) show ?thesis by (auto simp: stale_def intro: f_le_trans)
qed

lemma refilled_full:
  assumes "rate_ok rl" and "bucket_ok rl now b" and "stale rl now b"
  shows "refilled rl now b = f_of_int (rl_capacity rl)"
  using refilled_ok [OF assms(1,2)] assms(1,3) by (auto simp: stale_def rate_ok_def f_of_int_exact)

lemma refilled_fresh:
  assumes "rate_ok rl" and "now0 \<le> now"
  shows "refilled rl now \<lparr>bk_tokens = f_of_int (rl_capacity rl), bk_lastCheck = now0\<rparr> = f_of_int (rl_capacity rl)"
proof -
  have c: "0 \<le> rl_capacity rl" "rl_capacity rl < 2 ^ 53" using assms(1) by (auto simp: rate_ok_def)
  then have f: "f_of_int (rl_capacity rl) = Fin (of_int (rl_capacity rl))" by (intro f_of_int_exact) simp
  let ?x = "duration_Seconds (time_Sub now now0) * rl_rate rl"
  have x: "0 \<le> ?x" using assms by (rule elapsed_nonneg)
  have "Fin (of_int (rl_capacity rl)) + 0 \<le> Fin (of_int (rl_capacity rl)) + ?x"
    using x c by (intro plus_mono_nonneg) (auto simp: zero_float64_def)
  moreover have "Fin (of_int (rl_capacity rl)) + 0 = Fin (of_int (rl_capacity rl))"
    using c by (simp add: zero_float64_def f_round_int)
  ultimately have "Fin (of_int (rl_capacity rl)) \<le> Fin (of_int (rl_capacity rl)) + ?x" by simp
  then show ?thesis using f_not_less [of "Fin (of_int (rl_capacity rl))" "Fin (of_int (rl_capacity rl)) + ?x"]
    unfolding refilled_def rl_min_def f
    by (cases "Fin (of_int (rl_capacity rl)) + ?x") (auto simp: f)
qed


lemma rate_ok_cong: "same_settings rl rl' \<Longrightarrow> rate_ok rl = rate_ok rl'"
  by (cases "rl_rate rl'") (simp_all add: rate_ok_def)

lemma stale_cong: "same_settings rl rl' \<Longrightarrow> stale rl now b = stale rl' now b"
  by (simp add: stale_def)

lemma swept_refilled:
  assumes "limiter_ok now rl" and "swept now rl rl'" and "now0 \<le> now"
  shows "refilled rl' now (bucket_of rl' now0 key) = refilled rl now (bucket_of rl now0 key)"
proof (cases "map_of (rl_buckets rl') key = map_of (rl_buckets rl) key")
  case True
  with assms(2) show ?thesis by (intro bucket_of_cong) (simp_all add: swept_def)
next
  case False
  then have n: "map_of (rl_buckets rl') key = None" "stale rl now (the (map_of (rl_buckets rl) key))"
    using assms(2) unfolding swept_def by metis+
  with False obtain b where b: "map_of (rl_buckets rl') key = None" "map_of (rl_buckets rl) key = Some b" "stale rl now b"
    by (cases "map_of (rl_buckets rl) key") simp_all
  have rok: "rate_ok rl" "rate_ok rl'" using assms rate_ok_cong [of rl rl'] by (auto simp: limiter_ok_def swept_def)
  have "refilled rl now (bucket_of rl now0 key) = f_of_int (rl_capacity rl)"
    using refilled_full [OF rok(1) bucket_of_ok [OF assms(1,3)], of key] b by (simp add: bucket_of_def)
  moreover have "refilled rl' now (bucket_of rl' now0 key) = f_of_int (rl_capacity rl')"
    using refilled_fresh [OF rok(2) assms(3)] b(1) by (simp add: bucket_of_def)
  ultimately show ?thesis using assms(2) by (simp add: swept_def)
qed

lemma swept_step:
  assumes "limiter_ok now rl" and "swept now rl rl'" and "now0 \<le> now"
  shows "fst (Allow now0 now key rl') = fst (Allow now0 now key rl)
    \<and> swept now (snd (Allow now0 now key rl)) (snd (Allow now0 now key rl'))"
proof -
  have set: "same_settings rl (snd (Allow now0 now key rl))" by (simp add: Allow_frame)
  have "swept now (snd (Allow now0 now key rl)) (snd (Allow now0 now key rl'))"
    unfolding swept_def stale_cong [OF set, symmetric]
    using assms(2) swept_refilled [OF assms, of key]
    by (auto simp: swept_def Allow_eq Let_def)
  then show ?thesis using swept_refilled [OF assms, of key] by (simp add: Allow_eq Let_def)
qed

fun in_order :: "time \<Rightarrow> (time \<times> time \<times> string) list \<Rightarrow> bool" where
  "in_order t [] = True"
| "in_order t ((now0, now, key) # rs) \<longleftrightarrow> t \<le> now \<and> now0 \<le> now \<and> in_order now rs"

lemma swept_later: "swept now rl rl' \<Longrightarrow> now \<le> now' \<Longrightarrow> rate_ok rl \<Longrightarrow> swept now' rl rl'"
  using stale_later [of rl now _ now'] unfolding swept_def by metis

lemma swept_run:
  "limiter_ok t rl \<Longrightarrow> swept t rl rl' \<Longrightarrow> in_order t rs \<Longrightarrow> fst (run_allow rs rl') = fst (run_allow rs rl)"
proof (induction rs arbitrary: t rl rl')
  case (Cons r rs)
  obtain now0 now key where r: "r = (now0, now, key)" by (cases r)
  have o: "t \<le> now" "now0 \<le> now" "in_order now rs" using Cons.prems(3) by (auto simp: r)
  have ok: "limiter_ok now rl" using Cons.prems(1) o(1) by (rule limiter_ok_later)
  have "swept now rl rl'" using Cons.prems(1,2) o(1) by (auto simp: limiter_ok_def intro: swept_later)
  from swept_step [OF ok this o(2), of key] Cons.IH [OF Allow_ok [OF ok o(2), of key] _ o(3)]
  show ?case by (simp add: r Let_def case_prod_unfold)
qed simp

lemma map_of_filter: "distinct (keys_of m) \<Longrightarrow>
    map_of (filter (\<lambda>(k, b). P b) m) k = (case map_of m k of None \<Rightarrow> None | Some b \<Rightarrow> if P b then Some b else None)"
  by (induction m) (auto simp: map_of_eq_None_iff split: option.splits)

lemma Cleanup_swept:
  assumes "limiter_ok now rl" and "0 \<le> maxAge" and "maxAge \<le> max_int64"
    and "f_of_int (rl_capacity rl) \<le> duration_Seconds maxAge * rl_rate rl"
  shows "swept now rl (Cleanup now maxAge rl)"
proof -
  have "stale rl now b" if "map_of (rl_buckets rl) k = Some b" "maxAge < time_Sub now (bk_lastCheck b)" for k b
  proof -
    have "b \<in> set (rows_of (rl_buckets rl))" using that(1) by (force dest: map_of_SomeD)
    then have "bk_lastCheck b \<le> now" using assms(1) by (auto simp: limiter_ok_def list_all_iff bucket_ok_def)
    moreover have "duration_Seconds maxAge * rl_rate rl \<le> duration_Seconds (time_Sub now (bk_lastCheck b)) * rl_rate rl"
      using assms(1,2) that(2)
      by (intro times_mono_rate) (auto simp: limiter_ok_def time_Sub_def min_int64_def max_int64_def)
    ultimately show ?thesis using assms(4) by (auto simp: stale_def intro: f_le_trans)
  qed
  then show ?thesis using assms(1)
    by (auto simp: swept_def Cleanup_def map_of_filter limiter_ok_def split: option.splits)
qed


section \<open>Properties\<close>

text \<open>
  The burst. For every finite rate and every capacity below $2^{53}$, a key without a
  bucket that sends \<open>n\<close> requests at one instant gets exactly the first \<open>capacity\<close> of them
  admitted and the rest refused; the floating-point bookkeeping loses and gains nothing.
\<close>

lemma burst_exact:
  assumes "0 \<le> r" and "int cap < 2 ^ 53" and "rl_rate rl = Fin r" and "rl_capacity rl = int cap"
    and "map_of (rl_buckets rl) key = None"
  shows "fst (run_allow (replicate n (now, now, key)) rl) = replicate (min n cap) True @ replicate (n - cap) False"
proof (rule burst_from)
  show "rate_ok rl" using assms by (simp add: rate_ok_def)
  show "bucket_of rl now key = \<lparr>bk_tokens = Fin (of_int (int cap)), bk_lastCheck = now\<rparr>"
    using assms by (simp add: bucket_of_def f_of_int_exact)
qed (simp add: assms)

text \<open>
  Keys do not influence each other. In any sequence of requests, whatever the clock
  readings, the rate and the capacity, the answers given to the requests of one key are
  those given when only that key's requests are made.
\<close>

lemma keys_independent:
  "map snd (filter (\<lambda>((now0, now, k), ok). k = key) (zip rs (fst (run_allow rs rl))))
     = fst (run_allow (filter (\<lambda>(now0, now, k). k = key) rs) rl)"
proof -
  define qs where "qs = map (\<lambda>(now0, now, k). ((now0, now), k)) rs"
  let ?f = "\<lambda>((now0, now), k). (now0, now, k)"
  have rs: "rs = map ?f qs" by (simp add: qs_def map_idI case_prod_unfold)
  have "map snd (filter (\<lambda>((now0, now, k), ok). k = key) (zip (map ?f qs) as))
      = map snd (filter (\<lambda>((i, k), ok). k = key) (zip qs as))" for as :: "bool list"
    by (induction qs as rule: list_induct2') auto
  moreover have "filter (\<lambda>(now0, now, k). k = key) (map ?f qs) = map ?f (filter (\<lambda>(i, k). k = key) qs)"
    by (induction qs) auto
  ultimately show ?thesis
    using limiter.alone [of key qs rl] by (simp only: rs run_allow_answers limiter.answers_to_def)
qed

text \<open>
  Cleanup is invisible when it is late enough. If the limiter is in order and a bucket
  unused for \<open>maxAge\<close> would be refilled to its capacity anyway, then dropping stale buckets
  changes no answer to any later sequence of requests.
\<close>

lemma cleanup_unobservable:
  assumes "limiter_ok now rl" and "0 \<le> maxAge" and "maxAge \<le> max_int64"
    and "f_of_int (rl_capacity rl) \<le> duration_Seconds maxAge * rl_rate rl"
    and "in_order now rs"
  shows "fst (run_allow rs (Cleanup now maxAge rl)) = fst (run_allow rs rl)"
  using assms(1) Cleanup_swept [OF assms(1-4)] assms(5) by (rule swept_run)

definition sample_limiter :: RateLimiter where
  "sample_limiter = \<lparr>rl_buckets = [(''ip:a'', \<lparr>bk_tokens = Fin 0, bk_lastCheck = 0\<rparr>)], rl_rate = Fin 1, rl_capacity = 2\<rparr>"

text \<open>A key that was refused is admitted again once a token's worth of time has passed.\<close>

lemma not_starved:
  assumes "limiter_ok now rl" and "map_of (rl_buckets rl) key = Some b" and "1 \<le> rl_capacity rl"
    and "1 \<le> duration_Seconds (time_Sub now (bk_lastCheck b)) * rl_rate rl"
  shows "fst (Allow now0 now key rl)"
proof -
  have "bucket_ok rl now b"
    using assms(1,2) by (force simp: limiter_ok_def list_all_iff dest: map_of_SomeD)
  then obtain y where "refilled rl now b = Fin y" "1 \<le> y"
    using refilled_ok [of rl now b] assms(1,3,4) by (auto simp: limiter_ok_def)
  then show ?thesis using assms(2) by (simp add: Allow_eq Let_def bucket_of_def one_float64_def)
qed

end
