(* ===== verification/Go_Time.thy ===== *)
theory Go_Time
  imports Go_Base
begin

text \<open>
  Civil dates of the package \<^verbatim>\<open>time\<close>. \<open>civil\<close> gives the proleptic Gregorian date of a
  number of days since the first of January 1970, counting in eras of 400 years that begin
  on the first of March; \<open>days_of\<close> is its inverse.
\<close>

definition pad2 :: "int \<Rightarrow> string" where
  "pad2 n = [digit_char (nat (n div 10 mod 10)), digit_char (nat (n mod 10))]"

definition civil :: "int \<Rightarrow> int \<times> int \<times> int" where
  "civil days =
    (let z = days + 719468; era = z div 146097; doe = z - era * 146097;
         yoe = (doe - doe div 1460 + doe div 36524 - doe div 146096) div 365;
         doy = doe - (365 * yoe + yoe div 4 - yoe div 100); mp = (5 * doy + 2) div 153;
         d = doy - (153 * mp + 2) div 5 + 1; m = (if mp < 10 then mp + 3 else mp - 9)
     in (yoe + era * 400 + (if m \<le> 2 then 1 else 0), m, d))"

definition days_of :: "int \<Rightarrow> int \<Rightarrow> int \<Rightarrow> int" where
  "days_of y m d =
    (let y = (if m \<le> 2 then y - 1 else y); era = y div 400; yoe = y - era * 400;
         mp = (if m > 2 then m - 3 else m + 9); doy = (153 * mp + 2) div 5 + d - 1;
         doe = yoe * 365 + yoe div 4 - yoe div 100 + doy
     in era * 146097 + doe - 719468)"

text \<open>The year with at least four digits, as \<^verbatim>\<open>Format\<close> writes it.\<close>

definition year_text :: "int \<Rightarrow> string" where
  "year_text y = (let d = nat_dec (nat \<bar>y\<bar>) in
     (if y < 0 then ''-'' else []) @ replicate (4 - length d) (CHR ''0'') @ d)"

text \<open>The fraction of a second: nine digits without the trailing zeros, nothing for zero.\<close>

definition nano_text :: "int \<Rightarrow> string" where
  "nano_text n = (let ds = map (\<lambda>i. digit_char (nat (n div 10 ^ i mod 10))) [8, 7, 6, 5, 4, 3, 2, 1, 0];
                      kept = rev (dropWhile (\<lambda>c. c = CHR ''0'') (rev ds))
                  in if kept = [] then [] else CHR ''.'' # kept)"

definition RFC3339Nano_UTC :: "time \<Rightarrow> string" where
  "RFC3339Nano_UTC t =
    (let secs = t div second; s = secs mod 86400 in
     case civil (secs div 86400) of (y, m, d) \<Rightarrow>
       year_text y @ ''-'' @ pad2 m @ ''-'' @ pad2 d @ ''T'' @
       pad2 (s div 3600) @ '':'' @ pad2 (s div 60 mod 60) @ '':'' @ pad2 (s mod 60) @ nano_text (t mod second) @ ''Z'')"

end
