(* ===== verification/Auth_Jwt.thy ===== *)
theory Auth_Jwt
  imports Go_Time
begin

text \<open>
  \<^verbatim>\<open>internal/auth\<close>: issuing and verifying tokens (\<^verbatim>\<open>jwt.go\<close>) and key rotation
  (\<^verbatim>\<open>rotator.go\<close>). Errors of the package are looked at only by their text, so they are
  their text. Secrets are byte strings; a nil slice and an empty one differ where the code
  compares with nil, so \<^verbatim>\<open>PreviousSecret\<close> is optional.

  The JWT library is not part of the sources. It is the argument \<open>lib\<close> of the definitions:
  \<^verbatim>\<open>ParseWithClaims\<close>, \<^verbatim>\<open>SignedString\<close> and \<^verbatim>\<open>NewNumericDate\<close>. The predicate
  \<open>jwt_laws\<close> states what its documentation promises in terms of the unverified content of a token and
  of the signature check; the theorems have it as a hypothesis, and the witnesses
  meet it with a library that knows one token.
\<close>

section \<open>Claims and keys\<close>

definition Issuer :: string where
  "Issuer = ''nous''"

record Claims =
  cl_Subject :: string
  cl_Scopes :: "string list"
  cl_Issuer :: string
  cl_IssuedAt :: "time option"
  cl_NotBefore :: "time option"
  cl_ExpiresAt :: "time option"

record Token =
  tk_alg :: string
  tk_kid :: "string option"
  tk_claims :: Claims

record jwt_lib =
  ParseWithClaims :: "time \<Rightarrow> string \<Rightarrow> (Token \<Rightarrow> string + string) \<Rightarrow> string + (Claims \<times> bool)"
  SignedString :: "Token \<Rightarrow> string \<Rightarrow> string + string"
  NewNumericDate :: "time \<Rightarrow> time"

record KeySet =
  ActiveKID :: string
  ActiveSecret :: string
  PreviousKID :: string
  PreviousSecret :: "string option"

record Issuer_ =
  is_keys :: KeySet
  is_ttl :: duration

definition NewIssuer :: "KeySet \<Rightarrow> duration \<Rightarrow> Issuer_" where
  "NewIssuer keys ttl = \<lparr>is_keys = keys, is_ttl = ttl\<rparr>"

definition Issue ::
  "jwt_lib \<Rightarrow> Issuer_ \<Rightarrow> string \<Rightarrow> string list \<Rightarrow> duration \<Rightarrow> time \<Rightarrow> string + string" where
  "Issue lib i subject scopes ttl now =
    (if subject = [] then Inl ''auth: subject required''
     else if length (ActiveSecret (is_keys i)) = 0 then Inl ''auth: no active signing key''
     else
      let ttl = (if ttl \<le> 0 then is_ttl i else ttl);
          ttl = (if ttl \<le> 0 then 1 * hour else ttl);
          now = time_UTC now;
          claims = \<lparr>cl_Subject = subject, cl_Scopes = scopes, cl_Issuer = Issuer,
                    cl_IssuedAt = Some (NewNumericDate lib now), cl_NotBefore = Some (NewNumericDate lib now),
                    cl_ExpiresAt = Some (NewNumericDate lib (now + ttl))\<rparr>;
          tok = \<lparr>tk_alg = ''HS256'', tk_kid = None, tk_claims = claims\<rparr>;
          tok = (if ActiveKID (is_keys i) \<noteq> [] then tok\<lparr>tk_kid := Some (ActiveKID (is_keys i))\<rparr> else tok)
      in SignedString lib tok (ActiveSecret (is_keys i)))"


section \<open>Rotation\<close>

text \<open>\<^verbatim>\<open>overlap\<close> is stored by the constructor and read by nothing else.\<close>

record Rotator =
  rt_keys :: KeySet
  rt_period :: duration
  rt_overlap :: duration

record RotatorConfig =
  rc_Period :: duration
  rc_Overlap :: duration

text \<open>\<^verbatim>\<open>Format("20060102T150405Z")\<close> of the instant.\<close>

definition timeKID :: "time \<Rightarrow> string" where
  "timeKID t =
    (let secs = time_UTC t div second; day = secs div 86400; s = secs mod 86400 in
     case civil day of (y, m, d) \<Rightarrow>
       ''k-'' @ pad2 (y div 100) @ pad2 (y mod 100) @ pad2 m @ pad2 d @ ''T'' @
       pad2 (s div 3600) @ pad2 (s div 60 mod 60) @ pad2 (s mod 60) @ ''Z'')"

text \<open>\<open>rand\<close> is the answer of \<^verbatim>\<open>rand.Read\<close>: an error, or the 32 bytes it filled in.\<close>

definition generateSigningKey :: "string + string \<Rightarrow> string + string" where
  "generateSigningKey rand = (case rand of Inl err \<Rightarrow> Inl err | Inr b \<Rightarrow> Inr b)"

definition NewRotator :: "string + string \<Rightarrow> time \<Rightarrow> string \<Rightarrow> RotatorConfig \<Rightarrow> string + Rotator" where
  "NewRotator rand now initial cfg =
    (if rc_Period cfg \<le> 0 \<or> rc_Overlap cfg \<le> 0 then
       Inl ''auth: rotator period and overlap must be positive''
     else if rc_Overlap cfg > rc_Period cfg then
       Inl (''auth: overlap must be '' @ [CHR 0xE2, CHR 0x89, CHR 0xA4] @ '' period '' @
            [CHR 0xE2, CHR 0x80, CHR 0x94] @ '' otherwise multiple previous keys overlap'')
     else
      case (if length initial = 0 then generateSigningKey rand else Inr initial) of
        Inl err \<Rightarrow> Inl err
      | Inr initial \<Rightarrow>
          Inr \<lparr>rt_keys = \<lparr>ActiveKID = timeKID now, ActiveSecret = initial, PreviousKID = [], PreviousSecret = None\<rparr>,
               rt_period = rc_Period cfg, rt_overlap = rc_Overlap cfg\<rparr>)"

definition RotateNow :: "string + string \<Rightarrow> time \<Rightarrow> Rotator \<Rightarrow> string option \<times> Rotator" where
  "RotateNow rand now r = (case generateSigningKey rand of
       Inl err \<Rightarrow> (Some err, r)
     | Inr fresh \<Rightarrow>
        (None, r\<lparr>rt_keys := \<lparr>ActiveKID = timeKID now, ActiveSecret = fresh,
                             PreviousKID = ActiveKID (rt_keys r), PreviousSecret = Some (ActiveSecret (rt_keys r))\<rparr>\<rparr>))"

text \<open>The copies of the secrets have the same value.\<close>

definition Snapshot :: "Rotator \<Rightarrow> KeySet" where
  "Snapshot r =
    (let out = rt_keys r;
         out = out\<lparr>ActiveSecret := [] @ ActiveSecret (rt_keys r)\<rparr>;
         out = (case PreviousSecret (rt_keys r) of None \<Rightarrow> out
                | Some p \<Rightarrow> out\<lparr>PreviousSecret := Some ([] @ p)\<rparr>)
     in out)"

text \<open>
  The loop of \<^verbatim>\<open>Run\<close> over the events its \<^verbatim>\<open>select\<close> receives: the ticker (with the
  random bytes and the clock reading of the rotation), the context, the stop channel. The
  flag says whether it has returned.
\<close>

datatype rotator_event = Ticked "string + string" time | CtxDone | StopClosed

fun rotator_Run :: "rotator_event list \<Rightarrow> Rotator \<Rightarrow> bool \<times> Rotator" where
  "rotator_Run [] r = (False, r)"
| "rotator_Run (CtxDone # es) r = (True, r)"
| "rotator_Run (StopClosed # es) r = (True, r)"
| "rotator_Run (Ticked rand now # es) r = rotator_Run es (snd (RotateNow rand now r))"


section \<open>Verification\<close>

record Verifier =
  vf_keys :: KeySet
  vf_rotator :: "Rotator option"

definition NewVerifier :: "KeySet \<Rightarrow> Verifier" where
  "NewVerifier keys = \<lparr>vf_keys = keys, vf_rotator = None\<rparr>"

definition no_keys :: KeySet where
  "no_keys = \<lparr>ActiveKID = [], ActiveSecret = [], PreviousKID = [], PreviousSecret = None\<rparr>"

definition NewVerifierFromRotator :: "Rotator \<Rightarrow> Verifier" where
  "NewVerifierFromRotator r = \<lparr>vf_keys = no_keys, vf_rotator = Some r\<rparr>"

definition keysetFor :: "Verifier \<Rightarrow> KeySet" where
  "keysetFor v = (case vf_rotator v of Some r \<Rightarrow> Snapshot r | None \<Rightarrow> vf_keys v)"

abbreviation previous_bytes :: "KeySet \<Rightarrow> string" where
  "previous_bytes keys \<equiv> (case PreviousSecret keys of None \<Rightarrow> [] | Some p \<Rightarrow> p)"

fun Contains :: "string \<Rightarrow> string \<Rightarrow> bool" where
  "Contains [] sub = (sub = [])"
| "Contains (c # s) sub = (starts_with sub (c # s) \<or> Contains s sub)"

text \<open>The two key functions \<^verbatim>\<open>Verify\<close> passes to the parser.\<close>

definition keyfunc :: "(nat \<Rightarrow> bool) \<Rightarrow> KeySet \<Rightarrow> Token \<Rightarrow> string + string" where
  "keyfunc printable keys t =
    (if tk_alg t \<noteq> ''HS256'' then Inl (''auth: unexpected signing method '' @ fmt_q printable (tk_alg t))
     else
      let kid = (case tk_kid t of None \<Rightarrow> [] | Some k \<Rightarrow> k) in
      if kid = ActiveKID keys then Inr (ActiveSecret keys)
      else if kid = PreviousKID keys then
        (if length (previous_bytes keys) = 0 then Inl ''auth: previous key not configured''
         else Inr (previous_bytes keys))
      else if kid = [] then Inr (ActiveSecret keys)
      else Inl (''auth: unknown key id '' @ fmt_q printable kid))"

definition keyfunc_retry :: "KeySet \<Rightarrow> Token \<Rightarrow> string + string" where
  "keyfunc_retry keys t = Inr (previous_bytes keys)"

definition Verify ::
  "jwt_lib \<Rightarrow> (nat \<Rightarrow> bool) \<Rightarrow> Verifier \<Rightarrow> time \<Rightarrow> string \<Rightarrow> string + Claims" where
  "Verify lib printable v now tokenStr =
    (if tokenStr = [] then Inl ''auth: empty token''
     else
      let keys = keysetFor v in
      if length (ActiveSecret keys) = 0 \<and> length (previous_bytes keys) = 0 then Inl ''auth: no keys configured''
      else
       let parsed = ParseWithClaims lib now tokenStr (keyfunc printable keys);
           parsed = (case parsed of Inr p \<Rightarrow> Inr p
             | Inl err \<Rightarrow>
                (if PreviousSecret keys \<noteq> None \<and> Contains err ''signature is invalid''
                 then ParseWithClaims lib now tokenStr (keyfunc_retry keys) else Inl err))
       in case parsed of
            Inl err \<Rightarrow> Inl (''auth: parse: '' @ err)
          | Inr (claims, valid) \<Rightarrow>
             (if \<not> valid then Inl ''auth: invalid token''
              else if cl_Issuer claims \<noteq> [] \<and> cl_Issuer claims \<noteq> Issuer
                then Inl (''auth: unexpected issuer '' @ fmt_q printable (cl_Issuer claims))
              else Inr claims))"

fun HasScope_loop :: "string list \<Rightarrow> string \<Rightarrow> bool" where
  "HasScope_loop [] want = False"
| "HasScope_loop (s # ss) want = (if s = ''*'' \<or> s = want then True else HasScope_loop ss want)"

definition HasScope :: "Claims \<Rightarrow> string \<Rightarrow> bool" where
  "HasScope c want = HasScope_loop (cl_Scopes c) want"


section \<open>What the library promises\<close>

definition in_time :: "time \<Rightarrow> Claims \<Rightarrow> bool" where
  "in_time now c \<longleftrightarrow> (case cl_ExpiresAt c of None \<Rightarrow> True | Some e \<Rightarrow> now < e)
     \<and> (case cl_NotBefore c of None \<Rightarrow> True | Some n \<Rightarrow> n \<le> now)"

definition ascii :: "string \<Rightarrow> bool" where
  "ascii s \<longleftrightarrow> list_all (\<lambda>c. (of_char c :: nat) < 128) s"

text \<open>
  A token that the compact form can carry: ASCII texts (other bytes may be replaced) and
  dates of the library's precision.
\<close>

definition clean_token :: "jwt_lib \<Rightarrow> Token \<Rightarrow> bool" where
  "clean_token lib t \<longleftrightarrow> ascii (cl_Subject (tk_claims t)) \<and> list_all ascii (cl_Scopes (tk_claims t))
     \<and> ascii (cl_Issuer (tk_claims t)) \<and> pred_option ascii (tk_kid t)
     \<and> pred_option (\<lambda>d. NewNumericDate lib d = d) (cl_IssuedAt (tk_claims t))
     \<and> pred_option (\<lambda>d. NewNumericDate lib d = d) (cl_NotBefore (tk_claims t))
     \<and> pred_option (\<lambda>d. NewNumericDate lib d = d) (cl_ExpiresAt (tk_claims t))"

definition parse_law :: "jwt_lib \<Rightarrow> (string \<Rightarrow> Token option) \<Rightarrow> (string \<Rightarrow> string \<Rightarrow> bool) \<Rightarrow> bool" where
  "parse_law lib content sig_ok \<longleftrightarrow> (\<forall>now s kf. case content s of
       None \<Rightarrow> isl (ParseWithClaims lib now s kf)
     | Some t \<Rightarrow> (case kf t of
           Inl e \<Rightarrow> isl (ParseWithClaims lib now s kf)
         | Inr k \<Rightarrow>
            (if \<not> sig_ok s k
             then \<exists>e. ParseWithClaims lib now s kf = Inl e \<and> Contains e ''signature is invalid''
             else if in_time now (tk_claims t) then ParseWithClaims lib now s kf = Inr (tk_claims t, True)
             else isl (ParseWithClaims lib now s kf))))"

definition sign_law :: "jwt_lib \<Rightarrow> (string \<Rightarrow> Token option) \<Rightarrow> (string \<Rightarrow> string \<Rightarrow> bool) \<Rightarrow> bool" where
  "sign_law lib content sig_ok \<longleftrightarrow> (\<forall>t k s. tk_alg t = ''HS256'' \<and> clean_token lib t \<and> SignedString lib t k = Inr s
     \<longrightarrow> s \<noteq> [] \<and> content s = Some t \<and> sig_ok s k)"

definition date_law :: "jwt_lib \<Rightarrow> bool" where
  "date_law lib \<longleftrightarrow> (\<forall>t. t - second < NewNumericDate lib t \<and> NewNumericDate lib t \<le> t
     \<and> NewNumericDate lib (NewNumericDate lib t) = NewNumericDate lib t)"

definition jwt_laws :: "jwt_lib \<Rightarrow> (string \<Rightarrow> Token option) \<Rightarrow> (string \<Rightarrow> string \<Rightarrow> bool) \<Rightarrow> bool" where
  "jwt_laws lib content sig_ok \<longleftrightarrow> parse_law lib content sig_ok \<and> sign_law lib content sig_ok \<and> date_law lib"

lemma parse_cases:
  assumes "parse_law lib content sig_ok"
  obtains (err) e where "ParseWithClaims lib now s kf = Inl e"
  | (ok) t k where "content s = Some t" "kf t = Inr k" "sig_ok s k" "in_time now (tk_claims t)"
      "ParseWithClaims lib now s kf = Inr (tk_claims t, True)"
proof (cases "ParseWithClaims lib now s kf")
  case (Inr p)
  have l: "case content s of
       None \<Rightarrow> isl (ParseWithClaims lib now s kf)
     | Some t \<Rightarrow> (case kf t of
           Inl e \<Rightarrow> isl (ParseWithClaims lib now s kf)
         | Inr k \<Rightarrow>
            (if \<not> sig_ok s k
             then \<exists>e. ParseWithClaims lib now s kf = Inl e \<and> Contains e ''signature is invalid''
             else if in_time now (tk_claims t) then ParseWithClaims lib now s kf = Inr (tk_claims t, True)
             else isl (ParseWithClaims lib now s kf)))"
    using assms unfolding parse_law_def by blast
  show ?thesis using l Inr by (auto split: option.splits sum.splits if_splits intro: ok)
qed (rule err)

lemma parse_accepts:
  assumes "parse_law lib content sig_ok" and "content s = Some t" and "kf t = Inr k" and "sig_ok s k"
    and "in_time now (tk_claims t)"
  shows "ParseWithClaims lib now s kf = Inr (tk_claims t, True)"
  using assms(1) [unfolded parse_law_def, rule_format, of now s kf] assms(2-5) by simp

lemma parse_bad_signature:
  assumes "parse_law lib content sig_ok" and "content s = Some t" and "kf t = Inr k" and "\<not> sig_ok s k"
  shows "\<exists>e. ParseWithClaims lib now s kf = Inl e \<and> Contains e ''signature is invalid''"
  using assms(1) [unfolded parse_law_def, rule_format, of now s kf] assms(2-4) by simp

lemma Snapshot_id [simp]: "Snapshot r = rt_keys r"
  by (cases "PreviousSecret (rt_keys r)") (simp_all add: Snapshot_def Let_def)

lemma NewIssuer_sel [simp]: "is_keys (NewIssuer k d) = k" "is_ttl (NewIssuer k d) = d"
  by (simp_all add: NewIssuer_def)

text \<open>A good signature under the key the token names, or under the previous key, is accepted.\<close>

lemma Verify_accepts:
  assumes "parse_law lib content sig_ok" and "content s = Some t" and "s \<noteq> []" and "in_time now (tk_claims t)"
    and "cl_Issuer (tk_claims t) = Issuer" and "keyfunc printable (keysetFor v) t = Inr k"
    and "length (ActiveSecret (keysetFor v)) \<noteq> 0 \<or> length (previous_bytes (keysetFor v)) \<noteq> 0"
    and "sig_ok s k \<or> (\<exists>p. PreviousSecret (keysetFor v) = Some p \<and> sig_ok s p)"
  shows "Verify lib printable v now s = Inr (tk_claims t)"
proof (cases "sig_ok s k")
  case True
  have "ParseWithClaims lib now s (keyfunc printable (keysetFor v)) = Inr (tk_claims t, True)"
    using assms(1,2) _ True assms(4) by (rule parse_accepts) (rule assms(6))
  then show ?thesis using assms(3,5,7) by (auto simp: Verify_def Let_def)
next
  case False
  then obtain p where p: "PreviousSecret (keysetFor v) = Some p" "sig_ok s p" using assms(8) by blast
  obtain e where "ParseWithClaims lib now s (keyfunc printable (keysetFor v)) = Inl e" "Contains e ''signature is invalid''"
    using parse_bad_signature [where kf = "keyfunc printable (keysetFor v)", OF assms(1,2,6) False] by blast
  moreover have "ParseWithClaims lib now s (keyfunc_retry (keysetFor v)) = Inr (tk_claims t, True)"
    using assms(1,2) _ p(2) assms(4) by (rule parse_accepts) (simp add: keyfunc_retry_def p(1))
  ultimately show ?thesis using assms(3,5,7) p(1) by (auto simp: Verify_def Let_def)
qed


section \<open>Properties\<close>

text \<open>
  (C36) Verification is sound. Given the documented behaviour of the JWT library, every token
  that \<open>Verify\<close> accepts carries exactly the claims returned, is within its validity period, names
  the issuer nous or none, and its signature verifies under the active secret (then its
  algorithm is HS256) or under a previous secret that is configured.
\<close>

theorem verify_sound:
  assumes "jwt_laws lib content sig_ok" and "Verify lib printable v now s = Inr c"
  shows "\<exists>t. content s = Some t \<and> c = tk_claims t \<and> in_time now c \<and> (cl_Issuer c = [] \<or> cl_Issuer c = Issuer)
    \<and> (sig_ok s (ActiveSecret (keysetFor v)) \<and> tk_alg t = ''HS256''
       \<or> (\<exists>p. PreviousSecret (keysetFor v) = Some p \<and> sig_ok s p))"
proof -
  let ?keys = "keysetFor v" and ?P = "ParseWithClaims lib now s"
  have pl: "parse_law lib content sig_ok" using assms(1) by (simp add: jwt_laws_def)
  have iss: "cl_Issuer c = [] \<or> cl_Issuer c = Issuer"
    and src: "(\<exists>b. ?P (keyfunc printable ?keys) = Inr (c, b))
      \<or> (PreviousSecret ?keys \<noteq> None \<and> (\<exists>b. ?P (keyfunc_retry ?keys) = Inr (c, b)))"
    using assms(2) by (auto simp: Verify_def Let_def split: if_splits sum.splits prod.splits)
  from src show ?thesis
  proof (elim disjE exE conjE)
    fix b assume b: "?P (keyfunc printable ?keys) = Inr (c, b)"
    from pl show ?thesis
    proof (cases rule: parse_cases [of lib content sig_ok now s "keyfunc printable ?keys"])
      case (ok t k)
      then have "c = tk_claims t" using b by simp
      moreover have "tk_alg t = ''HS256'' \<and> (k = ActiveSecret ?keys \<or> PreviousSecret ?keys = Some k)"
        using ok(2) by (auto simp: keyfunc_def Let_def split: if_splits option.splits)
      ultimately show ?thesis using ok iss by auto
    qed (use b in simp)
  next
    fix b assume p: "PreviousSecret ?keys \<noteq> None" and b: "?P (keyfunc_retry ?keys) = Inr (c, b)"
    from pl show ?thesis
    proof (cases rule: parse_cases [of lib content sig_ok now s "keyfunc_retry ?keys"])
      case (ok t k)
      then have "c = tk_claims t" using b by simp
      moreover have "PreviousSecret ?keys = Some k" using ok(2) p by (auto simp: keyfunc_retry_def)
      ultimately show ?thesis using ok iss by auto
    qed (use b in simp)
  qed
qed


definition issued :: "jwt_lib \<Rightarrow> Issuer_ \<Rightarrow> string \<Rightarrow> string list \<Rightarrow> duration \<Rightarrow> time \<Rightarrow> Token" where
  "issued lib i subject scopes ttl now = \<lparr>tk_alg = ''HS256'',
     tk_kid = (if ActiveKID (is_keys i) \<noteq> [] then Some (ActiveKID (is_keys i)) else None),
     tk_claims = \<lparr>cl_Subject = subject, cl_Scopes = scopes, cl_Issuer = Issuer,
       cl_IssuedAt = Some (NewNumericDate lib now), cl_NotBefore = Some (NewNumericDate lib now),
       cl_ExpiresAt = Some (NewNumericDate lib (now + (if 0 < ttl then ttl else if 0 < is_ttl i then is_ttl i else hour)))\<rparr>\<rparr>"

lemma Issue_issued:
  "Issue lib i subject scopes ttl now = Inr s \<Longrightarrow>
     subject \<noteq> [] \<and> ActiveSecret (is_keys i) \<noteq> [] \<and>
     SignedString lib (issued lib i subject scopes ttl now) (ActiveSecret (is_keys i)) = Inr s"
  by (auto simp: Issue_def issued_def Let_def not_le split: if_splits)

lemma issued_clean:
  "date_law lib \<Longrightarrow> ascii subject \<Longrightarrow> list_all ascii scopes \<Longrightarrow> ascii (ActiveKID (is_keys i)) \<Longrightarrow>
     clean_token lib (issued lib i subject scopes ttl now)"
  by (auto simp: clean_token_def issued_def date_law_def ascii_def Issuer_def)

lemma issued_in_time:
  assumes "date_law lib" and "0 < ttl" and "t0 \<le> now" and "now + second \<le> t0 + ttl"
  shows "in_time now (tk_claims (issued lib i subject scopes ttl t0))"
proof -
  have "NewNumericDate lib t0 \<le> t0" "t0 + ttl - second < NewNumericDate lib (t0 + ttl)"
    using assms(1) by (auto simp: date_law_def)
  with assms(2-4) show ?thesis by (simp add: in_time_def issued_def)
qed

text \<open>
  A rotation does not cut off live tokens. A token issued with the rotator's keys
  verifies, with the subject and the scopes it was issued for, until its time to live is
  over (up to the library's one-second precision), by the keys it was issued under and
  after one more rotation, whatever key that rotation drew and whatever its name.
\<close>

lemma one_rotation_keeps_tokens:
  assumes "jwt_laws lib content sig_ok"
    and "Issue lib (NewIssuer (Snapshot r) d) subject scopes ttl t0 = Inr s"
    and "ascii subject" and "list_all ascii scopes" and "ascii (ActiveKID (rt_keys r))"
    and "0 < ttl" and "t0 \<le> now" and "now + second \<le> t0 + ttl"
    and "r' = r \<or> r' = snd (RotateNow rand t1 r)"
  shows "\<exists>c. Verify lib printable (NewVerifierFromRotator r') now s = Inr c
    \<and> cl_Subject c = subject \<and> cl_Scopes c = scopes"
proof -
  let ?i = "NewIssuer (Snapshot r) d" and ?k0 = "rt_keys r"
  let ?t = "issued lib ?i subject scopes ttl t0"
  have laws: "parse_law lib content sig_ok" "sign_law lib content sig_ok" "date_law lib"
    using assms(1) by (simp_all add: jwt_laws_def)
  have iss: "ActiveSecret ?k0 \<noteq> []" "SignedString lib ?t (ActiveSecret ?k0) = Inr s"
    using Issue_issued [OF assms(2)] by simp_all
  have "clean_token lib ?t" using laws(3) assms(3-5) by (intro issued_clean) simp_all
  then have s: "s \<noteq> []" "content s = Some ?t" "sig_ok s (ActiveSecret ?k0)"
    using laws(2) [unfolded sign_law_def, rule_format, of ?t "ActiveSecret ?k0" s] iss(2)
    by (simp_all add: issued_def)
  have time: "in_time now (tk_claims ?t)" using laws(3) assms(6-8) by (rule issued_in_time)
  have kid: "(case tk_kid ?t of None \<Rightarrow> [] | Some k \<Rightarrow> k) = ActiveKID ?k0" "tk_alg ?t = ''HS256''"
    by (simp_all add: issued_def)
  have ks: "keysetFor (NewVerifierFromRotator r') = rt_keys r'" by (simp add: keysetFor_def NewVerifierFromRotator_def)
  have cl: "cl_Issuer (tk_claims ?t) = Issuer" "cl_Subject (tk_claims ?t) = subject" "cl_Scopes (tk_claims ?t) = scopes"
    by (simp_all add: issued_def)
  have "\<exists>k. keyfunc printable (rt_keys r') ?t = Inr k \<and> (sig_ok s k \<or> PreviousSecret (rt_keys r') = Some (ActiveSecret ?k0))
      \<and> (ActiveSecret (rt_keys r') \<noteq> [] \<or> previous_bytes (rt_keys r') \<noteq> [])"
    using assms(9) kid s(3) iss(1)
    by (cases rand) (auto simp: keyfunc_def Let_def RotateNow_def generateSigningKey_def)
  then obtain k where k: "keyfunc printable (rt_keys r') ?t = Inr k"
    "sig_ok s k \<or> PreviousSecret (rt_keys r') = Some (ActiveSecret ?k0)"
    "ActiveSecret (rt_keys r') \<noteq> [] \<or> previous_bytes (rt_keys r') \<noteq> []" by blast
  have "Verify lib printable (NewVerifierFromRotator r') now s = Inr (tk_claims ?t)"
    using laws(1) s(2,1) time cl(1) by (rule Verify_accepts) (use k s(3) in \<open>auto simp: ks\<close>)
  with cl show ?thesis by blast
qed

text \<open>
  Forgery when only the previous secret is configured. \<open>buildJWTVerifier\<close> builds such a
  verifier from the environment. If the active secret is empty and a previous one is set, a
  token without key id, or with the id of the active key, that is signed with the empty
  secret, which everybody knows, is accepted with any subject and scopes.
\<close>

lemma previous_only_accepts_forgery:
  assumes "jwt_laws lib content sig_ok"
    and "SignedString lib t [] = Inr s" and "clean_token lib t" and "tk_alg t = ''HS256''"
    and "tk_kid t = None \<or> tk_kid t = Some (ActiveKID keys)" and "PreviousKID keys \<noteq> []"
    and "cl_Issuer (tk_claims t) = Issuer" and "in_time now (tk_claims t)"
    and "ActiveSecret keys = []" and "PreviousSecret keys = Some p" and "p \<noteq> []"
  shows "Verify lib printable (NewVerifier keys) now s = Inr (tk_claims t)"
proof -
  have s: "s \<noteq> []" "content s = Some t" "sig_ok s []"
    using assms(1) assms(2-4) by (auto simp: jwt_laws_def sign_law_def)
  have ks: "keysetFor (NewVerifier keys) = keys" by (simp add: keysetFor_def NewVerifier_def)
  have "keyfunc printable keys t = Inr []" using assms(4-6,9) by (auto simp: keyfunc_def)
  with assms(1,7,8,10,11) s show ?thesis
    by (intro Verify_accepts [of lib content sig_ok _ _ _ _ _ "[]"]) (simp_all add: jwt_laws_def ks)
qed


text \<open>
  A library that knows one token: it signs the sample token under any secret and finds the
  signature good under the secret of the sample key set only.
\<close>

definition sample_token :: Token where
  "sample_token = \<lparr>tk_alg = ''HS256'', tk_kid = None, tk_claims = \<lparr>cl_Subject = ''ops'', cl_Scopes = [''*''],
     cl_Issuer = Issuer, cl_IssuedAt = Some 0, cl_NotBefore = Some 0, cl_ExpiresAt = Some (5 * second)\<rparr>\<rparr>"

definition one_token_lib :: "string \<Rightarrow> jwt_lib" where
  "one_token_lib secret = \<lparr>
     ParseWithClaims = (\<lambda>now s kf. if s \<noteq> ''tok'' then Inl ''token is malformed''
        else case kf sample_token of Inl e \<Rightarrow> Inl ''token is unverifiable''
          | Inr k \<Rightarrow> if k \<noteq> secret then Inl ''token signature is invalid''
                    else if in_time now (tk_claims sample_token) then Inr (tk_claims sample_token, True)
                    else Inl ''token has invalid claims''),
     SignedString = (\<lambda>t k. if t = sample_token \<and> k = secret then Inr ''tok'' else Inl ''key is invalid''),
     NewNumericDate = (\<lambda>t. t - t mod second)\<rparr>"

lemma one_token_laws:
  "jwt_laws (one_token_lib secret) (\<lambda>s. if s = ''tok'' then Some sample_token else None) (\<lambda>s k. k = secret)"
proof -
  have "Contains ''token signature is invalid'' ''signature is invalid''" by (simp add: starts_with_def)
  then have "parse_law (one_token_lib secret) (\<lambda>s. if s = ''tok'' then Some sample_token else None) (\<lambda>s k. k = secret)"
    unfolding parse_law_def by (auto simp: one_token_lib_def split: sum.splits)
  moreover have "sign_law (one_token_lib secret) (\<lambda>s. if s = ''tok'' then Some sample_token else None) (\<lambda>s k. k = secret)"
    by (auto simp: sign_law_def one_token_lib_def split: if_splits)
  moreover have "date_law (one_token_lib secret)"
  proof -
    have "t mod second < second" "0 \<le> t mod second" for t :: int by simp_all
    moreover have "(t - t mod second) mod second = 0" for t :: int by (simp only: minus_mod_eq_mult_div) simp
    ultimately show ?thesis by (simp add: date_law_def one_token_lib_def)
  qed
  ultimately show ?thesis by (simp add: jwt_laws_def)
qed

definition sample_rotator :: Rotator where
  "sample_rotator = \<lparr>rt_keys = \<lparr>ActiveKID = [], ActiveSecret = ''k'', PreviousKID = [], PreviousSecret = None\<rparr>,
     rt_period = hour, rt_overlap = minute\<rparr>"

lemma sample_issue:
  "Issue (one_token_lib ''k'') (NewIssuer (Snapshot sample_rotator) 0) ''ops'' [''*''] (5 * second) 0 = Inr ''tok''"
  by (simp add: Issue_def Let_def sample_rotator_def one_token_lib_def sample_token_def)

theorem verify_sound_witness:
  "\<exists>t. t = sample_token \<and> in_time second (tk_claims t)
     \<and> Verify (one_token_lib ''k'') (\<lambda>_. True) (NewVerifierFromRotator sample_rotator) second ''tok'' = Inr (tk_claims t)"
proof -
  have v: "Verify (one_token_lib ''k'') (\<lambda>_. True) (NewVerifierFromRotator sample_rotator) second ''tok''
      = Inr (tk_claims sample_token)"
    by (simp add: Verify_def Let_def keysetFor_def NewVerifierFromRotator_def sample_rotator_def one_token_lib_def
        keyfunc_def in_time_def sample_token_def)
  from verify_sound [OF one_token_laws v] v show ?thesis by (auto split: if_splits)
qed

end
