(* ===== verification/Http_Middleware.thy ===== *)
theory Http_Middleware
  imports Go_Json Rate_Limiter Auth_Jwt
begin

text \<open>
  The middlewares of \<^verbatim>\<open>internal/transport/http\<close> (\<^verbatim>\<open>auth.go\<close>, \<^verbatim>\<open>ratelimit.go\<close>,
  \<^verbatim>\<open>ratelimit_owner.go\<close>) and the interceptors of \<^verbatim>\<open>internal/transport/grpc/auth.go\<close>.

  A handler is a function from a request and a state to a response and a state. A rate
  limiter is part of the state of the middleware that owns it. A request holds the path in
  the escaped form of the request line; \<^verbatim>\<open>r.URL.Path\<close> is its decoding. The query and the
  headers are held as \<^verbatim>\<open>Query()\<close> and \<^verbatim>\<open>Header\<close> answer them: decoded, under
  canonical names, and \<^verbatim>\<open>Get\<close> gives the first value or the empty string. A body is
  the bytes it yields and the error it ends with, if any.
\<close>

section \<open>Requests and responses\<close>

record http_Request =
  hr_Method :: string
  hr_EscapedPath :: string
  hr_Query :: "(string \<times> string) list"
  hr_Header :: "(string \<times> string) list"
  hr_RemoteAddr :: string
  hr_Body :: "(string \<times> error option) option"

datatype resp_body = NoBody | Bytes string | JsonBody anyval

record http_Response =
  hs_Status :: int
  hs_Header :: "(string \<times> string) list"
  hs_Body :: resp_body

type_synonym 'w handler = "http_Request \<Rightarrow> 'w \<Rightarrow> http_Response \<times> 'w"

definition values_Get :: "(string \<times> string) list \<Rightarrow> string \<Rightarrow> string" where
  "values_Get vs key = (case map_of vs key of None \<Rightarrow> [] | Some v \<Rightarrow> v)"

text \<open>Percent decoding; what does not decode stays.\<close>

definition hex_pair :: "string \<Rightarrow> (char \<times> string) option" where
  "hex_pair s = (case s of
       a # b # r \<Rightarrow> (case hex_val a of None \<Rightarrow> None
         | Some x \<Rightarrow> (case hex_val b of None \<Rightarrow> None | Some y \<Rightarrow> Some (char_of (16 * x + y), r)))
     | _ \<Rightarrow> None)"

lemma hex_pair_shorter: "hex_pair s = Some (d, r) \<Longrightarrow> length r < length s"
  by (auto simp: hex_pair_def split: list.splits option.splits)

function pct_decode :: "string \<Rightarrow> string" where
  "pct_decode [] = []"
| "pct_decode (c # s) =
    (if c = CHR 0x25 then
       (case hex_pair s of Some (d, r) \<Rightarrow> d # pct_decode r | None \<Rightarrow> c # pct_decode s)
     else c # pct_decode s)"
  by pat_completeness auto
termination
  by (relation "measure length") (auto dest: hex_pair_shorter)

definition url_Path :: "http_Request \<Rightarrow> string" where
  "url_Path r = pct_decode (hr_EscapedPath r)"

abbreviation HasPrefix :: "string \<Rightarrow> string \<Rightarrow> bool" where
  "HasPrefix s p \<equiv> starts_with p s"

definition TrimPrefix :: "string \<Rightarrow> string \<Rightarrow> string" where
  "TrimPrefix s p = (if HasPrefix s p then drop (length p) s else s)"

definition json_error :: "int \<Rightarrow> string \<Rightarrow> http_Response" where
  "json_error code msg = \<lparr>hs_Status = code, hs_Header = [(''Content-Type'', ''application/json'')],
     hs_Body = JsonBody (VMap [(''error'', VString msg)])\<rparr>"

definition httpError :: "int \<Rightarrow> string \<Rightarrow> http_Response" where
  "httpError code msg = json_error code msg"

definition writeAuthErr :: "string \<Rightarrow> http_Response" where
  "writeAuthErr msg = json_error 401 msg"

definition isOpenPath :: "string \<Rightarrow> bool" where
  "isOpenPath p \<longleftrightarrow> (if p = ''/metrics'' then True else if HasPrefix p ''/v1/health'' then True else False)"


section \<open>Authentication\<close>

text \<open>\<^verbatim>\<open>subtle.ConstantTimeCompare\<close> answers equality.\<close>

definition BearerAuthMiddleware :: "string \<Rightarrow> 'w handler \<Rightarrow> 'w handler" where
  "BearerAuthMiddleware token next =
    (if token = [] then next
     else let expected = ''Bearer '' @ token in
      (\<lambda>r w. if isOpenPath (url_Path r) then next r w
             else let got = values_Get (hr_Header r) ''Authorization'' in
               if got = [] \<or> got \<noteq> expected then (writeAuthErr ''missing or invalid bearer token'', w)
               else next r w))"

definition CombinedAuthMiddleware ::
  "jwt_lib \<Rightarrow> (nat \<Rightarrow> bool) \<Rightarrow> time \<Rightarrow> string \<Rightarrow> Verifier option \<Rightarrow> 'w handler \<Rightarrow> 'w handler" where
  "CombinedAuthMiddleware lib printable now staticToken verifier next =
    (if staticToken = [] \<and> verifier = None then next
     else let staticExpected = ''Bearer '' @ staticToken in
      (\<lambda>r w. if isOpenPath (url_Path r) then next r w
             else let raw = values_Get (hr_Header r) ''Authorization'' in
               if raw = [] then (writeAuthErr ''missing bearer token'', w)
               else if staticToken \<noteq> [] \<and> raw = staticExpected then next r w
               else (case verifier of
                   Some v \<Rightarrow>
                     (if HasPrefix raw ''Bearer '' \<and> \<not> isl (Verify lib printable v now (TrimPrefix raw ''Bearer ''))
                      then next r w else (writeAuthErr ''missing or invalid bearer token'', w))
                 | None \<Rightarrow> (writeAuthErr ''missing or invalid bearer token'', w))))"

text \<open>
  The gRPC interceptors. The incoming metadata is absent or answers \<^verbatim>\<open>md.Get\<close>; an
  error is a status code and a message.
\<close>

datatype grpc_code = Unauthenticated | InvalidArgument | NotFound | FailedPrecondition | Internal

type_synonym 'a grpc_result = "(grpc_code \<times> string) + 'a"

type_synonym metadata = "string \<Rightarrow> string list"

type_synonym ('q, 'a, 'w) unary_handler = "'q \<Rightarrow> 'w \<Rightarrow> 'a grpc_result \<times> 'w"

fun firstAuthHeader_loop :: "string list \<Rightarrow> metadata \<Rightarrow> string" where
  "firstAuthHeader_loop [] md = []"
| "firstAuthHeader_loop (key # keys) md =
     (case md key of v # _ \<Rightarrow> TrimSpace v | [] \<Rightarrow> firstAuthHeader_loop keys md)"

definition firstAuthHeader :: "metadata \<Rightarrow> string" where
  "firstAuthHeader md = firstAuthHeader_loop [''authorization'', ''Authorization''] md"

definition BearerAuthInterceptor ::
  "string \<Rightarrow> metadata option \<Rightarrow> ('q, 'a, 'w) unary_handler \<Rightarrow> ('q, 'a, 'w) unary_handler" where
  "BearerAuthInterceptor token mdo h =
    (if token = [] then h
     else let expected = ''Bearer '' @ token in
      (\<lambda>req w. case mdo of None \<Rightarrow> (Inl (Unauthenticated, ''missing metadata''), w)
        | Some md \<Rightarrow>
          (let got = firstAuthHeader md in
           if got = [] then (Inl (Unauthenticated, ''missing authorization metadata''), w)
           else if got \<noteq> expected then (Inl (Unauthenticated, ''invalid bearer token''), w)
           else h req w)))"

definition CombinedAuthInterceptor ::
  "jwt_lib \<Rightarrow> (nat \<Rightarrow> bool) \<Rightarrow> time \<Rightarrow> string \<Rightarrow> Verifier option \<Rightarrow> metadata option \<Rightarrow>
   ('q, 'a, 'w) unary_handler \<Rightarrow> ('q, 'a, 'w) unary_handler" where
  "CombinedAuthInterceptor lib printable now staticToken verifier mdo h =
    (if staticToken = [] \<and> verifier = None then h
     else let expected = ''Bearer '' @ staticToken in
      (\<lambda>req w. case mdo of None \<Rightarrow> (Inl (Unauthenticated, ''missing metadata''), w)
        | Some md \<Rightarrow>
          (let got = firstAuthHeader md in
           if got = [] then (Inl (Unauthenticated, ''missing authorization metadata''), w)
           else if staticToken \<noteq> [] \<and> got = expected then h req w
           else (case verifier of
               Some v \<Rightarrow>
                 (if HasPrefix got ''Bearer '' \<and> \<not> isl (Verify lib printable v now (TrimPrefix got ''Bearer ''))
                  then h req w else (Inl (Unauthenticated, ''invalid or expired token''), w))
             | None \<Rightarrow> (Inl (Unauthenticated, ''invalid or expired token''), w)))))"


section \<open>Rate limiting\<close>

text \<open>
  \<^verbatim>\<open>net.SplitHostPort\<close>: host and port, or none when it returns an error. The port is
  after the last colon, a host in brackets may hold colons, and brackets may occur
  nowhere else.
\<close>

definition split_last_colon :: "string \<Rightarrow> (string \<times> string) option" where
  "split_last_colon s = (if CHR '':'' \<in> set s
     then Some (rev (tl (dropWhile (\<lambda>c. c \<noteq> CHR '':'') (rev s))), rev (takeWhile (\<lambda>c. c \<noteq> CHR '':'') (rev s)))
     else None)"

definition SplitHostPort :: "string \<Rightarrow> (string \<times> string) option" where
  "SplitHostPort hp = (case split_last_colon hp of None \<Rightarrow> None
     | Some (before, port) \<Rightarrow>
        if hp \<noteq> [] \<and> hd hp = CHR ''['' then
          (let end = length (takeWhile (\<lambda>c. c \<noteq> CHR '']'') hp) in
           if end = length hp then None
           else if end + 1 \<noteq> length before then None
           else let host = take (end - 1) (drop 1 hp) in
             if CHR ''['' \<in> set (drop 1 hp) \<or> CHR '']'' \<in> set (drop (end + 1) hp) then None
             else Some (host, port))
        else if CHR '':'' \<in> set before \<or> CHR ''['' \<in> set hp \<or> CHR '']'' \<in> set hp then None
        else Some (before, port))"

definition clientIP :: "http_Request \<Rightarrow> string" where
  "clientIP r =
    (let xff = values_Get (hr_Header r) ''X-Forwarded-For'' in
     if xff \<noteq> [] then (case SplitHostPort xff of Some (host, _) \<Rightarrow> host | None \<Rightarrow> xff)
     else let xri = values_Get (hr_Header r) ''X-Real-Ip'' in
       if xri \<noteq> [] then xri
       else (case SplitHostPort (hr_RemoteAddr r) of Some (host, _) \<Rightarrow> host | None \<Rightarrow> []))"

definition too_many :: http_Response where
  "too_many = (httpError 429 ''rate limit exceeded'')\<lparr>hs_Header :=
     [(''Retry-After'', ''1''), (''Content-Type'', ''application/json'')]\<rparr>"

definition RateLimitMiddleware :: "time \<Rightarrow> time \<Rightarrow> 'w handler \<Rightarrow> (RateLimiter \<times> 'w) handler" where
  "RateLimitMiddleware now0 now next r lw = (case lw of (limiter, w) \<Rightarrow>
     let key = clientIP r in
     case Allow now0 now key limiter of (ok, limiter) \<Rightarrow>
       if \<not> ok then (too_many, (limiter, w))
       else (case next r w of (resp, w) \<Rightarrow> (resp, (limiter, w))))"

text \<open>
  \<^verbatim>\<open>io.ReadAll\<close> of \<^verbatim>\<open>io.LimitReader(r.Body, 1<<20)\<close>: the first MiB, or the error the
  body ends with before that. The request that is passed on has what was read as its body.
\<close>

definition one_MiB :: nat where
  "one_MiB = 2 ^ 20"

definition read_limited :: "string \<times> error option \<Rightarrow> error + string" where
  "read_limited body = (case body of (bytes, err) \<Rightarrow>
     if one_MiB \<le> length bytes then Inr (take one_MiB bytes)
     else case err of None \<Rightarrow> Inr bytes | Some e \<Rightarrow> Inl e)"

definition owner_field :: "string \<Rightarrow> string option" where
  "owner_field buf = (case json_Unmarshal buf of
       Some (JObject ms) \<Rightarrow> (case string_field ''owner_id'' ms of (s, ok) \<Rightarrow> if ok then Some s else None)
     | Some JNull \<Rightarrow> Some []
     | _ \<Rightarrow> None)"

definition ownerKey :: "http_Request \<Rightarrow> (error + string) \<times> http_Request" where
  "ownerKey r =
    (let v = TrimSpace (values_Get (hr_Query r) ''owner_id'') in
     if v \<noteq> [] then (Inr (''owner:'' @ v), r)
     else let v = TrimSpace (values_Get (hr_Header r) ''X-Nous-Owner'') in
      if v \<noteq> [] then (Inr (''owner:'' @ v), r)
      else case (if hr_Method r = ''POST'' then hr_Body r else None) of
        None \<Rightarrow> (Inr (''ip:'' @ clientIP r), r)
      | Some body \<Rightarrow>
         (case read_limited body of
            Inl err \<Rightarrow> (Inl err, r)
          | Inr buf \<Rightarrow>
             (let r = r\<lparr>hr_Body := Some (buf, None)\<rparr>;
                  v = (case owner_field buf of Some s \<Rightarrow> TrimSpace s | None \<Rightarrow> [])
              in if v \<noteq> [] then (Inr (''owner:'' @ v), r) else (Inr (''ip:'' @ clientIP r), r))))"

definition OwnerRateLimitMiddleware ::
  "(error \<Rightarrow> string) \<Rightarrow> time \<Rightarrow> time \<Rightarrow> 'w handler \<Rightarrow> (RateLimiter \<times> 'w) handler" where
  "OwnerRateLimitMiddleware text now0 now next r lw = (case lw of (limiter, w) \<Rightarrow>
     if isOpenPath (url_Path r) then (case next r w of (resp, w) \<Rightarrow> (resp, (limiter, w)))
     else case ownerKey r of
       (Inl err, r) \<Rightarrow> (httpError 400 (text err), (limiter, w))
     | (Inr key, r) \<Rightarrow>
        (case Allow now0 now key limiter of (ok, limiter) \<Rightarrow>
           if \<not> ok then (too_many, (limiter, w))
           else (case next r w of (resp, w) \<Rightarrow> (resp, (limiter, w)))))"

end
