(* ===== verification/Validation_Cel.thy ===== *)
theory Validation_Cel
  imports Go_Base
begin

text \<open>
  \<^verbatim>\<open>internal/validation/cel.go\<close>: operator-defined rules on extract requests. The CEL
  library is not part of the sources; compiling an expression, the type of the result and
  the evaluation of a program are the argument \<open>cel\<close>. The rule parser is
  \<^verbatim>\<open>buildValidator\<close> of \<^verbatim>\<open>cmd/nous/main.go\<close>.
\<close>

record Rule =
  ru_Name :: string
  ru_Expr :: string

type_synonym cel_Program = "anymap \<Rightarrow> error + anyval"

record cel_Ast =
  ast_IsBool :: bool
  ast_Program :: "error + cel_Program"

record cel_lib =
  cel_NewEnv :: "error option"
  cel_Compile :: "string \<Rightarrow> error + cel_Ast"

record namedProgram =
  np_name :: string
  np_prog :: cel_Program

record Validator =
  va_programs :: "namedProgram list"

record validation_Input =
  vi_OwnerID :: string
  vi_Text :: string
  vi_SourceKinds :: "string list"

datatype rule_error =
    EnvError error
  | CompileError string error
  | NotBool string
  | ProgramError string error

fun compile_rules :: "cel_lib \<Rightarrow> Rule list \<Rightarrow> rule_error + namedProgram list" where
  "compile_rules cel [] = Inr []"
| "compile_rules cel (r # rs) = (case cel_Compile cel (ru_Expr r) of
       Inl err \<Rightarrow> Inl (CompileError (ru_Name r) err)
     | Inr ast \<Rightarrow>
        (if \<not> ast_IsBool ast then Inl (NotBool (ru_Name r))
         else case ast_Program ast of
           Inl err \<Rightarrow> Inl (ProgramError (ru_Name r) err)
         | Inr prog \<Rightarrow> (case compile_rules cel rs of
              Inl err \<Rightarrow> Inl err
            | Inr progs \<Rightarrow> Inr (\<lparr>np_name = ru_Name r, np_prog = prog\<rparr> # progs))))"

definition NewValidator :: "cel_lib \<Rightarrow> Rule list \<Rightarrow> rule_error + Validator" where
  "NewValidator cel rules = (case cel_NewEnv cel of
       Some err \<Rightarrow> Inl (EnvError err)
     | None \<Rightarrow> (case compile_rules cel rules of
         Inl err \<Rightarrow> Inl err
       | Inr progs \<Rightarrow> Inr \<lparr>va_programs = progs\<rparr>))"

datatype validation_error = RuleViolation string | EvalError string error

definition IsRuleViolation :: "validation_error \<Rightarrow> bool" where
  "IsRuleViolation e = (case e of RuleViolation _ \<Rightarrow> True | EvalError _ _ \<Rightarrow> False)"

text \<open>\<^verbatim>\<open>out == types.False || refIsFalse(out)\<close>: the result is the boolean false.\<close>

definition refIsFalse :: "anyval \<Rightarrow> bool" where
  "refIsFalse v = (case v of VBool b \<Rightarrow> \<not> b | _ \<Rightarrow> False)"

fun Validate_loop :: "anymap \<Rightarrow> namedProgram list \<Rightarrow> validation_error option" where
  "Validate_loop vars [] = None"
| "Validate_loop vars (p # ps) = (case np_prog p vars of
       Inl err \<Rightarrow> Some (EvalError (np_name p) err)
     | Inr out \<Rightarrow> if refIsFalse out then Some (RuleViolation (np_name p)) else Validate_loop vars ps)"

definition validation_vars :: "validation_Input \<Rightarrow> anymap" where
  "validation_vars i = [(''owner_id'', VString (vi_OwnerID i)), (''text'', VString (vi_Text i)),
     (''text_len'', VInt (int (length (vi_Text i)))),
     (''source_kinds'', VSlice ''string'' (map VString (vi_SourceKinds i)))]"

definition Validator_Validate :: "Validator option \<Rightarrow> validation_Input \<Rightarrow> validation_error option" where
  "Validator_Validate vo i = (case vo of None \<Rightarrow> None
     | Some v \<Rightarrow> if va_programs v = [] then None else Validate_loop (validation_vars i) (va_programs v))"


section \<open>The rules of the environment\<close>

text \<open>\<^verbatim>\<open>strings.Split(s, ",")\<close> and \<^verbatim>\<open>strings.Index(p, "=")\<close>.\<close>

fun split_on :: "char \<Rightarrow> string \<Rightarrow> string list" where
  "split_on d [] = [[]]"
| "split_on d (c # s) = (if c = d then [] # split_on d s
     else case split_on d s of p # ps \<Rightarrow> (c # p) # ps | [] \<Rightarrow> [[c]])"

fun parse_rules :: "string list \<Rightarrow> string + Rule list" where
  "parse_rules [] = Inr []"
| "parse_rules (p # ps) =
    (let p = TrimSpace p in
     if p = [] then parse_rules ps
     else let eq = length (takeWhile (\<lambda>c. c \<noteq> CHR ''='') p) in
      if eq = length p \<or> eq = 0 then Inl p
      else case parse_rules ps of Inl e \<Rightarrow> Inl e
        | Inr rs \<Rightarrow> Inr (\<lparr>ru_Name = TrimSpace (take eq p), ru_Expr = TrimSpace (drop (eq + 1) p)\<rparr> # rs))"

datatype build_error = BadRule string | BadExpr rule_error

definition buildValidator :: "cel_lib \<Rightarrow> string \<Rightarrow> build_error + Validator option" where
  "buildValidator cel rules =
    (let rules = TrimSpace rules in
     if rules = [] then Inr None
     else case parse_rules (split_on (CHR '','') rules) of
       Inl p \<Rightarrow> Inl (BadRule p)
     | Inr parsed \<Rightarrow> (case NewValidator cel parsed of Inl e \<Rightarrow> Inl (BadExpr e) | Inr v \<Rightarrow> Inr (Some v)))"


section \<open>Lemmas\<close>

text \<open>A request passes exactly when every rule evaluates without error to something but false.\<close>

lemma Validate_loop_None:
  "Validate_loop vars ps = None \<longleftrightarrow> list_all (\<lambda>p. case np_prog p vars of Inl _ \<Rightarrow> False | Inr out \<Rightarrow> \<not> refIsFalse out) ps"
  by (induction ps) (auto split: sum.splits)

lemma Validate_passes:
  "Validator_Validate (Some v) i = None
     \<longleftrightarrow> list_all (\<lambda>p. case np_prog p (validation_vars i) of Inl _ \<Rightarrow> False | Inr out \<Rightarrow> \<not> refIsFalse out) (va_programs v)"
  by (auto simp: Validator_Validate_def Validate_loop_None)

text \<open>The rule reported is the first that does not pass.\<close>

lemma Validate_first:
  "Validate_loop vars ps = Some e \<Longrightarrow> \<exists>qs p rs. ps = qs @ p # rs \<and> Validate_loop vars qs = None
     \<and> (e = RuleViolation (np_name p) \<or> (\<exists>err. e = EvalError (np_name p) err))"
proof (induction ps)
  case (Cons p ps)
  show ?case
  proof (cases "Validate_loop vars [p]")
    case None
    then have "Validate_loop vars ps = Some e" using Cons.prems by (auto split: sum.splits if_splits)
    then obtain qs q rs where "ps = qs @ q # rs" "Validate_loop vars qs = None"
      "e = RuleViolation (np_name q) \<or> (\<exists>err. e = EvalError (np_name q) err)" using Cons.IH by blast
    then show ?thesis using None
      by (intro exI [of _ "p # qs"] exI [of _ q] exI [of _ rs]) (auto split: sum.splits if_splits)
  next
    case (Some e')
    then show ?thesis using Cons.prems
      by (intro exI [of _ "[]"] exI [of _ p] exI [of _ ps]) (auto split: sum.splits if_splits)
  qed
qed simp

text \<open>
  Splitting and trimming only remove characters: no piece holds the separator. So no rule of
  the environment variable can have an expression with a comma in it.
\<close>

lemma split_on_free: "p \<in> set (split_on d s) \<Longrightarrow> d \<notin> set p"
  by (induction s arbitrary: p) (fastforce split: list.splits if_splits)+

lemma set_trim_seqs: "set (trim_seqs ps s) \<subseteq> set s"
proof -
  obtain u where "s = u @ trim_seqs ps s" using trim_seqs_suffix by blast
  then have "set s = set u \<union> set (trim_seqs ps s)" by (metis set_append)
  then show ?thesis by blast
qed

lemma set_TrimSpace: "set (TrimSpace s) \<subseteq> set s"
  using set_trim_seqs [of "map rev space_seqs" "rev (trim_seqs space_seqs s)"] set_trim_seqs [of space_seqs s]
  by (auto simp: TrimSpace_def)

lemma parse_rules_no_comma:
  "parse_rules ps = Inr rs \<Longrightarrow> \<forall>p \<in> set ps. CHR '','' \<notin> set p \<Longrightarrow> r \<in> set rs \<Longrightarrow> CHR '','' \<notin> set (ru_Expr r)"
proof (induction ps arbitrary: rs)
  case (Cons p ps)
  let ?p = "TrimSpace p" and ?e = "length (takeWhile (\<lambda>c. c \<noteq> CHR ''='') (TrimSpace p))"
  have "CHR '','' \<notin> set (TrimSpace (drop (?e + 1) ?p))"
    using set_TrimSpace [of "drop (?e + 1) ?p"] set_TrimSpace [of p] set_drop_subset [of "?e + 1" ?p]
      Cons.prems(2) by auto
  with Cons show ?case by (auto simp: Let_def split: if_splits sum.splits)
qed simp

lemma rules_no_comma:
  "parse_rules (split_on (CHR '','') s) = Inr rs \<Longrightarrow> r \<in> set rs \<Longrightarrow> CHR '','' \<notin> set (ru_Expr r)"
  using parse_rules_no_comma split_on_free by blast

end
