(* ===== verification/Go_Utf8.thy ===== *)
theory Go_Utf8
  imports Go_Json
begin

text \<open>
  Strings as sequences of runes: the conversions \<^verbatim>\<open>[]rune(s)\<close> and \<^verbatim>\<open>string(runes)\<close>,
  \<^verbatim>\<open>utf8.RuneCountInString\<close>, and their laws. A byte that does not decode counts as one
  replacement rune.
\<close>

function runes :: "string \<Rightarrow> nat list" where
  "runes [] = []"
| "runes (c # s) = (case decode_rune (c # s) of (r, w) \<Rightarrow> r # runes (drop w (c # s)))"
  by pat_completeness auto
termination
  by (relation "measure length") (auto dest: decode_rune_width)

declare runes.simps(2) [simp del]

definition string_of_runes :: "nat list \<Rightarrow> string" where
  "string_of_runes rs = concat (map encode_rune rs)"

definition RuneCountInString :: "string \<Rightarrow> nat" where
  "RuneCountInString s = length (runes s)"

definition valid_rune :: "nat \<Rightarrow> bool" where
  "valid_rune r \<longleftrightarrow> r < 0xD800 \<or> 0xE000 \<le> r \<and> r < 0x110000"

lemma string_of_runes_simps [simp]:
  "string_of_runes [] = []" "string_of_runes (r # rs) = encode_rune r @ string_of_runes rs"
  "string_of_runes (rs @ qs) = string_of_runes rs @ string_of_runes qs"
  by (simp_all add: string_of_runes_def)

lemma RuneCount_Nil [simp]: "RuneCountInString [] = 0"
  by (simp add: RuneCountInString_def)


section \<open>Encoding and decoding\<close>

lemma of_char_byte: "n < 256 \<Longrightarrow> of_char (char_of n) = (n :: nat)"
  by simp

lemma decode2:
  assumes "0xC2 \<le> b0" "b0 \<le> 0xDF" "x \<le> 63"
  shows "decode_rune (char_of b0 # char_of (0x80 + x) # s) = ((b0 - 0xC0) * 64 + x, 2)"
  using assms by (simp add: decode_rune.simps Let_def cont_byte_def of_char_byte)

lemma decode3:
  assumes "0xE0 \<le> b0" "b0 \<le> 0xEF" "x \<le> 63" "y \<le> 63"
    and "b0 = 0xE0 \<Longrightarrow> 32 \<le> x" "b0 = 0xED \<Longrightarrow> x < 32"
  shows "decode_rune (char_of b0 # char_of (0x80 + x) # char_of (0x80 + y) # s) = ((b0 - 0xE0) * 4096 + x * 64 + y, 3)"
  using assms by (cases "b0 = 0xE0"; cases "b0 = 0xED") (simp_all add: decode_rune.simps Let_def cont_byte_def of_char_byte)

lemma decode4:
  assumes "0xF0 \<le> b0" "b0 \<le> 0xF4" "x \<le> 63" "y \<le> 63" "z \<le> 63"
    and "b0 = 0xF0 \<Longrightarrow> 16 \<le> x" "b0 = 0xF4 \<Longrightarrow> x < 16"
  shows "decode_rune (char_of b0 # char_of (0x80 + x) # char_of (0x80 + y) # char_of (0x80 + z) # s) =
    ((b0 - 0xF0) * 262144 + x * 4096 + y * 64 + z, 4)"
  using assms by (cases "b0 = 0xF0"; cases "b0 = 0xF4") (simp_all add: decode_rune.simps Let_def cont_byte_def of_char_byte)

lemma decode_encode:
  assumes "valid_rune r"
  shows "decode_rune (encode_rune r @ s) = (r, length (encode_rune r))"
proof -
  let ?q = "r div 64" and ?p = "r div 4096" and ?o = "r div 262144"
  have m: "r mod 64 \<le> 63" "?q mod 64 \<le> 63" "?p mod 64 \<le> 63" by simp_all
  have q: "r = ?q * 64 + r mod 64" and p: "?q = ?p * 64 + ?q mod 64" and o: "?p = ?o * 64 + ?p mod 64"
    using div_mult2_eq [of r 64 64] div_mult2_eq [of r 4096 64] by simp_all
  consider "r < 0x80" | "0x80 \<le> r" "r < 0x800" | "0x800 \<le> r" "r < 0x10000" | "0x10000 \<le> r" "r < 0x110000"
    using assms by (force simp: valid_rune_def)
  then show ?thesis
  proof cases
    case 1
    then show ?thesis by (simp add: encode_rune_def decode_rune.simps Let_def of_char_byte)
  next
    case 2
    have "0xC2 \<le> 0xC0 + ?q" "0xC0 + ?q \<le> 0xDF" using 2 q m by linarith+
    from decode2 [OF this m(1)] show ?thesis using 2 by (simp add: encode_rune_def)
  next
    case 3
    have r: "?p * 4096 + ?q mod 64 * 64 + r mod 64 = r" using p q by linarith
    have "0xE0 + ?p \<le> 0xEF" using 3 r by linarith
    note d = decode3 [OF le_add1 this m(2,1), of s]
    have "32 \<le> ?q mod 64" if "0xE0 + ?p = 0xE0" using 3 r that m by linarith
    moreover have "?q mod 64 < 32" if "0xE0 + ?p = 0xED"
      using assms that 3 r m unfolding valid_rune_def by linarith
    ultimately show ?thesis using d 3 r by (simp add: encode_rune_def)
  next
    case 4
    have r: "?o * 262144 + ?p mod 64 * 4096 + ?q mod 64 * 64 + r mod 64 = r" using o p q by linarith
    have "0xF0 + ?o \<le> 0xF4" using 4 r by linarith
    note d = decode4 [OF le_add1 this m(3,2,1), of s]
    have "16 \<le> ?p mod 64" if "0xF0 + ?o = 0xF0" using 4 r that m by linarith
    moreover have "?p mod 64 < 16" if "0xF0 + ?o = 0xF4" using 4 r that m by linarith
    ultimately show ?thesis using d 4 r by (simp add: encode_rune_def)
  qed
qed

lemma encode_rune_Cons: "\<exists>c s. encode_rune r = c # s"
  by (simp add: encode_rune_def)

lemma runes_encode: "valid_rune r \<Longrightarrow> runes (encode_rune r @ s) = r # runes s"
proof -
  assume v: "valid_rune r"
  obtain c t where e: "encode_rune r = c # t" using encode_rune_Cons by blast
  show ?thesis using decode_encode [OF v, of s] by (simp add: e runes.simps)
qed

lemma runes_string_append: "list_all valid_rune rs \<Longrightarrow> runes (string_of_runes rs @ s) = rs @ runes s"
  by (induction rs) (simp_all add: runes_encode)

lemma runes_string: "list_all valid_rune rs \<Longrightarrow> runes (string_of_runes rs) = rs"
  using runes_string_append [of rs "[]"] by simp

text \<open>What is decoded is always a rune, the replacement included.\<close>

lemma three_bytes_valid:
  assumes "0xE0 \<le> b0" "b0 \<le> 0xEF" "b1 \<le> (if b0 = 0xED then 0x9F else 0xBF)" "b2 \<le> 0xBF"
  shows "valid_rune ((b0 - 0xE0) * 4096 + (b1 - 0x80) * 64 + (b2 - 0x80))"
proof -
  have "b0 \<le> 0xEC \<or> b0 = 0xED \<or> 0xEE \<le> b0" by linarith
  then show ?thesis using assms unfolding valid_rune_def by (elim disjE) (simp_all, linarith+)
qed

lemma four_bytes_valid:
  assumes "0xF0 \<le> b0" "b0 \<le> 0xF4" "b1 \<le> (if b0 = 0xF4 then 0x8F else 0xBF)" "(if b0 = 0xF0 then 0x90 else 0x80) \<le> b1"
    "b2 \<le> 0xBF" "b3 \<le> 0xBF"
  shows "valid_rune ((b0 - 0xF0) * 262144 + (b1 - 0x80) * 4096 + (b2 - 0x80) * 64 + (b3 - 0x80))"
proof -
  have "b0 = 0xF0 \<or> 0xF1 \<le> b0 \<and> b0 \<le> 0xF3 \<or> b0 = 0xF4" using assms(1,2) by linarith
  then show ?thesis using assms unfolding valid_rune_def by (elim disjE) (simp_all, linarith+)
qed

lemma valid_or_error: "(P \<Longrightarrow> valid_rune x) \<Longrightarrow> valid_rune (fst (if P then (x, n) else rune_error))"
  by (simp add: rune_error_def) (simp add: valid_rune_def)

lemma decode_valid: "valid_rune (fst (decode_rune (c # s)))"
proof -
  have e: "valid_rune 0xFFFD" and err: "valid_rune (fst rune_error)" by (simp_all add: valid_rune_def rune_error_def)
  have one: "valid_rune b" if "b < 0x80" for b using that by (simp add: valid_rune_def)
  have two: "valid_rune ((b0 - 0xC0) * 64 + b1 - 0x80)" if "b0 \<le> 0xDF" "b1 \<le> 0xBF" for b0 b1
    using that unfolding valid_rune_def by linarith
  let ?n = "of_char c :: nat" and ?l = "map of_char (take 3 s) :: nat list"
  consider "?n < 0x80" | "0xC2 \<le> ?n" "?n \<le> 0xDF" | "0xE0 \<le> ?n" "?n \<le> 0xEF" | "0xF0 \<le> ?n" "?n \<le> 0xF4"
    | "\<not> ?n < 0x80" "\<not> (0xC2 \<le> ?n \<and> ?n \<le> 0xDF)" "\<not> (0xE0 \<le> ?n \<and> ?n \<le> 0xEF)" "\<not> (0xF0 \<le> ?n \<and> ?n \<le> 0xF4)"
    by blast
  then show ?thesis
  proof cases
    case 1
    then show ?thesis by (simp add: decode_rune.simps one)
  next
    case 2
    then have "decode_rune (c # s) = (case ?l of b1 # _ \<Rightarrow>
        if cont_byte 0x80 0xBF b1 then ((?n - 0xC0) * 64 + (b1 - 0x80), 2) else rune_error | _ \<Rightarrow> rune_error)"
      by (simp add: decode_rune.simps Let_def)
    then show ?thesis using 2 by (simp add: rune_error_def e two cont_byte_def split: list.split)
  next
    case 3
    then have "decode_rune (c # s) = (case ?l of b1 # b2 # _ \<Rightarrow>
        if cont_byte (if ?n = 0xE0 then 0xA0 else 0x80) (if ?n = 0xED then 0x9F else 0xBF) b1 \<and> cont_byte 0x80 0xBF b2
        then ((?n - 0xE0) * 4096 + (b1 - 0x80) * 64 + (b2 - 0x80), 3) else rune_error | _ \<Rightarrow> rune_error)"
      by (simp add: decode_rune.simps Let_def)
    moreover have "valid_rune (fst (if cont_byte (if ?n = 0xE0 then 0xA0 else 0x80) (if ?n = 0xED then 0x9F else 0xBF) b1
        \<and> cont_byte 0x80 0xBF b2 then ((?n - 0xE0) * 4096 + (b1 - 0x80) * 64 + (b2 - 0x80), 3) else rune_error))" for b1 b2
      by (rule valid_or_error, rule three_bytes_valid [OF 3]) (simp_all add: cont_byte_def)
    ultimately show ?thesis using err by (simp only: split: list.split) blast
  next
    case 4
    then have "decode_rune (c # s) = (case ?l of b1 # b2 # b3 # _ \<Rightarrow>
        if cont_byte (if ?n = 0xF0 then 0x90 else 0x80) (if ?n = 0xF4 then 0x8F else 0xBF) b1
           \<and> cont_byte 0x80 0xBF b2 \<and> cont_byte 0x80 0xBF b3
        then ((?n - 0xF0) * 262144 + (b1 - 0x80) * 4096 + (b2 - 0x80) * 64 + (b3 - 0x80), 4) else rune_error | _ \<Rightarrow> rune_error)"
      by (simp add: decode_rune.simps Let_def)
    moreover have "valid_rune (fst (if cont_byte (if ?n = 0xF0 then 0x90 else 0x80) (if ?n = 0xF4 then 0x8F else 0xBF) b1
        \<and> cont_byte 0x80 0xBF b2 \<and> cont_byte 0x80 0xBF b3
        then ((?n - 0xF0) * 262144 + (b1 - 0x80) * 4096 + (b2 - 0x80) * 64 + (b3 - 0x80), 4) else rune_error))" for b1 b2 b3
      by (rule valid_or_error, rule four_bytes_valid [OF 4]) (simp_all add: cont_byte_def)
    ultimately show ?thesis using err by (simp only: split: list.split) blast
  next
    case 5
    then have "decode_rune (c # s) = rune_error" by (simp only: decode_rune.simps Let_def if_False)
    then show ?thesis by (simp add: rune_error_def e)
  qed
qed

lemma runes_valid: "list_all valid_rune (runes s)"
proof (induction s rule: runes.induct)
  case (2 c s)
  obtain r w where d: "decode_rune (c # s) = (r, w)" by fastforce
  show ?case using "2.IH" [OF d [symmetric]] decode_valid [of c s] by (simp add: runes.simps d)
qed simp

text \<open>The conversion to runes and back is the identity up to the replacement of bad bytes.\<close>

lemma runes_roundtrip: "runes (string_of_runes (runes s)) = runes s"
  by (rule runes_string [OF runes_valid])


section \<open>Counting across an ASCII boundary\<close>

lemma decode_stops:
  assumes "of_char d < (0x80 :: nat)"
  shows "decode_rune ((c # xs) @ d # z) = decode_rune (c # xs)" and "snd (decode_rune (c # xs)) \<le> Suc (length xs)"
proof -
  consider "xs = []" | x where "xs = [x]" | x y where "xs = [x, y]" | x y w ys where "xs = x # y # w # ys"
    by (metis list.exhaust)
  then show "decode_rune ((c # xs) @ d # z) = decode_rune (c # xs)" and "snd (decode_rune (c # xs)) \<le> Suc (length xs)"
    using assms by (cases; simp add: decode_rune.simps Let_def cont_byte_def rune_error_def split: list.split)+
qed

lemma RuneCount_ascii:
  assumes "of_char d < (0x80 :: nat)"
  shows "RuneCountInString (x @ d # z) = RuneCountInString x + RuneCountInString (d # z)"
proof (induction x rule: runes.induct)
  case (2 c s)
  obtain r w where d: "decode_rune (c # s) = (r, w)" by fastforce
  have "w \<le> Suc (length s)" "decode_rune ((c # s) @ d # z) = (r, w)"
    using decode_stops [OF assms, of c s] d by auto
  then show ?case
    using "2.IH" [OF d [symmetric]] drop_append [of w "c # s" "d # z"]
    by (simp add: RuneCountInString_def runes.simps(2) [of c] d)
qed simp

lemma RuneCount_ascii_Cons: "of_char d < (0x80 :: nat) \<Longrightarrow> RuneCountInString (d # z) = Suc (RuneCountInString z)"
  by (simp add: RuneCountInString_def runes.simps decode_rune.simps)


section \<open>Comparison\<close>

text \<open>Strings are compared byte by byte.\<close>

definition string_less :: "string \<Rightarrow> string \<Rightarrow> bool" where
  "string_less s t = ord_class.lexordp (map of_char s :: nat list) (map of_char t)"

lemma string_less_asym: "string_less s t \<Longrightarrow> \<not> string_less t s"
  using lexordp_antisym by (auto simp: string_less_def)

lemma string_less_neg_trans: "\<not> string_less s t \<Longrightarrow> \<not> string_less t u \<Longrightarrow> \<not> string_less s u"
  using lexordp_linear lexordp_trans unfolding string_less_def by metis

lemma string_less_total: "\<not> string_less s t \<Longrightarrow> \<not> string_less t s \<Longrightarrow> s = t"
proof -
  assume "\<not> string_less s t" "\<not> string_less t s"
  then have "map of_char s = (map of_char t :: nat list)"
    using lexordp_linear unfolding string_less_def by metis
  moreover have "inj (of_char :: char \<Rightarrow> nat)" by (simp add: inj_def)
  ultimately show ?thesis by (simp add: inj_map_eq_map)
qed

end
