(* ===== verification/Go_Json_Print.thy ===== *)
theory Go_Json_Print
  imports Go_Utf8
begin

text \<open>
  \<^verbatim>\<open>json.Marshal\<close>: the text of a JSON value, with the escapes Go writes (quotes, backslash,
  control characters, the HTML characters and the two line separators, and the replacement
  rune for bytes that are not UTF-8), and the round trip through \<^verbatim>\<open>json.Unmarshal\<close>.
\<close>

section \<open>Printing\<close>

definition hex2 :: "nat \<Rightarrow> string" where
  "hex2 n = [hex_char (n div 16), hex_char (n mod 16)]"

definition unicode_escape :: "nat \<Rightarrow> string" where
  "unicode_escape n = [CHR 0x5C, CHR ''u''] @ hex2 (n div 256) @ hex2 (n mod 256)"

definition html_char :: "nat \<Rightarrow> bool" where
  "html_char b \<longleftrightarrow> b = 0x3C \<or> b = 0x3E \<or> b = 0x26"

definition escape_ascii :: "char \<Rightarrow> string" where
  "escape_ascii c = (let b = of_char c in
     if c = CHR 0x5C \<or> c = CHR 0x22 then [CHR 0x5C, c]
     else if c = CHR 0x08 then [CHR 0x5C, CHR ''b''] else if c = CHR 0x0C then [CHR 0x5C, CHR ''f'']
     else if c = CHR 0x0A then [CHR 0x5C, CHR ''n''] else if c = CHR 0x0D then [CHR 0x5C, CHR ''r'']
     else if c = CHR 0x09 then [CHR 0x5C, CHR ''t'']
     else if b < 0x20 \<or> html_char b then unicode_escape b
     else [c])"

text \<open>The first rune of a text with its width, as it is written.\<close>

definition escape_rune :: "nat \<Rightarrow> nat \<Rightarrow> string \<Rightarrow> string" where
  "escape_rune r w s =
     (if of_char (hd s) < (0x80 :: nat) then escape_ascii (hd s)
      else if r = 0xFFFD \<and> w = 1 then unicode_escape 0xFFFD
      else if r = 0x2028 \<or> r = 0x2029 then unicode_escape r
      else take w s)"

function json_escape :: "string \<Rightarrow> string" where
  "json_escape [] = []"
| "json_escape (c # s) = (case decode_rune (c # s) of (r, w) \<Rightarrow> escape_rune r w (c # s) @ json_escape (drop w (c # s)))"
  by pat_completeness auto
termination
  by (relation "measure length") (auto dest: decode_rune_width)

declare json_escape.simps(2) [simp del]

definition json_string :: "string \<Rightarrow> string" where
  "json_string s = CHR 0x22 # json_escape s @ [CHR 0x22]"

fun json_Marshal :: "json \<Rightarrow> string"
  and marshal_elems :: "json list \<Rightarrow> string"
  and marshal_members :: "(string \<times> json) list \<Rightarrow> string" where
  "json_Marshal JNull = ''null''"
| "json_Marshal (JBool b) = (if b then ''true'' else ''false'')"
| "json_Marshal (JNumber n) = n"
| "json_Marshal (JString s) = json_string s"
| "json_Marshal (JArray vs) = ''['' @ marshal_elems vs @ '']''"
| "json_Marshal (JObject ms) = ''{'' @ marshal_members ms @ ''}''"
| "marshal_elems [] = []"
| "marshal_elems (v # vs) = json_Marshal v @ (if vs = [] then [] else '','' @ marshal_elems vs)"
| "marshal_members [] = []"
| "marshal_members (m # ms) =
     json_string (fst m) @ '':'' @ json_Marshal (snd m) @ (if ms = [] then [] else '','' @ marshal_members ms)"


section \<open>Runes and their bytes\<close>

text \<open>Bytes that are not UTF-8 are replaced.\<close>

function sanitise :: "string \<Rightarrow> string" where
  "sanitise [] = []"
| "sanitise (c # s) = (case decode_rune (c # s) of (r, w) \<Rightarrow>
     (if r = 0xFFFD \<and> w = 1 then encode_rune 0xFFFD else take w (c # s)) @ sanitise (drop w (c # s)))"
  by pat_completeness auto
termination
  by (relation "measure length") (auto dest: decode_rune_width)

declare sanitise.simps(2) [simp del]

function valid_utf8 :: "string \<Rightarrow> bool" where
  "valid_utf8 [] = True"
| "valid_utf8 (c # s) = (case decode_rune (c # s) of (r, w) \<Rightarrow>
     \<not> (r = 0xFFFD \<and> w = 1) \<and> valid_utf8 (drop w (c # s)))"
  by pat_completeness auto
termination
  by (relation "measure length") (auto dest: decode_rune_width)

declare valid_utf8.simps(2) [simp del]

lemma sanitise_valid: "valid_utf8 s \<Longrightarrow> sanitise s = s"
proof (induction s rule: sanitise.induct)
  case (2 c s)
  obtain r w where d: "decode_rune (c # s) = (r, w)" by fastforce
  show ?case
    using "2.prems" "2.IH" [OF d [symmetric]] append_take_drop_id [of w "c # s"]
    by (auto simp: sanitise.simps valid_utf8.simps d simp del: append_take_drop_id)
qed simp

lemma valid_ascii: "list_all (\<lambda>c. (of_char c :: nat) < 0x80) s \<Longrightarrow> valid_utf8 s"
  by (induction s) (simp_all add: valid_utf8.simps decode_rune.simps)

text \<open>A rune depends on its own bytes only, and the line separators have one encoding.\<close>

lemma decode_prefix:
  assumes "decode_rune (c # s) = (r, w)" and "\<not> (r = 0xFFFD \<and> w = 1)"
  shows "decode_rune (take w (c # s) @ t) = (r, w) \<and> w \<le> length (c # s)"
proof -
  consider "s = []" | x where "s = [x]" | x y where "s = [x, y]" | x y z ys where "s = x # y # z # ys"
    by (metis list.exhaust)
  then show ?thesis
    using assms by cases (auto simp: decode_rune.simps Let_def rune_error_def split: if_splits list.splits)
qed

lemma three_bytes_unique:
  assumes "p * 4096 + x * 64 + y = 0x2028 + k" "x < 64" "y < 64" "k < (2::nat)"
  shows "p = 2 \<and> x = 0 \<and> y = 40 + k"
proof -
  have p: "p = 2" using assms by linarith
  have x: "x = 0" using assms p by linarith
  have "y = 40 + k" using assms(1) unfolding p x by simp
  with p x show ?thesis by simp
qed

lemma four_bytes_big:
  assumes "0xF0 \<le> b0" "b0 = 0xF0 \<Longrightarrow> 0x90 \<le> (b1::nat)"
  shows "0x10000 \<le> (b0 - 0xF0) * 262144 + (b1 - 0x80) * 4096 + x + y"
  using assms by (cases "b0 = 0xF0") simp_all

lemma decode_three:
  assumes d: "decode_rune (c # s) = (r, w)" and r: "0x800 \<le> r" "r < 0x10000" "r \<noteq> 0xFFFD"
  shows "\<exists>a b t. s = a # b # t \<and> w = 3 \<and> 0xE0 \<le> (of_char c :: nat) \<and> cont_byte 0x80 0xBF (of_char a) \<and> cont_byte 0x80 0xBF (of_char b)
    \<and> r = (of_char c - 0xE0) * 4096 + (of_char a - 0x80) * 64 + (of_char b - 0x80)"
proof -
  let ?n = "of_char c :: nat" and ?l = "map of_char (take 3 s) :: nat list"
  consider "?n < 0x80" | "0xC2 \<le> ?n" "?n \<le> 0xDF" | "0xE0 \<le> ?n" "?n \<le> 0xEF" | "0xF0 \<le> ?n" "?n \<le> 0xF4"
    | "\<not> ?n < 0x80" "\<not> (0xC2 \<le> ?n \<and> ?n \<le> 0xDF)" "\<not> (0xE0 \<le> ?n \<and> ?n \<le> 0xEF)" "\<not> (0xF0 \<le> ?n \<and> ?n \<le> 0xF4)"
    by blast
  then show ?thesis
  proof cases
    case 1
    then show ?thesis using d r by (simp add: decode_rune.simps)
  next
    case 2
    then have "decode_rune (c # s) = (case ?l of b1 # _ \<Rightarrow>
        if cont_byte 0x80 0xBF b1 then ((?n - 0xC0) * 64 + (b1 - 0x80), 2) else rune_error | _ \<Rightarrow> rune_error)"
      by (simp add: decode_rune.simps Let_def)
    moreover have "\<not> 0x800 \<le> (?n - 0xC0) * 64 + (b1 - 0x80)" if "cont_byte 0x80 0xBF b1" for b1
      using that 2(2) unfolding cont_byte_def by linarith
    ultimately show ?thesis using d r(1,3) by (simp add: rune_error_def split: list.splits if_splits)
  next
    case 3
    then have e: "decode_rune (c # s) = (case ?l of b1 # b2 # _ \<Rightarrow>
        if cont_byte (if ?n = 0xE0 then 0xA0 else 0x80) (if ?n = 0xED then 0x9F else 0xBF) b1 \<and> cont_byte 0x80 0xBF b2
        then ((?n - 0xE0) * 4096 + (b1 - 0x80) * 64 + (b2 - 0x80), 3) else rune_error | _ \<Rightarrow> rune_error)"
      by (simp add: decode_rune.simps Let_def)
    then obtain a b t where s: "s = a # b # t"
      using d r by (cases s; cases "tl s") (auto simp: rune_error_def)
    show ?thesis using e d r 3 unfolding s
      by (auto simp: rune_error_def cont_byte_def split: if_splits)
  next
    case 4
    then have "decode_rune (c # s) = (case ?l of b1 # b2 # b3 # _ \<Rightarrow>
        if cont_byte (if ?n = 0xF0 then 0x90 else 0x80) (if ?n = 0xF4 then 0x8F else 0xBF) b1
           \<and> cont_byte 0x80 0xBF b2 \<and> cont_byte 0x80 0xBF b3
        then ((?n - 0xF0) * 262144 + (b1 - 0x80) * 4096 + (b2 - 0x80) * 64 + (b3 - 0x80), 4) else rune_error | _ \<Rightarrow> rune_error)"
      by (simp add: decode_rune.simps Let_def)
    moreover have "0x10000 \<le> (?n - 0xF0) * 262144 + (b1 - 0x80) * 4096 + (b2 - 0x80) * 64 + (b3 - 0x80)"
      if "cont_byte (if ?n = 0xF0 then 0x90 else 0x80) (if ?n = 0xF4 then 0x8F else 0xBF) b1" for b1 b2 b3
    proof (rule four_bytes_big [OF 4(1)])
      show "?n = 0xF0 \<Longrightarrow> 0x90 \<le> b1" using that by (simp add: cont_byte_def)
    qed
    ultimately show ?thesis using d r by (auto simp: rune_error_def split: list.splits if_splits) (metis not_le)+
  next
    case 5
    then have "decode_rune (c # s) = rune_error" by (simp only: decode_rune.simps Let_def if_False)
    then show ?thesis using d r by (simp add: rune_error_def)
  qed
qed

lemma separator_bytes:
  assumes d: "decode_rune (c # s) = (r, w)" and "r = 0x2028 \<or> r = 0x2029"
  shows "take w (c # s) = encode_rune r"
proof -
  obtain k where k: "r = 0x2028 + k" "k < 2" using assms(2) by fastforce
  obtain a b t where s: "s = a # b # t" "w = 3" "0xE0 \<le> (of_char c :: nat)" "cont_byte 0x80 0xBF (of_char a)" "cont_byte 0x80 0xBF (of_char b)"
    and r: "r = (of_char c - 0xE0) * 4096 + (of_char a - 0x80) * 64 + (of_char b - 0x80)"
    using decode_three [OF d] k by auto
  have "of_char c - 0xE0 = (2::nat) \<and> of_char a - 0x80 = (0::nat) \<and> of_char b - 0x80 = 40 + k"
    using r k s(4,5) by (intro three_bytes_unique) (auto simp: cont_byte_def)
  then have "of_char c = (0xE2::nat)" "of_char a = (0x80::nat)" "of_char b = 0xA8 + k"
    using s by (auto simp: cont_byte_def)
  then have "c = char_of (0xE2::nat)" "a = char_of (0x80::nat)" "b = char_of (0xA8 + k)"
    by (metis char_of_char)+
  then show ?thesis using k(2) by (auto simp: s k(1) encode_rune_def less_2_cases_iff)
qed


section \<open>The round trip of strings\<close>

lemma hex_val_hex_char: "d < 16 \<Longrightarrow> hex_val (hex_char d) = Some d"
  by (auto simp: hex_val_def hex_char_def digit_char_def Let_def)

lemma base16: "A = a * 16 + b \<Longrightarrow> B = c * 16 + d \<Longrightarrow> n = A * 256 + B \<Longrightarrow> a * 4096 + b * 256 + c * 16 + d = (n :: nat)"
  by simp

lemma getu4_escape: "n < 65536 \<Longrightarrow> getu4 (unicode_escape n @ t) = Some n"
proof -
  assume "n < 65536"
  then have "n div 256 div 16 < 16" by simp
  moreover have "n div 256 div 16 * 4096 + n div 256 mod 16 * 256 + n mod 256 div 16 * 16 + n mod 256 mod 16 = n"
    by (rule base16 [of "n div 256" _ _ "n mod 256"]) (simp_all only: div_mult_mod_eq)
  ultimately show ?thesis
    by (simp only: getu4_def unicode_escape_def hex2_def append.simps list.case hex_val_hex_char mod_less_divisor zero_less_numeral
        option.case prod.case simp_thms if_True div_less_iff_less_mult mod_less_divisor)
qed

lemma string_step_unicode:
  assumes "n < 0xD800 \<or> 0xE000 \<le> n" "n < 65536"
  shows "string_step (unicode_escape n @ t) = Some (encode_rune n, t)"
  using getu4_escape [OF assms(2), of t] assms(1)
  by (auto simp: string_step_def unicode_escape_def hex2_def)

lemma string_step_plain:
  assumes "of_char c < (0x80::nat)" "0x20 \<le> (of_char c::nat)" "c \<noteq> CHR 0x5C"
  shows "string_step (c # t) = Some ([c], t)"
  using assms by (simp add: string_step_def decode_rune.simps)

lemma string_step_short:
  "unescape e = Some u \<Longrightarrow> e \<noteq> CHR ''u'' \<Longrightarrow> string_step (CHR 0x5C # e # t) = Some ([u], t)"
proof -
  assume u: "unescape e = Some u" "e \<noteq> CHR ''u''"
  have "getu4 (CHR 0x5C # e # t) = None" using u(2) by (auto simp: getu4_def split: list.split)
  then show ?thesis using u by (simp add: string_step_def)
qed

lemma string_step_ascii:
  assumes "of_char c < (0x80::nat)"
  shows "string_step (escape_ascii c @ t) = Some ([c], t)"
proof (cases "c = CHR 0x5C \<or> c = CHR 0x22 \<or> c \<in> {CHR 0x08, CHR 0x0C, CHR 0x0A, CHR 0x0D, CHR 0x09}")
  case True
  then show ?thesis by (elim disjE) (auto simp: escape_ascii_def Let_def unescape_def string_step_short)
next
  case False
  have "encode_rune (of_char c) = [c]" using assms by (simp add: encode_rune_def)
  then have "string_step (unicode_escape (of_char c) @ t) = Some ([c], t)"
    using string_step_unicode [of "of_char c" t] assms by simp
  then show ?thesis using False assms string_step_plain [of c t]
    by (simp add: escape_ascii_def Let_def)
qed

text \<open>What one rune of the text becomes when it is read back.\<close>

definition rune_bytes :: "nat \<Rightarrow> nat \<Rightarrow> string \<Rightarrow> string" where
  "rune_bytes r w s = (if r = 0xFFFD \<and> w = 1 then encode_rune 0xFFFD else take w s)"

lemma string_step_rune:
  assumes d: "decode_rune (c # s) = (r, w)"
  shows "string_step (escape_rune r w (c # s) @ t) = Some (rune_bytes r w (c # s), t)"
proof (cases "(of_char c :: nat) < 0x80")
  case True
  then have "r = of_char c" "w = 1" using d by (simp_all add: decode_rune.simps)
  then show ?thesis using True string_step_ascii [OF True, of t] by (auto simp: escape_rune_def rune_bytes_def)
next
  case big: False
  consider "r = 0xFFFD \<and> w = 1" | "r = 0x2028 \<or> r = 0x2029"
    | "\<not> (r = 0xFFFD \<and> w = 1)" "\<not> (r = 0x2028 \<or> r = 0x2029)" by blast
  then show ?thesis
  proof cases
    case 1
    then show ?thesis using big string_step_unicode [of "0xFFFD" t] by (simp add: escape_rune_def rune_bytes_def)
  next
    case 2
    then show ?thesis using big string_step_unicode [of r t] separator_bytes [OF d 2]
      by (auto simp: escape_rune_def rune_bytes_def)
  next
    case 3
    note p = decode_prefix [OF d 3(1), of t]
    have w: "0 < w" using d decode_rune_width [of r w c s] by simp
    then obtain v where v: "w = Suc v" by (cases w) auto
    have "c \<noteq> CHR 0x5C" "\<not> of_char c < (0x20::nat)" using big by auto
    then have "string_step (take w (c # s) @ t) = Some (take w (take w (c # s) @ t), drop w (take w (c # s) @ t))"
      using p 3(1) by (auto simp: string_step_def v)
    moreover have "length (take w (c # s)) = w" using p by simp
    ultimately show ?thesis using big 3 by (auto simp: escape_rune_def rune_bytes_def)
  qed
qed

lemma escape_rune_not_quote:
  assumes d: "decode_rune (c # s) = (r, w)"
  shows "\<exists>a as. escape_rune r w (c # s) = a # as \<and> a \<noteq> CHR 0x22"
proof -
  have w: "0 < w" using d decode_rune_width [of r w c s] by simp
  then show ?thesis
    by (cases w) (auto simp: escape_rune_def escape_ascii_def unicode_escape_def Let_def)
qed

lemma parse_string_step:
  assumes "string_step (c # s) = Some (out, r)" and "c \<noteq> CHR 0x22"
  shows "parse_string (c # s) = map_option (\<lambda>(m, r'). (out @ m, r')) (parse_string r)"
  using assms by (subst parse_string.simps) (auto split: option.splits)

lemma sanitise_Cons: "decode_rune (c # s) = (r, w) \<Longrightarrow> sanitise (c # s) = rune_bytes r w (c # s) @ sanitise (drop w (c # s))"
  by (simp add: sanitise.simps rune_bytes_def)

lemma parse_json_escape: "parse_string (json_escape s @ CHR 0x22 # rest) = Some (sanitise s, rest)"
proof (induction s rule: json_escape.induct)
  case (2 c s)
  obtain r w where d: "decode_rune (c # s) = (r, w)" by fastforce
  obtain a as where e: "escape_rune r w (c # s) = a # as" "a \<noteq> CHR 0x22" using escape_rune_not_quote [OF d] by blast
  show ?case
    using string_step_rune [OF d, of "json_escape (drop w (c # s)) @ CHR 0x22 # rest"]
      "2.IH" [OF d [symmetric]] e
    by (simp add: json_escape.simps d sanitise_Cons [OF d] parse_string_step)
qed (simp add: parse_string_quote)


section \<open>The round trip of numbers\<close>

definition json_number :: "string \<Rightarrow> bool" where
  "json_number n \<longleftrightarrow> parse_number n = Some (n, [])"

definition delimits :: "string \<Rightarrow> bool" where
  "delimits rest \<longleftrightarrow> (case rest of [] \<Rightarrow> True | c # _ \<Rightarrow> c \<in> {CHR '','', CHR '']'', CHR ''}'', CHR 0x0A})"

lemma delimits_simps [simp]:
  "delimits []" "delimits (CHR '','' # t)" "delimits (CHR '']'' # t)" "delimits (CHR ''}'' # t)" "delimits (CHR 0x0A # t)"
  by (simp_all add: delimits_def)

lemma delimiter_no_digit: "delimits (c # t) \<Longrightarrow> \<not> is_digit c"
  by (auto simp: delimits_def is_digit_def)

lemma opt_char_delimits:
  assumes "opt_char cs s = (x, r)" "delimits t" "set cs \<inter> {CHR '','', CHR '']'', CHR ''}'', CHR 0x0A} = {}"
  shows "opt_char cs (s @ t) = (x, r @ t)"
  using assms by (cases s; cases t) (auto simp: opt_char_def delimits_def split: if_splits)

lemma digits1_delimits:
  assumes "digits1 s = Some (x, r)" "delimits t"
  shows "digits1 (s @ t) = Some (x, r @ t)"
proof -
  have t: "takeWhile is_digit t = []" "dropWhile is_digit t = t" using assms(2) delimiter_no_digit by (cases t; auto)+
  have "takeWhile is_digit (s @ t) = takeWhile is_digit s" "dropWhile is_digit (s @ t) = dropWhile is_digit s @ t"
    by (induction s) (simp_all add: t)
  then show ?thesis using assms(1) by (auto simp: digits1_def split: if_splits)
qed

lemma number_whole_delimits:
  "number_whole s = Some (x, r) \<Longrightarrow> delimits t \<Longrightarrow> number_whole (s @ t) = Some (x, r @ t)"
  using digits1_delimits [of s x r t] by (cases s) (auto simp: number_whole_def split: if_splits)

lemma number_frac_delimits:
  assumes "number_frac s = Some (x, r)" "delimits t"
  shows "number_frac (s @ t) = Some (x, r @ t)"
proof -
  obtain p q where o: "opt_char ''.'' s = (p, q)" by fastforce
  have "opt_char ''.'' (s @ t) = (p, q @ t)" by (rule opt_char_delimits [OF o assms(2)]) simp
  then show ?thesis using assms o by (auto simp: number_frac_def digits1_delimits split: list.splits)
qed

lemma number_exp_delimits:
  assumes "number_exp s = Some (x, r)" "delimits t"
  shows "number_exp (s @ t) = Some (x, r @ t)"
proof -
  obtain p q where o: "opt_char ''eE'' s = (p, q)" by fastforce
  obtain p' q' where o': "opt_char ''+-'' q = (p', q')" by fastforce
  have "opt_char ''eE'' (s @ t) = (p, q @ t)" by (rule opt_char_delimits [OF o assms(2)]) simp
  moreover have "opt_char ''+-'' (q @ t) = (p', q' @ t)" by (rule opt_char_delimits [OF o' assms(2)]) simp
  ultimately show ?thesis using assms o o' by (auto simp: number_exp_def digits1_delimits split: list.splits)
qed

lemma parse_number_delimits:
  assumes "parse_number s = Some (x, r)" "delimits t"
  shows "parse_number (s @ t) = Some (x, r @ t)"
proof -
  obtain p q where o: "opt_char ''-'' s = (p, q)" by fastforce
  have "opt_char ''-'' (s @ t) = (p, q @ t)" by (rule opt_char_delimits [OF o assms(2)]) simp
  then show ?thesis
    using assms o
    by (auto simp: parse_number_def number_whole_delimits number_frac_delimits number_exp_delimits split: option.splits)
qed

lemma json_number_start: "json_number n \<Longrightarrow> \<exists>c s. n = c # s \<and> (c = CHR ''-'' \<or> is_digit c)"
  by (cases n) (auto simp: json_number_def parse_number_def opt_char_def number_whole_def digits1_def is_digit_def
      split: if_splits option.splits)

lemma parse_scalar_number:
  assumes "json_number n" "delimits t"
  shows "parse_scalar (n @ t) = Some (JNumber n, t)"
proof -
  obtain c s where n: "n = c # s" "c = CHR ''-'' \<or> is_digit c" using json_number_start [OF assms(1)] by blast
  have "parse_number (n @ t) = Some (n, t)" using assms parse_number_delimits [of n n "[]" t] by (simp add: json_number_def)
  moreover have "c \<noteq> CHR 0x22" "c \<noteq> CHR ''t''" "c \<noteq> CHR ''f''" "c \<noteq> CHR ''n''" using n(2) by (auto simp: is_digit_def)
  ultimately show ?thesis using n by (simp add: parse_scalar_def)
qed


section \<open>The round trip of values\<close>

text \<open>Values that can be printed (their numbers are literals), how deep they nest, and what is read back.\<close>

fun json_ok :: "json \<Rightarrow> bool"
  and elems_ok :: "json list \<Rightarrow> bool"
  and members_ok :: "(string \<times> json) list \<Rightarrow> bool" where
  "json_ok (JNumber n) = json_number n"
| "json_ok (JArray vs) = elems_ok vs"
| "json_ok (JObject ms) = members_ok ms"
| "json_ok _ = True"
| "elems_ok [] = True"
| "elems_ok (v # vs) = (json_ok v \<and> elems_ok vs)"
| "members_ok [] = True"
| "members_ok (m # ms) = (json_ok (snd m) \<and> members_ok ms)"

fun json_depth :: "json \<Rightarrow> nat"
  and elems_depth :: "json list \<Rightarrow> nat"
  and members_depth :: "(string \<times> json) list \<Rightarrow> nat" where
  "json_depth (JArray vs) = Suc (elems_depth vs)"
| "json_depth (JObject ms) = Suc (members_depth ms)"
| "json_depth _ = 0"
| "elems_depth [] = 0"
| "elems_depth (v # vs) = max (json_depth v) (elems_depth vs)"
| "members_depth [] = 0"
| "members_depth (m # ms) = max (json_depth (snd m)) (members_depth ms)"

fun sane :: "json \<Rightarrow> json"
  and sane_elems :: "json list \<Rightarrow> json list"
  and sane_members :: "(string \<times> json) list \<Rightarrow> (string \<times> json) list" where
  "sane (JString s) = JString (sanitise s)"
| "sane (JArray vs) = JArray (sane_elems vs)"
| "sane (JObject ms) = JObject (sane_members ms)"
| "sane v = v"
| "sane_elems [] = []"
| "sane_elems (v # vs) = sane v # sane_elems vs"
| "sane_members [] = []"
| "sane_members (m # ms) = (sanitise (fst m), sane (snd m)) # sane_members ms"

text \<open>Fuel that is enough to read a value back.\<close>

fun need :: "json \<Rightarrow> nat"
  and need_elems :: "json list \<Rightarrow> nat"
  and need_members :: "(string \<times> json) list \<Rightarrow> nat" where
  "need (JArray vs) = Suc (need_elems vs)"
| "need (JObject ms) = Suc (need_members ms)"
| "need _ = 1"
| "need_elems [] = 0"
| "need_elems (v # vs) = Suc (max (need v) (need_elems vs))"
| "need_members [] = 0"
| "need_members (m # ms) = Suc (max (need (snd m)) (need_members ms))"

lemma marshal_start:
  assumes "json_ok v"
  shows "\<exists>c s. json_Marshal v = c # s \<and> \<not> json_space c \<and> c \<noteq> CHR '']'' \<and> c \<noteq> CHR ''}''"
proof (cases v)
  case (JNumber n)
  then show ?thesis using assms json_number_start [of n] by (auto simp: json_space_def is_digit_def)
qed (auto simp: json_space_def json_string_def)

lemma skip_ws_start: "\<not> json_space c \<Longrightarrow> skip_ws (c # s) = c # s"
  by (simp add: skip_ws_def)

lemma parse_json_string: "json_string s @ t = CHR 0x22 # json_escape s @ CHR 0x22 # t"
  by (simp add: json_string_def)

lemma scalar_parse:
  assumes "\<not> json_space c" "c \<noteq> CHR ''[''" "c \<noteq> CHR ''{''"
  shows "parse_value (Suc k) d (c # s) = parse_scalar (c # s)"
  using assms by (simp add: skip_ws_start)

fun json_scalar :: "json \<Rightarrow> bool" where
  "json_scalar (JArray _) = False"
| "json_scalar (JObject _) = False"
| "json_scalar _ = True"

lemma parse_scalar_value:
  assumes "json_ok v" "delimits t" "json_scalar v" "0 < n"
  shows "parse_value n d (json_Marshal v @ t) = Some (sane v, t)"
proof -
  obtain k where n: "n = Suc k" using assms(4) by (cases n) auto
  show ?thesis
  proof (cases v)
    case JNull
    then show ?thesis by (simp add: n scalar_parse json_space_def parse_scalar_def parse_word_def starts_with_def del: parse_value.simps)
  next
    case (JBool b)
    then show ?thesis
      by (cases b) (simp_all add: n scalar_parse json_space_def parse_scalar_def parse_word_def starts_with_def del: parse_value.simps)
  next
    case (JNumber m)
    obtain c s where m: "m = c # s" "c = CHR ''-'' \<or> is_digit c" using assms(1) JNumber json_number_start [of m] by auto
    then have "\<not> json_space c" "c \<noteq> CHR ''[''" "c \<noteq> CHR ''{''" by (auto simp: json_space_def is_digit_def)
    then show ?thesis using parse_scalar_number [of m t] assms(1,2) JNumber m(1)
      by (simp add: n scalar_parse del: parse_value.simps)
  next
    case (JString s)
    then show ?thesis
      by (simp add: n scalar_parse json_space_def parse_json_string parse_scalar_def parse_json_escape del: parse_value.simps)
  qed (use assms(3) in simp_all)
qed

lemma parse_array_value:
  assumes "elems_ok vs" "\<not> max_depth \<le> d" "vs \<noteq> []"
    and "parse_elems k (Suc d) (marshal_elems vs @ CHR '']'' # t) = Some (sane_elems vs, t)"
  shows "parse_value (Suc k) d (json_Marshal (JArray vs) @ t) = Some (sane (JArray vs), t)"
proof -
  obtain v ws where vs: "vs = v # ws" using assms(3) by (cases vs) auto
  obtain c s where m: "marshal_elems vs = c # s" "\<not> json_space c" "c \<noteq> CHR '']''"
    using assms(1) marshal_start [of v] vs by auto
  show ?thesis using assms m by (simp add: skip_ws_start json_space_def)
qed

lemma parse_object_value:
  assumes "\<not> max_depth \<le> d" "ms \<noteq> []"
    and "parse_members k (Suc d) (marshal_members ms @ CHR ''}'' # t) = Some (sane_members ms, t)"
  shows "parse_value (Suc k) d (json_Marshal (JObject ms) @ t) = Some (sane (JObject ms), t)"
proof -
  obtain s where m: "marshal_members ms = CHR 0x22 # s" using assms(2) by (cases ms) (auto simp: json_string_def)
  show ?thesis using assms m by (simp add: skip_ws_start json_space_def)
qed

lemma parse_empty_value:
  assumes "\<not> max_depth \<le> d"
  shows "parse_value (Suc k) d (json_Marshal (JArray []) @ t) = Some (sane (JArray []), t)"
    and "parse_value (Suc k) d (json_Marshal (JObject []) @ t) = Some (sane (JObject []), t)"
  using assms by (simp_all add: skip_ws_start json_space_def)

lemma parse_elems_step:
  assumes "parse_value k d (json_Marshal v @ CHR '']'' # u) = Some (sane v, CHR '']'' # u)"
  shows "parse_elems (Suc k) d (marshal_elems [v] @ CHR '']'' # u) = Some (sane_elems [v], u)"
  using assms by (simp add: skip_ws_start json_space_def)

lemma parse_elems_more:
  assumes "vs \<noteq> []"
    and "parse_value k d (json_Marshal v @ CHR '','' # marshal_elems vs @ CHR '']'' # u) =
           Some (sane v, CHR '','' # marshal_elems vs @ CHR '']'' # u)"
    and "parse_elems k d (marshal_elems vs @ CHR '']'' # u) = Some (sane_elems vs, u)"
  shows "parse_elems (Suc k) d (marshal_elems (v # vs) @ CHR '']'' # u) = Some (sane_elems (v # vs), u)"
  using assms by (simp add: skip_ws_start json_space_def)

lemma parse_members_step:
  assumes "parse_value k d (json_Marshal (snd m) @ CHR ''}'' # u) = Some (sane (snd m), CHR ''}'' # u)"
  shows "parse_members (Suc k) d (marshal_members [m] @ CHR ''}'' # u) = Some (sane_members [m], u)"
  using assms by (simp add: skip_ws_start json_space_def parse_json_escape json_string_def)

lemma parse_members_more:
  assumes "ms \<noteq> []"
    and "parse_value k d (json_Marshal (snd m) @ CHR '','' # marshal_members ms @ CHR ''}'' # u) =
           Some (sane (snd m), CHR '','' # marshal_members ms @ CHR ''}'' # u)"
    and "parse_members k d (marshal_members ms @ CHR ''}'' # u) = Some (sane_members ms, u)"
  shows "parse_members (Suc k) d (marshal_members (m # ms) @ CHR ''}'' # u) = Some (sane_members (m # ms), u)"
  using assms by (simp add: skip_ws_start json_space_def parse_json_escape json_string_def)

lemma parse_marshal:
  "(\<forall>n d t. json_ok v \<longrightarrow> delimits t \<longrightarrow> d + json_depth v \<le> max_depth \<longrightarrow> need v \<le> n \<longrightarrow>
      parse_value n d (json_Marshal v @ t) = Some (sane v, t))"
  "(\<forall>n d u. elems_ok vs \<longrightarrow> vs \<noteq> [] \<longrightarrow> d + elems_depth vs \<le> max_depth \<longrightarrow> need_elems vs \<le> n \<longrightarrow>
      parse_elems n d (marshal_elems vs @ CHR '']'' # u) = Some (sane_elems vs, u))"
  "(\<forall>n d u. members_ok ms \<longrightarrow> ms \<noteq> [] \<longrightarrow> d + members_depth ms \<le> max_depth \<longrightarrow> need_members ms \<le> n \<longrightarrow>
      parse_members n d (marshal_members ms @ CHR ''}'' # u) = Some (sane_members ms, u))"
proof (induction v and vs and ms rule: json_Marshal_marshal_elems_marshal_members.induct)
  case (5 vs)
  show ?case
  proof (intro allI impI)
    fix n d t
    assume a: "json_ok (JArray vs)" "d + json_depth (JArray vs) \<le> max_depth" "need (JArray vs) \<le> n"
    then obtain k where n: "n = Suc k" by (cases n) simp_all
    have d: "\<not> max_depth \<le> d" "Suc d + elems_depth vs \<le> max_depth" "need_elems vs \<le> k" "elems_ok vs" using a n by simp_all
    show "parse_value n d (json_Marshal (JArray vs) @ t) = Some (sane (JArray vs), t)"
    proof (cases "vs = []")
      case True
      show ?thesis unfolding n True by (rule parse_empty_value [OF d(1)])
    next
      case False
      show ?thesis unfolding n using "5.IH" d False by (intro parse_array_value) blast+
    qed
  qed
next
  case (6 ms)
  show ?case
  proof (intro allI impI)
    fix n d t
    assume a: "json_ok (JObject ms)" "d + json_depth (JObject ms) \<le> max_depth" "need (JObject ms) \<le> n"
    then obtain k where n: "n = Suc k" by (cases n) simp_all
    have d: "\<not> max_depth \<le> d" "Suc d + members_depth ms \<le> max_depth" "need_members ms \<le> k" "members_ok ms" using a n by simp_all
    show "parse_value n d (json_Marshal (JObject ms) @ t) = Some (sane (JObject ms), t)"
    proof (cases "ms = []")
      case True
      show ?thesis unfolding n True by (rule parse_empty_value [OF d(1)])
    next
      case False
      show ?thesis unfolding n using "6.IH" d False by (intro parse_object_value) blast+
    qed
  qed
next
  case (8 v vs)
  show ?case
  proof (intro allI impI)
    fix n d u
    assume a: "elems_ok (v # vs)" "d + elems_depth (v # vs) \<le> max_depth" "need_elems (v # vs) \<le> n"
    then obtain k where n: "n = Suc k" by (cases n) simp_all
    have d: "json_ok v" "elems_ok vs" "d + json_depth v \<le> max_depth" "d + elems_depth vs \<le> max_depth"
      "need v \<le> k" "need_elems vs \<le> k" using a n by simp_all
    show "parse_elems n d (marshal_elems (v # vs) @ CHR '']'' # u) = Some (sane_elems (v # vs), u)"
    proof (cases "vs = []")
      case True
      show ?thesis unfolding n True using "8.IH"(1) d delimits_simps by (intro parse_elems_step) blast
    next
      case False
      show ?thesis unfolding n using "8.IH" d False delimits_simps by (intro parse_elems_more) blast+
    qed
  qed
next
  case (10 m ms)
  show ?case
  proof (intro allI impI)
    fix n d u
    assume a: "members_ok (m # ms)" "d + members_depth (m # ms) \<le> max_depth" "need_members (m # ms) \<le> n"
    then obtain k where n: "n = Suc k" by (cases n) simp_all
    have d: "json_ok (snd m)" "members_ok ms" "d + json_depth (snd m) \<le> max_depth" "d + members_depth ms \<le> max_depth"
      "need (snd m) \<le> k" "need_members ms \<le> k" using a n by simp_all
    show "parse_members n d (marshal_members (m # ms) @ CHR ''}'' # u) = Some (sane_members (m # ms), u)"
    proof (cases "ms = []")
      case True
      show ?thesis unfolding n True using "10.IH"(1) d delimits_simps by (intro parse_members_step) blast
    next
      case False
      show ?thesis unfolding n using "10.IH" d False delimits_simps by (intro parse_members_more) blast+
    qed
  qed
next
  case 1
  show ?case by (simp add: parse_scalar_value del: parse_value.simps json_Marshal.simps sane.simps)
next
  case (2 b)
  show ?case by (simp add: parse_scalar_value del: parse_value.simps json_Marshal.simps sane.simps)
next
  case (3 m)
  show ?case by (simp add: parse_scalar_value del: parse_value.simps json_Marshal.simps sane.simps)
next
  case (4 s)
  show ?case by (simp add: parse_scalar_value del: parse_value.simps json_Marshal.simps sane.simps)
qed simp_all

text \<open>Whatever is printed is read back, with bytes that are not UTF-8 replaced, also when a line end follows it.\<close>

lemma parse_printed:
  assumes "json_ok v" and "json_depth v \<le> max_depth" and "delimits t"
  shows "parse_value (2 * length (json_Marshal v @ t) + 2) 0 (json_Marshal v @ t) = Some (sane v, t)"
proof -
  let ?s = "json_Marshal v @ t" and ?n = "max (need v) (2 * length (json_Marshal v @ t) + 1)"
  have "parse_value ?n 0 ?s = Some (sane v, t)"
    using parse_marshal(1) [of v] assms by (simp del: parse_value.simps)
  moreover have "parse_value ?n 0 ?s = parse_value (2 * length ?s + 2) 0 ?s" by (rule parse_value_fuel) simp
  ultimately show ?thesis by (simp only:)
qed

lemma json_roundtrip:
  assumes "json_ok v" and "json_depth v \<le> max_depth"
  shows "json_Unmarshal (json_Marshal v) = Some (sane v)"
  using parse_printed [OF assms, of "[]"] by (simp only: json_Unmarshal_def append_Nil2 delimits_simps) (simp add: skip_ws_def)

lemma json_line_roundtrip:
  assumes "json_ok v" and "json_depth v \<le> max_depth"
  shows "json_Unmarshal (json_Marshal v @ [CHR 0x0A]) = Some (sane v)"
  using parse_printed [OF assms, of "[CHR 0x0A]"]
  by (simp only: json_Unmarshal_def delimits_simps) (simp add: skip_ws_def json_space_def)

lemma json_Decode_printed:
  assumes "json_ok v" and "json_depth v \<le> max_depth"
  shows "json_Decode (json_Marshal v) = Some (sane v)"
  using parse_printed [OF assms, of "[]"] by (simp only: json_Decode_def append_Nil2 delimits_simps) simp

end
