(* ===== verification/Go_Time_Parse.thy ===== *)
theory Go_Time_Parse
  imports Go_Time Go_Json
begin

text \<open>
  \<^verbatim>\<open>time.Parse\<close> for the layouts the sources use, and the conversion of a JSON number to
  \<^verbatim>\<open>float64\<close>.
\<close>

section \<open>Numbers in dates\<close>

definition digit_val :: "char \<Rightarrow> int" where
  "digit_val c = int (of_char c) - 48"

definition digits_val :: "string \<Rightarrow> int" where
  "digits_val ds = foldl (\<lambda>n c. n * 10 + digit_val c) 0 ds"

text \<open>\<^verbatim>\<open>getnum\<close>: two digits, or one where the layout does not ask for two.\<close>

definition getnum :: "bool \<Rightarrow> string \<Rightarrow> (int \<times> string) option" where
  "getnum fixed s = (case s of
       [] \<Rightarrow> None
     | c # r \<Rightarrow>
        if \<not> is_digit c then None
        else (case r of
            d # r' \<Rightarrow> if is_digit d then Some (digit_val c * 10 + digit_val d, r')
                      else if fixed then None else Some (digit_val c, r)
          | [] \<Rightarrow> if fixed then None else Some (digit_val c, r)))"

definition getyear :: "string \<Rightarrow> (int \<times> string) option" where
  "getyear s = (if 4 \<le> length s \<and> list_all is_digit (take 4 s) then Some (digits_val (take 4 s), drop 4 s) else None)"

definition lit :: "char \<Rightarrow> string \<Rightarrow> string option" where
  "lit c s = (case s of d # r \<Rightarrow> if d = c then Some r else None | [] \<Rightarrow> None)"

text \<open>A blank of the layout stands for a run of blanks.\<close>

definition blanks :: "string \<Rightarrow> string option" where
  "blanks s = (if s \<noteq> [] \<and> hd s \<noteq> CHR '' '' then None else Some (dropWhile (\<lambda>c. c = CHR '' '') s))"

definition leap :: "int \<Rightarrow> bool" where
  "leap y \<longleftrightarrow> y mod 4 = 0 \<and> (y mod 100 \<noteq> 0 \<or> y mod 400 = 0)"

definition daysIn :: "int \<Rightarrow> int \<Rightarrow> int" where
  "daysIn m y = (if m = 2 then if leap y then 29 else 28 else if m \<in> {4, 6, 9, 11} then 30 else 31)"

definition parse_date :: "string \<Rightarrow> ((int \<times> int \<times> int) \<times> string) option" where
  "parse_date s = (case getyear s of None \<Rightarrow> None | Some (y, s) \<Rightarrow>
     (case lit (CHR ''-'') s of None \<Rightarrow> None | Some s \<Rightarrow>
     (case getnum True s of None \<Rightarrow> None | Some (m, s) \<Rightarrow>
      if m \<le> 0 \<or> 12 < m then None else
     (case lit (CHR ''-'') s of None \<Rightarrow> None | Some s \<Rightarrow>
     (case getnum True s of None \<Rightarrow> None | Some (d, s) \<Rightarrow>
      if d < 1 \<or> daysIn m y < d then None else Some ((y, m, d), s))))))"

text \<open>
  A fraction may follow the seconds whether or not the layout has one; digits beyond the
  ninth are ignored.
\<close>

definition parse_fraction :: "string \<Rightarrow> int \<times> string" where
  "parse_fraction s = (case s of
       c # d # r \<Rightarrow>
         if (c = CHR ''.'' \<or> c = CHR '','') \<and> is_digit d then
           (let ds = takeWhile is_digit (d # r); kept = take 9 ds
            in (digits_val kept * 10 ^ (9 - length kept), dropWhile is_digit (d # r)))
         else (0, s)
     | _ \<Rightarrow> (0, s))"

definition parse_clock :: "string \<Rightarrow> ((int \<times> int) \<times> string) option" where
  "parse_clock s = (case getnum False s of None \<Rightarrow> None | Some (h, s) \<Rightarrow>
     if 24 \<le> h then None else
     (case lit (CHR '':'') s of None \<Rightarrow> None | Some s \<Rightarrow>
     (case getnum True s of None \<Rightarrow> None | Some (mi, s) \<Rightarrow>
      if 60 \<le> mi then None else
     (case lit (CHR '':'') s of None \<Rightarrow> None | Some s \<Rightarrow>
     (case getnum True s of None \<Rightarrow> None | Some (sec, s) \<Rightarrow>
      if 60 \<le> sec then None else
      (case parse_fraction s of (nsec, s) \<Rightarrow> Some ((h * 3600 + mi * 60 + sec, nsec), s)))))))"

text \<open>\<^verbatim>\<open>Z07:00\<close>: the letter Z or an offset, with up to 24 hours and 60 minutes allowed.\<close>

definition parse_zone :: "string \<Rightarrow> (int \<times> string) option" where
  "parse_zone s = (case s of
       [] \<Rightarrow> None
     | c # r \<Rightarrow>
        if c = CHR ''Z'' then Some (0, r)
        else if length s < 6 \<or> s ! 3 \<noteq> CHR '':'' then None
        else (case (getnum True (take 2 (drop 1 s)), getnum True (take 2 (drop 4 s))) of
            (Some (hr, _), Some (mm, _)) \<Rightarrow>
              if 24 < hr \<or> 60 < mm then None
              else let off = (hr * 60 + mm) * 60 in
                if c = CHR ''+'' then Some (off, drop 6 s)
                else if c = CHR ''-'' then Some (- off, drop 6 s) else None
          | _ \<Rightarrow> None))"

definition time_Date :: "int \<times> int \<times> int \<Rightarrow> int \<Rightarrow> int \<Rightarrow> time" where
  "time_Date ymd secs nsec = (case ymd of (y, m, d) \<Rightarrow> (days_of y m d * 86400 + secs) * second + nsec)"

text \<open>The layouts: date and clock separated by a letter T or a blank, with or without a zone, or the date alone.\<close>

datatype time_layout = LayoutRFC3339 | LayoutT | LayoutBlank | LayoutDate

definition time_Parse :: "time_layout \<Rightarrow> string \<Rightarrow> time option" where
  "time_Parse layout s = (case parse_date s of None \<Rightarrow> None | Some (ymd, s) \<Rightarrow>
     if layout = LayoutDate then (if s = [] then Some (time_Date ymd 0 0) else None)
     else (case (if layout = LayoutBlank then blanks s else lit (CHR ''T'') s) of None \<Rightarrow> None | Some s \<Rightarrow>
       (case parse_clock s of None \<Rightarrow> None | Some ((secs, nsec), s) \<Rightarrow>
         if layout = LayoutRFC3339 then
           (case parse_zone s of Some (off, []) \<Rightarrow> Some (time_Date ymd (secs - off) nsec) | _ \<Rightarrow> None)
         else if s = [] then Some (time_Date ymd secs nsec) else None)))"


section \<open>JSON numbers\<close>

text \<open>
  The value of a number literal (sign, digits, fraction, exponent), rounded to the nearest
  \<^verbatim>\<open>float64\<close>; a value beyond the range is an error.
\<close>

definition sign_val :: "string \<Rightarrow> int \<times> string" where
  "sign_val s = (case s of c # r \<Rightarrow> if c = CHR ''-'' then (-1, r) else if c = CHR ''+'' then (1, r) else (1, s) | [] \<Rightarrow> (1, s))"

definition number_value :: "string \<Rightarrow> rat" where
  "number_value s =
    (case sign_val s of (sg, s) \<Rightarrow>
     let w = takeWhile is_digit s; s = dropWhile is_digit s;
         f = (case s of c # r \<Rightarrow> if c = CHR ''.'' then takeWhile is_digit r else [] | [] \<Rightarrow> []);
         s = (if f = [] then s else drop (Suc (length f)) s);
         e = (case s of c # r \<Rightarrow> (case sign_val r of (es, ds) \<Rightarrow> es * digits_val ds) | [] \<Rightarrow> 0)
     in of_int (sg * digits_val (w @ f)) * 10 powi (e - int (length f)))"

definition float_of_number :: "string \<Rightarrow> float64 option" where
  "float_of_number s = (case f_round (number_value s) of Fin x \<Rightarrow> Some (Fin x) | _ \<Rightarrow> None)"

definition float_field :: "string \<Rightarrow> (string \<times> json) list \<Rightarrow> float64 \<times> bool" where
  "float_field name ms = foldl (\<lambda>(x, ok) v. case v of
       JNumber n \<Rightarrow> (case float_of_number n of Some y \<Rightarrow> (y, ok) | None \<Rightarrow> (x, False))
     | JNull \<Rightarrow> (x, ok) | _ \<Rightarrow> (x, False)) (0, True) (field_values name ms)"

text \<open>Decoding into a pointer to a string: null resets it.\<close>

definition string_ptr_field :: "string \<Rightarrow> (string \<times> json) list \<Rightarrow> string option \<times> bool" where
  "string_ptr_field name ms = foldl (\<lambda>(p, ok) v. case v of
       JString x \<Rightarrow> (Some x, ok) | JNull \<Rightarrow> (None, ok)
     | _ \<Rightarrow> (case p of None \<Rightarrow> Some [] | Some y \<Rightarrow> Some y, False)) (None, True) (field_values name ms)"

end
