(* ===== verification/Go_Any_Json.thy ===== *)
theory Go_Any_Json
  imports Go_Json_Print Go_Time Go_Time_Parse
begin

text \<open>
  \<^verbatim>\<open>encoding/json\<close> on dynamically typed values: what \<^verbatim>\<open>json.Marshal\<close> makes of a value of type
  \<^verbatim>\<open>any\<close> and what \<^verbatim>\<open>json.Unmarshal\<close> puts into one. The text of a finite \<^verbatim>\<open>float64\<close> is the
  argument \<open>fmt\<close>, the shortest decimal of \<^verbatim>\<open>strconv.AppendFloat\<close>; what the code relies on is
  \<open>float_text\<close>, that it is a number literal which reads back as the value. The main lemma is
  \<open>any_roundtrip\<close>: a value comes back with its integers as floats, its instants as texts, its
  structs as maps and the keys of its maps in order.
\<close>

section \<open>Encoding\<close>

text \<open>
  \<^verbatim>\<open>json.Marshal\<close> refuses NaN and the infinities, and instants outside the years 0 to 9999.
\<close>

definition encodable_time :: "time \<Rightarrow> bool" where
  "encodable_time t \<longleftrightarrow> - 62167219200 * second \<le> t \<and> t < 253402300800 * second"

fun encodable :: "anyval \<Rightarrow> bool" where
  "encodable (VFloat x) = (case x of Fin _ \<Rightarrow> True | _ \<Rightarrow> False)"
| "encodable (VTime t) = encodable_time t"
| "encodable (VTimePtr t) = (case t of None \<Rightarrow> True | Some t \<Rightarrow> encodable_time t)"
| "encodable (VList vs) = list_all encodable vs"
| "encodable (VSlice _ vs) = list_all encodable vs"
| "encodable (VMap ms) = list_all (\<lambda>(k, v). encodable v) ms"
| "encodable (VStruct ms) = list_all (\<lambda>(k, v). encodable v) ms"
| "encodable v = True"

text \<open>The keys of a map are written in ascending order.\<close>

abbreviation sort_members :: "(string \<times> 'v) list \<Rightarrow> (string \<times> 'v) list" where
  "sort_members \<equiv> sort_slice (\<lambda>a b. string_less (fst a) (fst b))"

text \<open>Slices of a named element type are taken to be allocated: an empty one is an empty array.\<close>

fun any_json :: "(float64 \<Rightarrow> string) \<Rightarrow> anyval \<Rightarrow> json" where
  "any_json fmt VNil = JNull"
| "any_json fmt (VBool b) = JBool b"
| "any_json fmt (VInt i) = JNumber (fmt_d i)"
| "any_json fmt (VFloat x) = JNumber (fmt x)"
| "any_json fmt (VString s) = JString s"
| "any_json fmt (VTime t) = JString (RFC3339Nano_UTC t)"
| "any_json fmt (VTimePtr t) = (case t of None \<Rightarrow> JNull | Some t \<Rightarrow> JString (RFC3339Nano_UTC t))"
| "any_json fmt (VList vs) = JArray (map (any_json fmt) vs)"
| "any_json fmt (VSlice _ vs) = JArray (map (any_json fmt) vs)"
| "any_json fmt (VMap ms) = JObject (sort_members (map (\<lambda>(k, v). (k, any_json fmt v)) ms))"
| "any_json fmt (VStruct ms) = JObject (map (\<lambda>(k, v). (k, any_json fmt v)) ms)"


section \<open>Decoding\<close>

text \<open>
  A JSON object becomes a \<^verbatim>\<open>map[string]any\<close>, where the last of equal keys wins, a number a
  \<^verbatim>\<open>float64\<close>; a number beyond the range is a type error.
\<close>

fun json_any :: "json \<Rightarrow> anyval \<times> bool" where
  "json_any JNull = (VNil, True)"
| "json_any (JBool b) = (VBool b, True)"
| "json_any (JNumber n) = (case float_of_number n of Some x \<Rightarrow> (VFloat x, True) | None \<Rightarrow> (VNil, False))"
| "json_any (JString s) = (VString s, True)"
| "json_any (JArray vs) = (let rs = map json_any vs in (VList (map fst rs), list_all snd rs))"
| "json_any (JObject ms) = (let rs = map (\<lambda>(k, v). (k, json_any v)) ms in
     (VMap (foldl (\<lambda>m (k, r). AList.update k (fst r) m) [] rs), list_all (\<lambda>(k, r). snd r) rs))"

text \<open>Decoding into a field of a map type: null resets it, an object is added to it.\<close>

definition decode_anymap :: "anymap option \<Rightarrow> json \<Rightarrow> anymap option \<times> bool" where
  "decode_anymap m v = (case v of
       JNull \<Rightarrow> (None, True)
     | JObject ms \<Rightarrow> (let rs = map (\<lambda>(k, v). (k, json_any v)) ms in
         (Some (foldl (\<lambda>m (k, r). AList.update k (fst r) m) (case m of None \<Rightarrow> [] | Some m \<Rightarrow> m) rs),
          list_all (\<lambda>(k, r). snd r) rs))
     | _ \<Rightarrow> (m, False))"


section \<open>The round trip\<close>

definition float_text :: "(float64 \<Rightarrow> string) \<Rightarrow> float64 \<Rightarrow> bool" where
  "float_text fmt x \<longleftrightarrow> json_number (fmt x) \<and> float_of_number (fmt x) = Some x"

text \<open>Values that come back: their texts are UTF-8, their floats print, their keys are distinct.\<close>

fun any_ok :: "(float64 \<Rightarrow> string) \<Rightarrow> anyval \<Rightarrow> bool" where
  "any_ok fmt (VInt i) = (\<exists>x. f_of_int i = Fin x)"
| "any_ok fmt (VFloat x) = float_text fmt x"
| "any_ok fmt (VString s) = valid_utf8 s"
| "any_ok fmt (VList vs) = list_all (any_ok fmt) vs"
| "any_ok fmt (VSlice _ vs) = list_all (any_ok fmt) vs"
| "any_ok fmt (VMap ms) = (distinct (map fst ms) \<and> list_all (\<lambda>(k, v). valid_utf8 k \<and> any_ok fmt v) ms)"
| "any_ok fmt (VStruct ms) = (distinct (map fst ms) \<and> list_all (\<lambda>(k, v). valid_utf8 k \<and> any_ok fmt v) ms)"
| "any_ok fmt v = True"

text \<open>The value that is read back.\<close>

fun any_norm :: "anyval \<Rightarrow> anyval" where
  "any_norm (VInt i) = VFloat (f_of_int i)"
| "any_norm (VTime t) = VString (RFC3339Nano_UTC t)"
| "any_norm (VTimePtr t) = (case t of None \<Rightarrow> VNil | Some t \<Rightarrow> VString (RFC3339Nano_UTC t))"
| "any_norm (VList vs) = VList (map any_norm vs)"
| "any_norm (VSlice _ vs) = VList (map any_norm vs)"
| "any_norm (VMap ms) = VMap (sort_members (map (\<lambda>(k, v). (k, any_norm v)) ms))"
| "any_norm (VStruct ms) = VMap (map (\<lambda>(k, v). (k, any_norm v)) ms)"
| "any_norm v = v"

text \<open>Sorting by key looks at the keys only.\<close>

lemma insert_by_map:
  "\<forall>a b. lt (f a) (f b) = lt' a b \<Longrightarrow> insert_by lt (f x) (map f ys) = map f (insert_by lt' x ys)"
  by (induction ys) auto

lemma sort_slice_map:
  assumes "\<forall>a b. lt (f a) (f b) = lt' a b"
  shows "sort_slice lt (map f xs) = map f (sort_slice lt' xs)"
proof -
  have "foldl (\<lambda>acc x. insert_by lt x acc) (map f acc) (map f xs) = map f (foldl (\<lambda>acc x. insert_by lt' x acc) acc xs)" for acc
    by (induction xs arbitrary: acc) (simp_all add: insert_by_map [where f = f and lt = lt and lt' = lt', OF assms])
  from this [of "[]"] show ?thesis by (simp add: sort_slice_def)
qed

lemma sort_members_map:
  "sort_members (map (\<lambda>(k, v). (k, f v)) ms) = map (\<lambda>(k, v). (k, f v)) (sort_members ms)"
  by (rule sort_slice_map) auto

lemma distinct_sort_members: "distinct (map fst (sort_members ms)) \<longleftrightarrow> distinct (map fst ms)"
  by (metis mset_eq_imp_distinct_iff mset_map mset_sort_slice)

text \<open>Adding distinct keys to a map appends them.\<close>

lemma update_fresh: "k \<notin> set (map fst m) \<Longrightarrow> AList.update k v m = m @ [(k, v)]"
  by (induction m) auto

lemma foldl_update_fresh:
  assumes "distinct (map fst rs)" and "set (map fst rs) \<inter> set (map fst m) = {}"
  shows "foldl (\<lambda>m (k, r). AList.update k (fst r) m) m rs = m @ map (\<lambda>(k, r). (k, fst r)) rs"
  using assms
proof (induction rs arbitrary: m)
  case (Cons r rs)
  obtain k x where r: "r = (k, x)" by (cases r)
  have "AList.update k (fst x) m = m @ [(k, fst x)]" using Cons.prems r by (intro update_fresh) auto
  moreover have "foldl (\<lambda>m (k, r). AList.update k (fst r) m) (m @ [(k, fst x)]) rs =
      (m @ [(k, fst x)]) @ map (\<lambda>(k, r). (k, fst r)) rs"
    by (rule Cons.IH) (use Cons.prems r in auto)
  ultimately show ?case using r by simp
qed simp


subsection \<open>Literals\<close>

lemma is_digit_char: "d < 10 \<Longrightarrow> is_digit (digit_char d)"
  by (simp add: is_digit_def digit_char_def)

lemma nat_dec_digits: "list_all is_digit (nat_dec n)"
proof (induction n rule: nat_dec.induct)
  case (1 n)
  then show ?case by (subst nat_dec.simps) (simp add: is_digit_char)
qed

lemma digit_char_zero: "d < 10 \<Longrightarrow> digit_char d = CHR ''0'' \<longleftrightarrow> d = 0"
proof -
  assume "d < 10"
  then have "(of_char (digit_char d) :: nat) = 48 + d" by (simp add: digit_char_def)
  moreover have "(of_char (CHR ''0'') :: nat) = 48" by simp
  moreover have "digit_char d = CHR ''0'' \<longleftrightarrow> (of_char (digit_char d) :: nat) = of_char (CHR ''0'')"
    by (rule of_char_eq_iff [symmetric])
  ultimately show ?thesis by simp
qed

lemma nat_dec_head: "nat_dec n = [digit_char 0] \<or> (nat_dec n \<noteq> [] \<and> hd (nat_dec n) \<noteq> CHR ''0'')"
proof (induction n rule: nat_dec.induct)
  case (1 n)
  show ?case
  proof (cases "n < 10")
    case True
    then have "digit_char n = CHR ''0'' \<Longrightarrow> n = 0"
      by (simp add: digit_char_zero)
    then show ?thesis using True by (subst nat_dec.simps, subst (2 3) nat_dec.simps) auto
  next
    case False
    then have "nat_dec (n div 10) \<noteq> [digit_char 0]"
      by (subst nat_dec.simps) (auto simp: digit_char_def nat_dec.simps)
    then show ?thesis using "1.IH" False by (subst (2 3) nat_dec.simps) simp
  qed
qed

lemma digits_val_snoc: "digits_val (ds @ [c]) = 10 * digits_val ds + digit_val c"
  by (simp add: digits_val_def)

lemma digits_val_nat_dec: "digits_val (nat_dec n) = int n"
proof (induction n rule: nat_dec.induct)
  case (1 n)
  have d: "d < 10 \<Longrightarrow> digit_val (digit_char d) = int d" for d by (simp add: digit_val_def digit_char_def)
  show ?case
  proof (cases "n < 10")
    case True
    then show ?thesis using digits_val_snoc [of "[]" "digit_char n"] d [of n] by (simp add: nat_dec.simps digits_val_def)
  next
    case False
    have "n = 10 * (n div 10) + n mod 10" by simp
    then have "int n = 10 * int (n div 10) + int (n mod 10)" by (metis of_nat_add of_nat_mult of_nat_numeral)
    then show ?thesis using 1 d [of "n mod 10"] False
      by (subst nat_dec.simps) (simp add: digits_val_snoc del: of_nat_div of_nat_mod)
  qed
qed


lemma takeWhile_all: "list_all p s \<Longrightarrow> takeWhile p s = s" "list_all p s \<Longrightarrow> dropWhile p s = []"
  by (induction s) auto

lemma number_whole_nat: "number_whole (nat_dec n) = Some (nat_dec n, [])"
proof (cases "nat_dec n = [digit_char 0]")
  case True
  then show ?thesis by (simp add: number_whole_def digit_char_zero)
next
  case False
  then have "nat_dec n \<noteq> []" "hd (nat_dec n) \<noteq> CHR ''0''" using nat_dec_head [of n] by auto
  then show ?thesis using takeWhile_all [OF nat_dec_digits [of n]]
    by (cases "nat_dec n") (auto simp: number_whole_def digits1_def)
qed

lemma fmt_d_number: "json_number (fmt_d i)"
proof -
  have rest: "number_frac [] = Some ([], [])" "number_exp [] = Some ([], [])"
    by (simp_all add: number_frac_def number_exp_def opt_char_def)
  have "opt_char ''-'' (nat_dec n) = ([], nat_dec n)" for n
    using nat_dec_digits [of n] by (cases "nat_dec n") (auto simp: opt_char_def is_digit_def)
  then show ?thesis
    by (auto simp: json_number_def parse_number_def fmt_d_def opt_char_def number_whole_nat rest)
qed

lemma sign_val_minus: "sign_val (CHR ''-'' # s) = (-1, s)"
  by (simp add: sign_val_def)

lemma number_value_nat: "number_value (nat_dec n) = of_nat n" "number_value (CHR ''-'' # nat_dec n) = - of_nat n"
proof -
  have "sign_val (nat_dec n) = (1, nat_dec n)"
    using nat_dec_digits [of n] by (cases "nat_dec n") (auto simp: sign_val_def is_digit_def)
  then show "number_value (nat_dec n) = of_nat n" "number_value (CHR ''-'' # nat_dec n) = - of_nat n"
    by (simp_all add: number_value_def sign_val_minus digits_val_nat_dec takeWhile_all [OF nat_dec_digits [of n]])
qed

lemma fmt_d_value: "number_value (fmt_d i) = of_int i"
  by (simp add: fmt_d_def number_value_nat)

lemma fmt_d_float: "f_of_int i = Fin x \<Longrightarrow> float_of_number (fmt_d i) = Some (Fin x)"
  by (simp add: float_of_number_def fmt_d_value f_of_int_def)

text \<open>The text of an instant is ASCII.\<close>

definition ascii_text :: "string \<Rightarrow> bool" where
  "ascii_text s \<longleftrightarrow> list_all (\<lambda>c. (of_char c :: nat) < 0x80) s"

lemma ascii_text_simps [simp]:
  "ascii_text []" "ascii_text (c # s) \<longleftrightarrow> (of_char c :: nat) < 0x80 \<and> ascii_text s" "ascii_text (s @ t) \<longleftrightarrow> ascii_text s \<and> ascii_text t"
  by (simp_all add: ascii_text_def)

lemma digit_char_ascii: "d < 10 \<Longrightarrow> of_char (digit_char d) < (0x80 :: nat)"
  by (simp add: digit_char_def)

lemma nat_dec_ascii: "ascii_text (nat_dec n)"
  using nat_dec_digits [of n] unfolding ascii_text_def by (auto simp: list_all_iff is_digit_def dest!: bspec)

lemma mod_digit: "nat ((n :: int) mod 10) < 10"
  by (simp add: nat_less_iff)

lemma pad2_ascii: "ascii_text (pad2 n)"
  by (simp add: pad2_def digit_char_ascii mod_digit)

lemma ascii_text_sub: "set s \<subseteq> set t \<Longrightarrow> ascii_text t \<Longrightarrow> ascii_text s"
  by (auto simp: ascii_text_def list_all_iff)

lemma nano_text_ascii: "ascii_text (nano_text n)"
proof -
  define ds where "ds = map (\<lambda>i. digit_char (nat (n div 10 ^ i mod 10))) [8, 7, 6, 5, 4, 3, 2, 1, 0]"
  have "ascii_text (map (\<lambda>i. digit_char (nat (n div 10 ^ i mod 10))) is)" for "is"
    by (induction "is") (simp_all add: digit_char_ascii mod_digit)
  then have "ascii_text ds" unfolding ds_def by blast
  then have "ascii_text (rev (dropWhile (\<lambda>c. c = CHR ''0'') (rev ds)))"
    by (rule ascii_text_sub [rotated]) (auto dest: set_dropWhileD)
  then show ?thesis unfolding nano_text_def ds_def [symmetric] by (simp add: Let_def)
qed

lemma instant_ascii: "ascii_text (RFC3339Nano_UTC t)"
proof -
  have "ascii_text (replicate k (CHR ''0''))" for k by (induction k) simp_all
  then have "ascii_text (year_text y)" for y by (simp add: year_text_def Let_def nat_dec_ascii)
  then show ?thesis
    by (cases "civil (t div second div 86400)") (simp add: RFC3339Nano_UTC_def Let_def pad2_ascii nano_text_ascii)
qed

lemma instant_valid: "valid_utf8 (RFC3339Nano_UTC t)"
  using instant_ascii by (simp add: ascii_text_def valid_ascii)


subsection \<open>Values\<close>

lemma sane_elems_map: "sane_elems vs = map sane vs"
  by (induction vs) simp_all

lemma sane_members_map: "sane_members ms = map (\<lambda>(k, v). (sanitise k, sane v)) ms"
  by (induction ms) auto

lemma elems_ok_all: "elems_ok vs = list_all json_ok vs"
  by (induction vs) simp_all

lemma members_ok_all: "members_ok ms = list_all (\<lambda>(k, v). json_ok v) ms"
  by (induction ms) auto

lemma list_all_sort_members: "list_all p (sort_members ms) = list_all p ms"
  by (simp add: list_all_iff)

lemma any_json_ok: "any_ok fmt v \<Longrightarrow> json_ok (any_json fmt v)"
proof (induction fmt v rule: any_json.induct)
  case (3 fmt i)
  then show ?case by (simp add: fmt_d_number)
qed (auto simp: float_text_def elems_ok_all members_ok_all list_all_sort_members list_all_iff split: option.splits)

lemma map_members_id:
  "(\<And>k v. (k, v) \<in> set ms \<Longrightarrow> f k v = (k, v)) \<Longrightarrow> map (\<lambda>(k, v). f k v) ms = ms"
  by (rule map_idI) auto

lemma any_json_sane: "any_ok fmt v \<Longrightarrow> sane (any_json fmt v) = any_json fmt v"
proof (induction fmt v rule: any_json.induct)
  case (10 fmt ms)
  have "map (\<lambda>(k, v). (sanitise k, sane v)) (sort_members (map (\<lambda>(k, v). (k, any_json fmt v)) ms)) =
      sort_members (map (\<lambda>(k, v). (k, any_json fmt v)) ms)"
    by (rule map_members_id) (use 10 in \<open>auto simp: list_all_iff sanitise_valid\<close>)
  then show ?case by (simp add: sane_members_map)
next
  case (11 fmt ms)
  have "map (\<lambda>(k, v). (sanitise k, sane v)) (map (\<lambda>(k, v). (k, any_json fmt v)) ms) =
      map (\<lambda>(k, v). (k, any_json fmt v)) ms"
    by (rule map_members_id) (use 11 in \<open>auto simp: list_all_iff sanitise_valid\<close>)
  then show ?case by (simp add: sane_members_map)
qed (auto simp: sane_elems_map list_all_iff sanitise_valid instant_valid split: option.splits)

lemma keys_map: "map fst (map (\<lambda>(k, v). (k, f v)) ms) = map fst ms"
  by (simp add: case_prod_unfold comp_def)

lemma json_any_members:
  assumes "distinct (map fst ms)" and "\<And>k v. (k, v) \<in> set ms \<Longrightarrow> json_any (f v) = (g v, True)"
  shows "json_any (JObject (map (\<lambda>(k, v). (k, f v)) ms)) = (VMap (map (\<lambda>(k, v). (k, g v)) ms), True)"
proof -
  let ?rs = "map (\<lambda>(k, v). (k, json_any v)) (map (\<lambda>(k, v). (k, f v)) ms)"
  have rs: "?rs = map (\<lambda>(k, v). (k, (g v, True))) ms" using assms(2) by (auto intro!: map_cong)
  have "foldl (\<lambda>m (k, r). AList.update k (fst r) m) [] ?rs = map (\<lambda>(k, v). (k, g v)) ms"
    using foldl_update_fresh [of ?rs "[]"] assms(1) unfolding rs by (simp add: keys_map) (simp add: case_prod_unfold comp_def)
  moreover have "list_all (\<lambda>(k, r). snd r) ?rs" unfolding rs by (auto simp: list_all_iff)
  ultimately show ?thesis by (simp only: json_any.simps Let_def)
qed

lemma any_roundtrip: "any_ok fmt v \<Longrightarrow> json_any (any_json fmt v) = (any_norm v, True)"
proof (induction fmt v rule: any_json.induct)
  case (3 fmt i)
  then show ?case using fmt_d_float [of i] by auto
next
  case (10 fmt ms)
  have "json_any (JObject (map (\<lambda>(k, v). (k, any_json fmt v)) (sort_members ms))) =
      (VMap (map (\<lambda>(k, v). (k, any_norm v)) (sort_members ms)), True)"
    by (rule json_any_members) (use 10 in \<open>auto simp: list_all_iff distinct_sort_members\<close>)
  then show ?case by (simp add: sort_members_map del: json_any.simps)
next
  case (11 fmt ms)
  have "json_any (JObject (map (\<lambda>(k, v). (k, any_json fmt v)) ms)) = (VMap (map (\<lambda>(k, v). (k, any_norm v)) ms), True)"
    by (rule json_any_members) (use 11 in \<open>auto simp: list_all_iff\<close>)
  then show ?case by (simp del: json_any.simps)
qed (auto simp: float_text_def list_all_iff Let_def split: option.splits)

end
