(* ===== verification/Http_Server.thy ===== *)
theory Http_Server
  imports Http_Middleware Validation_Cel Pipeline_Extract Go_Any_Json
begin

text \<open>
  \<^verbatim>\<open>internal/transport/http/server.go\<close>: the REST handlers over the pipelines and the
  repositories, the routes of the multiplexer, and the chain of middlewares that
  \<^verbatim>\<open>cmd/nous/main.go\<close> puts in front of them. A JSON response is the value that is
  encoded. The record \<open>http_env\<close> holds what the handlers do not control: the text of an error, the
  parser of identifiers (a third-party package), the clock reading of a resolution and the status code
  the multiplexer redirects with.
\<close>

record http_env =
  he_text :: "error \<Rightarrow> string"
  he_vtext :: "validation_error \<Rightarrow> string"
  he_parse :: "string \<Rightarrow> uuid option"
  he_now :: time
  he_redirect :: int

record 's Server =
  sv_extractor :: "'s Extractor"
  sv_evaluator :: "'s Evaluator"
  sv_commitments :: "'s CommitmentRepository"
  sv_decisions :: "'s DecisionRepository"
  sv_intervs :: "'s InterventionRepository"
  sv_metrics :: "(http_Request \<Rightarrow> http_Response) option"
  sv_healthChecker :: "('s \<Rightarrow> error option) option"
  sv_validator :: "Validator option"

definition http_NewServer ::
  "'s Extractor \<Rightarrow> 's Evaluator \<Rightarrow> 's CommitmentRepository \<Rightarrow> 's DecisionRepository \<Rightarrow>
   's InterventionRepository \<Rightarrow> (http_Request \<Rightarrow> http_Response) option \<Rightarrow> ('s \<Rightarrow> error option) option \<Rightarrow> 's Server" where
  "http_NewServer extractor evaluator commitments decisions interventions metrics healthChecker =
     \<lparr>sv_extractor = extractor, sv_evaluator = evaluator, sv_commitments = commitments,
      sv_decisions = decisions, sv_intervs = interventions, sv_metrics = metrics,
      sv_healthChecker = healthChecker, sv_validator = None\<rparr>"

definition WithValidator :: "Validator option \<Rightarrow> 's Server \<Rightarrow> 's Server" where
  "WithValidator v s = s\<lparr>sv_validator := v\<rparr>"


section \<open>Encoding\<close>

text \<open>
  \<^verbatim>\<open>json.Encode\<close> refuses NaN and the infinities, and instants outside the years 0 to
  9999; \<^verbatim>\<open>respond\<close> ignores the error, so the body is then empty.
\<close>

definition respond :: "anyval \<Rightarrow> http_Response" where
  "respond v = \<lparr>hs_Status = 200, hs_Header = [(''Content-Type'', ''application/json'')],
     hs_Body = (if encodable v then JsonBody v else NoBody)\<rparr>"

definition idsToStrings :: "(uuid \<Rightarrow> string) \<Rightarrow> uuid list \<Rightarrow> anyval" where
  "idsToStrings str ids = VSlice ''string'' (map (\<lambda>i. VString (str i)) ids)"

definition optionalID :: "(uuid \<Rightarrow> string) \<Rightarrow> uuid option \<Rightarrow> string" where
  "optionalID str i = (case i of None \<Rightarrow> [] | Some i \<Rightarrow> str i)"

text \<open>A field with \<^verbatim>\<open>omitempty\<close>.\<close>

definition opt_field :: "bool \<Rightarrow> string \<Rightarrow> anyval \<Rightarrow> (string \<times> anyval) list" where
  "opt_field present name v = (if present then [(name, v)] else [])"

definition commitmentToJSON :: "(uuid \<Rightarrow> string) \<Rightarrow> Commitment \<Rightarrow> anyval" where
  "commitmentToJSON str c = VStruct
     ([(''id'', VString (str (c_ID c))), (''owner_id'', VString (c_OwnerID c)),
       (''description'', VString (c_Description c)), (''status'', VString (c_Status c)),
       (''confidence'', VFloat (c_Confidence c)), (''risk_score'', VFloat (c_RiskScore c))] @
      opt_field (c_DueAt c \<noteq> None) ''due_at'' (VTimePtr (c_DueAt c)) @
      [(''created_at'', VTime (c_CreatedAt c)), (''updated_at'', VTime (c_UpdatedAt c))])"

definition sourceRefJSON :: "SourceRef \<Rightarrow> anyval" where
  "sourceRefJSON r = VStruct [(''kind'', VString (sr_Kind r)), (''locator'', VString (sr_Locator r))]"

abbreviation some_map :: "'a list option \<Rightarrow> 'a list" where
  "some_map m \<equiv> (case m of None \<Rightarrow> [] | Some x \<Rightarrow> x)"

definition decisionToJSON :: "(uuid \<Rightarrow> string) \<Rightarrow> Decision \<Rightarrow> anyval" where
  "decisionToJSON str d = VStruct
     ([(''id'', VString (str (d_ID d))), (''subject'', VString (d_Subject d))] @
      opt_field (0 < length (d_ContextRefs d)) ''context_refs'' (VSlice ''sourceRef'' (map sourceRefJSON (d_ContextRefs d))) @
      opt_field (some_map (d_Inputs d) \<noteq> []) ''inputs'' (VMap (some_map (d_Inputs d))) @
      opt_field (some_map (d_Weights d) \<noteq> []) ''weights'' (VMap (map (\<lambda>(k, x). (k, VFloat x)) (some_map (d_Weights d)))) @
      opt_field (some_map (d_Outcome d) \<noteq> []) ''outcome'' (VMap (some_map (d_Outcome d))) @
      [(''reason'', VString (d_Reason d)), (''confidence'', VFloat (d_Confidence d)), (''created_at'', VTime (d_CreatedAt d))])"

definition interventionToJSON :: "(uuid \<Rightarrow> string) \<Rightarrow> Intervention \<Rightarrow> anyval" where
  "interventionToJSON str iv = VStruct
     ([(''id'', VString (str (iv_ID iv)))] @
      opt_field (optionalID str (iv_CommitmentID iv) \<noteq> []) ''commitment_id'' (VString (optionalID str (iv_CommitmentID iv))) @
      [(''type'', VString (iv_Type iv)), (''message'', VString (iv_Message iv)),
       (''status'', VString (iv_Status iv)), (''triggered_at'', VTime (iv_TriggeredAt iv))] @
      opt_field (iv_ResolvedAt iv \<noteq> None) ''resolved_at'' (VTimePtr (iv_ResolvedAt iv)))"


section \<open>Decoding\<close>

text \<open>
  Every decoder returns the value and whether no type error occurred. The body of a request
  is read as far as the first JSON value.
\<close>

definition decode_sourceRef :: "json \<Rightarrow> (string \<times> string) \<times> bool" where
  "decode_sourceRef v = (case v of
       JObject ms \<Rightarrow> (case (string_field ''kind'' ms, string_field ''locator'' ms) of
          ((k, ok1), (l, ok2)) \<Rightarrow> ((k, l), ok1 \<and> ok2))
     | JNull \<Rightarrow> (([], []), True) | _ \<Rightarrow> (([], []), False))"

record extractRequest =
  xq_OwnerID :: string
  xq_Text :: string
  xq_Hints :: "string list"
  xq_SourceRefs :: "(string \<times> string) list"

definition body_bytes :: "http_Request \<Rightarrow> string" where
  "body_bytes r = (case hr_Body r of None \<Rightarrow> [] | Some (b, _) \<Rightarrow> b)"

definition decode_extract :: "string \<Rightarrow> extractRequest option" where
  "decode_extract b = (case json_Decode b of
       Some (JObject ms) \<Rightarrow>
         (case (string_field ''owner_id'' ms, string_field ''text'' ms, list_field decode_string ''hints'' ms,
                list_field decode_sourceRef ''source_refs'' ms) of
            ((o1, k1), (t, k2), (h, k3), (s, k4)) \<Rightarrow>
              if k1 \<and> k2 \<and> k3 \<and> k4
              then Some \<lparr>xq_OwnerID = o1, xq_Text = t, xq_Hints = h, xq_SourceRefs = s\<rparr> else None)
     | Some JNull \<Rightarrow> Some \<lparr>xq_OwnerID = [], xq_Text = [], xq_Hints = [], xq_SourceRefs = []\<rparr>
     | _ \<Rightarrow> None)"

definition decode_resolve :: "string \<Rightarrow> string option" where
  "decode_resolve b = (case json_Decode b of
       Some (JObject ms) \<Rightarrow> (case string_field ''status'' ms of (s, ok) \<Rightarrow> if ok then Some s else None)
     | Some JNull \<Rightarrow> Some []
     | _ \<Rightarrow> None)"

text \<open>The text of a decoding error is not modelled.\<close>

definition bad_json :: http_Response where
  "bad_json = httpError 400 ''json''"

text \<open>\<^verbatim>\<open>strconv.Atoi\<close>: an optional sign and decimal digits within the range of an int.\<close>

definition Atoi :: "string \<Rightarrow> int option" where
  "Atoi s = (case opt_char ''+-'' s of (sg, ds) \<Rightarrow>
     if ds = [] \<or> \<not> list_all is_digit ds then None
     else let n = (if sg = ''-'' then - digits_val ds else digits_val ds)
          in if min_int64 \<le> n \<and> n \<le> max_int64 then Some n else None)"


section \<open>Handlers\<close>

definition handleExtract :: "http_env \<Rightarrow> runtime \<Rightarrow> 's Server \<Rightarrow> 's world handler" where
  "handleExtract env rt s r w = (case decode_extract (body_bytes r) of
       None \<Rightarrow> (bad_json, w)
     | Some req \<Rightarrow>
        if xq_OwnerID req = [] \<or> xq_Text req = [] then (httpError 400 ''owner_id and text are required'', w)
        else
         let sourceRefs = map (\<lambda>(k, l). \<lparr>sr_Kind = k, sr_Locator = l\<rparr>) (xq_SourceRefs req);
             verr = (case sv_validator s of None \<Rightarrow> None
               | Some v \<Rightarrow> Validator_Validate (Some v) \<lparr>vi_OwnerID = xq_OwnerID req, vi_Text = xq_Text req,
                     vi_SourceKinds = map fst (xq_SourceRefs req)\<rparr>)
         in case verr of Some e \<Rightarrow> (httpError 400 (he_vtext env e), w)
          | None \<Rightarrow>
           (case Extract rt (sv_extractor s) \<lparr>ei_OwnerID = xq_OwnerID req, ei_Text = xq_Text req,
                   ei_Hints = xq_Hints req, ei_SourceRefs = sourceRefs\<rparr> w of
              ((res, Some err), w) \<Rightarrow> (httpError 500 (he_text env err), w)
            | ((res, None), w) \<Rightarrow>
               (respond (VStruct
                  ([(''considered'', VInt (int (xr_Considered res))),
                    (''saved_ids'', idsToStrings (rt_str rt) (xr_Saved res)),
                    (''dropped'', VInt (int (xr_Dropped res)))] @
                   opt_field (optionalID (rt_str rt) (xr_DecisionID res) \<noteq> []) ''decision_id''
                     (VString (optionalID (rt_str rt) (xr_DecisionID res))))), w)))"

definition handleEvaluate :: "http_env \<Rightarrow> runtime \<Rightarrow> 's Server \<Rightarrow> 's world handler" where
  "handleEvaluate env rt s r w =
    (case Evaluate rt (sv_evaluator s) \<lparr>eo_Limit = 0, eo_SignalLookback = 0\<rparr> w of
       ((res, Some err), w) \<Rightarrow> (httpError 500 (he_text env err), w)
     | ((res, None), w) \<Rightarrow>
        (respond (VStruct [(''evaluated'', VInt (int (r_Evaluated res))), (''updated'', VInt (int (r_Updated res))),
           (''intervention_ids'', idsToStrings (rt_str rt) (r_Interventions res)),
           (''decision_ids'', idsToStrings (rt_str rt) (r_Decisions res))]), w))"

definition handleListCommitments :: "http_env \<Rightarrow> runtime \<Rightarrow> 's Server \<Rightarrow> 's world handler" where
  "handleListCommitments env rt s r w =
    (let ownerID = values_Get (hr_Query r) ''owner_id'' in
     case CList (sv_commitments s) (w_store w)
            \<lparr>cf_OwnerID = ownerID, cf_Statuses = [], cf_DueBy = None, cf_Limit = 0\<rparr> of
       Inl err \<Rightarrow> (httpError 500 (he_text env err), w)
     | Inr xs \<Rightarrow> (respond (VSlice ''commitmentJSON'' (map (commitmentToJSON (rt_str rt)) xs)), w))"

definition handleGetCommitment :: "http_env \<Rightarrow> runtime \<Rightarrow> 's Server \<Rightarrow> string \<Rightarrow> 's world handler" where
  "handleGetCommitment env rt s pid r w = (case he_parse env pid of
       None \<Rightarrow> (httpError 400 ''invalid id'', w)
     | Some i \<Rightarrow> (case CGet (sv_commitments s) (w_store w) i of
          Inl err \<Rightarrow> (httpError 404 ''commitment not found'', w)
        | Inr c \<Rightarrow> (respond (commitmentToJSON (rt_str rt) c), w)))"

definition handleListDecisions :: "http_env \<Rightarrow> runtime \<Rightarrow> 's Server \<Rightarrow> 's world handler" where
  "handleListDecisions env rt s r w =
    (let subject = values_Get (hr_Query r) ''subject'' in
     if subject = [] then (httpError 400 ''subject is required'', w)
     else
      let v = values_Get (hr_Query r) ''limit'';
          limit = (if v \<noteq> [] then (case Atoi v of Some n \<Rightarrow> if 0 < n then n else 0 | None \<Rightarrow> 0) else 0)
      in case DListBySubject (sv_decisions s) (w_store w) subject limit of
           Inl err \<Rightarrow> (httpError 500 (he_text env err), w)
         | Inr xs \<Rightarrow> (respond (VSlice ''decisionJSON'' (map (decisionToJSON (rt_str rt)) xs)), w))"

definition handleGetDecision :: "http_env \<Rightarrow> runtime \<Rightarrow> 's Server \<Rightarrow> string \<Rightarrow> 's world handler" where
  "handleGetDecision env rt s pid r w = (case he_parse env pid of
       None \<Rightarrow> (httpError 400 ''invalid id'', w)
     | Some i \<Rightarrow> (case DGet (sv_decisions s) (w_store w) i of
          Inl err \<Rightarrow> (httpError 404 ''decision not found'', w)
        | Inr d \<Rightarrow> (respond (decisionToJSON (rt_str rt) d), w)))"

definition handleListInterventions :: "http_env \<Rightarrow> runtime \<Rightarrow> 's Server \<Rightarrow> 's world handler" where
  "handleListInterventions env rt s r w =
    (let v = values_Get (hr_Query r) ''commitment_id'' in
     case (if v = [] then Some None else map_option Some (he_parse env v)) of
       None \<Rightarrow> (httpError 400 ''invalid commitment_id'', w)
     | Some cid \<Rightarrow>
        (case IList (sv_intervs s) (w_store w)
               \<lparr>if_CommitmentID = cid, if_TaskID = None, if_Statuses = [], if_Since = None, if_Limit = 0\<rparr> of
           Inl err \<Rightarrow> (httpError 500 (he_text env err), w)
         | Inr xs \<Rightarrow> (respond (VSlice ''interventionJSON'' (map (interventionToJSON (rt_str rt)) xs)), w)))"

definition handleResolveIntervention :: "http_env \<Rightarrow> runtime \<Rightarrow> 's Server \<Rightarrow> string \<Rightarrow> 's world handler" where
  "handleResolveIntervention env rt s pid r w = (case he_parse env pid of
       None \<Rightarrow> (httpError 400 ''invalid id'', w)
     | Some i \<Rightarrow> (case decode_resolve (body_bytes r) of
          None \<Rightarrow> (bad_json, w)
        | Some status \<Rightarrow> (case IGet (sv_intervs s) (w_store w) i of
             Inl err \<Rightarrow> (httpError 404 ''intervention not found'', w)
           | Inr iv \<Rightarrow>
              if \<not> InterventionStatus_Valid status then (httpError 400 ''invalid status'', w)
              else (case Intervention_Resolve iv status (time_UTC (he_now env)) of
                 Inl err \<Rightarrow> (httpError 409 (he_text env err), w)
               | Inr iv \<Rightarrow> (case ISave (sv_intervs s) (w_store w) iv of
                    (Some err, st) \<Rightarrow> (httpError 500 (he_text env err), w\<lparr>w_store := st\<rparr>)
                  | (None, st) \<Rightarrow> (respond (interventionToJSON (rt_str rt) iv), w\<lparr>w_store := st\<rparr>))))))"

definition handleHealth :: "http_env \<Rightarrow> 's Server \<Rightarrow> 's world handler" where
  "handleHealth env s r w =
    (let bad = (case sv_healthChecker s of None \<Rightarrow> None | Some chk \<Rightarrow> chk (w_store w))
     in case bad of
          None \<Rightarrow> (\<lparr>hs_Status = 200, hs_Header = [(''Content-Type'', ''application/json'')],
                   hs_Body = JsonBody (VMap [(''status'', VString ''healthy'')])\<rparr>, w)
        | Some err \<Rightarrow> (\<lparr>hs_Status = 503, hs_Header = [(''Content-Type'', ''application/json'')],
                   hs_Body = JsonBody (VMap [(''status'', VString ''unhealthy''), (''error'', VString (he_text env err))])\<rparr>, w))"

definition handleMetrics :: "'s Server \<Rightarrow> 's world handler" where
  "handleMetrics s r w = (case sv_metrics s of
       Some h \<Rightarrow> (h r, w)
     | None \<Rightarrow> (\<lparr>hs_Status = 200, hs_Header = [(''Content-Type'', ''text/plain'')],
                hs_Body = Bytes (''# Metrics endpoint not configured'' @ [CHR 0x0A])\<rparr>, w))"


section \<open>Routes\<close>

text \<open>
  \<^verbatim>\<open>http.ServeMux\<close> on the patterns \<^verbatim>\<open>NewServer\<close> registers. A path that is not clean is
  redirected to its cleaned form (except for CONNECT); otherwise its segments, decoded one
  by one, select the pattern; a wildcard takes one segment. GET patterns serve HEAD too; a
  path that is known under other methods is 405, an unknown one 404.
\<close>

definition join_slash :: "string list \<Rightarrow> string" where
  "join_slash segs = concat (map (\<lambda>s. CHR ''/'' # s) segs)"

text \<open>\<^verbatim>\<open>cleanPath\<close>: empty and dot segments go, a double dot removes its predecessor, a trailing slash stays.\<close>

fun clean_segs :: "string list \<Rightarrow> string list \<Rightarrow> string list" where
  "clean_segs acc [] = rev acc"
| "clean_segs acc (s # ss) =
     (if s = [] \<or> s = ''.'' then clean_segs acc ss
      else if s = ''..'' then clean_segs (tl acc) ss
      else clean_segs (s # acc) ss)"

definition cleanPath :: "string \<Rightarrow> string" where
  "cleanPath p =
    (if p = [] then ''/''
     else
      let p = (if hd p \<noteq> CHR ''/'' then CHR ''/'' # p else p);
          segs = clean_segs [] (split_on (CHR ''/'') (tl p))
      in if segs = [] then ''/''
         else if last p = CHR ''/'' then join_slash segs @ ''/'' else join_slash segs)"

datatype route =
    RExtract | REvaluate | RListCommitments | RGetCommitment string | RListDecisions
  | RGetDecision string | RListInterventions | RResolve string | RHealth | RMetrics

definition path_segs :: "string \<Rightarrow> string list" where
  "path_segs p = map pct_decode (split_on (CHR ''/'') (tl p))"

definition wild :: "string \<Rightarrow> bool" where
  "wild seg \<longleftrightarrow> seg \<noteq> [] \<and> seg \<noteq> ''/''"

text \<open>The pattern the segments of a path match, with the method it is registered for.\<close>

definition mux_match :: "string list \<Rightarrow> (string \<times> route) option" where
  "mux_match segs = (case segs of
       [a] \<Rightarrow> if a = ''metrics'' then Some (''GET'', RMetrics) else None
     | [a, b] \<Rightarrow>
        if a \<noteq> ''v1'' then None
        else if b = ''extract'' then Some (''POST'', RExtract)
        else if b = ''evaluate'' then Some (''POST'', REvaluate)
        else if b = ''commitments'' then Some (''GET'', RListCommitments)
        else if b = ''decisions'' then Some (''GET'', RListDecisions)
        else if b = ''interventions'' then Some (''GET'', RListInterventions)
        else if b = ''health'' then Some (''GET'', RHealth)
        else None
     | [a, b, c] \<Rightarrow>
        if a \<noteq> ''v1'' \<or> \<not> wild c then None
        else if b = ''commitments'' then Some (''GET'', RGetCommitment c)
        else if b = ''decisions'' then Some (''GET'', RGetDecision c)
        else None
     | [a, b, c, d] \<Rightarrow>
        if a = ''v1'' \<and> b = ''interventions'' \<and> wild c \<and> d = ''resolve'' then Some (''POST'', RResolve c) else None
     | _ \<Rightarrow> None)"

definition method_serves :: "string \<Rightarrow> string \<Rightarrow> bool" where
  "method_serves pat meth \<longleftrightarrow> meth = pat \<or> pat = ''GET'' \<and> meth = ''HEAD''"

definition serve_route :: "http_env \<Rightarrow> runtime \<Rightarrow> 's Server \<Rightarrow> route \<Rightarrow> 's world handler" where
  "serve_route env rt s ro = (case ro of
       RExtract \<Rightarrow> handleExtract env rt s
     | REvaluate \<Rightarrow> handleEvaluate env rt s
     | RListCommitments \<Rightarrow> handleListCommitments env rt s
     | RGetCommitment i \<Rightarrow> handleGetCommitment env rt s i
     | RListDecisions \<Rightarrow> handleListDecisions env rt s
     | RGetDecision i \<Rightarrow> handleGetDecision env rt s i
     | RListInterventions \<Rightarrow> handleListInterventions env rt s
     | RResolve i \<Rightarrow> handleResolveIntervention env rt s i
     | RHealth \<Rightarrow> handleHealth env s
     | RMetrics \<Rightarrow> handleMetrics s)"

definition plain :: "int \<Rightarrow> string \<Rightarrow> http_Response" where
  "plain code msg = \<lparr>hs_Status = code, hs_Header = [(''Content-Type'', ''text/plain; charset=utf-8'')],
     hs_Body = Bytes (msg @ [CHR 0x0A])\<rparr>"

definition mux :: "http_env \<Rightarrow> runtime \<Rightarrow> 's Server \<Rightarrow> 's world handler" where
  "mux env rt s r w =
    (let p = hr_EscapedPath r in
     if p = ''*'' then (\<lparr>hs_Status = 400, hs_Header = [], hs_Body = NoBody\<rparr>, w)
     else if hr_Method r \<noteq> ''CONNECT'' \<and> cleanPath p \<noteq> p
       then (\<lparr>hs_Status = he_redirect env, hs_Header = [(''Location'', cleanPath p)], hs_Body = NoBody\<rparr>, w)
     else case mux_match (path_segs p) of
       None \<Rightarrow> (plain 404 ''404 page not found'', w)
     | Some (pat, ro) \<Rightarrow>
        if method_serves pat (hr_Method r) then serve_route env rt s ro r w
        else (plain 405 ''Method Not Allowed'', w))"

text \<open>
  \<^verbatim>\<open>internal/observability/middleware.go\<close>: the correlation identifier is taken from the
  request or made from the clock, and set on the response. The spans and the value in the
  context are read by the tracing library only.
\<close>

definition formatShortID :: "time \<Rightarrow> string" where
  "formatShortID t =
    (let t = time_UTC t; secs = t div second; s = secs mod 86400; n = t mod second in
     case civil (secs div 86400) of (y, m, d) \<Rightarrow>
       pad2 (y div 100) @ pad2 (y mod 100) @ pad2 m @ pad2 d @ ''T'' @
       pad2 (s div 3600) @ pad2 (s div 60 mod 60) @ pad2 (s mod 60) @ ''.'' @
       map (\<lambda>i. digit_char (nat (n div 10 ^ i mod 10))) [8, 7, 6, 5, 4, 3, 2, 1, 0])"

definition HTTPMiddleware :: "time \<Rightarrow> 'w handler \<Rightarrow> 'w handler" where
  "HTTPMiddleware now next r w =
    (let i = values_Get (hr_Header r) ''X-Correlation-Id'';
         i = (if i = [] then values_Get (hr_Header r) ''X-Request-Id'' else i);
         i = (if i = [] then formatShortID now else i)
     in case next r w of (resp, w) \<Rightarrow>
          (resp\<lparr>hs_Header := (''X-Correlation-Id'', i) # hs_Header resp\<rparr>, w))"

text \<open>
  The chain of \<^verbatim>\<open>main.go\<close>: authentication first, then the limiter per client address, then the
  limiter per owner, then the correlation identifier, then the multiplexer. The state is both limiters
  and the world.
\<close>

definition root_handler ::
  "http_env \<Rightarrow> runtime \<Rightarrow> jwt_lib \<Rightarrow> time \<Rightarrow> string \<Rightarrow> Verifier option \<Rightarrow> 's Server \<Rightarrow>
   (RateLimiter \<times> RateLimiter \<times> 's world) handler" where
  "root_handler env rt lib now authToken verifier s =
     CombinedAuthMiddleware lib (rt_printable rt) now authToken verifier
       (RateLimitMiddleware now now
          (OwnerRateLimitMiddleware (he_text env) now now (HTTPMiddleware now (mux env rt s))))"


section \<open>Lemmas\<close>

text \<open>Who is let in.\<close>

definition credential_ok ::
  "jwt_lib \<Rightarrow> (nat \<Rightarrow> bool) \<Rightarrow> time \<Rightarrow> string \<Rightarrow> Verifier option \<Rightarrow> string \<Rightarrow> bool" where
  "credential_ok lib printable now staticToken verifier raw \<longleftrightarrow>
     (staticToken \<noteq> [] \<and> raw = ''Bearer '' @ staticToken)
     \<or> (\<exists>v t c. verifier = Some v \<and> raw = ''Bearer '' @ t \<and> Verify lib printable v now t = Inr c)"

lemma starts_with_iff: "starts_with p s \<longleftrightarrow> (\<exists>t. s = p @ t)"
  by (metis append_eq_conv_conj append_take_drop_id starts_with_def)

lemma TrimPrefix_append [simp]: "TrimPrefix (p @ t) p = t"
  by (simp add: TrimPrefix_def starts_with_def)

lemma verified_prefix:
  "(HasPrefix raw p \<and> \<not> isl (f (TrimPrefix raw p))) \<longleftrightarrow> (\<exists>t c. raw = p @ t \<and> f t = Inr c)"
proof
  assume "HasPrefix raw p \<and> \<not> isl (f (TrimPrefix raw p))"
  then obtain t where "raw = p @ t" "\<not> isl (f t)" by (auto simp: starts_with_iff)
  then show "\<exists>t c. raw = p @ t \<and> f t = Inr c" by (cases "f t") auto
qed (auto simp: starts_with_iff)

lemma CombinedAuth_cases:
  assumes "staticToken \<noteq> [] \<or> verifier \<noteq> None"
  shows "CombinedAuthMiddleware lib printable now staticToken verifier next r w =
    (if isOpenPath (url_Path r)
        \<or> credential_ok lib printable now staticToken verifier (values_Get (hr_Header r) ''Authorization'')
     then next r w
     else (writeAuthErr (if values_Get (hr_Header r) ''Authorization'' = [] then ''missing bearer token''
             else ''missing or invalid bearer token''), w))"
proof -
  let ?raw = "values_Get (hr_Header r) ''Authorization''"
  have v: "(HasPrefix ?raw ''Bearer '' \<and> \<not> isl (Verify lib printable v now (TrimPrefix ?raw ''Bearer '')))
      \<longleftrightarrow> (\<exists>t c. ?raw = ''Bearer '' @ t \<and> Verify lib printable v now t = Inr c)" for v
    by (rule verified_prefix)
  show ?thesis
  proof (cases verifier)
    case None
    then show ?thesis using assms by (auto simp: CombinedAuthMiddleware_def credential_ok_def Let_def)
  next
    case (Some v')
    then show ?thesis using v [of v'] by (auto simp: CombinedAuthMiddleware_def credential_ok_def Let_def)
  qed
qed


text \<open>Decoding a path and splitting it commute, so a route determines the decoded path.\<close>

lemma hex_val_slash [simp]: "hex_val (CHR ''/'') = None"
  by (simp add: hex_val_def)

lemma hex_pair_slash:
  "hex_pair (a @ CHR ''/'' # b) = map_option (\<lambda>(d, r). (d, r @ CHR ''/'' # b)) (hex_pair a)"
proof (cases a)
  case Nil
  then show ?thesis by (simp add: hex_pair_def split: list.split)
next
  case (Cons x a')
  then show ?thesis by (cases a') (simp_all add: hex_pair_def split: option.split)
qed

lemma pct_decode_slash: "pct_decode (a @ CHR ''/'' # b) = pct_decode a @ CHR ''/'' # pct_decode b"
proof (induction a rule: pct_decode.induct)
  case (2 c s)
  then show ?case by (cases "c = CHR 0x25"; cases "hex_pair s") (auto simp: hex_pair_slash)
qed simp

lemma join_split: "join_slash (split_on (CHR ''/'') s) = CHR ''/'' # s"
proof (induction s)
  case (Cons c s)
  then show ?case by (cases "split_on (CHR ''/'') s") (auto simp: join_slash_def)
qed (simp add: join_slash_def)

lemma pct_decode_join: "pct_decode (join_slash segs) = join_slash (map pct_decode segs)"
proof (induction segs)
  case (Cons s ss)
  show ?case
  proof (cases ss)
    case Nil
    then show ?thesis by (simp add: join_slash_def)
  next
    case (Cons t ts)
    then have "join_slash ss = CHR ''/'' # (t @ join_slash ts)" by (simp add: join_slash_def)
    moreover have "join_slash (s # ss) = CHR ''/'' # (s @ join_slash ss)" by (simp add: join_slash_def)
    ultimately have "pct_decode (join_slash (s # ss)) = CHR ''/'' # (pct_decode s @ pct_decode (join_slash ss))"
      by (simp add: pct_decode_slash)
    then show ?thesis using Cons.IH by (simp add: join_slash_def)
  qed
qed (simp add: join_slash_def)

lemma url_Path_segs: "hr_EscapedPath r = CHR ''/'' # q \<Longrightarrow> url_Path r = join_slash (path_segs (hr_EscapedPath r))"
  by (simp add: url_Path_def path_segs_def flip: pct_decode_join) (simp add: join_split)

lemma cleanPath_slash: "\<exists>q. cleanPath p = CHR ''/'' # q"
proof -
  have "segs \<noteq> [] \<Longrightarrow> \<exists>q. join_slash segs @ t = CHR ''/'' # q" for segs t by (cases segs) (auto simp: join_slash_def)
  from this [where t = "[]"] this [where t = "''/''"] show ?thesis by (auto simp: cleanPath_def Let_def)
qed

fun route_segs :: "route \<Rightarrow> string list" where
  "route_segs RExtract = [''v1'', ''extract'']"
| "route_segs REvaluate = [''v1'', ''evaluate'']"
| "route_segs RListCommitments = [''v1'', ''commitments'']"
| "route_segs (RGetCommitment i) = [''v1'', ''commitments'', i]"
| "route_segs RListDecisions = [''v1'', ''decisions'']"
| "route_segs (RGetDecision i) = [''v1'', ''decisions'', i]"
| "route_segs RListInterventions = [''v1'', ''interventions'']"
| "route_segs (RResolve i) = [''v1'', ''interventions'', i, ''resolve'']"
| "route_segs RHealth = [''v1'', ''health'']"
| "route_segs RMetrics = [''metrics'']"

lemma match_segs: "mux_match segs = Some (pat, ro) \<Longrightarrow> segs = route_segs ro \<and> (pat = ''GET'' \<or> pat = ''POST'')"
  by (simp add: mux_match_def split: list.splits if_splits) (elim conjE; hypsubst; simp)+

lemma open_route:
  assumes "mux_match segs = Some (pat, ro)" and "isOpenPath (join_slash segs)"
  shows "ro = RHealth \<or> ro = RMetrics"
  using assms(2) unfolding match_segs [OF assms(1), THEN conjunct1]
  by (cases ro) (simp_all add: isOpenPath_def join_slash_def starts_with_def split: if_splits)

definition same_health :: "'s Server \<Rightarrow> 's world \<Rightarrow> 's world \<Rightarrow> bool" where
  "same_health s w w' \<longleftrightarrow> (case sv_healthChecker s of None \<Rightarrow> True | Some chk \<Rightarrow> chk (w_store w) = chk (w_store w'))"

lemma mux_open:
  assumes "isOpenPath (url_Path r)" and "same_health s w w'"
  shows "snd (mux env rt s r w) = w \<and> fst (mux env rt s r w) = fst (mux env rt s r w')"
proof (cases "hr_EscapedPath r = ''*'' \<or> hr_Method r \<noteq> ''CONNECT'' \<and> cleanPath (hr_EscapedPath r) \<noteq> hr_EscapedPath r")
  case False
  show ?thesis
  proof (cases "mux_match (path_segs (hr_EscapedPath r))")
    case (Some p)
    obtain pat ro where p: "p = (pat, ro)" by (cases p)
    show ?thesis
    proof (cases "method_serves pat (hr_Method r)")
      case True
      have "pat = ''GET'' \<or> pat = ''POST''" using match_segs [of _ pat ro] Some p by simp
      then have "hr_Method r \<noteq> ''CONNECT''" using True by (auto simp: method_serves_def)
      then have "cleanPath (hr_EscapedPath r) = hr_EscapedPath r" using False by blast
      then obtain q where "hr_EscapedPath r = CHR ''/'' # q" using cleanPath_slash by metis
      then have "isOpenPath (join_slash (path_segs (hr_EscapedPath r)))" using assms(1) url_Path_segs by metis
      with Some p have "ro = RHealth \<or> ro = RMetrics" using open_route by blast
      then show ?thesis using False Some p True assms(2)
        by (auto simp: mux_def Let_def serve_route_def handleHealth_def handleMetrics_def same_health_def
            split: option.splits)
    qed (use False Some p in \<open>auto simp: mux_def Let_def\<close>)
  qed (use False in \<open>auto simp: mux_def Let_def\<close>)
qed (auto simp: mux_def Let_def)


section \<open>Properties\<close>


end
