(* ===== verification/Grpc_Server.thy ===== *)
theory Grpc_Server
  imports Http_Server
begin

text \<open>
  \<^verbatim>\<open>internal/transport/grpc/server.go\<close>: the RPC handlers and the mappers to messages. The
  message types are generated code; a message is the structure of its fields. Timestamps
  and durations of requests are held as \<^verbatim>\<open>AsTime\<close> and \<^verbatim>\<open>AsDuration\<close> answer them. The
  record \<open>grpc_env\<close> holds the text of errors and of \<^verbatim>\<open>%v\<close> values, the parser of
  identifiers and the clock reading of a resolution.
\<close>

record grpc_env =
  ge_text :: "error \<Rightarrow> string"
  ge_fmt_v :: "anyval \<Rightarrow> string"
  ge_parse :: "string \<Rightarrow> uuid option"
  ge_now :: time

record 's grpc_Server =
  gs_extractor :: "'s Extractor"
  gs_evaluator :: "'s Evaluator"
  gs_commitments :: "'s CommitmentRepository"
  gs_decisions :: "'s DecisionRepository"
  gs_interventions :: "'s InterventionRepository"

definition grpc_NewServer ::
  "'s Extractor \<Rightarrow> 's Evaluator \<Rightarrow> 's CommitmentRepository \<Rightarrow> 's DecisionRepository \<Rightarrow>
   's InterventionRepository \<Rightarrow> 's grpc_Server" where
  "grpc_NewServer extractor evaluator commitments decisions interventions =
     \<lparr>gs_extractor = extractor, gs_evaluator = evaluator, gs_commitments = commitments,
      gs_decisions = decisions, gs_interventions = interventions\<rparr>"

text \<open>\<^verbatim>\<open>int32(n)\<close> wraps around.\<close>

definition wrap32 :: "int \<Rightarrow> int" where
  "wrap32 i = (i + 2 ^ 31) mod 2 ^ 32 - 2 ^ 31"


section \<open>Mappers\<close>

definition sourceRefToProto :: "SourceRef \<Rightarrow> anyval" where
  "sourceRefToProto r = VStruct [(''kind'', VString (sr_Kind r)), (''locator'', VString (sr_Locator r))]"

definition entityToProto :: "EntityRef \<Rightarrow> anyval" where
  "entityToProto e = VStruct [(''kind'', VString (er_Kind e)), (''name'', VString (er_Name e)), (''id'', VString (er_ID e))]"

definition commitmentToProto :: "(uuid \<Rightarrow> string) \<Rightarrow> Commitment \<Rightarrow> anyval" where
  "commitmentToProto str c = VStruct
     [(''id'', VString (str (c_ID c))), (''owner_id'', VString (c_OwnerID c)),
      (''description'', VString (c_Description c)), (''status'', VString (c_Status c)),
      (''confidence'', VFloat (c_Confidence c)), (''risk_score'', VFloat (c_RiskScore c)),
      (''created_at'', VTime (c_CreatedAt c)), (''updated_at'', VTime (c_UpdatedAt c)),
      (''due_at'', VTimePtr (c_DueAt c)), (''last_evaluated_at'', VTimePtr (c_LastEvaluatedAt c)),
      (''source_refs'', VSlice ''SourceRef'' (map sourceRefToProto (c_SourceRefs c))),
      (''entities'', VSlice ''EntityRef'' (map entityToProto (c_Entities c)))]"

definition stringifyMap :: "(anyval \<Rightarrow> string) \<Rightarrow> anymap option \<Rightarrow> anyval" where
  "stringifyMap fmt m = VMap (map (\<lambda>(k, v). (k, VString (fmt v))) (some_map m))"

definition stringifyAnyMap :: "(anyval \<Rightarrow> string) \<Rightarrow> anymap option \<Rightarrow> anyval" where
  "stringifyAnyMap fmt m = stringifyMap fmt m"

definition decisionToProto :: "(uuid \<Rightarrow> string) \<Rightarrow> (anyval \<Rightarrow> string) \<Rightarrow> Decision \<Rightarrow> anyval" where
  "decisionToProto str fmt d = VStruct
     [(''id'', VString (str (d_ID d))), (''subject'', VString (d_Subject d)), (''reason'', VString (d_Reason d)),
      (''confidence'', VFloat (d_Confidence d)), (''created_at'', VTime (d_CreatedAt d)),
      (''context_refs'', VSlice ''SourceRef'' (map sourceRefToProto (d_ContextRefs d))),
      (''inputs'', stringifyMap fmt (d_Inputs d)), (''outcome'', stringifyMap fmt (d_Outcome d))]"

definition actionRequestToProto :: "(uuid \<Rightarrow> string) \<Rightarrow> (anyval \<Rightarrow> string) \<Rightarrow> ActionRequest \<Rightarrow> anyval" where
  "actionRequestToProto str fmt ar = VStruct
     [(''id'', VString (str (ar_ID ar))), (''capability'', VString (ar_Capability ar)),
      (''idempotency_key'', VString (ar_IdempotencyKey ar)),
      (''payload'', if ar_Payload ar \<noteq> None then stringifyAnyMap fmt (ar_Payload ar) else VNil),
      (''constraints'', VSlice ''ActionConstraint''
         (map (\<lambda>c. VStruct [(''key'', VString (ac_Key c)), (''value'', VString (ac_Value c))]) (ar_Constraints ar)))]"

definition interventionToProto :: "(uuid \<Rightarrow> string) \<Rightarrow> (anyval \<Rightarrow> string) \<Rightarrow> Intervention \<Rightarrow> anyval" where
  "interventionToProto str fmt iv = VStruct
     [(''id'', VString (str (iv_ID iv))), (''type'', VString (iv_Type iv)), (''message'', VString (iv_Message iv)),
      (''status'', VString (iv_Status iv)), (''triggered_at'', VTime (iv_TriggeredAt iv)),
      (''commitment_id'', VString (optionalID str (iv_CommitmentID iv))),
      (''task_id'', VString (optionalID str (iv_TaskID iv))),
      (''suggested_action'', case iv_SuggestedAction iv of None \<Rightarrow> VNil | Some a \<Rightarrow> actionRequestToProto str fmt a),
      (''resolved_at'', VTimePtr (iv_ResolvedAt iv))]"


section \<open>Handlers\<close>

record ExtractRequest =
  gx_OwnerId :: string
  gx_Text :: string
  gx_Hints :: "string list"
  gx_SourceRefs :: "(string \<times> string) list"

definition grpc_Extract :: "grpc_env \<Rightarrow> runtime \<Rightarrow> 's grpc_Server \<Rightarrow> (ExtractRequest, anyval, 's world) unary_handler" where
  "grpc_Extract env rt s req w =
    (if gx_OwnerId req = [] then (Inl (InvalidArgument, ''owner_id is required''), w)
     else if gx_Text req = [] then (Inl (InvalidArgument, ''text is required''), w)
     else
      let sourceRefs = map (\<lambda>(k, l). \<lparr>sr_Kind = k, sr_Locator = l\<rparr>) (gx_SourceRefs req) in
      case Extract rt (gs_extractor s) \<lparr>ei_OwnerID = gx_OwnerId req, ei_Text = gx_Text req,
              ei_Hints = gx_Hints req, ei_SourceRefs = sourceRefs\<rparr> w of
        ((res, Some err), w) \<Rightarrow> (Inl (Internal, ge_text env err), w)
      | ((res, None), w) \<Rightarrow>
          (Inr (VStruct [(''considered'', VInt (wrap32 (int (xr_Considered res)))),
             (''saved_ids'', idsToStrings (rt_str rt) (xr_Saved res)),
             (''dropped'', VInt (wrap32 (int (xr_Dropped res)))),
             (''decision_id'', VString (optionalID (rt_str rt) (xr_DecisionID res)))]), w))"

record EvaluateRequest =
  gv_Limit :: int
  gv_SignalLookback :: "duration option"

definition grpc_Evaluate :: "grpc_env \<Rightarrow> runtime \<Rightarrow> 's grpc_Server \<Rightarrow> (EvaluateRequest, anyval, 's world) unary_handler" where
  "grpc_Evaluate env rt s req w =
    (let opts = \<lparr>eo_Limit = gv_Limit req, eo_SignalLookback = 0\<rparr>;
         opts = (case gv_SignalLookback req of None \<Rightarrow> opts | Some d \<Rightarrow> opts\<lparr>eo_SignalLookback := d\<rparr>)
     in case Evaluate rt (gs_evaluator s) opts w of
          ((res, Some err), w) \<Rightarrow> (Inl (Internal, ge_text env err), w)
        | ((res, None), w) \<Rightarrow>
           (Inr (VStruct [(''evaluated'', VInt (wrap32 (int (r_Evaluated res)))),
              (''updated'', VInt (wrap32 (int (r_Updated res)))),
              (''intervention_ids'', idsToStrings (rt_str rt) (r_Interventions res)),
              (''decision_ids'', idsToStrings (rt_str rt) (r_Decisions res))]), w))"

record ListCommitmentsRequest =
  gl_OwnerId :: string
  gl_Statuses :: "string list"
  gl_DueBy :: "time option"
  gl_Limit :: int

definition grpc_ListCommitments ::
  "grpc_env \<Rightarrow> runtime \<Rightarrow> 's grpc_Server \<Rightarrow> (ListCommitmentsRequest, anyval list, 's world) unary_handler" where
  "grpc_ListCommitments env rt s req w =
    (case CList (gs_commitments s) (w_store w) \<lparr>cf_OwnerID = gl_OwnerId req, cf_Statuses = gl_Statuses req,
            cf_DueBy = gl_DueBy req, cf_Limit = gl_Limit req\<rparr> of
       Inl err \<Rightarrow> (Inl (Internal, ge_text env err), w)
     | Inr xs \<Rightarrow> (Inr (map (commitmentToProto (rt_str rt)) xs), w))"

text \<open>\<^verbatim>\<open>errors.Is\<close> against the sentinel of a table.\<close>

definition is_commitment_not_found :: "error \<Rightarrow> bool" where
  "is_commitment_not_found e = (case err_root e of ErrCommitmentNotFound _ \<Rightarrow> True | _ \<Rightarrow> False)"

definition is_decision_not_found :: "error \<Rightarrow> bool" where
  "is_decision_not_found e = (case err_root e of ErrDecisionNotFound _ \<Rightarrow> True | _ \<Rightarrow> False)"

definition is_intervention_not_found :: "error \<Rightarrow> bool" where
  "is_intervention_not_found e = (case err_root e of ErrInterventionNotFound _ \<Rightarrow> True | _ \<Rightarrow> False)"

definition GetCommitment :: "grpc_env \<Rightarrow> runtime \<Rightarrow> 's grpc_Server \<Rightarrow> (string, anyval, 's world) unary_handler" where
  "GetCommitment env rt s pid w = (case ge_parse env pid of
       None \<Rightarrow> (Inl (InvalidArgument, ''invalid id''), w)
     | Some i \<Rightarrow> (case CGet (gs_commitments s) (w_store w) i of
          Inl err \<Rightarrow> (Inl (if is_commitment_not_found err then (NotFound, ''commitment not found'')
                          else (Internal, ge_text env err)), w)
        | Inr c \<Rightarrow> (Inr (commitmentToProto (rt_str rt) c), w)))"

definition ListDecisions :: "grpc_env \<Rightarrow> runtime \<Rightarrow> 's grpc_Server \<Rightarrow> (string \<times> int, anyval list, 's world) unary_handler" where
  "ListDecisions env rt s req w = (case req of (subject, limit) \<Rightarrow>
     (case DListBySubject (gs_decisions s) (w_store w) subject limit of
        Inl err \<Rightarrow> (Inl (Internal, ge_text env err), w)
      | Inr xs \<Rightarrow> (Inr (map (decisionToProto (rt_str rt) (ge_fmt_v env)) xs), w)))"

definition GetDecision :: "grpc_env \<Rightarrow> runtime \<Rightarrow> 's grpc_Server \<Rightarrow> (string, anyval, 's world) unary_handler" where
  "GetDecision env rt s pid w = (case ge_parse env pid of
       None \<Rightarrow> (Inl (InvalidArgument, ''invalid id''), w)
     | Some i \<Rightarrow> (case DGet (gs_decisions s) (w_store w) i of
          Inl err \<Rightarrow> (Inl (if is_decision_not_found err then (NotFound, ''decision not found'')
                          else (Internal, ge_text env err)), w)
        | Inr d \<Rightarrow> (Inr (decisionToProto (rt_str rt) (ge_fmt_v env) d), w)))"

record ListInterventionsRequest =
  gi_CommitmentId :: string
  gi_TaskId :: string
  gi_Statuses :: "string list"
  gi_Since :: "time option"
  gi_Limit :: int

definition parse_optional :: "grpc_env \<Rightarrow> string \<Rightarrow> uuid option option" where
  "parse_optional env s = (if s = [] then Some None else map_option Some (ge_parse env s))"

definition ListInterventions ::
  "grpc_env \<Rightarrow> runtime \<Rightarrow> 's grpc_Server \<Rightarrow> (ListInterventionsRequest, anyval list, 's world) unary_handler" where
  "ListInterventions env rt s req w = (case parse_optional env (gi_CommitmentId req) of
       None \<Rightarrow> (Inl (InvalidArgument, ''invalid commitment_id''), w)
     | Some commitmentID \<Rightarrow> (case parse_optional env (gi_TaskId req) of
          None \<Rightarrow> (Inl (InvalidArgument, ''invalid task_id''), w)
        | Some taskID \<Rightarrow>
           (case IList (gs_interventions s) (w_store w) \<lparr>if_CommitmentID = commitmentID, if_TaskID = taskID,
                   if_Statuses = gi_Statuses req, if_Since = gi_Since req, if_Limit = gi_Limit req\<rparr> of
              Inl err \<Rightarrow> (Inl (Internal, ge_text env err), w)
            | Inr xs \<Rightarrow> (Inr (map (interventionToProto (rt_str rt) (ge_fmt_v env)) xs), w))))"

definition GetIntervention :: "grpc_env \<Rightarrow> runtime \<Rightarrow> 's grpc_Server \<Rightarrow> (string, anyval, 's world) unary_handler" where
  "GetIntervention env rt s pid w = (case ge_parse env pid of
       None \<Rightarrow> (Inl (InvalidArgument, ''invalid id''), w)
     | Some i \<Rightarrow> (case IGet (gs_interventions s) (w_store w) i of
          Inl err \<Rightarrow> (Inl (if is_intervention_not_found err then (NotFound, ''intervention not found'')
                          else (Internal, ge_text env err)), w)
        | Inr iv \<Rightarrow> (Inr (interventionToProto (rt_str rt) (ge_fmt_v env) iv), w)))"

definition ResolveIntervention ::
  "grpc_env \<Rightarrow> runtime \<Rightarrow> 's grpc_Server \<Rightarrow> (string \<times> string, anyval, 's world) unary_handler" where
  "ResolveIntervention env rt s req w = (case req of (pid, status) \<Rightarrow>
    (case ge_parse env pid of
       None \<Rightarrow> (Inl (InvalidArgument, ''invalid id''), w)
     | Some i \<Rightarrow> (case IGet (gs_interventions s) (w_store w) i of
          Inl err \<Rightarrow> (Inl (if is_intervention_not_found err then (NotFound, ''intervention not found'')
                          else (Internal, ge_text env err)), w)
        | Inr iv \<Rightarrow>
           if \<not> InterventionStatus_Valid status
           then (Inl (InvalidArgument, ''invalid status '' @ fmt_q (rt_printable rt) status), w)
           else (case Intervention_Resolve iv status (time_UTC (ge_now env)) of
              Inl err \<Rightarrow> (Inl (FailedPrecondition, ge_text env err), w)
            | Inr iv \<Rightarrow> (case ISave (gs_interventions s) (w_store w) iv of
                 (Some err, st) \<Rightarrow> (Inl (Internal, ge_text env err), w\<lparr>w_store := st\<rparr>)
               | (None, st) \<Rightarrow> (Inr (interventionToProto (rt_str rt) (ge_fmt_v env) iv), w\<lparr>w_store := st\<rparr>))))))"


section \<open>Resolving through either transport\<close>

text \<open>Two servers in front of the same memory store, parsing identifiers and reading the clock alike.\<close>

definition same_service :: "(uuid \<Rightarrow> string) \<Rightarrow> range_orders \<Rightarrow> http_env \<Rightarrow> state Server \<Rightarrow> grpc_env \<Rightarrow> state grpc_Server \<Rightarrow> bool" where
  "same_service str ro henv hs genv gs \<longleftrightarrow>
     sv_intervs hs = conn_Interventions (fst (memory_New str ro)) \<and> gs_interventions gs = sv_intervs hs
     \<and> he_parse henv = ge_parse genv \<and> he_now henv = ge_now genv"

text \<open>The intervention a request names, provided its status may become the requested one.\<close>

definition resolvable :: "(uuid \<Rightarrow> string) \<Rightarrow> grpc_env \<Rightarrow> state \<Rightarrow> string \<Rightarrow> string \<Rightarrow> Intervention option" where
  "resolvable str genv st pid status = (case ge_parse genv pid of None \<Rightarrow> None
     | Some i \<Rightarrow> (case map_of (st_interventions st) (str i) of None \<Rightarrow> None
        | Some iv \<Rightarrow> if InterventionStatus_Valid status \<and> InterventionStatus_CanTransitionTo (iv_Status iv) status
                    then Some iv else None))"

definition store_resolved :: "(uuid \<Rightarrow> string) \<Rightarrow> time \<Rightarrow> string \<Rightarrow> Intervention \<Rightarrow> state \<Rightarrow> state" where
  "store_resolved str now status iv st = st\<lparr>st_interventions :=
     AList.update (str (iv_ID iv)) (iv\<lparr>iv_Status := status, iv_ResolvedAt := Some now\<rparr>) (st_interventions st)\<rparr>"

lemma memory_interventions [simp]:
  "ISave (conn_Interventions (fst (memory_New str ro))) = interventionRepo_Save str"
  "IGet (conn_Interventions (fst (memory_New str ro))) = interventionRepo_Get str"
  by (simp_all add: memory_New_def)

lemma interventionRepo_Get_row:
  "interventionRepo_Get str st i =
     (case map_of (st_interventions st) (str i) of None \<Rightarrow> Inl (ErrInterventionNotFound i) | Some iv \<Rightarrow> Inr iv)"
  by (simp add: interventionRepo_Get_def clone_simps split: option.split)

lemma save_resolved:
  assumes "state_wf str st" and "map_of (st_interventions st) k = Some iv"
    and "InterventionStatus_Valid status"
  shows "interventionRepo_Save str st (iv\<lparr>iv_Status := status, iv_ResolvedAt := Some now\<rparr>)
     = (None, store_resolved str now status iv st)"
proof -
  have "Intervention_Validate iv = None"
    using assms(1,2) by (auto simp: state_wf_def dest: table_wf_lookup)
  then have "Intervention_Validate (iv\<lparr>iv_Status := status, iv_ResolvedAt := Some now\<rparr>) = None"
    using assms(3) by (simp add: Intervention_Validate_None)
  then show ?thesis by (simp add: interventionRepo_Save_def store_resolved_def clone_simps)
qed

lemma store_resolved_wf:
  assumes "state_wf str st" and "map_of (st_interventions st) k = Some iv" and "InterventionStatus_Valid status"
  shows "state_wf str (store_resolved str now status iv st)"
proof -
  let ?iv = "iv\<lparr>iv_Status := status, iv_ResolvedAt := Some now\<rparr>"
  have t: "table_wf str iv_ID (\<lambda>iv. Intervention_Validate iv = None) (st_interventions st)"
    using assms(1) by (simp add: state_wf_def)
  have "Intervention_Validate iv = None" using table_wf_lookup [OF t assms(2)] by simp
  then have "Intervention_Validate ?iv = None" using assms(3) by (simp add: Intervention_Validate_None)
  from table_wf_update [OF t this] assms(1) show ?thesis by (simp add: state_wf_def store_resolved_def)
qed

lemma grpc_resolve:
  assumes "same_service str ro henv hs genv gs" and "state_wf str (w_store w)"
  shows "case resolvable str genv (w_store w) pid status of
      None \<Rightarrow> isl (fst (ResolveIntervention genv rt gs (pid, status) w)) \<and> snd (ResolveIntervention genv rt gs (pid, status) w) = w
    | Some iv \<Rightarrow> \<not> isl (fst (ResolveIntervention genv rt gs (pid, status) w))
        \<and> snd (ResolveIntervention genv rt gs (pid, status) w) = w\<lparr>w_store := store_resolved str (ge_now genv) status iv (w_store w)\<rparr>"
proof -
  have gs: "ISave (gs_interventions gs) = interventionRepo_Save str" "IGet (gs_interventions gs) = interventionRepo_Get str"
    using assms(1) by (simp_all add: same_service_def)
  show ?thesis
  proof (cases "ge_parse genv pid")
    case (Some i)
    note i = this
    show ?thesis
    proof (cases "map_of (st_interventions (w_store w)) (str i)")
      case (Some iv)
      show ?thesis using i Some save_resolved [OF assms(2) Some, of status "ge_now genv"]
        by (simp add: ResolveIntervention_def resolvable_def gs interventionRepo_Get_row Intervention_Resolve_def)
    qed (simp add: i ResolveIntervention_def resolvable_def gs interventionRepo_Get_row)
  qed (simp add: ResolveIntervention_def resolvable_def)
qed

lemma http_resolve_like_grpc:
  assumes "same_service str ro henv hs genv gs" and "decode_resolve (body_bytes r) = Some status"
  shows "snd (handleResolveIntervention henv rt hs pid r w) = snd (ResolveIntervention genv rt gs (pid, status) w)
    \<and> (hs_Status (fst (handleResolveIntervention henv rt hs pid r w)) = 200
        \<longleftrightarrow> \<not> isl (fst (ResolveIntervention genv rt gs (pid, status) w)))"
proof -
  have e: "he_parse henv = ge_parse genv" "he_now henv = ge_now genv" "sv_intervs hs = gs_interventions gs"
    using assms(1) by (simp_all add: same_service_def)
  show ?thesis
    by (simp add: handleResolveIntervention_def ResolveIntervention_def e assms(2) httpError_def json_error_def
        respond_def split: option.split sum.split prod.split)
qed

text \<open>
  (C24) Both transports resolve an intervention alike, and as the lifecycle prescribes. On the
  same well-formed memory store, a request for an intervention that is stored and whose
  status may become the requested one succeeds over HTTP (200) and over gRPC, and replaces
  that row by the one with the new status and the stamp of the clock, nothing else;
  every other request fails over both and changes nothing. The store stays well formed.
\<close>

theorem resolve_endpoints:
  assumes "same_service str ro henv hs genv gs" and "state_wf str (w_store w)"
    and "decode_resolve (body_bytes r) = Some status"
  shows "(hs_Status (fst (handleResolveIntervention henv rt hs pid r w)) = 200
      \<longleftrightarrow> resolvable str genv (w_store w) pid status \<noteq> None)
    \<and> (isl (fst (ResolveIntervention genv rt gs (pid, status) w))
      \<longleftrightarrow> resolvable str genv (w_store w) pid status = None)
    \<and> snd (handleResolveIntervention henv rt hs pid r w) = snd (ResolveIntervention genv rt gs (pid, status) w)
    \<and> snd (ResolveIntervention genv rt gs (pid, status) w) =
      (case resolvable str genv (w_store w) pid status of None \<Rightarrow> w
       | Some iv \<Rightarrow> w\<lparr>w_store := store_resolved str (ge_now genv) status iv (w_store w)\<rparr>)
    \<and> state_wf str (w_store (snd (ResolveIntervention genv rt gs (pid, status) w)))"
proof (cases "resolvable str genv (w_store w) pid status")
  case None
  then show ?thesis
    using grpc_resolve [OF assms(1,2), where pid = pid and status = status and rt = rt] http_resolve_like_grpc [OF assms(1,3), where pid = pid and rt = rt and w = w] assms(2)
    by simp
next
  case (Some iv)
  then obtain i where "map_of (st_interventions (w_store w)) (str i) = Some iv" "InterventionStatus_Valid status"
    by (auto simp: resolvable_def split: option.splits if_splits)
  from store_resolved_wf [OF assms(2) this] Some show ?thesis
    using grpc_resolve [OF assms(1,2), where pid = pid and status = status and rt = rt] http_resolve_like_grpc [OF assms(1,3), where pid = pid and rt = rt and w = w]
    by simp
qed


definition sample_intervention :: Intervention where
  "sample_intervention = \<lparr>iv_ID = 5, iv_CommitmentID = Some 7, iv_TaskID = None, iv_Type = InterventionNudge,
     iv_Message = ''hello'', iv_SuggestedAction = None, iv_Status = InterventionPending, iv_TriggeredAt = 0,
     iv_ResolvedAt = None\<rparr>"

definition sample_grpc_env :: grpc_env where
  "sample_grpc_env = \<lparr>ge_text = (\<lambda>_. []), ge_fmt_v = (\<lambda>_. []),
     ge_parse = (\<lambda>s. if s = ''five'' then Some 5 else None), ge_now = 9\<rparr>"

definition sample_http_env :: http_env where
  "sample_http_env = \<lparr>he_text = (\<lambda>_. []), he_vtext = (\<lambda>_. []), he_parse = ge_parse sample_grpc_env,
     he_now = 9, he_redirect = 307\<rparr>"

abbreviation sample_conn :: "state Conn" where
  "sample_conn \<equiv> fst (memory_New canonical_text sample_orders)"

definition sample_server :: "state Server" where
  "sample_server = http_NewServer sample_extractor sample_evaluator (conn_Commitments sample_conn)
     (conn_Decisions sample_conn) (conn_Interventions sample_conn) None None"

definition sample_grpc_server :: "state grpc_Server" where
  "sample_grpc_server = grpc_NewServer sample_extractor sample_evaluator (conn_Commitments sample_conn)
     (conn_Decisions sample_conn) (conn_Interventions sample_conn)"

definition sample_resolve_world :: "state world" where
  "sample_resolve_world = sample_world\<lparr>w_store :=
     memory_empty\<lparr>st_interventions := [(canonical_text 5, sample_intervention)]\<rparr>\<rparr>"

definition sample_resolve_request :: http_Request where
  "sample_resolve_request = \<lparr>hr_Method = ''POST'', hr_EscapedPath = ''/v1/interventions/five/resolve'', hr_Query = [],
     hr_Header = [], hr_RemoteAddr = ''10.0.0.1:99'',
     hr_Body = Some ([CHR ''{'', CHR 0x22] @ ''status'' @ [CHR 0x22, CHR '':'', CHR 0x22] @ ''accepted'' @ [CHR 0x22, CHR ''}''], None)\<rparr>"

lemma sample_decode: "decode_resolve (body_bytes sample_resolve_request) = Some InterventionAccepted"
proof -
  have "json_Decode (body_bytes sample_resolve_request) = Some (JObject [(''status'', JString ''accepted'')])"
    by (simp add: json_Decode_def parse_eval body_bytes_def sample_resolve_request_def numeral_eq_Suc)
  then show ?thesis
    by (simp add: decode_resolve_def string_field_def field_values_def starts_with_def status_defs)
qed

theorem resolve_endpoints_witness:
  "hs_Status (fst (handleResolveIntervention sample_http_env sample_runtime sample_server ''five'' sample_resolve_request
      sample_resolve_world)) = 200
   \<and> snd (ResolveIntervention sample_grpc_env sample_runtime sample_grpc_server (''five'', InterventionAccepted) sample_resolve_world)
     = sample_resolve_world\<lparr>w_store := store_resolved canonical_text 9 InterventionAccepted sample_intervention
          (w_store sample_resolve_world)\<rparr>"
proof -
  have s: "same_service canonical_text sample_orders sample_http_env sample_server sample_grpc_env sample_grpc_server"
    by (simp add: same_service_def sample_server_def sample_grpc_server_def http_NewServer_def grpc_NewServer_def
        sample_http_env_def sample_grpc_env_def)
  have w: "state_wf canonical_text (w_store sample_resolve_world)"
    by (simp add: state_wf_def table_wf_def sample_resolve_world_def memory_empty_def sample_intervention_def
        Intervention_Validate_None uuid_Nil_def InterventionType_Valid_def)
  have "resolvable canonical_text sample_grpc_env (w_store sample_resolve_world) ''five'' InterventionAccepted
      = Some sample_intervention"
    by (simp add: resolvable_def sample_grpc_env_def sample_resolve_world_def sample_intervention_def
        InterventionStatus_Valid_def InterventionStatus_CanTransitionTo_def status_defs)
  then show ?thesis
    using resolve_endpoints [OF s w sample_decode, where pid = "''five''" and rt = sample_runtime]
    by (simp add: sample_grpc_env_def)
qed


end
