(* ===== verification/Coordination.thy ===== *)
theory Coordination
  imports Ports
begin

text \<open>
  \<^verbatim>\<open>internal/coordination\<close>: the kernels that hand an accepted intervention to Praxis. The
  calls to Praxis are entries of the outbound log. The axi-go kernel is not part of the
  sources: it is the argument \<open>axi\<close>, a pair of functions that get the executor
  the code registers, and whose state \<open>'k\<close> is theirs. The predicate \<open>axi_laws\<close> says what the code relies on: an
  action declared to write externally pauses for approval without running, and approving
  it runs the executor once on the input that was given.
\<close>

section \<open>The port\<close>

record EvidenceRecord =
  ev_Kind :: string
  ev_Source :: string
  ev_Value :: "anymap option"

record Outcome =
  oc_InterventionID :: InterventionID
  oc_ActionRequest :: ActionRequest
  oc_Success :: bool
  oc_Output :: "anymap option"
  oc_ErrorMessage :: string
  oc_Evidence :: "EvidenceRecord list"

definition ErrNoSuggestedAction :: error where
  "ErrNoSuggestedAction = ErrPlain ''coordination: intervention has no suggested action''"

definition requirePraxis :: "PraxisClient option \<Rightarrow> error option" where
  "requirePraxis p = (case p of None \<Rightarrow> Some (ErrPlain ''coordination: praxis client required'') | Some _ \<Rightarrow> None)"

definition zero_ActionRequest :: ActionRequest where
  "zero_ActionRequest = \<lparr>ar_ID = uuid_Nil, ar_Capability = [], ar_Payload = None, ar_Constraints = [],
     ar_IdempotencyKey = []\<rparr>"

definition empty_outcome :: "InterventionID \<Rightarrow> Outcome" where
  "empty_outcome i = \<lparr>oc_InterventionID = i, oc_ActionRequest = zero_ActionRequest, oc_Success = False, oc_Output = None,
     oc_ErrorMessage = [], oc_Evidence = []\<rparr>"

text \<open>The request both kernels make of the suggested action.\<close>

definition with_key :: "(uuid \<Rightarrow> string) \<Rightarrow> Intervention \<Rightarrow> ActionRequest \<Rightarrow> ActionRequest" where
  "with_key str iv req =
     (if ar_IdempotencyKey req = [] then req\<lparr>ar_IdempotencyKey := str (iv_ID iv)\<rparr> else req)"

definition error_outcome :: "(error \<Rightarrow> string) \<Rightarrow> string \<Rightarrow> Intervention \<Rightarrow> ActionRequest \<Rightarrow> error \<Rightarrow> Outcome" where
  "error_outcome text source iv req err = (empty_outcome (iv_ID iv))\<lparr>oc_ActionRequest := req,
     oc_ErrorMessage := text err,
     oc_Evidence := [\<lparr>ev_Kind = ''nous.action.error'', ev_Source = source,
        ev_Value = Some [(''capability'', VString (ar_Capability req)), (''error'', VString (text err))]\<rparr>]\<rparr>"


section \<open>The direct kernel\<close>

record DirectKernel =
  dk_praxis :: PraxisClient

definition NewDirectKernel :: "PraxisClient option \<Rightarrow> error + DirectKernel" where
  "NewDirectKernel praxis = (case requirePraxis praxis of
       Some err \<Rightarrow> Inl err | None \<Rightarrow> Inr \<lparr>dk_praxis = the praxis\<rparr>)"

definition DirectKernel_Execute ::
  "(uuid \<Rightarrow> string) \<Rightarrow> (error \<Rightarrow> string) \<Rightarrow> DirectKernel \<Rightarrow> Intervention \<Rightarrow> out_log \<Rightarrow>
   (Outcome \<times> error option) \<times> out_log" where
  "DirectKernel_Execute str text k iv lg = (case iv_SuggestedAction iv of
       None \<Rightarrow> ((empty_outcome (iv_ID iv), Some ErrNoSuggestedAction), lg)
     | Some req \<Rightarrow>
        (let req = with_key str iv req; lg' = lg @ [OutExecute req] in
         case Execute (dk_praxis k) lg req of
           Inl err \<Rightarrow> ((error_outcome text ''nous.coordination.direct'' iv req err,
                        Some (ErrWrap ''coordination: praxis execute'' err)), lg')
         | Inr res \<Rightarrow>
            ((\<lparr>oc_InterventionID = iv_ID iv, oc_ActionRequest = req, oc_Success = er_Success res,
               oc_Output = er_Output res, oc_ErrorMessage = er_Error res,
               oc_Evidence = [\<lparr>ev_Kind = ''nous.action.executed'', ev_Source = ''nous.coordination.direct'',
                  ev_Value = Some [(''capability'', VString (er_Capability res)),
                    (''idempotency_key'', VString (er_IdempotencyKey res)),
                    (''success'', VBool (er_Success res)), (''executed_at'', VTime (er_ExecutedAt res))]\<rparr>]\<rparr>,
              None), lg')))"


section \<open>The axi kernel\<close>

record axi_Evidence =
  ax_Kind :: string
  ax_Source :: string
  ax_Value :: anyval

record axi_Result =
  ax_SessionID :: string
  ax_RequiresApproval :: bool
  ax_Failure :: "(string \<times> string) option"
  ax_Data :: "anyval option"
  ax_Evidence :: "axi_Evidence list"

text \<open>What an executor returns: evidence, and an error or the data and a summary.\<close>

type_synonym axi_executor = "anyval \<Rightarrow> out_log \<Rightarrow> (axi_Evidence list \<times> (error + anyval \<times> string)) \<times> out_log"

record 'k axi_kernel =
  axi_Execute :: "axi_executor \<Rightarrow> string \<Rightarrow> anyval \<Rightarrow> 'k \<Rightarrow> out_log \<Rightarrow> (error + axi_Result option) \<times> 'k \<times> out_log"
  axi_Approve :: "axi_executor \<Rightarrow> string \<Rightarrow> string \<times> string \<Rightarrow> 'k \<Rightarrow> out_log \<Rightarrow> (error + axi_Result option) \<times> 'k \<times> out_log"

text \<open>A nil map behaves as a nil interface in every assertion below.\<close>

definition any_of_map :: "anymap option \<Rightarrow> anyval" where
  "any_of_map m = (case m of None \<Rightarrow> VNil | Some x \<Rightarrow> VMap x)"

definition any_of_constraint :: "ActionConstraint \<Rightarrow> anyval" where
  "any_of_constraint c = VStruct [(''key'', VString (ac_Key c)), (''value'', VString (ac_Value c))]"

definition as_string :: "anyval option \<Rightarrow> string" where
  "as_string v = (case v of Some (VString s) \<Rightarrow> s | _ \<Rightarrow> [])"

definition as_map :: "anyval option \<Rightarrow> anymap option" where
  "as_map v = (case v of Some (VMap m) \<Rightarrow> Some m | _ \<Rightarrow> None)"

fun read_constraints :: "anyval list \<Rightarrow> ActionConstraint list" where
  "read_constraints [] = []"
| "read_constraints (c # cs) = (case c of
       VMap cm \<Rightarrow>
         (let k = as_string (map_of cm ''key''); v = as_string (map_of cm ''value'') in
          if k \<noteq> [] then \<lparr>ac_Key = k, ac_Value = v\<rparr> # read_constraints cs else read_constraints cs)
     | _ \<Rightarrow> read_constraints cs)"

text \<open>
  The type assertion \<^verbatim>\<open>.([]any)\<close> holds for a slice of \<^verbatim>\<open>any\<close> only. The text of
  \<^verbatim>\<open>%T\<close> is the argument \<open>fmt_T\<close>.
\<close>

definition executor_request :: "anymap \<Rightarrow> ActionRequest" where
  "executor_request i =
     \<lparr>ar_ID = uuid_Nil, ar_Capability = as_string (map_of i ''capability''),
      ar_Payload = as_map (map_of i ''payload''),
      ar_Constraints = (case map_of i ''constraints'' of Some (VList raw) \<Rightarrow> read_constraints raw | _ \<Rightarrow> []),
      ar_IdempotencyKey = as_string (map_of i ''idempotency_key'')\<rparr>"

definition executor_Execute :: "(anyval \<Rightarrow> string) \<Rightarrow> PraxisClient \<Rightarrow> axi_executor" where
  "executor_Execute fmt_T praxis input lg = (case input of
       VMap i \<Rightarrow>
        (let req = executor_request i; lg' = lg @ [OutExecute req] in
         case Execute praxis lg req of
           Inl err \<Rightarrow> (([], Inl err), lg')
         | Inr res \<Rightarrow>
            (let evidence = [\<lparr>ax_Kind = ''praxis.execution'', ax_Source = ''nous.coordination'',
                   ax_Value = VMap [(''capability'', VString (er_Capability res)), (''success'', VBool (er_Success res)),
                     (''idempotency_key'', VString (er_IdempotencyKey res)), (''executed_at'', VTime (er_ExecutedAt res))]\<rparr>]
             in if \<not> er_Success res then ((evidence, Inl (ErrPlain (''praxis: '' @ er_Error res))), lg')
                else ((evidence, Inr (any_of_map (er_Output res), ''praxis ran '' @ er_Capability res)), lg')))
     | _ \<Rightarrow> (([], Inl (ErrPlain (''axi executor: unexpected input shape '' @ fmt_T input))), lg))"

definition evidenceFrom :: "axi_Evidence list \<Rightarrow> EvidenceRecord list" where
  "evidenceFrom records = map (\<lambda>r. \<lparr>ev_Kind = ax_Kind r, ev_Source = ax_Source r, ev_Value = as_map (Some (ax_Value r))\<rparr>) records"

text \<open>
  The input map of an invocation; the constraints go in as the slice of structs they are.
\<close>

definition axi_payload :: "(uuid \<Rightarrow> string) \<Rightarrow> Intervention \<Rightarrow> ActionRequest \<Rightarrow> anyval" where
  "axi_payload str iv req = VMap [(''intervention_id'', VString (str (iv_ID iv))),
     (''capability'', VString (ar_Capability req)), (''payload'', any_of_map (ar_Payload req)),
     (''idempotency_key'', VString (ar_IdempotencyKey req)),
     (''constraints'', VSlice ''ActionConstraint'' (map any_of_constraint (ar_Constraints req)))]"

definition axi_decision :: "(uuid \<Rightarrow> string) \<Rightarrow> Intervention \<Rightarrow> ActionRequest \<Rightarrow> string \<times> string" where
  "axi_decision str iv req =
     (''nous.coordination'', ''intervention '' @ str (iv_ID iv) @ '' accepted; capability='' @ ar_Capability req)"

text \<open>
  The outcome of the run that ended. \<open>json_map\<close> is the round trip through JSON for data that is
  neither a map nor nil.
\<close>

definition axi_finish ::
  "(anyval \<Rightarrow> anymap option) \<Rightarrow> Intervention \<Rightarrow> ActionRequest \<Rightarrow> axi_Result \<Rightarrow> Outcome" where
  "axi_finish json_map iv req res = (case ax_Failure res of
       Some (code, msg) \<Rightarrow> (empty_outcome (iv_ID iv))\<lparr>oc_ActionRequest := req,
          oc_ErrorMessage := code @ '': '' @ msg, oc_Evidence := evidenceFrom (ax_Evidence res)\<rparr>
     | None \<Rightarrow> (empty_outcome (iv_ID iv))\<lparr>oc_ActionRequest := req, oc_Success := True,
          oc_Evidence := evidenceFrom (ax_Evidence res),
          oc_Output := (case ax_Data res of None \<Rightarrow> None
             | Some (VMap m) \<Rightarrow> Some m | Some VNil \<Rightarrow> None | Some v \<Rightarrow> json_map v)\<rparr>)"

text \<open>
  \<open>None\<close> is the nil pointer the code dereferences when the kernel returns neither a result nor
  an error.
\<close>

definition AxiKernel_Execute ::
  "(uuid \<Rightarrow> string) \<Rightarrow> (error \<Rightarrow> string) \<Rightarrow> (anyval \<Rightarrow> string) \<Rightarrow> (anyval \<Rightarrow> anymap option) \<Rightarrow>
   'k axi_kernel \<Rightarrow> PraxisClient \<Rightarrow> Intervention \<Rightarrow> 'k \<Rightarrow> out_log \<Rightarrow> (Outcome \<times> error option) option \<times> 'k \<times> out_log" where
  "AxiKernel_Execute str text fmt_T json_map axi praxis iv ks lg = (case iv_SuggestedAction iv of
       None \<Rightarrow> (Some (empty_outcome (iv_ID iv), Some ErrNoSuggestedAction), ks, lg)
     | Some req \<Rightarrow>
        (let req = with_key str iv req; ex = executor_Execute fmt_T praxis in
         case axi_Execute axi ex ''nous-execute-intervention'' (axi_payload str iv req) ks lg of
           (Inl err, ks, lg) \<Rightarrow> (Some (error_outcome text ''nous.coordination'' iv req err,
                Some (ErrWrap ''coordination: axi execute'' err)), ks, lg)
         | (Inr None, ks, lg) \<Rightarrow> (None, ks, lg)
         | (Inr (Some res), ks, lg) \<Rightarrow>
            (if \<not> ax_RequiresApproval res then (Some (axi_finish json_map iv req res, None), ks, lg)
             else
              (case axi_Approve axi ex (ax_SessionID res) (axi_decision str iv req) ks lg of
                 (Inl err, ks, lg) \<Rightarrow> (Some (error_outcome text ''nous.coordination'' iv req err,
                      Some (ErrWrap ''coordination: axi approve'' err)), ks, lg)
               | (Inr None, ks, lg) \<Rightarrow> (None, ks, lg)
               | (Inr (Some res), ks, lg) \<Rightarrow> (Some (axi_finish json_map iv req res, None), ks, lg)))))"


section \<open>What the kernels send\<close>

lemma with_key_simps [simp]:
  "ar_Capability (with_key str iv req) = ar_Capability req"
  "ar_Payload (with_key str iv req) = ar_Payload req"
  "ar_Constraints (with_key str iv req) = ar_Constraints req"
  "ar_ID (with_key str iv req) = ar_ID req"
  by (simp_all add: with_key_def)

lemma with_key_keyed: "str (iv_ID iv) \<noteq> [] \<Longrightarrow> ar_IdempotencyKey (with_key str iv req) \<noteq> []"
  by (simp add: with_key_def)

lemma DirectKernel_Execute_log:
  "iv_SuggestedAction iv = Some req \<Longrightarrow>
   snd (DirectKernel_Execute str text k iv lg) = lg @ [OutExecute (with_key str iv req)]"
  by (simp add: DirectKernel_Execute_def Let_def split: sum.split)

text \<open>What the kernel is asked to do again, for instance after a failure.\<close>

primrec direct_repeat ::
  "(uuid \<Rightarrow> string) \<Rightarrow> (error \<Rightarrow> string) \<Rightarrow> DirectKernel \<Rightarrow> Intervention \<Rightarrow> nat \<Rightarrow> out_log \<Rightarrow> out_log" where
  "direct_repeat str text k iv 0 lg = lg"
| "direct_repeat str text k iv (Suc n) lg = direct_repeat str text k iv n (snd (DirectKernel_Execute str text k iv lg))"

text \<open>
  The documented behaviour of axi-go the kernel relies on, for an action whose effect level
  is write-external. \<open>pend\<close> reads the sessions that wait for approval. \<^verbatim>\<open>Execute\<close> either
  fails or pauses in a session that keeps the input, and calls nothing; \<^verbatim>\<open>Approve\<close> of such a
  session either fails before the executor runs (a budget is used up) or runs it once on
  the input that was kept, and reports what it returned.
\<close>

definition axi_reports :: "axi_Evidence list \<times> (error + anyval \<times> string) \<Rightarrow> axi_Result \<Rightarrow> bool" where
  "axi_reports out res \<longleftrightarrow> ax_Evidence res = fst out \<and>
     (case snd out of Inl _ \<Rightarrow> ax_Failure res \<noteq> None
      | Inr (v, _) \<Rightarrow> ax_Failure res = None \<and> ax_Data res = Some v)"

definition axi_laws :: "('k \<Rightarrow> string \<Rightarrow> anyval option) \<Rightarrow> 'k axi_kernel \<Rightarrow> bool" where
  "axi_laws pend axi \<longleftrightarrow>
     (\<forall>ex act inp ks lg. case axi_Execute axi ex act inp ks lg of
        (r, ks', lg') \<Rightarrow> lg' = lg \<and> (case r of Inl _ \<Rightarrow> True | Inr None \<Rightarrow> False
          | Inr (Some res) \<Rightarrow> ax_RequiresApproval res \<and> pend ks' (ax_SessionID res) = Some inp)) \<and>
     (\<forall>ex sid dec inp ks lg. pend ks sid = Some inp \<longrightarrow>
        (case axi_Approve axi ex sid dec ks lg of
           (Inl _, ks', lg') \<Rightarrow> lg' = lg
         | (Inr None, ks', lg') \<Rightarrow> False
         | (Inr (Some res), ks', lg') \<Rightarrow> lg' = snd (ex inp lg) \<and> axi_reports (fst (ex inp lg)) res))"

lemma axi_laws_execute:
  assumes "axi_laws pend axi" "axi_Execute axi ex act inp ks lg = (r, ks', lg')"
  shows "lg' = lg" and "case r of Inl _ \<Rightarrow> True | Inr None \<Rightarrow> False
          | Inr (Some res) \<Rightarrow> ax_RequiresApproval res \<and> pend ks' (ax_SessionID res) = Some inp"
proof -
  have "case axi_Execute axi ex act inp ks lg of
        (r, ks', lg') \<Rightarrow> lg' = lg \<and> (case r of Inl _ \<Rightarrow> True | Inr None \<Rightarrow> False
          | Inr (Some res) \<Rightarrow> ax_RequiresApproval res \<and> pend ks' (ax_SessionID res) = Some inp)"
    by (rule conjunct1 [OF assms(1) [unfolded axi_laws_def], THEN spec, THEN spec, THEN spec, THEN spec, THEN spec])
  then show "lg' = lg" and "case r of Inl _ \<Rightarrow> True | Inr None \<Rightarrow> False
          | Inr (Some res) \<Rightarrow> ax_RequiresApproval res \<and> pend ks' (ax_SessionID res) = Some inp"
    by (simp_all add: assms(2))
qed

lemma axi_laws_approve:
  assumes "axi_laws pend axi" "pend ks sid = Some inp"
    and run: "axi_Approve axi ex sid dec ks lg = (r, ks', lg')"
  obtains e where "r = Inl e" "lg' = lg"
    | res where "r = Inr (Some res)" "lg' = snd (ex inp lg)" "axi_reports (fst (ex inp lg)) res"
proof -
  have "pend ks sid = Some inp \<longrightarrow> (case axi_Approve axi ex sid dec ks lg of
           (Inl _, ks', lg') \<Rightarrow> lg' = lg
         | (Inr None, ks', lg') \<Rightarrow> False
         | (Inr (Some res), ks', lg') \<Rightarrow> lg' = snd (ex inp lg) \<and> axi_reports (fst (ex inp lg)) res)"
    by (rule conjunct2 [OF assms(1) [unfolded axi_laws_def], THEN spec, THEN spec, THEN spec, THEN spec, THEN spec, THEN spec])
  then have "case (r, ks', lg') of (Inl _, ks', lg') \<Rightarrow> lg' = lg | (Inr None, ks', lg') \<Rightarrow> False
         | (Inr (Some res), ks', lg') \<Rightarrow> lg' = snd (ex inp lg) \<and> axi_reports (fst (ex inp lg)) res"
    by (simp add: assms(2) run)
  then show thesis
    by (cases r) (auto split: option.splits intro: that)
qed

lemma executor_request_payload:
  "axi_payload str iv req = VMap i \<Longrightarrow>
   executor_request i = \<lparr>ar_ID = uuid_Nil, ar_Capability = ar_Capability req, ar_Payload = ar_Payload req,
     ar_Constraints = [], ar_IdempotencyKey = ar_IdempotencyKey req\<rparr>"
  by (auto simp: axi_payload_def executor_request_def as_string_def as_map_def any_of_map_def split: option.split)

lemma executor_payload_log:
  "snd (executor_Execute fmt_T praxis (axi_payload str iv req) lg) =
     lg @ [OutExecute (req\<lparr>ar_ID := uuid_Nil, ar_Constraints := []\<rparr>)]"
proof -
  obtain i where i: "axi_payload str iv req = VMap i" by (simp add: axi_payload_def)
  have "executor_request i = req\<lparr>ar_ID := uuid_Nil, ar_Constraints := []\<rparr>"
    using executor_request_payload [OF i] by simp
  then show ?thesis
    by (simp add: i executor_Execute_def Let_def split: sum.split)
qed

lemma direct_repeat_log:
  "iv_SuggestedAction iv = Some req \<Longrightarrow>
   direct_repeat str text k iv n lg = lg @ replicate n (OutExecute (with_key str iv req))"
  by (induction n arbitrary: lg) (simp_all add: DirectKernel_Execute_log)

text \<open>What Praxis made of the request, as the two kernels report it.\<close>

definition praxis_ran :: "PraxisClient \<Rightarrow> out_log \<Rightarrow> ActionRequest \<Rightarrow> Outcome \<Rightarrow> bool" where
  "praxis_ran praxis lg req out = (case Execute praxis lg req of
       Inl _ \<Rightarrow> \<not> oc_Success out
     | Inr res \<Rightarrow> oc_Success out = er_Success res \<and> (er_Success res \<longrightarrow> oc_Output out = er_Output res))"

lemma axi_finish_ran:
  assumes payload: "p = axi_payload str iv req"
    and reports: "axi_reports (fst (executor_Execute fmt_T praxis p lg)) res"
  shows "praxis_ran praxis lg (req\<lparr>ar_ID := uuid_Nil, ar_Constraints := []\<rparr>) (axi_finish json_map iv req res)"
proof -
  obtain i where i: "p = VMap i" by (simp add: payload axi_payload_def)
  have req: "executor_request i = req\<lparr>ar_ID := uuid_Nil, ar_Constraints := []\<rparr>"
    using executor_request_payload [of str iv req i] i payload by simp
  show ?thesis
    using reports unfolding i executor_Execute_def axi_finish_def praxis_ran_def axi_reports_def
    by (auto simp: req Let_def empty_outcome_def any_of_map_def split: sum.splits if_splits option.splits)
qed

text \<open>
  (C10) The axi kernel, given that axi-go pauses a write-external action without running it and
  runs it once on the input it kept when it is approved: for an intervention with a
  suggested action it always returns an outcome, and either an error with nothing sent to
  Praxis, or no error with exactly one \<^verbatim>\<open>Execute\<close> sent, whose success and output are
  those Praxis answered. What it sends is not the suggested action but a copy that keeps
  the capability, the payload and the idempotency key (the intervention's identifier when
  it was empty) and loses the request identifier and every constraint.
\<close>

theorem axi_kernel_sends_once:
  assumes laws: "axi_laws pend axi" and action: "iv_SuggestedAction iv = Some req"
  shows "\<exists>out err ks' lg'. AxiKernel_Execute str text fmt_T json_map axi praxis iv ks lg = (Some (out, err), ks', lg') \<and>
     (let sent = (with_key str iv req)\<lparr>ar_ID := uuid_Nil, ar_Constraints := []\<rparr> in
        (err \<noteq> None \<and> lg' = lg \<and> \<not> oc_Success out) \<or>
        (err = None \<and> lg' = lg @ [OutExecute sent] \<and> praxis_ran praxis lg sent out))"
proof -
  let ?req = "with_key str iv req" and ?ex = "executor_Execute fmt_T praxis"
  let ?p = "axi_payload str iv ?req"
  let ?why = "axi_decision str iv ?req"
  obtain r ks1 lg1 where run: "axi_Execute axi ?ex ''nous-execute-intervention'' ?p ks lg = (r, ks1, lg1)"
    by (metis prod_cases3)
  have lg1: "lg1 = lg" and ok: "case r of Inl _ \<Rightarrow> True | Inr None \<Rightarrow> False
      | Inr (Some res) \<Rightarrow> ax_RequiresApproval res \<and> pend ks1 (ax_SessionID res) = Some ?p"
    using axi_laws_execute [OF laws run] by simp_all
  show ?thesis
  proof (cases r)
    case (Inl e)
    then show ?thesis
      by (simp add: AxiKernel_Execute_def action Let_def run lg1 error_outcome_def empty_outcome_def)
  next
    case (Inr ro)
    with ok obtain res where ro: "ro = Some res" and res: "ax_RequiresApproval res" "pend ks1 (ax_SessionID res) = Some ?p"
      by (cases ro) auto
    obtain r2 ks2 lg2 where app: "axi_Approve axi ?ex (ax_SessionID res) ?why ks1 lg = (r2, ks2, lg2)"
      by (metis prod_cases3)
    from laws res(2) app show ?thesis
    proof (cases rule: axi_laws_approve)
      case 1
      then show ?thesis
        by (simp add: AxiKernel_Execute_def action Let_def run lg1 Inr ro res app error_outcome_def empty_outcome_def)
    next
      case 2
      then show ?thesis
        using axi_finish_ran [OF refl 2(3)]
        by (simp add: AxiKernel_Execute_def action Let_def run lg1 Inr ro res app executor_payload_log)
    qed
  qed
qed

text \<open>An axi kernel with one slot for a session, and clients and interventions to run on it.\<close>

definition one_session_axi :: "anyval option axi_kernel" where
  "one_session_axi =
     \<lparr>axi_Execute = (\<lambda>ex act inp ks lg. (Inr (Some \<lparr>ax_SessionID = ''s'', ax_RequiresApproval = True,
          ax_Failure = None, ax_Data = None, ax_Evidence = []\<rparr>), Some inp, lg)),
      axi_Approve = (\<lambda>ex sid dec ks lg. case ks of None \<Rightarrow> (Inl (ErrPlain ''no session''), None, lg)
        | Some inp \<Rightarrow> (case ex inp lg of ((ev, out), lg') \<Rightarrow> (Inr (Some \<lparr>ax_SessionID = sid, ax_RequiresApproval = False,
            ax_Failure = (case out of Inl _ \<Rightarrow> Some (''EXECUTION_FAILED'', ''executor'') | Inr _ \<Rightarrow> None),
            ax_Data = (case out of Inl _ \<Rightarrow> None | Inr (v, _) \<Rightarrow> Some v), ax_Evidence = ev\<rparr>), None, lg')))\<rparr>"

lemma one_session_laws: "axi_laws (\<lambda>ks sid. if sid = ''s'' then ks else None) one_session_axi"
  by (auto simp: axi_laws_def one_session_axi_def axi_reports_def split: prod.splits sum.splits option.splits if_splits)

definition sample_praxis :: PraxisClient where
  "sample_praxis = \<lparr>ListCapabilities = (\<lambda>lg. Inr []), DryRun = (\<lambda>lg r. Inl ErrClientNotConfigured),
     Execute = (\<lambda>lg r. Inr \<lparr>er_Capability = ar_Capability r, er_Success = True, er_Output = None, er_Error = [],
        er_IdempotencyKey = ar_IdempotencyKey r, er_ExecutedAt = 0\<rparr>)\<rparr>"

definition sample_action :: ActionRequest where
  "sample_action = \<lparr>ar_ID = 5, ar_Capability = ''pay'', ar_Payload = None,
     ar_Constraints = [\<lparr>ac_Key = ''max_amount'', ac_Value = ''10''\<rparr>], ar_IdempotencyKey = []\<rparr>"

definition sample_accepted :: Intervention where
  "sample_accepted = \<lparr>iv_ID = 7, iv_CommitmentID = Some 3, iv_TaskID = None, iv_Type = ''automation'',
     iv_Message = ''m'', iv_SuggestedAction = Some sample_action, iv_Status = InterventionAccepted,
     iv_TriggeredAt = 0, iv_ResolvedAt = None\<rparr>"

theorem axi_kernel_sends_once_witness:
  "\<exists>out err ks' lg'. AxiKernel_Execute (\<lambda>u. ''id'') (\<lambda>e. []) (\<lambda>v. []) (\<lambda>v. None) one_session_axi sample_praxis
       sample_accepted None [] = (Some (out, err), ks', lg') \<and>
     (let sent = (with_key (\<lambda>u. ''id'') sample_accepted sample_action)\<lparr>ar_ID := uuid_Nil, ar_Constraints := []\<rparr> in
        (err \<noteq> None \<and> lg' = [] \<and> \<not> oc_Success out) \<or>
        (err = None \<and> lg' = [] @ [OutExecute sent] \<and> praxis_ran sample_praxis [] sent out))"
  by (rule axi_kernel_sends_once [OF one_session_laws]) (simp add: sample_accepted_def)

text \<open>
  The constraints are lost for certain: an accepted payment with a maximal amount reaches
  Praxis without it.
\<close>

lemma axi_kernel_drops_constraints:
  "snd (snd (AxiKernel_Execute (\<lambda>u. ''id'') (\<lambda>e. []) (\<lambda>v. []) (\<lambda>v. None) one_session_axi sample_praxis
       sample_accepted None [])) =
     [OutExecute \<lparr>ar_ID = uuid_Nil, ar_Capability = ''pay'', ar_Payload = None, ar_Constraints = [],
        ar_IdempotencyKey = ''id''\<rparr>]"
  by (simp add: AxiKernel_Execute_def sample_accepted_def sample_action_def one_session_axi_def with_key_def
      executor_payload_log sample_praxis_def Let_def split: prod.split)
     (simp add: executor_Execute_def executor_request_def axi_payload_def as_string_def as_map_def any_of_map_def Let_def)

text \<open>
  The direct kernel asked for one intervention any number of times, whatever Praxis answers,
  sends that many identical \<^verbatim>\<open>Execute\<close> requests: the suggested action itself, under an
  idempotency key that is never empty, so that Praxis can tell the repetitions apart from
  new work. For an intervention without an action nothing is sent.
\<close>

lemma direct_kernel_repeats_one_request:
  assumes "str (iv_ID iv) \<noteq> []"
  shows "case iv_SuggestedAction iv of
       None \<Rightarrow> direct_repeat str text k iv n lg = lg
     | Some req \<Rightarrow> \<exists>key. key \<noteq> [] \<and> (ar_IdempotencyKey req \<noteq> [] \<longrightarrow> key = ar_IdempotencyKey req) \<and>
         direct_repeat str text k iv n lg = lg @ replicate n (OutExecute (req\<lparr>ar_IdempotencyKey := key\<rparr>))"
proof (cases "iv_SuggestedAction iv")
  case None
  have "direct_repeat str text k iv n lg = lg"
    by (induction n arbitrary: lg) (simp_all add: DirectKernel_Execute_def None)
  with None show ?thesis by simp
next
  case (Some req)
  have "with_key str iv req = req\<lparr>ar_IdempotencyKey := ar_IdempotencyKey (with_key str iv req)\<rparr>"
    by (simp add: with_key_def)
  moreover have "ar_IdempotencyKey req \<noteq> [] \<longrightarrow> ar_IdempotencyKey (with_key str iv req) = ar_IdempotencyKey req"
    by (simp add: with_key_def)
  ultimately show ?thesis
    using direct_repeat_log [OF Some] with_key_keyed [of str iv req] assms by (auto simp: Some)
qed

end
