(* ===== verification/Go_Strconv.thy ===== *)
theory Go_Strconv
  imports Go_Time_Parse
begin

text \<open>
  The conversions of text the configuration uses: \<^verbatim>\<open>time.ParseDuration\<close>,
  \<^verbatim>\<open>strconv.ParseFloat\<close> and \<^verbatim>\<open>hex.DecodeString\<close>. An error is None, except for the
  two errors of the hexadecimal decoder. The decimal and the binary exponent of a number may be as
  large as the library lets them become; the value is exact before it is rounded once.
\<close>

section \<open>Durations\<close>

fun leadingInt :: "int \<Rightarrow> string \<Rightarrow> (int \<times> string) option" where
  "leadingInt x [] = Some (x, [])"
| "leadingInt x (c # s) =
    (if \<not> is_digit c then Some (x, c # s)
     else if 2 ^ 63 div 10 < x then None
     else if 2 ^ 63 < x * 10 + digit_val c then None
     else leadingInt (x * 10 + digit_val c) s)"

text \<open>Digits that would overflow are skipped without changing the value or the scale.\<close>

fun leadingFraction :: "bool \<Rightarrow> int \<Rightarrow> float64 \<Rightarrow> string \<Rightarrow> int \<times> float64 \<times> string" where
  "leadingFraction overflow x scale [] = (x, scale, [])"
| "leadingFraction overflow x scale (c # s) =
    (if \<not> is_digit c then (x, scale, c # s)
     else if overflow then leadingFraction overflow x scale s
     else if (2 ^ 63 - 1) div 10 < x then leadingFraction True x scale s
     else if 2 ^ 63 < x * 10 + digit_val c then leadingFraction True x scale s
     else leadingFraction False (x * 10 + digit_val c) (scale * Fin 10) s)"

definition unitMap :: "(string \<times> int) list" where
  "unitMap = [(''ns'', 1), (''us'', 1000), ([CHR 0xC2, CHR 0xB5] @ ''s'', 1000), ([CHR 0xCE, CHR 0xBC] @ ''s'', 1000),
     (''ms'', 1000000), (''s'', second), (''m'', minute), (''h'', hour)]"

definition unit_char :: "char \<Rightarrow> bool" where
  "unit_char c \<longleftrightarrow> c \<noteq> CHR ''.'' \<and> \<not> is_digit c"

text \<open>\<^verbatim>\<open>uint64(x)\<close> of a finite non-negative number.\<close>

definition f_to_uint :: "float64 \<Rightarrow> int" where
  "f_to_uint x = (case x of Fin a \<Rightarrow> \<lfloor>a\<rfloor> | _ \<Rightarrow> 0)"

text \<open>One number with its unit: its nanoseconds and the rest of the text.\<close>

definition duration_segment :: "string \<Rightarrow> (int \<times> string) option" where
  "duration_segment s =
    (if s = [] \<or> \<not> (hd s = CHR ''.'' \<or> is_digit (hd s)) then None
     else case leadingInt 0 s of None \<Rightarrow> None
     | Some (v, s1) \<Rightarrow>
       (let pre = (length s1 \<noteq> length s);
            dot = (s1 \<noteq> [] \<and> hd s1 = CHR ''.'');
            (f, scale, s2) = (if dot then leadingFraction False 0 1 (tl s1) else (0, 1, s1));
            post = (dot \<and> length s2 \<noteq> length (tl s1));
            u = takeWhile unit_char s2; rest = dropWhile unit_char s2
        in if \<not> pre \<and> \<not> post then None
           else if u = [] then None
           else (case map_of unitMap u of None \<Rightarrow> None
             | Some unit \<Rightarrow>
                if 2 ^ 63 div unit < v then None
                else let v = v * unit;
                         v = (if 0 < f then v + f_to_uint (f_of_int f * f_div (f_of_int unit) scale) else v)
                     in if 2 ^ 63 < v then None else Some (v, rest))))"

lemma leadingInt_length: "leadingInt x s = Some (y, r) \<Longrightarrow> length r \<le> length s"
  by (induction x s rule: leadingInt.induct) (auto split: if_splits)

lemma leadingFraction_length: "length (snd (snd (leadingFraction ov x sc s))) \<le> length s"
  by (induction s arbitrary: ov x sc) (auto simp: le_SucI)

lemma duration_segment_shorter: "duration_segment s = Some (v, r) \<Longrightarrow> length r < length s"
proof -
  assume seg: "duration_segment s = Some (v, r)"
  obtain w s1 where li: "leadingInt 0 s = Some (w, s1)" using seg by (auto simp: duration_segment_def split: if_splits option.splits)
  obtain f sc s2 where fr: "(if s1 \<noteq> [] \<and> hd s1 = CHR ''.'' then leadingFraction False 0 1 (tl s1) else (0, 1, s1)) = (f, sc, s2)"
    by (metis prod_cases3)
  have "length s2 \<le> length s1"
    using fr leadingFraction_length [of False 0 1 "tl s1"] by (auto split: if_splits)
  moreover have "takeWhile unit_char s2 \<noteq> []" "r = dropWhile unit_char s2"
    using seg li fr by (auto simp: duration_segment_def Let_def split: if_splits option.splits)
  moreover have "length (takeWhile unit_char s2) + length (dropWhile unit_char s2) = length s2"
    by (metis length_append takeWhile_dropWhile_id)
  ultimately show ?thesis using leadingInt_length [OF li] by (cases "takeWhile unit_char s2") auto
qed

text \<open>The sum is kept in a \<^verbatim>\<open>uint64\<close>.\<close>

function duration_loop :: "int \<Rightarrow> string \<Rightarrow> int option" where
  "duration_loop d s = (if s = [] then Some d
     else case duration_segment s of None \<Rightarrow> None
     | Some (v, r) \<Rightarrow> (let d = (d + v) mod 2 ^ 64 in if 2 ^ 63 < d then None else duration_loop d r))"
  by pat_completeness auto
termination
  by (relation "measure (\<lambda>(d, s). length s)") (auto dest: duration_segment_shorter)

declare duration_loop.simps [simp del]

definition time_ParseDuration :: "string \<Rightarrow> duration option" where
  "time_ParseDuration s =
    (let neg = (s \<noteq> [] \<and> hd s = CHR ''-'');
         s = (if s \<noteq> [] \<and> (hd s = CHR ''-'' \<or> hd s = CHR ''+'') then tl s else s)
     in if s = ''0'' then Some 0
        else if s = [] then None
        else case duration_loop 0 s of None \<Rightarrow> None
          | Some d \<Rightarrow> if neg then Some (wrap64 (- wrap64 d))
                      else if 2 ^ 63 - 1 < d then None else Some d)"


section \<open>Floating-point numbers\<close>

definition either_case :: "char \<Rightarrow> char \<Rightarrow> bool" where
  "either_case x c \<longleftrightarrow> c = x \<or> of_char c + 32 = (of_char x :: nat)"

fun commonPrefixLenIgnoreCase :: "string \<Rightarrow> string \<Rightarrow> nat" where
  "commonPrefixLenIgnoreCase (c # s) (x # p) = (if either_case x c then Suc (commonPrefixLenIgnoreCase s p) else 0)"
| "commonPrefixLenIgnoreCase s p = 0"

definition special_inf :: "bool \<Rightarrow> nat \<Rightarrow> string \<Rightarrow> (float64 \<times> nat) option" where
  "special_inf neg nsign s =
    (let n = commonPrefixLenIgnoreCase s ''infinity''; n = (if 3 < n \<and> n < 8 then 3 else n)
     in if n = 3 \<or> n = 8 then Some (if neg then NInf else PInf, nsign + n) else None)"

definition special :: "string \<Rightarrow> (float64 \<times> nat) option" where
  "special s = (case s of [] \<Rightarrow> None
     | c # r \<Rightarrow>
        if c = CHR ''+'' \<or> c = CHR ''-'' then special_inf (c = CHR ''-'') 1 r
        else if either_case (CHR ''i'') c then special_inf False 0 s
        else if either_case (CHR ''n'') c then
          (if commonPrefixLenIgnoreCase s ''nan'' = 3 then Some (NaN, 3) else None)
        else None)"

text \<open>The digits before and after the point; underscores are skipped here and judged later.\<close>

fun scan_mantissa :: "bool \<Rightarrow> bool \<Rightarrow> nat list \<Rightarrow> nat list \<Rightarrow> string \<Rightarrow> nat list \<times> nat list \<times> string" where
  "scan_mantissa hex dot ip fp [] = (ip, fp, [])"
| "scan_mantissa hex dot ip fp (c # s) =
    (if c = CHR ''_'' then scan_mantissa hex dot ip fp s
     else if c = CHR ''.'' then (if dot then (ip, fp, c # s) else scan_mantissa hex True ip fp s)
     else case (if hex \<or> is_digit c then hex_val c else None) of
       Some d \<Rightarrow> (if dot then scan_mantissa hex dot ip (fp @ [d]) s else scan_mantissa hex dot (ip @ [d]) fp s)
     | None \<Rightarrow> (ip, fp, c # s))"

fun scan_exponent :: "int \<Rightarrow> string \<Rightarrow> int \<times> string" where
  "scan_exponent e [] = (e, [])"
| "scan_exponent e (c # s) =
    (if c = CHR ''_'' then scan_exponent e s
     else if is_digit c then scan_exponent (if e < 10000 then e * 10 + digit_val c else e) s
     else (e, c # s))"

datatype saw = SawStart | SawDigit | SawUnderscore | SawOther

fun underscores_ok :: "bool \<Rightarrow> saw \<Rightarrow> string \<Rightarrow> bool" where
  "underscores_ok hex st [] \<longleftrightarrow> st \<noteq> SawUnderscore"
| "underscores_ok hex st (c # s) =
    (if is_digit c \<or> (hex \<and> hex_val c \<noteq> None) then underscores_ok hex SawDigit s
     else if c = CHR ''_'' then st = SawDigit \<and> underscores_ok hex SawUnderscore s
     else st \<noteq> SawUnderscore \<and> underscores_ok hex SawOther s)"

definition underscoreOK :: "string \<Rightarrow> bool" where
  "underscoreOK s =
    (let s = (if s \<noteq> [] \<and> (hd s = CHR ''-'' \<or> hd s = CHR ''+'') then tl s else s) in
     if 2 \<le> length s \<and> hd s = CHR ''0'' \<and> (\<exists>x \<in> set ''box''. either_case x (s ! 1))
     then underscores_ok (either_case (CHR ''x'') (s ! 1)) SawDigit (drop 2 s)
     else underscores_ok False SawStart s)"

definition mantissa_value :: "int \<Rightarrow> nat list \<Rightarrow> int" where
  "mantissa_value base ds = foldl (\<lambda>n d. n * base + int d) 0 ds"

text \<open>A number that takes up the whole text.\<close>

definition readFloat :: "string \<Rightarrow> rat option" where
  "readFloat text =
    (let (neg, s) = (case text of c # r \<Rightarrow> if c = CHR ''+'' then (False, r) else if c = CHR ''-'' then (True, r) else (False, text)
                     | [] \<Rightarrow> (False, []));
         hex = (2 < length s \<and> hd s = CHR ''0'' \<and> either_case (CHR ''x'') (s ! 1));
         (ip, fp, s) = scan_mantissa hex False [] [] (if hex then drop 2 s else s);
         base = (if hex then 16 else 10);
         m = (if neg then - 1 else 1) * mantissa_value base (ip @ fp);
         value = (\<lambda>e. of_int m / of_int (base ^ length fp) * (if hex then 2 else 10) powi e)
     in if ip @ fp = [] then None
        else case s of
          [] \<Rightarrow> if hex \<or> (CHR ''_'' \<in> set text \<and> \<not> underscoreOK text) then None else Some (value 0)
        | c # r \<Rightarrow>
           if \<not> either_case (if hex then CHR ''p'' else CHR ''e'') c then None
           else
             let r' = (if r \<noteq> [] \<and> (hd r = CHR ''+'' \<or> hd r = CHR ''-'') then tl r else r)
             in if r' = [] \<or> \<not> is_digit (hd r') then None
                else (case scan_exponent 0 r' of (e, rest) \<Rightarrow>
                   if rest \<noteq> [] \<or> (CHR ''_'' \<in> set text \<and> \<not> underscoreOK text) then None
                   else Some (value (if r \<noteq> [] \<and> hd r = CHR ''-'' then - e else e))))"

definition ParseFloat :: "string \<Rightarrow> float64 option" where
  "ParseFloat s = (case special s of
       Some (v, n) \<Rightarrow> if n = length s then Some v else None
     | None \<Rightarrow> (case readFloat s of None \<Rightarrow> None
        | Some q \<Rightarrow> (case f_round q of Fin x \<Rightarrow> Some (Fin x) | _ \<Rightarrow> None)))"


section \<open>Hexadecimal text\<close>

datatype hex_error = InvalidByteError char | ErrLength

fun hex_DecodeString :: "string \<Rightarrow> hex_error + string" where
  "hex_DecodeString [] = Inr []"
| "hex_DecodeString [p] = (case hex_val p of None \<Rightarrow> Inl (InvalidByteError p) | Some _ \<Rightarrow> Inl ErrLength)"
| "hex_DecodeString (p # q # s) = (case hex_val p of None \<Rightarrow> Inl (InvalidByteError p)
     | Some a \<Rightarrow> (case hex_val q of None \<Rightarrow> Inl (InvalidByteError q)
     | Some b \<Rightarrow> (case hex_DecodeString s of Inl err \<Rightarrow> Inl err | Inr out \<Rightarrow> Inr (char_of (a * 16 + b) # out))))"

definition hex_EncodeToString :: "string \<Rightarrow> string" where
  "hex_EncodeToString bs = concat (map (\<lambda>c. [hex_char (of_char c div 16), hex_char (of_char c mod 16)]) bs)"

end
