(* ===== verification/Config_Load.thy ===== *)
theory Config_Load
  imports Go_Strconv Memory_Store
begin

text \<open>
  \<^verbatim>\<open>internal/config/config.go\<close> and \<^verbatim>\<open>internal/store/store.go\<close>: the configuration read from
  the environment, and the choice of the store. The environment is a function from names to
  values, empty where \<^verbatim>\<open>os.Getenv\<close> finds nothing; \<open>lower\<close> is \<^verbatim>\<open>strings.ToLower\<close>. The
  SQL backends are arguments of \<^verbatim>\<open>Open\<close>.
\<close>

section \<open>The configuration\<close>

record RiskConfig =
  rk_OverdueWeight :: float64
  rk_DueSoonWeight :: float64
  rk_DueSoonWindow :: duration
  rk_ConfidenceWeight :: float64
  rk_SignalWeight :: float64

record InterventionConfig =
  ik_NudgeThreshold :: float64
  ik_EscalateThreshold :: float64
  ik_AutomationConfidence :: float64

record LLMConfig =
  lc_Provider :: string
  lc_APIKey :: string
  lc_Model :: string
  lc_BaseURL :: string

record Config =
  GRPCAddr :: string
  HTTPAddr :: string
  DBType :: string
  DBDSN :: string
  TickInterval :: duration
  cf_Risk :: RiskConfig
  cf_Intervention :: InterventionConfig
  Extract_MinConfidence :: float64
  cf_LLM :: LLMConfig
  AuthToken :: string
  JWTKID :: string
  JWTSecretHex :: string
  JWTPrevKID :: string
  JWTPrevSecHex :: string
  JWTDefaultTTL :: duration
  JWTRotatePeriod :: duration
  JWTRotateOverlap :: duration
  ValidationRules :: string
  MnemosAddr :: string
  MnemosTLSCert :: string
  MnemosBearerToken :: string
  ChronosAddr :: string
  ChronosTLSCert :: string
  ChronosBearerToken :: string
  PraxisAddr :: string
  PraxisTLSCert :: string
  PraxisBearerToken :: string
  TLSCertFile :: string
  TLSKeyFile :: string
  MTLSClientCAFile :: string

definition getenv :: "(string \<Rightarrow> string) \<Rightarrow> string \<Rightarrow> string \<Rightarrow> string" where
  "getenv env key fallback = (if env key \<noteq> [] then env key else fallback)"

definition parseDuration :: "string \<Rightarrow> duration \<Rightarrow> duration" where
  "parseDuration v fallback = (if v = [] then fallback else case time_ParseDuration v of None \<Rightarrow> fallback | Some d \<Rightarrow> d)"

definition parseFloat :: "string \<Rightarrow> float64 \<Rightarrow> float64" where
  "parseFloat v fallback = (if v = [] then fallback else case ParseFloat v of None \<Rightarrow> fallback | Some f \<Rightarrow> f)"

definition Config_Validate :: "(string \<Rightarrow> string) \<Rightarrow> (nat \<Rightarrow> bool) \<Rightarrow> Config \<Rightarrow> error option" where
  "Config_Validate lower printable c =
    (let provider = lc_Provider (cf_LLM c) in
     if GRPCAddr c = [] then Some (ErrPlain ''config: grpc_addr is required'')
     else if lower (DBType c) \<notin> set [''memory'', ''sqlite'', ''sqlite3'', ''postgres'', ''postgresql'']
     then Some (ErrPlain (''config: unsupported db_type '' @ fmt_q printable (DBType c)))
     else if TickInterval c \<le> 0 then Some (ErrPlain ''config: tick_interval must be positive'')
     else if provider \<notin> set ['''', ''anthropic'', ''openai'', ''gemini'', ''bedrock'', ''ollama'']
     then Some (ErrPlain (''config: unsupported llm provider '' @ fmt_q printable provider))
     else if provider \<noteq> [] \<and> provider \<noteq> ''bedrock'' \<and> provider \<noteq> ''ollama'' \<and> lc_APIKey (cf_LLM c) = []
     then Some (ErrPlain (''config: NOUS_LLM_API_KEY required when NOUS_LLM_PROVIDER='' @ provider))
     else None)"

definition load_risk :: "(string \<Rightarrow> string) \<Rightarrow> RiskConfig" where
  "load_risk env =
     \<lparr>rk_OverdueWeight = parseFloat (env ''NOUS_RISK_OVERDUE_WEIGHT'') 0,
      rk_DueSoonWeight = parseFloat (env ''NOUS_RISK_DUE_SOON_WEIGHT'') 0,
      rk_DueSoonWindow = parseDuration (env ''NOUS_RISK_DUE_SOON_WINDOW'') 0,
      rk_ConfidenceWeight = parseFloat (env ''NOUS_RISK_CONFIDENCE_WEIGHT'') 0,
      rk_SignalWeight = parseFloat (env ''NOUS_RISK_SIGNAL_WEIGHT'') 0\<rparr>"

definition load_intervention :: "(string \<Rightarrow> string) \<Rightarrow> InterventionConfig" where
  "load_intervention env =
     \<lparr>ik_NudgeThreshold = parseFloat (env ''NOUS_NUDGE_THRESHOLD'') 0,
      ik_EscalateThreshold = parseFloat (env ''NOUS_ESCALATE_THRESHOLD'') 0,
      ik_AutomationConfidence = parseFloat (env ''NOUS_AUTOMATION_CONFIDENCE'') 0\<rparr>"

definition load_llm :: "(string \<Rightarrow> string) \<Rightarrow> (string \<Rightarrow> string) \<Rightarrow> LLMConfig" where
  "load_llm lower env =
     \<lparr>lc_Provider = lower (TrimSpace (env ''NOUS_LLM_PROVIDER'')), lc_APIKey = env ''NOUS_LLM_API_KEY'',
      lc_Model = env ''NOUS_LLM_MODEL'', lc_BaseURL = env ''NOUS_LLM_BASE_URL''\<rparr>"

definition read_config :: "(string \<Rightarrow> string) \<Rightarrow> (string \<Rightarrow> string) \<Rightarrow> Config" where
  "read_config lower env =
     \<lparr>GRPCAddr = getenv env ''NOUS_GRPC_ADDR'' '':50051'', HTTPAddr = env ''NOUS_HTTP_ADDR'',
      DBType = getenv env ''NOUS_DB_TYPE'' ''sqlite'', DBDSN = getenv env ''NOUS_DB_DSN'' ''nous.db'',
      TickInterval = parseDuration (env ''NOUS_TICK_INTERVAL'') (5 * minute),
      cf_Risk = load_risk env, cf_Intervention = load_intervention env,
      Extract_MinConfidence = parseFloat (env ''NOUS_EXTRACT_MIN_CONFIDENCE'') 0,
      cf_LLM = load_llm lower env,
      AuthToken = env ''NOUS_AUTH_TOKEN'', JWTKID = env ''NOUS_JWT_KID'', JWTSecretHex = env ''NOUS_JWT_SECRET'',
      JWTPrevKID = env ''NOUS_JWT_PREV_KID'', JWTPrevSecHex = env ''NOUS_JWT_PREV_SECRET'',
      JWTDefaultTTL = parseDuration (env ''NOUS_JWT_TTL'') hour,
      JWTRotatePeriod = parseDuration (env ''NOUS_JWT_ROTATE_PERIOD'') 0,
      JWTRotateOverlap = parseDuration (env ''NOUS_JWT_ROTATE_OVERLAP'') 0,
      ValidationRules = env ''NOUS_VALIDATION_RULES'',
      MnemosAddr = env ''NOUS_MNEMOS_ADDR'', MnemosTLSCert = env ''NOUS_MNEMOS_TLS_CERT'',
      MnemosBearerToken = env ''NOUS_MNEMOS_BEARER_TOKEN'',
      ChronosAddr = env ''NOUS_CHRONOS_ADDR'', ChronosTLSCert = env ''NOUS_CHRONOS_TLS_CERT'',
      ChronosBearerToken = env ''NOUS_CHRONOS_BEARER_TOKEN'',
      PraxisAddr = env ''NOUS_PRAXIS_ADDR'', PraxisTLSCert = env ''NOUS_PRAXIS_TLS_CERT'',
      PraxisBearerToken = env ''NOUS_PRAXIS_BEARER_TOKEN'',
      TLSCertFile = env ''NOUS_TLS_CERT_FILE'', TLSKeyFile = env ''NOUS_TLS_KEY_FILE'',
      MTLSClientCAFile = env ''NOUS_MTLS_CLIENT_CA_FILE''\<rparr>"

definition Load :: "(string \<Rightarrow> string) \<Rightarrow> (nat \<Rightarrow> bool) \<Rightarrow> (string \<Rightarrow> string) \<Rightarrow> error + Config" where
  "Load lower printable env =
    (let cfg = read_config lower env in
     case Config_Validate lower printable cfg of Some err \<Rightarrow> Inl err | None \<Rightarrow> Inr cfg)"


section \<open>The store\<close>

datatype ('q, 'p) Store = MemoryStore "state Conn" state | SqliteStore 'q | PostgresStore 'p

definition SupportedTypes :: "string list" where
  "SupportedTypes = [''memory'', ''sqlite'', ''postgres'']"

definition store_Open ::
  "(uuid \<Rightarrow> string) \<Rightarrow> range_orders \<Rightarrow> (string \<Rightarrow> error + 'q) \<Rightarrow> (string \<Rightarrow> error + 'p) \<Rightarrow> (nat \<Rightarrow> bool) \<Rightarrow>
   string \<Rightarrow> string \<Rightarrow> error + ('q, 'p) Store" where
  "store_Open str rng sqlite_Open postgres_Open printable dbType connStr =
    (if dbType = ''memory'' then (case memory_New str rng of (c, st) \<Rightarrow> Inr (MemoryStore c st))
     else if dbType = ''sqlite'' \<or> dbType = ''sqlite3'' then
       (case sqlite_Open connStr of Inl err \<Rightarrow> Inl err | Inr c \<Rightarrow> Inr (SqliteStore c))
     else if dbType = ''postgres'' \<or> dbType = ''postgresql'' then
       (case postgres_Open connStr of Inl err \<Rightarrow> Inl err | Inr c \<Rightarrow> Inr (PostgresStore c))
     else Inl (ErrPlain (''store: unsupported database type '' @ fmt_q printable dbType @ '' (supported: ['' @
       concat (map (\<lambda>(t, sep). t @ sep) (zip SupportedTypes ['' '', '' '', ''''])) @ ''])'')))"

definition store_Close :: "('q \<Rightarrow> error option) \<Rightarrow> ('p \<Rightarrow> error option) \<Rightarrow> ('q, 'p) Store \<Rightarrow> error option" where
  "store_Close sqlite_Close postgres_Close s = (case s of
     MemoryStore c st \<Rightarrow> memory_Conn_Close c | SqliteStore q \<Rightarrow> sqlite_Close q | PostgresStore p \<Rightarrow> postgres_Close p)"

definition store_Ping :: "('q \<Rightarrow> error option) \<Rightarrow> ('p \<Rightarrow> error option) \<Rightarrow> ('q, 'p) Store \<Rightarrow> error option" where
  "store_Ping sqlite_Ping postgres_Ping s = (case s of
     MemoryStore c st \<Rightarrow> memory_Conn_Ping c | SqliteStore q \<Rightarrow> sqlite_Ping q | PostgresStore p \<Rightarrow> postgres_Ping p)"


section \<open>What is accepted\<close>

definition store_types :: "string list" where
  "store_types = [''memory'', ''sqlite'', ''sqlite3'', ''postgres'', ''postgresql'']"

definition provider_ok :: "LLMConfig \<Rightarrow> bool" where
  "provider_ok l \<longleftrightarrow> lc_Provider l \<in> set ['''', ''bedrock'', ''ollama'']
     \<or> lc_Provider l \<in> set [''anthropic'', ''openai'', ''gemini''] \<and> lc_APIKey l \<noteq> []"

lemma getenv_nonempty: "fallback \<noteq> [] \<Longrightarrow> getenv env key fallback \<noteq> []"
  by (simp add: getenv_def)

lemma provider_checks:
  "(lc_Provider l \<in> set ['''', ''anthropic'', ''openai'', ''gemini'', ''bedrock'', ''ollama'']
    \<and> \<not> (lc_Provider l \<noteq> [] \<and> lc_Provider l \<noteq> ''bedrock'' \<and> lc_Provider l \<noteq> ''ollama'' \<and> lc_APIKey l = []))
   \<longleftrightarrow> provider_ok l"
proof -
  have "[] \<noteq> ''anthropic''" "[] \<noteq> ''openai''" "[] \<noteq> ''gemini''" "''bedrock'' \<noteq> ''anthropic''" "''bedrock'' \<noteq> ''openai''"
    "''bedrock'' \<noteq> ''gemini''" "''ollama'' \<noteq> ''anthropic''" "''ollama'' \<noteq> ''openai''" "''ollama'' \<noteq> ''gemini''" by simp_all
  then show ?thesis unfolding provider_ok_def list.set insert_iff empty_iff by metis
qed

lemma Config_Validate_None:
  "Config_Validate lower printable c = None \<longleftrightarrow> GRPCAddr c \<noteq> [] \<and> lower (DBType c) \<in> set store_types
     \<and> 0 < TickInterval c \<and> provider_ok (cf_LLM c)"
  unfolding Config_Validate_def Let_def store_types_def provider_checks [symmetric]
  by (simp del: list.set)

lemma Load_Inr:
  "Load lower printable env = Inr cfg \<longleftrightarrow> cfg = read_config lower env \<and> lower (DBType cfg) \<in> set store_types
     \<and> 0 < TickInterval cfg \<and> provider_ok (cf_LLM cfg)"
proof -
  have "GRPCAddr (read_config lower env) \<noteq> []" by (simp add: read_config_def getenv_nonempty)
  then have "Config_Validate lower printable (read_config lower env) = None \<longleftrightarrow>
      lower (DBType (read_config lower env)) \<in> set store_types \<and> 0 < TickInterval (read_config lower env)
      \<and> provider_ok (cf_LLM (read_config lower env))"
    by (simp only: Config_Validate_None) blast
  then show ?thesis
    by (cases "Config_Validate lower printable (read_config lower env)") (auto simp only: Load_def Let_def option.case sum.inject sum.distinct option.distinct)
qed

text \<open>
  A rejected duration or number falls back silently: the load never fails for it, and an
  interval that does not parse is the default of five minutes.
\<close>

lemma tick_fallback: "time_ParseDuration (env ''NOUS_TICK_INTERVAL'') = None \<Longrightarrow> TickInterval (read_config lower env) = 5 * minute"
  by (simp add: read_config_def parseDuration_def)

lemma Open_Inr_iff:
  "(\<exists>s. store_Open str rng so po printable t dsn = Inr s)
     \<longleftrightarrow> t = ''memory'' \<or> t \<in> {''sqlite'', ''sqlite3''} \<and> (\<exists>q. so dsn = Inr q)
       \<or> t \<in> {''postgres'', ''postgresql''} \<and> (\<exists>p. po dsn = Inr p)"
  by (auto simp: store_Open_def memory_New_def split: sum.split)

text \<open>
  (C23) What the load lets through can be run, except for the spelling of the store: an accepted
  configuration has a database type that is known up to case, a positive tick interval, an
  address to listen on and a provider that is known and has its key. But the store takes the type as it
  is written: when the backends themselves can be opened, start-up gets past the store exactly
  for a type in lower case, so a type the validation accepted in another spelling ends it.
\<close>

theorem load_then_open:
  assumes "Load lower printable env = Inr cfg" and "\<exists>q. so (DBDSN cfg) = Inr q" and "\<exists>p. po (DBDSN cfg) = Inr p"
  shows "lower (DBType cfg) \<in> set store_types \<and> 0 < TickInterval cfg \<and> GRPCAddr cfg \<noteq> [] \<and> provider_ok (cf_LLM cfg)
    \<and> ((\<exists>s. store_Open str rng so po printable (DBType cfg) (DBDSN cfg) = Inr s) \<longleftrightarrow> DBType cfg \<in> set store_types)"
proof -
  have "GRPCAddr cfg \<noteq> []" using assms(1) by (simp add: Load_Inr read_config_def getenv_nonempty)
  moreover have "(\<exists>s. store_Open str rng so po printable (DBType cfg) (DBDSN cfg) = Inr s) \<longleftrightarrow> DBType cfg \<in> set store_types"
    using assms(2,3) by (auto simp: Open_Inr_iff store_types_def)
  ultimately show ?thesis using assms(1) unfolding Load_Inr by blast
qed

text \<open>\<^verbatim>\<open>ToLower\<close> on ASCII text, and the environment with nothing but the type written as SQLite.\<close>

definition ascii_lower :: "string \<Rightarrow> string" where
  "ascii_lower s = map (\<lambda>c. if 65 \<le> (of_char c :: nat) \<and> (of_char c :: nat) \<le> 90 then char_of (of_char c + 32 :: nat) else c) s"

definition sample_env :: "string \<Rightarrow> string" where
  "sample_env key = (if key = ''NOUS_DB_TYPE'' then ''SQLite'' else [])"

lemma sample_lower: "ascii_lower ''SQLite'' = ''sqlite''"
  by code_simp

lemma sample_env_loads: "Load ascii_lower (\<lambda>_. True) sample_env = Inr (read_config ascii_lower sample_env)"
proof -
  have "TrimSpace [] = []" "ascii_lower [] = []" by (simp_all add: TrimSpace_def ascii_lower_def)
  then show ?thesis
    by (simp add: Load_Inr read_config_def sample_env_def getenv_def parseDuration_def provider_ok_def load_llm_def
        store_types_def sample_lower)
qed

theorem load_then_open_witness:
  "\<not> (\<exists>s. store_Open canonical_text sample_orders (\<lambda>dsn. Inr dsn) (\<lambda>dsn. Inr dsn) (\<lambda>_. True)
       (DBType (read_config ascii_lower sample_env)) (DBDSN (read_config ascii_lower sample_env)) = Inr s)"
  using load_then_open [OF sample_env_loads, of "\<lambda>dsn. Inr dsn" "\<lambda>dsn. Inr dsn" canonical_text sample_orders]
  by (auto simp: store_types_def read_config_def getenv_def sample_env_def)

end
