(* ===== verification/Llm_Context.thy ===== *)
theory Llm_Context
  imports Go_Utf8 Pipeline_Extract
begin

text \<open>
  The extractor that asks a language model: \<^verbatim>\<open>internal/llm/context_window.go\<close> (token estimate
  and elision), \<^verbatim>\<open>llm_extractor.go\<close> (prompt and extraction) and \<^verbatim>\<open>ab_prompt.go\<close> (prompt
  experiments). A provider is any function from prompts to drafts. The JSON text of the
  few-shot examples is the argument \<open>marshal\<close>.
\<close>

section \<open>The context window\<close>

definition EstimateTokens :: "string \<Rightarrow> int" where
  "EstimateTokens s = (if s = [] then 0 else (int (RuneCountInString s) + 3) div 4)"

record ContextBudget =
  MaxInputTokens :: int
  HeadroomTokens :: int

definition Available :: "ContextBudget \<Rightarrow> int" where
  "Available b = (let a = MaxInputTokens b - HeadroomTokens b in if a < 0 then 0 else a)"

definition splitRune :: "nat \<Rightarrow> bool" where
  "splitRune r \<longleftrightarrow> r \<noteq> 32 \<and> r \<noteq> 10 \<and> r \<noteq> 9 \<and> r \<noteq> 46 \<and> r \<noteq> 44"

text \<open>
  The elision marker: a line break, the ellipsis in brackets, a line break. The text that is
  cut is a conversion of runes, so \<^verbatim>\<open>TrimRightFunc\<close> and \<^verbatim>\<open>TrimLeftFunc\<close> act on the
  list of its runes.
\<close>

definition elision_marker :: string where
  "elision_marker = string_of_runes [10, 91, 0x2026, 93, 10]"

definition FitText :: "string \<Rightarrow> int \<Rightarrow> ContextBudget \<Rightarrow> string" where
  "FitText input overheadTokens budget =
    (let available = Available budget - overheadTokens in
     if available \<le> 0 then []
     else if EstimateTokens input \<le> available then input
     else
      (let keepTokens = available - EstimateTokens elision_marker in
       if keepTokens \<le> 0 then []
       else
        (let keepChars = keepTokens * 4; headChars = keepChars div 3; tailChars = keepChars - headChars;
             rs = runes input
         in if int (length rs) \<le> headChars + tailChars then input
            else
              (let head = rev (dropWhile splitRune (rev (take (nat headChars) rs)));
                   tail = dropWhile splitRune (drop (length rs - nat tailChars) rs)
               in string_of_runes head @ elision_marker @ string_of_runes tail))))"

definition DefaultBudgets :: "(string \<times> ContextBudget) list" where
  "DefaultBudgets =
    [(''anthropic'', \<lparr>MaxInputTokens = 200000, HeadroomTokens = 4000\<rparr>),
     (''openai'', \<lparr>MaxInputTokens = 128000, HeadroomTokens = 4000\<rparr>),
     (''gemini'', \<lparr>MaxInputTokens = 1000000, HeadroomTokens = 4000\<rparr>),
     (''bedrock'', \<lparr>MaxInputTokens = 200000, HeadroomTokens = 4000\<rparr>)]"

definition BudgetFor :: "string \<Rightarrow> ContextBudget" where
  "BudgetFor provider = (case map_of DefaultBudgets provider of
     Some b \<Rightarrow> b | None \<Rightarrow> \<lparr>MaxInputTokens = 8000, HeadroomTokens = 1000\<rparr>)"


section \<open>Prompts\<close>

record FewShotDraft =
  fd_Description :: string
  fd_DueAt :: "string option"
  fd_Confidence :: float64

record FewShotExample =
  fx_Input :: string
  fx_Output :: "FewShotDraft list"

record PromptBuilder =
  pb_version :: string
  pb_systemPrompt :: string
  pb_examples :: "FewShotExample list"

definition PromptVersion :: string where
  "PromptVersion = ''v2''"

definition newline :: string where
  "newline = [CHR 0x0A]"

fun examples_text :: "(FewShotDraft list \<Rightarrow> error + string) \<Rightarrow> nat \<Rightarrow> FewShotExample list \<Rightarrow> string" where
  "examples_text marshal i [] = []"
| "examples_text marshal i (ex # exs) =
     ''Example '' @ fmt_d (int i + 1) @ '' input: '' @ fx_Input ex @ newline @
     (case marshal (fx_Output ex) of
        Inl err \<Rightarrow> examples_text marshal (Suc i) exs
      | Inr raw \<Rightarrow> ''Example '' @ fmt_d (int i + 1) @ '' output: '' @ raw @ newline @ newline @
          examples_text marshal (Suc i) exs)"

definition Build :: "(FewShotDraft list \<Rightarrow> error + string) \<Rightarrow> PromptBuilder \<Rightarrow> string \<Rightarrow> string" where
  "Build marshal b input =
     pb_systemPrompt b @ newline @ newline @ examples_text marshal 0 (pb_examples b) @
     ''Input: '' @ input @ newline @ ''Output (JSON only, no prose): ''"

definition defaultSystemPrompt :: string where
  "defaultSystemPrompt =
     ''You are an expert at extracting commitments from text.'' @ newline @
     ''Extract commitments, promises, and action items.'' @ newline @
     ''Return a JSON array of objects with these fields:'' @ newline @
     ''  - description (string, required)'' @ newline @
     ''  - due_at (RFC 3339 timestamp or null)'' @ newline @
     ''  - confidence (number in [0.0, 1.0])'' @ newline @
     ''  - entities (array of {kind, name} objects, optional)'' @ newline @
     ''Return only the JSON array. No prose, no code fences. If there are no commitments, return [].'' @ newline @
     ''If unsure about a commitment, set confidence < 0.5.''"

definition defaultFewShotExamples :: "FewShotExample list" where
  "defaultFewShotExamples =
    [\<lparr>fx_Input = ''I'' @ [CHR 0x27] @ ''ll send the report by Friday.'',
      fx_Output = [\<lparr>fd_Description = ''send the report'', fd_DueAt = Some ''2026-05-02T15:00:00Z'', fd_Confidence = f_lit (9/10)\<rparr>]\<rparr>,
     \<lparr>fx_Input = ''Just thinking out loud, maybe we'' @ [CHR 0x27] @ ''d consider rolling that out next quarter.'',
      fx_Output = []\<rparr>]"

definition NewPromptBuilder :: "(PromptBuilder \<Rightarrow> PromptBuilder) list \<Rightarrow> PromptBuilder" where
  "NewPromptBuilder opts = foldl (\<lambda>b f. f b)
     \<lparr>pb_version = PromptVersion, pb_systemPrompt = defaultSystemPrompt, pb_examples = defaultFewShotExamples\<rparr> opts"

definition WithFewShotExamples :: "FewShotExample list \<Rightarrow> PromptBuilder \<Rightarrow> PromptBuilder" where
  "WithFewShotExamples examples b = b\<lparr>pb_examples := examples\<rparr>"

definition WithSystemPrompt :: "string \<Rightarrow> PromptBuilder \<Rightarrow> PromptBuilder" where
  "WithSystemPrompt s b = b\<lparr>pb_systemPrompt := s\<rparr>"


section \<open>Extraction\<close>

type_synonym Provider = "string \<Rightarrow> error + CommitmentDraft list"

record LLMExtractor =
  le_provider :: Provider
  le_builder :: PromptBuilder
  le_budget :: ContextBudget

definition NewLLMExtractor :: "Provider \<Rightarrow> (LLMExtractor \<Rightarrow> LLMExtractor) list \<Rightarrow> LLMExtractor" where
  "NewLLMExtractor provider opts = foldl (\<lambda>e f. f e)
     \<lparr>le_provider = provider, le_builder = NewPromptBuilder [], le_budget = \<lparr>MaxInputTokens = 0, HeadroomTokens = 0\<rparr>\<rparr> opts"

definition WithContextBudget :: "ContextBudget \<Rightarrow> LLMExtractor \<Rightarrow> LLMExtractor" where
  "WithContextBudget b e = e\<lparr>le_budget := b\<rparr>"

definition WithPromptBuilder :: "PromptBuilder \<Rightarrow> LLMExtractor \<Rightarrow> LLMExtractor" where
  "WithPromptBuilder b e = e\<lparr>le_builder := b\<rparr>"

text \<open>The prompt that is sent, the same in the extractor and in the router.\<close>

definition extraction_prompt :: "(FewShotDraft list \<Rightarrow> error + string) \<Rightarrow> PromptBuilder \<Rightarrow> ContextBudget \<Rightarrow> string \<Rightarrow> string" where
  "extraction_prompt marshal builder budget text =
    (let text = (if 0 < MaxInputTokens budget
         then FitText text (EstimateTokens (Build marshal builder [])) budget else text)
     in Build marshal builder text)"

definition LLMExtractor_Extract :: "(FewShotDraft list \<Rightarrow> error + string) \<Rightarrow> LLMExtractor \<Rightarrow> CommitmentExtractor" where
  "LLMExtractor_Extract marshal e i =
    (case le_provider e (extraction_prompt marshal (le_builder e) (le_budget e) (ei_Text i)) of
       Inl err \<Rightarrow> Inl (ErrWrap ''llm extract'' err)
     | Inr drafts \<Rightarrow> Inr (map (annotate_draft i) drafts))"


section \<open>The router of prompt experiments\<close>

record PromptVariant =
  pv_Label :: string
  pv_Weight :: int
  pv_Builder :: "PromptBuilder option"

record ABRouter =
  ab_provider :: Provider
  ab_budget :: ContextBudget
  ab_variants :: "PromptVariant list"
  ab_total :: int
  ab_lastLabel :: string

definition label_less :: "PromptVariant \<Rightarrow> PromptVariant \<Rightarrow> bool" where
  "label_less v w = string_less (pv_Label v) (pv_Label w)"

definition kept_variants :: "PromptVariant list \<Rightarrow> PromptVariant list" where
  "kept_variants vs = map (\<lambda>v. case pv_Builder v of None \<Rightarrow> v\<lparr>pv_Builder := Some (NewPromptBuilder [])\<rparr> | Some _ \<Rightarrow> v)
     (filter (\<lambda>v. 0 < pv_Weight v) vs)"

definition total_weight :: "PromptVariant list \<Rightarrow> int" where
  "total_weight vs = foldl (\<lambda>t v. wrap64 (t + pv_Weight v)) 0 vs"

definition SetVariants :: "PromptVariant list \<Rightarrow> ABRouter \<Rightarrow> error + ABRouter" where
  "SetVariants variants r =
    (if variants = [] then Inl (ErrPlain ''ab: at least one variant required'')
     else let cp = kept_variants variants; total = total_weight cp in
       if total = 0 then Inl (ErrPlain ''ab: total weight is zero'')
       else Inr (r\<lparr>ab_variants := sort_slice label_less cp, ab_total := total\<rparr>))"

definition NewABRouter ::
  "Provider option \<Rightarrow> PromptVariant list \<Rightarrow> (LLMExtractor \<Rightarrow> LLMExtractor) list \<Rightarrow> error + ABRouter" where
  "NewABRouter provider variants opts = (case provider of
       None \<Rightarrow> Inl (ErrPlain ''ab: provider required'')
     | Some p \<Rightarrow>
        (let none = \<lparr>MaxInputTokens = 0, HeadroomTokens = 0\<rparr>;
             fake = \<lparr>le_provider = p, le_builder = NewPromptBuilder [], le_budget = none\<rparr>;
             budget = foldl (\<lambda>b f. let b' = le_budget (f fake) in if 0 < MaxInputTokens b' then b' else b) none opts
         in SetVariants variants \<lparr>ab_provider = p, ab_budget = budget, ab_variants = [], ab_total = 0, ab_lastLabel = []\<rparr>))"

definition fnv64a :: "string \<Rightarrow> 64 word" where
  "fnv64a s = foldl (\<lambda>h c. xor h (of_nat (of_char c)) * 1099511628211) 14695981039346656037 s"

fun pick_bucket :: "PromptVariant list \<Rightarrow> int \<Rightarrow> PromptVariant option" where
  "pick_bucket [] bucket = None"
| "pick_bucket (v # vs) bucket =
     (if bucket < pv_Weight v then Some v
      else case pick_bucket vs (bucket - pv_Weight v) of None \<Rightarrow> (if vs = [] then Some v else None) | Some u \<Rightarrow> Some u)"

text \<open>\<open>None\<close> is the panic of a router without variants, which the constructor refuses to build.\<close>

definition pick :: "ABRouter \<Rightarrow> string \<Rightarrow> PromptVariant option" where
  "pick r ownerID =
    (if length (ab_variants r) = 1 then Some (hd (ab_variants r))
     else pick_bucket (ab_variants r) (wrap64 (uint (fnv64a ownerID) mod (ab_total r mod 2 ^ 64))))"

definition LastVariant :: "ABRouter \<Rightarrow> string" where
  "LastVariant r = ab_lastLabel r"

definition ABRouter_Extract ::
  "(FewShotDraft list \<Rightarrow> error + string) \<Rightarrow> ABRouter \<Rightarrow> ExtractInput \<Rightarrow> ((error + CommitmentDraft list) \<times> ABRouter) option" where
  "ABRouter_Extract marshal r i = (case pick r (ei_OwnerID i) of
       None \<Rightarrow> None
     | Some v \<Rightarrow>
        (let r = r\<lparr>ab_lastLabel := pv_Label v\<rparr> in
         case pv_Builder v of
           None \<Rightarrow> None
         | Some builder \<Rightarrow>
            (case ab_provider r (extraction_prompt marshal builder (ab_budget r) (ei_Text i)) of
               Inl err \<Rightarrow> Some (Inl err, r)
             | Inr drafts \<Rightarrow> Some (Inr (map (annotate_draft i) drafts), r))))"


section \<open>The prompt fits\<close>

lemma EstimateTokens_count: "EstimateTokens s = (int (RuneCountInString s) + 3) div 4"
  by (simp add: EstimateTokens_def)

lemma count_string_of_runes: "list_all valid_rune rs \<Longrightarrow> RuneCountInString (string_of_runes rs) = length rs"
  by (simp add: RuneCountInString_def runes_string)

lemma count_around:
  assumes "of_char c < (0x80::nat)" and "of_char d < (0x80::nat)"
  shows "RuneCountInString (p @ c # y @ d # q) = RuneCountInString (p @ c # d # q) + RuneCountInString y"
  using RuneCount_ascii [OF assms(1), of p] RuneCount_ascii_Cons [OF assms(1)] RuneCount_ascii [OF assms(2), of y] by simp

lemma count_Build: "RuneCountInString (Build marshal b x) = RuneCountInString (Build marshal b []) + RuneCountInString x"
  using count_around [of "CHR '' ''" "CHR 0x0A"
      "pb_systemPrompt b @ newline @ newline @ examples_text marshal 0 (pb_examples b) @ ''Input:''" x
      "''Output (JSON only, no prose): ''"]
  by (simp add: Build_def newline_def)

lemma tokens_subadditive: "(int (a + b) + 3) div 4 \<le> (int a + 3) div 4 + (int b + 3) div 4"
  by presburger

lemma Build_tokens: "EstimateTokens (Build marshal b x) \<le> EstimateTokens (Build marshal b []) + EstimateTokens x"
  using tokens_subadditive [of "RuneCountInString (Build marshal b [])" "RuneCountInString x"]
  unfolding EstimateTokens_count count_Build [of marshal b x] .

lemma marker_tokens: "EstimateTokens elision_marker = 2"
  by (simp add: EstimateTokens_count elision_marker_def count_string_of_runes valid_rune_def del: string_of_runes_simps)

lemma FitText_cut:
  assumes "list_all valid_rune head" and "list_all valid_rune tail"
  shows "RuneCountInString (string_of_runes head @ elision_marker @ string_of_runes tail) = length head + 5 + length tail"
proof -
  have "string_of_runes head @ elision_marker @ string_of_runes tail = string_of_runes (head @ [10, 91, 0x2026, 93, 10] @ tail)"
    by (simp add: elision_marker_def)
  moreover have "list_all valid_rune (head @ [10, 91, 0x2026, 93, 10] @ tail)"
    using assms by (simp add: valid_rune_def)
  ultimately show ?thesis by (simp only: count_string_of_runes) simp
qed

lemma cut_tokens:
  assumes "0 < k" and "m \<le> nat (k * 4 div 3)" and "n \<le> nat (k * 4 - k * 4 div 3)"
  shows "(int (m + 5 + n) + 3) div 4 \<le> k + 2"
proof -
  have "int m + int n \<le> k * 4" using assms by linarith
  then show ?thesis by simp
qed

lemma FitText_tokens: "EstimateTokens (FitText x overhead b) \<le> max 0 (Available b - overhead)"
proof -
  define a where "a = Available b - overhead"
  define k where "k = a - 2"
  let ?rs = "runes x"
  let ?head = "rev (dropWhile splitRune (rev (take (nat (k * 4 div 3)) ?rs)))"
  let ?tail = "dropWhile splitRune (drop (length ?rs - nat (k * 4 - k * 4 div 3)) ?rs)"
  have v: "list_all valid_rune ?head" "list_all valid_rune ?tail"
    using runes_valid [of x] by (auto simp: list_all_iff dest!: set_dropWhileD in_set_takeD in_set_dropD)
  have l: "length ?head \<le> nat (k * 4 div 3)" "length ?tail \<le> nat (k * 4 - k * 4 div 3)"
    by (auto intro: order_trans [OF length_dropWhile_le])
  define out where "out = string_of_runes ?head @ elision_marker @ string_of_runes ?tail"
  have cut: "EstimateTokens out \<le> a" if "0 < k"
    using cut_tokens [OF that l] unfolding out_def EstimateTokens_count FitText_cut [OF v] by (simp only: k_def)
  define fits where "fits \<longleftrightarrow> EstimateTokens x \<le> a"
  have small: "fits" if "int (length ?rs) \<le> k * 4"
    using that by (simp add: fits_def EstimateTokens_count RuneCountInString_def k_def)
  have "FitText x overhead b = (if a \<le> 0 then [] else if fits then x else if k \<le> 0 then []
     else if int (length ?rs) \<le> k * 4 then x else out)"
    by (simp only: FitText_def Let_def marker_tokens a_def [symmetric] k_def [symmetric] out_def fits_def add_diff_cancel
        diff_add_cancel add.commute [of "k * 4 div 3"])
  then have "FitText x overhead b = [] \<or> FitText x overhead b = x \<and> fits \<or> FitText x overhead b = out \<and> 0 < k"
    using small by (auto split: if_splits)
  then have "EstimateTokens (FitText x overhead b) \<le> 0 \<or> EstimateTokens (FitText x overhead b) \<le> a"
    using cut by (auto simp: fits_def EstimateTokens_def)
  then show ?thesis by (auto simp: a_def)
qed

text \<open>
  (C39) The prompt stays within the window: with a budget set, whatever the text, the estimate
  for the whole prompt (instructions, examples and the text that was let through) is at most
  what the budget leaves after its headroom, unless the instructions alone exceed that; and a
  text that fits is sent as it is.
\<close>

theorem prompt_fits_window:
  assumes "0 < MaxInputTokens budget"
  shows "EstimateTokens (extraction_prompt marshal builder budget text)
      \<le> max (Available budget) (EstimateTokens (Build marshal builder []))
    \<and> (EstimateTokens text + EstimateTokens (Build marshal builder []) \<le> Available budget \<and> text \<noteq> []
       \<longrightarrow> extraction_prompt marshal builder budget text = Build marshal builder text)"
proof -
  let ?o = "EstimateTokens (Build marshal builder [])" let ?x = "FitText text ?o budget"
  have "EstimateTokens (extraction_prompt marshal builder budget text) \<le> ?o + EstimateTokens ?x"
    using assms Build_tokens [of marshal builder ?x] by (simp add: extraction_prompt_def)
  then have "EstimateTokens (extraction_prompt marshal builder budget text) \<le> max (Available budget) ?o"
    using FitText_tokens [of "text" ?o budget] by linarith
  moreover have "?x = text" if "EstimateTokens text + ?o \<le> Available budget" "text \<noteq> []"
  proof -
    have "0 < EstimateTokens text"
      using that(2) by (cases "text") (auto simp: EstimateTokens_count RuneCountInString_def runes.simps split: prod.split)
    then show ?thesis using that(1) by (simp add: FitText_def Let_def)
  qed
  ultimately show ?thesis using assms by (simp add: extraction_prompt_def)
qed

theorem prompt_fits_window_witness:
  "EstimateTokens (extraction_prompt (\<lambda>ds. Inr ''[]'') (NewPromptBuilder []) (BudgetFor ''openai'') ''ship it'')
     \<le> max (Available (BudgetFor ''openai'')) (EstimateTokens (Build (\<lambda>ds. Inr ''[]'') (NewPromptBuilder []) []))"
  by (rule conjunct1 [OF prompt_fits_window]) (simp add: BudgetFor_def DefaultBudgets_def)


section \<open>Routing\<close>

interpretation by_label: slice_less "\<lambda>_. True" label_less
  by unfold_locales (auto simp: label_less_def dest: string_less_asym string_less_neg_trans)

lemma sort_variants_perm:
  assumes "mset vs = mset ws" and "distinct (map pv_Label vs)"
  shows "sort_slice label_less vs = sort_slice label_less ws"
proof (rule by_label.inorder_unique)
  show "\<forall>a \<in> set (sort_slice label_less vs). \<forall>b \<in> set (sort_slice label_less vs).
      \<not> label_less a b \<and> \<not> label_less b a \<longrightarrow> a = b"
    using assms(2) string_less_total by (auto simp: distinct_map inj_on_def label_less_def)
qed (auto simp: assms(1) intro: by_label.inorder_sort_slice)

text \<open>The sum of the weights, while it does not overflow.\<close>

lemma total_weight_sum:
  assumes "\<forall>v \<in> set vs. 0 < pv_Weight v" and "sum_list (map pv_Weight vs) \<le> max_int64"
  shows "total_weight vs = sum_list (map pv_Weight vs)"
proof -
  have "foldl (\<lambda>t v. wrap64 (t + pv_Weight v)) t vs = t + sum_list (map pv_Weight vs)"
    if "0 \<le> t" "t + sum_list (map pv_Weight vs) \<le> max_int64" "\<forall>v \<in> set vs. 0 < pv_Weight v" for t
    using that
  proof (induction vs arbitrary: t)
    case (Cons v vs)
    have "0 \<le> sum_list (map pv_Weight vs)" using Cons.prems(3) by (intro sum_list_nonneg) auto
    then have "wrap64 (t + pv_Weight v) = t + pv_Weight v"
      using Cons.prems by (intro wrap64_id) (auto simp: min_int64_def)
    then show ?case using Cons by simp
  qed simp
  then show ?thesis using assms by (simp add: total_weight_def)
qed

lemma pick_bucket_in: "vs \<noteq> [] \<Longrightarrow> \<exists>v \<in> set vs. pick_bucket vs b = Some v"
proof (induction vs arbitrary: b)
  case (Cons v vs)
  then show ?case by (cases "vs = []") (auto split: option.split, (metis option.distinct(1) option.inject)+)
qed simp

text \<open>Every variant owns as many buckets as its weight.\<close>

lemma bucket_share:
  assumes "distinct vs" and "\<forall>v \<in> set vs. 0 < pv_Weight v" and "v \<in> set vs"
  shows "card {b. 0 \<le> b \<and> b < sum_list (map pv_Weight vs) \<and> pick_bucket vs b = Some v} = nat (pv_Weight v)"
  using assms
proof (induction vs)
  case (Cons u vs)
  let ?S = "{b. 0 \<le> b \<and> b < sum_list (map pv_Weight vs) \<and> pick_bucket vs b = Some v}"
  let ?T = "{b. 0 \<le> b \<and> b < sum_list (map pv_Weight (u # vs)) \<and> pick_bucket (u # vs) b = Some v}"
  have u: "0 < pv_Weight u" and s: "0 \<le> sum_list (map pv_Weight vs)"
    using Cons.prems(2) by (auto intro!: sum_list_nonneg simp: less_imp_le)
  have skip: "pick_bucket (u # vs) b = pick_bucket vs (b - pv_Weight u)"
    if "pv_Weight u \<le> b" "b < sum_list (map pv_Weight (u # vs))" for b
  proof -
    have "vs \<noteq> []" using that by auto
    then show ?thesis using that(1) pick_bucket_in [of vs "b - pv_Weight u"] by (auto split: option.split)
  qed
  show ?case
  proof (cases "v = u")
    case True
    have "b < pv_Weight u" if "b \<in> ?T" for b
    proof (rule ccontr)
      assume "\<not> b < pv_Weight u"
      then have "vs \<noteq> []" "pick_bucket vs (b - pv_Weight u) = Some u" using that skip [of b] True by auto
      then show False using pick_bucket_in [of vs "b - pv_Weight u"] Cons.prems(1) by auto
    qed
    then have "?T \<subseteq> {0..<pv_Weight u}" by (simp only: subset_iff atLeastLessThan_iff mem_Collect_eq) blast
    moreover have "{0..<pv_Weight u} \<subseteq> ?T" using True s by auto
    ultimately have "?T = {0..<pv_Weight u}" by (rule equalityI)
    then show ?thesis using True by simp
  next
    case False
    have "?T = (\<lambda>b. b + pv_Weight u) ` ?S"
    proof (intro set_eqI iffI)
      fix b assume b: "b \<in> ?T"
      then have "pv_Weight u \<le> b" using False by (auto split: if_splits)
      then have "b - pv_Weight u \<in> ?S" using b skip by auto
      then show "b \<in> (\<lambda>b. b + pv_Weight u) ` ?S" by (intro image_eqI [of _ _ "b - pv_Weight u"]) auto
    qed (use u skip in \<open>auto simp del: pick_bucket.simps\<close>)
    then have "card ?T = card ?S" by (simp add: card_image)
    then show ?thesis using Cons False by simp
  qed
qed simp

lemma kept_variants_labels: "map pv_Label (kept_variants vs) = map pv_Label (filter (\<lambda>v. 0 < pv_Weight v) vs)"
  by (simp add: kept_variants_def o_def split: option.split)

lemma kept_variants_weights:
  "map pv_Weight (kept_variants vs) = map pv_Weight (filter (\<lambda>v. 0 < pv_Weight v) vs)"
  "\<forall>v \<in> set (kept_variants vs). 0 < pv_Weight v"
  by (auto simp: kept_variants_def o_def split: option.split)

lemma sum_list_mset: "mset xs = mset ys \<Longrightarrow> sum_list xs = sum_list (ys :: int list)"
  by (metis sum_mset_sum_list)

text \<open>
  (C40) The router is fair, sticky and independent of the order of its variants. When the
  variants of positive weight have distinct labels and their weights add up without
  overflow, then the same variants given in any order make the same router; every owner gets a
  variant of the router, the one of the bucket that is the FNV hash of the owner modulo the
  total weight; and of the buckets each variant has exactly as many as its weight.
\<close>

theorem ab_router_shares:
  assumes "SetVariants vs r = Inr r'" and "mset vs' = mset vs"
    and "distinct (map pv_Label (filter (\<lambda>v. 0 < pv_Weight v) vs))"
    and "sum_list (map pv_Weight (filter (\<lambda>v. 0 < pv_Weight v) vs)) \<le> max_int64"
  shows "SetVariants vs' r = Inr r'
    \<and> (\<exists>v \<in> set (ab_variants r'). pick r' owner = Some v)
    \<and> pick r' owner = pick_bucket (ab_variants r') (uint (fnv64a owner) mod ab_total r')
    \<and> (\<forall>v \<in> set (ab_variants r').
         card {b. 0 \<le> b \<and> b < ab_total r' \<and> pick_bucket (ab_variants r') b = Some v} = nat (pv_Weight v))"
proof -
  let ?k = "kept_variants vs" let ?s = "sum_list (map pv_Weight ?k)"
  have k: "ab_variants r' = sort_slice label_less ?k" "ab_total r' = total_weight ?k" "total_weight ?k \<noteq> 0"
    using assms(1) by (auto simp: SetVariants_def Let_def split: if_splits)
  have le: "?s \<le> max_int64" using assms(4) by (simp add: kept_variants_weights)
  have tot: "total_weight ?k = ?s" using kept_variants_weights(2) le by (rule total_weight_sum)
  have pos: "0 < ?s"
    using k(3) tot sum_list_nonneg [of "map pv_Weight ?k"] kept_variants_weights(2) [of vs] by fastforce
  have ms: "mset (kept_variants vs') = mset ?k" by (simp add: kept_variants_def assms(2))
  have "total_weight (kept_variants vs') = ?s"
    using total_weight_sum [OF kept_variants_weights(2), of vs'] le sum_list_mset [of "map pv_Weight (kept_variants vs')" "map pv_Weight ?k"]
    by (simp add: ms)
  moreover have "sort_slice label_less (kept_variants vs') = sort_slice label_less ?k"
    using sort_variants_perm [of ?k "kept_variants vs'"] ms assms(3) by (simp add: kept_variants_labels)
  ultimately have perm: "SetVariants vs' r = Inr r'"
    using assms(1,2) tot by (auto simp: SetVariants_def Let_def split: if_splits)
  have n: "ab_variants r' \<noteq> []" using pos by (auto simp: k(1) dest: arg_cong [of _ _ mset])
  have "ab_total r' mod 2 ^ 64 = ab_total r'" using pos le by (simp add: k tot max_int64_def)
  moreover have "wrap64 (uint (fnv64a owner) mod ab_total r') = uint (fnv64a owner) mod ab_total r'"
  proof (rule wrap64_id)
    have t: "0 < ab_total r'" "ab_total r' \<le> max_int64" using pos le by (simp_all add: k tot)
    have "0 \<le> uint (fnv64a owner) mod ab_total r'" "uint (fnv64a owner) mod ab_total r' < ab_total r'"
      using t(1) by simp_all
    then show "min_int64 \<le> uint (fnv64a owner) mod ab_total r'" "uint (fnv64a owner) mod ab_total r' \<le> max_int64"
      using t(2) by (simp_all add: min_int64_def)
  qed
  moreover have "pick_bucket (ab_variants r') b = Some (hd (ab_variants r'))" if "length (ab_variants r') = 1" for b
    using that by (cases "ab_variants r'") auto
  ultimately have pick: "pick r' owner = pick_bucket (ab_variants r') (uint (fnv64a owner) mod ab_total r')"
    by (simp add: pick_def)
  have "distinct (sort_slice label_less ?k)"
    using assms(3) by (metis distinct_map kept_variants_labels mset_eq_imp_distinct_iff mset_sort_slice)
  moreover have "sum_list (map pv_Weight (sort_slice label_less ?k)) = ?s" by (rule sum_list_mset) simp
  ultimately show ?thesis
    using perm pick pick_bucket_in [OF n] bucket_share [of "sort_slice label_less ?k"] kept_variants_weights(2)
    by (auto simp: k tot)
qed

definition sample_variants :: "PromptVariant list" where
  "sample_variants = [\<lparr>pv_Label = ''b'', pv_Weight = 3, pv_Builder = None\<rparr>, \<lparr>pv_Label = ''a'', pv_Weight = 1, pv_Builder = None\<rparr>,
     \<lparr>pv_Label = ''off'', pv_Weight = 0, pv_Builder = None\<rparr>]"

theorem ab_router_shares_witness:
  "\<exists>r r'. SetVariants sample_variants r = Inr r' \<and> SetVariants (rev sample_variants) r = Inr r' \<and>
     (\<exists>v \<in> set (ab_variants r'). pick r' ''owner'' = Some v)"
proof -
  let ?r = "\<lparr>ab_provider = (\<lambda>p. Inr []), ab_budget = BudgetFor [], ab_variants = [], ab_total = 0, ab_lastLabel = []\<rparr>"
  obtain r' where r': "SetVariants sample_variants ?r = Inr r'"
    by (simp add: SetVariants_def sample_variants_def kept_variants_def total_weight_def wrap64_def)
  have "mset (rev sample_variants) = mset sample_variants"
    "distinct (map pv_Label (filter (\<lambda>v. 0 < pv_Weight v) sample_variants))"
    "sum_list (map pv_Weight (filter (\<lambda>v. 0 < pv_Weight v) sample_variants)) \<le> max_int64"
    by (simp_all add: sample_variants_def max_int64_def)
  from ab_router_shares [OF r' this, of "''owner''"] r' show ?thesis by blast
qed

end
