(* ===== verification/Llm_Parse.thy ===== *)
theory Llm_Parse
  imports Go_Time_Parse Llm_Context
begin

text \<open>
  \<^verbatim>\<open>internal/llm/parse.go\<close>: reading the drafts out of the reply of a language model.
\<close>

section \<open>Finding the array\<close>

text \<open>The last occurrence of a substring.\<close>

definition LastIndex :: "string \<Rightarrow> string \<Rightarrow> nat option" where
  "LastIndex s sub = find (\<lambda>j. starts_with sub (drop j s)) (rev [0..<Suc (length s)])"

definition fence :: string where
  "fence = [CHR 0x60, CHR 0x60, CHR 0x60]"

definition stripCodeFences :: "string \<Rightarrow> string" where
  "stripCodeFences s =
    (if \<not> starts_with fence s then s
     else
      (let s = (if CHR 0x0A \<in> set s then drop 1 (dropWhile (\<lambda>c. c \<noteq> CHR 0x0A) s) else s);
           s = (case LastIndex s fence of Some j \<Rightarrow> take j s | None \<Rightarrow> s)
       in TrimSpace s))"

text \<open>The text up to the bracket that closes the first one; strings are not recognised.\<close>

fun match_bracket :: "nat \<Rightarrow> string \<Rightarrow> string option" where
  "match_bracket depth [] = None"
| "match_bracket depth (c # s) =
    (if c = CHR ''['' then map_option ((#) c) (match_bracket (Suc depth) s)
     else if c = CHR '']'' then if depth = 1 then Some [c] else map_option ((#) c) (match_bracket (depth - 1) s)
     else map_option ((#) c) (match_bracket depth s))"

definition trimToFirstArray :: "string \<Rightarrow> string" where
  "trimToFirstArray s =
    (let s = dropWhile (\<lambda>c. c \<noteq> CHR ''['') s in
     if s = [] then [] else case match_bracket 0 s of Some a \<Rightarrow> a | None \<Rightarrow> s)"


section \<open>The drafts\<close>

record rawEntity =
  re_Kind :: string
  re_Name :: string

record rawDraft =
  rd_Description :: string
  rd_DueAt :: "string option"
  rd_Confidence :: float64
  rd_Entities :: "rawEntity list"

definition decode_rawEntity :: "json \<Rightarrow> rawEntity \<times> bool" where
  "decode_rawEntity v = (case v of
       JObject ms \<Rightarrow> (case (string_field ''kind'' ms, string_field ''name'' ms) of
          ((k, ok1), (n, ok2)) \<Rightarrow> (\<lparr>re_Kind = k, re_Name = n\<rparr>, ok1 \<and> ok2))
     | JNull \<Rightarrow> (\<lparr>re_Kind = [], re_Name = []\<rparr>, True)
     | _ \<Rightarrow> (\<lparr>re_Kind = [], re_Name = []\<rparr>, False))"

definition decode_rawDraft :: "json \<Rightarrow> rawDraft \<times> bool" where
  "decode_rawDraft v = (case v of
       JObject ms \<Rightarrow>
         (case (string_field ''description'' ms, string_ptr_field ''due_at'' ms, float_field ''confidence'' ms,
                list_field decode_rawEntity ''entities'' ms) of
            ((d, ok1), (t, ok2), (c, ok3), (es, ok4)) \<Rightarrow>
              (\<lparr>rd_Description = d, rd_DueAt = t, rd_Confidence = c, rd_Entities = es\<rparr>, ok1 \<and> ok2 \<and> ok3 \<and> ok4))
     | JNull \<Rightarrow> (\<lparr>rd_Description = [], rd_DueAt = None, rd_Confidence = 0, rd_Entities = []\<rparr>, True)
     | _ \<Rightarrow> (\<lparr>rd_Description = [], rd_DueAt = None, rd_Confidence = 0, rd_Entities = []\<rparr>, False))"

definition parseFlexibleTime :: "string \<Rightarrow> time option" where
  "parseFlexibleTime s =
    (case time_Parse LayoutRFC3339 s of Some t \<Rightarrow> Some t | None \<Rightarrow>
    (case time_Parse LayoutT s of Some t \<Rightarrow> Some t | None \<Rightarrow>
    (case time_Parse LayoutBlank s of Some t \<Rightarrow> Some t | None \<Rightarrow> time_Parse LayoutDate s)))"

definition clamp01 :: "float64 \<Rightarrow> float64" where
  "clamp01 v = (if v < 0 then 0 else if 1 < v then 1 else v)"

definition entities_of_raw :: "rawEntity list \<Rightarrow> EntityRef list" where
  "entities_of_raw es = map (\<lambda>e. \<lparr>er_Kind = TrimSpace (re_Kind e), er_Name = TrimSpace (re_Name e), er_ID = []\<rparr>)
     (filter (\<lambda>e. TrimSpace (re_Kind e) \<noteq> [] \<and> TrimSpace (re_Name e) \<noteq> []) es)"

definition draft_of_raw :: "rawDraft \<Rightarrow> CommitmentDraft" where
  "draft_of_raw r =
     \<lparr>cd_OwnerID = [], cd_Description = TrimSpace (rd_Description r),
      cd_DueAt = (case rd_DueAt r of None \<Rightarrow> None
        | Some s \<Rightarrow> if s = [] then None else map_option time_UTC (parseFlexibleTime s)),
      cd_Entities = entities_of_raw (rd_Entities r), cd_SourceRefs = [],
      cd_Confidence = clamp01 (rd_Confidence r)\<rparr>"

text \<open>The text of a decoding error is the argument \<open>why\<close>.\<close>

definition parseDrafts :: "(string \<Rightarrow> error) \<Rightarrow> string \<Rightarrow> error + CommitmentDraft list" where
  "parseDrafts why reply =
    (let cleaned = trimToFirstArray (stripCodeFences (TrimSpace reply)) in
     if cleaned = [] \<or> cleaned = ''[]'' then Inr []
     else case map_option (decode_list decode_rawDraft) (json_Unmarshal cleaned) of
       Some (raws, True) \<Rightarrow> Inr (map draft_of_raw (filter (\<lambda>r. TrimSpace (rd_Description r) \<noteq> []) raws))
     | _ \<Rightarrow> Inl (ErrWrap ''llm: parse drafts'' (why cleaned)))"


section \<open>Properties\<close>

lemma float_field_finite: "\<exists>x. fst (float_field name ms) = Fin x"
proof -
  let ?f = "\<lambda>(x, ok) v. case v of JNumber n \<Rightarrow> (case float_of_number n of Some y \<Rightarrow> (y, ok) | None \<Rightarrow> (x, False))
     | JNull \<Rightarrow> (x, ok) | _ \<Rightarrow> (x, False)"
  have "\<exists>x. fst (foldl ?f acc vs) = Fin x" if "\<exists>x. fst acc = Fin x" for acc and vs :: "json list"
    using that
  proof (induction vs arbitrary: acc)
    case (Cons v vs)
    obtain x ok where acc: "acc = (Fin x, ok)" using Cons.prems by (cases acc) auto
    have "\<exists>x. fst (?f acc v) = Fin x"
      by (auto simp: acc float_of_number_def split: json.split option.split float64.splits)
    then show ?case using Cons.IH by simp
  qed simp
  then show ?thesis by (simp add: float_field_def zero_float64_def)
qed

lemma decode_rawDraft_finite: "\<exists>x. rd_Confidence (fst (decode_rawDraft v)) = Fin x"
proof (cases v)
  case (JObject ms)
  then show ?thesis
    using float_field_finite [of "''confidence''" ms] by (auto simp: decode_rawDraft_def split: prod.splits)
qed (auto simp: decode_rawDraft_def zero_float64_def)

lemma clamp01_unit: "\<not> out_of_unit (clamp01 (Fin x))" "clamp01 (Fin x) \<noteq> NaN"
  by (auto simp: clamp01_def out_of_unit_def zero_float64_def one_float64_def)

lemma parseDrafts_drafts:
  assumes "parseDrafts why reply = Inr ds" and "d \<in> set ds"
  shows "cd_Description d \<noteq> [] \<and> TrimSpace (cd_Description d) = cd_Description d
    \<and> \<not> out_of_unit (cd_Confidence d) \<and> cd_Confidence d \<noteq> NaN \<and> cd_OwnerID d = [] \<and> cd_SourceRefs d = []"
proof -
  obtain v where "d = draft_of_raw (fst (decode_rawDraft v))" "TrimSpace (rd_Description (fst (decode_rawDraft v))) \<noteq> []"
    using assms
    by (auto simp: parseDrafts_def decode_list_def Let_def split: if_splits option.splits json.splits bool.splits)
  then show ?thesis
    using decode_rawDraft_finite [of v] clamp01_unit by (auto simp: draft_of_raw_def)
qed

text \<open>
  What the parser lets through is fit to be stored: whatever the model replied, when the
  reply is read, each draft has a description that is trimmed and not empty and a confidence
  that is a number in [0,1]; so for an owner that is not blank and a fresh identifier its
  promotion succeeds and gives a valid commitment with that confidence.
\<close>

lemma llm_drafts_promote:
  assumes "parseDrafts why reply = Inr ds" and "d \<in> set ds" and "TrimSpace owner \<noteq> []" and "newID \<noteq> uuid_Nil"
  shows "\<exists>c. CommitmentDraft_ToCommitment newID (d\<lparr>cd_OwnerID := owner\<rparr>) now = Inr c
    \<and> Commitment_Validate c = None \<and> c_Description c = cd_Description d
    \<and> 0 \<le> c_Confidence c \<and> c_Confidence c \<le> 1"
proof -
  note d = parseDrafts_drafts [OF assms(1,2)]
  then obtain c where c: "CommitmentDraft_ToCommitment newID (d\<lparr>cd_OwnerID := owner\<rparr>) now = Inr c"
    using assms(3,4) by (simp add: ToCommitment_Inr)
  then have "c_Confidence c = cd_Confidence d" "c_Description c = cd_Description d"
    using d by (auto simp: ToCommitment_Inr)
  then show ?thesis using c ToCommitment_valid [OF c] d by (auto simp: out_of_unit_iff)
qed

text \<open>A reply with one commitment.\<close>

definition quoted :: "string \<Rightarrow> string" where
  "quoted s = [CHR 0x22] @ s @ [CHR 0x22]"

definition reply_with :: "string \<Rightarrow> string" where
  "reply_with desc = ''[{'' @ quoted ''description'' @ '':'' @ quoted desc @ ''}]''"

lemma trim_plain: "TrimSpace ''ship'' = ''ship''" "TrimSpace (reply_with s) = reply_with s"
proof -
  show "TrimSpace ''ship'' = ''ship''" by (simp add: TrimSpace_def trim_seqs_fix space_seqs_def starts_with_def)
  show "TrimSpace (reply_with s) = reply_with s"
    by (simp add: TrimSpace_def reply_with_def quoted_def trim_seqs_fix space_seqs_def starts_with_def)
qed

lemma clean_reply: "trimToFirstArray (stripCodeFences (reply_with ''ship'')) = reply_with ''ship''"
  by (simp add: stripCodeFences_def fence_def starts_with_def trimToFirstArray_def)
     (simp add: reply_with_def quoted_def)

lemma sample_reply_read:
  "json_Unmarshal (reply_with ''ship'') = Some (JArray [JObject [(''description'', JString ''ship'')]])"
  by (simp add: json_Unmarshal_def reply_with_def quoted_def parse_eval numeral_eq_Suc)

lemma sample_parse:
  "parseDrafts why (reply_with ''ship'') = Inr [\<lparr>cd_OwnerID = [], cd_Description = ''ship'', cd_DueAt = None, cd_Entities = [],
     cd_SourceRefs = [], cd_Confidence = 0\<rparr>]"
proof -
  have ne: "reply_with ''ship'' \<noteq> []" "reply_with ''ship'' \<noteq> ''[]''" by (simp_all add: reply_with_def)
  have "decode_list decode_rawDraft (JArray [JObject [(''description'', JString ''ship'')]]) =
      ([\<lparr>rd_Description = ''ship'', rd_DueAt = None, rd_Confidence = 0, rd_Entities = []\<rparr>], True)"
    by (simp add: decode_list_def decode_rawDraft_def string_field_def string_ptr_field_def float_field_def list_field_def
        field_values_def starts_with_def)
  then show ?thesis
    by (simp add: parseDrafts_def trim_plain clean_reply sample_reply_read ne Let_def draft_of_raw_def entities_of_raw_def clamp01_def)
qed

text \<open>
  A closing bracket inside a description ends the array too early: a well-formed reply
  with such a description is refused.
\<close>

lemma bracket_in_description_refused:
  "json_Unmarshal (reply_with ''a]'') = Some (JArray [JObject [(''description'', JString ''a]'')]])"
  "parseDrafts why (reply_with ''a]'') = Inl (ErrWrap ''llm: parse drafts'' (why (take 19 (reply_with ''a]''))))"
proof -
  show "json_Unmarshal (reply_with ''a]'') = Some (JArray [JObject [(''description'', JString ''a]'')]])"
    by (simp add: json_Unmarshal_def reply_with_def quoted_def parse_eval numeral_eq_Suc)
  have clean: "trimToFirstArray (stripCodeFences (reply_with ''a]'')) = take 19 (reply_with ''a]'')"
    by (simp add: stripCodeFences_def fence_def starts_with_def trimToFirstArray_def)
       (simp add: reply_with_def quoted_def numeral_eq_Suc)
  have "json_Unmarshal (take 19 (reply_with ''a]'')) = None"
    by (simp add: json_Unmarshal_def reply_with_def quoted_def parse_eval numeral_eq_Suc)
  then show "parseDrafts why (reply_with ''a]'') = Inl (ErrWrap ''llm: parse drafts'' (why (take 19 (reply_with ''a]''))))"
    by (simp add: parseDrafts_def trim_plain clean) (simp add: reply_with_def quoted_def)
qed

end
