(* ===== verification/Llm_Providers.thy ===== *)
theory Llm_Providers
  imports Llm_Parse
begin

text \<open>
  The clients of the model providers: \<^verbatim>\<open>anthropic.go\<close>, \<^verbatim>\<open>openai.go\<close>,
  \<^verbatim>\<open>gemini.go\<close> and \<^verbatim>\<open>bedrock.go\<close> of \<^verbatim>\<open>internal/llm\<close>. A request is its URL,
  its headers and the JSON value of its body (marshalling these structs of texts and finite
  numbers cannot fail). The HTTP client is an argument: the check of a URL by
  \<^verbatim>\<open>http.NewRequest\<close>, and the answer to a request, which is a transport error or a status
  with a body that may fail to be read. The AWS client is one too: loading the credentials
  and invoking a model. As in the parser, the text of a decoding error is the argument \<open>why\<close>.
\<close>

record http_message =
  hm_URL :: string
  hm_Header :: "(string \<times> string) list"
  hm_Body :: json

record http_client =
  NewRequest :: "string \<Rightarrow> error option"
  Do :: "http_message \<Rightarrow> error + int \<times> (error + string)"

text \<open>Decoding into a struct field: its members add up when the key is repeated; and into a pointer to a struct.\<close>

definition struct_field :: "string \<Rightarrow> (string \<times> json) list \<Rightarrow> (string \<times> json) list \<times> bool" where
  "struct_field name ms = foldl (\<lambda>(m, ok) v. case v of JObject ms \<Rightarrow> (m @ ms, ok) | JNull \<Rightarrow> (m, ok) | _ \<Rightarrow> (m, False))
     ([], True) (field_values name ms)"

definition struct_ptr_field :: "string \<Rightarrow> (string \<times> json) list \<Rightarrow> (string \<times> json) list option \<times> bool" where
  "struct_ptr_field name ms = foldl (\<lambda>(p, ok) v. let m = (case p of None \<Rightarrow> [] | Some m \<Rightarrow> m) in
       case v of JObject ms \<Rightarrow> (Some (m @ ms), ok) | JNull \<Rightarrow> (None, ok) | _ \<Rightarrow> (Some m, False))
     (None, True) (field_values name ms)"

definition members_of :: "json \<Rightarrow> (string \<times> json) list \<times> bool" where
  "members_of v = (case v of JObject ms \<Rightarrow> (ms, True) | JNull \<Rightarrow> ([], True) | _ \<Rightarrow> ([], False))"

text \<open>
  Sending a request and reading the answer, the same steps in the three HTTP clients;
  \<open>api_error\<close> is the text of an error the service reports.
\<close>

definition round_trip ::
  "http_client \<Rightarrow> string \<Rightarrow> (string \<Rightarrow> string option) \<Rightarrow> http_message \<Rightarrow> error + string" where
  "round_trip client name api_error req = (case NewRequest client (hm_URL req) of
       Some err \<Rightarrow> Inl (ErrWrap (name @ '': build request'') err)
     | None \<Rightarrow> (case Do client req of
         Inl err \<Rightarrow> Inl (ErrWrap (name @ '': do request'') err)
       | Inr (status, Inl err) \<Rightarrow> Inl (ErrWrap (name @ '': read response'') err)
       | Inr (status, Inr raw) \<Rightarrow>
          if status < 200 \<or> 300 \<le> status then
            (case api_error raw of
               Some text \<Rightarrow> Inl (ErrPlain (name @ '': '' @ fmt_d status @ '' '' @ text))
             | None \<Rightarrow> Inl (ErrPlain (name @ '': '' @ fmt_d status @ '': '' @ raw)))
          else Inr raw))"


section \<open>Anthropic\<close>

record AnthropicProvider =
  ap_apiKey :: string
  ap_model :: string
  ap_client :: http_client
  ap_baseURL :: string

definition WithAnthropicHTTPClient :: "http_client \<Rightarrow> AnthropicProvider \<Rightarrow> AnthropicProvider" where
  "WithAnthropicHTTPClient c p = p\<lparr>ap_client := c\<rparr>"

definition WithAnthropicBaseURL :: "string \<Rightarrow> AnthropicProvider \<Rightarrow> AnthropicProvider" where
  "WithAnthropicBaseURL u p = p\<lparr>ap_baseURL := u\<rparr>"

definition NewAnthropicProvider ::
  "http_client \<Rightarrow> string \<Rightarrow> string \<Rightarrow> (AnthropicProvider \<Rightarrow> AnthropicProvider) list \<Rightarrow> AnthropicProvider" where
  "NewAnthropicProvider defaultHTTPClient apiKey model opts = foldl (\<lambda>p f. f p)
     \<lparr>ap_apiKey = apiKey, ap_model = (if model = [] then ''claude-opus-4-7'' else model), ap_client = defaultHTTPClient,
      ap_baseURL = ''https://api.anthropic.com''\<rparr> opts"

definition user_message :: "string \<Rightarrow> json" where
  "user_message content = JObject [(''role'', JString ''user''), (''content'', JString content)]"

definition anthropic_message :: "AnthropicProvider \<Rightarrow> string \<Rightarrow> http_message" where
  "anthropic_message p prompt =
     \<lparr>hm_URL = ap_baseURL p @ ''/v1/messages'',
      hm_Header = [(''Content-Type'', ''application/json''), (''x-api-key'', ap_apiKey p), (''anthropic-version'', ''2023-06-01'')],
      hm_Body = JObject [(''model'', JString (ap_model p)), (''max_tokens'', JNumber ''1024''),
        (''messages'', JArray [user_message prompt])]\<rparr>"

definition decode_block :: "json \<Rightarrow> (string \<times> string) \<times> bool" where
  "decode_block v = (case members_of v of (ms, ok) \<Rightarrow> (case (string_field ''type'' ms, string_field ''text'' ms) of
     ((t, ok1), (x, ok2)) \<Rightarrow> ((t, x), ok \<and> ok1 \<and> ok2)))"

text \<open>The blocks and the error of a response, and whether it was decoded without a type error.\<close>

definition decode_error :: "string \<Rightarrow> string \<Rightarrow> (string \<times> json) list \<Rightarrow> (string \<times> string) \<times> bool" where
  "decode_error f g ms = (case (string_field f ms, string_field g ms) of ((a, ok1), (b, ok2)) \<Rightarrow> ((a, b), ok1 \<and> ok2))"

definition anthropicMessagesResponse ::
  "json \<Rightarrow> ((string \<times> string) list \<times> (string \<times> string) option) \<times> bool" where
  "anthropicMessagesResponse v = (case members_of v of (ms, ok) \<Rightarrow>
     (case (list_field decode_block ''content'' ms, string_field ''stop_reason'' ms, struct_ptr_field ''error'' ms) of
        ((blocks, ok1), (sr, ok2), (e, ok3)) \<Rightarrow>
          ((blocks, map_option (\<lambda>m. fst (decode_error ''type'' ''message'' m)) e),
           ok \<and> ok1 \<and> ok2 \<and> ok3 \<and> (case e of None \<Rightarrow> True | Some m \<Rightarrow> snd (decode_error ''type'' ''message'' m)))))"

definition anthropic_api_error :: "string \<Rightarrow> string option" where
  "anthropic_api_error raw = (case json_Unmarshal raw of None \<Rightarrow> None
     | Some v \<Rightarrow> map_option (\<lambda>(t, msg). t @ '': '' @ msg) (snd (fst (anthropicMessagesResponse v))))"

definition block_text :: "(string \<times> string) list \<Rightarrow> string" where
  "block_text blocks = concat (map snd (filter (\<lambda>b. fst b = ''text'') blocks))"

definition Anthropic_ExtractCommitments :: "(string \<Rightarrow> error) \<Rightarrow> AnthropicProvider \<Rightarrow> Provider" where
  "Anthropic_ExtractCommitments why p prompt =
    (if ap_apiKey p = [] then Inl (ErrPlain ''anthropic: api key required'')
     else case round_trip (ap_client p) ''anthropic'' anthropic_api_error (anthropic_message p prompt) of
       Inl err \<Rightarrow> Inl err
     | Inr raw \<Rightarrow> (case map_option anthropicMessagesResponse (json_Unmarshal raw) of
          Some ((blocks, e), True) \<Rightarrow> (if block_text blocks = [] then Inr [] else parseDrafts why (block_text blocks))
        | _ \<Rightarrow> Inl (ErrWrap ''anthropic: decode response'' (why raw))))"


section \<open>OpenAI\<close>

record OpenAIProvider =
  op_apiKey :: string
  op_model :: string
  op_client :: http_client
  op_baseURL :: string

definition WithOpenAIHTTPClient :: "http_client \<Rightarrow> OpenAIProvider \<Rightarrow> OpenAIProvider" where
  "WithOpenAIHTTPClient c p = p\<lparr>op_client := c\<rparr>"

definition WithOpenAIBaseURL :: "string \<Rightarrow> OpenAIProvider \<Rightarrow> OpenAIProvider" where
  "WithOpenAIBaseURL u p = p\<lparr>op_baseURL := u\<rparr>"

definition NewOpenAIProvider ::
  "http_client \<Rightarrow> string \<Rightarrow> string \<Rightarrow> (OpenAIProvider \<Rightarrow> OpenAIProvider) list \<Rightarrow> OpenAIProvider" where
  "NewOpenAIProvider defaultHTTPClient apiKey model opts = foldl (\<lambda>p f. f p)
     \<lparr>op_apiKey = apiKey, op_model = (if model = [] then ''gpt-4o-mini'' else model), op_client = defaultHTTPClient,
      op_baseURL = ''https://api.openai.com''\<rparr> opts"

definition openai_suffix :: string where
  "openai_suffix = [CHR 0x0A, CHR 0x0A] @ ''Return only a JSON object with a single key '' @ [CHR 0x22] @ ''commitments'' @ [CHR 0x22] @
     '' mapping to the array described above.''"

definition openai_message :: "OpenAIProvider \<Rightarrow> string \<Rightarrow> http_message" where
  "openai_message p prompt =
     \<lparr>hm_URL = op_baseURL p @ ''/v1/chat/completions'',
      hm_Header = [(''Content-Type'', ''application/json''), (''Authorization'', ''Bearer '' @ op_apiKey p)],
      hm_Body = JObject [(''model'', JString (op_model p)), (''messages'', JArray [user_message (prompt @ openai_suffix)]),
        (''response_format'', JObject [(''type'', JString ''json_object'')]), (''temperature'', JNumber ''0'')]\<rparr>"

text \<open>The contents of the choices and the error of a response.\<close>

definition decode_choice :: "json \<Rightarrow> string \<times> bool" where
  "decode_choice v = (case members_of v of (ms, ok) \<Rightarrow> (case struct_field ''message'' ms of (m, ok1) \<Rightarrow>
     (case (string_field ''role'' m, string_field ''content'' m) of ((r, ok2), (c, ok3)) \<Rightarrow> (c, ok \<and> ok1 \<and> ok2 \<and> ok3))))"

definition openaiChatResponse :: "json \<Rightarrow> (string list \<times> (string \<times> string) option) \<times> bool" where
  "openaiChatResponse v = (case members_of v of (ms, ok) \<Rightarrow>
     (case (list_field decode_choice ''choices'' ms, struct_ptr_field ''error'' ms) of
        ((cs, ok1), (e, ok2)) \<Rightarrow>
          ((cs, map_option (\<lambda>m. fst (decode_error ''type'' ''message'' m)) e),
           ok \<and> ok1 \<and> ok2 \<and> (case e of None \<Rightarrow> True
             | Some m \<Rightarrow> snd (decode_error ''type'' ''message'' m) \<and> snd (string_field ''code'' m)))))"

definition openai_api_error :: "string \<Rightarrow> string option" where
  "openai_api_error raw = (case json_Unmarshal raw of None \<Rightarrow> None
     | Some v \<Rightarrow> map_option (\<lambda>(t, msg). t @ '': '' @ msg) (snd (fst (openaiChatResponse v))))"

text \<open>
  The text of the last member with a given name of an object: \<^verbatim>\<open>json.RawMessage\<close> keeps
  the bytes of the value. The argument is the text after the opening brace.
\<close>

fun raw_members :: "nat \<Rightarrow> string \<Rightarrow> (string \<times> string) list" where
  "raw_members 0 s = []"
| "raw_members (Suc n) s = (case skip_ws s of
       q # qs \<Rightarrow> (case parse_string qs of
          Some (key, r1) \<Rightarrow> (case skip_ws r1 of
             c # cs \<Rightarrow> (case parse_value (2 * length cs + 2) 1 cs of
                Some (v, r2) \<Rightarrow>
                  (let raw = take (length (skip_ws cs) - length r2) (skip_ws cs) in
                   (key, raw) # (case skip_ws r2 of e # es \<Rightarrow> if e = CHR '','' then raw_members n es else [] | [] \<Rightarrow> []))
              | None \<Rightarrow> [])
           | [] \<Rightarrow> [])
        | None \<Rightarrow> [])
     | [] \<Rightarrow> [])"

definition raw_field :: "string \<Rightarrow> string \<Rightarrow> string" where
  "raw_field name s =
    (let vs = map snd (filter (\<lambda>(k, v). fold_key k = fold_key name) (raw_members (length s) (tl (skip_ws s))))
     in if vs = [] then [] else last vs)"

definition openai_commitments :: "(string \<Rightarrow> error) \<Rightarrow> string \<Rightarrow> error + CommitmentDraft list" where
  "openai_commitments why content = (case parseDrafts why content of
       Inr (d # ds) \<Rightarrow> Inr (d # ds)
     | _ \<Rightarrow> (case json_Unmarshal content of
          Some (JObject ms) \<Rightarrow>
            (let raw = raw_field ''commitments'' content in if raw = [] then Inr [] else parseDrafts why raw)
        | Some JNull \<Rightarrow> Inr []
        | _ \<Rightarrow> Inl (ErrWrap ''openai: decode commitments'' (why content))))"

definition OpenAI_ExtractCommitments :: "(string \<Rightarrow> error) \<Rightarrow> OpenAIProvider \<Rightarrow> Provider" where
  "OpenAI_ExtractCommitments why p prompt =
    (if op_apiKey p = [] then Inl (ErrPlain ''openai: api key required'')
     else case round_trip (op_client p) ''openai'' openai_api_error (openai_message p prompt) of
       Inl err \<Rightarrow> Inl err
     | Inr raw \<Rightarrow> (case map_option openaiChatResponse (json_Unmarshal raw) of
          Some (([], e), True) \<Rightarrow> Inr []
        | Some ((content # _, e), True) \<Rightarrow> openai_commitments why content
        | _ \<Rightarrow> Inl (ErrWrap ''openai: decode response'' (why raw))))"


section \<open>Gemini\<close>

record GeminiProvider =
  gp_apiKey :: string
  gp_model :: string
  gp_client :: http_client
  gp_baseURL :: string

definition WithGeminiHTTPClient :: "http_client \<Rightarrow> GeminiProvider \<Rightarrow> GeminiProvider" where
  "WithGeminiHTTPClient c p = p\<lparr>gp_client := c\<rparr>"

definition WithGeminiBaseURL :: "string \<Rightarrow> GeminiProvider \<Rightarrow> GeminiProvider" where
  "WithGeminiBaseURL u p = p\<lparr>gp_baseURL := u\<rparr>"

definition NewGeminiProvider ::
  "http_client \<Rightarrow> string \<Rightarrow> string \<Rightarrow> (GeminiProvider \<Rightarrow> GeminiProvider) list \<Rightarrow> GeminiProvider" where
  "NewGeminiProvider defaultHTTPClient apiKey model opts = foldl (\<lambda>p f. f p)
     \<lparr>gp_apiKey = apiKey, gp_model = (if model = [] then ''gemini-2.5-flash'' else model), gp_client = defaultHTTPClient,
      gp_baseURL = ''https://generativelanguage.googleapis.com''\<rparr> opts"

text \<open>\<^verbatim>\<open>url.PathEscape\<close> and \<^verbatim>\<open>url.QueryEscape\<close>.\<close>

definition unreserved :: "char \<Rightarrow> bool" where
  "unreserved c \<longleftrightarrow> is_digit c \<or> (65 \<le> (of_char c :: nat) \<and> (of_char c :: nat) \<le> 90)
     \<or> (97 \<le> (of_char c :: nat) \<and> (of_char c :: nat) \<le> 122) \<or> c \<in> set ''-_.~''"

definition upper_hex :: "nat \<Rightarrow> char" where
  "upper_hex d = (if d < 10 then digit_char d else char_of (55 + d))"

definition percent :: "char \<Rightarrow> string" where
  "percent c = [CHR ''%'', upper_hex (of_char c div 16), upper_hex (of_char c mod 16)]"

definition PathEscape :: "string \<Rightarrow> string" where
  "PathEscape s = concat (map (\<lambda>c. if unreserved c \<or> c \<in> set ''$&+:=@'' then [c] else percent c) s)"

definition QueryEscape :: "string \<Rightarrow> string" where
  "QueryEscape s = concat (map (\<lambda>c. if c = CHR '' '' then ''+'' else if unreserved c then [c] else percent c) s)"

definition gemini_message :: "GeminiProvider \<Rightarrow> string \<Rightarrow> http_message" where
  "gemini_message p prompt =
     \<lparr>hm_URL = gp_baseURL p @ ''/v1beta/models/'' @ PathEscape (gp_model p) @ '':generateContent?key='' @ QueryEscape (gp_apiKey p),
      hm_Header = [(''Content-Type'', ''application/json'')],
      hm_Body = JObject [(''contents'', JArray [JObject [(''role'', JString ''user''),
          (''parts'', JArray [JObject [(''text'', JString prompt)]])]]),
        (''generationConfig'', JObject [(''temperature'', JNumber ''0''), (''responseMimeType'', JString ''application/json'')])]\<rparr>"

text \<open>The parts of the candidates and the error (its code is an integer) of a response.\<close>

definition decode_part :: "json \<Rightarrow> string \<times> bool" where
  "decode_part v = (case members_of v of (ms, ok) \<Rightarrow> (case string_field ''text'' ms of (x, ok1) \<Rightarrow> (x, ok \<and> ok1)))"

definition decode_candidate :: "json \<Rightarrow> string list \<times> bool" where
  "decode_candidate v = (case members_of v of (ms, ok) \<Rightarrow> (case struct_field ''content'' ms of (m, ok1) \<Rightarrow>
     (case (string_field ''role'' m, list_field decode_part ''parts'' m) of ((r, ok2), (ps, ok3)) \<Rightarrow> (ps, ok \<and> ok1 \<and> ok2 \<and> ok3))))"

definition int_literal :: "string \<Rightarrow> bool" where
  "int_literal n = (let d = snd (sign_val n) in list_all is_digit d \<and> min_int64 \<le> fst (sign_val n) * digits_val d
     \<and> fst (sign_val n) * digits_val d \<le> max_int64)"

definition int_field_ok :: "string \<Rightarrow> (string \<times> json) list \<Rightarrow> bool" where
  "int_field_ok name ms = list_all (\<lambda>v. case v of JNumber n \<Rightarrow> int_literal n | JNull \<Rightarrow> True | _ \<Rightarrow> False) (field_values name ms)"

definition geminiResponse :: "json \<Rightarrow> (string list list \<times> (string \<times> string) option) \<times> bool" where
  "geminiResponse v = (case members_of v of (ms, ok) \<Rightarrow>
     (case (list_field decode_candidate ''candidates'' ms, struct_ptr_field ''error'' ms) of
        ((cs, ok1), (e, ok2)) \<Rightarrow>
          ((cs, map_option (\<lambda>m. fst (decode_error ''status'' ''message'' m)) e),
           ok \<and> ok1 \<and> ok2 \<and> (case e of None \<Rightarrow> True
             | Some m \<Rightarrow> snd (decode_error ''status'' ''message'' m) \<and> int_field_ok ''code'' m))))"

definition gemini_api_error :: "string \<Rightarrow> string option" where
  "gemini_api_error raw = (case json_Unmarshal raw of None \<Rightarrow> None
     | Some v \<Rightarrow> map_option (\<lambda>(t, msg). t @ '': '' @ msg) (snd (fst (geminiResponse v))))"

definition Gemini_ExtractCommitments :: "(string \<Rightarrow> error) \<Rightarrow> GeminiProvider \<Rightarrow> Provider" where
  "Gemini_ExtractCommitments why p prompt =
    (if gp_apiKey p = [] then Inl (ErrPlain ''gemini: api key required'')
     else case round_trip (gp_client p) ''gemini'' gemini_api_error (gemini_message p prompt) of
       Inl err \<Rightarrow> Inl err
     | Inr raw \<Rightarrow> (case map_option geminiResponse (json_Unmarshal raw) of
          Some ((cs, e), True) \<Rightarrow> (if cs = [] \<or> hd cs = [] then Inr [] else parseDrafts why (concat (hd cs)))
        | _ \<Rightarrow> Inl (ErrWrap ''gemini: decode response'' (why raw))))"


section \<open>Bedrock\<close>

text \<open>
  \<open>aws_client\<close> is \<^verbatim>\<open>InvokeModel\<close>: from the model and the body to an error or the body of
  the answer. \<open>load\<close> is \<^verbatim>\<open>LoadDefaultConfig\<close> with an optional region, followed by
  \<^verbatim>\<open>NewFromConfig\<close>.
\<close>

type_synonym aws_client = "string \<Rightarrow> json \<Rightarrow> error + string"

record BedrockProvider =
  bp_client :: "aws_client option"
  bp_model :: string

definition WithBedrockClient :: "aws_client \<Rightarrow> BedrockProvider \<Rightarrow> BedrockProvider" where
  "WithBedrockClient c p = p\<lparr>bp_client := Some c\<rparr>"

definition NewBedrockProvider ::
  "(string option \<Rightarrow> error + aws_client) \<Rightarrow> string \<Rightarrow> string \<Rightarrow> (BedrockProvider \<Rightarrow> BedrockProvider) list \<Rightarrow> error + BedrockProvider" where
  "NewBedrockProvider load region modelID opts =
    (let modelID = (if modelID = [] then ''anthropic.claude-opus-4-7-20260201-v1:0'' else modelID) in
     case load (if region \<noteq> [] then Some region else None) of
       Inl err \<Rightarrow> Inl (ErrWrap ''bedrock: load aws config'' err)
     | Inr client \<Rightarrow> Inr (foldl (\<lambda>p f. f p) \<lparr>bp_client = Some client, bp_model = modelID\<rparr> opts))"

definition bedrock_body :: "string \<Rightarrow> json" where
  "bedrock_body prompt = JObject [(''anthropic_version'', JString ''bedrock-2023-05-31''), (''max_tokens'', JNumber ''1024''),
     (''messages'', JArray [JObject [(''content'', JString prompt), (''role'', JString ''user'')]])]"

definition bedrock_response :: "json \<Rightarrow> (string \<times> string) list \<times> bool" where
  "bedrock_response v = (case members_of v of (ms, ok) \<Rightarrow> (case list_field decode_block ''content'' ms of (bs, ok1) \<Rightarrow> (bs, ok \<and> ok1)))"

definition Bedrock_ExtractCommitments :: "(string \<Rightarrow> error) \<Rightarrow> BedrockProvider \<Rightarrow> Provider" where
  "Bedrock_ExtractCommitments why p prompt = (case bp_client p of
       None \<Rightarrow> Inl (ErrPlain ''bedrock: client not initialised'')
     | Some client \<Rightarrow> (case client (bp_model p) (bedrock_body prompt) of
         Inl err \<Rightarrow> Inl (ErrWrap ''bedrock: invoke'' err)
       | Inr raw \<Rightarrow> (case map_option bedrock_response (json_Unmarshal raw) of
            Some (blocks, True) \<Rightarrow> (if block_text blocks = [] then Inr [] else parseDrafts why (block_text blocks))
          | _ \<Rightarrow> Inl (ErrWrap ''bedrock: decode response'' (why raw)))))"


section \<open>What the providers return\<close>

text \<open>A draft fit to be promoted, as the parser of replies makes them.\<close>

definition fit_draft :: "CommitmentDraft \<Rightarrow> bool" where
  "fit_draft d \<longleftrightarrow> cd_Description d \<noteq> [] \<and> TrimSpace (cd_Description d) = cd_Description d
     \<and> \<not> out_of_unit (cd_Confidence d) \<and> cd_Confidence d \<noteq> NaN \<and> cd_OwnerID d = [] \<and> cd_SourceRefs d = []"

definition fit_provider :: "Provider \<Rightarrow> bool" where
  "fit_provider p \<longleftrightarrow> (\<forall>prompt ds. p prompt = Inr ds \<longrightarrow> list_all fit_draft ds)"

lemma parseDrafts_fit: "parseDrafts why reply = Inr ds \<Longrightarrow> list_all fit_draft ds"
  using parseDrafts_drafts [of why reply ds] by (auto simp: list_all_iff fit_draft_def)

lemma openai_commitments_fit: "openai_commitments why content = Inr ds \<Longrightarrow> list_all fit_draft ds"
  by (auto simp: openai_commitments_def Let_def dest!: parseDrafts_fit
      split: sum.splits list.splits option.splits json.splits if_splits)

lemma providers_fit:
  "fit_provider (Anthropic_ExtractCommitments why ap)" "fit_provider (OpenAI_ExtractCommitments why op)"
  "fit_provider (Gemini_ExtractCommitments why gp)" "fit_provider (Bedrock_ExtractCommitments why bp)"
  unfolding fit_provider_def
  by (auto simp: Anthropic_ExtractCommitments_def OpenAI_ExtractCommitments_def Gemini_ExtractCommitments_def
      Bedrock_ExtractCommitments_def dest!: parseDrafts_fit openai_commitments_fit
      split: if_splits sum.splits option.splits bool.splits list.splits prod.splits)

text \<open>
  Without a key the HTTP clients send nothing: the answer does not depend on the client.
\<close>

lemma no_key_no_request:
  "ap_apiKey ap = [] \<Longrightarrow> Anthropic_ExtractCommitments why ap prompt = Inl (ErrPlain ''anthropic: api key required'')"
  "op_apiKey op = [] \<Longrightarrow> OpenAI_ExtractCommitments why op prompt = Inl (ErrPlain ''openai: api key required'')"
  "gp_apiKey gp = [] \<Longrightarrow> Gemini_ExtractCommitments why gp prompt = Inl (ErrPlain ''gemini: api key required'')"
  by (simp_all add: Anthropic_ExtractCommitments_def OpenAI_ExtractCommitments_def Gemini_ExtractCommitments_def)

text \<open>
  The reply the system prompt asks for when there is nothing to report, an empty array, is
  an error for the OpenAI client: the fallback decodes it into an object.
\<close>

lemma openai_refuses_empty_array:
  "openai_commitments why ''[]'' = Inl (ErrWrap ''openai: decode commitments'' (why ''[]''))"
proof -
  have t: "TrimSpace ''[]'' = ''[]''" by (simp add: TrimSpace_def trim_seqs_fix space_seqs_def starts_with_def)
  have "trimToFirstArray (stripCodeFences ''[]'') = ''[]''"
    by (simp add: stripCodeFences_def fence_def starts_with_def trimToFirstArray_def)
  then have "parseDrafts why ''[]'' = Inr []" by (simp add: parseDrafts_def t)
  moreover have "json_Unmarshal ''[]'' = Some (JArray [])"
    by (simp add: json_Unmarshal_def parse_eval numeral_eq_Suc)
  ultimately show ?thesis by (simp add: openai_commitments_def)
qed

section \<open>A sample answer\<close>

text \<open>Texts of printable ASCII without backslash, with their quotes escaped, are read back as they were.\<close>

definition escape_quotes :: "string \<Rightarrow> string" where
  "escape_quotes s = concat (map (\<lambda>c. if c = CHR 0x22 then [CHR 0x5C, c] else [c]) s)"

definition plain_char :: "char \<Rightarrow> bool" where
  "plain_char c \<longleftrightarrow> c \<noteq> CHR 0x5C \<and> 0x20 \<le> (of_char c :: nat) \<and> (of_char c :: nat) < 0x80"

lemma parse_string_escaped: "parse_string (CHR 0x5C # CHR 0x22 # s) = map_option (\<lambda>(m, r). (CHR 0x22 # m, r)) (parse_string s)"
proof -
  have "getu4 (CHR 0x5C # CHR 0x22 # s) = None" by (auto simp: getu4_def split: list.split)
  then have "string_step (CHR 0x5C # CHR 0x22 # s) = Some ([CHR 0x22], s)" by (simp add: string_step_def unescape_def)
  then show ?thesis by (subst parse_string.simps) (auto split: option.splits)
qed

lemma parse_string_roundtrip:
  "list_all plain_char s \<Longrightarrow> parse_string (escape_quotes s @ CHR 0x22 # rest) = Some (s, rest)"
proof (induction s)
  case (Cons c s)
  then show ?case
    by (cases "c = CHR 0x22") (simp_all add: escape_quotes_def parse_string_escaped parse_string_plain plain_char_def)
qed (simp add: escape_quotes_def parse_string_quote)

definition sample_answer :: "string \<Rightarrow> string" where
  "sample_answer text = ''{'' @ quoted ''content'' @ '':[{'' @ quoted ''type'' @ '':'' @ quoted ''text'' @ '','' @ quoted ''text'' @ '':'' @
     quoted (escape_quotes text) @ ''}]}''"

lemma sample_answer_read:
  assumes "list_all plain_char text"
  shows "json_Unmarshal (sample_answer text) =
    Some (JObject [(''content'', JArray [JObject [(''type'', JString ''text''), (''text'', JString text)]])])"
proof -
  define k where "k = 2 * length (escape_quotes text) + 70"
  have "2 * length (sample_answer text) + 2 = Suc (Suc (Suc (Suc (Suc (Suc (Suc (Suc (Suc (Suc k)))))))))"
    by (simp add: sample_answer_def quoted_def k_def)
  moreover have "parse_string (escape_quotes text @ CHR 0x22 # rest) = Some (text, rest)" for rest
    using assms by (rule parse_string_roundtrip)
  ultimately show ?thesis
    by (simp add: json_Unmarshal_def del: mult_Suc) (simp add: sample_answer_def quoted_def parse_eval)
qed

end
