(* ===== verification/Adapters.thy ===== *)
theory Adapters
  imports Go_Time Circuit_Breaker Ports
begin

text \<open>
  \<^verbatim>\<open>internal/adapters\<close>: the clients of Chronos and Mnemos (\<^verbatim>\<open>chronos/grpc.go\<close>,
  \<^verbatim>\<open>mnemos/grpc.go\<close>) and of Praxis (\<^verbatim>\<open>praxis/grpc.go\<close>), each behind a circuit breaker.

  The generated gRPC stubs, the HTTP client, the TLS file reader, the UUID library and the
  texts of \<^verbatim>\<open>%v\<close> and \<^verbatim>\<open>%q\<close> are arguments. What leaves the process is an entry of a
  list of messages; a stub answers from that list. A call that would dereference a nil
  breaker has the result \<open>None\<close>. Readings of the clock are arguments: \<open>t1\<close> and \<open>t2\<close> are those
  of the breaker.
\<close>

section \<open>Messages\<close>

definition wrap32 :: "int \<Rightarrow> int" where
  "wrap32 i = (i + 2 ^ 31) mod 2 ^ 32 - 2 ^ 31"

text \<open>The pattern enumeration of the Chronos protocol; an unknown number is \<open>PATTERN_TYPE\<close>.\<close>

datatype PatternType =
    PATTERN_TYPE_UNSPECIFIED | PATTERN_TYPE_RECURRENCE | PATTERN_TYPE_TREND | PATTERN_TYPE_SPIKE
  | PATTERN_TYPE_DROP | PATTERN_TYPE_STALL | PATTERN_TYPE_ANOMALY | PATTERN_TYPE_SEASONALITY
  | PATTERN_TYPE_CORRELATION | PATTERN_TYPE int

record ListSignalsRequest =
  lsr_ScopeId :: string
  lsr_Limit :: int
  lsr_Since :: "time option"
  lsr_Pattern :: PatternType

record pb_Signal =
  pb_Id :: string
  pb_Pattern :: PatternType
  pb_ScopeId :: string
  pb_Series :: string
  pb_Confidence :: float64
  pb_DetectedAt :: "time option"

record pb_Event =
  pe_Id :: string
  pe_Content :: string
  pe_SourceInputId :: string
  pe_Timestamp :: "time option"
  pe_Metadata :: "(string \<times> string) list"

datatype message =
    MsgListSignals ListSignalsRequest "(string \<times> string) list"
  | MsgListEvents int "(string \<times> string) list"
  | MsgAppendEvents "pb_Event list" "(string \<times> string) list"
  | MsgHTTP string string "(string \<times> string) list" "string option"

type_synonym messages = "message list"

text \<open>\<^verbatim>\<open>AsTime\<close> of a missing timestamp is the Unix epoch.\<close>

definition AsTime :: "time option \<Rightarrow> time" where
  "AsTime t = (case t of None \<Rightarrow> 0 | Some t \<Rightarrow> t)"

definition GetRequestMetadata :: "string \<Rightarrow> (string \<times> string) list" where
  "GetRequestMetadata token = [(''authorization'', ''Bearer '' @ token)]"

definition callOpts :: "string \<Rightarrow> (string \<times> string) list" where
  "callOpts bearerToken = (if bearerToken = [] then [] else GetRequestMetadata bearerToken)"

text \<open>
  The transport credentials of a connection: \<open>Inl\<close> the certificate file, \<open>Inr\<close> the insecure
  ones; both gRPC adapters are built the same way.
\<close>

definition dial_adapter ::
  "string \<Rightarrow> (string \<Rightarrow> error option) \<Rightarrow> (string \<Rightarrow> string option \<Rightarrow> error + 'stub) \<Rightarrow>
   string \<Rightarrow> string \<Rightarrow> error + 'stub" where
  "dial_adapter name load dial addr tlsCertFile =
    (case (if tlsCertFile \<noteq> [] then load tlsCertFile else None) of
       Some err \<Rightarrow> Inl (ErrWrap (name @ '' grpc: load TLS cert '' @ tlsCertFile) err)
     | None \<Rightarrow>
        (case dial addr (if tlsCertFile \<noteq> [] then Some tlsCertFile else None) of
           Inl err \<Rightarrow> Inl (ErrWrap (name @ '' grpc: dial '' @ addr) err)
         | Inr stub \<Rightarrow> Inr stub))"

text \<open>
  A call through the breaker: \<open>body\<close> is what the function would do on the messages sent so
  far. The result says what the function left in the variable it assigns on success.
\<close>

definition through_breaker ::
  "Breaker \<Rightarrow> time \<Rightarrow> time \<Rightarrow> (messages \<Rightarrow> (error + 'r) \<times> messages) \<Rightarrow> messages \<Rightarrow> (error + 'r) \<times> Breaker \<times> messages" where
  "through_breaker b t1 t2 body sent =
    (case body sent of (r, sent') \<Rightarrow>
     case Call b t1 (case r of Inl e \<Rightarrow> Some e | Inr _ \<Rightarrow> None) t2 of
       (did, err, b') \<Rightarrow> ((case err of Some e \<Rightarrow> Inl e | None \<Rightarrow> r), b', if did then sent' else sent))"

definition breaker_status :: "Breaker option \<Rightarrow> string" where
  "breaker_status b = (case b of None \<Rightarrow> ''unconfigured''
     | Some b \<Rightarrow> (case breaker_State_of b of StateClosed \<Rightarrow> ''healthy'' | StateHalfOpen \<Rightarrow> ''degraded''
                   | StateOpen \<Rightarrow> ''unhealthy''))"


section \<open>Chronos\<close>

type_synonym chronos_stub = "messages \<Rightarrow> ListSignalsRequest \<Rightarrow> error + pb_Signal list"

record chronos_Adapter =
  ca_client :: "chronos_stub option"
  ca_bearerToken :: string
  ca_breaker :: "Breaker option"

definition chronos_NewGRPC ::
  "(string \<Rightarrow> error option) \<Rightarrow> (string \<Rightarrow> string option \<Rightarrow> error + chronos_stub) \<Rightarrow>
   string \<Rightarrow> string \<Rightarrow> string \<Rightarrow> error + chronos_Adapter" where
  "chronos_NewGRPC load dial addr tlsCertFile bearerToken =
    (if addr = [] then
       Inr \<lparr>ca_client = None, ca_bearerToken = [], ca_breaker = Some (breaker_New breaker_DefaultConfig)\<rparr>
     else case dial_adapter ''chronos'' load dial addr tlsCertFile of
       Inl err \<Rightarrow> Inl err
     | Inr client \<Rightarrow> Inr \<lparr>ca_client = Some client, ca_bearerToken = bearerToken,
          ca_breaker = Some (breaker_New breaker_DefaultConfig)\<rparr>)"

definition chronos_AdapterStatus :: "chronos_Adapter \<Rightarrow> string" where
  "chronos_AdapterStatus a = breaker_status (ca_breaker a)"

definition patternTypeFromString :: "string \<Rightarrow> PatternType" where
  "patternTypeFromString s =
    (if s = ''recurrence'' then PATTERN_TYPE_RECURRENCE
     else if s = ''trend'' then PATTERN_TYPE_TREND
     else if s = ''spike'' then PATTERN_TYPE_SPIKE
     else if s = ''drop'' then PATTERN_TYPE_DROP
     else if s = ''stall'' then PATTERN_TYPE_STALL
     else if s = ''anomaly'' then PATTERN_TYPE_ANOMALY
     else if s = ''seasonality'' then PATTERN_TYPE_SEASONALITY
     else if s = ''correlation'' then PATTERN_TYPE_CORRELATION
     else PATTERN_TYPE_UNSPECIFIED)"

fun patternTypeToString :: "PatternType \<Rightarrow> string" where
  "patternTypeToString PATTERN_TYPE_RECURRENCE = ''recurrence''"
| "patternTypeToString PATTERN_TYPE_TREND = ''trend''"
| "patternTypeToString PATTERN_TYPE_SPIKE = ''spike''"
| "patternTypeToString PATTERN_TYPE_DROP = ''drop''"
| "patternTypeToString PATTERN_TYPE_STALL = ''stall''"
| "patternTypeToString PATTERN_TYPE_ANOMALY = ''anomaly''"
| "patternTypeToString PATTERN_TYPE_SEASONALITY = ''seasonality''"
| "patternTypeToString PATTERN_TYPE_CORRELATION = ''correlation''"
| "patternTypeToString _ = []"

definition parseUUID :: "(string \<Rightarrow> error + uuid) \<Rightarrow> string \<Rightarrow> uuid" where
  "parseUUID parse s = (case parse s of Inl _ \<Rightarrow> uuid_Nil | Inr i \<Rightarrow> i)"

definition signal_of_pb :: "(string \<Rightarrow> error + uuid) \<Rightarrow> pb_Signal \<Rightarrow> ChronosSignal" where
  "signal_of_pb parse s =
     \<lparr>cs_ID = parseUUID parse (pb_Id s), cs_Pattern = patternTypeToString (pb_Pattern s),
      cs_ScopeID = parseUUID parse (pb_ScopeId s), cs_Series = parseUUID parse (pb_Series s),
      cs_Confidence = pb_Confidence s, cs_DetectedAt = AsTime (pb_DetectedAt s), cs_Entities = []\<rparr>"

definition list_signals ::
  "(uuid \<Rightarrow> string) \<Rightarrow> (string \<Rightarrow> error + uuid) \<Rightarrow> (string \<Rightarrow> string) \<Rightarrow> chronos_stub \<Rightarrow> string \<Rightarrow> SignalFilter \<Rightarrow>
   messages \<Rightarrow> (error + ChronosSignal list) \<times> messages" where
  "list_signals str parse quote client token flt sent = (case parse (sf_ScopeID flt) of
       Inl err \<Rightarrow> (Inl (ErrWrap (''chronos grpc: invalid scope_id '' @ quote (sf_ScopeID flt)) err), sent)
     | Inr scopeID \<Rightarrow>
        (let req = \<lparr>lsr_ScopeId = str scopeID, lsr_Limit = wrap32 (sf_Limit flt), lsr_Since = sf_Since flt,
               lsr_Pattern = (case sf_Patterns flt of [] \<Rightarrow> PATTERN_TYPE_UNSPECIFIED | p # _ \<Rightarrow> patternTypeFromString p)\<rparr>;
             sent' = sent @ [MsgListSignals req (callOpts token)]
         in case client sent req of
              Inl err \<Rightarrow> (Inl (ErrWrap ''chronos grpc: list signals'' err), sent')
            | Inr signals \<Rightarrow> (Inr (map (signal_of_pb parse) signals), sent')))"

definition chronos_GetSignals ::
  "(uuid \<Rightarrow> string) \<Rightarrow> (string \<Rightarrow> error + uuid) \<Rightarrow> (string \<Rightarrow> string) \<Rightarrow> time \<Rightarrow> time \<Rightarrow> chronos_Adapter \<Rightarrow> SignalFilter \<Rightarrow>
   messages \<Rightarrow> (error + ChronosSignal list) option \<times> chronos_Adapter \<times> messages" where
  "chronos_GetSignals str parse quote t1 t2 a flt sent = (case ca_client a of
       None \<Rightarrow> (Some (Inl ErrClientNotConfigured), a, sent)
     | Some client \<Rightarrow> (case ca_breaker a of
          None \<Rightarrow> (None, a, sent)
        | Some b \<Rightarrow>
           (case through_breaker b t1 t2 (list_signals str parse quote client (ca_bearerToken a) flt) sent of
              (r, b', sent') \<Rightarrow> (Some r, a\<lparr>ca_breaker := Some b'\<rparr>, sent'))))"


section \<open>Mnemos\<close>

record mnemos_stub =
  ListEvents :: "messages \<Rightarrow> int \<Rightarrow> error + pb_Event list"
  AppendEvents :: "messages \<Rightarrow> pb_Event list \<Rightarrow> error + int"

record mnemos_Adapter =
  ma_client :: "mnemos_stub option"
  ma_bearerToken :: string
  ma_breaker :: "Breaker option"

definition mnemos_NewGRPC ::
  "(string \<Rightarrow> error option) \<Rightarrow> (string \<Rightarrow> string option \<Rightarrow> error + mnemos_stub) \<Rightarrow>
   string \<Rightarrow> string \<Rightarrow> string \<Rightarrow> error + mnemos_Adapter" where
  "mnemos_NewGRPC load dial addr tlsCertFile bearerToken =
    (if addr = [] then
       Inr \<lparr>ma_client = None, ma_bearerToken = [], ma_breaker = Some (breaker_New breaker_DefaultConfig)\<rparr>
     else case dial_adapter ''mnemos'' load dial addr tlsCertFile of
       Inl err \<Rightarrow> Inl err
     | Inr client \<Rightarrow> Inr \<lparr>ma_client = Some client, ma_bearerToken = bearerToken,
          ma_breaker = Some (breaker_New breaker_DefaultConfig)\<rparr>)"

definition mnemos_AdapterStatus :: "mnemos_Adapter \<Rightarrow> string" where
  "mnemos_AdapterStatus a = breaker_status (ma_breaker a)"

definition list_events :: "mnemos_stub \<Rightarrow> string \<Rightarrow> RecallQuery \<Rightarrow> messages \<Rightarrow> (error + MemoryRef list) \<times> messages" where
  "list_events client token q sent =
    (let limit = wrap32 (rq_Limit q); limit = (if limit \<le> 0 then 10 else limit);
         sent' = sent @ [MsgListEvents limit (callOpts token)]
     in case ListEvents client sent limit of
          Inl err \<Rightarrow> (Inl (ErrWrap ''mnemos grpc: ListEvents'' err), sent')
        | Inr events \<Rightarrow> (Inr (map (\<lambda>evt. \<lparr>mr_ID = pe_Id evt, mr_Kind = ''event'',
              mr_OccurredAt = (case pe_Timestamp evt of None \<Rightarrow> zero_Time | Some t \<Rightarrow> t)\<rparr>) events), sent'))"

definition mnemos_Recall ::
  "time \<Rightarrow> time \<Rightarrow> mnemos_Adapter \<Rightarrow> RecallQuery \<Rightarrow> messages \<Rightarrow> (error + MemoryRef list) option \<times> mnemos_Adapter \<times> messages" where
  "mnemos_Recall t1 t2 a q sent = (case ma_client a of
       None \<Rightarrow> (Some (Inl ErrClientNotConfigured), a, sent)
     | Some client \<Rightarrow> (case ma_breaker a of
          None \<Rightarrow> (None, a, sent)
        | Some b \<Rightarrow> (case through_breaker b t1 t2 (list_events client (ma_bearerToken a) q) sent of
              (r, b', sent') \<Rightarrow> (Some r, a\<lparr>ma_breaker := Some b'\<rparr>, sent'))))"

text \<open>The clock is read once more for the identifier of the event.\<close>

definition append_event ::
  "(anyval \<Rightarrow> string) \<Rightarrow> time \<Rightarrow> mnemos_stub \<Rightarrow> string \<Rightarrow> MnemosEvent \<Rightarrow> messages \<Rightarrow> (error + string) \<times> messages" where
  "append_event fmt_v now client token evt sent =
    (let pbEvt = \<lparr>pe_Id = me_Subject evt @ ''_'' @ RFC3339Nano_UTC (time_UTC now), pe_Content = me_Kind evt,
           pe_SourceInputId = me_Subject evt, pe_Timestamp = Some (me_OccurredAt evt),
           pe_Metadata = map (\<lambda>(k, v). (k, case v of VString s \<Rightarrow> s | _ \<Rightarrow> fmt_v v)) (me_Body evt)\<rparr>;
         sent' = sent @ [MsgAppendEvents [pbEvt] (callOpts token)]
     in case AppendEvents client sent [pbEvt] of
          Inl err \<Rightarrow> (Inl (ErrWrap ''mnemos grpc: AppendEvents'' err), sent')
        | Inr accepted \<Rightarrow>
           (if accepted = 0 then (Inl (ErrPlain ''mnemos grpc: event not accepted''), sent')
            else (Inr (pe_Id pbEvt), sent')))"

definition mnemos_AppendEvent ::
  "(anyval \<Rightarrow> string) \<Rightarrow> time \<Rightarrow> time \<Rightarrow> time \<Rightarrow> mnemos_Adapter \<Rightarrow> MnemosEvent \<Rightarrow> messages \<Rightarrow>
   (error + string) option \<times> mnemos_Adapter \<times> messages" where
  "mnemos_AppendEvent fmt_v t1 now t2 a evt sent = (case ma_client a of
       None \<Rightarrow> (Some (Inl ErrClientNotConfigured), a, sent)
     | Some client \<Rightarrow> (case ma_breaker a of
          None \<Rightarrow> (None, a, sent)
        | Some b \<Rightarrow> (case through_breaker b t1 t2 (append_event fmt_v now client (ma_bearerToken a) evt) sent of
              (r, b', sent') \<Rightarrow> (Some r, a\<lparr>ma_breaker := Some b'\<rparr>, sent'))))"


section \<open>Praxis\<close>

definition ErrPraxisDisabled :: error where
  "ErrPraxisDisabled = ErrPlain ''praxis: adapter disabled (no addr)''"

record praxis_Config =
  pc_Addr :: string
  pc_TLSCertFile :: string
  pc_BearerToken :: string
  pc_CallTimeout :: duration

text \<open>The HTTP client is its timeout and the certificates of its transport.\<close>

record praxis_Adapter =
  pa_cfg :: praxis_Config
  pa_timeout :: duration
  pa_rootCAs :: "string option"
  pa_breaker :: "Breaker option"
  pa_health :: string

record actionWire =
  aw_ID :: string
  aw_Capability :: string
  aw_Payload :: "anymap option"
  aw_IdempotencyKey :: string
  aw_Mode :: string

record capabilityWire =
  cw_Name :: string
  cw_Description :: string
  cw_InputSchema :: anyval

record errorWire =
  ew_Code :: string
  ew_Message :: string

record resultWire =
  rw_ActionID :: string
  rw_Status :: string
  rw_Output :: "anymap option"
  rw_ExternalID :: string
  rw_StartedAt :: time
  rw_CompletedAt :: time
  rw_Attempts :: int
  rw_Error :: "errorWire option"

record validationWire =
  vw_Valid :: bool
  vw_Errors :: "string list"

record simulationWire =
  sw_ActionID :: string
  sw_Validation :: validationWire
  sw_Preview :: anymap
  sw_Reversible :: bool

text \<open>
  What the adapter calls: the UUID library (\<open>px_str\<close>, \<open>px_new\<close>: the identifiers of the call in
  the order they are drawn), \<^verbatim>\<open>json.Marshal\<close> and the decoders of the three answers, the
  parsing of the URL, the network (\<open>px_send\<close> answers with a status and a body), \<^verbatim>\<open>%v\<close>, the
  iteration order of a map, and the certificate reader.
\<close>

record praxis_env =
  px_str :: "uuid \<Rightarrow> string"
  px_new :: "nat \<Rightarrow> uuid"
  px_marshal :: "actionWire \<Rightarrow> error + string"
  px_decodeCapabilities :: "string \<Rightarrow> error + capabilityWire list"
  px_decodeResult :: "string \<Rightarrow> error + resultWire"
  px_decodeSimulation :: "string \<Rightarrow> error + simulationWire"
  px_NewRequest :: "string \<Rightarrow> error option"
  px_send :: "messages \<Rightarrow> message \<Rightarrow> error + int \<times> string"
  px_fmt_v :: "anyval \<Rightarrow> string"
  px_range :: "anymap \<Rightarrow> anymap"

definition loadTLSCert :: "(string \<Rightarrow> error + string) \<Rightarrow> (string \<Rightarrow> string option) \<Rightarrow> string \<Rightarrow> error + string" where
  "loadTLSCert ReadFile AppendCertsFromPEM path = (case ReadFile path of
       Inl err \<Rightarrow> Inl err
     | Inr pem \<Rightarrow> (case AppendCertsFromPEM pem of
          None \<Rightarrow> Inl (ErrPlain ''praxis: TLS cert file contains no usable certs'')
        | Some pool \<Rightarrow> Inr pool))"

definition praxis_NewAdapter ::
  "(string \<Rightarrow> error + string) \<Rightarrow> (string \<Rightarrow> string option) \<Rightarrow> praxis_Config \<Rightarrow> praxis_Adapter" where
  "praxis_NewAdapter ReadFile AppendCertsFromPEM cfg =
    (if pc_Addr cfg = [] then
       \<lparr>pa_cfg = cfg, pa_timeout = 0, pa_rootCAs = None, pa_breaker = None, pa_health = ''disabled''\<rparr>
     else
       \<lparr>pa_cfg = cfg, pa_timeout = (if pc_CallTimeout cfg \<le> 0 then 30 * second else pc_CallTimeout cfg),
        pa_rootCAs = (if pc_TLSCertFile cfg \<noteq> [] then
            (case loadTLSCert ReadFile AppendCertsFromPEM (pc_TLSCertFile cfg) of Inl _ \<Rightarrow> None | Inr pool \<Rightarrow> Some pool)
          else None),
        pa_breaker = Some (breaker_New \<lparr>bc_MaxFailures = 3, bc_Timeout = 0, bc_MaxRequests = 0\<rparr>),
        pa_health = ''healthy''\<rparr>)"

definition praxis_AdapterStatus :: "praxis_Adapter \<Rightarrow> string" where
  "praxis_AdapterStatus a = pa_health a"

definition actionFromRequest :: "(uuid \<Rightarrow> string) \<Rightarrow> ActionRequest \<Rightarrow> actionWire" where
  "actionFromRequest str req =
     \<lparr>aw_ID = str (ar_ID req), aw_Capability = ar_Capability req, aw_Payload = ar_Payload req,
      aw_IdempotencyKey = ar_IdempotencyKey req, aw_Mode = ''sync''\<rparr>"

definition TrimRightSlash :: "string \<Rightarrow> string" where
  "TrimRightSlash s = rev (dropWhile (\<lambda>c. c = CHR ''/'') (rev s))"

definition send_request :: "praxis_env \<Rightarrow> message \<Rightarrow> messages \<Rightarrow> (error + int \<times> string) \<times> messages" where
  "send_request e msg sent = (px_send e sent msg, sent @ [msg])"

definition praxis_message :: "praxis_Adapter \<Rightarrow> string \<Rightarrow> string \<Rightarrow> string option \<Rightarrow> message" where
  "praxis_message a meth path buf = MsgHTTP meth (TrimRightSlash (pc_Addr (pa_cfg a)) @ path)
     ((if pc_BearerToken (pa_cfg a) \<noteq> [] then [(''Authorization'', ''Bearer '' @ pc_BearerToken (pa_cfg a))] else [])
      @ (if buf \<noteq> None then [(''Content-Type'', ''application/json'')] else [])
      @ [(''Accept'', ''application/json'')]) buf"

definition marshal_body :: "praxis_env \<Rightarrow> actionWire option \<Rightarrow> error + string option" where
  "marshal_body e body = (case body of None \<Rightarrow> Inr None
     | Some x \<Rightarrow> (case px_marshal e x of Inl err \<Rightarrow> Inl err | Inr buf \<Rightarrow> Inr (Some buf)))"

definition praxis_do ::
  "praxis_env \<Rightarrow> time \<Rightarrow> time \<Rightarrow> praxis_Adapter \<Rightarrow> string \<Rightarrow> string \<Rightarrow> actionWire option \<Rightarrow> (string \<Rightarrow> error + 'r) \<Rightarrow>
   messages \<Rightarrow> (error + 'r) option \<times> praxis_Adapter \<times> messages" where
  "praxis_do e t1 t2 a meth path body decode sent =
    (case marshal_body e body of
       Inl err \<Rightarrow> (Some (Inl (ErrWrap ''praxis: encode body'' err)), a, sent)
     | Inr buf \<Rightarrow>
        (case px_NewRequest e (TrimRightSlash (pc_Addr (pa_cfg a)) @ path) of
           Some err \<Rightarrow> (Some (Inl (ErrWrap ''praxis: build request'' err)), a, sent)
         | None \<Rightarrow>
            (case pa_breaker a of
               None \<Rightarrow> (None, a, sent)
             | Some b \<Rightarrow>
                (case through_breaker b t1 t2 (send_request e (praxis_message a meth path buf)) sent of
                   (Inl cbErr, b', sent') \<Rightarrow>
                     (Some (Inl (ErrWrap (''praxis: '' @ meth @ '' '' @ path) cbErr)),
                      a\<lparr>pa_breaker := Some b', pa_health := ''degraded''\<rparr>, sent')
                 | (Inr (StatusCode, raw), b', sent') \<Rightarrow>
                    (let a = a\<lparr>pa_breaker := Some b'\<rparr> in
                     if 400 \<le> StatusCode then
                       (Some (Inl (ErrPlain (''praxis: '' @ meth @ '' '' @ path @ '': '' @ fmt_d StatusCode @ '' '' @ TrimSpace raw))),
                        a, sent')
                     else
                       (let a = a\<lparr>pa_health := ''healthy''\<rparr> in
                        case decode raw of
                          Inl err \<Rightarrow> (Some (Inl (ErrWrap ''praxis: decode response'' err)), a, sent')
                        | Inr out \<Rightarrow> (Some (Inr out), a, sent')))))))"

definition praxis_ListCapabilities ::
  "praxis_env \<Rightarrow> time \<Rightarrow> time \<Rightarrow> praxis_Adapter \<Rightarrow> messages \<Rightarrow> (error + Capability list) option \<times> praxis_Adapter \<times> messages" where
  "praxis_ListCapabilities e t1 t2 a sent =
    (if pc_Addr (pa_cfg a) = [] then (Some (Inl ErrPraxisDisabled), a, sent)
     else case praxis_do e t1 t2 a ''GET'' ''/v1/capabilities'' None (px_decodeCapabilities e) sent of
       (None, a, sent) \<Rightarrow> (None, a, sent)
     | (Some (Inl err), a, sent) \<Rightarrow> (Some (Inl err), a, sent)
     | (Some (Inr body), a, sent) \<Rightarrow>
        (Some (Inr (map (\<lambda>c. \<lparr>cap_Name = cw_Name c, cap_Description = cw_Description c,
            cap_InputSchema = (case cw_InputSchema c of VMap m \<Rightarrow> Some m | _ \<Rightarrow> None)\<rparr>) body)), a, sent))"

definition praxis_DryRun ::
  "praxis_env \<Rightarrow> time \<Rightarrow> time \<Rightarrow> praxis_Adapter \<Rightarrow> ActionRequest \<Rightarrow> messages \<Rightarrow>
   (error + SimulationResult) option \<times> praxis_Adapter \<times> messages" where
  "praxis_DryRun e t1 t2 a req sent =
    (if pc_Addr (pa_cfg a) = [] then (Some (Inl ErrPraxisDisabled), a, sent)
     else
      (let req = (if ar_ID req = uuid_Nil then req\<lparr>ar_ID := px_new e 0\<rparr> else req);
           path = ''/v1/actions/'' @ px_str e (ar_ID req) @ ''/dry-run''
       in case praxis_do e t1 t2 a ''POST'' path (Some (actionFromRequest (px_str e) req)) (px_decodeSimulation e) sent of
            (None, a, sent) \<Rightarrow> (None, a, sent)
          | (Some (Inl err), a, sent) \<Rightarrow> (Some (Inl err), a, sent)
          | (Some (Inr sim), a, sent) \<Rightarrow>
             (Some (Inr \<lparr>sim_Capability = ar_Capability req,
                sim_Predictions = (if sw_Reversible sim then [''reversible''] else [])
                  @ map (\<lambda>(k, v). k @ ''='' @ px_fmt_v e v) (px_range e (sw_Preview sim)),
                sim_Blockers = vw_Errors (sw_Validation sim)\<rparr>), a, sent)))"

definition praxis_Execute ::
  "praxis_env \<Rightarrow> time \<Rightarrow> time \<Rightarrow> praxis_Adapter \<Rightarrow> ActionRequest \<Rightarrow> messages \<Rightarrow>
   (error + ExecutionResult) option \<times> praxis_Adapter \<times> messages" where
  "praxis_Execute e t1 t2 a req sent =
    (if pc_Addr (pa_cfg a) = [] then (Some (Inl ErrPraxisDisabled), a, sent)
     else
      (let req' = (if ar_IdempotencyKey req = [] then req\<lparr>ar_IdempotencyKey := px_str e (px_new e 0)\<rparr> else req);
           req'' = (if ar_ID req' = uuid_Nil
                    then req'\<lparr>ar_ID := px_new e (if ar_IdempotencyKey req = [] then 1 else 0)\<rparr> else req')
       in case praxis_do e t1 t2 a ''POST'' ''/v1/actions'' (Some (actionFromRequest (px_str e) req'')) (px_decodeResult e) sent of
            (None, a, sent) \<Rightarrow> (None, a, sent)
          | (Some (Inl err), a, sent) \<Rightarrow> (Some (Inl err), a, sent)
          | (Some (Inr res), a, sent) \<Rightarrow>
             (Some (Inr \<lparr>er_Capability = ar_Capability req'', er_Success = (rw_Status res = ''succeeded''),
                er_Output = rw_Output res,
                er_Error = (case rw_Error res of None \<Rightarrow> [] | Some x \<Rightarrow> ew_Message x),
                er_IdempotencyKey = ar_IdempotencyKey req'', er_ExecutedAt = rw_CompletedAt res\<rparr>), a, sent)))"


section \<open>The health probe\<close>

text \<open>\<^verbatim>\<open>healthCheck\<close> of \<^verbatim>\<open>cmd/nous/main.go\<close>: the database, then each adapter whose address is set.\<close>

definition probe :: "string \<Rightarrow> string \<Rightarrow> string option \<Rightarrow> error option" where
  "probe name addr status = (case status of
       Some st \<Rightarrow> if addr \<noteq> [] \<and> st \<noteq> ''healthy'' then Some (ErrPlain (name @ '': '' @ st)) else None
     | None \<Rightarrow> None)"

definition healthCheck ::
  "error option \<Rightarrow> string \<Rightarrow> mnemos_Adapter option \<Rightarrow> string \<Rightarrow> chronos_Adapter option \<Rightarrow> string \<Rightarrow> praxis_Adapter option \<Rightarrow> error option" where
  "healthCheck ping mnemosAddr mnemos chronosAddr chronos praxisAddr praxis = (case ping of
       Some err \<Rightarrow> Some (ErrWrap ''db'' err)
     | None \<Rightarrow> (case probe ''mnemos'' mnemosAddr (map_option mnemos_AdapterStatus mnemos) of
          Some err \<Rightarrow> Some err
        | None \<Rightarrow> (case probe ''chronos'' chronosAddr (map_option chronos_AdapterStatus chronos) of
             Some err \<Rightarrow> Some err
           | None \<Rightarrow> probe ''praxis'' praxisAddr (map_option praxis_AdapterStatus praxis))))"

end
