(* ===== verification/Adapter_Laws.thy ===== *)
theory Adapter_Laws
  imports Adapters Evaluate_Laws Default_Policy
begin

text \<open>
  The adapters together with what calls them: the breaker of the Praxis adapter, the
  Chronos adapter behind the evaluation pass, and the health probe.
\<close>

section \<open>Calls through a breaker\<close>

lemma Call_ran: "Call b t1 res t2 = (did, None, b') \<Longrightarrow> res = None \<and> did"
  by (auto simp: Call_def Let_def split: if_splits)

lemma through_breaker_fails:
  assumes "body sent = (Inl err, sent)"
  shows "\<exists>e. through_breaker b t1 t2 body sent = (Inl e, after_call b (t1, Some err, t2), sent)"
proof -
  obtain did r b' where c: "Call b t1 (Some err) t2 = (did, r, b')" by (metis prod_cases3)
  then have "r \<noteq> None" using Call_ran by fastforce
  then show ?thesis using c by (auto simp: through_breaker_def assms after_call_def)
qed

text \<open>A breaker that has opened stays out of the closed state while every call fails.\<close>

lemma not_closed_failing: "b_state b \<noteq> StateClosed \<Longrightarrow> b_state (after_call b (t1, Some err, t2)) \<noteq> StateClosed"
  by (auto simp: after_call_def Call_def onFailure_def Let_def)

lemma not_closed_run: "b_state b \<noteq> StateClosed \<Longrightarrow> list_all failing cs \<Longrightarrow> b_state (run_calls b cs) \<noteq> StateClosed"
proof (induction cs arbitrary: b)
  case (Cons c cs)
  obtain t1 err t2 where c: "c = (t1, Some err, t2)" using Cons.prems(2) by (cases c) (auto simp: failing_def)
  show ?case using Cons not_closed_failing by (simp add: c)
qed simp

lemma default_config_New: "bc_MaxFailures (b_config (breaker_New breaker_DefaultConfig)) = 5"
  by (simp add: breaker_New_def breaker_DefaultConfig_def)

lemma failing_Some [simp]: "failing (t1, Some err, t2)"
  by (simp add: failing_def)

lemma enough_failures_open:
  assumes "list_all failing cs" and "5 \<le> length cs"
  shows "b_state (run_calls (breaker_New breaker_DefaultConfig) cs) \<noteq> StateClosed"
proof -
  have l: "length (take 4 cs) = 4" and n: "4 < length cs" using assms(2) by auto
  obtain t1 r t2 where c: "cs ! 4 = (t1, r, t2)" by (metis prod_cases3)
  have split: "cs = (take 4 cs @ [(t1, r, t2)]) @ drop 5 cs"
    using id_take_nth_drop [OF n] c by (simp add: eval_nat_numeral)
  have fail: "list_all failing (take 4 cs @ [(t1, r, t2)])" "list_all failing (drop 5 cs)"
    using assms(1) split by (metis list_all_append)+
  have "b_state (run_calls (breaker_New breaker_DefaultConfig) (take 4 cs @ [(t1, r, t2)])) = StateOpen"
    using trips [OF breaker_New_fields(1,2) breaker_New_limits [OF default_limits] fail(1)] l default_config_New by simp
  then have "b_state (run_calls (breaker_New breaker_DefaultConfig) (take 4 cs @ [(t1, r, t2)])) \<noteq> StateClosed" by simp
  from not_closed_run [OF this fail(2)] show ?thesis using split by (metis foldl_append)
qed


section \<open>The Chronos adapter\<close>

text \<open>A run of queries: the clock readings of each and its filter.\<close>

fun run_signals ::
  "(uuid \<Rightarrow> string) \<Rightarrow> (string \<Rightarrow> error + uuid) \<Rightarrow> (string \<Rightarrow> string) \<Rightarrow> chronos_Adapter \<Rightarrow> (time \<times> time \<times> SignalFilter) list \<Rightarrow>
   messages \<Rightarrow> chronos_Adapter \<times> messages" where
  "run_signals str parse quote a [] sent = (a, sent)"
| "run_signals str parse quote a ((t1, t2, f) # qs) sent =
     (case chronos_GetSignals str parse quote t1 t2 a f sent of (_, a', sent') \<Rightarrow> run_signals str parse quote a' qs sent')"

lemma GetSignals_bad_scope:
  assumes "parse (sf_ScopeID f) = Inl err" and "ca_client a = Some client" and "ca_breaker a = Some b"
  shows "\<exists>e err'. chronos_GetSignals str parse quote t1 t2 a f sent =
     (Some (Inl e), a\<lparr>ca_breaker := Some (after_call b (t1, Some err', t2))\<rparr>, sent)"
proof -
  let ?err = "ErrWrap (''chronos grpc: invalid scope_id '' @ quote (sf_ScopeID f)) err"
  have "list_signals str parse quote client (ca_bearerToken a) f sent = (Inl ?err, sent)"
    by (simp add: list_signals_def assms(1))
  from through_breaker_fails [of "list_signals str parse quote client (ca_bearerToken a) f", OF this, of b t1 t2]
  obtain e where "through_breaker b t1 t2 (list_signals str parse quote client (ca_bearerToken a) f) sent =
    (Inl e, after_call b (t1, Some ?err, t2), sent)" by blast
  then show ?thesis by (auto simp: chronos_GetSignals_def assms(2,3))
qed

lemma GetSignals_never:
  assumes "parse (sf_ScopeID f) = Inl err" and "fst (chronos_GetSignals str parse quote t1 t2 a f sent) = Some r"
  shows "isl r"
proof (cases "ca_client a")
  case None
  then show ?thesis using assms(2) by (auto simp: chronos_GetSignals_def)
next
  case (Some client)
  show ?thesis
  proof (cases "ca_breaker a")
    case None
    then show ?thesis using assms(2) Some by (simp add: chronos_GetSignals_def)
  next
    case (Some b)
    with \<open>ca_client a = Some client\<close> show ?thesis
      using GetSignals_bad_scope [of parse f err a client b str quote t1 t2 sent] assms by auto
  qed
qed

lemma run_signals_bad_scope:
  assumes "list_all (\<lambda>(t1, t2, f). parse (sf_ScopeID f) = Inl err) qs"
    and "ca_client a = Some client" and "ca_breaker a = Some b"
  shows "\<exists>cs. list_all failing cs \<and> length cs = length qs \<and>
     run_signals str parse quote a qs sent = (a\<lparr>ca_breaker := Some (run_calls b cs)\<rparr>, sent)"
  using assms
proof (induction qs arbitrary: a b)
  case (Cons q qs)
  obtain t1 t2 f where q: "q = (t1, t2, f)" by (cases q)
  have scope: "parse (sf_ScopeID f) = Inl err" using Cons.prems(1) by (simp add: q)
  obtain e err' where g: "chronos_GetSignals str parse quote t1 t2 a f sent =
     (Some (Inl e), a\<lparr>ca_breaker := Some (after_call b (t1, Some err', t2))\<rparr>, sent)"
    using GetSignals_bad_scope [of parse f err a client b, OF scope Cons.prems(2,3)] by blast
  obtain cs where "list_all failing cs" "length cs = length qs"
    "run_signals str parse quote (a\<lparr>ca_breaker := Some (after_call b (t1, Some err', t2))\<rparr>) qs sent =
       (a\<lparr>ca_breaker := Some (run_calls (after_call b (t1, Some err', t2)) cs)\<rparr>, sent)"
    using Cons.IH [of "a\<lparr>ca_breaker := Some (after_call b (t1, Some err', t2))\<rparr>"] Cons.prems by auto
  then show ?case
    by (intro exI [of _ "(t1, Some err', t2) # cs"]) (simp add: q g)
qed auto


text \<open>The pattern names survive the way through the protocol; any other name is dropped.\<close>

lemma pattern_roundtrip:
  "patternTypeToString (patternTypeFromString s) =
     (if s \<in> {''recurrence'', ''trend'', ''spike'', ''drop'', ''stall'', ''anomaly'', ''seasonality'', ''correlation''}
      then s else [])"
  by (simp add: patternTypeFromString_def)

lemma pattern_roundtrip_pb:
  "patternTypeToString p \<noteq> [] \<Longrightarrow> patternTypeFromString (patternTypeToString p) = p"
  by (cases p) (simp_all add: patternTypeFromString_def)


section \<open>The evaluation pass behind the Chronos adapter\<close>

text \<open>
  A client of the port whose every answer is one the adapter gives, in whatever state the
  adapter is and at whatever time it is asked.
\<close>

definition served_by_chronos ::
  "(uuid \<Rightarrow> string) \<Rightarrow> (string \<Rightarrow> error + uuid) \<Rightarrow> (string \<Rightarrow> string) \<Rightarrow> ChronosClient \<Rightarrow> bool" where
  "served_by_chronos str parse quote client \<longleftrightarrow>
     (\<forall>lg f. \<exists>t1 t2 a sent. fst (chronos_GetSignals str parse quote t1 t2 a f sent) = Some (GetSignals client lg f))"

lemma case_sum_isl: "isl r \<Longrightarrow> (case r of Inl _ \<Rightarrow> x | Inr y \<Rightarrow> f y) = x"
  by (cases r) auto

lemma fetchSignals_dark:
  assumes "served_by_chronos str parse quote client" and "parse [] = Inl err" and "e_chronos e = Some client"
  shows "fst (fetchSignals e c lookback now w) = []"
proof -
  have "isl (GetSignals client (w_out w) f)" if "sf_ScopeID f = []" for f
    using assms(1) GetSignals_never [of parse f err] assms(2) that unfolding served_by_chronos_def by metis
  then show ?thesis
    by (simp add: fetchSignals_def assms(3) Let_def case_sum_isl)
qed

definition no_escalation :: "state \<Rightarrow> bool" where
  "no_escalation st \<longleftrightarrow> list_all (\<lambda>iv. iv_Type iv \<noteq> InterventionEscalation) (rows_of (st_interventions st))"

lemma no_escalation_simps [simp]:
  "no_escalation (snd (commitmentRepo_UpdateRisk str st k x t)) = no_escalation st"
  "no_escalation (snd (decisionRepo_Save str st d)) = no_escalation st"
  by (simp_all add: no_escalation_def commitmentRepo_UpdateRisk_def decisionRepo_Save_def Let_def split: option.split)

lemma no_escalation_save:
  "no_escalation st \<Longrightarrow> iv_Type iv \<noteq> InterventionEscalation \<Longrightarrow> no_escalation (snd (interventionRepo_Save str st iv))"
  using set_update [of "str (iv_ID iv)" "cloneIntervention iv" "st_interventions st"]
  by (auto simp: no_escalation_def interventionRepo_Save_def list_all_iff cloneIntervention_def split: option.split)

lemma recordDecision_store:
  "w_store (snd (recordDecision rt e c a sigs now w)) = w_store w \<or>
   (\<exists>d. w_store (snd (recordDecision rt e c a sigs now w)) = snd (DSave (e_decisions e) (w_store w) d))"
proof (cases "NewDecision (rt_uuid rt (w_ids w)) ''commitment.evaluate'' ''Risk evaluated against current signals.'' (ra_Confidence a) now")
  case (Inl err)
  then show ?thesis by (simp add: recordDecision_def Let_def)
next
  case (Inr dec)
  let ?d = "dec\<lparr>d_ContextRefs := [] @ c_SourceRefs c, d_Inputs := Some [(''commitment_id'', VString (rt_str rt (c_ID c))),
      (''signal_count'', VInt (int (length sigs)))], d_Weights := Some (risk_Engine_Weights (e_risk e)),
      d_Outcome := Some [(''risk_score'', VFloat (ra_Score a)), (''factors'', VSlice ''RiskFactor'' (map any_of_factor (ra_Factors a)))]\<rparr>"
  obtain r st where save: "DSave (e_decisions e) (w_store w) ?d = (r, st)" by fastforce
  have "w_store (snd (recordDecision rt e c a sigs now w)) = st"
    using save by (cases r; cases "e_mnemos e") (simp_all add: recordDecision_def Inr Let_def)
  then show ?thesis using save by (metis snd_conv)
qed

lemma Evaluate_save_store: "w_store (snd (Evaluate_save rt e c iv res w)) = snd (ISave (e_interventions e) (w_store w) iv)"
  by (cases "ISave (e_interventions e) (w_store w) iv"; cases "e_metrics e"; cases "e_praxis e"; cases "fst (ISave (e_interventions e) (w_store w) iv)")
     (simp_all add: Evaluate_save_def praxisDryRun_def Let_def metric_defs)

text \<open>
  A property of the store that scores, decisions and the interventions the policy makes of
  the assessment keep is kept by the step of one commitment.
\<close>

lemma Evaluate_one_store:
  assumes risk: "\<And>st x. P st \<Longrightarrow> P (snd (CUpdateRisk (e_commitments e) st (c_ID c) x now))"
    and dec: "\<And>st d. P st \<Longrightarrow> P (snd (DSave (e_decisions e) st d))"
    and iv: "\<And>st iv i. P st \<Longrightarrow> MaybeIntervene (rt_printable rt) i (e_intervention e) c
       (EvaluateCommitment (e_risk e) c (fst (fetchSignals e c (eo_SignalLookback opts) now w)) mems now) now = Inr (Some iv) \<Longrightarrow>
       P (snd (ISave (e_interventions e) st iv))"
    and mems: "mems = fst (fetchMemories e c now (snd (fetchSignals e c (eo_SignalLookback opts) now w)))"
    and P: "P (w_store w)"
  shows "P (w_store (snd (Evaluate_one rt e opts now c res w)))"
proof -
  obtain sigs w1 where f: "fetchSignals e c (eo_SignalLookback opts) now w = (sigs, w1)" by fastforce
  obtain ms w2 where m: "fetchMemories e c now w1 = (ms, w2)" by fastforce
  let ?a = "EvaluateCommitment (e_risk e) c sigs ms now"
  let ?w3 = "if e_metrics e then ObserveRiskScore ''scored'' (ra_Score ?a) w2 else w2"
  have w3: "w_store ?w3 = w_store w"
    using arg_cong [OF f, of "\<lambda>x. w_store (snd x)"] arg_cong [OF m, of "\<lambda>x. w_store (snd x)"] by simp
  obtain r st where u: "CUpdateRisk (e_commitments e) (w_store ?w3) (c_ID c) (ra_Score ?a) now = (r, st)" by fastforce
  have st: "P st" using risk [OF P, of "ra_Score ?a"] u w3 by simp
  let ?w4 = "?w3\<lparr>w_store := st\<rparr>"
  have decide: "P (w_store (snd (Evaluate_decide rt e c ?a sigs now res' ?w4)))" for res'
  proof -
    obtain d w5 where d: "recordDecision rt e c ?a sigs now ?w4 = (d, w5)" by fastforce
    have w5: "P (w_store w5)"
      using recordDecision_store [of rt e c ?a sigs now ?w4] dec [OF st] d st by auto
    obtain x w6 where x: "intervene rt e c ?a now w5 = (x, w6)" by fastforce
    have w6: "w_store w6 = w_store w5" using x by (auto simp: intervene_def Let_def split: sum.splits option.splits)
    have call: "x = MaybeIntervene (rt_printable rt) (rt_uuid rt (w_ids w5)) (e_intervention e) c ?a now"
      using x by (simp add: intervene_def Let_def)
    show ?thesis
    proof (cases x)
      case (Inl err)
      then show ?thesis using w5 w6 by (simp add: Evaluate_decide_def d x Let_def)
    next
      case (Inr y)
      then show ?thesis
        using w5 w6 iv [OF w5, of "rt_uuid rt (w_ids w5)"] call
        by (cases y) (simp_all add: Evaluate_decide_def d x Let_def Evaluate_save_store f m mems)
    qed
  qed
  show ?thesis
    using decide st u by (cases r) (simp_all add: Evaluate_one_def f m Let_def)
qed

definition default_engines :: "'s Evaluator \<Rightarrow> bool" where
  "default_engines e \<longleftrightarrow> e_risk e = risk_New risk_DefaultConfig \<and> e_intervention e = intervention_New intervention_DefaultConfig"

lemma default_engines_assess:
  "EvaluateCommitment (risk_New risk_DefaultConfig) c sigs mems now = default_assessment c sigs now"
  by (simp add: default_assessment_def EvaluateCommitment_def)

lemma Evaluate_one_quiet:
  assumes "memory_wired rt r e" and "default_engines e" and "Commitment_Validate c = None"
    and dark: "fst (fetchSignals e c (eo_SignalLookback opts) now w) = []" and "no_escalation (w_store w)"
  shows "no_escalation (w_store (snd (Evaluate_one rt e opts now c res w)))"
proof (rule Evaluate_one_store [where P = no_escalation, OF _ _ _ refl assms(5)])
  fix st iv i
  assume "no_escalation st" and iv: "MaybeIntervene (rt_printable rt) i (e_intervention e) c
     (EvaluateCommitment (e_risk e) c (fst (fetchSignals e c (eo_SignalLookback opts) now w))
        (fst (fetchMemories e c now (snd (fetchSignals e c (eo_SignalLookback opts) now w)))) now) now = Inr (Some iv)"
  then have "iv_Type iv \<noteq> InterventionEscalation"
    using default_escalation_signal [OF assms(3), of "rt_printable rt" i "[]" now iv] assms(2)
    by (auto simp: dark default_engines_assess default_engines_def)
  with \<open>no_escalation st\<close> show "no_escalation (snd (ISave (e_interventions e) st iv))"
    by (simp add: wired_ops [OF assms(1)] no_escalation_save)
qed (simp_all add: wired_ops [OF assms(1)])

lemma Evaluate_loop_quiet:
  assumes "memory_wired rt r e" and "default_engines e" and "served_by_chronos str parse quote client"
    and "parse [] = Inl err" and "e_chronos e = Some client"
    and "list_all (\<lambda>c. Commitment_Validate c = None) cs" and "no_escalation (w_store w)"
  shows "no_escalation (w_store (snd (Evaluate_loop rt e opts now i cs res w)))"
  using assms(6,7)
proof (induction cs arbitrary: i res w)
  case (Cons c cs)
  obtain res' w' where one: "Evaluate_one rt e opts now c res w = (res', w')" by fastforce
  have "no_escalation (w_store w')"
    using Evaluate_one_quiet [OF assms(1,2) _ fetchSignals_dark [OF assms(3-5)], of c w opts now res] Cons.prems one by simp
  then show ?case using Cons.IH [of w'] Cons.prems one by (simp split: option.split)
qed simp

text \<open>
  (C5) Chronos never reaches the risk engine. The evaluation pass asks for signals without a
  scope, and the adapter refuses a scope that is not a UUID before it sends anything; so
  behind the real adapter (any client that answers as the adapter does in some state), the
  pass over the memory store with the default engines, whatever Chronos knows, never stores
  an escalation: with none stored before, none is stored afterwards.
\<close>

theorem chronos_never_escalates:
  assumes "memory_wired rt r e" and "default_engines e" and "range_order (rng_c r)" and "state_wf (rt_str rt) (w_store w)"
    and "served_by_chronos str parse quote client" and "parse [] = Inl err" and "e_chronos e = Some client"
    and "no_escalation (w_store w)"
  shows "no_escalation (w_store (snd (Evaluate rt e opts w)))"
proof -
  obtain cs where cs: "commitmentRepo_FindActive (rng_c r) (w_store w) (eo_Limit opts) = Inr cs"
    by (simp add: commitmentRepo_FindActive_def Let_def)
  have tw: "table_wf (rt_str rt) c_ID (\<lambda>c. Commitment_Validate c = None) (st_commitments (w_store w))"
    using assms(4) by (simp add: state_wf_def)
  have "Evaluate rt e opts w = Evaluate_loop rt e opts (e_clock e (w_ticks w)) 0 cs (start_result cs) (start_world e w)"
    using cs by (intro Evaluate_scanned) (simp add: wired_ops [OF assms(1)])
  moreover have "list_all (\<lambda>c. Commitment_Validate c = None) cs"
    using FindActive_rows [OF assms(3) cs] table_wf_ok [OF tw] by (fastforce simp: list_all_iff)
  ultimately show ?thesis
    using Evaluate_loop_quiet [OF assms(1,2,5,6,7)] assms(8) by simp
qed

text \<open>A connected adapter whose Chronos reports a spike whatever it is asked.\<close>

definition sample_parse :: "string \<Rightarrow> error + uuid" where
  "sample_parse s = (if s = [] then Inl (ErrPlain ''invalid UUID length: 0'') else Inr 7)"

definition sample_signal :: pb_Signal where
  "sample_signal = \<lparr>pb_Id = ''a'', pb_Pattern = PATTERN_TYPE_SPIKE, pb_ScopeId = ''b'', pb_Series = ''c'',
     pb_Confidence = 1, pb_DetectedAt = Some 1900\<rparr>"

definition sample_dial :: "string \<Rightarrow> string option \<Rightarrow> error + chronos_stub" where
  "sample_dial addr tls = Inr (\<lambda>sent req. Inr [sample_signal])"

definition sample_adapter :: chronos_Adapter where
  "sample_adapter = \<lparr>ca_client = Some (\<lambda>sent req. Inr [sample_signal]), ca_bearerToken = [],
     ca_breaker = Some (breaker_New breaker_DefaultConfig)\<rparr>"

lemma sample_NewGRPC: "chronos_NewGRPC (\<lambda>f. None) sample_dial ''chronos:7070'' [] [] = Inr sample_adapter"
  by (simp add: chronos_NewGRPC_def dial_adapter_def sample_dial_def sample_adapter_def)

definition sample_chronos :: ChronosClient where
  "sample_chronos = \<lparr>GetSignals = (\<lambda>lg f. case fst (chronos_GetSignals canonical_text sample_parse (\<lambda>s. s) 0 0 sample_adapter f []) of
     Some r \<Rightarrow> r | None \<Rightarrow> Inr [])\<rparr>"

lemma sample_chronos_served: "served_by_chronos canonical_text sample_parse (\<lambda>s. s) sample_chronos"
proof -
  have "fst (chronos_GetSignals canonical_text sample_parse (\<lambda>s. s) 0 0 sample_adapter f []) = Some (GetSignals sample_chronos lg f)" for f lg
    by (simp add: chronos_GetSignals_def sample_chronos_def sample_adapter_def split: prod.split)
  then show ?thesis unfolding served_by_chronos_def by blast
qed

lemma sample_chronos_wired:
  "memory_wired sample_runtime sample_orders (sample_evaluator\<lparr>e_chronos := Some sample_chronos\<rparr>)"
  "default_engines (sample_evaluator\<lparr>e_chronos := Some sample_chronos\<rparr>)"
  by (simp_all add: memory_wired_def default_engines_def sample_evaluator_def sample_runtime_def)

theorem chronos_never_escalates_witness:
  "no_escalation (w_store (snd (Evaluate sample_runtime (sample_evaluator\<lparr>e_chronos := Some sample_chronos\<rparr>)
     \<lparr>eo_Limit = 0, eo_SignalLookback = 0\<rparr> sample_world)))"
proof (rule chronos_never_escalates [OF sample_chronos_wired _ _ sample_chronos_served])
  show "state_wf (rt_str sample_runtime) (w_store sample_world)"
    using sample_store_wf by (simp add: sample_runtime_def sample_world_def)
  show "no_escalation (w_store sample_world)"
    by (simp add: no_escalation_def sample_world_def sample_store_def memory_empty_def)
qed (simp_all add: sample_orders_def sample_parse_def)

text \<open>
  And after five questions the probe fails for good: from the adapter built for an address,
  once five or more queries without a scope have been made, at whatever times, nothing has
  been sent to Chronos, the breaker is not closed, and the health check of the process
  reports an error however healthy everything else is.
\<close>

lemma chronos_queries_fail_the_probe:
  assumes "chronos_NewGRPC load dial addr tls token = Inr a" and "addr \<noteq> []" and "parse [] = Inl err"
    and "list_all (\<lambda>(t1, t2, f). sf_ScopeID f = []) qs" and "5 \<le> length qs"
  shows "\<exists>a'. run_signals str parse quote a qs sent = (a', sent)
    \<and> chronos_AdapterStatus a' \<noteq> ''healthy''
    \<and> healthCheck ping mnemosAddr mnemos addr (Some a') praxisAddr praxis \<noteq> None"
proof -
  obtain client where a: "ca_client a = Some client" "ca_breaker a = Some (breaker_New breaker_DefaultConfig)"
    using assms(1,2) by (auto simp: chronos_NewGRPC_def split: sum.splits)
  have "list_all (\<lambda>(t1, t2, f). parse (sf_ScopeID f) = Inl err) qs"
    using assms(3,4) by (auto simp: list_all_iff)
  from run_signals_bad_scope [OF this a] obtain cs where cs: "list_all failing cs" "length cs = length qs"
    "run_signals str parse quote a qs sent = (a\<lparr>ca_breaker := Some (run_calls (breaker_New breaker_DefaultConfig) cs)\<rparr>, sent)"
    by blast
  let ?a = "a\<lparr>ca_breaker := Some (run_calls (breaker_New breaker_DefaultConfig) cs)\<rparr>"
  have "b_state (run_calls (breaker_New breaker_DefaultConfig) cs) \<noteq> StateClosed"
    using enough_failures_open [OF cs(1)] cs(2) assms(5) by simp
  then have status: "chronos_AdapterStatus ?a \<noteq> ''healthy''"
    by (auto simp: chronos_AdapterStatus_def breaker_status_def breaker_State_of_def split: breaker_State.split)
  then have "healthCheck ping mnemosAddr mnemos addr (Some ?a) praxisAddr praxis \<noteq> None"
    using assms(2) by (simp add: healthCheck_def probe_def split: option.split)
  with status cs(3) show ?thesis by blast
qed

section \<open>The Praxis adapter\<close>

text \<open>A sequence of calls: what each call meets, its clock readings, and which one it is.\<close>

datatype praxis_op = OpListCapabilities | OpDryRun ActionRequest | OpExecute ActionRequest

fun praxis_step :: "praxis_Adapter \<times> messages \<Rightarrow> praxis_env \<times> time \<times> time \<times> praxis_op \<Rightarrow> praxis_Adapter \<times> messages" where
  "praxis_step (a, sent) (e, t1, t2, OpListCapabilities) = snd (praxis_ListCapabilities e t1 t2 a sent)"
| "praxis_step (a, sent) (e, t1, t2, OpDryRun req) = snd (praxis_DryRun e t1 t2 a req sent)"
| "praxis_step (a, sent) (e, t1, t2, OpExecute req) = snd (praxis_Execute e t1 t2 a req sent)"

text \<open>Whatever the call, it is one round of \<open>praxis_do\<close>, with a decoder of its own.\<close>

lemma praxis_step_do:
  assumes "pc_Addr (pa_cfg a) \<noteq> []"
  shows "\<exists>meth path body.
     praxis_step (a, sent) (e, t1, t2, op) = snd (praxis_do e t1 t2 a meth path body (px_decodeCapabilities e) sent)
   \<or> praxis_step (a, sent) (e, t1, t2, op) = snd (praxis_do e t1 t2 a meth path body (px_decodeSimulation e) sent)
   \<or> praxis_step (a, sent) (e, t1, t2, op) = snd (praxis_do e t1 t2 a meth path body (px_decodeResult e) sent)"
proof -
  have out: "snd (case r of (None, a, sent) \<Rightarrow> (None, a, sent) | (Some (Inl err), a, sent) \<Rightarrow> (Some (Inl err), a, sent)
      | (Some (Inr y), a, sent) \<Rightarrow> (Some (Inr (f y)), a, sent)) = snd r"
    for r :: "(error + 'x) option \<times> praxis_Adapter \<times> messages" and f :: "'x \<Rightarrow> 'y"
    by (auto split: prod.split option.split sum.split)
  show ?thesis
  proof (cases op)
    case OpListCapabilities
    then show ?thesis using assms by (simp add: praxis_ListCapabilities_def out) blast
  next
    case (OpDryRun req)
    then show ?thesis using assms by (simp add: praxis_DryRun_def Let_def out) blast
  next
    case (OpExecute req)
    then show ?thesis using assms by (simp add: praxis_Execute_def Let_def out) blast
  qed
qed

text \<open>
  The constraints of a request never reach the wire: the adapter does the same whatever they
  are.
\<close>

lemma praxis_Execute_ignores_constraints:
  "praxis_Execute e t1 t2 a (req\<lparr>ar_Constraints := cs\<rparr>) sent = praxis_Execute e t1 t2 a req sent"
  by (simp add: praxis_Execute_def actionFromRequest_def Let_def split: prod.split option.split sum.split)

text \<open>While Praxis cannot be reached, and the request itself can be built.\<close>

definition praxis_down :: "praxis_env \<times> time \<times> time \<times> praxis_op \<Rightarrow> bool" where
  "praxis_down x = (case x of (e, t1, t2, op) \<Rightarrow>
     (\<forall>sent msg. isl (px_send e sent msg)) \<and> (\<forall>w. \<not> isl (px_marshal e w)) \<and> (\<forall>u. px_NewRequest e u = None))"

lemma praxis_do_down:
  assumes "praxis_down (e, t1, t2, op)" and "pa_breaker a = Some b" and "b_state b = StateClosed"
  shows "\<exists>err sent'. snd (praxis_do e t1 t2 a meth path body decode sent) =
     (a\<lparr>pa_breaker := Some (after_call b (t1, Some err, t2)), pa_health := ''degraded''\<rparr>, sent')"
proof -
  have "\<not> isl (marshal_body e body)"
    using assms(1) by (auto simp: praxis_down_def marshal_body_def split: option.split sum.split)
       (metis isl_def)
  then obtain buf where buf: "marshal_body e body = Inr buf" by (cases "marshal_body e body") auto
  let ?m = "praxis_message a meth path buf"
  have "isl (px_send e sent ?m)" using assms(1) by (simp add: praxis_down_def)
  then obtain err where send: "px_send e sent ?m = Inl err" by (auto simp: isl_def)
  have call: "Call b t1 (Some err) t2 = (True, Some err, onFailure t2 b)" using assms(3) by (simp add: Call_def Let_def)
  then have "through_breaker b t1 t2 (send_request e ?m) sent = (Inl err, after_call b (t1, Some err, t2), sent @ [?m])"
    by (simp add: through_breaker_def send_request_def send after_call_def)
  then show ?thesis
    using assms(1,2) buf by (auto simp: praxis_do_def praxis_down_def)
qed

text \<open>A breaker that is shut sends nothing and leaves the adapter degraded.\<close>

definition praxis_dead :: "praxis_Adapter \<Rightarrow> bool" where
  "praxis_dead a \<longleftrightarrow> pc_Addr (pa_cfg a) \<noteq> [] \<and> pa_health a = ''degraded'' \<and> (case pa_breaker a of None \<Rightarrow> False | Some b \<Rightarrow> shut b)"

lemma praxis_do_dead:
  assumes "praxis_dead a"
  shows "\<exists>a'. snd (praxis_do e t1 t2 a meth path body decode sent) = (a', sent) \<and> praxis_dead a'"
proof -
  obtain b where b: "pa_breaker a = Some b" "shut b" using assms by (auto simp: praxis_dead_def split: option.splits)
  have tb: "\<exists>b'. through_breaker b t1 t2 body' sent = (Inl ErrCircuitOpen, b', sent) \<and> shut b'"
    for body' :: "messages \<Rightarrow> (error + int \<times> string) \<times> messages"
  proof -
    obtain r s' where "body' sent = (r, s')" by fastforce
    then show ?thesis
      using shut_Call [OF b(2), of t1 "case r of Inl e \<Rightarrow> Some e | Inr _ \<Rightarrow> None" t2]
      by (auto simp: through_breaker_def)
  qed
  show ?thesis
  proof (cases "marshal_body e body")
    case (Inl err)
    then show ?thesis using assms by (simp add: praxis_do_def)
  next
    case (Inr buf)
    obtain b' where "through_breaker b t1 t2 (send_request e (praxis_message a meth path buf)) sent = (Inl ErrCircuitOpen, b', sent)" "shut b'"
      using tb by blast
    then show ?thesis
      using assms Inr b by (cases "px_NewRequest e (TrimRightSlash (pc_Addr (pa_cfg a)) @ path)") (auto simp: praxis_do_def praxis_dead_def)
  qed
qed

lemma praxis_step_dead:
  assumes "praxis_dead a"
  shows "\<exists>a'. praxis_step (a, sent) x = (a', sent) \<and> praxis_dead a'"
proof -
  obtain e t1 t2 op where x: "x = (e, t1, t2, op)" by (metis prod_cases4)
  have "pc_Addr (pa_cfg a) \<noteq> []" using assms by (simp add: praxis_dead_def)
  from praxis_step_do [OF this, of sent e t1 t2 op] show ?thesis
    using praxis_do_dead [OF assms] unfolding x by metis
qed

lemma praxis_run_dead: "praxis_dead a \<Longrightarrow> \<exists>a'. foldl praxis_step (a, sent) xs = (a', sent) \<and> praxis_dead a'"
proof (induction xs arbitrary: a)
  case (Cons x xs)
  then show ?case using praxis_step_dead [of a sent x] by force
qed simp

lemma praxis_step_down:
  assumes "praxis_down x" and "pa_breaker a = Some b" and "b_state b = StateClosed" and "pc_Addr (pa_cfg a) \<noteq> []"
  shows "\<exists>c sent'. failing c \<and> praxis_step (a, sent) x =
     (a\<lparr>pa_breaker := Some (after_call b c), pa_health := ''degraded''\<rparr>, sent')"
proof -
  obtain e t1 t2 op where x: "x = (e, t1, t2, op)" by (metis prod_cases4)
  from praxis_step_do [OF assms(4), of sent e t1 t2 op] show ?thesis
    using praxis_do_down [OF assms(1) [unfolded x] assms(2,3)] failing_Some unfolding x by metis
qed

lemma praxis_run_down:
  assumes "list_all praxis_down xs" and "pa_breaker a = Some b" and "b_state b = StateClosed"
    and "b_failures b + int (length xs) \<le> bc_MaxFailures (b_config b)" and "pc_Addr (pa_cfg a) \<noteq> []" and "xs \<noteq> []"
    and "0 \<le> b_failures b" and "int_limits (b_config b)"
  shows "\<exists>cs sent'. list_all failing cs \<and> length cs = length xs \<and> foldl praxis_step (a, sent) xs =
     (a\<lparr>pa_breaker := Some (run_calls b cs), pa_health := ''degraded''\<rparr>, sent')"
  using assms
proof (induction xs arbitrary: a b sent)
  case (Cons x xs)
  obtain c s1 where c: "failing c" and st: "praxis_step (a, sent) x =
     (a\<lparr>pa_breaker := Some (after_call b c), pa_health := ''degraded''\<rparr>, s1)"
    using praxis_step_down [of x a b sent] Cons.prems by auto
  let ?a = "a\<lparr>pa_breaker := Some (after_call b c), pa_health := ''degraded''\<rparr>"
  show ?case
  proof (cases "xs = []")
    case True
    then show ?thesis using c st by (intro exI [of _ "[c]"] exI [of _ s1]) simp
  next
    case False
    obtain t1 err t2 where "c = (t1, Some err, t2)" using c by (cases c) (auto simp: failing_def)
    then have "after_call b c = onFailure t2 b" using Call_closed_failure Cons.prems(3) by simp
    moreover have "b_failures b + 1 < bc_MaxFailures (b_config b)" using Cons.prems(4) False by (cases xs) simp_all
    ultimately have "b_state (after_call b c) = StateClosed" "b_failures (after_call b c) = b_failures b + 1"
      using Cons.prems(3) failure_below [OF Cons.prems(7,8), of t2] by simp_all
    then obtain cs sent' where "list_all failing cs" "length cs = length xs"
      "foldl praxis_step (?a, s1) xs = (?a\<lparr>pa_breaker := Some (run_calls (after_call b c) cs), pa_health := ''degraded''\<rparr>, sent')"
      using Cons.IH [of ?a "after_call b c" s1] Cons.prems False by auto
    then show ?thesis using c st by (intro exI [of _ "c # cs"] exI [of _ sent']) simp
  qed
qed simp

definition praxis_breaker :: Breaker where
  "praxis_breaker = breaker_New \<lparr>bc_MaxFailures = 3, bc_Timeout = 0, bc_MaxRequests = 0\<rparr>"

lemma praxis_breaker_fields [simp]:
  "b_state praxis_breaker = StateClosed" "b_failures praxis_breaker = 0" "b_halfOpenRequests praxis_breaker = 0"
  "bc_MaxFailures (b_config praxis_breaker) = 3" "bc_MaxRequests (b_config praxis_breaker) = 0"
  "int_limits (b_config praxis_breaker)"
  by (simp_all add: praxis_breaker_def breaker_New_def int_limits_def max_int64_def)

lemma three_failures_shut:
  assumes "list_all failing cs" and "length cs = 3"
  shows "shut (run_calls praxis_breaker cs)"
proof -
  obtain c1 c2 c3 where three: "cs = [c1, c2] @ [c3]"
    using assms(2) by (auto simp: numeral_3_eq_3 length_Suc_conv)
  obtain t1 r t2 where c3: "c3 = (t1, r, t2)" by (cases c3)
  have "b_state (run_calls praxis_breaker cs) = StateOpen" "b_config (run_calls praxis_breaker cs) = b_config praxis_breaker"
    using trips [of praxis_breaker "[c1, c2]" t1 r t2] assms(1) unfolding three c3 by simp_all
  moreover have "0 \<le> b_halfOpenRequests (run_calls praxis_breaker cs)" by (rule run_calls_halfOpen) simp_all
  ultimately show ?thesis by (simp add: shut_def)
qed

lemma praxis_three_down:
  assumes "pc_Addr cfg \<noteq> []" and "length xs = 3" and "list_all praxis_down xs"
    and "foldl praxis_step (praxis_NewAdapter ReadFile AppendCerts cfg, sent) xs = (a, sent1)"
  shows "praxis_dead a"
proof -
  let ?n = "praxis_NewAdapter ReadFile AppendCerts cfg"
  have n: "pa_breaker ?n = Some praxis_breaker" "pa_cfg ?n = cfg"
    using assms(1) by (simp_all add: praxis_NewAdapter_def praxis_breaker_def)
  have "b_failures praxis_breaker + int (length xs) \<le> bc_MaxFailures (b_config praxis_breaker)" "xs \<noteq> []"
    using assms(2) by auto
  from praxis_run_down [OF assms(3) n(1) praxis_breaker_fields(1) this(1) _ this(2), of sent]
  obtain cs sent' where "list_all failing cs" "length cs = length xs"
    "foldl praxis_step (?n, sent) xs = (?n\<lparr>pa_breaker := Some (run_calls praxis_breaker cs), pa_health := ''degraded''\<rparr>, sent')"
    using assms(1) n(2) by auto
  with three_failures_shut [of cs] show ?thesis
    using assms n by (auto simp: praxis_dead_def)
qed

text \<open>
  (C9) Three failures end Praxis for good. The adapter builds its breaker without
  \<^verbatim>\<open>MaxRequests\<close>; so from the adapter built for an address, when three calls in a row, of any
  kind, find Praxis unreachable, then whatever calls follow, at whatever times, and however
  well Praxis answers by then, not one more request is sent, and the adapter and the health
  check of the process report it degraded until a restart.
\<close>

theorem praxis_adapter_never_recovers:
  assumes "pc_Addr cfg \<noteq> []" and "length xs = 3" and "list_all praxis_down xs"
    and "foldl praxis_step (praxis_NewAdapter ReadFile AppendCerts cfg, sent) xs = (a, sent1)"
    and "foldl praxis_step (a, sent1) later = (a', sent2)"
  shows "sent2 = sent1 \<and> praxis_AdapterStatus a' = ''degraded''
    \<and> healthCheck ping mnemosAddr mnemos chronosAddr chronos (pc_Addr cfg) (Some a') \<noteq> None"
proof -
  have "praxis_dead a" using assms(1-4) by (rule praxis_three_down)
  from praxis_run_dead [OF this, of sent1 later] have d: "sent2 = sent1" "praxis_dead a'" using assms(5) by auto
  then have "praxis_AdapterStatus a' = ''degraded''" by (simp add: praxis_dead_def praxis_AdapterStatus_def)
  with d(1) show ?thesis
    using assms(1) by (simp add: healthCheck_def probe_def split: option.split)
qed

definition sample_px :: "(error + int \<times> string) \<Rightarrow> praxis_env" where
  "sample_px answer = \<lparr>px_str = canonical_text, px_new = (\<lambda>n. 9), px_marshal = (\<lambda>w. Inr ''{}''),
     px_decodeCapabilities = (\<lambda>s. Inr []), px_decodeResult = (\<lambda>s. Inl (ErrPlain ''EOF'')),
     px_decodeSimulation = (\<lambda>s. Inl (ErrPlain ''EOF'')), px_NewRequest = (\<lambda>u. None),
     px_send = (\<lambda>sent msg. answer), px_fmt_v = (\<lambda>v. []), px_range = (\<lambda>m. m)\<rparr>"

definition down_calls :: "(praxis_env \<times> time \<times> time \<times> praxis_op) list" where
  "down_calls = replicate 3 (sample_px (Inl (ErrPlain ''connection refused'')), 0, 0, OpListCapabilities)"

definition sample_px_cfg :: praxis_Config where
  "sample_px_cfg = \<lparr>pc_Addr = ''http://praxis'', pc_TLSCertFile = [], pc_BearerToken = [], pc_CallTimeout = 0\<rparr>"

theorem praxis_adapter_never_recovers_witness:
  "\<exists>a sent1 a' sent2.
     foldl praxis_step (praxis_NewAdapter (\<lambda>p. Inl (ErrPlain p)) (\<lambda>p. None) sample_px_cfg, []) down_calls = (a, sent1)
   \<and> foldl praxis_step (a, sent1) [(sample_px (Inr (200, ''{}'')), 1000 * hour, 1000 * hour, OpListCapabilities)] = (a', sent2)
   \<and> sent2 = sent1 \<and> praxis_AdapterStatus a' = ''degraded''"
proof -
  obtain a sent1 where r: "foldl praxis_step (praxis_NewAdapter (\<lambda>p. Inl (ErrPlain p)) (\<lambda>p. None) sample_px_cfg, []) down_calls = (a, sent1)"
    by fastforce
  obtain a' sent2 where l: "foldl praxis_step (a, sent1) [(sample_px (Inr (200, ''{}'')), 1000 * hour, 1000 * hour, OpListCapabilities)] = (a', sent2)"
    by (metis surj_pair)
  have h: "pc_Addr sample_px_cfg \<noteq> []" "length down_calls = 3" "list_all praxis_down down_calls"
    by (simp_all add: sample_px_cfg_def down_calls_def praxis_down_def sample_px_def list_all_iff)
  from praxis_adapter_never_recovers [OF h r l] show ?thesis using r l by blast
qed

end

