(* ===== verification/Nous_Main.thy ===== *)
theory Nous_Main
  imports Config_Load Llm_Providers Adapter_Laws Http_Server
begin

text \<open>
  \<^verbatim>\<open>cmd/nous/main.go\<close>: how \<^verbatim>\<open>run\<close> builds the engines, the pipelines, the extractor, the
  keys and the TLS set-up from the configuration. The order in which it opens, serves and
  closes is in \<open>Nous_Process\<close>. The HTTP client, the AWS configuration, the
  certificate functions and the random source are arguments.
\<close>

section \<open>Engines and pipelines\<close>

definition run_riskCfg :: "Config \<Rightarrow> risk_Config" where
  "run_riskCfg cfg =
    (let k = cf_Risk cfg; riskCfg = risk_DefaultConfig;
         riskCfg = (if 0 < rk_OverdueWeight k then riskCfg\<lparr>rc_OverdueWeight := rk_OverdueWeight k\<rparr> else riskCfg);
         riskCfg = (if 0 < rk_DueSoonWeight k then riskCfg\<lparr>rc_DueSoonWeight := rk_DueSoonWeight k\<rparr> else riskCfg);
         riskCfg = (if 0 < rk_DueSoonWindow k then riskCfg\<lparr>rc_DueSoonWindow := rk_DueSoonWindow k\<rparr> else riskCfg);
         riskCfg = (if 0 < rk_ConfidenceWeight k then riskCfg\<lparr>rc_ConfidenceWeight := rk_ConfidenceWeight k\<rparr> else riskCfg);
         riskCfg = (if 0 < rk_SignalWeight k then riskCfg\<lparr>rc_SignalWeight := rk_SignalWeight k\<rparr> else riskCfg)
     in riskCfg)"

definition run_ivCfg :: "Config \<Rightarrow> intervention_Config" where
  "run_ivCfg cfg =
    (let k = cf_Intervention cfg; ivCfg = intervention_DefaultConfig;
         ivCfg = (if 0 < ik_NudgeThreshold k then ivCfg\<lparr>ic_NudgeThreshold := ik_NudgeThreshold k\<rparr> else ivCfg);
         ivCfg = (if 0 < ik_EscalateThreshold k then ivCfg\<lparr>ic_EscalateThreshold := ik_EscalateThreshold k\<rparr> else ivCfg);
         ivCfg = (if 0 < ik_AutomationConfidence k then ivCfg\<lparr>ic_AutomationConfidence := ik_AutomationConfidence k\<rparr> else ivCfg)
     in ivCfg)"

text \<open>
  \<open>buildCommitmentExtractor\<close>; \<open>marshal\<close> is the JSON text of the few-shot drafts. The scripted extractor
  it falls back to has no rules.
\<close>

record llm_env =
  lv_http :: http_client
  lv_aws :: "string option \<Rightarrow> error + aws_client"
  lv_why :: "string \<Rightarrow> error"
  lv_marshal :: "FewShotDraft list \<Rightarrow> error + string"

definition llm_extractor :: "llm_env \<Rightarrow> Provider \<Rightarrow> string \<Rightarrow> CommitmentExtractor" where
  "llm_extractor v p name = LLMExtractor_Extract (lv_marshal v) (NewLLMExtractor p [WithContextBudget (BudgetFor name)])"

definition ollama_provider :: "llm_env \<Rightarrow> LLMConfig \<Rightarrow> OpenAIProvider" where
  "ollama_provider v c =
    (let base = (if lc_BaseURL c = [] then ''http://localhost:11434/v1'' else lc_BaseURL c);
         model = (if lc_Model c = [] then ''llama3.2'' else lc_Model c)
     in NewOpenAIProvider (lv_http v) ''ollama'' model [WithOpenAIBaseURL base])"

definition buildCommitmentExtractor :: "llm_env \<Rightarrow> LLMConfig \<Rightarrow> CommitmentExtractor" where
  "buildCommitmentExtractor v c =
    (if lc_Provider c = ''anthropic'' then
       (let opts = (if lc_BaseURL c \<noteq> [] then [WithAnthropicBaseURL (lc_BaseURL c)] else []) in
        llm_extractor v (Anthropic_ExtractCommitments (lv_why v)
          (NewAnthropicProvider (lv_http v) (lc_APIKey c) (lc_Model c) opts)) ''anthropic'')
     else if lc_Provider c = ''openai'' then
       (let opts = (if lc_BaseURL c \<noteq> [] then [WithOpenAIBaseURL (lc_BaseURL c)] else []) in
        llm_extractor v (OpenAI_ExtractCommitments (lv_why v)
          (NewOpenAIProvider (lv_http v) (lc_APIKey c) (lc_Model c) opts)) ''openai'')
     else if lc_Provider c = ''gemini'' then
       (let opts = (if lc_BaseURL c \<noteq> [] then [WithGeminiBaseURL (lc_BaseURL c)] else []) in
        llm_extractor v (Gemini_ExtractCommitments (lv_why v)
          (NewGeminiProvider (lv_http v) (lc_APIKey c) (lc_Model c) opts)) ''gemini'')
     else if lc_Provider c = ''bedrock'' then
       (case NewBedrockProvider (lv_aws v) (lc_BaseURL c) (lc_Model c) [] of
          Inl err \<Rightarrow> ScriptedExtractor_Extract []
        | Inr p \<Rightarrow> llm_extractor v (Bedrock_ExtractCommitments (lv_why v) p) ''bedrock'')
     else if lc_Provider c = ''ollama'' then
       llm_extractor v (OpenAI_ExtractCommitments (lv_why v) (ollama_provider v c)) ''openai''
     else ScriptedExtractor_Extract [])"

text \<open>The two pipelines over the repositories of the store and the three clients.\<close>

definition run_pipelines ::
  "llm_env \<Rightarrow> (nat \<Rightarrow> time) \<Rightarrow> 's Conn \<Rightarrow> MnemosClient \<Rightarrow> ChronosClient \<Rightarrow> PraxisClient \<Rightarrow> Config \<Rightarrow>
   error + 's Extractor \<times> 's Evaluator" where
  "run_pipelines v time_Now conn mnemos chronos praxis cfg =
    (case NewExtractor time_Now \<lparr>xc_Commitments = Some (conn_Commitments conn), xc_Decisions = Some (conn_Decisions conn),
         xc_Extractor = Some (buildCommitmentExtractor v (cf_LLM cfg)), xc_MinConfidence = Extract_MinConfidence cfg,
         xc_Clock = None, xc_Metrics = True\<rparr> of
       Inl err \<Rightarrow> Inl err
     | Inr extractor \<Rightarrow>
        (case NewEvaluator time_Now \<lparr>ec_Commitments = Some (conn_Commitments conn), ec_Decisions = Some (conn_Decisions conn),
             ec_Interventions = Some (conn_Interventions conn), ec_Mnemos = Some mnemos, ec_Chronos = Some chronos,
             ec_Praxis = Some praxis, ec_Risk = Some (risk_New (run_riskCfg cfg)),
             ec_Intervention = Some (intervention_New (run_ivCfg cfg)), ec_Clock = None, ec_Metrics = True\<rparr> of
           Inl err \<Rightarrow> Inl err
         | Inr evaluator \<Rightarrow> Inr (extractor, evaluator)))"


section \<open>Keys and certificates\<close>

datatype jwt_error =
    DecodeSecret hex_error | DecodePrevSecret hex_error | ShortSecret nat | ShortPrevSecret nat | RotatorError string

definition buildJWTRotator :: "string + string \<Rightarrow> time \<Rightarrow> Config \<Rightarrow> jwt_error + Rotator option" where
  "buildJWTRotator rand now cfg =
    (if JWTRotatePeriod cfg \<le> 0 then Inr None
     else
       let overlap = JWTRotateOverlap cfg;
           overlap = (if overlap \<le> 0 then JWTDefaultTTL cfg else overlap);
           overlap = (if overlap \<le> 0 then 1 * hour else overlap)
       in case (if JWTSecretHex cfg \<noteq> [] then hex_DecodeString (JWTSecretHex cfg) else Inr []) of
            Inl err \<Rightarrow> Inl (DecodeSecret err)
          | Inr seed \<Rightarrow> (case NewRotator rand now seed \<lparr>rc_Period = JWTRotatePeriod cfg, rc_Overlap = overlap\<rparr> of
               Inl err \<Rightarrow> Inl (RotatorError err) | Inr r \<Rightarrow> Inr (Some r)))"

definition configured_secret :: "(hex_error \<Rightarrow> jwt_error) \<Rightarrow> (nat \<Rightarrow> jwt_error) \<Rightarrow> string \<Rightarrow> jwt_error + string" where
  "configured_secret bad short hex = (case hex_DecodeString hex of
     Inl err \<Rightarrow> Inl (bad err) | Inr raw \<Rightarrow> if length raw < 32 then Inl (short (length raw)) else Inr raw)"

definition buildJWTVerifier :: "Config \<Rightarrow> jwt_error + Verifier option" where
  "buildJWTVerifier cfg =
    (if JWTSecretHex cfg = [] \<and> JWTPrevSecHex cfg = [] then Inr None
     else
       let ks = \<lparr>ActiveKID = JWTKID cfg, ActiveSecret = [], PreviousKID = JWTPrevKID cfg, PreviousSecret = None\<rparr>
       in case (if JWTSecretHex cfg \<noteq> [] then configured_secret DecodeSecret ShortSecret (JWTSecretHex cfg) else Inr []) of
            Inl err \<Rightarrow> Inl err
          | Inr active \<Rightarrow>
             (let ks = ks\<lparr>ActiveSecret := active\<rparr> in
              if JWTPrevSecHex cfg \<noteq> [] then
                (case configured_secret DecodePrevSecret ShortPrevSecret (JWTPrevSecHex cfg) of
                   Inl err \<Rightarrow> Inl err
                 | Inr raw \<Rightarrow> Inr (Some (NewVerifier (ks\<lparr>PreviousSecret := Some raw\<rparr>))))
              else Inr (Some (NewVerifier ks))))"

text \<open>The verifier of both transports: over the rotator when there is one.\<close>

definition run_verifier :: "string + string \<Rightarrow> time \<Rightarrow> Config \<Rightarrow> jwt_error + Verifier option" where
  "run_verifier rand now cfg = (case buildJWTRotator rand now cfg of
       Inl err \<Rightarrow> Inl err
     | Inr (Some r) \<Rightarrow> Inr (Some (NewVerifierFromRotator r))
     | Inr None \<Rightarrow> buildJWTVerifier cfg)"

text \<open>
  TLS of the two servers. \<open>load_pair\<close> is \<^verbatim>\<open>tls.LoadX509KeyPair\<close>; a configuration is the certificate and
  the certificates of accepted clients, if clients must present one.
\<close>

record tls_Config =
  tls_Certificate :: string
  tls_ClientCAs :: "string option"

definition serverTLSConfig ::
  "(string \<Rightarrow> string \<Rightarrow> error + string) \<Rightarrow> (string \<Rightarrow> error + string) \<Rightarrow> (string \<Rightarrow> string option) \<Rightarrow> Config \<Rightarrow> error + tls_Config" where
  "serverTLSConfig load_pair ReadFile AppendCertsFromPEM cfg = (case load_pair (TLSCertFile cfg) (TLSKeyFile cfg) of
       Inl err \<Rightarrow> Inl (ErrWrap ''load keypair'' err)
     | Inr cert \<Rightarrow>
        if MTLSClientCAFile cfg \<noteq> [] then
          (case ReadFile (MTLSClientCAFile cfg) of
             Inl err \<Rightarrow> Inl (ErrWrap ''read client CA'' err)
           | Inr caData \<Rightarrow> (case AppendCertsFromPEM caData of
                None \<Rightarrow> Inl (ErrPlain (''client CA file '' @ MTLSClientCAFile cfg @ '' contains no usable certs''))
              | Some pool \<Rightarrow> Inr \<lparr>tls_Certificate = cert, tls_ClientCAs = Some pool\<rparr>))
        else Inr \<lparr>tls_Certificate = cert, tls_ClientCAs = None\<rparr>)"

definition run_tls ::
  "(string \<Rightarrow> string \<Rightarrow> error + string) \<Rightarrow> (string \<Rightarrow> error + string) \<Rightarrow> (string \<Rightarrow> string option) \<Rightarrow> Config \<Rightarrow> error + tls_Config option" where
  "run_tls load_pair ReadFile AppendCertsFromPEM cfg =
    (if TLSCertFile cfg \<noteq> [] \<and> TLSKeyFile cfg \<noteq> [] then
       (case serverTLSConfig load_pair ReadFile AppendCertsFromPEM cfg of Inl err \<Rightarrow> Inl err | Inr c \<Rightarrow> Inr (Some c))
     else Inr None)"


section \<open>The engines of every environment\<close>

lemma pos_nonneg: "(0::float64) < x \<Longrightarrow> 0 \<le> x"
  by (simp add: less_eq_float64_def f_le_def less_float64_def)

lemma run_riskCfg_ok: "risk_cfg_ok (run_riskCfg cfg)"
  using default_cfg_ok by (auto simp: run_riskCfg_def risk_cfg_ok_def Let_def pos_nonneg)

lemma run_confidence_ok: "confidence_ok (run_riskCfg cfg) x"
  using default_confidence_ok [of x] by (auto simp: run_riskCfg_def confidence_ok_def Let_def)

lemma run_ivCfg_pos: "0 < ic_NudgeThreshold (run_ivCfg cfg)"
proof -
  have "0 < ic_NudgeThreshold intervention_DefaultConfig" unfolding intervention_DefaultConfig_def by code_simp
  then show ?thesis by (simp add: run_ivCfg_def Let_def)
qed

lemma run_pipelines_engines:
  assumes "run_pipelines v time_Now conn mnemos chronos praxis cfg = Inr (x, e)"
  shows "e_risk e = risk_New (run_riskCfg cfg)" "e_intervention e = intervention_New (run_ivCfg cfg)"
    "x_extractor x = buildCommitmentExtractor v (cf_LLM cfg)" "\<not> out_of_unit (x_minConfidence x)"
  using assms by (auto simp: run_pipelines_def NewExtractor_def NewEvaluator_def Let_def out_of_unit_def split: if_splits)

text \<open>
  (C7) No environment breaks the engines: whatever the variables hold (text, negative
  numbers, infinities, NaN), once the pipelines are built every score the risk engine gives
  is a number in [0,1], and a commitment of score 0 is never acted on.
\<close>

theorem configured_engines_sound:
  assumes "run_pipelines v time_Now conn mnemos chronos praxis (read_config lower env) = Inr (x, e)"
  shows "0 \<le> ra_Score (EvaluateCommitment (e_risk e) c signals memories now)
    \<and> ra_Score (EvaluateCommitment (e_risk e) c signals memories now) \<le> 1
    \<and> (ra_Score (EvaluateCommitment (e_risk e) c signals memories now) = 0 \<longrightarrow>
        MaybeIntervene printable ivID (e_intervention e) c (EvaluateCommitment (e_risk e) c signals memories now) now = Inr None)"
proof -
  let ?a = "EvaluateCommitment (e_risk e) c signals memories now"
  have b: "0 \<le> ra_Score ?a" "ra_Score ?a \<le> 1"
    using risk_score_bounds [of "e_risk e"] run_riskCfg_ok run_confidence_ok
    by (auto simp: run_pipelines_engines [OF assms] risk_New_def)
  have "ra_Score ?a = 0 \<Longrightarrow> ra_Score ?a < ic_NudgeThreshold (ie_cfg (e_intervention e))"
    using run_ivCfg_pos by (simp add: run_pipelines_engines [OF assms] intervention_New_def)
  then have "ra_Score ?a = 0 \<longrightarrow> MaybeIntervene printable ivID (e_intervention e) c ?a now = Inr None"
    by (simp add: MaybeIntervene_def Let_def)
  then show ?thesis using b by blast
qed

text \<open>An environment with nonsense weights.\<close>

definition odd_env :: "string \<Rightarrow> string" where
  "odd_env key = (if key = ''NOUS_RISK_OVERDUE_WEIGHT'' then ''NaN'' else if key = ''NOUS_RISK_SIGNAL_WEIGHT'' then ''-inf'' else [])"

definition offline :: llm_env where
  "offline = \<lparr>lv_http = \<lparr>NewRequest = (\<lambda>u. None), Do = (\<lambda>m. Inl (ErrPlain ''offline''))\<rparr>, lv_aws = (\<lambda>r. Inl (ErrPlain ''offline'')),
     lv_why = (\<lambda>s. ErrPlain s), lv_marshal = (\<lambda>ds. Inr ''[]'')\<rparr>"

definition sample_mnemos :: MnemosClient where
  "sample_mnemos = \<lparr>Recall = (\<lambda>lg q. Inr []), AppendEvent = (\<lambda>lg ev. Inr [])\<rparr>"

definition silent_praxis :: PraxisClient where
  "silent_praxis = \<lparr>ListCapabilities = (\<lambda>lg. Inr []), DryRun = (\<lambda>lg r. Inl ErrClientNotConfigured),
     Execute = (\<lambda>lg r. Inl ErrClientNotConfigured)\<rparr>"

lemma odd_env_builds:
  "\<exists>x e. run_pipelines offline (\<lambda>n. 2000) (fst (memory_New canonical_text sample_orders)) sample_mnemos sample_chronos silent_praxis
     (read_config ascii_lower odd_env) = Inr (x, e)"
proof -
  have "Extract_MinConfidence (read_config ascii_lower odd_env) = 0" by (simp add: read_config_def odd_env_def parseFloat_def)
  moreover have "\<not> (0::float64) < 0" "\<not> (1::float64) < 0" by (simp_all add: zero_float64_def one_float64_def)
  ultimately show ?thesis by (simp add: run_pipelines_def NewExtractor_def NewEvaluator_def Let_def)
qed

theorem configured_engines_sound_witness:
  "\<exists>e :: state Evaluator. 0 \<le> ra_Score (EvaluateCommitment (e_risk e) sample_commitment [] [] 2000)
     \<and> ra_Score (EvaluateCommitment (e_risk e) sample_commitment [] [] 2000) \<le> 1"
  using odd_env_builds configured_engines_sound by blast


section \<open>The extractor of every configuration\<close>

text \<open>Either the scripted extractor without rules or a provider whose drafts are fit.\<close>

definition fit_extractor :: "llm_env \<Rightarrow> CommitmentExtractor \<Rightarrow> bool" where
  "fit_extractor v x \<longleftrightarrow> x = ScriptedExtractor_Extract [] \<or> (\<exists>p name. fit_provider p \<and> x = llm_extractor v p name)"

lemma fit_extractor_intros [simp, intro]:
  "fit_extractor v (ScriptedExtractor_Extract [])" "fit_provider p \<Longrightarrow> fit_extractor v (llm_extractor v p name)"
  by (auto simp: fit_extractor_def)

lemma built_extractor_fit: "fit_extractor v (buildCommitmentExtractor v c)"
  unfolding buildCommitmentExtractor_def Let_def by (simp add: providers_fit split: sum.split)

lemma built_drafts:
  assumes "buildCommitmentExtractor v c i = Inr ds" and "d \<in> set ds"
  shows "\<exists>d0. fit_draft d0 \<and> d = annotate_draft i d0"
proof -
  obtain p name where p: "fit_provider p" and b: "buildCommitmentExtractor v c = llm_extractor v p name"
    using built_extractor_fit [of v c] assms by (auto simp: fit_extractor_def)
  obtain ds0 where "p (extraction_prompt (lv_marshal v) (NewPromptBuilder []) (BudgetFor name) (ei_Text i)) = Inr ds0"
    and "ds = map (annotate_draft i) ds0"
    using assms(1) by (auto simp: b llm_extractor_def LLMExtractor_Extract_def NewLLMExtractor_def WithContextBudget_def split: sum.splits)
  then show ?thesis using p assms(2) by (auto simp: fit_provider_def list_all_iff)
qed

text \<open>
  (C20) Whatever provider is configured and whatever it answers, the drafts that reach the
  pipeline are fit to be stored: for a request with an owner that is not blank, each draft
  is dropped only for a confidence below the threshold, and its promotion under a fresh
  identifier succeeds and gives a valid pending commitment of that owner, with the sources
  of the request and a confidence in [0,1].
\<close>

theorem configured_extractor_promotes:
  assumes "buildCommitmentExtractor v (cf_LLM (read_config lower env)) i = Inr ds" and "d \<in> set ds"
    and "TrimSpace (ei_OwnerID i) \<noteq> []" and "newID \<noteq> uuid_Nil"
  shows "(kept_draft threshold d \<longleftrightarrow> \<not> cd_Confidence d < threshold)
    \<and> (\<exists>c. CommitmentDraft_ToCommitment newID d now = Inr c \<and> Commitment_Validate c = None
         \<and> c_OwnerID c = TrimSpace (ei_OwnerID i) \<and> c_SourceRefs c = ei_SourceRefs i \<and> c_Status c = CommitmentPending
         \<and> 0 \<le> c_Confidence c \<and> c_Confidence c \<le> 1)"
proof -
  obtain d0 where f: "fit_draft d0" and d: "d = annotate_draft i d0" using built_drafts [OF assms(1,2)] by blast
  have owner: "cd_OwnerID d = ei_OwnerID i" and same: "cd_Description d = cd_Description d0"
    "cd_Confidence d = cd_Confidence d0" "cd_SourceRefs d = ei_SourceRefs i"
    using f by (simp_all add: d fit_draft_def annotate_draft_def orDefault_def)
  then obtain c where c: "CommitmentDraft_ToCommitment newID d now = Inr c"
    using f assms(3,4) by (simp add: ToCommitment_Inr fit_draft_def)
  then have "c_OwnerID c = TrimSpace (ei_OwnerID i)" "c_SourceRefs c = ei_SourceRefs i" "c_Status c = CommitmentPending"
    "c_Confidence c = cd_Confidence d0"
    using owner same by (auto simp: ToCommitment_Inr)
  moreover have "kept_draft threshold d \<longleftrightarrow> \<not> cd_Confidence d < threshold"
    using f owner same assms(3) by (auto simp: kept_draft_def fit_draft_def out_of_unit_iff)
  ultimately show ?thesis using c ToCommitment_valid [OF c] f by (auto simp: fit_draft_def out_of_unit_iff)
qed

text \<open>Bedrock answering every prompt with one commitment.\<close>

definition bedrock_env :: "string \<Rightarrow> string" where
  "bedrock_env key = (if key = ''NOUS_LLM_PROVIDER'' then ''bedrock'' else [])"

definition bedrock_online :: llm_env where
  "bedrock_online = offline\<lparr>lv_aws := (\<lambda>region. Inr (\<lambda>model body. Inr (sample_answer (reply_with ''ship''))))\<rparr>"

definition ship_draft :: CommitmentDraft where
  "ship_draft = \<lparr>cd_OwnerID = ''ship'', cd_Description = ''ship'', cd_DueAt = None, cd_Entities = [], cd_SourceRefs = [], cd_Confidence = 0\<rparr>"

definition ship_input :: ExtractInput where
  "ship_input = \<lparr>ei_OwnerID = ''ship'', ei_Text = ''I will ship it'', ei_Hints = [], ei_SourceRefs = []\<rparr>"

lemma bedrock_config: "lc_Provider (cf_LLM (read_config ascii_lower bedrock_env)) = ''bedrock''"
proof -
  have "ascii_lower (TrimSpace ''bedrock'') = ''bedrock''" by code_simp
  then show ?thesis by (simp add: read_config_def load_llm_def bedrock_env_def)
qed

lemma bedrock_reply: "Bedrock_ExtractCommitments why \<lparr>bp_client = Some (\<lambda>m b. Inr (sample_answer (reply_with ''ship''))), bp_model = m\<rparr> prompt
   = Inr [ship_draft\<lparr>cd_OwnerID := []\<rparr>]"
proof -
  let ?ms = "[(''type'', JString ''text''), (''text'', JString (reply_with ''ship''))]"
  have "list_all plain_char (reply_with ''ship'')" by (simp add: plain_char_def reply_with_def quoted_def)
  from sample_answer_read [OF this] have j: "json_Unmarshal (sample_answer (reply_with ''ship'')) =
    Some (JObject [(''content'', JArray [JObject ?ms])])" .
  have f: "string_field ''type'' ?ms = (''text'', True)" "string_field ''text'' ?ms = (reply_with ''ship'', True)"
    by (simp_all add: string_field_def field_values_def starts_with_def)
  have "bedrock_response (JObject [(''content'', JArray [JObject ?ms])]) = ([(''text'', reply_with ''ship'')], True)"
    by (simp add: bedrock_response_def members_of_def list_field_def decode_list_def decode_block_def f field_values_def starts_with_def)
  moreover have "reply_with ''ship'' \<noteq> []" by (simp add: reply_with_def)
  ultimately show ?thesis
    by (simp add: Bedrock_ExtractCommitments_def j block_text_def Llm_Parse.sample_parse ship_draft_def)
qed

lemma bedrock_extracts:
  "buildCommitmentExtractor bedrock_online (cf_LLM (read_config ascii_lower bedrock_env)) ship_input = Inr [ship_draft]"
proof -
  have "buildCommitmentExtractor bedrock_online (cf_LLM (read_config ascii_lower bedrock_env)) =
      llm_extractor bedrock_online (Bedrock_ExtractCommitments (lv_why bedrock_online)
        \<lparr>bp_client = Some (\<lambda>m b. Inr (sample_answer (reply_with ''ship''))), bp_model = ''anthropic.claude-opus-4-7-20260201-v1:0''\<rparr>) ''bedrock''"
    unfolding buildCommitmentExtractor_def bedrock_config
    by (simp add: NewBedrockProvider_def bedrock_online_def offline_def read_config_def load_llm_def bedrock_env_def)
  then show ?thesis
    by (simp add: llm_extractor_def LLMExtractor_Extract_def NewLLMExtractor_def WithContextBudget_def bedrock_reply
        annotate_draft_def orDefault_def ship_draft_def ship_input_def)
qed

theorem configured_extractor_promotes_witness:
  "\<exists>c. CommitmentDraft_ToCommitment 7 ship_draft 0 = Inr c \<and> Commitment_Validate c = None
     \<and> c_OwnerID c = TrimSpace ''ship'' \<and> 0 \<le> c_Confidence c \<and> c_Confidence c \<le> 1"
  using configured_extractor_promotes [OF bedrock_extracts, of ship_draft 7 0 0]
  by (auto simp: trim_plain uuid_Nil_def ship_input_def)

text \<open>
  The default endpoint of Ollama already ends in \<^verbatim>\<open>/v1\<close>, and the client appends its
  path with \<^verbatim>\<open>/v1\<close> once more.
\<close>

lemma ollama_endpoint:
  "lc_BaseURL c = [] \<Longrightarrow> hm_URL (openai_message (ollama_provider v c) prompt) = ''http://localhost:11434/v1/v1/chat/completions''"
  by (simp add: ollama_provider_def NewOpenAIProvider_def WithOpenAIBaseURL_def openai_message_def Let_def)


section \<open>Keys\<close>

text \<open>
  (C38) With \<^verbatim>\<open>NOUS_JWT_PREV_SECRET\<close> and its key id set and \<^verbatim>\<open>NOUS_JWT_SECRET\<close> unset, the server
  starts with a verifier for which the active secret is empty: anybody can sign a token with
  the empty secret, for any subject and scopes, and the credential check of the
  HTTP chain lets it in, whatever the static token is.
\<close>

theorem previous_secret_alone_is_forgeable:
  assumes "jwt_laws lib content sig_ok"
    and "env ''NOUS_JWT_SECRET'' = []" and "env ''NOUS_JWT_PREV_KID'' \<noteq> []" and "JWTRotatePeriod (read_config lower env) \<le> 0"
    and "hex_DecodeString (env ''NOUS_JWT_PREV_SECRET'') = Inr raw" and "32 \<le> length raw"
    and "SignedString lib t [] = Inr s" and "clean_token lib t" and "tk_alg t = ''HS256''" and "tk_kid t = None"
    and "cl_Issuer (tk_claims t) = Issuer" and "in_time now (tk_claims t)"
  shows "\<exists>verifier. run_verifier rand start (read_config lower env) = Inr (Some verifier)
    \<and> Verify lib printable verifier now s = Inr (tk_claims t)
    \<and> credential_ok lib printable now (AuthToken (read_config lower env)) (Some verifier) (''Bearer '' @ s)"
proof -
  let ?cfg = "read_config lower env"
  let ?ks = "\<lparr>ActiveKID = JWTKID ?cfg, ActiveSecret = [], PreviousKID = JWTPrevKID ?cfg, PreviousSecret = Some raw\<rparr>"
  have "env ''NOUS_JWT_PREV_SECRET'' \<noteq> []" "raw \<noteq> []" using assms(5,6) by auto
  then have v: "run_verifier rand start ?cfg = Inr (Some (NewVerifier ?ks))"
    using assms(2,4-6)
    by (simp add: run_verifier_def buildJWTRotator_def buildJWTVerifier_def configured_secret_def Let_def)
      (simp add: read_config_def)
  have "Verify lib printable (NewVerifier ?ks) now s = Inr (tk_claims t)"
    using assms(1,3,7-12) \<open>raw \<noteq> []\<close>
    by (intro previous_only_accepts_forgery [where p = raw]) (simp_all add: read_config_def)
  then show ?thesis using v by (auto simp: credential_ok_def)
qed

text \<open>The previous secret is 32 bytes written as 64 hexadecimal digits.\<close>

definition prev_only_env :: "string \<Rightarrow> string" where
  "prev_only_env key = (if key = ''NOUS_JWT_PREV_SECRET'' then replicate 64 (CHR ''a'')
     else if key = ''NOUS_JWT_PREV_KID'' then ''old'' else [])"

lemma prev_only_raw: "hex_DecodeString (prev_only_env ''NOUS_JWT_PREV_SECRET'') = Inr (replicate 32 (CHR 0xAA))"
  unfolding prev_only_env_def by code_simp

theorem previous_secret_alone_is_forgeable_witness:
  "\<exists>verifier. run_verifier (Inr []) 0 (read_config ascii_lower prev_only_env) = Inr (Some verifier)
    \<and> Verify (one_token_lib []) (\<lambda>_. True) verifier second ''tok'' = Inr (tk_claims sample_token)
    \<and> credential_ok (one_token_lib []) (\<lambda>_. True) second (AuthToken (read_config ascii_lower prev_only_env)) (Some verifier)
        (''Bearer '' @ ''tok'')"
  by (rule previous_secret_alone_is_forgeable [where env = prev_only_env, OF one_token_laws _ _ _ prev_only_raw])
    (simp_all add: one_token_lib_def sample_token_def clean_token_def ascii_def Issuer_def in_time_def prev_only_env_def
      read_config_def parseDuration_def)

text \<open>
  TLS needs both files: with only a certificate, or only the certificates of clients, the
  servers start in the clear and nothing is reported.
\<close>

lemma half_configured_tls_is_plain:
  "TLSCertFile cfg = [] \<or> TLSKeyFile cfg = [] \<Longrightarrow> run_tls load_pair ReadFile AppendCertsFromPEM cfg = Inr None"
  by (auto simp: run_tls_def)

text \<open>
  With a rotator the configured key ids and the previous secret are not read: a token with
  the configured id is verified under the id of the start-up instant only.
\<close>

lemma rotator_ignores_key_ids:
  "0 < JWTRotatePeriod cfg \<Longrightarrow>
   run_verifier rand now (cfg\<lparr>JWTKID := a, JWTPrevKID := b, JWTPrevSecHex := p\<rparr>) = run_verifier rand now cfg"
  by (auto simp: run_verifier_def buildJWTRotator_def Let_def split: sum.splits)

end
