(* ===== verification/Llm_Golden.thy ===== *)
theory Llm_Golden
  imports Llm_Parse
begin

text \<open>
  \<^verbatim>\<open>internal/llm/golden.go\<close>: the regression harness for extractors. The file system is
  the argument \<open>read_file\<close>; \<open>lower\<close> is the Unicode table of \<^verbatim>\<open>strings.ToLower\<close>.
\<close>

record GoldenCase =
  gc_Name :: string
  gc_Input :: string
  gc_OwnerID :: string
  gc_ExpectedDescriptions :: "string list"
  gc_NegativeKeywords :: "string list"
  gc_MinConfidence :: float64

record GoldenDataset =
  gd_Name :: string
  gd_Cases :: "GoldenCase list"

definition decode_GoldenCase :: "json \<Rightarrow> GoldenCase \<times> bool" where
  "decode_GoldenCase v =
    (case (case v of JObject ms \<Rightarrow> Some ms | JNull \<Rightarrow> Some [] | _ \<Rightarrow> None) of
       None \<Rightarrow> (\<lparr>gc_Name = [], gc_Input = [], gc_OwnerID = [], gc_ExpectedDescriptions = [], gc_NegativeKeywords = [],
                 gc_MinConfidence = 0\<rparr>, False)
     | Some ms \<Rightarrow>
        (case (string_field ''name'' ms, string_field ''input'' ms, string_field ''owner_id'' ms,
               list_field decode_string ''expected_descriptions'' ms, list_field decode_string ''negative_keywords'' ms,
               float_field ''min_confidence'' ms) of
           ((n, ok1), (i, ok2), (own, ok3), (es, ok4), (ns, ok5), (c, ok6)) \<Rightarrow>
             (\<lparr>gc_Name = n, gc_Input = i, gc_OwnerID = own, gc_ExpectedDescriptions = es, gc_NegativeKeywords = ns,
               gc_MinConfidence = c\<rparr>, ok1 \<and> ok2 \<and> ok3 \<and> ok4 \<and> ok5 \<and> ok6)))"

definition decode_GoldenDataset :: "json \<Rightarrow> GoldenDataset \<times> bool" where
  "decode_GoldenDataset v =
    (case (case v of JObject ms \<Rightarrow> Some ms | JNull \<Rightarrow> Some [] | _ \<Rightarrow> None) of
       None \<Rightarrow> (\<lparr>gd_Name = [], gd_Cases = []\<rparr>, False)
     | Some ms \<Rightarrow> (case (string_field ''name'' ms, list_field decode_GoldenCase ''cases'' ms) of
          ((n, ok1), (cs, ok2)) \<Rightarrow> (\<lparr>gd_Name = n, gd_Cases = cs\<rparr>, ok1 \<and> ok2)))"

definition LoadGoldenDataset :: "(string \<Rightarrow> error + string) \<Rightarrow> (string \<Rightarrow> error) \<Rightarrow> string \<Rightarrow> error + GoldenDataset" where
  "LoadGoldenDataset read_file why path = (case read_file path of
       Inl err \<Rightarrow> Inl (ErrWrap (''golden: read '' @ path) err)
     | Inr data \<Rightarrow> (case map_option decode_GoldenDataset (json_Unmarshal data) of
          Some (ds, True) \<Rightarrow> Inr ds
        | _ \<Rightarrow> Inl (ErrWrap (''golden: parse '' @ path) (why data))))"

definition golden_case :: "string \<Rightarrow> string \<Rightarrow> string list \<Rightarrow> string list \<Rightarrow> GoldenCase" where
  "golden_case name input expected negative =
     \<lparr>gc_Name = name, gc_Input = input, gc_OwnerID = [], gc_ExpectedDescriptions = expected,
      gc_NegativeKeywords = negative, gc_MinConfidence = 0\<rparr>"

definition DefaultGoldenDataset :: GoldenDataset where
  "DefaultGoldenDataset = \<lparr>gd_Name = ''nous-default-v1'', gd_Cases =
    [golden_case ''explicit-promise'' (''I'' @ [CHR 0x27] @ ''ll send the report by Friday.'') [''send the report''] [],
     golden_case ''with-deadline'' (''Need to deploy the migration before Tuesday'' @ [CHR 0x27] @ ''s launch.'')
       [''deploy'', ''migration''] [],
     golden_case ''rejects-thinking-out-loud''
       (''Just thinking out loud, maybe we'' @ [CHR 0x27] @ ''d consider rolling that out next quarter.'') [] [''roll'', ''consider''],
     golden_case ''two-commitments''
       (''I'' @ [CHR 0x27] @ ''ll review the PR tonight and send the summary tomorrow morning.'') [''review the pr'', ''send the summary''] [],
     golden_case ''negation-aware'' (''We won'' @ [CHR 0x27] @ ''t be able to ship this week.'') [] [''ship'']]\<rparr>"

record CaseResult =
  cr_Name :: string
  cr_Pass :: bool
  cr_Missing :: "string list"
  cr_Spurious :: "string list"
  cr_LowConf :: "string list"
  cr_Drafts :: int

record Report =
  rep_Dataset :: string
  rep_Total :: int
  rep_Passed :: int
  rep_Failed :: int
  rep_Precision :: float64
  rep_Recall :: float64
  rep_Cases :: "CaseResult list"

definition PassRate :: "Report \<Rightarrow> float64" where
  "PassRate r = (if rep_Total r = 0 then 0 else f_div (f_of_int (rep_Passed r)) (f_of_int (rep_Total r)))"

text \<open>\<^verbatim>\<open>strings.Fields\<close>: the pieces between runs of white space.\<close>

function split_fields :: "string \<Rightarrow> string \<Rightarrow> string list" where
  "split_fields cur [] = (if cur = [] then [] else [cur])"
| "split_fields cur (c # s) = (case find (\<lambda>p. p \<noteq> [] \<and> starts_with p (c # s)) space_seqs of
       Some p \<Rightarrow> (if cur = [] then [] else [cur]) @ split_fields [] (drop (length p) (c # s))
     | None \<Rightarrow> split_fields (cur @ [c]) s)"
  by pat_completeness auto
termination
  by (relation "measure (\<lambda>(cur, s). length s)") (auto simp: find_Some_iff)

definition Fields :: "string \<Rightarrow> string list" where
  "Fields s = split_fields [] s"

fun join_with :: "string \<Rightarrow> string list \<Rightarrow> string" where
  "join_with sep [] = []"
| "join_with sep [x] = x"
| "join_with sep (x # y # xs) = x @ sep @ join_with sep (y # xs)"

definition normaliseDesc :: "(string \<Rightarrow> string) \<Rightarrow> string \<Rightarrow> string" where
  "normaliseDesc lower s = join_with '' '' (Fields (lower (TrimSpace s)))"

text \<open>The best confidence per normalised description.\<close>

definition desc_confidence :: "(string \<Rightarrow> string) \<Rightarrow> CommitmentDraft list \<Rightarrow> string \<Rightarrow> float64 option" where
  "desc_confidence lower drafts = foldl (\<lambda>m d. let n = normaliseDesc lower (cd_Description d) in
     case m n of None \<Rightarrow> m(n \<mapsto> cd_Confidence d)
     | Some conf \<Rightarrow> if conf < cd_Confidence d then m(n \<mapsto> cd_Confidence d) else m) Map.empty drafts"

text \<open>One expected description: found, found below the confidence floor, or missing.\<close>

definition check_expected ::
  "(string \<Rightarrow> string) \<Rightarrow> GoldenCase \<Rightarrow> (string \<Rightarrow> float64 option) \<Rightarrow> string list \<Rightarrow> string \<Rightarrow> CaseResult \<times> int \<Rightarrow> CaseResult \<times> int" where
  "check_expected lower c conf descs want acc = (case acc of (res, matched) \<Rightarrow>
     (case find (\<lambda>got. contains_at got (normaliseDesc lower want)) descs of
        None \<Rightarrow> (res\<lparr>cr_Missing := cr_Missing res @ [want], cr_Pass := False\<rparr>, matched)
      | Some got \<Rightarrow>
          if 0 < gc_MinConfidence c \<and> (case conf got of None \<Rightarrow> 0 | Some x \<Rightarrow> x) < gc_MinConfidence c
          then (res\<lparr>cr_LowConf := cr_LowConf res @ [want], cr_Pass := False\<rparr>, matched)
          else (res, matched + 1)))"

definition check_negative ::
  "(string \<Rightarrow> string) \<Rightarrow> GoldenCase \<Rightarrow> string \<Rightarrow> CaseResult \<times> int \<Rightarrow> CaseResult \<times> int" where
  "check_negative lower c got acc = foldl (\<lambda>(res, spurious) neg.
     if contains_at got (normaliseDesc lower neg)
     then (res\<lparr>cr_Spurious := cr_Spurious res @ [got], cr_Pass := False\<rparr>, spurious + 1) else (res, spurious))
     acc (gc_NegativeKeywords c)"

definition run_case :: "(string \<Rightarrow> string) \<Rightarrow> GoldenCase \<Rightarrow> CommitmentDraft list \<Rightarrow> CaseResult \<times> int \<times> int" where
  "run_case lower c drafts =
    (let res = \<lparr>cr_Name = gc_Name c, cr_Pass = True, cr_Missing = [], cr_Spurious = [], cr_LowConf = [],
           cr_Drafts = int (length drafts)\<rparr>;
         descs = sort_slice string_less (map (\<lambda>d. normaliseDesc lower (cd_Description d)) drafts);
         conf = desc_confidence lower drafts;
         (res, matched) = foldl (\<lambda>acc want. check_expected lower c conf descs want acc) (res, 0) (gc_ExpectedDescriptions c);
         (res, spurious) = foldl (\<lambda>acc got. check_negative lower c got acc) (res, 0) descs
     in (res, matched, spurious))"

record golden_sums =
  gs_matched :: int
  gs_expected :: int
  gs_drafts :: int
  gs_spurious :: int

definition add_case :: "GoldenCase \<Rightarrow> CommitmentDraft list \<Rightarrow> CaseResult \<times> int \<times> int \<Rightarrow> Report \<times> golden_sums \<Rightarrow> Report \<times> golden_sums" where
  "add_case c drafts out acc = (case (out, acc) of ((res, matched, spurious), (r, s)) \<Rightarrow>
     ((if cr_Pass res then r\<lparr>rep_Passed := rep_Passed r + 1\<rparr> else r\<lparr>rep_Failed := rep_Failed r + 1\<rparr>)
        \<lparr>rep_Cases := rep_Cases r @ [res]\<rparr>,
      \<lparr>gs_matched = gs_matched s + matched, gs_expected = gs_expected s + int (length (gc_ExpectedDescriptions c)),
       gs_drafts = gs_drafts s + int (length drafts), gs_spurious = gs_spurious s + spurious\<rparr>))"

fun run_cases ::
  "(string \<Rightarrow> string) \<Rightarrow> CommitmentExtractor \<Rightarrow> GoldenCase list \<Rightarrow> Report \<times> golden_sums \<Rightarrow> error + Report \<times> golden_sums" where
  "run_cases lower ex [] acc = Inr acc"
| "run_cases lower ex (c # cs) acc =
     (case ex \<lparr>ei_OwnerID = gc_OwnerID c, ei_Text = gc_Input c, ei_Hints = [], ei_SourceRefs = []\<rparr> of
        Inl err \<Rightarrow> Inl (ErrWrap (''golden: '' @ gc_Name c) err)
      | Inr drafts \<Rightarrow> run_cases lower ex cs (add_case c drafts (run_case lower c drafts) acc))"

definition golden_Run :: "(string \<Rightarrow> string) \<Rightarrow> CommitmentExtractor \<Rightarrow> GoldenDataset option \<Rightarrow> error + Report" where
  "golden_Run lower ex ds = (case ds of
       None \<Rightarrow> Inl (ErrPlain ''golden: nil dataset'')
     | Some ds \<Rightarrow>
        (case run_cases lower ex (gd_Cases ds)
            (\<lparr>rep_Dataset = gd_Name ds, rep_Total = int (length (gd_Cases ds)), rep_Passed = 0, rep_Failed = 0,
              rep_Precision = 0, rep_Recall = 0, rep_Cases = []\<rparr>,
             \<lparr>gs_matched = 0, gs_expected = 0, gs_drafts = 0, gs_spurious = 0\<rparr>) of
           Inl err \<Rightarrow> Inl err
         | Inr (r, s) \<Rightarrow>
            (let r = (if 0 < gs_expected s
                 then r\<lparr>rep_Recall := f_div (f_of_int (gs_matched s)) (f_of_int (gs_expected s))\<rparr> else r);
                 r = (if 0 < gs_drafts s
                 then r\<lparr>rep_Precision := 1 + - f_div (f_of_int (gs_spurious s)) (f_of_int (gs_drafts s))\<rparr> else r)
             in Inr r)))"


section \<open>The report\<close>

text \<open>A case passes exactly when nothing was held against it.\<close>

definition case_consistent :: "CaseResult \<Rightarrow> bool" where
  "case_consistent res \<longleftrightarrow> cr_Pass res = (cr_Missing res = [] \<and> cr_Spurious res = [] \<and> cr_LowConf res = [])"

lemma check_expected_consistent:
  assumes "case_consistent (fst acc)" and "0 \<le> snd acc"
  shows "case_consistent (fst (check_expected lower c conf descs want acc))
    \<and> 0 \<le> snd (check_expected lower c conf descs want acc) \<and> snd (check_expected lower c conf descs want acc) \<le> snd acc + 1"
  using assms by (cases acc) (auto simp: check_expected_def case_consistent_def split: option.split)

lemma expected_consistent:
  "case_consistent (fst acc) \<Longrightarrow> 0 \<le> snd acc \<Longrightarrow>
   case_consistent (fst (foldl (\<lambda>acc want. check_expected lower c conf descs want acc) acc ws))
   \<and> 0 \<le> snd (foldl (\<lambda>acc want. check_expected lower c conf descs want acc) acc ws)
   \<and> snd (foldl (\<lambda>acc want. check_expected lower c conf descs want acc) acc ws) \<le> snd acc + int (length ws)"
proof (induction ws arbitrary: acc)
  case (Cons w ws)
  note one = check_expected_consistent [OF Cons.prems, of lower c conf descs w]
  from Cons.IH [of "check_expected lower c conf descs w acc"] one show ?case by auto
qed simp

lemma check_negative_consistent: "case_consistent (fst acc) \<Longrightarrow> case_consistent (fst (check_negative lower c got acc))"
proof -
  have "case_consistent (fst (foldl (\<lambda>(res, spurious) neg. if contains_at got (normaliseDesc lower neg)
     then (res\<lparr>cr_Spurious := cr_Spurious res @ [got], cr_Pass := False\<rparr>, spurious + 1) else (res, spurious)) acc ns))"
    if "case_consistent (fst acc)" for acc :: "CaseResult \<times> int" and ns
    using that by (induction ns arbitrary: acc) (auto simp: case_consistent_def split: prod.splits)
  then show "case_consistent (fst acc) \<Longrightarrow> case_consistent (fst (check_negative lower c got acc))"
    by (simp add: check_negative_def)
qed

lemma negatives_consistent:
  "case_consistent (fst acc) \<Longrightarrow> case_consistent (fst (foldl (\<lambda>acc got. check_negative lower c got acc) acc ds))"
  by (induction ds arbitrary: acc) (auto simp: check_negative_consistent)

lemma run_case_consistent:
  assumes "run_case lower c drafts = (res, matched, spurious)"
  shows "case_consistent res \<and> 0 \<le> matched \<and> matched \<le> int (length (gc_ExpectedDescriptions c))"
proof -
  let ?r = "\<lparr>cr_Name = gc_Name c, cr_Pass = True, cr_Missing = [], cr_Spurious = [], cr_LowConf = [], cr_Drafts = int (length drafts)\<rparr>"
  let ?ds = "sort_slice string_less (map (\<lambda>d. normaliseDesc lower (cd_Description d)) drafts)"
  let ?e = "foldl (\<lambda>acc want. check_expected lower c (desc_confidence lower drafts) ?ds want acc) (?r, 0) (gc_ExpectedDescriptions c)"
  have e: "case_consistent (fst ?e)" "0 \<le> snd ?e" "snd ?e \<le> int (length (gc_ExpectedDescriptions c))"
    using expected_consistent [of "(?r, 0)"] by (auto simp: case_consistent_def)
  have "res = fst (foldl (\<lambda>acc got. check_negative lower c got acc) (fst ?e, 0) ?ds)" "matched = snd ?e"
    using assms by (auto simp: run_case_def Let_def split: prod.splits)
  then show ?thesis using e negatives_consistent [of "(fst ?e, 0)"] by simp
qed

text \<open>What a run keeps: counts of passed and failed cases, and matches never above what was expected.\<close>

definition report_ok :: "nat \<Rightarrow> Report \<times> golden_sums \<Rightarrow> bool" where
  "report_ok n acc = (case acc of (r, s) \<Rightarrow>
     length (rep_Cases r) = n \<and> list_all case_consistent (rep_Cases r)
     \<and> rep_Passed r = int (length (filter cr_Pass (rep_Cases r)))
     \<and> rep_Failed r = int (length (filter (\<lambda>c. \<not> cr_Pass c) (rep_Cases r)))
     \<and> 0 \<le> gs_matched s \<and> gs_matched s \<le> gs_expected s)"

lemma run_cases_ok:
  "run_cases lower ex cs acc = Inr out \<Longrightarrow> report_ok n acc \<Longrightarrow>
   report_ok (n + length cs) out \<and> rep_Total (fst out) = rep_Total (fst acc)"
proof (induction cs arbitrary: acc n)
  case (Cons c cs)
  obtain r s where acc: "acc = (r, s)" by (cases acc)
  obtain drafts where d: "ex \<lparr>ei_OwnerID = gc_OwnerID c, ei_Text = gc_Input c, ei_Hints = [], ei_SourceRefs = []\<rparr> = Inr drafts"
    and rest: "run_cases lower ex cs (add_case c drafts (run_case lower c drafts) acc) = Inr out"
    using Cons.prems(1) by (auto split: sum.splits)
  obtain res m k where rc: "run_case lower c drafts = (res, m, k)" by (metis prod_cases3)
  have "report_ok (Suc n) (add_case c drafts (run_case lower c drafts) acc)"
    using Cons.prems(2) run_case_consistent [OF rc] by (auto simp: report_ok_def add_case_def rc acc)
  moreover have "rep_Total (fst (add_case c drafts (run_case lower c drafts) acc)) = rep_Total (fst acc)"
    by (simp add: add_case_def rc acc)
  ultimately show ?case using Cons.IH [OF rest, of "Suc n"] by simp
qed simp

lemma filter_partition_length: "length (filter P xs) + length (filter (\<lambda>x. \<not> P x) xs) = length xs"
  by (induction xs) auto

text \<open>
  The report of a run adds up: there is one result per case of the dataset, the cases passed
  and failed add up to the total, and a case counts as passed exactly when nothing expected
  is missing or below the confidence floor and nothing it produced has a negative keyword.
\<close>

lemma golden_report_adds_up:
  assumes "golden_Run lower ex (Some ds) = Inr r"
  shows "rep_Total r = int (length (gd_Cases ds)) \<and> length (rep_Cases r) = length (gd_Cases ds)
    \<and> rep_Passed r + rep_Failed r = rep_Total r
    \<and> rep_Passed r = int (length (filter cr_Pass (rep_Cases r)))
    \<and> list_all case_consistent (rep_Cases r)"
proof -
  let ?init = "(\<lparr>rep_Dataset = gd_Name ds, rep_Total = int (length (gd_Cases ds)), rep_Passed = 0, rep_Failed = 0,
      rep_Precision = 0, rep_Recall = 0, rep_Cases = []\<rparr>, \<lparr>gs_matched = 0, gs_expected = 0, gs_drafts = 0, gs_spurious = 0\<rparr>)"
  obtain r' s where run: "run_cases lower ex (gd_Cases ds) ?init = Inr (r', s)"
    and same: "rep_Total r = rep_Total r'" "rep_Passed r = rep_Passed r'" "rep_Failed r = rep_Failed r'" "rep_Cases r = rep_Cases r'"
    using assms by (auto simp: golden_Run_def Let_def split: sum.splits)
  have "report_ok 0 ?init" by (simp add: report_ok_def)
  from run_cases_ok [OF run this] have ok: "report_ok (length (gd_Cases ds)) (r', s)" "rep_Total r' = int (length (gd_Cases ds))"
    by auto
  then show ?thesis
    using same filter_partition_length [of cr_Pass "rep_Cases r'"] by (auto simp: report_ok_def)
qed

text \<open>
  The precision is no proportion: a draft counts once per negative keyword it contains, so
  one draft with two of them gives the precision -1.
\<close>

lemma normalise_plain:
  "normaliseDesc (\<lambda>s. s) ''ab'' = ''ab''" "normaliseDesc (\<lambda>s. s) ''a'' = ''a''" "normaliseDesc (\<lambda>s. s) ''b'' = ''b''"
proof -
  have t: "TrimSpace ''ab'' = ''ab''" "TrimSpace ''a'' = ''a''" "TrimSpace ''b'' = ''b''"
    by (simp_all add: TrimSpace_def trim_seqs_fix space_seqs_def starts_with_def)
  have f: "Fields ''ab'' = [''ab'']" "Fields ''a'' = [''a'']" "Fields ''b'' = [''b'']"
    by (simp_all add: Fields_def space_seqs_def starts_with_def)
  show "normaliseDesc (\<lambda>s. s) ''ab'' = ''ab''" "normaliseDesc (\<lambda>s. s) ''a'' = ''a''" "normaliseDesc (\<lambda>s. s) ''b'' = ''b''"
    by (simp_all add: normaliseDesc_def t f)
qed

lemma golden_precision_below_zero:
  assumes "cd_Description d = ''ab''" and "gc_ExpectedDescriptions c = []" and "gc_NegativeKeywords c = [''a'', ''b'']"
  shows "\<exists>r. golden_Run (\<lambda>s. s) (\<lambda>i. Inr [d]) (Some \<lparr>gd_Name = [], gd_Cases = [c]\<rparr>) = Inr r
    \<and> rep_Precision r = 1 + - f_div (f_of_int 2) (f_of_int 1)"
proof -
  obtain res where rc: "run_case (\<lambda>s. s) c [d] = (res, 0, 2)"
    by (simp add: run_case_def check_negative_def Let_def sort_slice_def assms normalise_plain starts_with_def)
  show ?thesis by (simp add: golden_Run_def add_case_def rc assms(2) Let_def)
qed

end
