(* ===== verification/Sql_Base.thy ===== *)
theory Sql_Base
  imports Go_Any_Json Memory_Store
begin

text \<open>
  What the two SQL backends share: the JSON of the structs they keep in JSON columns, the rows of the
  five tables, and the meaning of the statements they issue. The engines and their drivers are
  third-party code: the record \<open>driver\<close> holds how an instant or a JSON text is represented in a
  column, which values a column refuses, the order of the stored instants and numbers, the order in
  which a scan visits rows, whether foreign keys are enforced, and the faults a call may meet
  (executing, counting the rows affected, querying, iterating).
  The language SQL itself (\<^verbatim>\<open>INSERT .. ON CONFLICT\<close>, \<^verbatim>\<open>WHERE\<close>, \<^verbatim>\<open>ORDER BY\<close>, \<^verbatim>\<open>LIMIT\<close>) is modelled.
\<close>

section \<open>JSON of the structs\<close>

definition SourceRef_json :: "SourceRef \<Rightarrow> json" where
  "SourceRef_json r = JObject [(''kind'', JString (sr_Kind r)), (''locator'', JString (sr_Locator r))]"

definition EntityRef_json :: "EntityRef \<Rightarrow> json" where
  "EntityRef_json e = JObject ([(''kind'', JString (er_Kind e)), (''name'', JString (er_Name e))] @
     (if er_ID e = [] then [] else [(''id'', JString (er_ID e))]))"

definition ActionConstraint_json :: "ActionConstraint \<Rightarrow> json" where
  "ActionConstraint_json c = JObject [(''key'', JString (ac_Key c)), (''value'', JString (ac_Value c))]"

text \<open>A nil slice is null; the model does not tell it from an empty one.\<close>

definition slice_json :: "('a \<Rightarrow> json) \<Rightarrow> 'a list \<Rightarrow> json" where
  "slice_json f xs = (if xs = [] then JNull else JArray (map f xs))"

definition anymap_json :: "(float64 \<Rightarrow> string) \<Rightarrow> anymap option \<Rightarrow> json" where
  "anymap_json fmt m = (case m of None \<Rightarrow> JNull | Some m \<Rightarrow> any_json fmt (VMap m))"

definition encodable_map :: "anymap option \<Rightarrow> bool" where
  "encodable_map m = (case m of None \<Rightarrow> True | Some m \<Rightarrow> encodable (VMap m))"

definition ActionRequest_json :: "(uuid \<Rightarrow> string) \<Rightarrow> (float64 \<Rightarrow> string) \<Rightarrow> ActionRequest \<Rightarrow> json" where
  "ActionRequest_json str fmt ar = JObject
     ([(''id'', JString (str (ar_ID ar))), (''capability'', JString (ar_Capability ar)),
       (''payload'', anymap_json fmt (ar_Payload ar))] @
      (if ar_Constraints ar = [] then [] else [(''constraints'', slice_json ActionConstraint_json (ar_Constraints ar))]) @
      [(''idempotency_key'', JString (ar_IdempotencyKey ar))])"

text \<open>The decoders: an object fills the fields, null leaves the zero value, anything else is a type error.\<close>

definition decode_SourceRef :: "json \<Rightarrow> SourceRef \<times> bool" where
  "decode_SourceRef v = (case v of
       JObject ms \<Rightarrow> (case (string_field ''kind'' ms, string_field ''locator'' ms) of
         ((k, b1), (l, b2)) \<Rightarrow> (\<lparr>sr_Kind = k, sr_Locator = l\<rparr>, b1 \<and> b2))
     | JNull \<Rightarrow> (\<lparr>sr_Kind = [], sr_Locator = []\<rparr>, True)
     | _ \<Rightarrow> (\<lparr>sr_Kind = [], sr_Locator = []\<rparr>, False))"

definition decode_EntityRef :: "json \<Rightarrow> EntityRef \<times> bool" where
  "decode_EntityRef v = (case v of
       JObject ms \<Rightarrow> (case (string_field ''kind'' ms, string_field ''name'' ms, string_field ''id'' ms) of
         ((k, b1), (n, b2), (i, b3)) \<Rightarrow> (\<lparr>er_Kind = k, er_Name = n, er_ID = i\<rparr>, b1 \<and> b2 \<and> b3))
     | JNull \<Rightarrow> (\<lparr>er_Kind = [], er_Name = [], er_ID = []\<rparr>, True)
     | _ \<Rightarrow> (\<lparr>er_Kind = [], er_Name = [], er_ID = []\<rparr>, False))"

definition decode_ActionConstraint :: "json \<Rightarrow> ActionConstraint \<times> bool" where
  "decode_ActionConstraint v = (case v of
       JObject ms \<Rightarrow> (case (string_field ''key'' ms, string_field ''value'' ms) of
         ((k, b1), (l, b2)) \<Rightarrow> (\<lparr>ac_Key = k, ac_Value = l\<rparr>, b1 \<and> b2))
     | JNull \<Rightarrow> (\<lparr>ac_Key = [], ac_Value = []\<rparr>, True)
     | _ \<Rightarrow> (\<lparr>ac_Key = [], ac_Value = []\<rparr>, False))"

text \<open>An identifier is read by the parser of the package \<^verbatim>\<open>uuid\<close>.\<close>

definition uuid_field :: "(string \<Rightarrow> error + uuid) \<Rightarrow> string \<Rightarrow> (string \<times> json) list \<Rightarrow> uuid \<times> bool" where
  "uuid_field parse name ms = foldl (\<lambda>(u, ok) v. case v of
       JString x \<Rightarrow> (case parse x of Inr w \<Rightarrow> (w, ok) | Inl _ \<Rightarrow> (u, False))
     | JNull \<Rightarrow> (u, ok) | _ \<Rightarrow> (u, False)) (uuid_Nil, True) (field_values name ms)"

definition anymap_field :: "string \<Rightarrow> (string \<times> json) list \<Rightarrow> anymap option \<times> bool" where
  "anymap_field name ms = foldl (\<lambda>(m, ok) v. case decode_anymap m v of (m, b) \<Rightarrow> (m, ok \<and> b))
     (None, True) (field_values name ms)"

definition decode_ActionRequest :: "(string \<Rightarrow> error + uuid) \<Rightarrow> json \<Rightarrow> ActionRequest \<times> bool" where
  "decode_ActionRequest parse v = (case v of
       JObject ms \<Rightarrow>
         (case (uuid_field parse ''id'' ms, string_field ''capability'' ms, anymap_field ''payload'' ms,
                list_field decode_ActionConstraint ''constraints'' ms, string_field ''idempotency_key'' ms) of
            ((i, b1), (c, b2), (p, b3), (cs, b4), (k, b5)) \<Rightarrow>
              (\<lparr>ar_ID = i, ar_Capability = c, ar_Payload = p, ar_Constraints = cs, ar_IdempotencyKey = k\<rparr>,
               b1 \<and> b2 \<and> b3 \<and> b4 \<and> b5))
     | _ \<Rightarrow> (\<lparr>ar_ID = uuid_Nil, ar_Capability = [], ar_Payload = None, ar_Constraints = [], ar_IdempotencyKey = []\<rparr>,
             v = JNull))"

text \<open>Weights are a map from names to floats.\<close>

definition weights_json :: "(float64 \<Rightarrow> string) \<Rightarrow> DecisionWeights \<Rightarrow> json" where
  "weights_json fmt w = JObject (sort_members (map (\<lambda>(k, x). (k, JNumber (fmt x))) w))"

definition decode_float :: "json \<Rightarrow> float64 \<times> bool" where
  "decode_float v = (case v of
       JNumber n \<Rightarrow> (case float_of_number n of Some x \<Rightarrow> (x, True) | None \<Rightarrow> (0, False))
     | JNull \<Rightarrow> (0, True) | _ \<Rightarrow> (0, False))"

definition decode_weights :: "json \<Rightarrow> DecisionWeights option \<times> bool" where
  "decode_weights v = (case v of
       JNull \<Rightarrow> (None, True)
     | JObject ms \<Rightarrow> (let rs = map (\<lambda>(k, v). (k, decode_float v)) ms in
         (Some (foldl (\<lambda>m (k, r). AList.update k (fst r) m) [] rs), list_all (\<lambda>(k, r). snd r) rs))
     | _ \<Rightarrow> (None, False))"


section \<open>Results\<close>

text \<open>\<^verbatim>\<open>x, err := f(); if err != nil { return err }\<close>, and the same with the error wrapped.\<close>

definition try_bind :: "error + 'a \<Rightarrow> ('a \<Rightarrow> error + 'b) \<Rightarrow> error + 'b" where
  "try_bind r f = (case r of Inl e \<Rightarrow> Inl e | Inr x \<Rightarrow> f x)"

definition wrap_err :: "string \<Rightarrow> error + 'a \<Rightarrow> error + 'a" where
  "wrap_err msg r = (case r of Inl e \<Rightarrow> Inl (ErrWrap msg e) | Inr x \<Rightarrow> Inr x)"

lemma try_bind_simps [simp]: "try_bind (Inr x) f = f x" "try_bind (Inl e) f = Inl e"
  by (simp_all add: try_bind_def)

lemma wrap_err_simps [simp]: "wrap_err msg (Inr x) = Inr x" "wrap_err msg (Inl e) = Inl (ErrWrap msg e)"
  by (simp_all add: wrap_err_def)

lemma wrap_err_Inr [simp]: "wrap_err msg r = Inr x \<longleftrightarrow> r = Inr x"
  by (cases r) simp_all

lemma try_bind_Inr: "try_bind r f = Inr y \<longleftrightarrow> (\<exists>x. r = Inr x \<and> f x = Inr y)"
  by (cases r) simp_all

fun try_map :: "('a \<Rightarrow> error + 'b) \<Rightarrow> 'a list \<Rightarrow> error + 'b list" where
  "try_map f [] = Inr []"
| "try_map f (x # xs) = try_bind (f x) (\<lambda>y. try_bind (try_map f xs) (\<lambda>ys. Inr (y # ys)))"

lemma try_map_ok: "\<forall>x \<in> set xs. f x = Inr (g x) \<Longrightarrow> try_map f xs = Inr (map g xs)"
  by (induction xs) simp_all


section \<open>Rows\<close>

text \<open>The rows are polymorphic in how identifiers, JSON texts and instants are kept.\<close>

record ('i, 'j, 't) commitment_row =
  rc_id :: 'i
  rc_owner_id :: string
  rc_description :: string
  rc_source_refs :: 'j
  rc_entities :: 'j
  rc_due_at :: "'t option"
  rc_status :: string
  rc_confidence :: float64
  rc_risk_score :: float64
  rc_last_evaluated_at :: "'t option"
  rc_created_at :: 't
  rc_updated_at :: 't

record ('i, 'j, 't) goal_row =
  rg_id :: 'i
  rg_owner_id :: string
  rg_title :: string
  rg_description :: string
  rg_priority :: int
  rg_status :: string
  rg_source_refs :: 'j
  rg_created_at :: 't
  rg_updated_at :: 't

record ('i, 'j, 't) task_row =
  rt_id :: 'i
  rt_goal_id :: "'i option"
  rt_plan_id :: "'i option"
  rt_commitment_id :: "'i option"
  rt_title :: string
  rt_description :: string
  rt_assigned_to :: "string option"
  rt_status :: string
  rt_priority :: int
  rt_due_at :: "'t option"
  rt_created_at :: 't
  rt_updated_at :: 't

record ('i, 'j, 't) decision_row =
  rd_id :: 'i
  rd_subject :: string
  rd_context_refs :: 'j
  rd_inputs :: 'j
  rd_weights :: "'j option"
  rd_outcome :: 'j
  rd_reason :: string
  rd_confidence :: float64
  rd_created_at :: 't

record ('i, 'j, 't) intervention_row =
  ri_id :: 'i
  ri_commitment_id :: "'i option"
  ri_task_id :: "'i option"
  ri_type :: string
  ri_message :: string
  ri_suggested_action :: "'j option"
  ri_status :: string
  ri_triggered_at :: 't
  ri_resolved_at :: "'t option"

record ('i, 'j, 't) db =
  db_goals :: "('i, 'j, 't) goal_row list"
  db_commitments :: "('i, 'j, 't) commitment_row list"
  db_tasks :: "('i, 'j, 't) task_row list"
  db_decisions :: "('i, 'j, 't) decision_row list"
  db_interventions :: "('i, 'j, 't) intervention_row list"

definition empty_db :: "('i, 'j, 't) db" where
  "empty_db = \<lparr>db_goals = [], db_commitments = [], db_tasks = [], db_decisions = [], db_interventions = []\<rparr>"


section \<open>Drivers\<close>

text \<open>The arguments bound to a statement, and what the engine may refuse.\<close>

datatype column = ColText string | ColReal float64 | ColInt int | ColJson string

datatype refusal = RefusedColumn column | RefusedForeignKey

record ('i, 'j, 't) driver =
  put_time :: "time \<Rightarrow> 't"
  get_time :: "'t \<Rightarrow> error + time"
  time_before :: "'t \<Rightarrow> 't \<Rightarrow> bool"
  put_json :: "string \<Rightarrow> 'j"
  get_json :: "'j \<Rightarrow> string"
  takes :: "column \<Rightarrow> bool"
  real_before :: "float64 \<Rightarrow> float64 \<Rightarrow> bool"
  foreign_keys :: bool
  engine_error :: "refusal \<Rightarrow> error"
  exec_fault :: "('i, 'j, 't) db \<Rightarrow> error option"
  rows_fault :: "('i, 'j, 't) db \<Rightarrow> error option"
  query_fault :: "('i, 'j, 't) db \<Rightarrow> error option"
  iter_fault :: "('i, 'j, 't) db \<Rightarrow> error option"
  scan_goals :: "('i, 'j, 't) goal_row list \<Rightarrow> ('i, 'j, 't) goal_row list"
  scan_commitments :: "('i, 'j, 't) commitment_row list \<Rightarrow> ('i, 'j, 't) commitment_row list"
  scan_tasks :: "('i, 'j, 't) task_row list \<Rightarrow> ('i, 'j, 't) task_row list"
  scan_decisions :: "('i, 'j, 't) decision_row list \<Rightarrow> ('i, 'j, 't) decision_row list"
  scan_interventions :: "('i, 'j, 't) intervention_row list \<Rightarrow> ('i, 'j, 't) intervention_row list"


section \<open>Statements\<close>

text \<open>
  \<^verbatim>\<open>INSERT INTO t .. ON CONFLICT (id) DO UPDATE SET ..\<close>: the columns are checked first; a row
  under the same key is changed by \<open>merge\<close> (the old row and the one excluded from insertion), any
  other row is added. A foreign key is checked on the row that is written, when it is new or its
  reference changed. A failing statement changes nothing.
\<close>

definition references :: "('r \<Rightarrow> 'i option) \<Rightarrow> 'i list \<Rightarrow> 'r option \<Rightarrow> 'r \<Rightarrow> bool" where
  "references f keys old row \<longleftrightarrow>
     (case f row of None \<Rightarrow> True | Some k \<Rightarrow> k \<in> set keys \<or> (case old of None \<Rightarrow> False | Some r \<Rightarrow> f r = Some k))"

definition upsert_row :: "('r \<Rightarrow> 'i) \<Rightarrow> ('r \<Rightarrow> 'r \<Rightarrow> 'r) \<Rightarrow> 'r \<Rightarrow> 'r list \<Rightarrow> 'r list" where
  "upsert_row key merge row tbl =
     (if key row \<in> set (map key tbl) then map (\<lambda>r. if key r = key row then merge r row else r) tbl
      else tbl @ [row])"

definition exec_upsert ::
  "('i, 'j, 't) driver \<Rightarrow> ('i, 'j, 't) db \<Rightarrow> column list \<Rightarrow> (('r \<Rightarrow> 'i option) \<times> 'i list) list \<Rightarrow>
   ('r \<Rightarrow> 'i) \<Rightarrow> ('r \<Rightarrow> 'r \<Rightarrow> 'r) \<Rightarrow> 'r \<Rightarrow> 'r list \<Rightarrow> error + 'r list" where
  "exec_upsert drv db cols fks key merge row tbl =
     (case exec_fault drv db of Some e \<Rightarrow> Inl e | None \<Rightarrow>
      (case find (\<lambda>c. \<not> takes drv c) cols of Some c \<Rightarrow> Inl (engine_error drv (RefusedColumn c)) | None \<Rightarrow>
       let old = find (\<lambda>r. key r = key row) tbl;
           new = (case old of None \<Rightarrow> row | Some r \<Rightarrow> merge r row)
       in if foreign_keys drv \<and> \<not> list_all (\<lambda>(f, keys). references f keys old new) fks
          then Inl (engine_error drv RefusedForeignKey)
          else Inr (upsert_row key merge row tbl)))"

text \<open>\<^verbatim>\<open>ON CONFLICT (id) DO NOTHING\<close>.\<close>

definition do_nothing :: "'r \<Rightarrow> 'r \<Rightarrow> 'r" where
  "do_nothing old row = old"

text \<open>\<^verbatim>\<open>QueryRow\<close> with a condition on the primary key, and \<^verbatim>\<open>Query\<close> with its clauses joined by \<^verbatim>\<open>AND\<close>.\<close>

definition query_row :: "('i, 'j, 't) driver \<Rightarrow> ('i, 'j, 't) db \<Rightarrow> ('r \<Rightarrow> 'i) \<Rightarrow> 'i \<Rightarrow> 'r list \<Rightarrow> error + 'r option" where
  "query_row drv db key k tbl =
     (case query_fault drv db of Some e \<Rightarrow> Inl e | None \<Rightarrow> Inr (find (\<lambda>r. key r = k) tbl))"

definition query_rows ::
  "('i, 'j, 't) driver \<Rightarrow> ('i, 'j, 't) db \<Rightarrow> ('r \<Rightarrow> bool) list \<Rightarrow> ('r \<Rightarrow> 'r \<Rightarrow> bool) \<Rightarrow> int \<Rightarrow> 'r list \<Rightarrow> error + 'r list" where
  "query_rows drv db clauses before limit scanned =
     (case query_fault drv db of Some e \<Rightarrow> Inl e | None \<Rightarrow>
        Inr (limit_slice limit (sort_slice before (filter (\<lambda>r. list_all (\<lambda>c. c r) clauses) scanned))))"


text \<open>Binding and scanning a nullable instant.\<close>

definition put_null_time :: "('i, 'j, 't) driver \<Rightarrow> time option \<Rightarrow> 't option" where
  "put_null_time drv n = map_option (put_time drv) n"

definition get_null_time :: "('i, 'j, 't) driver \<Rightarrow> 't option \<Rightarrow> error + time option" where
  "get_null_time drv n = (case n of None \<Rightarrow> Inr None | Some t \<Rightarrow> try_bind (get_time drv t) (\<lambda>t. Inr (Some t)))"

text \<open>The loop \<^verbatim>\<open>for rows.Next()\<close>: scan every row, then ask for the error of the iteration.\<close>

definition collect :: "('i, 'j, 't) driver \<Rightarrow> ('i, 'j, 't) db \<Rightarrow> ('r \<Rightarrow> error + 'v) \<Rightarrow> 'r list \<Rightarrow> error + 'v list" where
  "collect drv db scan rows = try_bind (try_map scan rows)
     (\<lambda>out. case iter_fault drv db of Some e \<Rightarrow> Inl e | None \<Rightarrow> Inr out)"

end
