(* ===== verification/Sql_Table.thy ===== *)
theory Sql_Table
  imports Sql_Base
begin

text \<open>
  The contract between a table and its repository: rows encode values, a scan decodes them, the columns an
  upsert keeps are those of \<open>merge\<close>. Under it a table is a finite map from identifiers to values and an
  upsert is an update of that map.
\<close>

locale sql_table =
  fixes str :: "uuid \<Rightarrow> string"
    and enc :: "'v \<Rightarrow> 'r" and dec :: "'r \<Rightarrow> error + 'v"
    and key :: "'r \<Rightarrow> string" and ident :: "'v \<Rightarrow> uuid"
    and merge_row :: "'r \<Rightarrow> 'r \<Rightarrow> 'r" and merge :: "'v \<Rightarrow> 'v \<Rightarrow> 'v"
    and ok :: "'v \<Rightarrow> bool"
  assumes inj_str: "inj str"
    and dec_enc: "ok v \<Longrightarrow> dec (enc v) = Inr v"
    and key_enc: "key (enc v) = str (ident v)"
    and merge_enc: "merge_row (enc v) (enc w) = enc (merge v w)"
    and merge_ident: "ident (merge v w) = ident v"
    and merge_ok: "ok v \<Longrightarrow> ok w \<Longrightarrow> ident v = ident w \<Longrightarrow> ok (merge v w)"
begin

abbreviation lookup :: "'v list \<Rightarrow> uuid \<Rightarrow> 'v option" where
  "lookup vs u \<equiv> find (\<lambda>v. ident v = u) vs"

definition holds :: "'r list \<Rightarrow> (uuid \<Rightarrow> 'v option) \<Rightarrow> bool" where
  "holds tbl m \<longleftrightarrow> (\<exists>vs. tbl = map enc vs \<and> distinct (map ident vs) \<and> list_all ok vs \<and> m = lookup vs)"

lemma key_eq: "key (enc v) = str u \<longleftrightarrow> ident v = u"
  using inj_str by (auto simp: key_enc dest: injD)

lemma holds_empty: "holds [] Map.empty"
  by (auto simp: holds_def intro!: exI [of _ "[]"])

lemma lookup_None: "lookup vs u = None \<longleftrightarrow> u \<notin> set (map ident vs)"
  by (auto simp: find_None_iff)

lemma lookup_Some: "lookup vs u = Some v \<Longrightarrow> v \<in> set vs \<and> ident v = u"
  by (auto simp: find_Some_iff)

lemma lookup_iff: "distinct (map ident vs) \<Longrightarrow> lookup vs u = Some v \<longleftrightarrow> v \<in> set vs \<and> ident v = u"
proof (induction vs)
  case (Cons a vs)
  have "v \<in> set vs \<Longrightarrow> ident v \<noteq> ident a" using Cons.prems by (metis distinct.simps(2) image_eqI list.set_map list.simps(9))
  then show ?case using Cons by auto
qed simp

lemma holds_find: "holds tbl m \<Longrightarrow> find (\<lambda>r. key r = str u) tbl = map_option enc (m u)"
proof -
  have "find (\<lambda>r. key r = str u) (map enc vs) = map_option enc (lookup vs u)" for vs
    by (induction vs) (simp_all add: key_eq)
  then show "holds tbl m \<Longrightarrow> ?thesis" by (auto simp: holds_def)
qed

lemma holds_value: "holds tbl m \<Longrightarrow> m u = Some v \<Longrightarrow> ok v \<and> ident v = u \<and> dec (enc v) = Inr v"
  by (auto simp: holds_def list_all_iff dec_enc dest!: lookup_Some)

lemma holds_keys: "holds tbl m \<Longrightarrow> str u \<in> set (map key tbl) \<longleftrightarrow> m u \<noteq> None"
proof -
  assume "holds tbl m"
  then obtain vs where vs: "tbl = map enc vs" "m = lookup vs" by (auto simp: holds_def)
  have "str u \<in> set (map key (map enc vs)) \<longleftrightarrow> u \<in> set (map ident vs)"
    using inj_str by (auto simp: key_enc image_iff dest: injD)
  then show ?thesis using vs lookup_None [of u vs] by simp
qed

text \<open>Changing the row of one identifier.\<close>

lemma lookup_map_other:
  "\<forall>v \<in> set vs. ident v = u \<longrightarrow> ident (f v) = u \<Longrightarrow>
     lookup (map (\<lambda>v. if ident v = u then f v else v) vs) x =
       (if x = u then map_option f (lookup vs u) else lookup vs x)"
  by (induction vs) auto

lemma holds_modify:
  assumes h: "holds tbl m" and f: "\<And>v. ok v \<Longrightarrow> ident v = u \<Longrightarrow> g (enc v) = enc (f v) \<and> ok (f v) \<and> ident (f v) = u"
  shows "holds (map (\<lambda>r. if key r = str u then g r else r) tbl) (case m u of None \<Rightarrow> m | Some v \<Rightarrow> m(u \<mapsto> f v))"
proof -
  obtain vs where vs: "tbl = map enc vs" "distinct (map ident vs)" "list_all ok vs" "m = lookup vs"
    using h by (auto simp: holds_def)
  let ?ws = "map (\<lambda>v. if ident v = u then f v else v) vs"
  have okf: "\<forall>v \<in> set vs. ident v = u \<longrightarrow> g (enc v) = enc (f v) \<and> ok (f v) \<and> ident (f v) = u"
    using vs(3) f by (auto simp: list_all_iff)
  have "map (\<lambda>r. if key r = str u then g r else r) tbl = map enc ?ws" using okf by (auto simp: vs(1) key_eq)
  moreover have "map ident ?ws = map ident vs" using okf by auto
  moreover have "list_all ok ?ws" using okf vs(3) by (auto simp: list_all_iff)
  moreover have "(case m u of None \<Rightarrow> m | Some v \<Rightarrow> m(u \<mapsto> f v)) = lookup ?ws"
    using lookup_map_other [of vs u f] okf by (auto simp: vs(4) fun_eq_iff split: option.splits)
  ultimately show ?thesis using vs(2) unfolding holds_def by (intro exI [of _ ?ws] conjI) (simp_all only:)
qed

lemma holds_insert:
  assumes "holds tbl m" and "ok w" and "m (ident w) = None"
  shows "holds (tbl @ [enc w]) (m(ident w \<mapsto> w))"
proof -
  obtain vs where vs: "tbl = map enc vs" "distinct (map ident vs)" "list_all ok vs" "m = lookup vs"
    using assms(1) by (auto simp: holds_def)
  have n: "ident w \<notin> set (map ident vs)" using assms(3) vs(4) lookup_None by blast
  have "lookup (vs @ [w]) = m(ident w \<mapsto> w)"
  proof
    fix x
    show "lookup (vs @ [w]) x = (m(ident w \<mapsto> w)) x"
      using n unfolding vs(4) by (induction vs) auto
  qed
  then show ?thesis using vs n assms(2) unfolding holds_def by (intro exI [of _ "vs @ [w]"]) simp
qed

text \<open>An upsert updates the map, keeping what \<open>merge\<close> keeps.\<close>

lemma holds_upsert:
  assumes h: "holds tbl m" and w: "ok w"
  shows "holds (upsert_row key merge_row (enc w) tbl)
    (m(ident w \<mapsto> (case m (ident w) of None \<Rightarrow> w | Some v \<Rightarrow> merge v w)))"
proof (cases "m (ident w)")
  case None
  then have "key (enc w) \<notin> set (map key tbl)" using holds_keys [OF h] by (simp add: key_enc)
  then show ?thesis using holds_insert [OF h w None] None by (simp add: upsert_row_def)
next
  case (Some v)
  then have "key (enc w) \<in> set (map key tbl)" using holds_keys [OF h, of "ident w"] by (simp add: key_enc)
  moreover have "holds (map (\<lambda>r. if key r = str (ident w) then merge_row r (enc w) else r) tbl)
      (case m (ident w) of None \<Rightarrow> m | Some v \<Rightarrow> m(ident w \<mapsto> merge v w))"
    by (rule holds_modify [OF h]) (simp add: merge_enc merge_ident merge_ok w)
  ultimately show ?thesis using Some by (simp add: upsert_row_def key_enc)
qed

text \<open>A foreign key to this table, in terms of the map.\<close>

lemma holds_references:
  assumes "holds tbl m" and "\<And>v. f (enc' v) = map_option str (g v)"
  shows "references f (map key tbl) (map_option enc' old) (enc' new) \<longleftrightarrow>
    (case g new of None \<Rightarrow> True | Some u \<Rightarrow> m u \<noteq> None \<or> (case old of None \<Rightarrow> False | Some v \<Rightarrow> g v = Some u))"
  using holds_keys [OF assms(1)] inj_str assms(2)
  by (auto simp: references_def split: option.splits dest: injD)

end

end
