(* ===== verification/Sql_Json_Laws.thy ===== *)
theory Sql_Json_Laws
  imports Sql_Base
begin

text \<open>
  JSON documents that a database may hand back for one another: \<open>json_same\<close> lets the members of an
  object change their order and a number change its literal, as \<^verbatim>\<open>jsonb\<close> does. The decoders of the
  repositories do not see the difference, up to the order of the entries of a map, which Go does not
  define; \<open>canon_map\<close> picks one.
\<close>

section \<open>Equivalent documents\<close>

inductive json_same :: "json \<Rightarrow> json \<Rightarrow> bool" where
  same_null: "json_same JNull JNull"
| same_bool: "json_same (JBool b) (JBool b)"
| same_string: "json_same (JString s) (JString s)"
| same_number: "number_value n = number_value m \<Longrightarrow> json_same (JNumber n) (JNumber m)"
| same_array: "list_all2 json_same vs ws \<Longrightarrow> json_same (JArray vs) (JArray ws)"
| same_object: "list_all2 (\<lambda>a b. fst a = fst b \<and> json_same (snd a) (snd b)) ms ns \<Longrightarrow> mset ns = mset ns' \<Longrightarrow>
     json_same (JObject ms) (JObject ns')"

inductive_cases json_same_nullE [elim!]: "json_same JNull w"
inductive_cases json_same_boolE [elim!]: "json_same (JBool b) w"
inductive_cases json_same_stringE [elim!]: "json_same (JString s) w"
inductive_cases json_same_numberE [elim!]: "json_same (JNumber n) w"
inductive_cases json_same_arrayE [elim!]: "json_same (JArray vs) w"
inductive_cases json_same_objectE [elim]: "json_same (JObject ms) w"

lemma json_same_refl: "json_same v v"
proof (induction v)
  case (JArray vs)
  then show ?case by (auto intro!: same_array simp: list_all2_same)
next
  case (JObject ms)
  then have "list_all2 (\<lambda>a b. fst a = fst b \<and> json_same (snd a) (snd b)) ms ms"
    by (auto simp: list_all2_same snds.simps)
  then show ?case by (rule same_object) simp
qed (auto intro: json_same.intros)

text \<open>A key that occurs once is found once in every arrangement.\<close>

lemma filter_perm_single: "filter p xs = [x] \<Longrightarrow> mset xs = mset ys \<Longrightarrow> filter p ys = [x]"
proof -
  assume "filter p xs = [x]" "mset xs = mset ys"
  then have "mset (filter p ys) = {#x#}" by (metis mset_filter mset_single_iff_right mset.simps)
  then show "filter p ys = [x]" by (metis mset_single_iff)
qed

lemma filter_perm_none: "filter p xs = [] \<Longrightarrow> mset xs = mset ys \<Longrightarrow> filter p ys = []"
  by (metis mset_filter mset_zero_iff)

lemma filter_all2_single:
  assumes "list_all2 (\<lambda>a b. fst a = fst b \<and> R (snd a) (snd b)) ms ns" "filter (\<lambda>(k, v). q k) ms = [(k, v)]"
  shows "\<exists>w. filter (\<lambda>(k, v). q k) ns = [(k, w)] \<and> R v w"
proof -
  have "list_all2 (\<lambda>a b. fst a = fst b \<and> R (snd a) (snd b)) (filter (\<lambda>(k, v). q k) ms) (filter (\<lambda>(k, v). q k) ns)"
    using assms(1) by (induction rule: list_all2_induct) auto
  then show ?thesis using assms(2) by (auto simp: list_all2_Cons1)
qed

lemma filter_all2_none:
  assumes "list_all2 (\<lambda>a b. fst a = fst b \<and> R (snd a) (snd b)) ms ns" "filter (\<lambda>(k, v). q k) ms = []"
  shows "filter (\<lambda>(k, v). q k) ns = []"
  using assms by (induction rule: list_all2_induct) (auto split: if_splits)

lemma same_field:
  assumes "json_same (JObject ms) (JObject ns)"
  shows "field_values name ms = [v] \<Longrightarrow> \<exists>w. field_values name ns = [w] \<and> json_same v w"
    and "field_values name ms = [] \<Longrightarrow> field_values name ns = []"
proof -
  let ?p = "\<lambda>(k, v :: json). fold_key k = fold_key name"
  obtain ns' where l: "list_all2 (\<lambda>a b. fst a = fst b \<and> json_same (snd a) (snd b)) ms ns'" and m: "mset ns' = mset ns"
    using assms by (auto elim: json_same_objectE)
  show "\<exists>w. field_values name ns = [w] \<and> json_same v w" if h: "field_values name ms = [v]"
  proof -
    obtain x where "filter ?p ms = [x]" "snd x = v"
      using h by (auto simp: field_values_def)
    then obtain k where "filter ?p ms = [(k, v)]" by (cases x) simp
    from filter_all2_single [OF l this] obtain w where "filter ?p ns' = [(k, w)]" "json_same v w" by blast
    then show ?thesis using filter_perm_single [OF _ m] by (auto simp: field_values_def)
  qed
  show "field_values name ns = []" if "field_values name ms = []"
    using that filter_perm_none [OF filter_all2_none [OF l] m] by (auto simp: field_values_def)
qed

lemma same_object_shape: "json_same (JObject ms) w \<Longrightarrow> \<exists>ns. w = JObject ns"
  by (auto elim: json_same_objectE)

text \<open>Fields that hold one text, or are missing.\<close>

lemma same_string_field:
  assumes "json_same (JObject ms) (JObject ns)" "field_values name ms = [JString s]"
  shows "string_field name ns = (s, True)"
  using same_field(1) [OF assms] by (auto simp: string_field_def)

lemma missing_string_field:
  assumes "json_same (JObject ms) (JObject ns)" "field_values name ms = []"
  shows "string_field name ns = ([], True)"
  using same_field(2) [OF assms] by (simp add: string_field_def)

lemma same_uuid_field:
  assumes "json_same (JObject ms) (JObject ns)" "field_values name ms = [JString s]" "parse s = Inr u"
  shows "uuid_field parse name ns = (u, True)"
  using same_field(1) [OF assms(1,2)] assms(3) by (auto simp: uuid_field_def)


section \<open>Structs\<close>

definition ref_ok :: "SourceRef \<Rightarrow> bool" where
  "ref_ok r \<longleftrightarrow> valid_utf8 (sr_Kind r) \<and> valid_utf8 (sr_Locator r)"

definition entity_ok :: "EntityRef \<Rightarrow> bool" where
  "entity_ok e \<longleftrightarrow> valid_utf8 (er_Kind e) \<and> valid_utf8 (er_Name e) \<and> valid_utf8 (er_ID e)"

definition constraint_ok :: "ActionConstraint \<Rightarrow> bool" where
  "constraint_ok c \<longleftrightarrow> valid_utf8 (ac_Key c) \<and> valid_utf8 (ac_Value c)"

lemma valid_keys [simp]:
  "sanitise ''kind'' = ''kind''" "sanitise ''locator'' = ''locator''" "sanitise ''name'' = ''name''" "sanitise ''id'' = ''id''"
  "sanitise ''key'' = ''key''" "sanitise ''value'' = ''value''" "sanitise ''capability'' = ''capability''"
  "sanitise ''payload'' = ''payload''" "sanitise ''constraints'' = ''constraints''"
  "sanitise ''idempotency_key'' = ''idempotency_key''"
  by (simp_all add: sanitise_valid valid_ascii)

lemma sane_ref: "ref_ok r \<Longrightarrow> sane (SourceRef_json r) = SourceRef_json r"
  by (simp add: ref_ok_def SourceRef_json_def sanitise_valid)

lemma sane_entity: "entity_ok e \<Longrightarrow> sane (EntityRef_json e) = EntityRef_json e"
  by (simp add: entity_ok_def EntityRef_json_def sanitise_valid)

lemma sane_constraint: "constraint_ok c \<Longrightarrow> sane (ActionConstraint_json c) = ActionConstraint_json c"
  by (simp add: constraint_ok_def ActionConstraint_json_def sanitise_valid)

lemma fields_ref:
  "field_values ''kind'' [(''kind'', a), (''locator'', b)] = [a]" "field_values ''locator'' [(''kind'', a), (''locator'', b)] = [b]"
  by (simp_all add: field_values_def)

lemma fields_constraint:
  "field_values ''key'' [(''key'', a), (''value'', b)] = [a]" "field_values ''value'' [(''key'', a), (''value'', b)] = [b]"
  by (simp_all add: field_values_def)

lemma fields_entity:
  "field_values ''kind'' ([(''kind'', a), (''name'', b)] @ (if e then [] else [(''id'', c)])) = [a]"
  "field_values ''name'' ([(''kind'', a), (''name'', b)] @ (if e then [] else [(''id'', c)])) = [b]"
  "field_values ''id'' ([(''kind'', a), (''name'', b)] @ (if e then [] else [(''id'', c)])) = (if e then [] else [c])"
  by (simp_all add: field_values_def)

lemma decode_ref: "json_same (SourceRef_json r) w \<Longrightarrow> decode_SourceRef w = (r, True)"
  unfolding SourceRef_json_def
proof -
  assume s: "json_same (JObject [(''kind'', JString (sr_Kind r)), (''locator'', JString (sr_Locator r))]) w"
  then obtain ns where w: "w = JObject ns" using same_object_shape by blast
  show ?thesis using same_string_field [OF s [unfolded w] fields_ref(1)] same_string_field [OF s [unfolded w] fields_ref(2)]
    by (simp add: w decode_SourceRef_def)
qed

lemma decode_constraint: "json_same (ActionConstraint_json c) w \<Longrightarrow> decode_ActionConstraint w = (c, True)"
  unfolding ActionConstraint_json_def
proof -
  assume s: "json_same (JObject [(''key'', JString (ac_Key c)), (''value'', JString (ac_Value c))]) w"
  then obtain ns where w: "w = JObject ns" using same_object_shape by blast
  show ?thesis
    using same_string_field [OF s [unfolded w] fields_constraint(1)] same_string_field [OF s [unfolded w] fields_constraint(2)]
    by (simp add: w decode_ActionConstraint_def)
qed

lemma decode_entity: "json_same (EntityRef_json e) w \<Longrightarrow> decode_EntityRef w = (e, True)"
  unfolding EntityRef_json_def
proof -
  let ?ms = "[(''kind'', JString (er_Kind e)), (''name'', JString (er_Name e))] @
      (if er_ID e = [] then [] else [(''id'', JString (er_ID e))])"
  assume s: "json_same (JObject ?ms) w"
  then obtain ns where w: "w = JObject ns" using same_object_shape by blast
  note s = s [unfolded w]
  have f: "field_values ''id'' ?ms = (if er_ID e = [] then [] else [JString (er_ID e)])" by (rule fields_entity)
  have "string_field ''id'' ns = (er_ID e, True)"
  proof (cases "er_ID e = []")
    case True
    then have "(if er_ID e = [] then [] else [JString (er_ID e)]) = []" by simp
    with f have "field_values ''id'' ?ms = []" by (rule trans)
    then show ?thesis using missing_string_field [OF s] True by simp
  next
    case False
    then have "(if er_ID e = [] then [] else [JString (er_ID e)]) = [JString (er_ID e)]" by simp
    with f have "field_values ''id'' ?ms = [JString (er_ID e)]" by (rule trans)
    then show ?thesis by (rule same_string_field [OF s])
  qed
  then show ?thesis using same_string_field [OF s fields_entity(1)] same_string_field [OF s fields_entity(2)]
    by (simp add: w decode_EntityRef_def)
qed

lemma decode_slice:
  assumes "json_same (slice_json f xs) w" and "\<And>x v. x \<in> set xs \<Longrightarrow> json_same (f x) v \<Longrightarrow> g v = (x, True)"
  shows "decode_list g w = (xs, True)"
proof (cases "xs = []")
  case True
  then show ?thesis using assms(1) by (auto simp: slice_json_def decode_list_def)
next
  case False
  then obtain ws where w: "w = JArray ws" and l: "list_all2 json_same (map f xs) ws"
    using assms(1) by (auto simp: slice_json_def)
  have "list_all2 (\<lambda>x v. g v = (x, True)) xs ws"
    using l assms(2) by (auto simp: list_all2_conv_all_nth)
  then have "map (fst \<circ> g) ws = xs \<and> list_all (snd \<circ> g) ws" by (induction rule: list_all2_induct) auto
  then show ?thesis by (simp add: w decode_list_def)
qed



section \<open>Maps\<close>

interpretation member_order: slice_less "\<lambda>_. True" "\<lambda>a b. string_less (fst a) (fst b)"
  by unfold_locales (auto dest: string_less_asym string_less_neg_trans)

lemma sort_members_perm:
  assumes "distinct (map fst xs)" and "mset xs = mset ys"
  shows "sort_members xs = sort_members ys"
proof (rule member_order.inorder_unique)
  show "\<forall>a \<in> set (sort_members xs). \<forall>b \<in> set (sort_members xs).
      \<not> string_less (fst a) (fst b) \<and> \<not> string_less (fst b) (fst a) \<longrightarrow> a = b"
  proof (intro ballI impI)
    fix a b
    assume "a \<in> set (sort_members xs)" "b \<in> set (sort_members xs)"
      and "\<not> string_less (fst a) (fst b) \<and> \<not> string_less (fst b) (fst a)"
    then have "a \<in> set xs" "b \<in> set xs" "fst a = fst b" using string_less_total by auto
    then show "a = b" using assms(1) by (metis distinct_map inj_onD)
  qed
qed (use assms in \<open>simp_all add: member_order.inorder_sort_slice\<close>)

definition canon_map :: "anymap \<Rightarrow> anymap" where
  "canon_map m = sort_members (map (\<lambda>(k, v). (k, any_norm v)) m)"

lemma any_norm_VMap: "any_norm (VMap m) = VMap (canon_map m)"
  by (simp add: canon_map_def)

fun keys_distinct :: "json \<Rightarrow> bool" where
  "keys_distinct (JArray vs) = list_all keys_distinct vs"
| "keys_distinct (JObject ms) = (distinct (map fst ms) \<and> list_all (\<lambda>(k, v). keys_distinct v) ms)"
| "keys_distinct _ = True"

lemma keys_comp [simp]: "map (fst \<circ> (\<lambda>(k, v). (k, f v))) ms = map fst ms"
  by (simp add: case_prod_unfold comp_def)

lemma any_json_distinct: "any_ok fmt v \<Longrightarrow> keys_distinct (any_json fmt v)"
proof (induction fmt v rule: any_json.induct)
  case (10 fmt ms)
  then show ?case by (auto simp: sort_members_map distinct_sort_members keys_map list_all_sort_members list_all_iff)
next
  case (11 fmt ms)
  then show ?case by (auto simp: keys_map list_all_iff)
qed (auto simp: list_all_iff split: option.splits)

text \<open>What an object decodes to, entry by entry.\<close>

lemma json_any_entries:
  assumes "distinct (map fst ms)"
  shows "json_any (JObject ms) =
    (VMap (map (\<lambda>(k, v). (k, fst (json_any v))) ms), list_all (\<lambda>(k, v). snd (json_any v)) ms)"
proof -
  let ?rs = "map (\<lambda>(k, v). (k, json_any v)) ms"
  have "foldl (\<lambda>m (k, r). AList.update k (fst r) m) [] ?rs = map (\<lambda>(k, r). (k, fst r)) ?rs"
    using foldl_update_fresh [of ?rs "[]"] assms by (simp add: keys_map)
  moreover have "map (\<lambda>(k, r). (k, fst r)) ?rs = map (\<lambda>(k, v). (k, fst (json_any v))) ms" by auto
  moreover have "list_all (\<lambda>(k, r). snd r) ?rs = list_all (\<lambda>(k, v). snd (json_any v)) ms"
    by (auto simp: list_all_iff)
  ultimately show ?thesis by (simp only: json_any.simps Let_def)
qed

lemma float_of_number_value: "number_value n = number_value m \<Longrightarrow> float_of_number n = float_of_number m"
  by (simp add: float_of_number_def)

definition norm_member :: "string \<times> json \<Rightarrow> string \<times> anyval" where
  "norm_member m = (fst m, any_norm (fst (json_any (snd m))))"

lemma norm_entries:
  assumes "distinct (map fst ms)"
  shows "any_norm (fst (json_any (JObject ms))) = VMap (sort_members (map norm_member ms))"
    and "snd (json_any (JObject ms)) = list_all (\<lambda>m. snd (json_any (snd m))) ms"
proof -
  have "map (\<lambda>(k, v). (k, any_norm v)) (map (\<lambda>(k, v). (k, fst (json_any v))) ms) = map norm_member ms"
    by (simp add: norm_member_def case_prod_beta comp_def)
  then show "any_norm (fst (json_any (JObject ms))) = VMap (sort_members (map norm_member ms))"
    unfolding json_any_entries [OF assms] by (simp only: fst_conv any_norm.simps)
  show "snd (json_any (JObject ms)) = list_all (\<lambda>m. snd (json_any (snd m))) ms"
    unfolding json_any_entries [OF assms] by (auto simp: list_all_iff)
qed

lemma object_same:
  assumes l: "map norm_member ns = map norm_member ms"
      "list_all (\<lambda>m. snd (json_any (snd m))) ns = list_all (\<lambda>m. snd (json_any (snd m))) ms" "map fst ns = map fst ms"
    and p: "mset ns = mset ns'" and d: "distinct (map fst ms)"
  shows "any_norm (fst (json_any (JObject ns'))) = any_norm (fst (json_any (JObject ms)))
    \<and> snd (json_any (JObject ns')) = snd (json_any (JObject ms))"
proof -
  have "image_mset fst (mset ns') = image_mset fst (mset ns)" using p by simp
  then have "mset (map fst ns') = mset (map fst ms)" using l(3) by (metis mset_map)
  then have d': "distinct (map fst ns')" using d mset_eq_imp_distinct_iff by blast
  have "mset (map norm_member ms) = mset (map norm_member ns')" using l(1) p by (metis mset_map)
  moreover have "distinct (map fst (map norm_member ms))" using d by (simp add: norm_member_def comp_def)
  ultimately have "sort_members (map norm_member ms) = sort_members (map norm_member ns')" by (intro sort_members_perm)
  moreover have "set ns' = set ns" using p by (metis set_mset_mset)
  then have "list_all (\<lambda>m. snd (json_any (snd m))) ns' = list_all (\<lambda>m. snd (json_any (snd m))) ns" by (simp only: list_all_iff)
  ultimately show ?thesis using l(2) by (simp only: norm_entries [OF d] norm_entries [OF d'])
qed

lemma json_any_same:
  "json_same v w \<Longrightarrow> keys_distinct v \<Longrightarrow>
     any_norm (fst (json_any w)) = any_norm (fst (json_any v)) \<and> snd (json_any w) = snd (json_any v)"
proof (induction rule: json_same.induct)
  case (same_number n m)
  then show ?case by (simp add: float_of_number_value [of n m])
next
  case (same_array vs ws)
  have "list_all keys_distinct vs \<Longrightarrow>
      map (\<lambda>v. any_norm (fst (json_any v))) ws = map (\<lambda>v. any_norm (fst (json_any v))) vs
      \<and> list_all (\<lambda>v. snd (json_any v)) ws = list_all (\<lambda>v. snd (json_any v)) vs"
    using same_array.IH by (induction rule: list_all2_induct) simp_all
  moreover have "any_norm (fst (json_any (JArray xs))) = VList (map (\<lambda>v. any_norm (fst (json_any v))) xs)"
    "snd (json_any (JArray xs)) = list_all (\<lambda>v. snd (json_any v)) xs" for xs
    by (simp_all add: Let_def list.pred_map comp_def)
  ultimately show ?case using same_array.prems by (simp only: keys_distinct.simps)
next
  case (same_object ms ns ns')
  have "list_all (\<lambda>(k, v). keys_distinct v) ms \<Longrightarrow> map norm_member ns = map norm_member ms
      \<and> list_all (\<lambda>m. snd (json_any (snd m))) ns = list_all (\<lambda>m. snd (json_any (snd m))) ms \<and> map fst ns = map fst ms"
    using same_object.IH by (induction rule: list_all2_induct) (simp_all add: norm_member_def case_prod_beta)
  then show ?case using same_object.prems same_object.hyps by (intro object_same [of ns]) simp_all
qed simp_all

text \<open>Maps in normal form come back up to their order.\<close>

definition map_ok :: "(float64 \<Rightarrow> string) \<Rightarrow> anymap option \<Rightarrow> bool" where
  "map_ok fmt m = (case m of None \<Rightarrow> True
     | Some m \<Rightarrow> any_ok fmt (VMap m) \<and> canon_map m = m \<and> encodable (VMap m) \<and> Suc (json_depth (any_json fmt (VMap m))) \<le> max_depth)"

lemma decode_map:
  assumes "map_ok fmt m" and "json_same (anymap_json fmt m) w"
  shows "\<exists>m'. decode_anymap None w = (m', True) \<and> map_option canon_map m' = m"
proof (cases m)
  case None
  then show ?thesis using assms(2) by (auto simp: anymap_json_def decode_anymap_def)
next
  case (Some x)
  then have s: "json_same (any_json fmt (VMap x)) w" and ok: "any_ok fmt (VMap x)" "canon_map x = x"
    using assms by (simp_all add: anymap_json_def map_ok_def)
  obtain ns where w: "w = JObject ns" using s same_object_shape by (metis any_json.simps(10))
  obtain x' where x': "json_any w = (VMap x', snd (json_any w))" by (simp add: w Let_def)
  have "any_norm (fst (json_any w)) = any_norm (fst (json_any (any_json fmt (VMap x))))" "snd (json_any w)"
    using json_any_same [OF s any_json_distinct [OF ok(1)]] any_roundtrip [OF ok(1)] by simp_all
  then have "canon_map x' = x" "snd (json_any w)"
    using x' any_roundtrip [OF ok(1)] ok(2) by (metis any_norm_VMap anyval.inject(9) fst_conv)+
  moreover have "decode_anymap None w = (Some x', snd (json_any w))" using x' by (simp add: w decode_anymap_def Let_def)
  ultimately show ?thesis using Some by simp
qed


definition weights_ok :: "(float64 \<Rightarrow> string) \<Rightarrow> DecisionWeights option \<Rightarrow> bool" where
  "weights_ok fmt w = (case w of None \<Rightarrow> True
     | Some w \<Rightarrow> w \<noteq> [] \<and> distinct (map fst w) \<and> sort_members w = w
         \<and> list_all (\<lambda>(k, x). valid_utf8 k \<and> float_text fmt x \<and> encodable (VFloat x)) w)"

lemma perm_map: "mset xs = mset ys \<Longrightarrow> mset (map f xs) = mset (map f ys)"
  by simp

lemma perm_all: "mset xs = mset ys \<Longrightarrow> list_all p ys \<Longrightarrow> list_all p xs"
  by (metis list_all_iff mset_eq_setD)

lemma decode_weights_same:
  assumes "weights_ok fmt (Some w)" and "json_same (weights_json fmt w) v"
  shows "\<exists>w'. decode_weights v = (Some w', True) \<and> sort_members w' = w"
proof -
  have ok: "distinct (map fst w)" "sort_members w = w" "\<forall>(k, x) \<in> set w. float_of_number (fmt x) = Some x"
    using assms(1) by (auto simp: weights_ok_def float_text_def list_all_iff)
  have j: "weights_json fmt w = JObject (map (\<lambda>(k, x). (k, JNumber (fmt x))) w)"
    using ok(2) by (simp add: weights_json_def sort_members_map)
  obtain ns ns' where v: "v = JObject ns'" and m: "mset ns = mset ns'"
    and l: "list_all2 (\<lambda>a b. fst a = fst b \<and> json_same (snd a) (snd b)) (map (\<lambda>(k, x). (k, JNumber (fmt x))) w) ns"
    using assms(2) unfolding j by (auto elim: json_same_objectE)
  let ?ws = "map (\<lambda>(k, x). (k, (x, True))) w" and ?rs = "map (\<lambda>(k, v). (k, decode_float v)) ns'"
  have "map (\<lambda>(k, v). (k, decode_float v)) ns = ?ws"
    using l ok(3)
  proof (induction w arbitrary: ns)
    case (Cons kx w)
    obtain k x where kx: "kx = (k, x)" by (cases kx)
    from Cons.prems(1) kx obtain n ns2 where ns: "ns = (k, n) # ns2" "json_same (JNumber (fmt x)) n"
        "list_all2 (\<lambda>a b. fst a = fst b \<and> json_same (snd a) (snd b)) (map (\<lambda>(k, x). (k, JNumber (fmt x))) w) ns2"
      by (auto simp: list_all2_Cons1 intro: same_number)
    have "float_of_number (fmt x) = Some x" using Cons.prems(2) kx by simp
    then have "decode_float n = (x, True)"
      using ns(2) by (auto simp: decode_float_def dest!: float_of_number_value split: option.splits)
    then show ?case using Cons.IH [OF ns(3)] Cons.prems(2) kx ns(1) by simp
  qed simp
  then have ms: "mset ?rs = mset ?ws" using perm_map [OF m, of "\<lambda>(k, v). (k, decode_float v)"] by (simp only:)
  have k: "map fst ?ws = map fst w" "map (\<lambda>(k, r). (k, fst r)) ?ws = w" by (induction w) auto
  have "mset (map fst ?rs) = mset (map fst w)" using perm_map [OF ms, of fst] by (simp only: k)
  then have d: "distinct (map fst ?rs)" using ok(1) mset_eq_imp_distinct_iff by blast
  have f: "foldl (\<lambda>m (k, r). AList.update k (fst r) m) [] ?rs = map (\<lambda>(k, r). (k, fst r)) ?rs"
    using foldl_update_fresh [OF d, of "[]"] by simp
  have "mset w = mset (map (\<lambda>(k, r). (k, fst r)) ?rs)" using perm_map [OF ms, of "\<lambda>(k, r). (k, fst r)"] by (simp only: k)
  from sort_members_perm [OF ok(1) this] have s: "sort_members (map (\<lambda>(k, r). (k, fst r)) ?rs) = w" using ok(2) by simp
  have "list_all (\<lambda>(k, r). snd r) ?ws" by (auto simp: list_all_iff)
  from perm_all [OF ms this] have b: "list_all (\<lambda>(k, r). snd r) ?rs" .
  have "decode_weights v = (Some (map (\<lambda>(k, r). (k, fst r)) ?rs), True)"
    unfolding v decode_weights_def json.case Let_def f using b by (simp only:)
  then show ?thesis using s by blast
qed


section \<open>Action requests\<close>

definition action_ok :: "(uuid \<Rightarrow> string) \<Rightarrow> (float64 \<Rightarrow> string) \<Rightarrow> ActionRequest \<Rightarrow> bool" where
  "action_ok str fmt ar \<longleftrightarrow> valid_utf8 (str (ar_ID ar)) \<and> valid_utf8 (ar_Capability ar) \<and> valid_utf8 (ar_IdempotencyKey ar)
     \<and> map_ok fmt (ar_Payload ar) \<and> list_all constraint_ok (ar_Constraints ar)"

definition canon_action :: "ActionRequest \<Rightarrow> ActionRequest" where
  "canon_action ar = ar\<lparr>ar_Payload := map_option canon_map (ar_Payload ar)\<rparr>"

lemma fields_action:
  fixes a b c e x :: json and cs :: "(string \<times> json) list"
  assumes "cs = [] \<or> cs = [(''constraints'', x)]"
  defines "ms \<equiv> [(''id'', a), (''capability'', b), (''payload'', c)] @ cs @ [(''idempotency_key'', e)]"
  shows "field_values ''id'' ms = [a]" "field_values ''capability'' ms = [b]" "field_values ''payload'' ms = [c]"
    "field_values ''constraints'' ms = map snd cs" "field_values ''idempotency_key'' ms = [e]"
  using assms(1) unfolding ms_def by (auto simp: field_values_def)

lemma decode_action:
  assumes "action_ok str fmt ar" and "parse (str (ar_ID ar)) = Inr (ar_ID ar)" and "json_same (ActionRequest_json str fmt ar) w"
  shows "\<exists>ar'. decode_ActionRequest parse w = (ar', True) \<and> canon_action ar' = ar"
proof -
  let ?cs = "if ar_Constraints ar = [] then [] else [(''constraints'', slice_json ActionConstraint_json (ar_Constraints ar))]"
  let ?ms = "[(''id'', JString (str (ar_ID ar))), (''capability'', JString (ar_Capability ar)),
       (''payload'', anymap_json fmt (ar_Payload ar))] @ ?cs @ [(''idempotency_key'', JString (ar_IdempotencyKey ar))]"
  have cs: "?cs = [] \<or> ?cs = [(''constraints'', slice_json ActionConstraint_json (ar_Constraints ar))]" by simp
  note f = fields_action [OF cs, of "JString (str (ar_ID ar))" "JString (ar_Capability ar)" "anymap_json fmt (ar_Payload ar)"
      "JString (ar_IdempotencyKey ar)"]
  have s: "json_same (JObject ?ms) w" using assms(3) by (simp only: ActionRequest_json_def append.simps)
  then obtain ns where w: "w = JObject ns" using same_object_shape by blast
  note s = s [unfolded w]
  obtain p where p: "field_values ''payload'' ns = [p]" "json_same (anymap_json fmt (ar_Payload ar)) p"
    using same_field(1) [OF s f(3)] by blast
  have "map_ok fmt (ar_Payload ar)" using assms(1) by (simp add: action_ok_def)
  then obtain m where m: "decode_anymap None p = (m, True)" "map_option canon_map m = ar_Payload ar"
    using decode_map p(2) by blast
  have "list_field decode_ActionConstraint ''constraints'' ns = (ar_Constraints ar, True)"
  proof (cases "ar_Constraints ar = []")
    case True
    then have "map snd ?cs = []" by simp
    with f(4) have "field_values ''constraints'' ?ms = []" by (rule trans)
    then show ?thesis using same_field(2) [OF s] True by (simp add: list_field_def)
  next
    case False
    then have "map snd ?cs = [slice_json ActionConstraint_json (ar_Constraints ar)]" by simp
    with f(4) have "field_values ''constraints'' ?ms = [slice_json ActionConstraint_json (ar_Constraints ar)]" by (rule trans)
    from same_field(1) [OF s this] obtain c where c: "field_values ''constraints'' ns = [c]"
        "json_same (slice_json ActionConstraint_json (ar_Constraints ar)) c" by blast
    have "decode_list decode_ActionConstraint c = (ar_Constraints ar, True)"
      by (rule decode_slice [OF c(2)]) (rule decode_constraint)
    then show ?thesis using c(1) by (simp add: list_field_def Let_def)
  qed
  moreover have "anymap_field ''payload'' ns = (m, True)" using p(1) m(1) by (simp add: anymap_field_def)
  ultimately show ?thesis
    using same_uuid_field [where parse = parse, OF s f(1) assms(2)] same_string_field [OF s f(2)] same_string_field [OF s f(5)] m(2)
    by (simp add: w decode_ActionRequest_def canon_action_def)
qed

end
