(* ===== verification/Sqlite_Store.thy ===== *)
theory Sqlite_Store
  imports Sql_Base
begin

text \<open>
  \<^verbatim>\<open>internal/store/sqlite\<close>: the SQLite backend, file by file. Identifiers are texts
  (\<open>str\<close> is \<^verbatim>\<open>uuid.UUID.String\<close>, \<open>parse\<close> is \<^verbatim>\<open>uuid.Parse\<close>), how the driver keeps a JSON text and an instant
  are its types \<open>'j\<close> and \<open>'t\<close>. A repository method is a function of the database.
\<close>

type_synonym ('j, 't) sqlite_db = "(string, 'j, 't) db"
type_synonym ('j, 't) sqlite_driver = "(string, 'j, 't) driver"


section \<open>encoding.go\<close>

text \<open>The argument is what the value marshals to, nothing when it cannot be encoded.\<close>

definition sqlite_encJSON :: "json option \<Rightarrow> error + string" where
  "sqlite_encJSON v = (case v of
       None \<Rightarrow> Inl (ErrWrap ''json marshal'' (ErrPlain ''json: unsupported value''))
     | Some j \<Rightarrow> Inr (json_Marshal j))"

definition sqlite_decJSON :: "(json \<Rightarrow> 'a \<times> bool) \<Rightarrow> 'a \<Rightarrow> string \<Rightarrow> error + 'a" where
  "sqlite_decJSON decode out raw =
     (if raw = [] \<or> raw = ''null'' then Inr out
      else case json_Unmarshal raw of
          None \<Rightarrow> Inl (ErrWrap ''json unmarshal'' (ErrPlain ''invalid character''))
        | Some v \<Rightarrow> (case decode v of (x, True) \<Rightarrow> Inr x
            | (_, False) \<Rightarrow> Inl (ErrWrap ''json unmarshal'' (ErrPlain ''cannot unmarshal''))))"

definition sqlite_nullTime :: "time option \<Rightarrow> time option" where
  "sqlite_nullTime t = (case t of None \<Rightarrow> None | Some t \<Rightarrow> Some (time_UTC t))"

definition sqlite_timePtr :: "time option \<Rightarrow> time option" where
  "sqlite_timePtr n = (case n of None \<Rightarrow> None | Some t \<Rightarrow> Some (time_UTC t))"

definition sqlite_stringPtr :: "string option \<Rightarrow> string option" where
  "sqlite_stringPtr n = (case n of None \<Rightarrow> None | Some v \<Rightarrow> Some v)"

text \<open>\<^verbatim>\<open>if ns.Valid { id, err := uuid.Parse(ns.String) .. }\<close>\<close>

definition get_null_uuid :: "(string \<Rightarrow> error + uuid) \<Rightarrow> string option \<Rightarrow> error + uuid option" where
  "get_null_uuid parse n = (case n of None \<Rightarrow> Inr None | Some s \<Rightarrow> try_bind (parse s) (\<lambda>u. Inr (Some u)))"


section \<open>commitment_repo.go\<close>

definition sqlite_upsertCommitmentSQL ::
  "(string, 'j, 't) commitment_row \<Rightarrow> (string, 'j, 't) commitment_row \<Rightarrow> (string, 'j, 't) commitment_row" where
  "sqlite_upsertCommitmentSQL old excluded = old\<lparr>
     rc_owner_id := rc_owner_id excluded, rc_description := rc_description excluded,
     rc_source_refs := rc_source_refs excluded, rc_entities := rc_entities excluded,
     rc_due_at := rc_due_at excluded, rc_status := rc_status excluded,
     rc_confidence := rc_confidence excluded, rc_risk_score := rc_risk_score excluded,
     rc_last_evaluated_at := rc_last_evaluated_at excluded, rc_updated_at := rc_updated_at excluded\<rparr>"

definition sqlite_commitmentRepo_Save ::
  "(uuid \<Rightarrow> string) \<Rightarrow> ('j, 't) sqlite_driver \<Rightarrow> ('j, 't) sqlite_db \<Rightarrow> Commitment \<Rightarrow> error option \<times> ('j, 't) sqlite_db" where
  "sqlite_commitmentRepo_Save str drv db c =
    (case Commitment_Validate c of Some err \<Rightarrow> (Some err, db) | None \<Rightarrow>
     (case sqlite_encJSON (Some (slice_json SourceRef_json (c_SourceRefs c))) of
        Inl err \<Rightarrow> (Some (ErrWrap ''commitment: encode source_refs'' err), db) | Inr sourceRefs \<Rightarrow>
     (case sqlite_encJSON (Some (slice_json EntityRef_json (c_Entities c))) of
        Inl err \<Rightarrow> (Some (ErrWrap ''commitment: encode entities'' err), db) | Inr entities \<Rightarrow>
     (case exec_upsert drv db
        [ColText (str (c_ID c)), ColText (c_OwnerID c), ColText (c_Description c), ColJson sourceRefs, ColJson entities,
         ColText (c_Status c), ColReal (c_Confidence c), ColReal (c_RiskScore c)] []
        rc_id sqlite_upsertCommitmentSQL
        \<lparr>rc_id = str (c_ID c), rc_owner_id = c_OwnerID c, rc_description = c_Description c,
         rc_source_refs = put_json drv sourceRefs, rc_entities = put_json drv entities,
         rc_due_at = put_null_time drv (sqlite_nullTime (c_DueAt c)), rc_status = c_Status c,
         rc_confidence = c_Confidence c, rc_risk_score = c_RiskScore c,
         rc_last_evaluated_at = put_null_time drv (sqlite_nullTime (c_LastEvaluatedAt c)),
         rc_created_at = put_time drv (time_UTC (c_CreatedAt c)), rc_updated_at = put_time drv (time_UTC (c_UpdatedAt c))\<rparr>
        (db_commitments db) of
        Inl err \<Rightarrow> (Some (ErrWrap ''commitment: save'' err), db)
      | Inr rows \<Rightarrow> (None, db\<lparr>db_commitments := rows\<rparr>)))))"

definition sqlite_scanCommitment ::
  "(string \<Rightarrow> error + uuid) \<Rightarrow> ('j, 't) sqlite_driver \<Rightarrow> (string, 'j, 't) commitment_row \<Rightarrow> error + Commitment" where
  "sqlite_scanCommitment parse drv row =
    try_bind (get_null_time drv (rc_due_at row)) (\<lambda>dueAt.
    try_bind (get_null_time drv (rc_last_evaluated_at row)) (\<lambda>lastEvalAt.
    try_bind (get_time drv (rc_created_at row)) (\<lambda>createdAt.
    try_bind (get_time drv (rc_updated_at row)) (\<lambda>updatedAt.
    try_bind (wrap_err ''commitment: invalid uuid'' (parse (rc_id row))) (\<lambda>k.
    try_bind (wrap_err ''commitment: decode source_refs''
      (sqlite_decJSON (decode_list decode_SourceRef) [] (get_json drv (rc_source_refs row)))) (\<lambda>sourceRefs.
    try_bind (wrap_err ''commitment: decode entities''
      (sqlite_decJSON (decode_list decode_EntityRef) [] (get_json drv (rc_entities row)))) (\<lambda>entities.
    Inr \<lparr>c_ID = k, c_OwnerID = rc_owner_id row, c_Description = rc_description row,
         c_SourceRefs = sourceRefs, c_Entities = entities, c_DueAt = sqlite_timePtr dueAt,
         c_Status = rc_status row, c_Confidence = rc_confidence row, c_RiskScore = rc_risk_score row,
         c_LastEvaluatedAt = sqlite_timePtr lastEvalAt, c_CreatedAt = time_UTC createdAt,
         c_UpdatedAt = time_UTC updatedAt\<rparr>)))))))"

definition sqlite_commitmentRepo_Get ::
  "(uuid \<Rightarrow> string) \<Rightarrow> (string \<Rightarrow> error + uuid) \<Rightarrow> ('j, 't) sqlite_driver \<Rightarrow> ('j, 't) sqlite_db \<Rightarrow> CommitmentID \<Rightarrow> error + Commitment" where
  "sqlite_commitmentRepo_Get str parse drv db k =
    try_bind (query_row drv db rc_id (str k) (db_commitments db)) (\<lambda>row.
      case row of None \<Rightarrow> Inl (ErrCommitmentNotFound k) | Some r \<Rightarrow> sqlite_scanCommitment parse drv r)"

text \<open>The error of the iteration is wrapped here.\<close>

definition sqlite_queryCommitments ::
  "(string \<Rightarrow> error + uuid) \<Rightarrow> ('j, 't) sqlite_driver \<Rightarrow> ('j, 't) sqlite_db \<Rightarrow> error + (string, 'j, 't) commitment_row list \<Rightarrow> error + Commitment list" where
  "sqlite_queryCommitments parse drv db rows =
    try_bind (wrap_err ''commitment: query'' rows) (\<lambda>rows.
    try_bind (try_map (sqlite_scanCommitment parse drv) rows) (\<lambda>out.
    case iter_fault drv db of Some e \<Rightarrow> Inl (ErrWrap ''commitment: iterate'' e) | None \<Rightarrow> Inr out))"

definition sqlite_commitmentRepo_List ::
  "(string \<Rightarrow> error + uuid) \<Rightarrow> ('j, 't) sqlite_driver \<Rightarrow> ('j, 't) sqlite_db \<Rightarrow> CommitmentFilter \<Rightarrow> error + Commitment list" where
  "sqlite_commitmentRepo_List parse drv db f =
    (let clauses = (if cf_OwnerID f \<noteq> [] then [\<lambda>r. rc_owner_id r = cf_OwnerID f] else []) @
           (if 0 < length (cf_Statuses f) then [\<lambda>r. rc_status r \<in> set (cf_Statuses f)] else []) @
           (case cf_DueBy f of None \<Rightarrow> [] | Some due \<Rightarrow>
              [\<lambda>r. case rc_due_at r of None \<Rightarrow> False | Some d \<Rightarrow> \<not> time_before drv (put_time drv (time_UTC due)) d])
     in sqlite_queryCommitments parse drv db
          (query_rows drv db clauses (\<lambda>a b. time_before drv (rc_created_at a) (rc_created_at b)) (cf_Limit f)
             (scan_commitments drv (db_commitments db))))"

text \<open>\<^verbatim>\<open>ORDER BY risk_score DESC, CASE WHEN due_at IS NULL THEN 1 ELSE 0 END, due_at ASC, created_at ASC\<close>\<close>

definition sqlite_active_before ::
  "('j, 't) sqlite_driver \<Rightarrow> (string, 'j, 't) commitment_row \<Rightarrow> (string, 'j, 't) commitment_row \<Rightarrow> bool" where
  "sqlite_active_before drv a b =
    (if real_before drv (rc_risk_score b) (rc_risk_score a) then True
     else if real_before drv (rc_risk_score a) (rc_risk_score b) then False
     else let na = (if rc_due_at a = None then 1 else (0 :: int)); nb = (if rc_due_at b = None then 1 else 0) in
       if na < nb then True else if nb < na then False
       else (case (rc_due_at a, rc_due_at b) of
           (Some x, Some y) \<Rightarrow> if time_before drv x y then True else if time_before drv y x then False
              else time_before drv (rc_created_at a) (rc_created_at b)
         | _ \<Rightarrow> time_before drv (rc_created_at a) (rc_created_at b)))"

definition sqlite_commitmentRepo_FindActive ::
  "(string \<Rightarrow> error + uuid) \<Rightarrow> ('j, 't) sqlite_driver \<Rightarrow> ('j, 't) sqlite_db \<Rightarrow> int \<Rightarrow> error + Commitment list" where
  "sqlite_commitmentRepo_FindActive parse drv db limit =
    sqlite_queryCommitments parse drv db
      (query_rows drv db [\<lambda>r. rc_status r \<in> {''pending'', ''in_progress''}] (sqlite_active_before drv) limit
         (scan_commitments drv (db_commitments db)))"

text \<open>\<^verbatim>\<open>UPDATE .. WHERE id = ?\<close>: no row affected is the not-found error.\<close>

definition sqlite_commitmentRepo_UpdateRisk ::
  "(uuid \<Rightarrow> string) \<Rightarrow> ('j, 't) sqlite_driver \<Rightarrow> ('j, 't) sqlite_db \<Rightarrow> CommitmentID \<Rightarrow> float64 \<Rightarrow> time \<Rightarrow> error option \<times> ('j, 't) sqlite_db" where
  "sqlite_commitmentRepo_UpdateRisk str drv db k score evaluatedAt =
    (case exec_fault drv db of Some e \<Rightarrow> (Some (ErrWrap ''commitment: update risk'' e), db) | None \<Rightarrow>
     let hit = (\<lambda>r. rc_id r = str k); n = length (filter hit (db_commitments db)) in
     if 0 < n \<and> \<not> takes drv (ColReal score)
     then (Some (ErrWrap ''commitment: update risk'' (engine_error drv (RefusedColumn (ColReal score)))), db)
     else let db' = db\<lparr>db_commitments := map (\<lambda>r. if hit r then r\<lparr>rc_risk_score := score,
                rc_last_evaluated_at := Some (put_time drv (time_UTC evaluatedAt)),
                rc_updated_at := put_time drv (time_UTC evaluatedAt)\<rparr> else r) (db_commitments db)\<rparr>
          in case rows_fault drv db of Some e \<Rightarrow> (Some (ErrWrap ''commitment: update risk: rows affected'' e), db') | None \<Rightarrow>
             if n = 0 then (Some (ErrCommitmentNotFound k), db') else (None, db'))"



section \<open>decision_repo.go\<close>

definition sqlite_decisionRepo_Save ::
  "(uuid \<Rightarrow> string) \<Rightarrow> (float64 \<Rightarrow> string) \<Rightarrow> ('j, 't) sqlite_driver \<Rightarrow> ('j, 't) sqlite_db \<Rightarrow> Decision \<Rightarrow> error option \<times> ('j, 't) sqlite_db" where
  "sqlite_decisionRepo_Save str fmt drv db d =
    (case Decision_Validate d of Some err \<Rightarrow> (Some err, db) | None \<Rightarrow>
     (case sqlite_encJSON (Some (slice_json SourceRef_json (d_ContextRefs d))) of
        Inl err \<Rightarrow> (Some (ErrWrap ''decision: encode context_refs'' err), db) | Inr contextRefs \<Rightarrow>
     (case sqlite_encJSON (if encodable_map (d_Inputs d) then Some (anymap_json fmt (d_Inputs d)) else None) of
        Inl err \<Rightarrow> (Some (ErrWrap ''decision: encode inputs'' err), db) | Inr inputs \<Rightarrow>
     (case sqlite_encJSON (if encodable_map (d_Outcome d) then Some (anymap_json fmt (d_Outcome d)) else None) of
        Inl err \<Rightarrow> (Some (ErrWrap ''decision: encode outcome'' err), db) | Inr outcome \<Rightarrow>
     (case (case d_Weights d of None \<Rightarrow> Inr None | Some w \<Rightarrow>
              if 0 < length w
              then try_bind (sqlite_encJSON (if list_all (\<lambda>(k, x). encodable (VFloat x)) w
                     then Some (weights_json fmt w) else None)) (\<lambda>w. Inr (Some w))
              else Inr None) of
        Inl err \<Rightarrow> (Some (ErrWrap ''decision: encode weights'' err), db) | Inr weights \<Rightarrow>
     (case exec_upsert drv db
        ([ColText (str (d_ID d)), ColText (d_Subject d), ColJson contextRefs, ColJson inputs] @
         (case weights of None \<Rightarrow> [] | Some w \<Rightarrow> [ColJson w]) @
         [ColJson outcome, ColText (d_Reason d), ColReal (d_Confidence d)]) []
        rd_id do_nothing
        \<lparr>rd_id = str (d_ID d), rd_subject = d_Subject d, rd_context_refs = put_json drv contextRefs,
         rd_inputs = put_json drv inputs, rd_weights = map_option (put_json drv) weights,
         rd_outcome = put_json drv outcome, rd_reason = d_Reason d, rd_confidence = d_Confidence d,
         rd_created_at = put_time drv (time_UTC (d_CreatedAt d))\<rparr>
        (db_decisions db) of
        Inl err \<Rightarrow> (Some (ErrWrap ''decision: save'' err), db)
      | Inr rows \<Rightarrow> (None, db\<lparr>db_decisions := rows\<rparr>)))))))"

definition sqlite_scanDecision ::
  "(string \<Rightarrow> error + uuid) \<Rightarrow> ('j, 't) sqlite_driver \<Rightarrow> (string, 'j, 't) decision_row \<Rightarrow> error + Decision" where
  "sqlite_scanDecision parse drv row =
    try_bind (get_time drv (rd_created_at row)) (\<lambda>createdAt.
    try_bind (wrap_err ''decision: invalid uuid'' (parse (rd_id row))) (\<lambda>k.
    try_bind (wrap_err ''decision: decode context_refs''
      (sqlite_decJSON (decode_list decode_SourceRef) [] (get_json drv (rd_context_refs row)))) (\<lambda>contextRefs.
    try_bind (wrap_err ''decision: decode inputs'' (sqlite_decJSON (decode_anymap None) None (get_json drv (rd_inputs row)))) (\<lambda>inputs.
    try_bind (case map_option (get_json drv) (rd_weights row) of
        Some w \<Rightarrow> if w \<noteq> [] then wrap_err ''decision: decode weights'' (sqlite_decJSON decode_weights None w) else Inr None
      | None \<Rightarrow> Inr None) (\<lambda>weights.
    try_bind (wrap_err ''decision: decode outcome'' (sqlite_decJSON (decode_anymap None) None (get_json drv (rd_outcome row)))) (\<lambda>outcome.
    Inr \<lparr>d_ID = k, d_Subject = rd_subject row, d_ContextRefs = contextRefs, d_Inputs = inputs, d_Weights = weights,
         d_Outcome = outcome, d_Reason = rd_reason row, d_Confidence = rd_confidence row,
         d_CreatedAt = time_UTC createdAt\<rparr>))))))"

definition sqlite_decisionRepo_Get ::
  "(uuid \<Rightarrow> string) \<Rightarrow> (string \<Rightarrow> error + uuid) \<Rightarrow> ('j, 't) sqlite_driver \<Rightarrow> ('j, 't) sqlite_db \<Rightarrow> DecisionID \<Rightarrow> error + Decision" where
  "sqlite_decisionRepo_Get str parse drv db k =
    try_bind (query_row drv db rd_id (str k) (db_decisions db)) (\<lambda>row.
      case row of None \<Rightarrow> Inl (ErrDecisionNotFound k) | Some r \<Rightarrow> sqlite_scanDecision parse drv r)"

definition sqlite_decisionRepo_ListBySubject ::
  "(string \<Rightarrow> error + uuid) \<Rightarrow> ('j, 't) sqlite_driver \<Rightarrow> ('j, 't) sqlite_db \<Rightarrow> string \<Rightarrow> int \<Rightarrow> error + Decision list" where
  "sqlite_decisionRepo_ListBySubject parse drv db subject limit =
    try_bind (wrap_err ''decision: query''
      (query_rows drv db [\<lambda>r. rd_subject r = subject] (\<lambda>a b. time_before drv (rd_created_at b) (rd_created_at a)) limit
        (scan_decisions drv (db_decisions db))))
      (collect drv db (sqlite_scanDecision parse drv))"


section \<open>goal_repo.go\<close>

definition sqlite_upsertGoalSQL ::
  "(string, 'j, 't) goal_row \<Rightarrow> (string, 'j, 't) goal_row \<Rightarrow> (string, 'j, 't) goal_row" where
  "sqlite_upsertGoalSQL old excluded = old\<lparr>
     rg_title := rg_title excluded, rg_description := rg_description excluded, rg_priority := rg_priority excluded,
     rg_status := rg_status excluded, rg_source_refs := rg_source_refs excluded, rg_updated_at := rg_updated_at excluded\<rparr>"

definition sqlite_goalRepo_Save ::
  "(uuid \<Rightarrow> string) \<Rightarrow> ('j, 't) sqlite_driver \<Rightarrow> ('j, 't) sqlite_db \<Rightarrow> Goal \<Rightarrow> error option \<times> ('j, 't) sqlite_db" where
  "sqlite_goalRepo_Save str drv db g =
    (case Goal_Validate g of Some err \<Rightarrow> (Some err, db) | None \<Rightarrow>
     (case sqlite_encJSON (Some (slice_json SourceRef_json (g_SourceRefs g))) of
        Inl err \<Rightarrow> (Some (ErrWrap ''goal: encode source_refs'' err), db) | Inr sourceRefs \<Rightarrow>
     (case exec_upsert drv db
        [ColText (str (g_ID g)), ColText (g_OwnerID g), ColText (g_Title g), ColText (g_Description g),
         ColInt (g_Priority g), ColText (g_Status g), ColJson sourceRefs] []
        rg_id sqlite_upsertGoalSQL
        \<lparr>rg_id = str (g_ID g), rg_owner_id = g_OwnerID g, rg_title = g_Title g, rg_description = g_Description g,
         rg_priority = g_Priority g, rg_status = g_Status g, rg_source_refs = put_json drv sourceRefs,
         rg_created_at = put_time drv (time_UTC (g_CreatedAt g)), rg_updated_at = put_time drv (time_UTC (g_UpdatedAt g))\<rparr>
        (db_goals db) of
        Inl err \<Rightarrow> (Some (ErrWrap ''goal: save'' err), db)
      | Inr rows \<Rightarrow> (None, db\<lparr>db_goals := rows\<rparr>))))"

definition sqlite_scanGoal ::
  "(string \<Rightarrow> error + uuid) \<Rightarrow> ('j, 't) sqlite_driver \<Rightarrow> (string, 'j, 't) goal_row \<Rightarrow> error + Goal" where
  "sqlite_scanGoal parse drv row =
    try_bind (get_time drv (rg_created_at row)) (\<lambda>createdAt.
    try_bind (get_time drv (rg_updated_at row)) (\<lambda>updatedAt.
    try_bind (wrap_err ''goal: invalid uuid'' (parse (rg_id row))) (\<lambda>k.
    try_bind (wrap_err ''goal: decode source_refs''
      (sqlite_decJSON (decode_list decode_SourceRef) [] (get_json drv (rg_source_refs row)))) (\<lambda>sourceRefs.
    Inr \<lparr>g_ID = k, g_OwnerID = rg_owner_id row, g_Title = rg_title row, g_Description = rg_description row,
         g_Priority = rg_priority row, g_Status = rg_status row, g_SourceRefs = sourceRefs,
         g_CreatedAt = time_UTC createdAt, g_UpdatedAt = time_UTC updatedAt\<rparr>))))"

definition sqlite_goalRepo_Get ::
  "(uuid \<Rightarrow> string) \<Rightarrow> (string \<Rightarrow> error + uuid) \<Rightarrow> ('j, 't) sqlite_driver \<Rightarrow> ('j, 't) sqlite_db \<Rightarrow> GoalID \<Rightarrow> error + Goal" where
  "sqlite_goalRepo_Get str parse drv db k =
    try_bind (query_row drv db rg_id (str k) (db_goals db)) (\<lambda>row.
      case row of None \<Rightarrow> Inl (ErrGoalNotFound k) | Some r \<Rightarrow> sqlite_scanGoal parse drv r)"

definition sqlite_goalRepo_ListByOwner ::
  "(string \<Rightarrow> error + uuid) \<Rightarrow> ('j, 't) sqlite_driver \<Rightarrow> ('j, 't) sqlite_db \<Rightarrow> string \<Rightarrow> int \<Rightarrow> error + Goal list" where
  "sqlite_goalRepo_ListByOwner parse drv db ownerID limit =
    try_bind (wrap_err ''goal: query''
      (query_rows drv db [\<lambda>r. rg_owner_id r = ownerID] (\<lambda>a b. time_before drv (rg_created_at b) (rg_created_at a)) limit
        (scan_goals drv (db_goals db))))
      (collect drv db (sqlite_scanGoal parse drv))"


section \<open>intervention_repo.go\<close>

definition sqlite_upsertInterventionSQL ::
  "(string, 'j, 't) intervention_row \<Rightarrow> (string, 'j, 't) intervention_row \<Rightarrow> (string, 'j, 't) intervention_row" where
  "sqlite_upsertInterventionSQL old excluded = old\<lparr>
     ri_type := ri_type excluded, ri_message := ri_message excluded,
     ri_suggested_action := ri_suggested_action excluded, ri_status := ri_status excluded,
     ri_resolved_at := ri_resolved_at excluded\<rparr>"

definition sqlite_interventionRepo_Save ::
  "(uuid \<Rightarrow> string) \<Rightarrow> (float64 \<Rightarrow> string) \<Rightarrow> ('j, 't) sqlite_driver \<Rightarrow> ('j, 't) sqlite_db \<Rightarrow> Intervention \<Rightarrow> error option \<times> ('j, 't) sqlite_db" where
  "sqlite_interventionRepo_Save str fmt drv db iv =
    (case Intervention_Validate iv of Some err \<Rightarrow> (Some err, db) | None \<Rightarrow>
     (case sqlite_encJSON (case iv_SuggestedAction iv of None \<Rightarrow> Some JNull
          | Some ar \<Rightarrow> if encodable_map (ar_Payload ar) then Some (ActionRequest_json str fmt ar) else None) of
        Inl err \<Rightarrow> (Some (ErrWrap ''intervention: encode suggested_action'' err), db) | Inr suggested \<Rightarrow>
     let suggestedNS = (if iv_SuggestedAction iv \<noteq> None then Some suggested else None);
         commitmentID = (case iv_CommitmentID iv of None \<Rightarrow> None | Some u \<Rightarrow> Some (str u));
         taskID = (case iv_TaskID iv of None \<Rightarrow> None | Some u \<Rightarrow> Some (str u))
     in
     (case exec_upsert drv db
        ([ColText (str (iv_ID iv)), ColText (iv_Type iv), ColText (iv_Message iv)] @
         (case suggestedNS of None \<Rightarrow> [] | Some s \<Rightarrow> [ColJson s]) @ [ColText (iv_Status iv)])
        [(ri_commitment_id, map rc_id (db_commitments db)), (ri_task_id, map rt_id (db_tasks db))]
        ri_id sqlite_upsertInterventionSQL
        \<lparr>ri_id = str (iv_ID iv), ri_commitment_id = commitmentID, ri_task_id = taskID,
         ri_type = iv_Type iv, ri_message = iv_Message iv,
         ri_suggested_action = map_option (put_json drv) suggestedNS, ri_status = iv_Status iv,
         ri_triggered_at = put_time drv (time_UTC (iv_TriggeredAt iv)),
         ri_resolved_at = put_null_time drv (sqlite_nullTime (iv_ResolvedAt iv))\<rparr>
        (db_interventions db) of
        Inl err \<Rightarrow> (Some (ErrWrap ''intervention: save'' err), db)
      | Inr rows \<Rightarrow> (None, db\<lparr>db_interventions := rows\<rparr>))))"

definition sqlite_scanIntervention ::
  "(string \<Rightarrow> error + uuid) \<Rightarrow> ('j, 't) sqlite_driver \<Rightarrow> (string, 'j, 't) intervention_row \<Rightarrow> error + Intervention" where
  "sqlite_scanIntervention parse drv row =
    try_bind (get_time drv (ri_triggered_at row)) (\<lambda>triggeredAt.
    try_bind (get_null_time drv (ri_resolved_at row)) (\<lambda>resolvedAt.
    try_bind (wrap_err ''intervention: invalid uuid'' (parse (ri_id row))) (\<lambda>k.
    try_bind (wrap_err ''intervention: invalid commitment uuid'' (get_null_uuid parse (ri_commitment_id row))) (\<lambda>cid.
    try_bind (wrap_err ''intervention: invalid task uuid'' (get_null_uuid parse (ri_task_id row))) (\<lambda>tid.
    try_bind (case map_option (get_json drv) (ri_suggested_action row) of
        Some s \<Rightarrow> if s \<noteq> [] \<and> s \<noteq> ''null''
          then wrap_err ''intervention: decode suggested_action''
            (try_bind (sqlite_decJSON (decode_ActionRequest parse)
               \<lparr>ar_ID = uuid_Nil, ar_Capability = [], ar_Payload = None, ar_Constraints = [], ar_IdempotencyKey = []\<rparr> s)
               (\<lambda>ar. Inr (Some ar)))
          else Inr None
      | None \<Rightarrow> Inr None) (\<lambda>suggested.
    Inr \<lparr>iv_ID = k, iv_CommitmentID = cid, iv_TaskID = tid, iv_Type = ri_type row, iv_Message = ri_message row,
         iv_SuggestedAction = suggested, iv_Status = ri_status row, iv_TriggeredAt = time_UTC triggeredAt,
         iv_ResolvedAt = sqlite_timePtr resolvedAt\<rparr>))))))"

definition sqlite_interventionRepo_Get ::
  "(uuid \<Rightarrow> string) \<Rightarrow> (string \<Rightarrow> error + uuid) \<Rightarrow> ('j, 't) sqlite_driver \<Rightarrow> ('j, 't) sqlite_db \<Rightarrow> InterventionID \<Rightarrow> error + Intervention" where
  "sqlite_interventionRepo_Get str parse drv db k =
    try_bind (query_row drv db ri_id (str k) (db_interventions db)) (\<lambda>row.
      case row of None \<Rightarrow> Inl (ErrInterventionNotFound k) | Some r \<Rightarrow> sqlite_scanIntervention parse drv r)"

definition sqlite_interventionRepo_List ::
  "(uuid \<Rightarrow> string) \<Rightarrow> (string \<Rightarrow> error + uuid) \<Rightarrow> ('j, 't) sqlite_driver \<Rightarrow> ('j, 't) sqlite_db \<Rightarrow> InterventionFilter \<Rightarrow> error + Intervention list" where
  "sqlite_interventionRepo_List str parse drv db f =
    (let clauses = (case if_CommitmentID f of None \<Rightarrow> [] | Some u \<Rightarrow> [\<lambda>r. ri_commitment_id r = Some (str u)]) @
           (case if_TaskID f of None \<Rightarrow> [] | Some u \<Rightarrow> [\<lambda>r. ri_task_id r = Some (str u)]) @
           (if 0 < length (if_Statuses f) then [\<lambda>r. ri_status r \<in> set (if_Statuses f)] else []) @
           (case if_Since f of None \<Rightarrow> [] | Some since \<Rightarrow>
              [\<lambda>r. \<not> time_before drv (ri_triggered_at r) (put_time drv (time_UTC since))])
     in try_bind (wrap_err ''intervention: query''
          (query_rows drv db clauses (\<lambda>a b. time_before drv (ri_triggered_at b) (ri_triggered_at a)) (if_Limit f)
            (scan_interventions drv (db_interventions db))))
          (collect drv db (sqlite_scanIntervention parse drv)))"


section \<open>task_repo.go\<close>

definition sqlite_upsertTaskSQL ::
  "(string, 'j, 't) task_row \<Rightarrow> (string, 'j, 't) task_row \<Rightarrow> (string, 'j, 't) task_row" where
  "sqlite_upsertTaskSQL old excluded = old\<lparr>
     rt_goal_id := rt_goal_id excluded, rt_plan_id := rt_plan_id excluded, rt_commitment_id := rt_commitment_id excluded,
     rt_title := rt_title excluded, rt_description := rt_description excluded, rt_assigned_to := rt_assigned_to excluded,
     rt_status := rt_status excluded, rt_priority := rt_priority excluded, rt_due_at := rt_due_at excluded,
     rt_updated_at := rt_updated_at excluded\<rparr>"

definition sqlite_taskRepo_Save ::
  "(uuid \<Rightarrow> string) \<Rightarrow> ('j, 't) sqlite_driver \<Rightarrow> ('j, 't) sqlite_db \<Rightarrow> Task \<Rightarrow> error option \<times> ('j, 't) sqlite_db" where
  "sqlite_taskRepo_Save str drv db t =
    (case Task_Validate t of Some err \<Rightarrow> (Some err, db) | None \<Rightarrow>
     let goalID = (case t_GoalID t of None \<Rightarrow> None | Some u \<Rightarrow> Some (str u));
         planID = (case t_PlanID t of None \<Rightarrow> None | Some u \<Rightarrow> Some (str u));
         commitmentID = (case t_CommitmentID t of None \<Rightarrow> None | Some u \<Rightarrow> Some (str u));
         assigned = (case t_AssignedTo t of None \<Rightarrow> None | Some s \<Rightarrow> Some s)
     in
     (case exec_upsert drv db
        ([ColText (str (t_ID t)), ColText (t_Title t), ColText (t_Description t)] @
         (case assigned of None \<Rightarrow> [] | Some s \<Rightarrow> [ColText s]) @ [ColText (t_Status t), ColInt (t_Priority t)])
        [(rt_goal_id, map rg_id (db_goals db)), (rt_commitment_id, map rc_id (db_commitments db))]
        rt_id sqlite_upsertTaskSQL
        \<lparr>rt_id = str (t_ID t), rt_goal_id = goalID, rt_plan_id = planID, rt_commitment_id = commitmentID,
         rt_title = t_Title t, rt_description = t_Description t, rt_assigned_to = assigned,
         rt_status = t_Status t, rt_priority = t_Priority t,
         rt_due_at = put_null_time drv (sqlite_nullTime (t_DueAt t)),
         rt_created_at = put_time drv (time_UTC (t_CreatedAt t)), rt_updated_at = put_time drv (time_UTC (t_UpdatedAt t))\<rparr>
        (db_tasks db) of
        Inl err \<Rightarrow> (Some (ErrWrap ''task: save'' err), db)
      | Inr rows \<Rightarrow> (None, db\<lparr>db_tasks := rows\<rparr>)))"

definition sqlite_scanTask ::
  "(string \<Rightarrow> error + uuid) \<Rightarrow> ('j, 't) sqlite_driver \<Rightarrow> (string, 'j, 't) task_row \<Rightarrow> error + Task" where
  "sqlite_scanTask parse drv row =
    try_bind (get_null_time drv (rt_due_at row)) (\<lambda>dueAt.
    try_bind (get_time drv (rt_created_at row)) (\<lambda>createdAt.
    try_bind (get_time drv (rt_updated_at row)) (\<lambda>updatedAt.
    try_bind (wrap_err ''task: invalid uuid'' (parse (rt_id row))) (\<lambda>k.
    try_bind (wrap_err ''task: invalid goal uuid'' (get_null_uuid parse (rt_goal_id row))) (\<lambda>gid.
    try_bind (wrap_err ''task: invalid plan uuid'' (get_null_uuid parse (rt_plan_id row))) (\<lambda>pid.
    try_bind (wrap_err ''task: invalid commitment uuid'' (get_null_uuid parse (rt_commitment_id row))) (\<lambda>cid.
    Inr \<lparr>t_ID = k, t_GoalID = gid, t_PlanID = pid, t_CommitmentID = cid, t_Title = rt_title row,
         t_Description = rt_description row, t_AssignedTo = sqlite_stringPtr (rt_assigned_to row),
         t_Status = rt_status row, t_Priority = rt_priority row, t_DueAt = sqlite_timePtr dueAt,
         t_CreatedAt = time_UTC createdAt, t_UpdatedAt = time_UTC updatedAt\<rparr>)))))))"

definition sqlite_taskRepo_Get ::
  "(uuid \<Rightarrow> string) \<Rightarrow> (string \<Rightarrow> error + uuid) \<Rightarrow> ('j, 't) sqlite_driver \<Rightarrow> ('j, 't) sqlite_db \<Rightarrow> TaskID \<Rightarrow> error + Task" where
  "sqlite_taskRepo_Get str parse drv db k =
    try_bind (query_row drv db rt_id (str k) (db_tasks db)) (\<lambda>row.
      case row of None \<Rightarrow> Inl (ErrTaskNotFound k) | Some r \<Rightarrow> sqlite_scanTask parse drv r)"

definition sqlite_taskRepo_List ::
  "(uuid \<Rightarrow> string) \<Rightarrow> (string \<Rightarrow> error + uuid) \<Rightarrow> ('j, 't) sqlite_driver \<Rightarrow> ('j, 't) sqlite_db \<Rightarrow> TaskFilter \<Rightarrow> error + Task list" where
  "sqlite_taskRepo_List str parse drv db f =
    (let clauses = (case tf_GoalID f of None \<Rightarrow> [] | Some u \<Rightarrow> [\<lambda>r. rt_goal_id r = Some (str u)]) @
           (case tf_CommitmentID f of None \<Rightarrow> [] | Some u \<Rightarrow> [\<lambda>r. rt_commitment_id r = Some (str u)]) @
           (case tf_AssignedTo f of None \<Rightarrow> [] | Some a \<Rightarrow> [\<lambda>r. rt_assigned_to r = Some a]) @
           (if 0 < length (tf_Statuses f) then [\<lambda>r. rt_status r \<in> set (tf_Statuses f)] else [])
     in try_bind (wrap_err ''task: query''
          (query_rows drv db clauses (\<lambda>a b. time_before drv (rt_created_at a) (rt_created_at b)) (tf_Limit f)
            (scan_tasks drv (db_tasks db))))
          (collect drv db (sqlite_scanTask parse drv)))"

end
