(* ===== verification/Sql_Schema.thy ===== *)
theory Sql_Schema
  imports Sqlite_Store
begin

text \<open>
  The embedded migrations and the functions that run them when a database is opened:
  \<^verbatim>\<open>internal/store/sqlite/db.go\<close> and \<^verbatim>\<open>internal/store/postgres/db.go\<close>. A schema is the list of tables with their
  columns, the indexes, and the rows of the bookkeeping table. Column types and defaults are left out.
  What can go wrong outside the statements themselves (locks, transactions, the disk) is the record
  \<open>migration_env\<close>.
\<close>

section \<open>Schemas and statements\<close>

record schema =
  sc_tables :: "(string \<times> string list) list"
  sc_indexes :: "string list"
  sc_applied :: "string list"

definition empty_schema :: schema where
  "empty_schema = \<lparr>sc_tables = [], sc_indexes = [], sc_applied = []\<rparr>"

text \<open>
  \<^verbatim>\<open>CREATE TABLE IF NOT EXISTS\<close>, \<^verbatim>\<open>CREATE INDEX IF NOT EXISTS\<close>, and \<^verbatim>\<open>ALTER TABLE .. ADD COLUMN\<close> with
  or without \<^verbatim>\<open>IF NOT EXISTS\<close>.
\<close>

datatype ddl =
    CreateTable string "string list"
  | CreateIndex string string
  | AddColumn bool string string

fun exec_ddl :: "schema \<Rightarrow> ddl \<Rightarrow> error + schema" where
  "exec_ddl s (CreateTable t cols) =
     (if map_of (sc_tables s) t \<noteq> None then Inr s else Inr (s\<lparr>sc_tables := sc_tables s @ [(t, cols)]\<rparr>))"
| "exec_ddl s (CreateIndex i t) =
     (if i \<in> set (sc_indexes s) then Inr s
      else if map_of (sc_tables s) t = None then Inl (ErrPlain (''no such table: '' @ t))
      else Inr (s\<lparr>sc_indexes := sc_indexes s @ [i]\<rparr>))"
| "exec_ddl s (AddColumn ifNotExists t c) =
     (case map_of (sc_tables s) t of None \<Rightarrow> Inl (ErrPlain (''no such table: '' @ t))
      | Some cols \<Rightarrow>
          if c \<in> set cols then (if ifNotExists then Inr s else Inl (ErrPlain (''duplicate column name: '' @ c)))
          else Inr (s\<lparr>sc_tables := AList.update t (cols @ [c]) (sc_tables s)\<rparr>))"

fun exec_script :: "schema \<Rightarrow> ddl list \<Rightarrow> error + schema" where
  "exec_script s [] = Inr s"
| "exec_script s (d # ds) = try_bind (exec_ddl s d) (\<lambda>s. exec_script s ds)"

record migration_file =
  mf_Name :: string
  mf_IsDir :: bool
  mf_Body :: "ddl list"

definition initial_tables :: "ddl list" where
  "initial_tables =
    [CreateTable ''goals'' [''id'', ''owner_id'', ''title'', ''description'', ''priority'', ''status'', ''source_refs'',
       ''created_at'', ''updated_at''],
     CreateIndex ''idx_goals_owner_status'' ''goals'',
     CreateTable ''commitments'' [''id'', ''owner_id'', ''description'', ''source_refs'', ''entities'', ''due_at'', ''status'',
       ''confidence'', ''risk_score'', ''last_evaluated_at'', ''created_at'', ''updated_at''],
     CreateIndex ''idx_commitments_status'' ''commitments'',
     CreateIndex ''idx_commitments_owner'' ''commitments'',
     CreateIndex ''idx_commitments_active_scan'' ''commitments'',
     CreateTable ''tasks'' [''id'', ''goal_id'', ''plan_id'', ''commitment_id'', ''title'', ''description'', ''assigned_to'',
       ''status'', ''priority'', ''due_at'', ''created_at'', ''updated_at''],
     CreateIndex ''idx_tasks_goal'' ''tasks'',
     CreateIndex ''idx_tasks_assigned'' ''tasks'',
     CreateIndex ''idx_tasks_status'' ''tasks'',
     CreateTable ''decisions'' [''id'', ''subject'', ''context_refs'', ''inputs'', ''outcome'', ''reason'', ''confidence'',
       ''created_at''],
     CreateIndex ''idx_decisions_subject_created'' ''decisions'',
     CreateTable ''interventions'' [''id'', ''commitment_id'', ''task_id'', ''type'', ''message'', ''suggested_action'',
       ''status'', ''triggered_at'', ''resolved_at''],
     CreateIndex ''idx_interventions_commitment'' ''interventions'',
     CreateIndex ''idx_interventions_task'' ''interventions'',
     CreateIndex ''idx_interventions_status_triggered'' ''interventions'',
     CreateTable ''assignments'' [''id'', ''task_id'', ''agent_id'', ''status'', ''assigned_at'', ''completed_at''],
     CreateIndex ''idx_assignments_task'' ''assignments'']"

definition sqlite_002_decision_weights :: "ddl list" where
  "sqlite_002_decision_weights = [AddColumn False ''decisions'' ''weights'']"

definition postgres_002_decision_weights :: "ddl list" where
  "postgres_002_decision_weights = [AddColumn True ''decisions'' ''weights'']"

definition sqlite_migrationsFS :: "migration_file list" where
  "sqlite_migrationsFS =
    [\<lparr>mf_Name = ''001_initial.sql'', mf_IsDir = False, mf_Body = initial_tables\<rparr>,
     \<lparr>mf_Name = ''002_decision_weights.sql'', mf_IsDir = False, mf_Body = sqlite_002_decision_weights\<rparr>]"

definition postgres_migrationsFS :: "migration_file list" where
  "postgres_migrationsFS =
    [\<lparr>mf_Name = ''001_initial.sql'', mf_IsDir = False, mf_Body = initial_tables\<rparr>,
     \<lparr>mf_Name = ''002_decision_weights.sql'', mf_IsDir = False, mf_Body = postgres_002_decision_weights\<rparr>]"

definition ends_with :: "string \<Rightarrow> string \<Rightarrow> bool" where
  "ends_with suffix s \<longleftrightarrow> starts_with (rev suffix) (rev s)"


section \<open>sqlite/db.go\<close>

fun strings_Contains :: "string \<Rightarrow> string \<Rightarrow> bool" where
  "strings_Contains [] sub = (sub = [])"
| "strings_Contains (c # s) sub = (starts_with sub (c # s) \<or> strings_Contains s sub)"

definition dsnPRAGMAs :: string where
  "dsnPRAGMAs = ''_pragma=foreign_keys(1)&_pragma=journal_mode(wal)&_pragma=busy_timeout(5000)''"

definition withPRAGMAs :: "string \<Rightarrow> string" where
  "withPRAGMAs dsn =
     (if strings_Contains dsn ''_pragma='' then dsn
      else let separator = ''?''; separator = (if strings_Contains dsn ''?'' then ''&'' else separator)
           in dsn @ separator @ dsnPRAGMAs)"

record migration_env =
  mg_conn :: "error option"
  mg_lock :: "error option"
  mg_bookkeeping :: "error option"
  mg_check :: "string \<Rightarrow> error option"
  mg_begin :: "error option"
  mg_exec :: "string \<Rightarrow> error option"
  mg_record :: "string \<Rightarrow> error option"
  mg_commit :: "string \<Rightarrow> error option"

fun sqlite_run_entries :: "migration_env \<Rightarrow> schema \<Rightarrow> migration_file list \<Rightarrow> error + schema" where
  "sqlite_run_entries env s [] = Inr s"
| "sqlite_run_entries env s (e # es) =
    (if mf_IsDir e then sqlite_run_entries env s es
     else if \<not> ends_with ''.sql'' (mf_Name e) then sqlite_run_entries env s es
     else case (case mg_exec env (mf_Name e) of Some err \<Rightarrow> Inl err | None \<Rightarrow> exec_script s (mf_Body e)) of
         Inl err \<Rightarrow> Inl (ErrWrap (''exec '' @ mf_Name e) err)
       | Inr s \<Rightarrow> sqlite_run_entries env s es)"

text \<open>One transaction around all files: any error rolls it back.\<close>

definition sqlite_runMigrations :: "migration_env \<Rightarrow> schema \<Rightarrow> error option \<times> schema" where
  "sqlite_runMigrations env s =
    (case mg_begin env of Some err \<Rightarrow> (Some (ErrWrap ''begin'' err), s) | None \<Rightarrow>
     (case sqlite_run_entries env s sqlite_migrationsFS of
        Inl err \<Rightarrow> (Some err, s)
      | Inr s' \<Rightarrow> (case mg_commit env [] of Some err \<Rightarrow> (Some (ErrWrap ''commit'' err), s) | None \<Rightarrow> (None, s'))))"

definition sqlite_newConn ::
  "(uuid \<Rightarrow> string) \<Rightarrow> (string \<Rightarrow> error + uuid) \<Rightarrow> (float64 \<Rightarrow> string) \<Rightarrow> ('j, 't) sqlite_driver \<Rightarrow> ('j, 't) sqlite_db Conn" where
  "sqlite_newConn str parse fmt drv = \<lparr>
     conn_Commitments = \<lparr>CSave = sqlite_commitmentRepo_Save str drv, CGet = sqlite_commitmentRepo_Get str parse drv,
       CList = sqlite_commitmentRepo_List parse drv, CFindActive = sqlite_commitmentRepo_FindActive parse drv,
       CUpdateRisk = sqlite_commitmentRepo_UpdateRisk str drv\<rparr>,
     conn_Decisions = \<lparr>DSave = sqlite_decisionRepo_Save str fmt drv, DGet = sqlite_decisionRepo_Get str parse drv,
       DListBySubject = sqlite_decisionRepo_ListBySubject parse drv\<rparr>,
     conn_Interventions = \<lparr>ISave = sqlite_interventionRepo_Save str fmt drv, IGet = sqlite_interventionRepo_Get str parse drv,
       IList = sqlite_interventionRepo_List str parse drv\<rparr>,
     conn_Goals = \<lparr>GSave = sqlite_goalRepo_Save str drv, GGet = sqlite_goalRepo_Get str parse drv,
       GListByOwner = sqlite_goalRepo_ListByOwner parse drv\<rparr>,
     conn_Tasks = \<lparr>TSave = sqlite_taskRepo_Save str drv, TGet = sqlite_taskRepo_Get str parse drv,
       TList = sqlite_taskRepo_List str parse drv\<rparr>\<rparr>"

text \<open>\<open>dial\<close> is \<^verbatim>\<open>sql.Open\<close> with the registered driver, \<open>ping\<close> the answer of \<^verbatim>\<open>db.Ping\<close>.\<close>

definition sqlite_Open ::
  "(uuid \<Rightarrow> string) \<Rightarrow> (string \<Rightarrow> error + uuid) \<Rightarrow> (float64 \<Rightarrow> string) \<Rightarrow> (string \<Rightarrow> error + ('j, 't) sqlite_driver) \<Rightarrow>
   error option \<Rightarrow> migration_env \<Rightarrow> schema \<Rightarrow> string \<Rightarrow> (error + ('j, 't) sqlite_db Conn) \<times> schema" where
  "sqlite_Open str parse fmt dial ping env s dsn =
    (case dial (withPRAGMAs dsn) of Inl err \<Rightarrow> (Inl (ErrWrap ''sqlite: open'' err), s) | Inr drv \<Rightarrow>
     (case ping of Some err \<Rightarrow> (Inl (ErrWrap ''sqlite: ping'' err), s) | None \<Rightarrow>
      (case sqlite_runMigrations env s of
         (Some err, s) \<Rightarrow> (Inl (ErrWrap ''sqlite: migrate'' err), s)
       | (None, s) \<Rightarrow> (Inr (sqlite_newConn str parse fmt drv), s))))"


section \<open>postgres/db.go\<close>

text \<open>
  The advisory lock is taken for the whole run, so the loop is one sequence of steps; each file has a
  transaction of its own that also records its name.
\<close>

definition migrationLockKey :: int where
  "migrationLockKey = 0x6e6f75736d696772"

fun postgres_run_entries :: "migration_env \<Rightarrow> schema \<Rightarrow> migration_file list \<Rightarrow> error option \<times> schema" where
  "postgres_run_entries env s [] = (None, s)"
| "postgres_run_entries env s (e # es) =
    (if mf_IsDir e \<or> \<not> ends_with ''.sql'' (mf_Name e) then postgres_run_entries env s es
     else case mg_check env (mf_Name e) of Some err \<Rightarrow> (Some (ErrWrap (''check migration '' @ mf_Name e) err), s) | None \<Rightarrow>
       (if mf_Name e \<in> set (sc_applied s) then postgres_run_entries env s es
        else case mg_begin env of Some err \<Rightarrow> (Some (ErrWrap ''begin'' err), s) | None \<Rightarrow>
          (case (case mg_exec env (mf_Name e) of Some err \<Rightarrow> Inl err | None \<Rightarrow> exec_script s (mf_Body e)) of
             Inl err \<Rightarrow> (Some (ErrWrap (''exec '' @ mf_Name e) err), s)
           | Inr s1 \<Rightarrow>
              (case mg_record env (mf_Name e) of Some err \<Rightarrow> (Some (ErrWrap (''record '' @ mf_Name e) err), s) | None \<Rightarrow>
               (case mg_commit env (mf_Name e) of Some err \<Rightarrow> (Some (ErrWrap (''commit '' @ mf_Name e) err), s) | None \<Rightarrow>
                  postgres_run_entries env (s1\<lparr>sc_applied := sc_applied s1 @ [mf_Name e]\<rparr>) es)))))"

definition postgres_runMigrations :: "migration_env \<Rightarrow> schema \<Rightarrow> error option \<times> schema" where
  "postgres_runMigrations env s =
    (case mg_conn env of Some err \<Rightarrow> (Some (ErrWrap ''acquire conn'' err), s) | None \<Rightarrow>
     (case mg_lock env of Some err \<Rightarrow> (Some (ErrWrap ''acquire migration lock'' err), s) | None \<Rightarrow>
      (case (case mg_bookkeeping env of Some err \<Rightarrow> Inl err
             | None \<Rightarrow> exec_ddl s (CreateTable ''nous_schema_migrations'' [''name'', ''applied_at''])) of
         Inl err \<Rightarrow> (Some (ErrWrap ''create migrations bookkeeping'' err), s)
       | Inr s \<Rightarrow> postgres_run_entries env s postgres_migrationsFS)))"

end
