(* ===== verification/Sql_Agree.thy ===== *)
theory Sql_Agree
  imports Postgres_Store
begin

text \<open>
  The two SQL backends are the same store: for every driver their writes have the same effect and the
  same error, and their reads return the same values; they differ in how some errors are wrapped.
\<close>

section \<open>Encoding\<close>

lemma encJSON_agree: "postgres_encJSON = sqlite_encJSON"
  by (simp add: fun_eq_iff postgres_encJSON_def sqlite_encJSON_def)

lemma decJSON_agree: "postgres_decJSON = sqlite_decJSON"
  by (simp add: fun_eq_iff postgres_decJSON_def sqlite_decJSON_def)

lemma null_agree: "postgres_nullTime = sqlite_nullTime" "postgres_timePtr = sqlite_timePtr" "postgres_stringPtr = sqlite_stringPtr"
  by (simp_all add: fun_eq_iff postgres_nullTime_def sqlite_nullTime_def postgres_timePtr_def sqlite_timePtr_def
      postgres_stringPtr_def sqlite_stringPtr_def)

lemmas code_agree = encJSON_agree decJSON_agree null_agree

section \<open>Writes\<close>

lemma commitment_save_agree: "postgres_commitmentRepo_Save = sqlite_commitmentRepo_Save"
  unfolding fun_eq_iff postgres_commitmentRepo_Save_def sqlite_commitmentRepo_Save_def code_agree
    postgres_upsertCommitmentSQL_def sqlite_upsertCommitmentSQL_def by blast

lemma update_risk_agree: "postgres_commitmentRepo_UpdateRisk = sqlite_commitmentRepo_UpdateRisk"
  unfolding fun_eq_iff postgres_commitmentRepo_UpdateRisk_def sqlite_commitmentRepo_UpdateRisk_def by blast

lemma decision_save_agree: "postgres_decisionRepo_Save = sqlite_decisionRepo_Save"
  unfolding fun_eq_iff postgres_decisionRepo_Save_def sqlite_decisionRepo_Save_def code_agree by blast


lemma goal_save_agree: "postgres_goalRepo_Save = sqlite_goalRepo_Save"
  unfolding fun_eq_iff postgres_goalRepo_Save_def sqlite_goalRepo_Save_def code_agree
    postgres_upsertGoalSQL_def sqlite_upsertGoalSQL_def by blast

lemma upsert_intervention_agree: "postgres_upsertInterventionSQL = sqlite_upsertInterventionSQL"
  by (simp add: fun_eq_iff postgres_upsertInterventionSQL_def sqlite_upsertInterventionSQL_def)

lemma intervention_save_agree: "postgres_interventionRepo_Save = sqlite_interventionRepo_Save"
proof (intro ext)
  fix str fmt and drv :: "('j, 't) postgres_driver" and db iv
  show "postgres_interventionRepo_Save str fmt drv db iv = sqlite_interventionRepo_Save str fmt drv db iv"
    unfolding postgres_interventionRepo_Save_def sqlite_interventionRepo_Save_def code_agree upsert_intervention_agree
      postgres_nullUUID_def
    by (cases "iv_SuggestedAction iv"; cases "Intervention_Validate iv") (simp_all add: sqlite_encJSON_def Let_def)
qed

lemma task_save_agree: "postgres_taskRepo_Save = sqlite_taskRepo_Save"
  unfolding fun_eq_iff postgres_taskRepo_Save_def sqlite_taskRepo_Save_def code_agree Let_def
    postgres_upsertTaskSQL_def sqlite_upsertTaskSQL_def postgres_nullUUID_def postgres_nullString_def by blast

section \<open>Reads\<close>

text \<open>The same value or both an error.\<close>

definition agree :: "error + 'a \<Rightarrow> error + 'a \<Rightarrow> bool" where
  "agree r r' \<longleftrightarrow> (\<forall>x. r = Inr x \<longleftrightarrow> r' = Inr x)"

lemma agree_refl [simp]: "agree r r"
  by (simp add: agree_def)

lemma agree_bind: "agree r r' \<Longrightarrow> (\<And>x. agree (f x) (f' x)) \<Longrightarrow> agree (try_bind r f) (try_bind r' f')"
  by (auto simp: agree_def try_bind_Inr)

lemma agree_wrap: "agree r r' \<Longrightarrow> agree (wrap_err m r) (wrap_err m' r')"
  by (simp add: agree_def)

lemma agree_map: "(\<And>x. agree (f x) (g x)) \<Longrightarrow> agree (try_map f xs) (try_map g xs)"
  by (induction xs) (simp_all add: agree_bind)

lemma agree_collect: "(\<And>x. agree (f x) (g x)) \<Longrightarrow> agree (collect drv db f rows) (collect drv db g rows)"
  unfolding collect_def by (intro agree_bind agree_map agree_refl)

lemma agree_uuid: "agree (postgres_uuidPtr parse n) (get_null_uuid parse n)"
  by (cases n) (auto simp: agree_def postgres_uuidPtr_def get_null_uuid_def try_bind_Inr)

lemma agree_uuid_iff: "postgres_uuidPtr parse n = Inr x \<longleftrightarrow> get_null_uuid parse n = Inr x"
  using agree_uuid [of parse n] by (simp add: agree_def)

lemma scan_commitment_agree: "agree (postgres_scanCommitment parse drv row) (sqlite_scanCommitment parse drv row)"
  unfolding agree_def postgres_scanCommitment_def sqlite_scanCommitment_def code_agree try_bind_Inr wrap_err_Inr by blast

lemma scan_decision_agree: "agree (postgres_scanDecision parse drv row) (sqlite_scanDecision parse drv row)"
  unfolding agree_def postgres_scanDecision_def sqlite_scanDecision_def code_agree try_bind_Inr wrap_err_Inr by blast

lemma scan_goal_agree: "agree (postgres_scanGoal parse drv row) (sqlite_scanGoal parse drv row)"
  unfolding agree_def postgres_scanGoal_def sqlite_scanGoal_def code_agree try_bind_Inr wrap_err_Inr by blast

lemma scan_intervention_agree: "agree (postgres_scanIntervention parse drv row) (sqlite_scanIntervention parse drv row)"
  unfolding agree_def postgres_scanIntervention_def sqlite_scanIntervention_def code_agree try_bind_Inr wrap_err_Inr
    agree_uuid_iff by blast

lemma scan_task_agree: "agree (postgres_scanTask parse drv row) (sqlite_scanTask parse drv row)"
  unfolding agree_def postgres_scanTask_def sqlite_scanTask_def code_agree try_bind_Inr wrap_err_Inr agree_uuid_iff by blast

lemma active_order_agree: "postgres_active_before drv = sqlite_active_before drv"
  by (intro ext) (auto simp: postgres_active_before_def sqlite_active_before_def Let_def split: option.splits)

lemma query_commitments_agree: "agree (postgres_queryCommitments parse drv db rows) (sqlite_queryCommitments parse drv db rows)"
  unfolding postgres_queryCommitments_def sqlite_queryCommitments_def collect_def
  by (intro agree_bind agree_map scan_commitment_agree agree_refl) (auto simp: agree_def split: option.splits)

lemma get_agree:
  "agree (postgres_commitmentRepo_Get str parse drv db k) (sqlite_commitmentRepo_Get str parse drv db k)"
  "agree (postgres_decisionRepo_Get str parse drv db k) (sqlite_decisionRepo_Get str parse drv db k)"
  "agree (postgres_interventionRepo_Get str parse drv db k) (sqlite_interventionRepo_Get str parse drv db k)"
  "agree (postgres_goalRepo_Get str parse drv db k) (sqlite_goalRepo_Get str parse drv db k)"
  "agree (postgres_taskRepo_Get str parse drv db k) (sqlite_taskRepo_Get str parse drv db k)"
  unfolding postgres_commitmentRepo_Get_def sqlite_commitmentRepo_Get_def postgres_decisionRepo_Get_def
    sqlite_decisionRepo_Get_def postgres_interventionRepo_Get_def sqlite_interventionRepo_Get_def
    postgres_goalRepo_Get_def sqlite_goalRepo_Get_def postgres_taskRepo_Get_def sqlite_taskRepo_Get_def
  by (intro agree_bind agree_refl;
      simp add: scan_commitment_agree scan_decision_agree scan_intervention_agree scan_goal_agree scan_task_agree
        split: option.split)+

lemma list_agree:
  "agree (postgres_commitmentRepo_List parse drv db cf) (sqlite_commitmentRepo_List parse drv db cf)"
  "agree (postgres_commitmentRepo_FindActive parse drv db n) (sqlite_commitmentRepo_FindActive parse drv db n)"
  "agree (postgres_decisionRepo_ListBySubject parse drv db subject n) (sqlite_decisionRepo_ListBySubject parse drv db subject n)"
  "agree (postgres_interventionRepo_List str parse drv db f) (sqlite_interventionRepo_List str parse drv db f)"
  "agree (postgres_goalRepo_ListByOwner parse drv db owner n) (sqlite_goalRepo_ListByOwner parse drv db owner n)"
  "agree (postgres_taskRepo_List str parse drv db tf) (sqlite_taskRepo_List str parse drv db tf)"
  unfolding postgres_commitmentRepo_List_def sqlite_commitmentRepo_List_def postgres_commitmentRepo_FindActive_def
    sqlite_commitmentRepo_FindActive_def postgres_decisionRepo_ListBySubject_def sqlite_decisionRepo_ListBySubject_def
    postgres_interventionRepo_List_def sqlite_interventionRepo_List_def postgres_goalRepo_ListByOwner_def
    sqlite_goalRepo_ListByOwner_def postgres_taskRepo_List_def sqlite_taskRepo_List_def Let_def active_order_agree
  by (intro query_commitments_agree agree_bind agree_collect agree_refl scan_decision_agree scan_intervention_agree
      scan_goal_agree scan_task_agree)+


section \<open>Properties\<close>

text \<open>
  PostgreSQL and SQLite are interchangeable behind the repositories: over the same driver every write
  of the one is the write of the other, with the same error and the same rows, and every read returns the
  same value or fails in both.
\<close>

lemma sql_backends_agree:
  "postgres_commitmentRepo_Save str drv db c = sqlite_commitmentRepo_Save str drv db c
   \<and> postgres_commitmentRepo_UpdateRisk str drv db k score ts = sqlite_commitmentRepo_UpdateRisk str drv db k score ts
   \<and> postgres_decisionRepo_Save str fmt drv db d = sqlite_decisionRepo_Save str fmt drv db d
   \<and> postgres_interventionRepo_Save str fmt drv db iv = sqlite_interventionRepo_Save str fmt drv db iv
   \<and> postgres_goalRepo_Save str drv db g = sqlite_goalRepo_Save str drv db g
   \<and> postgres_taskRepo_Save str drv db t = sqlite_taskRepo_Save str drv db t
   \<and> agree (postgres_commitmentRepo_Get str parse drv db k) (sqlite_commitmentRepo_Get str parse drv db k)
   \<and> agree (postgres_decisionRepo_Get str parse drv db k) (sqlite_decisionRepo_Get str parse drv db k)
   \<and> agree (postgres_interventionRepo_Get str parse drv db k) (sqlite_interventionRepo_Get str parse drv db k)
   \<and> agree (postgres_goalRepo_Get str parse drv db k) (sqlite_goalRepo_Get str parse drv db k)
   \<and> agree (postgres_taskRepo_Get str parse drv db k) (sqlite_taskRepo_Get str parse drv db k)
   \<and> agree (postgres_commitmentRepo_List parse drv db cf) (sqlite_commitmentRepo_List parse drv db cf)
   \<and> agree (postgres_commitmentRepo_FindActive parse drv db n) (sqlite_commitmentRepo_FindActive parse drv db n)
   \<and> agree (postgres_decisionRepo_ListBySubject parse drv db subject n) (sqlite_decisionRepo_ListBySubject parse drv db subject n)
   \<and> agree (postgres_interventionRepo_List str parse drv db f) (sqlite_interventionRepo_List str parse drv db f)
   \<and> agree (postgres_goalRepo_ListByOwner parse drv db owner n) (sqlite_goalRepo_ListByOwner parse drv db owner n)
   \<and> agree (postgres_taskRepo_List str parse drv db tf) (sqlite_taskRepo_List str parse drv db tf)"
  by (simp add: commitment_save_agree update_risk_agree decision_save_agree intervention_save_agree goal_save_agree
      task_save_agree get_agree list_agree)

end
