(* ===== verification/Sql_Open_Laws.thy ===== *)
theory Sql_Open_Laws
  imports Postgres_Store
begin

text \<open>
  Opening a database: the PostgreSQL migrations can be interrupted anywhere and resumed, the SQLite ones
  run once only. The query string of the SQLite pragmas is added at most once.
\<close>

section \<open>Scripts\<close>

definition quiet :: "migration_env \<Rightarrow> bool" where
  "quiet env \<longleftrightarrow> mg_conn env = None \<and> mg_lock env = None \<and> mg_bookkeeping env = None \<and> mg_begin env = None
     \<and> (\<forall>n. mg_check env n = None \<and> mg_exec env n = None \<and> mg_record env n = None \<and> mg_commit env n = None)"

lemma exec_ddl_applied: "exec_ddl s d = Inr s' \<Longrightarrow> sc_applied s' = sc_applied s"
  by (cases d) (auto split: if_splits option.splits)

lemma exec_script_applied: "exec_script s ds = Inr s' \<Longrightarrow> sc_applied s' = sc_applied s"
  by (induction ds arbitrary: s) (auto simp: try_bind_Inr dest: exec_ddl_applied)

lemma exec_ddl_tables: "exec_ddl s d = Inr s' \<Longrightarrow> map_of (sc_tables s) t \<noteq> None \<Longrightarrow> map_of (sc_tables s') t \<noteq> None"
  by (cases d) (auto simp: map_add_def split: if_splits option.splits)

lemma exec_script_tables: "exec_script s ds = Inr s' \<Longrightarrow> map_of (sc_tables s) t \<noteq> None \<Longrightarrow> map_of (sc_tables s') t \<noteq> None"
  by (induction ds arbitrary: s) (auto simp: try_bind_Inr dest: exec_ddl_tables)


section \<open>PostgreSQL\<close>

text \<open>The names recorded and the tables created stay, whatever happens later.\<close>

lemma run_entries_grows:
  "set (sc_applied s) \<subseteq> set (sc_applied (snd (postgres_run_entries env s es)))
   \<and> (map_of (sc_tables s) t \<noteq> None \<longrightarrow> map_of (sc_tables (snd (postgres_run_entries env s es))) t \<noteq> None)"
proof (induction env s es rule: postgres_run_entries.induct)
  case (2 env s e es)
  show ?case
  proof (cases "exec_script s (mf_Body e)")
    case (Inl err)
    then show ?thesis using 2 by (auto split: option.splits)
  next
    case (Inr s1)
    have "sc_applied s1 = sc_applied s" "map_of (sc_tables s) t \<noteq> None \<Longrightarrow> map_of (sc_tables s1) t \<noteq> None"
      using exec_script_applied [OF Inr] exec_script_tables [OF Inr] by blast+
    then show ?thesis using 2 Inr by (auto split: option.splits sum.splits)
  qed
qed simp

text \<open>A run that stopped anywhere is completed by a later one without faults.\<close>

lemma run_entries_resume:
  assumes "quiet q"
  shows "postgres_run_entries q (snd (postgres_run_entries env s es)) es = postgres_run_entries q s es"
proof (induction es arbitrary: s)
  case (Cons e es)
  have q: "mg_check q n = None" "mg_begin q = None" "mg_exec q n = None" "mg_record q n = None" "mg_commit q n = None" for n
    using assms by (simp_all add: quiet_def)
  have skip: "postgres_run_entries q (snd (postgres_run_entries env s2 es)) (e # es) = postgres_run_entries q s2 es"
    if "mf_Name e \<in> set (sc_applied s2)" for s2
    using that run_entries_grows [of s2 env es undefined] Cons.IH [of s2] q by auto
  show ?case
  proof (cases "mf_IsDir e \<or> \<not> ends_with ''.sql'' (mf_Name e)")
    case True
    then show ?thesis using Cons.IH by simp
  next
    case False
    show ?thesis
    proof (cases "mf_Name e \<in> set (sc_applied s)")
      case True
      then show ?thesis using False skip [OF True] q by (auto split: option.splits)
    next
      case new: False
      show ?thesis
      proof (cases "exec_script s (mf_Body e)")
        case (Inl err)
        then show ?thesis using False new q by (auto split: option.splits)
      next
        case (Inr s1)
        let ?s2 = "s1\<lparr>sc_applied := sc_applied s1 @ [mf_Name e]\<rparr>"
        have "postgres_run_entries q s (e # es) = postgres_run_entries q ?s2 es" using False new Inr q by simp
        moreover have "snd (postgres_run_entries env s (e # es)) = s \<or>
            snd (postgres_run_entries env s (e # es)) = snd (postgres_run_entries env ?s2 es)"
          using False new Inr by (auto split: option.splits)
        ultimately show ?thesis using skip [of ?s2] by (auto simp del: postgres_run_entries.simps)
      qed
    qed
  qed
qed simp

lemma create_table: "\<exists>s1. exec_ddl s (CreateTable t cols) = Inr s1 \<and> map_of (sc_tables s1) t \<noteq> None"
  by (auto simp: map_add_def split: option.splits)

lemma migrations_resume:
  assumes "quiet q"
  shows "postgres_runMigrations q (snd (postgres_runMigrations env s)) = postgres_runMigrations q s"
proof -
  let ?book = "CreateTable ''nous_schema_migrations'' [''name'', ''applied_at'']"
  obtain s1 where s1: "exec_ddl s ?book = Inr s1" and t1: "map_of (sc_tables s1) ''nous_schema_migrations'' \<noteq> None"
    using create_table [of s "''nous_schema_migrations''" "[''name'', ''applied_at'']"] by blast
  have q: "mg_conn q = None" "mg_lock q = None" "mg_bookkeeping q = None" using assms by (simp_all add: quiet_def)
  have "snd (postgres_runMigrations env s) = s
      \<or> snd (postgres_runMigrations env s) = snd (postgres_run_entries env s1 postgres_migrationsFS)"
    unfolding postgres_runMigrations_def s1 by (simp split: option.split)
  then consider "snd (postgres_runMigrations env s) = s"
    | "snd (postgres_runMigrations env s) = snd (postgres_run_entries env s1 postgres_migrationsFS)" by blast
  then show ?thesis
  proof cases
    case 2
    let ?s2 = "snd (postgres_run_entries env s1 postgres_migrationsFS)"
    have "map_of (sc_tables ?s2) ''nous_schema_migrations'' \<noteq> None" using run_entries_grows t1 by blast
    then have "exec_ddl ?s2 ?book = Inr ?s2" by simp
    then show ?thesis unfolding 2 using s1 q run_entries_resume [OF assms, of env s1 postgres_migrationsFS]
      by (simp add: postgres_runMigrations_def del: exec_ddl.simps)
  qed simp
qed


section \<open>SQLite\<close>

lemma duplicate_column:
  "map_of (sc_tables s) t = Some cols \<Longrightarrow> c \<in> set cols \<Longrightarrow>
     exec_script s [AddColumn False t c] = Inl (ErrPlain (''duplicate column name: '' @ c))"
  by simp

text \<open>Statements other than \<^verbatim>\<open>ADD COLUMN\<close> keep the columns of the tables there are.\<close>

fun creates :: "ddl \<Rightarrow> bool" where
  "creates (AddColumn _ _ _) = False"
| "creates _ = True"

lemma creates_columns:
  "creates d \<Longrightarrow> exec_ddl s d = Inr s' \<Longrightarrow> map_of (sc_tables s) t = Some cols \<Longrightarrow> map_of (sc_tables s') t = Some cols"
  by (cases d) (auto simp: map_add_def split: if_splits option.splits)

lemma script_columns:
  "list_all creates ds \<Longrightarrow> exec_script s ds = Inr s' \<Longrightarrow> map_of (sc_tables s) t = Some cols \<Longrightarrow>
     map_of (sc_tables s') t = Some cols"
  by (induction ds arbitrary: s) (auto simp: try_bind_Inr dest: creates_columns)

text \<open>Creating tables and indexes cannot fail when every index is on a table created before it.\<close>

fun indexes_ok :: "string list \<Rightarrow> ddl list \<Rightarrow> bool" where
  "indexes_ok ts [] = True"
| "indexes_ok ts (CreateTable t _ # ds) = indexes_ok (t # ts) ds"
| "indexes_ok ts (CreateIndex _ t # ds) = (t \<in> set ts \<and> indexes_ok ts ds)"
| "indexes_ok ts (AddColumn _ _ _ # ds) = False"

lemma script_runs:
  "indexes_ok ts ds \<Longrightarrow> \<forall>t \<in> set ts. map_of (sc_tables s) t \<noteq> None \<Longrightarrow> \<exists>s'. exec_script s ds = Inr s'"
proof (induction ts ds arbitrary: s rule: indexes_ok.induct)
  case (2 ts t cols ds)
  obtain s1 where s1: "exec_ddl s (CreateTable t cols) = Inr s1" "map_of (sc_tables s1) t \<noteq> None"
    using create_table by blast
  have "\<forall>u \<in> set (t # ts). map_of (sc_tables s1) u \<noteq> None" using 2 s1 exec_ddl_tables [OF s1(1)] by auto
  then show ?case using "2.IH" [of s1] 2 s1 by (simp del: exec_ddl.simps)
next
  case (3 ts i t ds)
  then have "\<exists>s1. exec_ddl s (CreateIndex i t) = Inr s1 \<and> sc_tables s1 = sc_tables s" by auto
  then obtain s1 where s1: "exec_ddl s (CreateIndex i t) = Inr s1" "sc_tables s1 = sc_tables s" by blast
  then show ?case using "3.IH" [of s1] 3 by (simp del: exec_ddl.simps)
qed simp_all

lemma initial_indexes: "indexes_ok [] initial_tables"
  by (simp add: initial_tables_def)

lemma initial_creates: "list_all creates initial_tables"
  by (simp add: initial_tables_def)

lemma initial_runs: "\<exists>s'. exec_script s initial_tables = Inr s'"
  by (rule script_runs [OF initial_indexes]) simp

lemma exec_script_append: "exec_script s (ds @ es) = try_bind (exec_script s ds) (\<lambda>s. exec_script s es)"
  by (induction ds arbitrary: s) (simp_all add: try_bind_def split: sum.splits)

lemma script_creates_table:
  assumes "exec_script s ds = Inr s'" and "CreateTable t cols \<in> set ds"
  shows "map_of (sc_tables s') t \<noteq> None"
proof -
  obtain as bs where ds: "ds = as @ CreateTable t cols # bs" using assms(2) by (meson split_list)
  then obtain s1 where "exec_script s as = Inr s1" "exec_script s1 (CreateTable t cols # bs) = Inr s'"
    using assms(1) by (auto simp: exec_script_append try_bind_Inr simp del: exec_script.simps exec_ddl.simps)
  moreover obtain s2 where "exec_ddl s1 (CreateTable t cols) = Inr s2" "map_of (sc_tables s2) t \<noteq> None"
    using create_table by blast
  ultimately show ?thesis using exec_script_tables by (auto simp del: exec_ddl.simps)
qed

lemma initial_decisions: "exec_script s initial_tables = Inr s' \<Longrightarrow> map_of (sc_tables s') ''decisions'' \<noteq> None"
  by (erule script_creates_table [where cols = "[''id'', ''subject'', ''context_refs'', ''inputs'', ''outcome'', ''reason'', ''confidence'', ''created_at'']"])
    (simp add: initial_tables_def)

definition has_weights :: "schema \<Rightarrow> bool" where
  "has_weights s \<longleftrightarrow> (case map_of (sc_tables s) ''decisions'' of None \<Rightarrow> False | Some cols \<Rightarrow> ''weights'' \<in> set cols)"

lemma ends_with_sql: "ends_with ''.sql'' ''001_initial.sql''" "ends_with ''.sql'' ''002_decision_weights.sql''"
  by (simp_all add: ends_with_def starts_with_def)

lemma sqlite_entries:
  assumes "quiet env"
  shows "sqlite_run_entries env s sqlite_migrationsFS =
    (case exec_script s initial_tables of Inl e \<Rightarrow> Inl (ErrWrap ''exec 001_initial.sql'' e)
     | Inr s1 \<Rightarrow> (case exec_script s1 sqlite_002_decision_weights of
         Inl e \<Rightarrow> Inl (ErrWrap ''exec 002_decision_weights.sql'' e) | Inr s2 \<Rightarrow> Inr s2))"
  using assms by (simp add: sqlite_migrationsFS_def ends_with_sql quiet_def split: sum.splits)

lemma sqlite_rerun:
  assumes "quiet env" and "has_weights s"
  shows "sqlite_runMigrations env s =
    (Some (ErrWrap ''exec 002_decision_weights.sql'' (ErrPlain ''duplicate column name: weights'')), s)"
proof -
  obtain s1 where s1: "exec_script s initial_tables = Inr s1" using initial_runs by blast
  obtain cols where "map_of (sc_tables s) ''decisions'' = Some cols" "''weights'' \<in> set cols"
    using assms(2) by (auto simp: has_weights_def split: option.splits)
  then have "exec_script s1 sqlite_002_decision_weights = Inl (ErrPlain ''duplicate column name: weights'')"
    using script_columns [OF initial_creates s1] by (simp add: sqlite_002_decision_weights_def)
  then show ?thesis using assms(1) sqlite_entries [OF assms(1), of s] s1 by (simp add: sqlite_runMigrations_def quiet_def)
qed

lemma initial_schema:
  "map_option (\<lambda>s. (map_of (sc_tables s) ''decisions'', sc_applied s))
     (case exec_script empty_schema initial_tables of Inl _ \<Rightarrow> None | Inr s \<Rightarrow> Some s) =
   Some (Some [''id'', ''subject'', ''context_refs'', ''inputs'', ''outcome'', ''reason'', ''confidence'', ''created_at''], [])"
  unfolding empty_schema_def initial_tables_def by code_simp

lemma sqlite_first_run:
  assumes "quiet env"
  shows "\<exists>s'. sqlite_runMigrations env empty_schema = (None, s') \<and> has_weights s'"
proof -
  obtain s1 where s1: "exec_script empty_schema initial_tables = Inr s1" using initial_runs by blast
  then have c: "map_of (sc_tables s1) ''decisions'' =
      Some [''id'', ''subject'', ''context_refs'', ''inputs'', ''outcome'', ''reason'', ''confidence'', ''created_at'']"
    using initial_schema by simp
  let ?s2 = "s1\<lparr>sc_tables := AList.update ''decisions''
      [''id'', ''subject'', ''context_refs'', ''inputs'', ''outcome'', ''reason'', ''confidence'', ''created_at'', ''weights''] (sc_tables s1)\<rparr>"
  have "exec_script s1 sqlite_002_decision_weights = Inr ?s2" using c by (simp add: sqlite_002_decision_weights_def)
  then have "sqlite_runMigrations env empty_schema = (None, ?s2)"
    using assms sqlite_entries [OF assms, of empty_schema] s1 by (simp add: sqlite_runMigrations_def quiet_def)
  moreover have "has_weights ?s2" by (simp add: has_weights_def)
  ultimately show ?thesis by blast
qed

text \<open>Appending the pragmas once is enough.\<close>

lemma Contains_append: "strings_Contains t sub \<Longrightarrow> strings_Contains (s @ t) sub"
  by (induction s) simp_all

lemma pragmas_contained: "strings_Contains (c # dsnPRAGMAs) ''_pragma=''"
  by (simp add: dsnPRAGMAs_def starts_with_def)

lemma withPRAGMAs_contains: "strings_Contains (withPRAGMAs dsn) ''_pragma=''"
  using Contains_append [OF pragmas_contained, of dsn] by (auto simp: withPRAGMAs_def Let_def)

lemma withPRAGMAs_idem: "withPRAGMAs (withPRAGMAs dsn) = withPRAGMAs dsn"
  using withPRAGMAs_contains [of dsn] by (subst withPRAGMAs_def) simp


section \<open>Properties\<close>

text \<open>
  (C13) The SQLite migrations are not idempotent. A first \<^verbatim>\<open>Open\<close> of an empty database succeeds; every later
  \<^verbatim>\<open>Open\<close> of the database it left fails in \<^verbatim>\<open>002_decision_weights.sql\<close> with a duplicate column and leaves
  the schema as it was: a file-backed SQLite store cannot be opened twice.
\<close>

theorem sqlite_second_open_fails:
  assumes "quiet env" and "quiet env'" and "dial (withPRAGMAs dsn) = Inr drv"
  shows "\<exists>conn s. sqlite_Open str parse fmt dial None env empty_schema dsn = (Inr conn, s)
    \<and> sqlite_Open str parse fmt dial None env' s dsn =
        (Inl (ErrWrap ''sqlite: migrate'' (ErrWrap ''exec 002_decision_weights.sql''
           (ErrPlain ''duplicate column name: weights''))), s)"
proof -
  obtain s where "sqlite_runMigrations env empty_schema = (None, s)" "has_weights s"
    using sqlite_first_run [OF assms(1)] by blast
  then show ?thesis using sqlite_rerun [OF assms(2)] assms(3) by (simp add: sqlite_Open_def)
qed

definition quiet_env :: migration_env where
  "quiet_env = \<lparr>mg_conn = None, mg_lock = None, mg_bookkeeping = None, mg_check = (\<lambda>_. None), mg_begin = None,
     mg_exec = (\<lambda>_. None), mg_record = (\<lambda>_. None), mg_commit = (\<lambda>_. None)\<rparr>"

lemma quiet_quiet_env: "quiet quiet_env"
  by (simp add: quiet_def quiet_env_def)

text \<open>A driver that keeps instants and texts as they are.\<close>

definition plain_driver :: "(string, string, time) driver" where
  "plain_driver = \<lparr>put_time = (\<lambda>t. t), get_time = Inr, time_before = (<), put_json = (\<lambda>s. s), get_json = (\<lambda>s. s),
     takes = (\<lambda>c. c \<noteq> ColReal NaN), real_before = (<), foreign_keys = True,
     engine_error = (\<lambda>r. ErrPlain ''constraint failed''), exec_fault = (\<lambda>_. None), rows_fault = (\<lambda>_. None),
     query_fault = (\<lambda>_. None), iter_fault = (\<lambda>_. None), scan_goals = (\<lambda>rs. rs), scan_commitments = (\<lambda>rs. rs),
     scan_tasks = (\<lambda>rs. rs), scan_decisions = (\<lambda>rs. rs), scan_interventions = (\<lambda>rs. rs)\<rparr>"

theorem sqlite_second_open_fails_witness:
  "\<exists>conn s. sqlite_Open canonical_text (\<lambda>_. Inr 0) (\<lambda>_. ''0'') (\<lambda>_. Inr plain_driver) None quiet_env empty_schema ''nous.db'' = (Inr conn, s)
    \<and> sqlite_Open canonical_text (\<lambda>_. Inr 0) (\<lambda>_. ''0'') (\<lambda>_. Inr plain_driver) None quiet_env s ''nous.db'' =
        (Inl (ErrWrap ''sqlite: migrate'' (ErrWrap ''exec 002_decision_weights.sql''
           (ErrPlain ''duplicate column name: weights''))), s)"
  by (rule sqlite_second_open_fails [OF quiet_quiet_env quiet_quiet_env refl])

text \<open>
  (C29) The PostgreSQL migrations can be interrupted and resumed: whatever faults a first run met (the
  connection, the lock, the bookkeeping, a check, a transaction), a later run without faults ends with the
  same answer and the same schema as if the first had never been, and it succeeds on a new database.
\<close>

theorem postgres_migrations_resume:
  assumes "quiet q"
  shows "postgres_runMigrations q (snd (postgres_runMigrations env s)) = postgres_runMigrations q s
    \<and> fst (postgres_runMigrations q empty_schema) = None"
proof -
  have "fst (postgres_runMigrations q empty_schema) = None"
    using assms unfolding quiet_def postgres_runMigrations_def postgres_migrationsFS_def initial_tables_def postgres_002_decision_weights_def empty_schema_def by (simp add: ends_with_sql)
  then show ?thesis using migrations_resume [OF assms] by blast
qed

text \<open>A run that loses the connection at the second commit, then a run without faults.\<close>

theorem postgres_migrations_resume_witness:
  "postgres_runMigrations quiet_env (snd (postgres_runMigrations (quiet_env\<lparr>mg_commit := (\<lambda>n. if n = ''002_decision_weights.sql''
      then Some (ErrPlain ''conn closed'') else None)\<rparr>) empty_schema)) = postgres_runMigrations quiet_env empty_schema
    \<and> fst (postgres_runMigrations quiet_env empty_schema) = None"
  by (rule postgres_migrations_resume [OF quiet_quiet_env])

end
