(* ===== verification/Sql_Refine.thy ===== *)
theory Sql_Refine
  imports Sql_Table Sql_Json_Laws Sql_Agree Sql_Open_Laws
begin

text \<open>
  The SQL store as five finite maps. The locale \<open>sql_driver\<close> states what the repositories rely on of an
  engine, its driver and the package \<^verbatim>\<open>uuid\<close>; under it each table keeps the contract \<open>sql_table\<close>, so a
  sequence of writes has the effect of \<open>sql_spec_op\<close> on the maps. The specification differs from that of
  the memory store in what an upsert keeps of the old row and in the foreign keys.
\<close>

section \<open>Rows of values\<close>

definition commitment_row_of :: "(uuid \<Rightarrow> string) \<Rightarrow> (string, 'j, 't) driver \<Rightarrow> Commitment \<Rightarrow> (string, 'j, 't) commitment_row" where
  "commitment_row_of str drv c = \<lparr>rc_id = str (c_ID c), rc_owner_id = c_OwnerID c, rc_description = c_Description c,
     rc_source_refs = put_json drv (json_Marshal (slice_json SourceRef_json (c_SourceRefs c))),
     rc_entities = put_json drv (json_Marshal (slice_json EntityRef_json (c_Entities c))),
     rc_due_at = put_null_time drv (c_DueAt c), rc_status = c_Status c,
     rc_confidence = c_Confidence c, rc_risk_score = c_RiskScore c,
     rc_last_evaluated_at = put_null_time drv (c_LastEvaluatedAt c),
     rc_created_at = put_time drv (c_CreatedAt c), rc_updated_at = put_time drv (c_UpdatedAt c)\<rparr>"

definition goal_row_of :: "(uuid \<Rightarrow> string) \<Rightarrow> (string, 'j, 't) driver \<Rightarrow> Goal \<Rightarrow> (string, 'j, 't) goal_row" where
  "goal_row_of str drv g = \<lparr>rg_id = str (g_ID g), rg_owner_id = g_OwnerID g, rg_title = g_Title g, rg_description = g_Description g,
     rg_priority = g_Priority g, rg_status = g_Status g,
     rg_source_refs = put_json drv (json_Marshal (slice_json SourceRef_json (g_SourceRefs g))),
     rg_created_at = put_time drv (g_CreatedAt g), rg_updated_at = put_time drv (g_UpdatedAt g)\<rparr>"

definition task_row_of :: "(uuid \<Rightarrow> string) \<Rightarrow> (string, 'j, 't) driver \<Rightarrow> Task \<Rightarrow> (string, 'j, 't) task_row" where
  "task_row_of str drv t = \<lparr>rt_id = str (t_ID t), rt_goal_id = map_option str (t_GoalID t), rt_plan_id = map_option str (t_PlanID t),
     rt_commitment_id = map_option str (t_CommitmentID t), rt_title = t_Title t, rt_description = t_Description t,
     rt_assigned_to = t_AssignedTo t, rt_status = t_Status t, rt_priority = t_Priority t,
     rt_due_at = put_null_time drv (t_DueAt t), rt_created_at = put_time drv (t_CreatedAt t),
     rt_updated_at = put_time drv (t_UpdatedAt t)\<rparr>"

definition decision_row_of ::
  "(uuid \<Rightarrow> string) \<Rightarrow> (float64 \<Rightarrow> string) \<Rightarrow> (string, 'j, 't) driver \<Rightarrow> Decision \<Rightarrow> (string, 'j, 't) decision_row" where
  "decision_row_of str fmt drv d = \<lparr>rd_id = str (d_ID d), rd_subject = d_Subject d,
     rd_context_refs = put_json drv (json_Marshal (slice_json SourceRef_json (d_ContextRefs d))),
     rd_inputs = put_json drv (json_Marshal (anymap_json fmt (d_Inputs d))),
     rd_weights = map_option (\<lambda>w. put_json drv (json_Marshal (weights_json fmt w))) (d_Weights d),
     rd_outcome = put_json drv (json_Marshal (anymap_json fmt (d_Outcome d))),
     rd_reason = d_Reason d, rd_confidence = d_Confidence d, rd_created_at = put_time drv (d_CreatedAt d)\<rparr>"

definition intervention_row_of ::
  "(uuid \<Rightarrow> string) \<Rightarrow> (float64 \<Rightarrow> string) \<Rightarrow> (string, 'j, 't) driver \<Rightarrow> Intervention \<Rightarrow> (string, 'j, 't) intervention_row" where
  "intervention_row_of str fmt drv iv = \<lparr>ri_id = str (iv_ID iv), ri_commitment_id = map_option str (iv_CommitmentID iv),
     ri_task_id = map_option str (iv_TaskID iv), ri_type = iv_Type iv, ri_message = iv_Message iv,
     ri_suggested_action = map_option (\<lambda>ar. put_json drv (json_Marshal (ActionRequest_json str fmt ar))) (iv_SuggestedAction iv),
     ri_status = iv_Status iv, ri_triggered_at = put_time drv (iv_TriggeredAt iv),
     ri_resolved_at = put_null_time drv (iv_ResolvedAt iv)\<rparr>"

text \<open>What an upsert keeps of the value that is there.\<close>

definition keep_commitment :: "Commitment \<Rightarrow> Commitment \<Rightarrow> Commitment" where
  "keep_commitment v w = w\<lparr>c_ID := c_ID v, c_CreatedAt := c_CreatedAt v\<rparr>"

definition keep_goal :: "Goal \<Rightarrow> Goal \<Rightarrow> Goal" where
  "keep_goal v w = w\<lparr>g_ID := g_ID v, g_OwnerID := g_OwnerID v, g_CreatedAt := g_CreatedAt v\<rparr>"

definition keep_task :: "Task \<Rightarrow> Task \<Rightarrow> Task" where
  "keep_task v w = w\<lparr>t_ID := t_ID v, t_CreatedAt := t_CreatedAt v\<rparr>"

definition keep_intervention :: "Intervention \<Rightarrow> Intervention \<Rightarrow> Intervention" where
  "keep_intervention v w = w\<lparr>iv_ID := iv_ID v, iv_CommitmentID := iv_CommitmentID v, iv_TaskID := iv_TaskID v,
     iv_TriggeredAt := iv_TriggeredAt v\<rparr>"

text \<open>The columns each statement binds.\<close>

definition commitment_cols :: "(uuid \<Rightarrow> string) \<Rightarrow> Commitment \<Rightarrow> column list" where
  "commitment_cols str c = [ColText (str (c_ID c)), ColText (c_OwnerID c), ColText (c_Description c),
     ColJson (json_Marshal (slice_json SourceRef_json (c_SourceRefs c))),
     ColJson (json_Marshal (slice_json EntityRef_json (c_Entities c))),
     ColText (c_Status c), ColReal (c_Confidence c), ColReal (c_RiskScore c)]"

definition goal_cols :: "(uuid \<Rightarrow> string) \<Rightarrow> Goal \<Rightarrow> column list" where
  "goal_cols str g = [ColText (str (g_ID g)), ColText (g_OwnerID g), ColText (g_Title g), ColText (g_Description g),
     ColInt (g_Priority g), ColText (g_Status g), ColJson (json_Marshal (slice_json SourceRef_json (g_SourceRefs g)))]"

definition task_cols :: "(uuid \<Rightarrow> string) \<Rightarrow> Task \<Rightarrow> column list" where
  "task_cols str t = [ColText (str (t_ID t)), ColText (t_Title t), ColText (t_Description t)] @
     (case t_AssignedTo t of None \<Rightarrow> [] | Some s \<Rightarrow> [ColText s]) @ [ColText (t_Status t), ColInt (t_Priority t)]"

definition decision_cols :: "(uuid \<Rightarrow> string) \<Rightarrow> (float64 \<Rightarrow> string) \<Rightarrow> Decision \<Rightarrow> column list" where
  "decision_cols str fmt d = [ColText (str (d_ID d)), ColText (d_Subject d),
     ColJson (json_Marshal (slice_json SourceRef_json (d_ContextRefs d))), ColJson (json_Marshal (anymap_json fmt (d_Inputs d)))] @
     (case d_Weights d of None \<Rightarrow> [] | Some w \<Rightarrow> [ColJson (json_Marshal (weights_json fmt w))]) @
     [ColJson (json_Marshal (anymap_json fmt (d_Outcome d))), ColText (d_Reason d), ColReal (d_Confidence d)]"

definition intervention_cols :: "(uuid \<Rightarrow> string) \<Rightarrow> (float64 \<Rightarrow> string) \<Rightarrow> Intervention \<Rightarrow> column list" where
  "intervention_cols str fmt iv = [ColText (str (iv_ID iv)), ColText (iv_Type iv), ColText (iv_Message iv)] @
     (case iv_SuggestedAction iv of None \<Rightarrow> [] | Some ar \<Rightarrow> [ColJson (json_Marshal (ActionRequest_json str fmt ar))]) @
     [ColText (iv_Status iv)]"

text \<open>
  Values a database keeps: their texts are UTF-8, their instants survive the column (\<open>exact\<close>), their maps are
  in the form JSON gives them, and the engine accepts their columns.
\<close>

definition portable_commitment :: "(uuid \<Rightarrow> string) \<Rightarrow> ('i, 'j, 't) driver \<Rightarrow> (time \<Rightarrow> bool) \<Rightarrow> Commitment \<Rightarrow> bool" where
  "portable_commitment str drv exact c \<longleftrightarrow> list_all ref_ok (c_SourceRefs c) \<and> list_all entity_ok (c_Entities c)
     \<and> pred_option exact (c_DueAt c) \<and> pred_option exact (c_LastEvaluatedAt c) \<and> exact (c_CreatedAt c) \<and> exact (c_UpdatedAt c)
     \<and> list_all (takes drv) (commitment_cols str c)"

definition portable_goal :: "(uuid \<Rightarrow> string) \<Rightarrow> ('i, 'j, 't) driver \<Rightarrow> (time \<Rightarrow> bool) \<Rightarrow> Goal \<Rightarrow> bool" where
  "portable_goal str drv exact g \<longleftrightarrow> list_all ref_ok (g_SourceRefs g) \<and> exact (g_CreatedAt g) \<and> exact (g_UpdatedAt g)
     \<and> list_all (takes drv) (goal_cols str g)"

definition portable_task :: "(uuid \<Rightarrow> string) \<Rightarrow> ('i, 'j, 't) driver \<Rightarrow> (time \<Rightarrow> bool) \<Rightarrow> Task \<Rightarrow> bool" where
  "portable_task str drv exact t \<longleftrightarrow> pred_option exact (t_DueAt t) \<and> exact (t_CreatedAt t) \<and> exact (t_UpdatedAt t)
     \<and> list_all (takes drv) (task_cols str t)"

definition portable_decision ::
  "(uuid \<Rightarrow> string) \<Rightarrow> (float64 \<Rightarrow> string) \<Rightarrow> ('i, 'j, 't) driver \<Rightarrow> (time \<Rightarrow> bool) \<Rightarrow> Decision \<Rightarrow> bool" where
  "portable_decision str fmt drv exact d \<longleftrightarrow> list_all ref_ok (d_ContextRefs d) \<and> map_ok fmt (d_Inputs d) \<and> map_ok fmt (d_Outcome d)
     \<and> weights_ok fmt (d_Weights d) \<and> exact (d_CreatedAt d) \<and> list_all (takes drv) (decision_cols str fmt d)"

definition portable_intervention ::
  "(uuid \<Rightarrow> string) \<Rightarrow> (float64 \<Rightarrow> string) \<Rightarrow> ('i, 'j, 't) driver \<Rightarrow> (time \<Rightarrow> bool) \<Rightarrow> Intervention \<Rightarrow> bool" where
  "portable_intervention str fmt drv exact iv \<longleftrightarrow> pred_option (action_ok str fmt) (iv_SuggestedAction iv)
     \<and> exact (iv_TriggeredAt iv) \<and> pred_option exact (iv_ResolvedAt iv) \<and> list_all (takes drv) (intervention_cols str fmt iv)"

text \<open>Values read back, with the entries of their maps in one order.\<close>

definition canon_decision :: "Decision \<Rightarrow> Decision" where
  "canon_decision d = d\<lparr>d_Inputs := map_option canon_map (d_Inputs d), d_Weights := map_option sort_members (d_Weights d),
     d_Outcome := map_option canon_map (d_Outcome d)\<rparr>"

definition canon_intervention :: "Intervention \<Rightarrow> Intervention" where
  "canon_intervention iv = iv\<lparr>iv_SuggestedAction := map_option canon_action (iv_SuggestedAction iv)\<rparr>"

definition canon :: "('a \<Rightarrow> 'a) \<Rightarrow> error + 'a \<Rightarrow> error + 'a" where
  "canon f r = try_bind r (\<lambda>x. Inr (f x))"


section \<open>JSON documents of the columns\<close>

lemma refs_doc: "json_ok (slice_json SourceRef_json rs)" "json_depth (slice_json SourceRef_json rs) \<le> 2"
  "list_all ref_ok rs \<Longrightarrow> sane (slice_json SourceRef_json rs) = slice_json SourceRef_json rs"
proof -
  have d: "elems_depth (map SourceRef_json xs) \<le> 1" for xs by (induction xs) (simp_all add: SourceRef_json_def)
  show "json_ok (slice_json SourceRef_json rs)" by (auto simp: slice_json_def elems_ok_all list_all_iff SourceRef_json_def)
  show "json_depth (slice_json SourceRef_json rs) \<le> 2" using d [of rs] by (simp add: slice_json_def)
  show "list_all ref_ok rs \<Longrightarrow> sane (slice_json SourceRef_json rs) = slice_json SourceRef_json rs"
    by (simp add: slice_json_def sane_elems_map list_all_iff sane_ref)
qed

lemma entities_doc: "json_ok (slice_json EntityRef_json es)" "json_depth (slice_json EntityRef_json es) \<le> 2"
  "list_all entity_ok es \<Longrightarrow> sane (slice_json EntityRef_json es) = slice_json EntityRef_json es"
proof -
  have d: "elems_depth (map EntityRef_json xs) \<le> 1" for xs by (induction xs) (simp_all add: EntityRef_json_def)
  show "json_ok (slice_json EntityRef_json es)" by (auto simp: slice_json_def elems_ok_all list_all_iff EntityRef_json_def)
  show "json_depth (slice_json EntityRef_json es) \<le> 2" using d [of es] by (simp add: slice_json_def)
  show "list_all entity_ok es \<Longrightarrow> sane (slice_json EntityRef_json es) = slice_json EntityRef_json es"
    by (simp add: slice_json_def sane_elems_map list_all_iff sane_entity)
qed

lemma constraints_doc: "json_ok (slice_json ActionConstraint_json cs)" "json_depth (slice_json ActionConstraint_json cs) \<le> 2"
  "list_all constraint_ok cs \<Longrightarrow> sane (slice_json ActionConstraint_json cs) = slice_json ActionConstraint_json cs"
proof -
  have d: "elems_depth (map ActionConstraint_json xs) \<le> 1" for xs by (induction xs) (simp_all add: ActionConstraint_json_def)
  show "json_ok (slice_json ActionConstraint_json cs)" by (auto simp: slice_json_def elems_ok_all list_all_iff ActionConstraint_json_def)
  show "json_depth (slice_json ActionConstraint_json cs) \<le> 2" using d [of cs] by (simp add: slice_json_def)
  show "list_all constraint_ok cs \<Longrightarrow> sane (slice_json ActionConstraint_json cs) = slice_json ActionConstraint_json cs"
    by (simp add: slice_json_def sane_elems_map list_all_iff sane_constraint)
qed

lemma map_doc:
  assumes "map_ok fmt m"
  shows "json_ok (anymap_json fmt m)" "Suc (json_depth (anymap_json fmt m)) \<le> max_depth" "sane (anymap_json fmt m) = anymap_json fmt m"
  using assms any_json_ok [of fmt "VMap (the m)"] any_json_sane [of fmt "VMap (the m)"]
  by (auto simp: map_ok_def anymap_json_def max_depth_def simp del: any_json.simps any_ok.simps split: option.splits)

lemma weights_doc:
  assumes "weights_ok fmt (Some w)"
  shows "json_ok (weights_json fmt w)" "json_depth (weights_json fmt w) \<le> 1" "sane (weights_json fmt w) = weights_json fmt w"
proof -
  have ok: "sort_members w = w" "\<forall>(k, x) \<in> set w. valid_utf8 k \<and> json_number (fmt x)"
    using assms by (auto simp: weights_ok_def list_all_iff float_text_def)
  have j: "weights_json fmt w = JObject (map (\<lambda>(k, x). (k, JNumber (fmt x))) w)"
    using ok(1) by (simp add: weights_json_def sort_members_map)
  have d: "members_depth (map (\<lambda>(k, x). (k, JNumber (fmt x))) xs) = 0" for xs by (induction xs) auto
  show "json_ok (weights_json fmt w)" unfolding j using ok(2) by (auto simp: members_ok_all list_all_iff)
  show "json_depth (weights_json fmt w) \<le> 1" unfolding j by (simp add: d)
  have "map (\<lambda>(k, v). (sanitise k, sane v)) (map (\<lambda>(k, x). (k, JNumber (fmt x))) w) = map (\<lambda>(k, x). (k, JNumber (fmt x))) w"
    by (rule map_members_id) (use ok(2) in \<open>auto simp: sanitise_valid\<close>)
  then show "sane (weights_json fmt w) = weights_json fmt w" unfolding j by (simp add: sane_members_map)
qed

lemma action_doc:
  assumes "action_ok str fmt ar"
  shows "json_ok (ActionRequest_json str fmt ar)" "json_depth (ActionRequest_json str fmt ar) \<le> max_depth"
    "sane (ActionRequest_json str fmt ar) = ActionRequest_json str fmt ar"
proof -
  note m = map_doc [of fmt "ar_Payload ar"] and c = constraints_doc [of "ar_Constraints ar"]
  have ok: "map_ok fmt (ar_Payload ar)" "list_all constraint_ok (ar_Constraints ar)" "valid_utf8 (str (ar_ID ar))"
    "valid_utf8 (ar_Capability ar)" "valid_utf8 (ar_IdempotencyKey ar)" using assms by (simp_all add: action_ok_def)
  show "json_ok (ActionRequest_json str fmt ar)" using m(1) [OF ok(1)] c(1) by (simp add: ActionRequest_json_def)
  show "json_depth (ActionRequest_json str fmt ar) \<le> max_depth"
    using m(2) [OF ok(1)] c(2) by (simp add: ActionRequest_json_def max_depth_def)
  show "sane (ActionRequest_json str fmt ar) = ActionRequest_json str fmt ar"
    using m(3) [OF ok(1)] c(3) [OF ok(2)] ok(3-5) by (simp add: ActionRequest_json_def sanitise_valid)
qed



section \<open>Drivers the repositories can rely on\<close>

text \<open>
  \<^verbatim>\<open>uuid.Parse\<close> reads what \<^verbatim>\<open>String\<close> writes; the instants in \<open>exact\<close> survive the column and keep their order
  there (every instant of the years 0 to 9999 in SQLite, those of whole microseconds in PostgreSQL); numbers keep theirs;
  a JSON column returns the document or one that is the same; a scan visits every row once; no call meets a fault.
\<close>

locale sql_driver =
  fixes str :: "uuid \<Rightarrow> string" and parse :: "string \<Rightarrow> error + uuid"
    and drv :: "(string, 'j, 't) driver" and exact :: "time \<Rightarrow> bool"
  assumes parse_str: "parse (str u) = Inr u"
    and time_exact: "exact t \<Longrightarrow> get_time drv (put_time drv t) = Inr t"
    and time_order: "exact a \<Longrightarrow> exact b \<Longrightarrow> time_before drv (put_time drv a) (put_time drv b) \<longleftrightarrow> a < b"
    and real_order: "x \<noteq> NaN \<Longrightarrow> y \<noteq> NaN \<Longrightarrow> real_before drv x y \<longleftrightarrow> x < y"
    and json_kept: "json_ok v \<Longrightarrow> json_depth v \<le> max_depth \<Longrightarrow> sane v = v \<Longrightarrow> takes drv (ColJson (json_Marshal v)) \<Longrightarrow>
          \<exists>w. json_Unmarshal (get_json drv (put_json drv (json_Marshal v))) = Some w \<and> json_same v w"
    and scan_all: "range_order (scan_commitments drv)"
    and no_fault: "exec_fault drv db = None" "rows_fault drv db = None" "query_fault drv db = None" "iter_fault drv db = None"
begin

lemma inj_str: "inj str"
  by (metis injI parse_str sum.inject(2))

lemma null_time: "pred_option exact t \<Longrightarrow> get_null_time drv (put_null_time drv t) = Inr t"
  by (cases t) (simp_all add: get_null_time_def put_null_time_def time_exact)

lemma null_uuid: "get_null_uuid parse (map_option str u) = Inr u"
  by (cases u) (simp_all add: get_null_uuid_def parse_str)

lemma column_kept:
  assumes "json_ok v" "json_depth v \<le> max_depth" "sane v = v" "takes drv (ColJson (json_Marshal v))"
    and "\<And>w. json_same v w \<Longrightarrow> \<exists>x. decode w = (x, True) \<and> p x" and "v = JNull \<Longrightarrow> p out"
  shows "\<exists>x. sqlite_decJSON decode out (get_json drv (put_json drv (json_Marshal v))) = Inr x \<and> p x"
proof -
  let ?raw = "get_json drv (put_json drv (json_Marshal v))"
  obtain w where w: "json_Unmarshal ?raw = Some w" "json_same v w" using json_kept [OF assms(1-4)] by blast
  have n: "json_Unmarshal [] = None" "json_Unmarshal ''null'' = Some JNull" by code_simp+
  show ?thesis
  proof (cases "?raw = [] \<or> ?raw = ''null''")
    case True
    then have "w = JNull" using w(1) n by auto
    then have "v = JNull" using w(2) by (auto elim: json_same.cases)
    then show ?thesis using assms(6) True by (simp add: sqlite_decJSON_def)
  next
    case False
    then show ?thesis using assms(5) [OF w(2)] w(1) by (auto simp: sqlite_decJSON_def)
  qed
qed

lemma refs_kept:
  assumes "list_all ref_ok rs" "takes drv (ColJson (json_Marshal (slice_json SourceRef_json rs)))"
  shows "sqlite_decJSON (decode_list decode_SourceRef) [] (get_json drv (put_json drv (json_Marshal (slice_json SourceRef_json rs)))) = Inr rs"
proof -
  have "\<exists>x. sqlite_decJSON (decode_list decode_SourceRef) []
      (get_json drv (put_json drv (json_Marshal (slice_json SourceRef_json rs)))) = Inr x \<and> x = rs"
  proof (rule column_kept)
    show "\<exists>x. decode_list decode_SourceRef w = (x, True) \<and> x = rs" if "json_same (slice_json SourceRef_json rs) w" for w
      using decode_slice [OF that decode_ref] by simp
    show "json_depth (slice_json SourceRef_json rs) \<le> max_depth" using refs_doc(2) [of rs] by (simp add: max_depth_def)
  qed (use assms refs_doc [of rs] in \<open>auto simp: slice_json_def split: if_splits\<close>)
  then show ?thesis by simp
qed

lemma entities_kept:
  assumes "list_all entity_ok es" "takes drv (ColJson (json_Marshal (slice_json EntityRef_json es)))"
  shows "sqlite_decJSON (decode_list decode_EntityRef) [] (get_json drv (put_json drv (json_Marshal (slice_json EntityRef_json es)))) = Inr es"
proof -
  have "\<exists>x. sqlite_decJSON (decode_list decode_EntityRef) []
      (get_json drv (put_json drv (json_Marshal (slice_json EntityRef_json es)))) = Inr x \<and> x = es"
  proof (rule column_kept)
    show "\<exists>x. decode_list decode_EntityRef w = (x, True) \<and> x = es" if "json_same (slice_json EntityRef_json es) w" for w
      using decode_slice [OF that decode_entity] by simp
    show "json_depth (slice_json EntityRef_json es) \<le> max_depth" using entities_doc(2) [of es] by (simp add: max_depth_def)
  qed (use assms entities_doc [of es] in \<open>auto simp: slice_json_def split: if_splits\<close>)
  then show ?thesis by simp
qed

lemma map_kept:
  assumes "map_ok fmt m" "takes drv (ColJson (json_Marshal (anymap_json fmt m)))"
  shows "\<exists>x. sqlite_decJSON (decode_anymap None) None (get_json drv (put_json drv (json_Marshal (anymap_json fmt m)))) = Inr x
    \<and> map_option canon_map x = m"
  using map_doc [OF assms(1)] assms
  by (intro column_kept) (auto simp: anymap_json_def decode_map split: option.splits)

lemma weights_kept:
  assumes "weights_ok fmt (Some w)" "takes drv (ColJson (json_Marshal (weights_json fmt w)))"
  shows "\<exists>x. sqlite_decJSON decode_weights None (get_json drv (put_json drv (json_Marshal (weights_json fmt w)))) = Inr (Some x)
    \<and> sort_members x = w"
proof -
  have "\<exists>x. sqlite_decJSON decode_weights None (get_json drv (put_json drv (json_Marshal (weights_json fmt w)))) = Inr x
      \<and> (\<exists>y. x = Some y \<and> sort_members y = w)"
  proof (rule column_kept)
    show "\<exists>x. decode_weights v = (x, True) \<and> (\<exists>y. x = Some y \<and> sort_members y = w)" if "json_same (weights_json fmt w) v" for v
      using decode_weights_same [OF assms(1) that] by blast
    show "json_depth (weights_json fmt w) \<le> max_depth" using weights_doc(2) [OF assms(1)] by (simp add: max_depth_def)
  qed (use assms weights_doc [OF assms(1)] in \<open>auto simp: weights_json_def\<close>)
  then show ?thesis by blast
qed

end

end
