(* ===== verification/Sql_Store_Spec.thy ===== *)
theory Sql_Store_Spec
  imports Sql_Refine
begin

text \<open>
  The refinement: each table of the database holds a finite map, and every write of the SQLite repositories is
  a step of the specification. The PostgreSQL repositories inherit it.
\<close>

section \<open>Reading back what was written\<close>

context sql_driver
begin

lemma scan_commitment:
  "portable_commitment str drv exact c \<Longrightarrow> sqlite_scanCommitment parse drv (commitment_row_of str drv c) = Inr c"
  by (simp add: portable_commitment_def sqlite_scanCommitment_def commitment_row_of_def null_time time_exact parse_str refs_kept
      entities_kept commitment_cols_def sqlite_timePtr_def option.case_eq_if)

lemma scan_goal: "portable_goal str drv exact g \<Longrightarrow> sqlite_scanGoal parse drv (goal_row_of str drv g) = Inr g"
  by (simp add: portable_goal_def sqlite_scanGoal_def goal_row_of_def time_exact parse_str refs_kept goal_cols_def)

lemma scan_task: "portable_task str drv exact t \<Longrightarrow> sqlite_scanTask parse drv (task_row_of str drv t) = Inr t"
  by (simp add: portable_task_def sqlite_scanTask_def task_row_of_def null_time null_uuid time_exact parse_str
      sqlite_timePtr_def sqlite_stringPtr_def option.case_eq_if)

lemma scan_decision:
  assumes "portable_decision str fmt drv exact d"
  shows "canon canon_decision (sqlite_scanDecision parse drv (decision_row_of str fmt drv d)) = Inr d"
proof -
  have p: "list_all ref_ok (d_ContextRefs d)" "map_ok fmt (d_Inputs d)" "map_ok fmt (d_Outcome d)" "weights_ok fmt (d_Weights d)"
    "exact (d_CreatedAt d)" "list_all (takes drv) (decision_cols str fmt d)" using assms by (simp_all add: portable_decision_def)
  obtain ins where i: "sqlite_decJSON (decode_anymap None) None (get_json drv (put_json drv (json_Marshal (anymap_json fmt (d_Inputs d))))) = Inr ins"
    "map_option canon_map ins = d_Inputs d" using map_kept [OF p(2)] p(6) by (auto simp: decision_cols_def)
  obtain out where o: "sqlite_decJSON (decode_anymap None) None (get_json drv (put_json drv (json_Marshal (anymap_json fmt (d_Outcome d))))) = Inr out"
    "map_option canon_map out = d_Outcome d" using map_kept [OF p(3)] p(6) by (auto simp: decision_cols_def)
  let ?w = "case map_option (get_json drv) (rd_weights (decision_row_of str fmt drv d)) of
        Some w \<Rightarrow> if w \<noteq> [] then wrap_err ''decision: decode weights'' (sqlite_decJSON decode_weights None w) else Inr None
      | None \<Rightarrow> Inr None"
  have "\<exists>ws. ?w = Inr ws \<and> map_option sort_members ws = d_Weights d"
  proof (cases "d_Weights d")
    case None
    then show ?thesis by (simp add: decision_row_of_def)
  next
    case (Some w)
    then obtain x where x: "sqlite_decJSON decode_weights None (get_json drv (put_json drv (json_Marshal (weights_json fmt w)))) = Inr (Some x)"
      "sort_members x = w" using weights_kept [of fmt w] p(4,6) by (auto simp: decision_cols_def)
    then have "get_json drv (put_json drv (json_Marshal (weights_json fmt w))) \<noteq> []" by (auto simp: sqlite_decJSON_def)
    then show ?thesis using x Some by (simp add: decision_row_of_def)
  qed
  then obtain ws where w: "?w = Inr ws" "map_option sort_members ws = d_Weights d" by blast
  show ?thesis
    using p i o w refs_kept [OF p(1)]
    by (simp add: sqlite_scanDecision_def canon_def) (simp add: decision_row_of_def time_exact parse_str decision_cols_def canon_decision_def)
qed

lemma scan_intervention:
  assumes "portable_intervention str fmt drv exact iv"
  shows "canon canon_intervention (sqlite_scanIntervention parse drv (intervention_row_of str fmt drv iv)) = Inr iv"
proof (cases "iv_SuggestedAction iv")
  case None
  then show ?thesis using assms
    by (simp add: sqlite_scanIntervention_def intervention_row_of_def portable_intervention_def null_time null_uuid time_exact
        parse_str canon_def canon_intervention_def sqlite_timePtr_def option.case_eq_if)
next
  case (Some ar)
  have ok: "action_ok str fmt ar" "takes drv (ColJson (json_Marshal (ActionRequest_json str fmt ar)))"
    using assms Some by (simp_all add: portable_intervention_def intervention_cols_def)
  let ?raw = "get_json drv (put_json drv (json_Marshal (ActionRequest_json str fmt ar)))"
  let ?zero = "\<lparr>ar_ID = uuid_Nil, ar_Capability = [], ar_Payload = None, ar_Constraints = [], ar_IdempotencyKey = []\<rparr>"
  obtain w where w: "json_Unmarshal ?raw = Some w" "json_same (ActionRequest_json str fmt ar) w"
    using json_kept [OF action_doc [OF ok(1)] ok(2)] by blast
  then obtain ns where "w = JObject ns" using same_object_shape unfolding ActionRequest_json_def by blast
  moreover have "json_Unmarshal [] = None" "json_Unmarshal ''null'' = Some JNull" by code_simp+
  ultimately have ne: "?raw \<noteq> []" "?raw \<noteq> ''null''" using w(1) by auto
  obtain ar' where "decode_ActionRequest parse w = (ar', True)" "canon_action ar' = ar"
    using decode_action [where parse = parse, OF ok(1) _ w(2)] parse_str by blast
  then have "sqlite_decJSON (decode_ActionRequest parse) ?zero ?raw = Inr ar'" "canon_action ar' = ar"
    using w(1) ne by (simp_all add: sqlite_decJSON_def)
  then show ?thesis using assms Some ne
    by (simp add: sqlite_scanIntervention_def intervention_row_of_def portable_intervention_def null_time null_uuid time_exact
        parse_str canon_def canon_intervention_def sqlite_timePtr_def option.case_eq_if)
qed

end

locale sql_store = sql_driver +
  fixes fmt :: "float64 \<Rightarrow> string"

sublocale sql_driver \<subseteq> ctab: sql_table str "commitment_row_of str drv" "sqlite_scanCommitment parse drv" rc_id c_ID
  sqlite_upsertCommitmentSQL keep_commitment "portable_commitment str drv exact"
  by unfold_locales
    (rule inj_str, erule scan_commitment, auto simp: commitment_row_of_def sqlite_upsertCommitmentSQL_def keep_commitment_def
      portable_commitment_def commitment_cols_def)

sublocale sql_driver \<subseteq> gtab: sql_table str "goal_row_of str drv" "sqlite_scanGoal parse drv" rg_id g_ID
  sqlite_upsertGoalSQL keep_goal "portable_goal str drv exact"
  by unfold_locales
    (rule inj_str, erule scan_goal, auto simp: goal_row_of_def sqlite_upsertGoalSQL_def keep_goal_def portable_goal_def goal_cols_def)

sublocale sql_driver \<subseteq> ttab: sql_table str "task_row_of str drv" "sqlite_scanTask parse drv" rt_id t_ID
  sqlite_upsertTaskSQL keep_task "portable_task str drv exact"
  by unfold_locales
    (rule inj_str, erule scan_task, auto simp: task_row_of_def sqlite_upsertTaskSQL_def keep_task_def portable_task_def task_cols_def)

sublocale sql_store \<subseteq> dtab: sql_table str "decision_row_of str fmt drv"
  "\<lambda>r. canon canon_decision (sqlite_scanDecision parse drv r)" rd_id d_ID do_nothing "\<lambda>v w. v" "portable_decision str fmt drv exact"
  by unfold_locales (rule inj_str, erule scan_decision, auto simp: decision_row_of_def do_nothing_def)

sublocale sql_store \<subseteq> itab: sql_table str "intervention_row_of str fmt drv"
  "\<lambda>r. canon canon_intervention (sqlite_scanIntervention parse drv r)" ri_id iv_ID sqlite_upsertInterventionSQL keep_intervention
  "portable_intervention str fmt drv exact"
  by unfold_locales
    (rule inj_str, erule scan_intervention, auto simp: intervention_row_of_def sqlite_upsertInterventionSQL_def keep_intervention_def
      portable_intervention_def intervention_cols_def)



section \<open>The specification\<close>

text \<open>An upsert of what \<^verbatim>\<open>Validate\<close> accepts, keeping parts of the value that is there.\<close>

definition keeping :: "('v \<Rightarrow> 'v \<Rightarrow> 'v) \<Rightarrow> ('v \<Rightarrow> uuid) \<Rightarrow> 'v \<Rightarrow> (uuid \<Rightarrow> 'v option) \<Rightarrow> uuid \<Rightarrow> 'v option" where
  "keeping merge ident w m = m(ident w \<mapsto> (case m (ident w) of None \<Rightarrow> w | Some v \<Rightarrow> merge v w))"

text \<open>A reference points to a value of the map, or is the one that is stored already.\<close>

definition linked :: "('v \<Rightarrow> uuid option) \<Rightarrow> (uuid \<Rightarrow> 'x option) \<Rightarrow> 'v option \<Rightarrow> 'v \<Rightarrow> bool" where
  "linked g m old new \<longleftrightarrow>
     (case g new of None \<Rightarrow> True | Some u \<Rightarrow> m u \<noteq> None \<or> (case old of None \<Rightarrow> False | Some v \<Rightarrow> g v = Some u))"

definition written :: "('v \<Rightarrow> 'v \<Rightarrow> 'v) \<Rightarrow> 'v option \<Rightarrow> 'v \<Rightarrow> 'v" where
  "written merge old w = (case old of None \<Rightarrow> w | Some v \<Rightarrow> merge v w)"

definition task_links :: "store_spec \<Rightarrow> Task \<Rightarrow> bool" where
  "task_links s t = (let old = sp_t s (t_ID t); new = written keep_task old t in
     linked t_GoalID (sp_g s) old new \<and> linked t_CommitmentID (sp_c s) old new)"

definition intervention_links :: "store_spec \<Rightarrow> Intervention \<Rightarrow> bool" where
  "intervention_links s iv = (let old = sp_i s (iv_ID iv); new = written keep_intervention old iv in
     linked iv_CommitmentID (sp_c s) old new \<and> linked iv_TaskID (sp_t s) old new)"

fun sql_spec_op :: "bool \<Rightarrow> store_spec \<Rightarrow> store_op \<Rightarrow> store_spec" where
  "sql_spec_op fk s (OpSaveCommitment c) =
     (if Commitment_Validate c = None then s\<lparr>sp_c := keeping keep_commitment c_ID c (sp_c s)\<rparr> else s)"
| "sql_spec_op fk s (OpSaveDecision d) =
     (if Decision_Validate d = None then s\<lparr>sp_d := keeping (\<lambda>v w. v) d_ID d (sp_d s)\<rparr> else s)"
| "sql_spec_op fk s (OpSaveIntervention iv) =
     (if Intervention_Validate iv = None \<and> (fk \<longrightarrow> intervention_links s iv)
      then s\<lparr>sp_i := keeping keep_intervention iv_ID iv (sp_i s)\<rparr> else s)"
| "sql_spec_op fk s (OpSaveGoal g) =
     (if Goal_Validate g = None then s\<lparr>sp_g := keeping keep_goal g_ID g (sp_g s)\<rparr> else s)"
| "sql_spec_op fk s (OpSaveTask t) =
     (if Task_Validate t = None \<and> (fk \<longrightarrow> task_links s t)
      then s\<lparr>sp_t := keeping keep_task t_ID t (sp_t s)\<rparr> else s)"
| "sql_spec_op fk s (OpUpdateRisk k score ts) = s\<lparr>sp_c := (case sp_c s k of None \<Rightarrow> sp_c s
     | Some c \<Rightarrow> (sp_c s)(k \<mapsto> c\<lparr>c_RiskScore := score, c_LastEvaluatedAt := Some ts, c_UpdatedAt := ts\<rparr>))\<rparr>"

fun sqlite_op ::
  "(uuid \<Rightarrow> string) \<Rightarrow> (float64 \<Rightarrow> string) \<Rightarrow> (string, 'j, 't) driver \<Rightarrow> (string, 'j, 't) db \<Rightarrow> store_op \<Rightarrow> (string, 'j, 't) db" where
  "sqlite_op str fmt drv db (OpSaveCommitment c) = snd (sqlite_commitmentRepo_Save str drv db c)"
| "sqlite_op str fmt drv db (OpSaveDecision d) = snd (sqlite_decisionRepo_Save str fmt drv db d)"
| "sqlite_op str fmt drv db (OpSaveIntervention iv) = snd (sqlite_interventionRepo_Save str fmt drv db iv)"
| "sqlite_op str fmt drv db (OpSaveGoal g) = snd (sqlite_goalRepo_Save str drv db g)"
| "sqlite_op str fmt drv db (OpSaveTask t) = snd (sqlite_taskRepo_Save str drv db t)"
| "sqlite_op str fmt drv db (OpUpdateRisk k score ts) = snd (sqlite_commitmentRepo_UpdateRisk str drv db k score ts)"

fun portable_op ::
  "(uuid \<Rightarrow> string) \<Rightarrow> (float64 \<Rightarrow> string) \<Rightarrow> ('i, 'j, 't) driver \<Rightarrow> (time \<Rightarrow> bool) \<Rightarrow> store_op \<Rightarrow> bool" where
  "portable_op str fmt drv exact (OpSaveCommitment c) = portable_commitment str drv exact c"
| "portable_op str fmt drv exact (OpSaveDecision d) = portable_decision str fmt drv exact d"
| "portable_op str fmt drv exact (OpSaveIntervention iv) = portable_intervention str fmt drv exact iv"
| "portable_op str fmt drv exact (OpSaveGoal g) = portable_goal str drv exact g"
| "portable_op str fmt drv exact (OpSaveTask t) = portable_task str drv exact t"
| "portable_op str fmt drv exact (OpUpdateRisk k score ts) = (takes drv (ColReal score) \<and> exact ts)"

text \<open>The store as its readers see it.\<close>

definition sql_view ::
  "(uuid \<Rightarrow> string) \<Rightarrow> (string \<Rightarrow> error + uuid) \<Rightarrow> (string, 'j, 't) driver \<Rightarrow> (string, 'j, 't) db \<Rightarrow> store_spec" where
  "sql_view str parse drv db =
     \<lparr>sp_c = (\<lambda>k. case sqlite_commitmentRepo_Get str parse drv db k of Inr c \<Rightarrow> Some c | Inl _ \<Rightarrow> None),
      sp_d = (\<lambda>k. case sqlite_decisionRepo_Get str parse drv db k of Inr d \<Rightarrow> Some (canon_decision d) | Inl _ \<Rightarrow> None),
      sp_i = (\<lambda>k. case sqlite_interventionRepo_Get str parse drv db k of Inr iv \<Rightarrow> Some (canon_intervention iv) | Inl _ \<Rightarrow> None),
      sp_g = (\<lambda>k. case sqlite_goalRepo_Get str parse drv db k of Inr g \<Rightarrow> Some g | Inl _ \<Rightarrow> None),
      sp_t = (\<lambda>k. case sqlite_taskRepo_Get str parse drv db k of Inr t \<Rightarrow> Some t | Inl _ \<Rightarrow> None)\<rparr>"


section \<open>Simulation\<close>

context sql_store
begin

definition holds_db :: "(string, 'a, 'b) db \<Rightarrow> store_spec \<Rightarrow> bool" where
  "holds_db db s \<longleftrightarrow> ctab.holds (db_commitments db) (sp_c s) \<and> dtab.holds (db_decisions db) (sp_d s)
     \<and> itab.holds (db_interventions db) (sp_i s) \<and> gtab.holds (db_goals db) (sp_g s) \<and> ttab.holds (db_tasks db) (sp_t s)"

lemma holds_db_empty: "holds_db empty_db empty_spec"
  by (simp add: holds_db_def empty_db_def empty_spec_def ctab.holds_empty dtab.holds_empty itab.holds_empty
      gtab.holds_empty ttab.holds_empty)

lemma exec_accepted:
  assumes "list_all (takes drv) cols"
  shows "exec_upsert drv db cols fks key merge row tbl =
    (let old = find (\<lambda>r. key r = key row) tbl; new = (case old of None \<Rightarrow> row | Some r \<Rightarrow> merge r row)
     in if foreign_keys drv \<and> \<not> list_all (\<lambda>(f, keys). references f keys old new) fks
        then Inl (engine_error drv RefusedForeignKey) else Inr (upsert_row key merge row tbl))"
proof -
  have "find (\<lambda>c. \<not> takes drv c) cols = None" using assms by (auto simp: find_None_iff list_all_iff)
  then show ?thesis by (simp add: exec_upsert_def no_fault)
qed

lemma null_time_id: "sqlite_nullTime t = t"
  by (cases t) (simp_all add: sqlite_nullTime_def)

lemma null_case_map: "(case x of None \<Rightarrow> None | Some u \<Rightarrow> Some (f u)) = map_option f x"
  by (cases x) simp_all

lemma save_commitment:
  assumes "portable_commitment str drv exact c" "Commitment_Validate c = None"
  shows "sqlite_commitmentRepo_Save str drv db c = (None, db\<lparr>db_commitments :=
    upsert_row rc_id sqlite_upsertCommitmentSQL (commitment_row_of str drv c) (db_commitments db)\<rparr>)"
proof -
  have "list_all (takes drv) (commitment_cols str c)" using assms(1) by (simp add: portable_commitment_def)
  then show ?thesis using assms(2)
    by (simp add: sqlite_commitmentRepo_Save_def sqlite_encJSON_def commitment_cols_def commitment_row_of_def null_time_id exec_accepted)
qed

lemma save_goal:
  assumes "portable_goal str drv exact g" "Goal_Validate g = None"
  shows "sqlite_goalRepo_Save str drv db g = (None, db\<lparr>db_goals :=
    upsert_row rg_id sqlite_upsertGoalSQL (goal_row_of str drv g) (db_goals db)\<rparr>)"
proof -
  have "list_all (takes drv) (goal_cols str g)" using assms(1) by (simp add: portable_goal_def)
  then show ?thesis using assms(2)
    by (simp add: sqlite_goalRepo_Save_def sqlite_encJSON_def goal_cols_def goal_row_of_def exec_accepted)
qed

lemma save_decision:
  assumes "portable_decision str fmt drv exact d" "Decision_Validate d = None"
  shows "sqlite_decisionRepo_Save str fmt drv db d = (None, db\<lparr>db_decisions :=
    upsert_row rd_id do_nothing (decision_row_of str fmt drv d) (db_decisions db)\<rparr>)"
proof -
  have cols: "list_all (takes drv) (decision_cols str fmt d)" and m: "encodable_map (d_Inputs d)" "encodable_map (d_Outcome d)"
    using assms(1) by (auto simp: portable_decision_def map_ok_def encodable_map_def split: option.splits)
  have w: "(case d_Weights d of None \<Rightarrow> Inr None | Some w \<Rightarrow>
              if 0 < length w
              then try_bind (sqlite_encJSON (if list_all (\<lambda>(k, x). encodable (VFloat x)) w
                     then Some (weights_json fmt w) else None)) (\<lambda>w. Inr (Some w))
              else Inr None) = Inr (map_option (\<lambda>w. json_Marshal (weights_json fmt w)) (d_Weights d))"
    using assms(1) by (cases "d_Weights d") (auto simp: portable_decision_def weights_ok_def sqlite_encJSON_def list_all_iff)
  have c: "(case map_option (\<lambda>w. json_Marshal (weights_json fmt w)) (d_Weights d) of None \<Rightarrow> [] | Some w \<Rightarrow> [ColJson w]) =
      (case d_Weights d of None \<Rightarrow> [] | Some w \<Rightarrow> [ColJson (json_Marshal (weights_json fmt w))])"
    by (cases "d_Weights d") simp_all
  have row: "\<lparr>rd_id = str (d_ID d), rd_subject = d_Subject d,
      rd_context_refs = put_json drv (json_Marshal (slice_json SourceRef_json (d_ContextRefs d))),
      rd_inputs = put_json drv (json_Marshal (anymap_json fmt (d_Inputs d))),
      rd_weights = map_option (put_json drv) (map_option (\<lambda>w. json_Marshal (weights_json fmt w)) (d_Weights d)),
      rd_outcome = put_json drv (json_Marshal (anymap_json fmt (d_Outcome d))), rd_reason = d_Reason d,
      rd_confidence = d_Confidence d, rd_created_at = put_time drv (time_UTC (d_CreatedAt d))\<rparr> = decision_row_of str fmt drv d"
    by (simp add: decision_row_of_def option.map_comp comp_def)
  have e: "sqlite_encJSON (Some j) = Inr (json_Marshal j)" for j by (simp add: sqlite_encJSON_def)
  show ?thesis unfolding sqlite_decisionRepo_Save_def w assms(2) using m cols
    by (simp only: e c row option.case sum.case if_True refl decision_cols_def [symmetric] exec_accepted)
      (simp add: Let_def)
qed

lemma step_commitment:
  assumes "holds_db db s" "portable_commitment str drv exact c"
  shows "holds_db (snd (sqlite_commitmentRepo_Save str drv db c)) (sql_spec_op (foreign_keys drv) s (OpSaveCommitment c))"
proof (cases "Commitment_Validate c")
  case None
  then show ?thesis using assms ctab.holds_upsert [of "db_commitments db" "sp_c s" c]
    by (simp add: save_commitment holds_db_def keeping_def)
qed (use assms in \<open>simp add: sqlite_commitmentRepo_Save_def\<close>)

lemma step_goal:
  assumes "holds_db db s" "portable_goal str drv exact g"
  shows "holds_db (snd (sqlite_goalRepo_Save str drv db g)) (sql_spec_op (foreign_keys drv) s (OpSaveGoal g))"
proof (cases "Goal_Validate g")
  case None
  then show ?thesis using assms gtab.holds_upsert [of "db_goals db" "sp_g s" g]
    by (simp add: save_goal holds_db_def keeping_def)
qed (use assms in \<open>simp add: sqlite_goalRepo_Save_def\<close>)

lemma step_decision:
  assumes "holds_db db s" "portable_decision str fmt drv exact d"
  shows "holds_db (snd (sqlite_decisionRepo_Save str fmt drv db d)) (sql_spec_op (foreign_keys drv) s (OpSaveDecision d))"
proof (cases "Decision_Validate d")
  case None
  then show ?thesis using assms dtab.holds_upsert [of "db_decisions db" "sp_d s" d]
    by (simp add: save_decision holds_db_def keeping_def)
qed (use assms in \<open>simp add: sqlite_decisionRepo_Save_def\<close>)

lemma written_task:
  assumes "ttab.holds tbl m"
  shows "find (\<lambda>r. rt_id r = rt_id (task_row_of str drv t)) tbl = map_option (task_row_of str drv) (m (t_ID t))"
    and "(case map_option (task_row_of str drv) (m (t_ID t)) of None \<Rightarrow> task_row_of str drv t
        | Some r \<Rightarrow> sqlite_upsertTaskSQL r (task_row_of str drv t)) = task_row_of str drv (written keep_task (m (t_ID t)) t)"
  using ttab.holds_find [OF assms, of "t_ID t"] ttab.merge_enc
  by (simp_all add: ttab.key_enc written_def split: option.splits)

lemma written_intervention:
  assumes "itab.holds tbl m"
  shows "find (\<lambda>r. ri_id r = ri_id (intervention_row_of str fmt drv iv)) tbl = map_option (intervention_row_of str fmt drv) (m (iv_ID iv))"
    and "(case map_option (intervention_row_of str fmt drv) (m (iv_ID iv)) of None \<Rightarrow> intervention_row_of str fmt drv iv
        | Some r \<Rightarrow> sqlite_upsertInterventionSQL r (intervention_row_of str fmt drv iv)) =
        intervention_row_of str fmt drv (written keep_intervention (m (iv_ID iv)) iv)"
  using itab.holds_find [OF assms, of "iv_ID iv"] itab.merge_enc
  by (simp_all add: itab.key_enc written_def split: option.splits)

lemma task_fks:
  assumes "holds_db db s"
  shows "list_all (\<lambda>(f, keys). references f keys (map_option (task_row_of str drv) old) (task_row_of str drv new))
      [(rt_goal_id, map rg_id (db_goals db)), (rt_commitment_id, map rc_id (db_commitments db))] \<longleftrightarrow>
    linked t_GoalID (sp_g s) old new \<and> linked t_CommitmentID (sp_c s) old new"
proof -
  have g: "gtab.holds (db_goals db) (sp_g s)" and c: "ctab.holds (db_commitments db) (sp_c s)" using assms by (simp_all add: holds_db_def)
  have "rt_goal_id (task_row_of str drv t) = map_option str (t_GoalID t)"
    "rt_commitment_id (task_row_of str drv t) = map_option str (t_CommitmentID t)" for t by (simp_all add: task_row_of_def)
  then show ?thesis
    using gtab.holds_references [OF g, where f = rt_goal_id and enc' = "task_row_of str drv" and g = t_GoalID]
      ctab.holds_references [OF c, where f = rt_commitment_id and enc' = "task_row_of str drv" and g = t_CommitmentID]
    by (simp add: linked_def)
qed

lemma intervention_fks:
  assumes "holds_db db s"
  shows "list_all (\<lambda>(f, keys). references f keys (map_option (intervention_row_of str fmt drv) old) (intervention_row_of str fmt drv new))
      [(ri_commitment_id, map rc_id (db_commitments db)), (ri_task_id, map rt_id (db_tasks db))] \<longleftrightarrow>
    linked iv_CommitmentID (sp_c s) old new \<and> linked iv_TaskID (sp_t s) old new"
proof -
  have t: "ttab.holds (db_tasks db) (sp_t s)" and c: "ctab.holds (db_commitments db) (sp_c s)" using assms by (simp_all add: holds_db_def)
  have "ri_commitment_id (intervention_row_of str fmt drv iv) = map_option str (iv_CommitmentID iv)"
    "ri_task_id (intervention_row_of str fmt drv iv) = map_option str (iv_TaskID iv)" for iv by (simp_all add: intervention_row_of_def)
  then show ?thesis
    using ttab.holds_references [OF t, where f = ri_task_id and enc' = "intervention_row_of str fmt drv" and g = iv_TaskID]
      ctab.holds_references [OF c, where f = ri_commitment_id and enc' = "intervention_row_of str fmt drv" and g = iv_CommitmentID]
    by (simp add: linked_def)
qed

lemma save_task:
  assumes "portable_task str drv exact t" "Task_Validate t = None" "holds_db db s"
  shows "sqlite_taskRepo_Save str drv db t =
    (if foreign_keys drv \<and> \<not> task_links s t then (Some (ErrWrap ''task: save'' (engine_error drv RefusedForeignKey)), db)
     else (None, db\<lparr>db_tasks := upsert_row rt_id sqlite_upsertTaskSQL (task_row_of str drv t) (db_tasks db)\<rparr>))"
proof -
  have cols: "list_all (takes drv) (task_cols str t)" using assms(1) by (simp add: portable_task_def)
  have h: "ttab.holds (db_tasks db) (sp_t s)" using assms(3) by (simp add: holds_db_def)
  have a: "(case t_AssignedTo t of None \<Rightarrow> None | Some s \<Rightarrow> Some s) = t_AssignedTo t" by (cases "t_AssignedTo t") simp_all
  have row: "\<lparr>rt_id = str (t_ID t), rt_goal_id = map_option str (t_GoalID t), rt_plan_id = map_option str (t_PlanID t),
      rt_commitment_id = map_option str (t_CommitmentID t), rt_title = t_Title t, rt_description = t_Description t,
      rt_assigned_to = t_AssignedTo t, rt_status = t_Status t, rt_priority = t_Priority t,
      rt_due_at = put_null_time drv (sqlite_nullTime (t_DueAt t)), rt_created_at = put_time drv (time_UTC (t_CreatedAt t)),
      rt_updated_at = put_time drv (time_UTC (t_UpdatedAt t))\<rparr> = task_row_of str drv t"
    by (simp add: task_row_of_def null_time_id)
  show ?thesis unfolding sqlite_taskRepo_Save_def assms(2) null_case_map [where f = str] Let_def a option.case row task_cols_def [symmetric]
      exec_accepted [OF cols] written_task [OF h] task_fks [OF assms(3)] task_links_def
    by simp
qed

lemma save_intervention:
  assumes "portable_intervention str fmt drv exact iv" "Intervention_Validate iv = None" "holds_db db s"
  shows "sqlite_interventionRepo_Save str fmt drv db iv =
    (if foreign_keys drv \<and> \<not> intervention_links s iv then (Some (ErrWrap ''intervention: save'' (engine_error drv RefusedForeignKey)), db)
     else (None, db\<lparr>db_interventions := upsert_row ri_id sqlite_upsertInterventionSQL (intervention_row_of str fmt drv iv) (db_interventions db)\<rparr>))"
proof -
  have cols: "list_all (takes drv) (intervention_cols str fmt iv)" using assms(1) by (simp add: portable_intervention_def)
  have h: "itab.holds (db_interventions db) (sp_i s)" using assms(3) by (simp add: holds_db_def)
  let ?sug = "map_option (\<lambda>ar. json_Marshal (ActionRequest_json str fmt ar)) (iv_SuggestedAction iv)"
  have "\<exists>x. sqlite_encJSON (case iv_SuggestedAction iv of None \<Rightarrow> Some JNull
          | Some ar \<Rightarrow> if encodable_map (ar_Payload ar) then Some (ActionRequest_json str fmt ar) else None) = Inr x
      \<and> (if iv_SuggestedAction iv \<noteq> None then Some x else None) = ?sug"
    using assms(1) by (cases "iv_SuggestedAction iv")
      (auto simp: sqlite_encJSON_def portable_intervention_def action_ok_def map_ok_def encodable_map_def split: option.splits)
  then obtain x where x: "sqlite_encJSON (case iv_SuggestedAction iv of None \<Rightarrow> Some JNull
          | Some ar \<Rightarrow> if encodable_map (ar_Payload ar) then Some (ActionRequest_json str fmt ar) else None) = Inr x"
      "(if iv_SuggestedAction iv \<noteq> None then Some x else None) = ?sug" by blast
  have c: "[ColText (str (iv_ID iv)), ColText (iv_Type iv), ColText (iv_Message iv)] @
      (case ?sug of None \<Rightarrow> [] | Some s \<Rightarrow> [ColJson s]) @ [ColText (iv_Status iv)] = intervention_cols str fmt iv"
    by (cases "iv_SuggestedAction iv") (simp_all add: intervention_cols_def)
  have row: "\<lparr>ri_id = str (iv_ID iv), ri_commitment_id = map_option str (iv_CommitmentID iv), ri_task_id = map_option str (iv_TaskID iv),
      ri_type = iv_Type iv, ri_message = iv_Message iv, ri_suggested_action = map_option (put_json drv) ?sug,
      ri_status = iv_Status iv, ri_triggered_at = put_time drv (time_UTC (iv_TriggeredAt iv)),
      ri_resolved_at = put_null_time drv (sqlite_nullTime (iv_ResolvedAt iv))\<rparr> = intervention_row_of str fmt drv iv"
    by (simp add: intervention_row_of_def null_time_id option.map_comp comp_def)
  show ?thesis unfolding sqlite_interventionRepo_Save_def assms(2) null_case_map [where f = str] Let_def x option.case sum.case c row
      exec_accepted [OF cols] written_intervention [OF h] intervention_fks [OF assms(3)] intervention_links_def
    by simp
qed

lemma step_task:
  assumes "holds_db db s" "portable_task str drv exact t"
  shows "holds_db (snd (sqlite_taskRepo_Save str drv db t)) (sql_spec_op (foreign_keys drv) s (OpSaveTask t))"
proof (cases "Task_Validate t")
  case None
  then show ?thesis using assms ttab.holds_upsert [of "db_tasks db" "sp_t s" t]
    by (simp add: save_task [OF assms(2) None assms(1)] holds_db_def keeping_def)
qed (use assms in \<open>simp add: sqlite_taskRepo_Save_def\<close>)

lemma step_intervention:
  assumes "holds_db db s" "portable_intervention str fmt drv exact iv"
  shows "holds_db (snd (sqlite_interventionRepo_Save str fmt drv db iv)) (sql_spec_op (foreign_keys drv) s (OpSaveIntervention iv))"
proof (cases "Intervention_Validate iv")
  case None
  then show ?thesis using assms itab.holds_upsert [of "db_interventions db" "sp_i s" iv]
    by (simp add: save_intervention [OF assms(2) None assms(1)] holds_db_def keeping_def)
qed (use assms in \<open>simp add: sqlite_interventionRepo_Save_def\<close>)

lemma step_update_risk:
  assumes "holds_db db s" "takes drv (ColReal score)" "exact ts"
  shows "holds_db (snd (sqlite_commitmentRepo_UpdateRisk str drv db k score ts)) (sql_spec_op (foreign_keys drv) s (OpUpdateRisk k score ts))"
proof -
  have "ctab.holds (map (\<lambda>r. if rc_id r = str k then r\<lparr>rc_risk_score := score, rc_last_evaluated_at := Some (put_time drv ts),
          rc_updated_at := put_time drv ts\<rparr> else r) (db_commitments db))
      (case sp_c s k of None \<Rightarrow> sp_c s | Some c \<Rightarrow> (sp_c s)(k \<mapsto> c\<lparr>c_RiskScore := score, c_LastEvaluatedAt := Some ts, c_UpdatedAt := ts\<rparr>))"
    by (rule ctab.holds_modify)
      (use assms in \<open>auto simp: holds_db_def commitment_row_of_def put_null_time_def portable_commitment_def commitment_cols_def\<close>)
  then show ?thesis using assms unfolding sqlite_commitmentRepo_UpdateRisk_def time_UTC_id
    by (simp add: no_fault Let_def holds_db_def)
qed

lemma step:
  assumes "holds_db db s" "portable_op str fmt drv exact op"
  shows "holds_db (sqlite_op str fmt drv db op) (sql_spec_op (foreign_keys drv) s op)"
  using assms
  by (cases op) (simp_all add: step_commitment step_goal step_task step_decision step_intervention step_update_risk
      del: sql_spec_op.simps)

lemma steps:
  "holds_db db s \<Longrightarrow> list_all (portable_op str fmt drv exact) ops \<Longrightarrow>
     holds_db (foldl (sqlite_op str fmt drv) db ops) (foldl (sql_spec_op (foreign_keys drv)) s ops)"
  by (induction ops arbitrary: db s) (simp_all add: step)

text \<open>Reading is looking up.\<close>

lemma read_commitment:
  "holds_db db s \<Longrightarrow> sqlite_commitmentRepo_Get str parse drv db k =
     (case sp_c s k of None \<Rightarrow> Inl (ErrCommitmentNotFound k) | Some c \<Rightarrow> Inr c)"
  using ctab.holds_find [of "db_commitments db" "sp_c s" k] ctab.holds_value [of "db_commitments db" "sp_c s" k]
  by (simp add: holds_db_def sqlite_commitmentRepo_Get_def query_row_def no_fault split: option.splits)

lemma read_goal:
  "holds_db db s \<Longrightarrow> sqlite_goalRepo_Get str parse drv db k =
     (case sp_g s k of None \<Rightarrow> Inl (ErrGoalNotFound k) | Some g \<Rightarrow> Inr g)"
  using gtab.holds_find [of "db_goals db" "sp_g s" k] gtab.holds_value [of "db_goals db" "sp_g s" k]
  by (simp add: holds_db_def sqlite_goalRepo_Get_def query_row_def no_fault split: option.splits)

lemma read_task:
  "holds_db db s \<Longrightarrow> sqlite_taskRepo_Get str parse drv db k =
     (case sp_t s k of None \<Rightarrow> Inl (ErrTaskNotFound k) | Some t \<Rightarrow> Inr t)"
  using ttab.holds_find [of "db_tasks db" "sp_t s" k] ttab.holds_value [of "db_tasks db" "sp_t s" k]
  by (simp add: holds_db_def sqlite_taskRepo_Get_def query_row_def no_fault split: option.splits)

lemma canon_Inr: "canon f r = Inr y \<longleftrightarrow> (\<exists>x. r = Inr x \<and> f x = y)"
  by (cases r) (simp_all add: canon_def)

lemma read_decision:
  "holds_db db s \<Longrightarrow> canon canon_decision (sqlite_decisionRepo_Get str parse drv db k) =
     (case sp_d s k of None \<Rightarrow> Inl (ErrDecisionNotFound k) | Some d \<Rightarrow> Inr d)"
  using dtab.holds_find [of "db_decisions db" "sp_d s" k] dtab.holds_value [of "db_decisions db" "sp_d s" k]
  by (simp add: holds_db_def sqlite_decisionRepo_Get_def query_row_def no_fault canon_def split: option.splits)

lemma read_intervention:
  "holds_db db s \<Longrightarrow> canon canon_intervention (sqlite_interventionRepo_Get str parse drv db k) =
     (case sp_i s k of None \<Rightarrow> Inl (ErrInterventionNotFound k) | Some iv \<Rightarrow> Inr iv)"
  using itab.holds_find [of "db_interventions db" "sp_i s" k] itab.holds_value [of "db_interventions db" "sp_i s" k]
  by (simp add: holds_db_def sqlite_interventionRepo_Get_def query_row_def no_fault canon_def split: option.splits)

lemma canon_value:
  "(case r of Inr x \<Rightarrow> Some (f x) | Inl _ \<Rightarrow> None) = (case canon f r of Inr y \<Rightarrow> Some y | Inl _ \<Rightarrow> None)"
  by (cases r) (simp_all add: canon_def)

lemma view_holds:
  assumes "holds_db db s"
  shows "sql_view str parse drv db = s"
proof (rule store_spec.equality)
  show "sp_c (sql_view str parse drv db) = sp_c s"
    by (rule ext) (simp add: sql_view_def read_commitment [OF assms] split: option.split)
  show "sp_d (sql_view str parse drv db) = sp_d s"
    by (rule ext) (simp add: sql_view_def canon_value [of canon_decision] read_decision [OF assms] split: option.split)
  show "sp_i (sql_view str parse drv db) = sp_i s"
    by (rule ext) (simp add: sql_view_def canon_value [of canon_intervention] read_intervention [OF assms] split: option.split)
  show "sp_g (sql_view str parse drv db) = sp_g s"
    by (rule ext) (simp add: sql_view_def read_goal [OF assms] split: option.split)
  show "sp_t (sql_view str parse drv db) = sp_t s"
    by (rule ext) (simp add: sql_view_def read_task [OF assms] split: option.split)
qed simp

end

end
