(* ===== verification/Sql_Properties.thy ===== *)
theory Sql_Properties
  imports Sql_Store_Spec
begin

text \<open>
  The scan order of the SQL stores, two drivers that keep the contract (one that stores values as they are, one
  with instants in whole microseconds and documents in parsed form), and the properties.
\<close>

section \<open>The scan order\<close>

lemma limit_slice_map: "limit_slice n (map f xs) = map f (limit_slice n xs)"
  by (simp add: limit_slice_def take_map)

context sql_driver
begin

lemma active_order:
  assumes "portable_commitment str drv exact a" "portable_commitment str drv exact b"
    and "c_RiskScore a \<noteq> NaN" "c_RiskScore b \<noteq> NaN"
  shows "sqlite_active_before drv (commitment_row_of str drv a) (commitment_row_of str drv b) \<longleftrightarrow> scan_before a b"
proof -
  have e: "pred_option exact (c_DueAt a)" "pred_option exact (c_DueAt b)" "exact (c_CreatedAt a)" "exact (c_CreatedAt b)"
    using assms(1,2) by (simp_all add: portable_commitment_def)
  note r = real_order [OF assms(3,4)] real_order [OF assms(4,3)] and l = float_linear [OF assms(3,4)]
    and f = f_less_asym [of "c_RiskScore a" "c_RiskScore b"] f_less_asym [of "c_RiskScore b" "c_RiskScore a"]
  show ?thesis
    using e l f unfolding scan_before_def due_before_def
    by (cases "c_DueAt a"; cases "c_DueAt b")
      (auto simp: sqlite_active_before_def commitment_row_of_def put_null_time_def r time_order Let_def)
qed

lemma find_active:
  assumes "ctab.holds (db_commitments db) m" and "\<And>u c. m u = Some c \<Longrightarrow> c_RiskScore c \<noteq> NaN"
  shows "\<exists>cs out. distinct (map c_ID cs) \<and> (\<forall>u c. m u = Some c \<longleftrightarrow> c \<in> set cs \<and> c_ID c = u)
    \<and> sqlite_commitmentRepo_FindActive parse drv db n = Inr out
    \<and> top_rows scan_before n (filter (\<lambda>c. CommitmentStatus_IsActive (c_Status c)) cs) out"
proof -
  let ?enc = "commitment_row_of str drv" and ?act = "\<lambda>c :: Commitment. CommitmentStatus_IsActive (c_Status c)"
  obtain vs where vs: "db_commitments db = map ?enc vs" "distinct (map c_ID vs)" "list_all (portable_commitment str drv exact) vs"
      "m = ctab.lookup vs" using assms(1) unfolding ctab.holds_def by blast
  have dec: "\<forall>v \<in> set vs. sqlite_scanCommitment parse drv (?enc v) = Inr v" using vs(3) by (simp add: list_all_iff scan_commitment)
  let ?rows = "scan_commitments drv (db_commitments db)" let ?xs = "map (\<lambda>r. projr (sqlite_scanCommitment parse drv r)) ?rows"
  have rows: "mset ?rows = mset (map ?enc vs)" using scan_all vs(1) by (simp add: range_order_def)
  have "mset ?xs = mset (map (\<lambda>r. projr (sqlite_scanCommitment parse drv r)) (map ?enc vs))"
    by (rule perm_map [OF rows])
  also have "map (\<lambda>r. projr (sqlite_scanCommitment parse drv r)) (map ?enc vs) = vs" using dec by (simp add: map_idI)
  finally have xs: "mset ?xs = mset vs" .
  have "set ?rows = set (map ?enc vs)" using rows by (metis set_mset_mset)
  then have "map (\<lambda>r. ?enc (projr (sqlite_scanCommitment parse drv r))) ?rows = ?rows" using dec by (intro map_idI) auto
  then have again: "?rows = map ?enc ?xs" by (simp add: comp_def)
  have sx: "set ?xs = set vs" using xs by (metis set_mset_mset)
  have nan: "c_RiskScore v \<noteq> NaN" if "v \<in> set vs" for v
  proof -
    have "m (c_ID v) = Some v" using that ctab.lookup_iff [OF vs(2)] unfolding vs(4) by simp
    then show ?thesis by (rule assms(2))
  qed
  define ys where "ys = filter ?act ?xs"
  have sy: "set ys \<subseteq> set vs" using sx by (auto simp: ys_def)
  have sr: "sort_slice (sqlite_active_before drv) (map ?enc ys) = map ?enc (sort_slice scan_before ys)"
  proof -
    have "sort_slice (sqlite_active_before drv) (map ?enc ys) =
        map ?enc (sort_slice (\<lambda>a b. sqlite_active_before drv (?enc a) (?enc b)) ys)" by (rule sort_slice_map) simp
    also have "sort_slice (\<lambda>a b. sqlite_active_before drv (?enc a) (?enc b)) ys = sort_slice scan_before ys"
      using sy vs(3) nan by (intro sort_slice_cong ballI active_order) (auto simp: list_all_iff)
    finally show ?thesis .
  qed
  have q: "filter (\<lambda>r. list_all (\<lambda>c. c r) [\<lambda>r. rc_status r \<in> {''pending'', ''in_progress''}]) ?rows = map ?enc ys"
    unfolding ys_def by (subst again) (auto simp: filter_map comp_def commitment_row_of_def CommitmentStatus_IsActive_def
        CommitmentPending_def CommitmentInProgress_def intro!: arg_cong [where f = "map _"] filter_cong)
  let ?out = "limit_slice n (sort_slice scan_before ys)"
  have "try_map (sqlite_scanCommitment parse drv) (map ?enc ?out) = Inr ?out"
  proof -
    have "\<forall>c \<in> set ?out. sqlite_scanCommitment parse drv (?enc c) = Inr c" using sy dec set_limit_slice [of n "sort_slice scan_before ys"] by auto
    then show ?thesis using try_map_ok [of "map ?enc ?out" "sqlite_scanCommitment parse drv" "\<lambda>r. projr (sqlite_scanCommitment parse drv r)"]
      by (simp add: map_idI)
  qed
  then have f: "sqlite_commitmentRepo_FindActive parse drv db n = Inr ?out"
    unfolding sqlite_commitmentRepo_FindActive_def query_rows_def no_fault option.case q sr limit_slice_map sqlite_queryCommitments_def
    by (simp add: no_fault)
  have "\<forall>x \<in> set ys. c_RiskScore x \<noteq> NaN" using sy nan by auto
  then have "top_rows scan_before n ys ?out" by (rule scan.top_rows_sort)
  moreover have "mset ys = mset (filter ?act vs)" using xs unfolding ys_def by (metis mset_filter)
  ultimately have "top_rows scan_before n (filter ?act vs) ?out" using top_rows_mset by blast
  moreover have "\<forall>u c. m u = Some c \<longleftrightarrow> c \<in> set vs \<and> c_ID c = u"
    using ctab.lookup_iff [OF vs(2)] unfolding vs(4) by blast
  ultimately show ?thesis using vs(2) f by blast
qed

end


section \<open>Two drivers\<close>

text \<open>Reading the canonical text of an identifier.\<close>

definition canonical_parse :: "string \<Rightarrow> error + uuid" where
  "canonical_parse s = (let ds = map hex_val (filter (\<lambda>c. c \<noteq> CHR ''-'') s) in
     if None \<in> set ds then Inl (ErrPlain ''invalid UUID format'')
     else Inr (of_nat (foldl (\<lambda>n d. n * 16 + the d) 0 ds)))"

lemma hex_char_no_dash: "d < 16 \<Longrightarrow> hex_char d \<noteq> CHR ''-''"
  using hex_val_hex_char [of d] by (auto simp: hex_val_def)

lemma hexes_filter: "filter (\<lambda>c. c \<noteq> CHR ''-'') (hexes u is) = hexes u is"
  by (simp add: hexes_def hex_char_no_dash)

lemma hexes_values: "map hex_val (hexes u is) = map (\<lambda>i. Some (unat u div 16 ^ i mod 16)) is"
  by (simp add: hexes_def hex_val_hex_char)

lemma foldl_digits:
  "foldl (\<lambda>n d. n * 16 + the d) acc (map (\<lambda>i. Some (x div 16 ^ i mod 16)) (rev [0..<n])) = acc * 16 ^ n + x mod (16 :: nat) ^ n"
proof (induction n arbitrary: acc)
  case (Suc n)
  have "x mod (16 ^ n * 16) = 16 ^ n * (x div 16 ^ n mod 16) + x mod 16 ^ n" by (rule mod_mult2_eq)
  then show ?case using Suc [of "acc * 16 + x div 16 ^ n mod 16"] by (simp add: algebra_simps)
qed simp

lemma canonical_digits: "filter (\<lambda>c. c \<noteq> CHR ''-'') (canonical_text u) = hexes u (rev [0..<32])"
proof -
  have r: "rev [0..<32] = rev [24..<32] @ rev [20..<24] @ rev [16..<20] @ rev [12..<16] @ rev [0..<12]"
    by (simp add: upt_conv_Cons)
  show ?thesis unfolding r by (simp add: canonical_text_def hexes_filter) (simp add: hexes_def)
qed

lemma canonical_parse_text: "canonical_parse (canonical_text u) = Inr u"
proof -
  have "unat u < 16 ^ 32" using unsigned_less [of u] by simp
  then have "unat u mod 16 ^ 32 = unat u" by (rule mod_less)
  then have "foldl (\<lambda>n d. n * 16 + the d) 0 (map hex_val (hexes u (rev [0..<32]))) = unat u"
    using foldl_digits [of 0 "unat u" 32] by (simp add: hexes_values)
  moreover have "None \<notin> set (map hex_val (hexes u (rev [0..<32])))" by (auto simp: hexes_values)
  ultimately show ?thesis by (simp add: canonical_parse_def canonical_digits Let_def)
qed

interpretation plain: sql_driver canonical_text canonical_parse plain_driver "\<lambda>_. True"
proof unfold_locales
  show "\<exists>w. json_Unmarshal (get_json plain_driver (put_json plain_driver (json_Marshal v))) = Some w \<and> json_same v w"
    if "json_ok v" "json_depth v \<le> max_depth" "sane v = v" for v
    using json_roundtrip [OF that(1,2)] that(3) by (simp add: plain_driver_def json_same_refl)
qed (simp_all add: plain_driver_def canonical_parse_text)

text \<open>
  A driver like that of PostgreSQL: instants are kept in microseconds, a document is kept parsed and printed again,
  a text with a zero byte and an integer beyond 32 bits are refused.
\<close>

definition jsonb_driver :: "(string, json, int) driver" where
  "jsonb_driver = \<lparr>put_time = (\<lambda>t. t div 1000), get_time = (\<lambda>u. Inr (u * 1000)), time_before = (<),
     put_json = (\<lambda>s. case json_Unmarshal s of Some v \<Rightarrow> v | None \<Rightarrow> JNull), get_json = json_Marshal,
     takes = (\<lambda>c. case c of ColText s \<Rightarrow> CHR 0x00 \<notin> set s | ColInt i \<Rightarrow> - (2 ^ 31) \<le> i \<and> i < 2 ^ 31 | _ \<Rightarrow> True),
     real_before = (\<lambda>x y. if x = NaN then False else if y = NaN then True else x < y), foreign_keys = True,
     engine_error = (\<lambda>r. ErrPlain ''pq: error''), exec_fault = (\<lambda>_. None), rows_fault = (\<lambda>_. None),
     query_fault = (\<lambda>_. None), iter_fault = (\<lambda>_. None), scan_goals = (\<lambda>rs. rs), scan_commitments = rev,
     scan_tasks = (\<lambda>rs. rs), scan_decisions = (\<lambda>rs. rs), scan_interventions = (\<lambda>rs. rs)\<rparr>"

interpretation jsonb: sql_driver canonical_text canonical_parse jsonb_driver "\<lambda>t. t mod 1000 = 0"
proof -
  have whole: "a = a div 1000 * 1000" if "a mod 1000 = 0" for a :: int using that div_mult_mod_eq [of a 1000] by simp
  show "sql_driver canonical_text canonical_parse jsonb_driver (\<lambda>t. t mod 1000 = 0)"
  proof unfold_locales
  show "\<exists>w. json_Unmarshal (get_json jsonb_driver (put_json jsonb_driver (json_Marshal v))) = Some w \<and> json_same v w"
    if "json_ok v" "json_depth v \<le> max_depth" "sane v = v" for v
    using json_roundtrip [OF that(1,2)] that(3) by (simp add: jsonb_driver_def json_same_refl)
  show "time_before jsonb_driver (put_time jsonb_driver a) (put_time jsonb_driver b) \<longleftrightarrow> a < b"
    if "a mod 1000 = 0" "b mod 1000 = 0" for a b
    using whole [OF that(1)] whole [OF that(2)] by (simp only: jsonb_driver_def driver.simps) linarith
  show "get_time jsonb_driver (put_time jsonb_driver t) = Inr t" if "t mod 1000 = 0" for t
    using whole [OF that] by (simp only: jsonb_driver_def driver.simps)
  qed (simp_all add: jsonb_driver_def canonical_parse_text)
qed

text \<open>With a printer of numbers each driver gives the whole store.\<close>

interpretation plain_store: sql_store canonical_text canonical_parse plain_driver "\<lambda>_. True" "\<lambda>_. ''0''"
  by unfold_locales

interpretation jsonb_store: sql_store canonical_text canonical_parse jsonb_driver "\<lambda>t. t mod 1000 = 0" "\<lambda>_. ''0''"
  by unfold_locales


section \<open>Properties\<close>

text \<open>
  (C12) The SQL store implements five maps. After any sequence of writes of values the engine keeps, refused ones
  included, on a new database, its readers see exactly what the specification holds: an upsert of a commitment or a
  task keeps its creation time, of a goal also its owner, of an intervention its references and its trigger time, a
  decision once written is never changed, and where foreign keys are enforced a task or an intervention whose
  references do not exist is refused. It holds for every driver that keeps the contract, so for both backends.
\<close>

theorem sql_store_refines_maps:
  assumes "sql_driver str parse drv exact" and "list_all (portable_op str fmt drv exact) ops"
  shows "sql_view str parse drv (foldl (sqlite_op str fmt drv) empty_db ops) = foldl (sql_spec_op (foreign_keys drv)) empty_spec ops"
proof -
  have s: "sql_store str parse drv exact" using assms(1) by (rule sql_store.intro)
  show ?thesis by (rule sql_store.view_holds [OF s sql_store.steps [OF s sql_store.holds_db_empty [OF s] assms(2)]])
qed

text \<open>A decision, an intervention on a stored commitment and one on a missing commitment.\<close>

definition stored_intervention :: Intervention where
  "stored_intervention = \<lparr>iv_ID = 21, iv_CommitmentID = Some 7, iv_TaskID = None, iv_Type = InterventionNudge, iv_Message = ''due soon'',
     iv_SuggestedAction = None, iv_Status = InterventionPending, iv_TriggeredAt = 5000, iv_ResolvedAt = None\<rparr>"

definition stored_commitment :: Commitment where
  "stored_commitment = \<lparr>c_ID = 7, c_OwnerID = ''u1'', c_Description = ''send report'', c_SourceRefs = [\<lparr>sr_Kind = ''slack'', sr_Locator = ''m1''\<rparr>],
     c_Entities = [], c_DueAt = Some 9000, c_Status = CommitmentPending, c_Confidence = 1, c_RiskScore = 0,
     c_LastEvaluatedAt = None, c_CreatedAt = 1000, c_UpdatedAt = 1000\<rparr>"

definition stored_ops :: "store_op list" where
  "stored_ops = [OpSaveCommitment stored_commitment, OpSaveCommitment (stored_commitment\<lparr>c_Description := ''sent'', c_CreatedAt := 3000\<rparr>),
     OpSaveIntervention stored_intervention, OpSaveIntervention (stored_intervention\<lparr>iv_ID := 22, iv_CommitmentID := Some 8\<rparr>)]"

lemma canonical_no_zero: "CHR 0x00 \<notin> set (canonical_text u)"
proof -
  have "hex_char d \<noteq> CHR 0x00" if "d < 16" for d using hex_val_hex_char [OF that] by (auto simp: hex_val_def)
  then have "CHR 0x00 \<noteq> hex_char (x mod 16)" for x by (metis mod_less_divisor zero_less_numeral)
  then have "CHR 0x00 \<notin> set (hexes u is)" for "is" by (auto simp: hexes_def)
  then show ?thesis by (simp add: canonical_text_def)
qed

lemma stored_portable: "list_all (portable_op canonical_text fmt jsonb_driver (\<lambda>t. t mod 1000 = 0)) stored_ops"
  by (simp add: stored_ops_def stored_commitment_def stored_intervention_def portable_commitment_def portable_intervention_def
      commitment_cols_def intervention_cols_def jsonb_driver_def canonical_no_zero ref_ok_def valid_ascii status_defs)

lemma stored_valid:
  "Commitment_Validate stored_commitment = None"
  "Commitment_Validate (stored_commitment\<lparr>c_Description := ''sent'', c_CreatedAt := 3000\<rparr>) = None"
  "Intervention_Validate stored_intervention = None"
  "Intervention_Validate (stored_intervention\<lparr>iv_ID := 22, iv_CommitmentID := Some 8\<rparr>) = None"
  by (simp_all add: stored_commitment_def stored_intervention_def Commitment_Validate_def Intervention_Validate_def uuid_Nil_def
      out_of_unit_def zero_float64_def one_float64_def CommitmentStatus_Valid_def InterventionType_Valid_def
      InterventionStatus_Valid_def)

theorem sql_store_refines_maps_witness:
  "sql_view canonical_text canonical_parse jsonb_driver (foldl (sqlite_op canonical_text (\<lambda>_. ''0'') jsonb_driver) empty_db stored_ops) =
     empty_spec\<lparr>sp_c := [7 \<mapsto> stored_commitment\<lparr>c_Description := ''sent''\<rparr>], sp_i := [21 \<mapsto> stored_intervention]\<rparr>"
proof -
  have "foldl (sql_spec_op True) empty_spec stored_ops =
      empty_spec\<lparr>sp_c := [7 \<mapsto> stored_commitment\<lparr>c_Description := ''sent''\<rparr>], sp_i := [21 \<mapsto> stored_intervention]\<rparr>"
    using stored_valid
    by (simp add: stored_ops_def keeping_def intervention_links_def linked_def written_def empty_spec_def keep_commitment_def Let_def)
      (simp add: stored_commitment_def stored_intervention_def)
  then show ?thesis
    using sql_store_refines_maps [OF jsonb.sql_driver_axioms stored_portable, of "\<lambda>_. ''0''"] by (simp add: jsonb_driver_def)
qed

text \<open>
  \<^verbatim>\<open>FindActive\<close> of a SQL store returns the active backlog in the scan order the worker relies on, cut to the limit:
  after any sequence of writes of values the engine keeps it is the first rows of that order among the pending and
  in-progress commitments of the specification, as long as no score is NaN; the memory store gives the same order.
\<close>

lemma sql_find_active_scan_order:
  assumes "sql_driver str parse drv exact" and "list_all (portable_op str fmt drv exact) ops"
    and "\<forall>u c. sp_c (foldl (sql_spec_op (foreign_keys drv)) empty_spec ops) u = Some c \<longrightarrow> c_RiskScore c \<noteq> NaN"
  shows "\<exists>cs out. distinct (map c_ID cs)
    \<and> (\<forall>u c. sp_c (foldl (sql_spec_op (foreign_keys drv)) empty_spec ops) u = Some c \<longleftrightarrow> c \<in> set cs \<and> c_ID c = u)
    \<and> sqlite_commitmentRepo_FindActive parse drv (foldl (sqlite_op str fmt drv) empty_db ops) n = Inr out
    \<and> top_rows scan_before n (filter (\<lambda>c. CommitmentStatus_IsActive (c_Status c)) cs) out"
proof -
  have s: "sql_store str parse drv exact" using assms(1) by (rule sql_store.intro)
  have "sql_table.holds (commitment_row_of str drv) c_ID (portable_commitment str drv exact)
      (db_commitments (foldl (sqlite_op str fmt drv) empty_db ops)) (sp_c (foldl (sql_spec_op (foreign_keys drv)) empty_spec ops))"
    using sql_store.steps [OF s sql_store.holds_db_empty [OF s] assms(2)] by (simp add: sql_store.holds_db_def [OF s])
  then show ?thesis using assms(3) by (intro sql_driver.find_active [OF assms(1)]) auto
qed

text \<open>A statement that does nothing on a conflict leaves the row of every key that is there.\<close>

lemma find_do_nothing:
  assumes "find (\<lambda>r. key r = k) tbl = Some r"
  shows "find (\<lambda>r. key r = k) (upsert_row key do_nothing row tbl) = Some r"
proof -
  have "find (\<lambda>r. key r = k) (tbl @ [row]) = Some r" using assms by (induction tbl) auto
  moreover have "map (\<lambda>r. if key r = key row then do_nothing r row else r) tbl = tbl" unfolding do_nothing_def by (rule map_idI) simp
  ultimately show ?thesis using assms by (simp add: upsert_row_def del: map_eq_conv)
qed

lemma exec_do_nothing:
  assumes "exec_upsert drv db cols fks key do_nothing row tbl = Inr rows" and "find (\<lambda>r. key r = k) tbl = Some r"
  shows "find (\<lambda>r. key r = k) rows = Some r"
proof -
  have "rows = upsert_row key do_nothing row tbl" using assms(1) by (simp add: exec_upsert_def Let_def split: option.splits if_splits)
  with assms(2) find_do_nothing show ?thesis by metis
qed

abbreviation decision_row_at :: "(string, 'j, 't) db \<Rightarrow> string \<Rightarrow> (string, 'j, 't) decision_row option" where
  "decision_row_at db k \<equiv> find (\<lambda>r. rd_id r = k) (db_decisions db)"

text \<open>A save fails and leaves the database, or goes on.\<close>

lemma fails_or:
  "P db \<Longrightarrow> P (snd f) \<Longrightarrow> P (snd (case x of None \<Rightarrow> f | Some err \<Rightarrow> (g err, db)))"
  "P db \<Longrightarrow> (\<And>y. z = Inr y \<Longrightarrow> P (snd (h y))) \<Longrightarrow> P (snd (case z of Inl err \<Rightarrow> (g err, db) | Inr y \<Rightarrow> h y))"
  by (cases x; simp) (cases z; simp)

lemma op_keeps_decision:
  assumes "decision_row_at db k = Some r"
  shows "decision_row_at (sqlite_op str fmt drv db op) k = Some r"
proof -
  note keep = fails_or [where P = "\<lambda>db. decision_row_at db k = Some r"]
  show ?thesis
  proof (cases op)
    case (OpSaveDecision d)
    show ?thesis unfolding OpSaveDecision sqlite_op.simps sqlite_decisionRepo_Save_def
      by (intro keep assms) (simp add: exec_do_nothing [OF _ assms])
  next
    case (OpUpdateRisk c score ts)
    have "db_decisions (snd (sqlite_commitmentRepo_UpdateRisk str drv db c score ts)) = db_decisions db"
      by (simp add: sqlite_commitmentRepo_UpdateRisk_def Let_def split: option.split)
    with OpUpdateRisk assms show ?thesis by simp
  qed (simp_all only: sqlite_op.simps sqlite_commitmentRepo_Save_def sqlite_interventionRepo_Save_def sqlite_goalRepo_Save_def
      sqlite_taskRepo_Save_def, (intro keep assms, (auto simp: assms split: sum.split option.split)[1])+)
qed

lemma ops_keep_decision:
  "decision_row_at db k = Some r \<Longrightarrow> decision_row_at (foldl (sqlite_op str fmt drv) db ops) k = Some r"
  by (induction ops arbitrary: db) (simp_all add: op_keeps_decision)

lemma Get_decision_row:
  "sqlite_decisionRepo_Get str parse drv db k = Inr d \<longleftrightarrow>
     query_fault drv db = None \<and> (\<exists>r. decision_row_at db (str k) = Some r \<and> sqlite_scanDecision parse drv r = Inr d)"
  by (auto simp: sqlite_decisionRepo_Get_def query_row_def try_bind_def split: option.splits sum.splits)

lemma agree_Inr: "agree a b \<Longrightarrow> a = Inr x \<longleftrightarrow> b = Inr x"
  by (cases a; cases b) (auto simp: agree_def)

text \<open>The writes of the PostgreSQL store.\<close>

fun postgres_op ::
  "(uuid \<Rightarrow> string) \<Rightarrow> (float64 \<Rightarrow> string) \<Rightarrow> (string, 'j, 't) driver \<Rightarrow> (string, 'j, 't) db \<Rightarrow> store_op \<Rightarrow> (string, 'j, 't) db" where
  "postgres_op str fmt drv db (OpSaveCommitment c) = snd (postgres_commitmentRepo_Save str drv db c)"
| "postgres_op str fmt drv db (OpSaveDecision d) = snd (postgres_decisionRepo_Save str fmt drv db d)"
| "postgres_op str fmt drv db (OpSaveIntervention iv) = snd (postgres_interventionRepo_Save str fmt drv db iv)"
| "postgres_op str fmt drv db (OpSaveGoal g) = snd (postgres_goalRepo_Save str drv db g)"
| "postgres_op str fmt drv db (OpSaveTask t) = snd (postgres_taskRepo_Save str drv db t)"
| "postgres_op str fmt drv db (OpUpdateRisk k score ts) = snd (postgres_commitmentRepo_UpdateRisk str drv db k score ts)"

lemma postgres_op_agrees: "postgres_op str fmt drv = sqlite_op str fmt drv"
proof (intro ext)
  show "postgres_op str fmt drv db op = sqlite_op str fmt drv db op" for db op
    by (cases op) (simp_all add: commitment_save_agree update_risk_agree decision_save_agree intervention_save_agree
        goal_save_agree task_save_agree)
qed

text \<open>
  (C28) The audit trail of a SQL store is append-only, on SQLite and on PostgreSQL, over any driver and in any state of the
  database: a decision that has been read once is read the same after any further writes, those that fail or that save
  another decision under its identifier included, whenever the query itself does not fail.
\<close>

theorem sql_decisions_append_only:
  assumes "sqlite_decisionRepo_Get str parse drv db k = Inr d \<or> postgres_decisionRepo_Get str parse drv db k = Inr d"
  shows "(query_fault drv (foldl (sqlite_op str fmt drv) db ops) = None \<longrightarrow>
        sqlite_decisionRepo_Get str parse drv (foldl (sqlite_op str fmt drv) db ops) k = Inr d)
    \<and> (query_fault drv (foldl (postgres_op str fmt drv) db ops) = None \<longrightarrow>
        postgres_decisionRepo_Get str parse drv (foldl (postgres_op str fmt drv) db ops) k = Inr d)"
proof -
  have "sqlite_decisionRepo_Get str parse drv db k = Inr d" using assms by (simp add: agree_Inr [OF get_agree(2)])
  then obtain r where "decision_row_at db (str k) = Some r" "sqlite_scanDecision parse drv r = Inr d"
    by (auto simp: Get_decision_row)
  with ops_keep_decision show ?thesis
    unfolding postgres_op_agrees agree_Inr [OF get_agree(2)] Get_decision_row by blast
qed

definition stored_decision :: Decision where
  "stored_decision = \<lparr>d_ID = 31, d_Subject = ''commitment.evaluate'', d_ContextRefs = [], d_Inputs = Some [(''k'', VString ''v'')],
     d_Weights = None, d_Outcome = None, d_Reason = ''first'', d_Confidence = 1, d_CreatedAt = 0\<rparr>"

lemma stored_decision_ok:
  "list_all (portable_op canonical_text (\<lambda>_. ''0'') plain_driver (\<lambda>_. True))
     ([OpSaveDecision stored_decision] @ [OpSaveDecision (stored_decision\<lparr>d_Reason := ''second''\<rparr>)])"
  "Decision_Validate stored_decision = None" "Decision_Validate (stored_decision\<lparr>d_Reason := ''second''\<rparr>) = None"
proof -
  have "map_ok (\<lambda>_. ''0'') (Some [(''k'', VString ''v'')])"
    by (simp add: map_ok_def valid_ascii canon_map_def sort_slice_def max_depth_def)
  then show "list_all (portable_op canonical_text (\<lambda>_. ''0'') plain_driver (\<lambda>_. True))
     ([OpSaveDecision stored_decision] @ [OpSaveDecision (stored_decision\<lparr>d_Reason := ''second''\<rparr>)])"
    by (simp add: stored_decision_def portable_decision_def map_ok_def weights_ok_def decision_cols_def plain_driver_def one_float64_def
        del: any_ok.simps any_json.simps encodable.simps)
qed (simp_all add: stored_decision_def Decision_Validate_None uuid_Nil_def out_of_unit_def zero_float64_def one_float64_def)

theorem sql_decisions_append_only_witness:
  "\<exists>d. canon_decision d = stored_decision
     \<and> sqlite_decisionRepo_Get canonical_text canonical_parse plain_driver
       (foldl (sqlite_op canonical_text (\<lambda>_. ''0'') plain_driver)
         (sqlite_op canonical_text (\<lambda>_. ''0'') plain_driver empty_db (OpSaveDecision stored_decision))
         [OpSaveDecision (stored_decision\<lparr>d_Reason := ''second''\<rparr>)]) 31 = Inr d"
proof -
  let ?db = "sqlite_op canonical_text (\<lambda>_. ''0'') plain_driver empty_db (OpSaveDecision stored_decision)"
  have "sql_view canonical_text canonical_parse plain_driver (foldl (sqlite_op canonical_text (\<lambda>_. ''0'') plain_driver) empty_db
      [OpSaveDecision stored_decision]) = foldl (sql_spec_op (foreign_keys plain_driver)) empty_spec [OpSaveDecision stored_decision]"
    by (rule plain_store.view_holds [OF plain_store.steps [OF plain_store.holds_db_empty]]) (use stored_decision_ok(1) in simp)
  then have "sp_d (sql_view canonical_text canonical_parse plain_driver ?db) 31 = Some stored_decision"
    using stored_decision_ok(2) by (simp add: keeping_def empty_spec_def) (simp add: stored_decision_def)
  then obtain d where d: "canon_decision d = stored_decision"
    "sqlite_decisionRepo_Get canonical_text canonical_parse plain_driver ?db 31 = Inr d"
    by (auto simp: sql_view_def split: sum.splits)
  have "query_fault plain_driver db = None" for db by (simp add: plain_driver_def)
  with sql_decisions_append_only [OF disjI1, OF d(2)] d(1) show ?thesis by blast
qed

text \<open>The memory store replaces a decision instead.\<close>

lemma memory_decision_replaced:
  "sp_d (abs_store canonical_text (foldl (memory_op canonical_text) memory_empty
     [OpSaveDecision stored_decision, OpSaveDecision (stored_decision\<lparr>d_Reason := ''second''\<rparr>)])) 31
   = Some (stored_decision\<lparr>d_Reason := ''second''\<rparr>)"
  unfolding canonical.memory_ops_refine abs_store_empty using stored_decision_ok(2,3)
  by (simp add: upsert_def empty_spec_def) (simp add: stored_decision_def)

end
