(* ===== verification/Mcp_Server.thy ===== *)
theory Mcp_Server
  imports Nous_Main Sql_Json_Laws
begin

text \<open>
  \<^verbatim>\<open>cmd/nous/mcp.go\<close>: the tools of the MCP server, each one HTTP round trip to a running server. The HTTP
  client is a parameter whose calls may change the state of the far end; the MCP library decodes the input of
  a tool and calls its handler. The second part closes the loop: a client that hands every request to a handler
  of this program, through the escaping of \<^verbatim>\<open>net/url\<close> and the JSON texts on the wire.
\<close>

section \<open>Inputs and outputs\<close>

record mcpExtractSource =
  ms_Kind :: string
  ms_Locator :: string

record mcpExtractInput =
  mi_OwnerID :: string
  mi_Text :: string
  mi_Hints :: "string list"
  mi_SourceRefs :: "mcpExtractSource list"

record mcpExtractOutput =
  mo_Considered :: int
  mo_SavedIDs :: "string list"
  mo_Dropped :: int
  mo_DecisionID :: string

record mcpEvaluateOutput =
  me_Evaluated :: int
  me_Updated :: int
  me_InterventionIDs :: "string list"
  me_DecisionIDs :: "string list"

record mcpListInterventionsInput =
  mli_Status :: string
  mli_Limit :: int

record mcpListInterventionsOutput =
  mlo_Interventions :: "anymap option list"
  mlo_Count :: int

record mcpListDecisionsInput =
  mdi_Subject :: string
  mdi_ID :: string
  mdi_Limit :: int

record mcpListDecisionsOutput =
  mdo_Decisions :: "anymap option list"
  mdo_Count :: int

text \<open>Decoding into an int field: only integer literals within 64 bits.\<close>

definition int_field :: "string \<Rightarrow> (string \<times> json) list \<Rightarrow> int \<times> bool" where
  "int_field name ms = foldl (\<lambda>(i, ok) v. case v of
       JNumber n \<Rightarrow> (case Atoi n of Some x \<Rightarrow> (x, ok) | None \<Rightarrow> (i, False))
     | JNull \<Rightarrow> (i, ok) | _ \<Rightarrow> (i, False)) (0, True) (field_values name ms)"

definition decode_mcpExtractOutput :: "json \<Rightarrow> mcpExtractOutput \<times> bool" where
  "decode_mcpExtractOutput v = (case members_of v of (ms, ok) \<Rightarrow>
     (case (int_field ''considered'' ms, list_field decode_string ''saved_ids'' ms, int_field ''dropped'' ms,
            string_field ''decision_id'' ms) of
        ((c, k1), (s, k2), (d, k3), (i, k4)) \<Rightarrow>
          (\<lparr>mo_Considered = c, mo_SavedIDs = s, mo_Dropped = d, mo_DecisionID = i\<rparr>, ok \<and> k1 \<and> k2 \<and> k3 \<and> k4)))"

definition decode_mcpEvaluateOutput :: "json \<Rightarrow> mcpEvaluateOutput \<times> bool" where
  "decode_mcpEvaluateOutput v = (case members_of v of (ms, ok) \<Rightarrow>
     (case (int_field ''evaluated'' ms, int_field ''updated'' ms, list_field decode_string ''intervention_ids'' ms,
            list_field decode_string ''decision_ids'' ms) of
        ((e, k1), (u, k2), (i, k3), (d, k4)) \<Rightarrow>
          (\<lparr>me_Evaluated = e, me_Updated = u, me_InterventionIDs = i, me_DecisionIDs = d\<rparr>, ok \<and> k1 \<and> k2 \<and> k3 \<and> k4)))"


section \<open>One round trip\<close>

record mcp_message =
  mm_Method :: string
  mm_URL :: string
  mm_Header :: "(string \<times> string) list"
  mm_Body :: "string option"

text \<open>
  \<^verbatim>\<open>http.NewRequest\<close> may refuse a method or an address; \<^verbatim>\<open>Do\<close> answers a status and the bytes that could
  be read of the body, since the error of \<^verbatim>\<open>io.ReadAll\<close> is dropped.
\<close>

record 'w mcp_client =
  mc_NewRequest :: "string \<Rightarrow> string \<Rightarrow> error option"
  mc_Do :: "mcp_message \<Rightarrow> 'w \<Rightarrow> (error + int \<times> string) \<times> 'w"

definition mcp_headers :: "string \<Rightarrow> string option \<Rightarrow> (string \<times> string) list" where
  "mcp_headers token body =
     (if body \<noteq> None then [(''Content-Type'', ''application/json'')] else []) @ [(''Accept'', ''application/json'')] @
     (if token \<noteq> [] then [(''Authorization'', ''Bearer '' @ token)] else [])"

text \<open>
  Every caller passes a destination; \<open>zero\<close> is its value before decoding, \<open>bad\<close> the error of the JSON
  library for a text. A type error is reported after the rest has been decoded.
\<close>

definition mcpHTTP ::
  "(string \<Rightarrow> error) \<Rightarrow> 'w mcp_client \<Rightarrow> string \<Rightarrow> string \<Rightarrow> string \<Rightarrow> string option \<Rightarrow>
   'a \<Rightarrow> (json \<Rightarrow> 'a \<times> bool) \<Rightarrow> 'w \<Rightarrow> (error + 'a) \<times> 'w" where
  "mcpHTTP bad hc meth u token body zero decode w = (case mc_NewRequest hc meth u of
       Some err \<Rightarrow> (Inl err, w)
     | None \<Rightarrow> (case mc_Do hc \<lparr>mm_Method = meth, mm_URL = u, mm_Header = mcp_headers token body, mm_Body = body\<rparr> w of
         (Inl err, w) \<Rightarrow> (Inl (ErrWrap (''nous mcp: http '' @ meth @ '' '' @ u) err), w)
       | (Inr (status, raw), w) \<Rightarrow>
          if trunc_quot status 100 \<noteq> 2
          then (Inl (ErrPlain (''nous mcp: '' @ meth @ '' '' @ u @ '' -> '' @ fmt_d status @ '': '' @ TrimSpace raw)), w)
          else if raw = [] then (Inr zero, w)
          else (case json_Unmarshal raw of
              None \<Rightarrow> (Inl (ErrWrap (''nous mcp: decode '' @ u @ '' response'') (bad raw)), w)
            | Some v \<Rightarrow> (case decode v of (x, ok) \<Rightarrow>
                if ok then (Inr x, w) else (Inl (ErrWrap (''nous mcp: decode '' @ u @ '' response'') (bad raw)), w)))))"


section \<open>Tools\<close>

definition envOr :: "(string \<Rightarrow> string) \<Rightarrow> string \<Rightarrow> string \<Rightarrow> string" where
  "envOr env k dflt = (if env k \<noteq> [] then env k else dflt)"

record mcp_config =
  mx_base :: string
  mx_token :: string

definition mcp_settings :: "(string \<Rightarrow> string) \<Rightarrow> mcp_config" where
  "mcp_settings env = \<lparr>mx_base = envOr env ''NOUS_HTTP_URL'' ''http://localhost:8080'', mx_token = env ''NOUS_AUTH_TOKEN''\<rparr>"

definition mcp_source_json :: "mcpExtractSource \<Rightarrow> json" where
  "mcp_source_json s = JObject [(''kind'', JString (ms_Kind s)), (''locator'', JString (ms_Locator s))]"

definition mcp_extract_body :: "mcpExtractInput \<Rightarrow> json" where
  "mcp_extract_body i = JObject (sort_members
     [(''owner_id'', JString (mi_OwnerID i)), (''text'', JString (mi_Text i)),
      (''hints'', slice_json JString (mi_Hints i)), (''source_refs'', slice_json mcp_source_json (mi_SourceRefs i))])"

definition nous_extract ::
  "(string \<Rightarrow> error) \<Rightarrow> 'w mcp_client \<Rightarrow> mcp_config \<Rightarrow> mcpExtractInput \<Rightarrow> 'w \<Rightarrow> (error + mcpExtractOutput) \<times> 'w" where
  "nous_extract bad hc cfg i w =
     mcpHTTP bad hc ''POST'' (mx_base cfg @ ''/v1/extract'') (mx_token cfg) (Some (json_Marshal (mcp_extract_body i)))
       \<lparr>mo_Considered = 0, mo_SavedIDs = [], mo_Dropped = 0, mo_DecisionID = []\<rparr> decode_mcpExtractOutput w"

definition nous_evaluate ::
  "(string \<Rightarrow> error) \<Rightarrow> 'w mcp_client \<Rightarrow> mcp_config \<Rightarrow> 'w \<Rightarrow> (error + mcpEvaluateOutput) \<times> 'w" where
  "nous_evaluate bad hc cfg w =
     mcpHTTP bad hc ''POST'' (mx_base cfg @ ''/v1/evaluate'') (mx_token cfg) None
       \<lparr>me_Evaluated = 0, me_Updated = 0, me_InterventionIDs = [], me_DecisionIDs = []\<rparr> decode_mcpEvaluateOutput w"

text \<open>\<^verbatim>\<open>url.Values.Encode\<close> on values with one entry per key.\<close>

definition values_pair :: "string \<times> string \<Rightarrow> string" where
  "values_pair kv = QueryEscape (fst kv) @ ''='' @ QueryEscape (snd kv)"

fun join_amp :: "string list \<Rightarrow> string" where
  "join_amp [] = []"
| "join_amp [s] = s"
| "join_amp (s # ss) = s @ ''&'' @ join_amp ss"

definition values_Encode :: "(string \<times> string) list \<Rightarrow> string" where
  "values_Encode q = join_amp (map values_pair (sort_members q))"

definition with_query :: "string \<Rightarrow> (string \<times> string) list \<Rightarrow> string" where
  "with_query u q = (if q \<noteq> [] then u @ ''?'' @ values_Encode q else u)"

text \<open>Decoding into a slice of maps, and into one map.\<close>

abbreviation decode_maps :: "json \<Rightarrow> anymap option list \<times> bool" where
  "decode_maps \<equiv> decode_list (decode_anymap None)"

definition nous_list_interventions ::
  "(string \<Rightarrow> error) \<Rightarrow> 'w mcp_client \<Rightarrow> mcp_config \<Rightarrow> mcpListInterventionsInput \<Rightarrow> 'w \<Rightarrow>
   (error + mcpListInterventionsOutput) \<times> 'w" where
  "nous_list_interventions bad hc cfg i w =
    (let q = (if mli_Status i \<noteq> [] then [(''status'', mli_Status i)] else []) @
             (if 0 < mli_Limit i then [(''limit'', fmt_d (mli_Limit i))] else []);
         u = with_query (mx_base cfg @ ''/v1/interventions'') q
     in case mcpHTTP bad hc ''GET'' u (mx_token cfg) None [] decode_maps w of
          (Inl err, w) \<Rightarrow> (Inl err, w)
        | (Inr raw, w) \<Rightarrow> (Inr \<lparr>mlo_Interventions = raw, mlo_Count = int (length raw)\<rparr>, w))"

definition nous_list_decisions ::
  "(string \<Rightarrow> error) \<Rightarrow> 'w mcp_client \<Rightarrow> mcp_config \<Rightarrow> mcpListDecisionsInput \<Rightarrow> 'w \<Rightarrow>
   (error + mcpListDecisionsOutput) \<times> 'w" where
  "nous_list_decisions bad hc cfg i w =
    (if mdi_ID i \<noteq> [] then
       (case mcpHTTP bad hc ''GET'' (mx_base cfg @ ''/v1/decisions/'' @ PathEscape (mdi_ID i)) (mx_token cfg) None
               None (decode_anymap None) w of
          (Inl err, w) \<Rightarrow> (Inl err, w)
        | (Inr raw, w) \<Rightarrow> (Inr \<lparr>mdo_Decisions = [raw], mdo_Count = 1\<rparr>, w))
     else
      let q = (if mdi_Subject i \<noteq> [] then [(''subject'', mdi_Subject i)] else []) @
              (if 0 < mdi_Limit i then [(''limit'', fmt_d (mdi_Limit i))] else []);
          u = with_query (mx_base cfg @ ''/v1/decisions'') q
      in case mcpHTTP bad hc ''GET'' u (mx_token cfg) None [] decode_maps w of
           (Inl err, w) \<Rightarrow> (Inl err, w)
         | (Inr raw, w) \<Rightarrow> (Inr \<lparr>mdo_Decisions = raw, mdo_Count = int (length raw)\<rparr>, w))"


section \<open>The wire\<close>

text \<open>
  What \<^verbatim>\<open>net/http\<close> does between the client and a handler at the address \<open>base\<close>: the path up to the
  question mark, the query parsed by \<^verbatim>\<open>url.ParseQuery\<close> (entries that do not decode are dropped), the body
  as bytes, and the JSON of a response followed by a line end. Redirects are not followed.
\<close>

function QueryUnescape :: "string \<Rightarrow> string option" where
  "QueryUnescape [] = Some []"
| "QueryUnescape (c # s) =
    (if c = CHR ''%'' then (case hex_pair s of Some (d, r) \<Rightarrow> map_option ((#) d) (QueryUnescape r) | None \<Rightarrow> None)
     else map_option ((#) (if c = CHR ''+'' then CHR '' '' else c)) (QueryUnescape s))"
  by pat_completeness auto
termination
  by (relation "measure length") (auto dest: hex_pair_shorter)

definition parse_pair :: "string \<Rightarrow> (string \<times> string) option" where
  "parse_pair kv = (if kv = [] \<or> CHR '';'' \<in> set kv then None
     else case (QueryUnescape (takeWhile (\<lambda>c. c \<noteq> CHR ''='') kv), QueryUnescape (tl (dropWhile (\<lambda>c. c \<noteq> CHR ''='') kv))) of
       (Some k, Some v) \<Rightarrow> Some (k, v) | _ \<Rightarrow> None)"

definition ParseQuery :: "string \<Rightarrow> (string \<times> string) list" where
  "ParseQuery q = List.map_filter parse_pair (split_on (CHR ''&'') q)"

definition wire_request :: "string \<Rightarrow> string \<Rightarrow> mcp_message \<Rightarrow> http_Request" where
  "wire_request base addr m =
    (let t = drop (length base) (mm_URL m) in
     \<lparr>hr_Method = mm_Method m, hr_EscapedPath = takeWhile (\<lambda>c. c \<noteq> CHR ''?'') t,
      hr_Query = ParseQuery (tl (dropWhile (\<lambda>c. c \<noteq> CHR ''?'') t)), hr_Header = mm_Header m, hr_RemoteAddr = addr,
      hr_Body = map_option (\<lambda>b. (b, None)) (mm_Body m)\<rparr>)"

definition wire_body :: "(float64 \<Rightarrow> string) \<Rightarrow> resp_body \<Rightarrow> string" where
  "wire_body fmt b = (case b of NoBody \<Rightarrow> [] | Bytes s \<Rightarrow> s | JsonBody v \<Rightarrow> json_Marshal (any_json fmt v) @ [CHR 0x0A])"

definition local_client :: "(float64 \<Rightarrow> string) \<Rightarrow> string \<Rightarrow> string \<Rightarrow> 'w handler \<Rightarrow> 'w mcp_client" where
  "local_client fmt base addr h = \<lparr>mc_NewRequest = (\<lambda>_ _. None),
     mc_Do = (\<lambda>m w. case h (wire_request base addr m) w of
        (resp, w) \<Rightarrow> (Inr (hs_Status resp, wire_body fmt (hs_Body resp)), w))\<rparr>"

end
