(* ===== verification/Mcp_Laws.thy ===== *)
theory Mcp_Laws
  imports Mcp_Server Grpc_Server
begin

text \<open>
  What reaches the pipelines and the repositories when the tools of \<^verbatim>\<open>mcp.go\<close> talk to the HTTP server of this
  program: the round trip of the query string, of the request body and of the responses, and the properties of
  the four tools.
\<close>

section \<open>Escaping\<close>

lemma hex_val_upper: "d < 16 \<Longrightarrow> hex_val (upper_hex d) = Some d"
  by (auto simp: upper_hex_def digit_char_def hex_val_def is_digit_def)

lemma hex_pair_percent: "hex_pair (tl (percent c) @ s) = Some (c, s)"
proof -
  have "(of_char c :: nat) < 256" by simp
  then have "of_char c div 16 < (16 :: nat)" "of_char c mod 16 < (16 :: nat)" by linarith+
  moreover have "char_of (16 * (of_char c div 16) + of_char c mod 16 :: nat) = c" by simp
  ultimately show ?thesis by (simp add: percent_def hex_pair_def hex_val_upper)
qed

lemma unreserved_plain: "unreserved c \<Longrightarrow> c \<notin> {CHR ''%'', CHR ''+'', CHR ''&'', CHR ''='', CHR '';'', CHR ''?'', CHR '' ''}"
  by (auto simp: unreserved_def is_digit_def)

lemma unescape_percent: "QueryUnescape (percent c @ s) = map_option ((#) c) (QueryUnescape s)"
proof -
  have "percent c @ s = CHR ''%'' # (tl (percent c) @ s)" by (simp add: percent_def)
  then show ?thesis by (simp only:) (simp add: hex_pair_percent)
qed

lemma QueryEscape_Nil [simp]: "QueryEscape [] = []"
  by (simp add: QueryEscape_def)

lemma QueryEscape_Cons [simp]:
  "QueryEscape (c # s) = (if c = CHR '' '' then ''+'' else if unreserved c then [c] else percent c) @ QueryEscape s"
  by (simp add: QueryEscape_def)

text \<open>\<^verbatim>\<open>QueryUnescape\<close> undoes \<^verbatim>\<open>QueryEscape\<close> on all bytes.\<close>

lemma unescape_escape: "QueryUnescape (QueryEscape s) = Some s"
proof (induction s)
  case (Cons c s)
  then show ?case using unreserved_plain [of c] unescape_percent [of c "QueryEscape s"] by auto
qed simp

text \<open>An escaped text holds none of the separators.\<close>

lemma upper_hex_unreserved: "d < 16 \<Longrightarrow> unreserved (upper_hex d)"
  by (auto simp: upper_hex_def digit_char_def unreserved_def is_digit_def)

lemma percent_chars: "x \<in> set (percent c) \<Longrightarrow> x = CHR ''%'' \<or> unreserved x"
proof -
  have "(of_char c :: nat) < 256" by simp
  then have "of_char c div 16 < (16 :: nat)" "of_char c mod 16 < (16 :: nat)" by linarith+
  then show "x \<in> set (percent c) \<Longrightarrow> x = CHR ''%'' \<or> unreserved x" using upper_hex_unreserved by (auto simp: percent_def)
qed

lemma escape_chars: "x \<in> set (QueryEscape s) \<Longrightarrow> x = CHR ''%'' \<or> x = CHR ''+'' \<or> unreserved x"
  by (induction s) (auto dest: percent_chars split: if_splits)

lemma escape_free: "d \<in> {CHR ''&'', CHR ''='', CHR '';'', CHR ''?''} \<Longrightarrow> d \<notin> set (QueryEscape s)"
  using escape_chars [of d s] unreserved_plain [of d] by auto

lemma takeWhile_until: "d \<notin> set a \<Longrightarrow> takeWhile (\<lambda>c. c \<noteq> d) (a @ d # b) = a" "d \<notin> set a \<Longrightarrow> dropWhile (\<lambda>c. c \<noteq> d) (a @ d # b) = d # b"
  by (induction a) auto

lemma takeWhile_never: "d \<notin> set a \<Longrightarrow> takeWhile (\<lambda>c. c \<noteq> d) a = a" "d \<notin> set a \<Longrightarrow> dropWhile (\<lambda>c. c \<noteq> d) a = []"
  by (induction a) auto

lemma parse_values_pair: "parse_pair (values_pair kv) = Some kv"
  using escape_free [of "CHR ''=''" "fst kv"] escape_free [of "CHR '';''"]
  by (simp add: parse_pair_def values_pair_def takeWhile_until unescape_escape)

lemma pair_no_amp: "CHR ''&'' \<notin> set (values_pair kv)"
  by (simp add: values_pair_def escape_free)

lemma split_on_free_text: "d \<notin> set a \<Longrightarrow> split_on d a = [a]"
  by (induction a) auto

lemma split_on_append: "d \<notin> set a \<Longrightarrow> split_on d (a @ d # b) = a # split_on d b"
  by (induction a) auto

lemma split_join: "ss \<noteq> [] \<Longrightarrow> \<forall>s \<in> set ss. CHR ''&'' \<notin> set s \<Longrightarrow> split_on (CHR ''&'') (join_amp ss) = ss"
  by (induction ss rule: join_amp.induct) (simp_all add: split_on_free_text split_on_append)

text \<open>The server reads the values the client encoded.\<close>

lemma parse_encode: "q \<noteq> [] \<Longrightarrow> ParseQuery (values_Encode q) = sort_members q"
proof -
  assume "q \<noteq> []"
  then have "sort_members q \<noteq> []" by (metis mset_sort_slice mset_zero_iff)
  then have "split_on (CHR ''&'') (values_Encode q) = map values_pair (sort_members q)"
    unfolding values_Encode_def by (intro split_join) (auto simp: pair_no_amp)
  then show ?thesis by (simp add: ParseQuery_def map_filter_map_filter parse_values_pair List.map_filter_def comp_def)
qed

lemma parse_nothing: "ParseQuery [] = []"
  by (simp add: ParseQuery_def parse_pair_def List.map_filter_def)

lemma wire_with_query:
  assumes "CHR ''?'' \<notin> set path"
  shows "wire_request base addr \<lparr>mm_Method = meth, mm_URL = with_query (base @ path) q, mm_Header = h, mm_Body = b\<rparr> =
    \<lparr>hr_Method = meth, hr_EscapedPath = path, hr_Query = sort_members q, hr_Header = h, hr_RemoteAddr = addr,
     hr_Body = map_option (\<lambda>b. (b, None)) b\<rparr>"
proof (cases "q = []")
  case True
  then show ?thesis using assms
    by (simp add: wire_request_def with_query_def takeWhile_never parse_nothing sort_slice_def)
next
  case False
  then show ?thesis using assms
    by (simp add: wire_request_def with_query_def takeWhile_until parse_encode)
qed


section \<open>The body of a request\<close>

definition source_ok :: "mcpExtractSource \<Rightarrow> bool" where
  "source_ok s \<longleftrightarrow> valid_utf8 (ms_Kind s) \<and> valid_utf8 (ms_Locator s)"

definition input_ok :: "mcpExtractInput \<Rightarrow> bool" where
  "input_ok i \<longleftrightarrow> valid_utf8 (mi_OwnerID i) \<and> valid_utf8 (mi_Text i) \<and> list_all valid_utf8 (mi_Hints i)
     \<and> list_all source_ok (mi_SourceRefs i)"

lemma body_members:
  "mcp_extract_body i = JObject [(''hints'', slice_json JString (mi_Hints i)), (''owner_id'', JString (mi_OwnerID i)),
     (''source_refs'', slice_json mcp_source_json (mi_SourceRefs i)), (''text'', JString (mi_Text i))]"
  by (simp add: mcp_extract_body_def sort_slice_def string_less_def)

lemma slice_ok: "(\<And>x. x \<in> set xs \<Longrightarrow> json_ok (f x)) \<Longrightarrow> json_ok (slice_json f xs)"
  by (simp add: slice_json_def elems_ok_all list_all_iff)

lemma slice_sane: "(\<And>x. x \<in> set xs \<Longrightarrow> sane (f x) = f x) \<Longrightarrow> sane (slice_json f xs) = slice_json f xs"
  by (simp add: slice_json_def sane_elems_map)

lemma elems_depth_le: "(\<And>x. x \<in> set xs \<Longrightarrow> json_depth (f x) \<le> n) \<Longrightarrow> elems_depth (map f xs) \<le> n"
  by (induction xs) auto

lemma slice_depth: "(\<And>x. x \<in> set xs \<Longrightarrow> json_depth (f x) \<le> n) \<Longrightarrow> json_depth (slice_json f xs) \<le> Suc n"
  using elems_depth_le [of xs f n] by (simp add: slice_json_def)

lemma mcp_keys [simp]:
  "sanitise ''hints'' = ''hints''" "sanitise ''owner_id'' = ''owner_id''" "sanitise ''source_refs'' = ''source_refs''"
  "sanitise ''text'' = ''text''" "sanitise ''considered'' = ''considered''" "sanitise ''saved_ids'' = ''saved_ids''"
  "sanitise ''dropped'' = ''dropped''" "sanitise ''decision_id'' = ''decision_id''" "sanitise ''evaluated'' = ''evaluated''"
  "sanitise ''updated'' = ''updated''" "sanitise ''intervention_ids'' = ''intervention_ids''" "sanitise ''decision_ids'' = ''decision_ids''"
  by (simp_all add: sanitise_valid valid_ascii)

lemma fields_body:
  "field_values ''hints'' [(''hints'', a), (''owner_id'', b), (''source_refs'', c), (''text'', d)] = [a]"
  "field_values ''owner_id'' [(''hints'', a), (''owner_id'', b), (''source_refs'', c), (''text'', d)] = [b]"
  "field_values ''source_refs'' [(''hints'', a), (''owner_id'', b), (''source_refs'', c), (''text'', d)] = [c]"
  "field_values ''text'' [(''hints'', a), (''owner_id'', b), (''source_refs'', c), (''text'', d)] = [d]"
  by (simp_all add: field_values_def)

lemma list_field_slice:
  assumes "field_values name ms = [slice_json f xs]" and "\<And>x. x \<in> set xs \<Longrightarrow> g (f x) = (h x, True)"
  shows "list_field g name ms = (map h xs, True)"
  using assms by (simp add: list_field_def decode_list_def slice_json_def list_all_iff)

lemma source_roundtrip: "decode_sourceRef (mcp_source_json s) = ((ms_Kind s, ms_Locator s), True)"
  by (simp add: decode_sourceRef_def mcp_source_json_def string_field_def fields_ref)

lemma body_printed:
  assumes "input_ok i"
  shows "json_Decode (json_Marshal (mcp_extract_body i)) = Some (mcp_extract_body i)"
proof -
  have s: "sane (mcp_source_json s) = mcp_source_json s" if "s \<in> set (mi_SourceRefs i)" for s
    using assms that by (auto simp: input_ok_def source_ok_def list_all_iff mcp_source_json_def sanitise_valid)
  have h: "sane (JString t) = JString t" if "t \<in> set (mi_Hints i)" for t
    using assms that by (auto simp: input_ok_def list_all_iff sanitise_valid)
  have "json_ok (slice_json JString (mi_Hints i))" "json_ok (slice_json mcp_source_json (mi_SourceRefs i))"
    by (rule slice_ok, simp add: mcp_source_json_def)+
  then have ok: "json_ok (mcp_extract_body i)" by (simp add: body_members)
  have "json_depth (slice_json JString (mi_Hints i)) \<le> 1" "json_depth (slice_json mcp_source_json (mi_SourceRefs i)) \<le> 2"
    using slice_depth [of "mi_Hints i" JString 0] slice_depth [of "mi_SourceRefs i" mcp_source_json 1]
    by (simp_all add: mcp_source_json_def)
  then have depth: "json_depth (mcp_extract_body i) \<le> max_depth" by (simp add: body_members max_depth_def)
  have "sane (slice_json JString (mi_Hints i)) = slice_json JString (mi_Hints i)" by (rule slice_sane) (rule h)
  moreover have "sane (slice_json mcp_source_json (mi_SourceRefs i)) = slice_json mcp_source_json (mi_SourceRefs i)"
    by (rule slice_sane) (rule s)
  ultimately have "sane (mcp_extract_body i) = mcp_extract_body i"
    using assms by (simp add: body_members sanitise_valid input_ok_def)
  then show ?thesis using json_Decode_printed [OF ok depth] by simp
qed

lemma body_decodes:
  assumes "input_ok i"
  shows "decode_extract (json_Marshal (mcp_extract_body i)) = Some \<lparr>xq_OwnerID = mi_OwnerID i, xq_Text = mi_Text i,
    xq_Hints = mi_Hints i, xq_SourceRefs = map (\<lambda>s. (ms_Kind s, ms_Locator s)) (mi_SourceRefs i)\<rparr>"
proof -
  let ?ms = "[(''hints'', slice_json JString (mi_Hints i)), (''owner_id'', JString (mi_OwnerID i)),
     (''source_refs'', slice_json mcp_source_json (mi_SourceRefs i)), (''text'', JString (mi_Text i))]"
  have h: "list_field decode_string ''hints'' ?ms = (map (\<lambda>t. t) (mi_Hints i), True)"
    by (rule list_field_slice [OF fields_body(1)]) (simp add: decode_string_def)
  have r: "list_field decode_sourceRef ''source_refs'' ?ms = (map (\<lambda>s. (ms_Kind s, ms_Locator s)) (mi_SourceRefs i), True)"
    by (rule list_field_slice [OF fields_body(3)]) (rule source_roundtrip)
  have "string_field ''owner_id'' ?ms = (mi_OwnerID i, True)" "string_field ''text'' ?ms = (mi_Text i, True)"
    by (simp_all add: string_field_def fields_body)
  moreover note body_printed [OF assms, unfolded body_members]
  ultimately show ?thesis unfolding decode_extract_def body_members using h r by (simp del: json_Marshal.simps)
qed


section \<open>Responses\<close>

lemma Atoi_fmt_d:
  assumes "0 \<le> n" and "n \<le> max_int64"
  shows "Atoi (fmt_d n) = Some n"
proof -
  have "fmt_d n = nat_dec (nat n)" using assms(1) by (simp add: fmt_d_def)
  moreover have "opt_char ''+-'' (nat_dec k) = ([], nat_dec k)" for k
    using nat_dec_digits [of k] by (cases "nat_dec k") (auto simp: opt_char_def is_digit_def)
  moreover have "nat_dec k \<noteq> []" for k by (subst nat_dec.simps) simp
  ultimately show ?thesis using assms nat_dec_digits digits_val_nat_dec [of "nat n"]
    by (simp add: Atoi_def Let_def min_int64_def)
qed

lemma text_slice: "any_json fmt (idsToStrings str ids) = JArray (map (\<lambda>u. JString (str u)) ids)"
  by (simp add: idsToStrings_def comp_def)

lemma ids_field:
  "field_values name ms = [JArray (map (\<lambda>u. JString (str u)) ids)] \<Longrightarrow> list_field decode_string name ms = (map str ids, True)"
  by (simp add: list_field_def decode_list_def decode_string_def list_all_iff)

lemma int_field_count:
  "field_values name ms = [JNumber (fmt_d (int n))] \<Longrightarrow> int n \<le> max_int64 \<Longrightarrow> int_field name ms = (int n, True)"
  by (simp add: int_field_def Atoi_fmt_d)

text \<open>A JSON response of status 200 is decoded by the client, an empty one gives the zero value, an error status an error.\<close>

lemma mcpHTTP_respond:
  assumes "h (wire_request base addr \<lparr>mm_Method = meth, mm_URL = u, mm_Header = mcp_headers token body, mm_Body = body\<rparr>) w = (resp, w')"
    and "hs_Status resp = 200" and "hs_Body resp = hs_Body (respond v)"
    and "encodable v" and "json_ok (any_json fmt v)" and "json_depth (any_json fmt v) \<le> max_depth"
    and "sane (any_json fmt v) = any_json fmt v" and "decode (any_json fmt v) = (x, True)"
  shows "mcpHTTP bad (local_client fmt base addr h) meth u token body zero decode w = (Inr x, w')"
  using assms json_line_roundtrip [OF assms(5,6)]
  by (simp add: mcpHTTP_def local_client_def respond_def wire_body_def trunc_quot_def)

lemma mcpHTTP_empty:
  assumes "h (wire_request base addr \<lparr>mm_Method = meth, mm_URL = u, mm_Header = mcp_headers token body, mm_Body = body\<rparr>) w = (resp, w')"
    and "hs_Status resp = 200" and "hs_Body resp = hs_Body (respond v)" and "\<not> encodable v"
  shows "mcpHTTP bad (local_client fmt base addr h) meth u token body zero decode w = (Inr zero, w')"
  using assms by (simp add: mcpHTTP_def local_client_def respond_def wire_body_def trunc_quot_def)

lemma mcpHTTP_refused:
  assumes "h (wire_request base addr \<lparr>mm_Method = meth, mm_URL = u, mm_Header = mcp_headers token body, mm_Body = body\<rparr>) w = (resp, w')"
    and "400 \<le> hs_Status resp"
  shows "\<exists>e. mcpHTTP bad (local_client fmt base addr h) meth u token body zero decode w = (Inl e, w')"
proof -
  have "trunc_quot (hs_Status resp) 100 \<noteq> 2" using assms(2) by (simp add: trunc_quot_def)
  then show ?thesis using assms(1) by (simp add: mcpHTTP_def local_client_def)
qed


section \<open>The tools against the server\<close>

text \<open>
  The server as \<^verbatim>\<open>main.go\<close> serves it: the credential check, the two limiters, the correlation middleware and the
  routes. A client of it presents the token of its configuration; the state of a call is that of both limiters and the world.
\<close>

definition mcp_to ::
  "(float64 \<Rightarrow> string) \<Rightarrow> string \<Rightarrow> jwt_lib \<Rightarrow> time \<Rightarrow> string \<Rightarrow> Verifier option \<Rightarrow> http_env \<Rightarrow> runtime \<Rightarrow> 's Server \<Rightarrow>
   string \<Rightarrow> (RateLimiter \<times> RateLimiter \<times> 's world) mcp_client" where
  "mcp_to fmt addr lib now token verifier env rt s base = local_client fmt base addr (root_handler env rt lib now token verifier s)"

text \<open>What the limiters say to a request: the one of its address first, then the one of its owner.\<close>

definition through_limiters :: "time \<Rightarrow> http_Request \<Rightarrow> RateLimiter \<Rightarrow> RateLimiter \<Rightarrow> bool \<times> RateLimiter \<times> RateLimiter" where
  "through_limiters now r l1 l2 = (case Allow now now (clientIP r) l1 of
       (False, l1') \<Rightarrow> (False, l1', l2)
     | (True, l1') \<Rightarrow> (case fst (ownerKey r) of
          Inl _ \<Rightarrow> (False, l1', l2)
        | Inr key \<Rightarrow> (case Allow now now key l2 of (ok, l2') \<Rightarrow> (ok, l1', l2'))))"

definition correlated :: "time \<Rightarrow> http_Request \<Rightarrow> http_Response \<Rightarrow> http_Response" where
  "correlated now r resp = fst (HTTPMiddleware now (\<lambda>_ _. (resp, ())) r ())"

lemma correlated_simps [simp]: "hs_Status (correlated now r resp) = hs_Status resp" "hs_Body (correlated now r resp) = hs_Body resp"
  by (simp_all add: correlated_def HTTPMiddleware_def Let_def)

lemma HTTPMiddleware_correlated: "HTTPMiddleware now h r w = (case h r w of (resp, w') \<Rightarrow> (correlated now r resp, w'))"
  by (simp add: correlated_def HTTPMiddleware_def Let_def split: prod.split)

text \<open>The limiter of owners reads a body of at most one MiB and hands it on as it is.\<close>

definition small_body :: "string option \<Rightarrow> bool" where
  "small_body body \<longleftrightarrow> (case body of None \<Rightarrow> True | Some b \<Rightarrow> length b \<le> one_MiB)"

lemma ownerKey_small:
  assumes "hr_Body r = map_option (\<lambda>b. (b, None)) body" and "small_body body"
  shows "\<exists>key. ownerKey r = (Inr key, r)"
proof -
  have "r\<lparr>hr_Body := Some (b, None)\<rparr> = r" if "body = Some b" for b using assms(1) that by (cases r) simp
  then show ?thesis using assms
    by (cases body) (auto simp: ownerKey_def read_limited_def small_body_def Let_def split: option.split)
qed

lemma root_admits:
  assumes "token \<noteq> [] \<or> verifier = None" and "hr_Header r = mcp_headers token hbody" and "\<not> isOpenPath (url_Path r)"
    and "hr_Body r = map_option (\<lambda>b. (b, None)) body" and "small_body body"
  shows "root_handler env rt lib now token verifier s r (l1, l2, w) =
    (case through_limiters now r l1 l2 of (ok, l1', l2') \<Rightarrow>
       if ok then (case mux env rt s r w of (resp, w') \<Rightarrow> (correlated now r resp, (l1', l2', w')))
       else (too_many, (l1', l2', w)))"
proof -
  let ?next = "RateLimitMiddleware now now (OwnerRateLimitMiddleware (he_text env) now now (HTTPMiddleware now (mux env rt s)))"
  obtain key where k: "ownerKey r = (Inr key, r)" using ownerKey_small [OF assms(4,5)] by blast
  have "root_handler env rt lib now token verifier s r (l1, l2, w) = ?next r (l1, l2, w)"
  proof (cases "token = []")
    case True
    then show ?thesis using assms(1) by (simp add: root_handler_def CombinedAuthMiddleware_def)
  next
    case False
    then have "values_Get (hr_Header r) ''Authorization'' = ''Bearer '' @ token"
      by (simp add: assms(2) values_Get_def mcp_headers_def)
    then show ?thesis using False CombinedAuth_cases [of token verifier lib "rt_printable rt" now ?next r "(l1, l2, w)"]
      by (simp add: root_handler_def credential_ok_def)
  qed
  also have "\<dots> = (case through_limiters now r l1 l2 of (ok, l1', l2') \<Rightarrow>
       if ok then (case mux env rt s r w of (resp, w') \<Rightarrow> (correlated now r resp, (l1', l2', w')))
       else (too_many, (l1', l2', w)))"
    using assms(3) k
    by (auto simp: RateLimitMiddleware_def OwnerRateLimitMiddleware_def HTTPMiddleware_correlated through_limiters_def Let_def
        split: prod.split bool.split)
  finally show ?thesis .
qed

lemmas route_eval = mux_def cleanPath_def path_segs_def mux_match_def join_slash_def method_serves_def serve_route_def Let_def

lemma mux_extract: "hr_Method r = ''POST'' \<Longrightarrow> hr_EscapedPath r = ''/v1/extract'' \<Longrightarrow> mux env rt s r w = handleExtract env rt s r w"
  by (simp add: route_eval)

lemma mux_evaluate: "hr_Method r = ''POST'' \<Longrightarrow> hr_EscapedPath r = ''/v1/evaluate'' \<Longrightarrow> mux env rt s r w = handleEvaluate env rt s r w"
  by (simp add: route_eval)

lemma mux_interventions:
  "hr_Method r = ''GET'' \<Longrightarrow> hr_EscapedPath r = ''/v1/interventions'' \<Longrightarrow> mux env rt s r w = handleListInterventions env rt s r w"
  by (simp add: route_eval)

lemma mux_decisions:
  "hr_Method r = ''GET'' \<Longrightarrow> hr_EscapedPath r = ''/v1/decisions'' \<Longrightarrow> mux env rt s r w = handleListDecisions env rt s r w"
  by (simp add: route_eval)

text \<open>The request of a tool as a handler sees it.\<close>

definition tool_request :: "string \<Rightarrow> string \<Rightarrow> string \<Rightarrow> (string \<times> string) list \<Rightarrow> string \<Rightarrow> string option \<Rightarrow> http_Request" where
  "tool_request addr meth path q token body =
     \<lparr>hr_Method = meth, hr_EscapedPath = path, hr_Query = sort_members q, hr_Header = mcp_headers token body,
      hr_RemoteAddr = addr, hr_Body = map_option (\<lambda>b. (b, None)) body\<rparr>"

text \<open>The paths of the tools.\<close>

definition tool_path :: "string \<Rightarrow> bool" where
  "tool_path path \<longleftrightarrow> path \<in> {''/v1/extract'', ''/v1/evaluate'', ''/v1/decisions'', ''/v1/interventions''}"

lemma tool_path_simps [simp]:
  "tool_path ''/v1/extract''" "tool_path ''/v1/evaluate''" "tool_path ''/v1/decisions''" "tool_path ''/v1/interventions''"
  by (simp_all add: tool_path_def)

lemma tool_path_closed: "tool_path path \<Longrightarrow> CHR ''?'' \<notin> set path \<and> \<not> isOpenPath (url_Path (tool_request addr meth path q token body))"
  by (auto simp: tool_path_def tool_request_def url_Path_def isOpenPath_def starts_with_def)

lemma tool_wire:
  assumes "tool_path path" and "token \<noteq> [] \<or> verifier = None" and "small_body body"
  shows "root_handler env rt lib now token verifier s
      (wire_request base addr \<lparr>mm_Method = meth, mm_URL = with_query (base @ path) q, mm_Header = mcp_headers token body, mm_Body = body\<rparr>)
      (l1, l2, w)
    = (case through_limiters now (tool_request addr meth path q token body) l1 l2 of (ok, l1', l2') \<Rightarrow>
         if ok then (case mux env rt s (tool_request addr meth path q token body) w of
           (resp, w') \<Rightarrow> (correlated now (tool_request addr meth path q token body) resp, (l1', l2', w')))
         else (too_many, (l1', l2', w)))"
proof -
  let ?x = "tool_request addr meth path q token body"
  have "hr_Header ?x = mcp_headers token body" "hr_Body ?x = map_option (\<lambda>b. (b, None)) body" by (simp_all add: tool_request_def)
  from root_admits [OF assms(2) this(1) _ this(2) assms(3), of env rt lib now s l1 l2 w] tool_path_closed [OF assms(1), of addr meth q token body]
  show ?thesis by (simp add: wire_with_query) (simp add: tool_request_def)
qed

text \<open>A tool's request is refused by a limiter, answered by the routes with an error, a value, or a value that cannot be encoded.\<close>

lemma error_status [simp]: "hs_Status (httpError code msg) = code"
  by (simp add: httpError_def json_error_def)

lemma too_many_status: "hs_Status too_many = 429"
  by (simp add: too_many_def)

lemma ge_400: "k = 429 \<Longrightarrow> (400 :: int) \<le> k"
  by simp

lemma tool_limited:
  assumes "tool_path path" and "token \<noteq> [] \<or> verifier = None" and "small_body body"
    and "through_limiters now (tool_request addr meth path q token body) l1 l2 = (False, l1', l2')"
  shows "\<exists>e. mcpHTTP bad (mcp_to fmt addr lib now token verifier env rt s base) meth (with_query (base @ path) q) token body zero decode (l1, l2, w)
    = (Inl e, (l1', l2', w))"
  unfolding mcp_to_def
  by (rule mcpHTTP_refused [where h = "root_handler env rt lib now token verifier s", OF _ too_many_status [THEN ge_400]])
    (simp add: tool_wire [OF assms(1-3)] assms(4))

lemma tool_served:
  assumes "tool_path path" and "token \<noteq> [] \<or> verifier = None" and "small_body body"
    and "through_limiters now (tool_request addr meth path q token body) l1 l2 = (True, l1', l2')"
    and "mux env rt s (tool_request addr meth path q token body) w = (resp, w')"
  shows "400 \<le> hs_Status resp \<Longrightarrow>
      \<exists>e. mcpHTTP bad (mcp_to fmt addr lib now token verifier env rt s base) meth (with_query (base @ path) q) token body zero decode (l1, l2, w)
        = (Inl e, (l1', l2', w'))"
    and "resp = respond v \<Longrightarrow> encodable v \<Longrightarrow> json_ok (any_json fmt v) \<Longrightarrow> json_depth (any_json fmt v) \<le> max_depth \<Longrightarrow>
      sane (any_json fmt v) = any_json fmt v \<Longrightarrow> decode (any_json fmt v) = (x, True) \<Longrightarrow>
      mcpHTTP bad (mcp_to fmt addr lib now token verifier env rt s base) meth (with_query (base @ path) q) token body zero decode (l1, l2, w)
        = (Inr x, (l1', l2', w'))"
    and "resp = respond v \<Longrightarrow> \<not> encodable v \<Longrightarrow>
      mcpHTTP bad (mcp_to fmt addr lib now token verifier env rt s base) meth (with_query (base @ path) q) token body zero decode (l1, l2, w)
        = (Inr zero, (l1', l2', w'))"
proof -
  note wire = tool_wire [OF assms(1-3), of env rt lib now s base addr meth q l1 l2 w, unfolded assms(4,5) prod.case if_True]
  show "400 \<le> hs_Status resp \<Longrightarrow>
      \<exists>e. mcpHTTP bad (mcp_to fmt addr lib now token verifier env rt s base) meth (with_query (base @ path) q) token body zero decode (l1, l2, w)
        = (Inl e, (l1', l2', w'))"
    unfolding mcp_to_def by (rule mcpHTTP_refused [where h = "root_handler env rt lib now token verifier s", OF wire]) simp
  show "resp = respond v \<Longrightarrow> encodable v \<Longrightarrow> json_ok (any_json fmt v) \<Longrightarrow> json_depth (any_json fmt v) \<le> max_depth \<Longrightarrow>
      sane (any_json fmt v) = any_json fmt v \<Longrightarrow> decode (any_json fmt v) = (x, True) \<Longrightarrow>
      mcpHTTP bad (mcp_to fmt addr lib now token verifier env rt s base) meth (with_query (base @ path) q) token body zero decode (l1, l2, w)
        = (Inr x, (l1', l2', w'))"
    unfolding mcp_to_def by (rule mcpHTTP_respond [where h = "root_handler env rt lib now token verifier s", OF wire]) (simp_all add: respond_def)
  show "resp = respond v \<Longrightarrow> \<not> encodable v \<Longrightarrow>
      mcpHTTP bad (mcp_to fmt addr lib now token verifier env rt s base) meth (with_query (base @ path) q) token body zero decode (l1, l2, w)
        = (Inr zero, (l1', l2', w'))"
    unfolding mcp_to_def by (rule mcpHTTP_empty [where h = "root_handler env rt lib now token verifier s", OF wire]) (simp_all add: respond_def)
qed

definition extract_input :: "mcpExtractInput \<Rightarrow> ExtractInput" where
  "extract_input i = \<lparr>ei_OwnerID = mi_OwnerID i, ei_Text = mi_Text i, ei_Hints = mi_Hints i,
     ei_SourceRefs = map (\<lambda>s. \<lparr>sr_Kind = ms_Kind s, sr_Locator = ms_Locator s\<rparr>) (mi_SourceRefs i)\<rparr>"

definition validates :: "'s Server \<Rightarrow> mcpExtractInput \<Rightarrow> bool" where
  "validates s i \<longleftrightarrow> (case sv_validator s of None \<Rightarrow> True
     | Some v \<Rightarrow> Validator_Validate (Some v) \<lparr>vi_OwnerID = mi_OwnerID i, vi_Text = mi_Text i,
         vi_SourceKinds = map ms_Kind (mi_SourceRefs i)\<rparr> = None)"

lemma handleExtract_tool:
  assumes "input_ok i" "mi_OwnerID i \<noteq> []" "mi_Text i \<noteq> []" "validates s i"
    and "hr_Body r = Some (json_Marshal (mcp_extract_body i), None)"
  shows "handleExtract env rt s r w = (case Extract rt (sv_extractor s) (extract_input i) w of
      ((res, Some err), w) \<Rightarrow> (httpError 500 (he_text env err), w)
    | ((res, None), w) \<Rightarrow>
       (respond (VStruct
          ([(''considered'', VInt (int (xr_Considered res))),
            (''saved_ids'', idsToStrings (rt_str rt) (xr_Saved res)),
            (''dropped'', VInt (int (xr_Dropped res)))] @
           opt_field (optionalID (rt_str rt) (xr_DecisionID res) \<noteq> []) ''decision_id''
             (VString (optionalID (rt_str rt) (xr_DecisionID res))))), w))"
  using assms body_decodes [OF assms(1)]
  by (cases "sv_validator s")
    (simp_all add: handleExtract_def body_bytes_def validates_def extract_input_def Let_def comp_def case_prod_unfold)


text \<open>What the clients decode is what the handlers encode.\<close>

definition counts_fit :: "nat \<Rightarrow> nat \<Rightarrow> bool" where
  "counts_fit m n \<longleftrightarrow> int m \<le> max_int64 \<and> int n \<le> max_int64"

lemma ids_sane:
  "(\<And>u. valid_utf8 (str u)) \<Longrightarrow> sane_elems (map (\<lambda>u. JString (str u)) ids) = map (\<lambda>u. JString (str u)) ids"
  by (simp add: sane_elems_map sanitise_valid)

lemma ids_elems: "elems_ok (map (\<lambda>u. JString (str u)) ids)" "elems_depth (map (\<lambda>u. JString (str u)) ids) = 0"
  by (simp_all add: elems_ok_all list_all_iff) (induction ids, simp_all)

lemma ids_encodable: "encodable (idsToStrings str ids)"
  by (simp add: idsToStrings_def list_all_iff)

lemma fields_extracted:
  "field_values ''considered'' ([(''considered'', a), (''saved_ids'', b), (''dropped'', c)] @ (if p then [(''decision_id'', d)] else [])) = [a]"
  "field_values ''saved_ids'' ([(''considered'', a), (''saved_ids'', b), (''dropped'', c)] @ (if p then [(''decision_id'', d)] else [])) = [b]"
  "field_values ''dropped'' ([(''considered'', a), (''saved_ids'', b), (''dropped'', c)] @ (if p then [(''decision_id'', d)] else [])) = [c]"
  "field_values ''decision_id'' ([(''considered'', a), (''saved_ids'', b), (''dropped'', c)] @ (if p then [(''decision_id'', d)] else [])) = (if p then [d] else [])"
  by (simp_all add: field_values_def)

lemma fields_evaluated:
  "field_values ''evaluated'' [(''evaluated'', a), (''updated'', b), (''intervention_ids'', c), (''decision_ids'', d)] = [a]"
  "field_values ''updated'' [(''evaluated'', a), (''updated'', b), (''intervention_ids'', c), (''decision_ids'', d)] = [b]"
  "field_values ''intervention_ids'' [(''evaluated'', a), (''updated'', b), (''intervention_ids'', c), (''decision_ids'', d)] = [c]"
  "field_values ''decision_ids'' [(''evaluated'', a), (''updated'', b), (''intervention_ids'', c), (''decision_ids'', d)] = [d]"
  by (simp_all add: field_values_def)

definition evaluated_json :: "(uuid \<Rightarrow> string) \<Rightarrow> EvaluateResult \<Rightarrow> anyval" where
  "evaluated_json str res = VStruct [(''evaluated'', VInt (int (r_Evaluated res))), (''updated'', VInt (int (r_Updated res))),
     (''intervention_ids'', idsToStrings str (r_Interventions res)), (''decision_ids'', idsToStrings str (r_Decisions res))]"

lemma evaluated_wire:
  assumes "\<And>u. valid_utf8 (str u)" and "counts_fit (r_Evaluated res) (r_Updated res)"
  shows "encodable (evaluated_json str res)" "json_ok (any_json fmt (evaluated_json str res))"
    "json_depth (any_json fmt (evaluated_json str res)) \<le> max_depth"
    "sane (any_json fmt (evaluated_json str res)) = any_json fmt (evaluated_json str res)"
    "decode_mcpEvaluateOutput (any_json fmt (evaluated_json str res)) =
      (\<lparr>me_Evaluated = int (r_Evaluated res), me_Updated = int (r_Updated res),
        me_InterventionIDs = map str (r_Interventions res), me_DecisionIDs = map str (r_Decisions res)\<rparr>, True)"
proof -
  show "decode_mcpEvaluateOutput (any_json fmt (evaluated_json str res)) =
      (\<lparr>me_Evaluated = int (r_Evaluated res), me_Updated = int (r_Updated res),
        me_InterventionIDs = map str (r_Interventions res), me_DecisionIDs = map str (r_Decisions res)\<rparr>, True)"
  proof -
    let ?ms = "[(''evaluated'', JNumber (fmt_d (int (r_Evaluated res)))), (''updated'', JNumber (fmt_d (int (r_Updated res)))),
       (''intervention_ids'', JArray (map (\<lambda>u. JString (str u)) (r_Interventions res))),
       (''decision_ids'', JArray (map (\<lambda>u. JString (str u)) (r_Decisions res)))]"
    have j: "any_json fmt (evaluated_json str res) = JObject ?ms" by (simp add: evaluated_json_def text_slice)
    have "int_field ''evaluated'' ?ms = (int (r_Evaluated res), True)" "int_field ''updated'' ?ms = (int (r_Updated res), True)"
      using assms(2) by (auto simp: counts_fit_def intro!: int_field_count fields_evaluated)
    moreover have "list_field decode_string ''intervention_ids'' ?ms = (map str (r_Interventions res), True)"
      "list_field decode_string ''decision_ids'' ?ms = (map str (r_Decisions res), True)"
      by (rule ids_field, rule fields_evaluated)+
    ultimately show ?thesis unfolding j decode_mcpEvaluateOutput_def members_of_def by simp
  qed
qed (simp_all add: evaluated_json_def ids_encodable text_slice fmt_d_number ids_elems max_depth_def ids_sane [OF assms(1)])

definition extracted_json :: "(uuid \<Rightarrow> string) \<Rightarrow> ExtractResult \<Rightarrow> anyval" where
  "extracted_json str res = VStruct
     ([(''considered'', VInt (int (xr_Considered res))), (''saved_ids'', idsToStrings str (xr_Saved res)),
       (''dropped'', VInt (int (xr_Dropped res)))] @
      opt_field (optionalID str (xr_DecisionID res) \<noteq> []) ''decision_id'' (VString (optionalID str (xr_DecisionID res))))"

lemma optionalID_valid: "(\<And>u. valid_utf8 (str u)) \<Longrightarrow> valid_utf8 (optionalID str k)"
  by (simp add: optionalID_def valid_utf8.simps split: option.split)

lemma extracted_wire:
  assumes "\<And>u. valid_utf8 (str u)" and "counts_fit (xr_Considered res) (xr_Dropped res)"
  shows "encodable (extracted_json str res)" "json_ok (any_json fmt (extracted_json str res))"
    "json_depth (any_json fmt (extracted_json str res)) \<le> max_depth"
    "sane (any_json fmt (extracted_json str res)) = any_json fmt (extracted_json str res)"
    "decode_mcpExtractOutput (any_json fmt (extracted_json str res)) =
      (\<lparr>mo_Considered = int (xr_Considered res), mo_SavedIDs = map str (xr_Saved res), mo_Dropped = int (xr_Dropped res),
        mo_DecisionID = optionalID str (xr_DecisionID res)\<rparr>, True)"
proof -
  let ?p = "optionalID str (xr_DecisionID res) \<noteq> []"
  let ?ms = "[(''considered'', JNumber (fmt_d (int (xr_Considered res)))),
      (''saved_ids'', JArray (map (\<lambda>u. JString (str u)) (xr_Saved res))), (''dropped'', JNumber (fmt_d (int (xr_Dropped res))))] @
      (if ?p then [(''decision_id'', JString (optionalID str (xr_DecisionID res)))] else [])"
  have j: "any_json fmt (extracted_json str res) = JObject ?ms"
    by (simp add: extracted_json_def text_slice opt_field_def)
  have c: "int_field ''considered'' ?ms = (int (xr_Considered res), True)" "int_field ''dropped'' ?ms = (int (xr_Dropped res), True)"
    using assms(2) unfolding counts_fit_def by (blast intro: int_field_count fields_extracted)+
  have i: "list_field decode_string ''saved_ids'' ?ms = (map str (xr_Saved res), True)"
    by (rule ids_field, rule fields_extracted)
  have "string_field ''decision_id'' ?ms = (optionalID str (xr_DecisionID res), True)"
    unfolding string_field_def fields_extracted(4) by simp
  then show "decode_mcpExtractOutput (any_json fmt (extracted_json str res)) =
      (\<lparr>mo_Considered = int (xr_Considered res), mo_SavedIDs = map str (xr_Saved res), mo_Dropped = int (xr_Dropped res),
        mo_DecisionID = optionalID str (xr_DecisionID res)\<rparr>, True)"
    using c i unfolding j decode_mcpExtractOutput_def members_of_def by simp
  show "encodable (extracted_json str res)" by (simp add: extracted_json_def ids_encodable opt_field_def)
qed (simp_all add: extracted_json_def opt_field_def text_slice fmt_d_number ids_elems max_depth_def ids_sane [OF assms(1)]
    sanitise_valid optionalID_valid [OF assms(1)])


text \<open>What the routes answer to the requests of the two tools that run a pipeline.\<close>

abbreviation extract_request :: "string \<Rightarrow> string \<Rightarrow> mcpExtractInput \<Rightarrow> http_Request" where
  "extract_request addr token i \<equiv> tool_request addr ''POST'' ''/v1/extract'' [] token (Some (json_Marshal (mcp_extract_body i)))"

abbreviation evaluate_request :: "string \<Rightarrow> string \<Rightarrow> http_Request" where
  "evaluate_request addr token \<equiv> tool_request addr ''POST'' ''/v1/evaluate'' [] token None"

lemma extract_answer:
  assumes "input_ok i" "mi_OwnerID i \<noteq> []" "mi_Text i \<noteq> []" "validates s i"
    and "Extract rt (sv_extractor s) (extract_input i) w = ((res, err), w')"
  shows "mux env rt s (extract_request addr token i) w =
    (case err of None \<Rightarrow> respond (extracted_json (rt_str rt) res) | Some err \<Rightarrow> httpError 500 (he_text env err), w')"
proof -
  let ?x = "extract_request addr token i"
  have "mux env rt s ?x w = handleExtract env rt s ?x w" by (rule mux_extract) (simp_all add: tool_request_def)
  also have "\<dots> = (case err of None \<Rightarrow> respond (extracted_json (rt_str rt) res) | Some err \<Rightarrow> httpError 500 (he_text env err), w')"
    using handleExtract_tool [OF assms(1-4), of ?x env rt w] assms(5)
    by (simp add: tool_request_def extracted_json_def split: option.split)
  finally show ?thesis .
qed

lemma evaluate_answer:
  assumes "Evaluate rt (sv_evaluator s) \<lparr>eo_Limit = 0, eo_SignalLookback = 0\<rparr> w = ((res, err), w')"
  shows "mux env rt s (evaluate_request addr token) w =
    (case err of None \<Rightarrow> respond (evaluated_json (rt_str rt) res) | Some err \<Rightarrow> httpError 500 (he_text env err), w')"
proof -
  let ?x = "evaluate_request addr token"
  have "mux env rt s ?x w = handleEvaluate env rt s ?x w" by (rule mux_evaluate) (simp_all add: tool_request_def)
  also have "\<dots> = (case err of None \<Rightarrow> respond (evaluated_json (rt_str rt) res) | Some err \<Rightarrow> httpError 500 (he_text env err), w')"
    by (simp add: handleEvaluate_def assms evaluated_json_def split: option.split)
  finally show ?thesis .
qed

text \<open>A tool that runs a pipeline, whose result is encoded as \<open>enc\<close> and decoded as \<open>out\<close>.\<close>

lemma pipeline_tool:
  assumes "tool_path path" and "token \<noteq> [] \<or> verifier = None" and "small_body body"
    and "mux env rt s (tool_request addr ''POST'' path [] token body) w =
      (case err of None \<Rightarrow> respond v | Some err \<Rightarrow> httpError 500 (he_text env err), w')"
    and "err = None \<Longrightarrow> encodable v \<and> json_ok (any_json fmt v) \<and> json_depth (any_json fmt v) \<le> max_depth
      \<and> sane (any_json fmt v) = any_json fmt v \<and> decode (any_json fmt v) = (x, True)"
  shows "case through_limiters now (tool_request addr ''POST'' path [] token body) l1 l2 of
      (False, l1', l2') \<Rightarrow> \<exists>e. mcpHTTP bad (mcp_to fmt addr lib now token verifier env rt s base) ''POST'' (base @ path) token body zero decode (l1, l2, w)
        = (Inl e, (l1', l2', w))
    | (True, l1', l2') \<Rightarrow> (case err of
        None \<Rightarrow> mcpHTTP bad (mcp_to fmt addr lib now token verifier env rt s base) ''POST'' (base @ path) token body zero decode (l1, l2, w)
          = (Inr x, (l1', l2', w'))
      | Some _ \<Rightarrow> \<exists>e. mcpHTTP bad (mcp_to fmt addr lib now token verifier env rt s base) ''POST'' (base @ path) token body zero decode (l1, l2, w)
          = (Inl e, (l1', l2', w')))"
proof -
  have u: "with_query (b @ path) [] = b @ path" for b by (simp add: with_query_def)
  obtain ok l1' l2' where t: "through_limiters now (tool_request addr ''POST'' path [] token body) l1 l2 = (ok, l1', l2')"
    by (metis prod_cases3)
  show ?thesis
  proof (cases ok)
    case False
    then have "through_limiters now (tool_request addr ''POST'' path [] token body) l1 l2 = (False, l1', l2')" using t by simp
    from tool_limited [OF assms(1-3) this, unfolded u] show ?thesis using False by (simp add: t)
  next
    case True
    note served = tool_served [OF assms(1-3), where q = "[]" and ?l1.0 = l1, OF t [unfolded eqTrueI [OF True]], unfolded u]
    show ?thesis
    proof (cases err)
      case None
      from assms(5) [OF this] have v: "encodable v" "json_ok (any_json fmt v)" "json_depth (any_json fmt v) \<le> max_depth"
        "sane (any_json fmt v) = any_json fmt v" "decode (any_json fmt v) = (x, True)" by blast+
      from served(2) [where decode = decode, OF assms(4) [unfolded None option.case] refl v] show ?thesis by (simp add: t True None)
    next
      case (Some y)
      from served(1) [OF assms(4) [unfolded Some option.case]] show ?thesis by (simp add: t True Some)
    qed
  qed
qed


section \<open>Properties\<close>

text \<open>
  (C15) The MCP tools run the pipelines of the server they talk to. Against the whole chain this program serves (credentials,
  the limiters of addresses and of owners, correlation, routes), with the server's token: when a limiter refuses the request the tool fails and
  the world stays as it is. Otherwise \<^verbatim>\<open>nous_extract\<close>, on UTF-8 input the validator accepts whose body is at most the one MiB the
  owner limiter passes on, runs \<^verbatim>\<open>Extract\<close> once, on exactly the owner, text, hints and source
  references of the tool call, and \<^verbatim>\<open>nous_evaluate\<close> runs \<^verbatim>\<open>Evaluate\<close> once with the default options; each returns the
  counts and identifiers of the result, or an error when the pipeline returned one, and leaves the world the pipeline left.
  The limiters are charged for the request either way. The counts have to fit the integer type of the output.
\<close>

theorem mcp_tools_run_pipelines:
  assumes "\<forall>u. valid_utf8 (rt_str rt u)" and "token \<noteq> [] \<or> verifier = None"
    and "input_ok i" and "mi_OwnerID i \<noteq> []" and "mi_Text i \<noteq> []" and "validates s i"
    and "length (json_Marshal (mcp_extract_body i)) \<le> one_MiB"
    and "\<forall>res w'. Extract rt (sv_extractor s) (extract_input i) w = ((res, None), w') \<longrightarrow> counts_fit (xr_Considered res) (xr_Dropped res)"
    and "\<forall>res w'. Evaluate rt (sv_evaluator s) \<lparr>eo_Limit = 0, eo_SignalLookback = 0\<rparr> w = ((res, None), w') \<longrightarrow>
           counts_fit (r_Evaluated res) (r_Updated res)"
  shows "(case through_limiters now (extract_request addr token i) l1 l2 of
        (False, l1', l2') \<Rightarrow>
          \<exists>e. nous_extract bad (mcp_to fmt addr lib now token verifier env rt s base) \<lparr>mx_base = base, mx_token = token\<rparr> i (l1, l2, w) =
            (Inl e, (l1', l2', w))
      | (True, l1', l2') \<Rightarrow> (case Extract rt (sv_extractor s) (extract_input i) w of
          ((res, None), w') \<Rightarrow>
            nous_extract bad (mcp_to fmt addr lib now token verifier env rt s base) \<lparr>mx_base = base, mx_token = token\<rparr> i (l1, l2, w) =
              (Inr \<lparr>mo_Considered = int (xr_Considered res), mo_SavedIDs = map (rt_str rt) (xr_Saved res),
                    mo_Dropped = int (xr_Dropped res), mo_DecisionID = optionalID (rt_str rt) (xr_DecisionID res)\<rparr>, (l1', l2', w'))
        | ((res, Some err), w') \<Rightarrow>
            \<exists>e. nous_extract bad (mcp_to fmt addr lib now token verifier env rt s base) \<lparr>mx_base = base, mx_token = token\<rparr> i (l1, l2, w) =
              (Inl e, (l1', l2', w'))))
    \<and> (case through_limiters now (evaluate_request addr token) l1 l2 of
        (False, l1', l2') \<Rightarrow>
          \<exists>e. nous_evaluate bad (mcp_to fmt addr lib now token verifier env rt s base) \<lparr>mx_base = base, mx_token = token\<rparr> (l1, l2, w) =
            (Inl e, (l1', l2', w))
      | (True, l1', l2') \<Rightarrow> (case Evaluate rt (sv_evaluator s) \<lparr>eo_Limit = 0, eo_SignalLookback = 0\<rparr> w of
          ((res, None), w') \<Rightarrow>
            nous_evaluate bad (mcp_to fmt addr lib now token verifier env rt s base) \<lparr>mx_base = base, mx_token = token\<rparr> (l1, l2, w) =
              (Inr \<lparr>me_Evaluated = int (r_Evaluated res), me_Updated = int (r_Updated res),
                    me_InterventionIDs = map (rt_str rt) (r_Interventions res), me_DecisionIDs = map (rt_str rt) (r_Decisions res)\<rparr>, (l1', l2', w'))
        | ((res, Some err), w') \<Rightarrow>
            \<exists>e. nous_evaluate bad (mcp_to fmt addr lib now token verifier env rt s base) \<lparr>mx_base = base, mx_token = token\<rparr> (l1, l2, w) =
              (Inl e, (l1', l2', w'))))"
proof (rule conjI, goal_cases)
  case 1
  obtain res err w' where e: "Extract rt (sv_extractor s) (extract_input i) w = ((res, err), w')" by (metis prod.exhaust)
  have fit: "err = None \<Longrightarrow> counts_fit (xr_Considered res) (xr_Dropped res)" using assms(8) e by blast
  have small: "small_body (Some (json_Marshal (mcp_extract_body i)))" using assms(7) by (simp add: small_body_def)
  have wire: "err = None \<Longrightarrow> encodable (extracted_json (rt_str rt) res) \<and> json_ok (any_json fmt (extracted_json (rt_str rt) res))
      \<and> json_depth (any_json fmt (extracted_json (rt_str rt) res)) \<le> max_depth
      \<and> sane (any_json fmt (extracted_json (rt_str rt) res)) = any_json fmt (extracted_json (rt_str rt) res)
      \<and> decode_mcpExtractOutput (any_json fmt (extracted_json (rt_str rt) res)) =
        (\<lparr>mo_Considered = int (xr_Considered res), mo_SavedIDs = map (rt_str rt) (xr_Saved res),
          mo_Dropped = int (xr_Dropped res), mo_DecisionID = optionalID (rt_str rt) (xr_DecisionID res)\<rparr>, True)"
    by (intro conjI extracted_wire [where str = "rt_str rt", OF spec [OF assms(1)] fit])
  obtain ok l1' l2' where t: "through_limiters now (extract_request addr token i) l1 l2 = (ok, l1', l2')" by (metis prod_cases3)
  from pipeline_tool [where decode = decode_mcpExtractOutput and zero = "\<lparr>mo_Considered = 0, mo_SavedIDs = [], mo_Dropped = 0, mo_DecisionID = []\<rparr>" and addr = addr and now = now and lib = lib
      and base = base and bad = bad and env = env and ?l1.0 = l1 and ?l2.0 = l2, OF tool_path_simps(1) assms(2) small extract_answer [OF assms(3-6) e] wire]
  show ?case unfolding e nous_extract_def mcp_config.simps t by (cases ok; cases err) simp_all
next
  case 2
  obtain res err w' where e: "Evaluate rt (sv_evaluator s) \<lparr>eo_Limit = 0, eo_SignalLookback = 0\<rparr> w = ((res, err), w')"
    by (metis prod.exhaust)
  have fit: "err = None \<Longrightarrow> counts_fit (r_Evaluated res) (r_Updated res)" using assms(9) e by blast
  have wire: "err = None \<Longrightarrow> encodable (evaluated_json (rt_str rt) res) \<and> json_ok (any_json fmt (evaluated_json (rt_str rt) res))
      \<and> json_depth (any_json fmt (evaluated_json (rt_str rt) res)) \<le> max_depth
      \<and> sane (any_json fmt (evaluated_json (rt_str rt) res)) = any_json fmt (evaluated_json (rt_str rt) res)
      \<and> decode_mcpEvaluateOutput (any_json fmt (evaluated_json (rt_str rt) res)) =
        (\<lparr>me_Evaluated = int (r_Evaluated res), me_Updated = int (r_Updated res),
          me_InterventionIDs = map (rt_str rt) (r_Interventions res), me_DecisionIDs = map (rt_str rt) (r_Decisions res)\<rparr>, True)"
    by (intro conjI evaluated_wire [where str = "rt_str rt", OF spec [OF assms(1)] fit])
  have small: "small_body None" by (simp add: small_body_def)
  obtain ok l1' l2' where t: "through_limiters now (evaluate_request addr token) l1 l2 = (ok, l1', l2')" by (metis prod_cases3)
  from pipeline_tool [where decode = decode_mcpEvaluateOutput and zero = "\<lparr>me_Evaluated = 0, me_Updated = 0, me_InterventionIDs = [], me_DecisionIDs = []\<rparr>" and addr = addr and now = now and lib = lib
      and base = base and bad = bad and env = env and ?l1.0 = l1 and ?l2.0 = l2, OF tool_path_simps(2) assms(2) small evaluate_answer [OF e] wire]
  show ?case unfolding e nous_evaluate_def mcp_config.simps t by (cases ok; cases err) simp_all
qed

text \<open>The sample server and a tool call that makes its extractor return three drafts.\<close>

definition sample_tool_input :: mcpExtractInput where
  "sample_tool_input = \<lparr>mi_OwnerID = ''u1'', mi_Text = ''x'', mi_Hints = [''notes''], mi_SourceRefs = [\<lparr>ms_Kind = ''git'', ms_Locator = ''abc''\<rparr>]\<rparr>"

lemma hex_char_ascii: "d < 16 \<Longrightarrow> of_char (hex_char d) < (0x80 :: nat)"
  by (auto simp: hex_char_def digit_char_ascii)

lemma canonical_valid: "valid_utf8 (canonical_text u)"
proof -
  have "list_all (\<lambda>c. (of_char c :: nat) < 0x80) (hexes u is)" for "is"
    by (auto simp: hexes_def list_all_iff hex_char_ascii)
  then show ?thesis by (intro valid_ascii) (simp add: canonical_text_def)
qed

lemma Extract_counts:
  assumes "Extract rt e i w = ((res, None), w')" and "x_extractor e i = Inr ds"
  shows "xr_Considered res = length ds \<and> xr_Dropped res \<le> length ds"
proof -
  let ?zero = "\<lparr>xr_Considered = length ds, xr_Saved = [], xr_Dropped = 0, xr_DecisionID = None\<rparr>"
  obtain r1 w1 where one: "fold (Extract_one rt e (x_clock e (w_ticks w))) ds (?zero, w\<lparr>w_ticks := Suc (w_ticks w)\<rparr>) = (r1, w1)"
    by fastforce
  then obtain w2 where "Extract_record rt e (x_clock e (w_ticks w)) i (r1, w2) = (res, w')"
    using assms by (auto simp: Extract_def Let_def case_prod_unfold split: if_splits)
  from Extract_record_accounts [OF this] Extract_loop_accounts [OF one] show ?thesis by simp
qed

text \<open>The limiters as \<^verbatim>\<open>main.go\<close> makes them let the first request of a client through.\<close>

abbreviation fresh_limiters :: "'w \<Rightarrow> RateLimiter \<times> RateLimiter \<times> 'w" where
  "fresh_limiters w \<equiv> (NewRateLimiter (f_lit 100) 20, NewRateLimiter (f_lit 50) 10, w)"

lemma fresh_admits: "fst (Allow 0 0 key (NewRateLimiter (f_lit 100) 20))" "fst (Allow 0 0 key (NewRateLimiter (f_lit 50) 10))"
proof -
  have "1 \<le> rl_min (f_of_int 20) (f_of_int 20 + duration_Seconds (time_Sub 0 0) * f_lit 100)"
    "1 \<le> rl_min (f_of_int 10) (f_of_int 10 + duration_Seconds (time_Sub 0 0) * f_lit 50)" by code_simp+
  then show "fst (Allow 0 0 key (NewRateLimiter (f_lit 100) 20))" "fst (Allow 0 0 key (NewRateLimiter (f_lit 50) 10))"
    by (simp_all add: Allow_def NewRateLimiter_def Let_def)
qed

lemma fresh_through:
  assumes "small_body body"
  shows "\<exists>l1 l2. through_limiters 0 (tool_request addr meth path q token body)
    (NewRateLimiter (f_lit 100) 20) (NewRateLimiter (f_lit 50) 10) = (True, l1, l2)"
proof -
  obtain key where k: "ownerKey (tool_request addr meth path q token body) = (Inr key, tool_request addr meth path q token body)"
    using ownerKey_small [OF _ assms] by (metis tool_request_def http_Request.simps(6))
  obtain l1 l2 where "Allow 0 0 (clientIP (tool_request addr meth path q token body)) (NewRateLimiter (f_lit 100) 20) = (True, l1)"
    "Allow 0 0 key (NewRateLimiter (f_lit 50) 10) = (True, l2)"
    using fresh_admits by (metis prod.collapse)
  then show ?thesis by (simp add: through_limiters_def k)
qed

theorem mcp_tools_run_pipelines_witness:
  "\<exists>out s'. nous_extract ErrPlain (mcp_to (\<lambda>_. ''0'') ''10.0.0.1:99'' (one_token_lib []) 0 ''secret'' None sample_http_env sample_runtime
     sample_server ''http://localhost:8080'') \<lparr>mx_base = ''http://localhost:8080'', mx_token = ''secret''\<rparr> sample_tool_input
     (fresh_limiters sample_resolve_world) = (Inr out, s') \<and> mo_Considered out = 3"
proof -
  have rt: "rt_str sample_runtime = canonical_text" by (simp add: sample_runtime_def)
  have sv: "sv_extractor sample_server = sample_extractor" "sv_evaluator sample_server = sample_evaluator" "sv_validator sample_server = None"
    by (simp_all add: sample_server_def http_NewServer_def)
  obtain ds where ds: "x_extractor sample_extractor (extract_input sample_tool_input) = Inr ds" "length ds = 3"
    by (simp add: sample_extractor_def sample_tool_input_def extract_input_def)
  obtain res err w' where e: "Extract sample_runtime sample_extractor (extract_input sample_tool_input) sample_resolve_world = ((res, err), w')"
    by (metis prod.exhaust)
  then have err: "err = None" using ds(1) by (auto simp: Extract_def Let_def case_prod_unfold)
  have ok: "input_ok sample_tool_input" "mi_OwnerID sample_tool_input \<noteq> []" "mi_Text sample_tool_input \<noteq> []" "validates sample_server sample_tool_input"
    by (simp_all add: input_ok_def sample_tool_input_def source_ok_def valid_ascii validates_def sv)
  have f1: "\<forall>r v. Extract sample_runtime (sv_extractor sample_server) (extract_input sample_tool_input) sample_resolve_world = ((r, None), v)
      \<longrightarrow> counts_fit (xr_Considered r) (xr_Dropped r)"
    using Extract_counts [OF _ ds(1), of sample_runtime] ds(2) by (fastforce simp: sv counts_fit_def max_int64_def)
  have f2: "\<forall>r v. Evaluate sample_runtime (sv_evaluator sample_server) \<lparr>eo_Limit = 0, eo_SignalLookback = 0\<rparr> sample_resolve_world = ((r, None), v)
      \<longrightarrow> counts_fit (r_Evaluated r) (r_Updated r)"
    by (auto simp: sv Evaluate_def sample_evaluator_def sample_resolve_world_def memory_New_def memory_empty_def
        commitmentRepo_FindActive_def Let_def counts_fit_def max_int64_def sample_orders_def sort_slice_def limit_slice_def)
  have v: "\<forall>u. valid_utf8 (rt_str sample_runtime u)" by (simp add: rt canonical_valid)
  have c: "''secret'' \<noteq> [] \<or> (None :: Verifier option) = None" by simp
  have "length (json_Marshal (mcp_extract_body sample_tool_input)) \<le> 100" by code_simp
  then have small: "length (json_Marshal (mcp_extract_body sample_tool_input)) \<le> one_MiB" by (simp add: one_MiB_def)
  then obtain l1 l2 where t: "through_limiters 0 (extract_request ''10.0.0.1:99'' ''secret'' sample_tool_input)
      (NewRateLimiter (f_lit 100) 20) (NewRateLimiter (f_lit 50) 10) = (True, l1, l2)"
    using fresh_through [of "Some (json_Marshal (mcp_extract_body sample_tool_input))"] by (simp only: small_body_def option.case) blast
  note run = mcp_tools_run_pipelines [where rt = sample_runtime and s = sample_server and i = sample_tool_input and w = sample_resolve_world
        and now = 0 and addr = "''10.0.0.1:99''" and ?l1.0 = "NewRateLimiter (f_lit 100) 20" and ?l2.0 = "NewRateLimiter (f_lit 50) 10",
      OF v c ok small f1 f2, THEN conjunct1]
  obtain out where "nous_extract ErrPlain (mcp_to (\<lambda>_. ''0'') ''10.0.0.1:99'' (one_token_lib []) 0 ''secret'' None sample_http_env sample_runtime
      sample_server ''http://localhost:8080'') \<lparr>mx_base = ''http://localhost:8080'', mx_token = ''secret''\<rparr> sample_tool_input
      (fresh_limiters sample_resolve_world) = (Inr out, (l1, l2, w'))" "mo_Considered out = int (xr_Considered res)"
    using run [unfolded sv e err prod.case option.case t bool.case] by fastforce
  then show ?thesis using Extract_counts [OF e [unfolded err] ds(1)] ds(2) by auto
qed


section \<open>Listing\<close>

text \<open>A list of structs is decoded into maps.\<close>

definition norm_members :: "anyval \<Rightarrow> anymap" where
  "norm_members v = (case any_norm v of VMap m \<Rightarrow> m | _ \<Rightarrow> [])"

definition listable :: "(float64 \<Rightarrow> string) \<Rightarrow> anyval \<Rightarrow> bool" where
  "listable fmt v \<longleftrightarrow> (\<exists>ms. v = VStruct ms) \<and> encodable v \<and> any_ok fmt v \<and> json_depth (any_json fmt v) < max_depth"

lemma decode_struct:
  assumes "listable fmt v"
  shows "decode_anymap None (any_json fmt v) = (Some (norm_members v), True)"
proof -
  obtain ms where v: "v = VStruct ms" using assms by (auto simp: listable_def)
  then obtain js where j: "any_json fmt v = JObject js" by simp
  have "json_any (any_json fmt v) = (any_norm v, True)" using assms by (intro any_roundtrip) (simp add: listable_def)
  moreover have "any_norm v = VMap (norm_members v)" by (simp add: v norm_members_def)
  ultimately have "json_any (JObject js) = (VMap (norm_members v), True)" unfolding j by (simp only:)
  then show ?thesis unfolding j by (simp add: decode_anymap_def Let_def)
qed

lemma listed_wire:
  assumes "list_all (listable fmt \<circ> f) xs"
  shows "encodable (VSlice n (map f xs))" "json_ok (any_json fmt (VSlice n (map f xs)))"
    "json_depth (any_json fmt (VSlice n (map f xs))) \<le> max_depth"
    "sane (any_json fmt (VSlice n (map f xs))) = any_json fmt (VSlice n (map f xs))"
    "decode_maps (any_json fmt (VSlice n (map f xs))) = (map (\<lambda>x. Some (norm_members (f x))) xs, True)"
proof -
  have l: "listable fmt (f x)" if "x \<in> set xs" for x using assms that by (simp add: list_all_iff)
  then show "encodable (VSlice n (map f xs))" by (auto simp: list_all_iff listable_def)
  have ok: "any_ok fmt (VSlice n (map f xs))" using l by (auto simp: list_all_iff listable_def)
  from any_json_ok [OF ok] show "json_ok (any_json fmt (VSlice n (map f xs)))" .
  from any_json_sane [OF ok] show "sane (any_json fmt (VSlice n (map f xs))) = any_json fmt (VSlice n (map f xs))" .
  have "json_depth (any_json fmt (f x)) \<le> max_depth - 1" if "x \<in> set xs" for x using l [OF that] by (auto simp: listable_def)
  then have "elems_depth (map (\<lambda>x. any_json fmt (f x)) xs) \<le> max_depth - 1" by (rule elems_depth_le)
  then show "json_depth (any_json fmt (VSlice n (map f xs))) \<le> max_depth" by (simp add: comp_def max_depth_def)
  show "decode_maps (any_json fmt (VSlice n (map f xs))) = (map (\<lambda>x. Some (norm_members (f x))) xs, True)"
    using decode_struct [OF l] by (simp add: decode_list_def list_all_iff)
qed

text \<open>Two requests with the same answer give the same result, up to the address an error names.\<close>

lemma mcpHTTP_same:
  assumes "mc_NewRequest hc meth u = None" "mc_NewRequest hc meth u' = None"
    and "mc_Do hc \<lparr>mm_Method = meth, mm_URL = u, mm_Header = mcp_headers token body, mm_Body = body\<rparr> w =
         mc_Do hc \<lparr>mm_Method = meth, mm_URL = u', mm_Header = mcp_headers token body, mm_Body = body\<rparr> w"
  shows "(fst (mcpHTTP bad hc meth u token body zero decode w) = Inr x) = (fst (mcpHTTP bad hc meth u' token body zero decode w) = Inr x)
    \<and> snd (mcpHTTP bad hc meth u token body zero decode w) = snd (mcpHTTP bad hc meth u' token body zero decode w)"
  using assms by (simp add: mcpHTTP_def split: prod.split sum.split option.split)

lemma mcpHTTP_world:
  assumes "mc_NewRequest hc meth u = None"
  shows "snd (mcpHTTP bad hc meth u token body zero decode w) =
    snd (mc_Do hc \<lparr>mm_Method = meth, mm_URL = u, mm_Header = mcp_headers token body, mm_Body = body\<rparr> w)"
  using assms by (simp add: mcpHTTP_def split: prod.split sum.split option.split)

lemma interventions_result:
  fixes i :: mcpListInterventionsInput
  defines "q \<equiv> (if mli_Status i \<noteq> [] then [(''status'', mli_Status i)] else []) @ (if 0 < mli_Limit i then [(''limit'', fmt_d (mli_Limit i))] else [])"
  shows "(fst (nous_list_interventions bad hc cfg i w) = Inr out) =
      (\<exists>raw. fst (mcpHTTP bad hc ''GET'' (with_query (mx_base cfg @ ''/v1/interventions'') q) (mx_token cfg) None [] decode_maps w) = Inr raw
        \<and> out = \<lparr>mlo_Interventions = raw, mlo_Count = int (length raw)\<rparr>)"
    "snd (nous_list_interventions bad hc cfg i w) =
      snd (mcpHTTP bad hc ''GET'' (with_query (mx_base cfg @ ''/v1/interventions'') q) (mx_token cfg) None [] decode_maps w)"
  unfolding nous_list_interventions_def Let_def q_def by (auto split: prod.split sum.split)

lemma sort_members_sub: "k \<notin> fst ` set q \<Longrightarrow> values_Get (sort_members q) k = []"
  by (simp add: values_Get_def map_of_eq_None_iff [THEN iffD2])

lemma interventions_unfiltered:
  assumes "''commitment_id'' \<notin> fst ` set q"
  shows "mux env rt s (tool_request addr ''GET'' ''/v1/interventions'' q token None) w =
    mux env rt s (tool_request addr ''GET'' ''/v1/interventions'' [] token None) w"
proof -
  have none: "values_Get (hr_Query (tool_request addr ''GET'' ''/v1/interventions'' q' token None)) ''commitment_id'' = []"
    if "''commitment_id'' \<notin> fst ` set q'" for q' using sort_members_sub [OF that] by (simp add: tool_request_def)
  have "mux env rt s (tool_request addr ''GET'' ''/v1/interventions'' q' token None) w =
      handleListInterventions env rt s (tool_request addr ''GET'' ''/v1/interventions'' q' token None) w" for q'
    by (rule mux_interventions) (simp_all add: tool_request_def)
  then show ?thesis using none [OF assms] none [of "[]"] by (simp add: handleListInterventions_def)
qed

lemma through_unfiltered:
  assumes "''owner_id'' \<notin> fst ` set q"
  shows "through_limiters now (tool_request addr ''GET'' path q token None) l1 l2 =
    through_limiters now (tool_request addr ''GET'' path [] token None) l1 l2"
proof -
  have none: "values_Get (sort_members q') ''owner_id'' = []" if "''owner_id'' \<notin> fst ` set q'" for q' :: "(string \<times> string) list"
    using sort_members_sub [OF that] .
  have ip: "clientIP (tool_request addr ''GET'' path q' token None) = clientIP (tool_request addr ''GET'' path [] token None)" for q'
    by (simp add: clientIP_def tool_request_def Let_def)
  have "fst (ownerKey (tool_request addr ''GET'' path q' token None)) =
      (let v = TrimSpace (values_Get (mcp_headers token None) ''X-Nous-Owner'') in
       Inr (if v \<noteq> [] then ''owner:'' @ v else ''ip:'' @ clientIP (tool_request addr ''GET'' path [] token None)))"
    if "''owner_id'' \<notin> fst ` set q'" for q'
    using none [OF that] ip [of q'] by (simp add: ownerKey_def tool_request_def TrimSpace_Nil Let_def)
  from this [OF assms] this [of "[]"] have "fst (ownerKey (tool_request addr ''GET'' path q token None)) =
      fst (ownerKey (tool_request addr ''GET'' path [] token None))" by simp
  then show ?thesis unfolding through_limiters_def ip [of q] by (simp only:)
qed

lemma interventions_answer:
  assumes "token \<noteq> [] \<or> verifier = None" and "fst ` set q \<subseteq> {''status'', ''limit''}"
  shows "mc_Do (mcp_to fmt addr lib now token verifier env rt s base) \<lparr>mm_Method = ''GET'',
      mm_URL = with_query (base @ ''/v1/interventions'') q, mm_Header = mcp_headers token None, mm_Body = None\<rparr> (l1, l2, w) =
    mc_Do (mcp_to fmt addr lib now token verifier env rt s base) \<lparr>mm_Method = ''GET'',
      mm_URL = with_query (base @ ''/v1/interventions'') [], mm_Header = mcp_headers token None, mm_Body = None\<rparr> (l1, l2, w)"
proof -
  have small: "small_body None" by (simp add: small_body_def)
  have "''commitment_id'' \<notin> fst ` set q" "''owner_id'' \<notin> fst ` set q" using assms(2) by auto
  note same = interventions_unfiltered [OF this(1)] through_unfiltered [OF this(2)]
  show ?thesis unfolding mcp_to_def local_client_def mcp_client.simps
    by (simp add: tool_wire [OF tool_path_simps(4) assms(1) small] same split: prod.split)
qed

text \<open>
  The filters of \<^verbatim>\<open>nous_list_interventions\<close> have no effect: whatever status and limit a call names, it succeeds exactly
  when the call without them does, with the same interventions, the same count and the same effect on limiters and world, because the
  endpoint it queries reads neither.
\<close>

lemma mcp_intervention_filters_ignored:
  assumes "token \<noteq> [] \<or> verifier = None"
  shows "(fst (nous_list_interventions bad (mcp_to fmt addr lib now token verifier env rt s base) \<lparr>mx_base = base, mx_token = token\<rparr> i (l1, l2, w)) = Inr out)
      = (fst (nous_list_interventions bad (mcp_to fmt addr lib now token verifier env rt s base) \<lparr>mx_base = base, mx_token = token\<rparr>
           \<lparr>mli_Status = [], mli_Limit = 0\<rparr> (l1, l2, w)) = Inr out)
    \<and> snd (nous_list_interventions bad (mcp_to fmt addr lib now token verifier env rt s base) \<lparr>mx_base = base, mx_token = token\<rparr> i (l1, l2, w))
      = snd (nous_list_interventions bad (mcp_to fmt addr lib now token verifier env rt s base) \<lparr>mx_base = base, mx_token = token\<rparr>
           \<lparr>mli_Status = [], mli_Limit = 0\<rparr> (l1, l2, w))"
proof -
  let ?hc = "mcp_to fmt addr lib now token verifier env rt s base"
  let ?q = "(if mli_Status i \<noteq> [] then [(''status'', mli_Status i)] else []) @ (if 0 < mli_Limit i then [(''limit'', fmt_d (mli_Limit i))] else [])"
  let ?m = "\<lambda>u. mcpHTTP bad ?hc ''GET'' u token None [] decode_maps (l1, l2, w)"
  let ?u = "with_query (base @ ''/v1/interventions'') ?q" and ?v = "with_query (base @ ''/v1/interventions'') []"
  have new: "mc_NewRequest ?hc ''GET'' u = None" for u by (simp add: mcp_to_def local_client_def)
  have "fst ` set ?q \<subseteq> {''status'', ''limit''}" by auto
  note answers = interventions_answer [OF assms this, of fmt addr lib now env rt s base l1 l2 w]
  have same: "(fst (?m ?u) = Inr x) = (fst (?m ?v) = Inr x) \<and> snd (?m ?u) = snd (?m ?v)" for x
    by (rule mcpHTTP_same [OF new new]) (simp only: answers)
  then show ?thesis unfolding interventions_result by simp
qed

text \<open>The query of \<^verbatim>\<open>nous_list_decisions\<close> as the server reads it.\<close>

definition decisions_query :: "mcpListDecisionsInput \<Rightarrow> (string \<times> string) list" where
  "decisions_query i = (if mdi_Subject i \<noteq> [] then [(''subject'', mdi_Subject i)] else []) @
     (if 0 < mdi_Limit i then [(''limit'', fmt_d (mdi_Limit i))] else [])"

lemma decisions_query_read:
  "values_Get (sort_members (decisions_query i)) ''subject'' = mdi_Subject i"
  "values_Get (sort_members (decisions_query i)) ''limit'' = (if 0 < mdi_Limit i then fmt_d (mdi_Limit i) else [])"
  by (simp_all add: decisions_query_def sort_slice_def string_less_def values_Get_def)

lemma fmt_d_nonempty: "fmt_d n \<noteq> []"
  by (simp add: fmt_d_def) (subst nat_dec.simps, simp)

abbreviation decisions_request :: "string \<Rightarrow> string \<Rightarrow> mcpListDecisionsInput \<Rightarrow> http_Request" where
  "decisions_request addr token i \<equiv> tool_request addr ''GET'' ''/v1/decisions'' (decisions_query i) token None"

lemma decisions_answer:
  assumes "mdi_Limit i \<le> max_int64"
  shows "mux env rt s (decisions_request addr token i) w =
    (if mdi_Subject i = [] then (httpError 400 ''subject is required'', w)
     else case DListBySubject (sv_decisions s) (w_store w) (mdi_Subject i) (max 0 (mdi_Limit i)) of
       Inl err \<Rightarrow> (httpError 500 (he_text env err), w)
     | Inr ds \<Rightarrow> (respond (VSlice ''decisionJSON'' (map (decisionToJSON (rt_str rt)) ds)), w))"
proof -
  let ?x = "decisions_request addr token i"
  have q: "values_Get (hr_Query ?x) ''subject'' = mdi_Subject i"
    "values_Get (hr_Query ?x) ''limit'' = (if 0 < mdi_Limit i then fmt_d (mdi_Limit i) else [])"
    by (simp_all add: tool_request_def decisions_query_read)
  have n: "0 < mdi_Limit i \<Longrightarrow> Atoi (fmt_d (mdi_Limit i)) = Some (mdi_Limit i)" using assms by (simp add: Atoi_fmt_d)
  have "mux env rt s ?x w = handleListDecisions env rt s ?x w" by (rule mux_decisions) (simp_all add: tool_request_def)
  also have "\<dots> = (if mdi_Subject i = [] then (httpError 400 ''subject is required'', w)
     else case DListBySubject (sv_decisions s) (w_store w) (mdi_Subject i) (max 0 (mdi_Limit i)) of
       Inl err \<Rightarrow> (httpError 500 (he_text env err), w)
     | Inr ds \<Rightarrow> (respond (VSlice ''decisionJSON'' (map (decisionToJSON (rt_str rt)) ds)), w))"
    unfolding handleListDecisions_def Let_def q by (cases "0 < mdi_Limit i") (simp_all add: n fmt_d_nonempty max_def)
  finally show ?thesis .
qed

lemma decisions_result:
  assumes "mdi_ID i = []"
  shows "nous_list_decisions bad hc cfg i w =
    (case mcpHTTP bad hc ''GET'' (with_query (mx_base cfg @ ''/v1/decisions'') (decisions_query i)) (mx_token cfg) None [] decode_maps w of
       (Inl err, w) \<Rightarrow> (Inl err, w)
     | (Inr raw, w) \<Rightarrow> (Inr \<lparr>mdo_Decisions = raw, mdo_Count = int (length raw)\<rparr>, w))"
  using assms by (simp add: nous_list_decisions_def decisions_query_def Let_def)

lemma decisions_result_cases:
  assumes "mdi_ID i = []" and "m = mcpHTTP bad hc ''GET'' (with_query (base @ ''/v1/decisions'') (decisions_query i)) token None [] decode_maps w"
  shows "\<exists>e. m = (Inl e, w') \<Longrightarrow> \<exists>e. nous_list_decisions bad hc \<lparr>mx_base = base, mx_token = token\<rparr> i w = (Inl e, w')"
    and "m = (Inr raw, w') \<Longrightarrow> nous_list_decisions bad hc \<lparr>mx_base = base, mx_token = token\<rparr> i w =
      (Inr \<lparr>mdo_Decisions = raw, mdo_Count = int (length raw)\<rparr>, w')"
  using assms by (auto simp: decisions_result)

lemma decisions_world:
  assumes "mdi_ID i = []" and "mdi_Limit i \<le> max_int64" and "token \<noteq> [] \<or> verifier = None"
    and "through_limiters now (decisions_request addr token i) l1 l2 = (ok, l1', l2')"
  shows "snd (nous_list_decisions bad (mcp_to fmt addr lib now token verifier env rt s base) \<lparr>mx_base = base, mx_token = token\<rparr> i (l1, l2, w))
    = (l1', l2', w)"
proof -
  let ?hc = "mcp_to fmt addr lib now token verifier env rt s base" and ?u = "with_query (base @ ''/v1/decisions'') (decisions_query i)"
  have small: "small_body None" by (simp add: small_body_def)
  have new: "mc_NewRequest ?hc ''GET'' ?u = None" by (simp add: mcp_to_def local_client_def)
  have "snd (mux env rt s (decisions_request addr token i) w) = w"
    unfolding decisions_answer [OF assms(2)] by (simp split: sum.split)
  then have "snd (mcpHTTP bad ?hc ''GET'' ?u token None [] decode_maps (l1, l2, w)) = (l1', l2', w)"
    unfolding mcpHTTP_world [OF new] unfolding mcp_to_def local_client_def mcp_client.simps
    by (simp add: tool_wire [OF tool_path_simps(3) assms(3) small] assms(4) case_prod_unfold)
  then show ?thesis unfolding decisions_result [OF assms(1)] mcp_config.simps by (auto simp: case_prod_unfold split: sum.split)
qed

text \<open>
  (C27) \<^verbatim>\<open>nous_list_decisions\<close> by subject, against the whole chain this program serves. When a limiter refuses the request the
  tool fails. Otherwise, without an identifier a call needs a subject, although its schema calls it optional:
  without one it fails. With one, whatever bytes it holds, the repository is asked for exactly that subject and limit, and the tool fails
  when the repository does. When every decision it lists is \<open>listable\<close> (its texts are UTF-8, its numbers finite, its nesting below the
  decoder's limit) the tool returns them all, each as the map the JSON of the HTTP API decodes to; but when one of them cannot be
  encoded (an infinite or NaN number, which the configuration admits as a weight) the tool reports no error and no decisions.
  In every case, other decisions included, the world stays as it is.
\<close>

theorem mcp_decisions_by_subject:
  assumes "token \<noteq> [] \<or> verifier = None" and "mdi_ID i = []" and "mdi_Limit i \<le> max_int64"
  shows "case through_limiters now (decisions_request addr token i) l1 l2 of (ok, l1', l2') \<Rightarrow>
    snd (nous_list_decisions bad (mcp_to fmt addr lib now token verifier env rt s base) \<lparr>mx_base = base, mx_token = token\<rparr> i (l1, l2, w)) = (l1', l2', w)
    \<and> (if \<not> ok \<or> mdi_Subject i = []
       then \<exists>e. fst (nous_list_decisions bad (mcp_to fmt addr lib now token verifier env rt s base) \<lparr>mx_base = base, mx_token = token\<rparr> i (l1, l2, w)) = Inl e
       else case DListBySubject (sv_decisions s) (w_store w) (mdi_Subject i) (max 0 (mdi_Limit i)) of
         Inl err \<Rightarrow>
           \<exists>e. fst (nous_list_decisions bad (mcp_to fmt addr lib now token verifier env rt s base) \<lparr>mx_base = base, mx_token = token\<rparr> i (l1, l2, w)) = Inl e
       | Inr ds \<Rightarrow>
           (list_all (listable fmt \<circ> decisionToJSON (rt_str rt)) ds \<longrightarrow>
             fst (nous_list_decisions bad (mcp_to fmt addr lib now token verifier env rt s base) \<lparr>mx_base = base, mx_token = token\<rparr> i (l1, l2, w)) =
               Inr \<lparr>mdo_Decisions = map (\<lambda>d. Some (norm_members (decisionToJSON (rt_str rt) d))) ds, mdo_Count = int (length ds)\<rparr>)
           \<and> (list_ex (\<lambda>d. \<not> encodable (decisionToJSON (rt_str rt) d)) ds \<longrightarrow>
             fst (nous_list_decisions bad (mcp_to fmt addr lib now token verifier env rt s base) \<lparr>mx_base = base, mx_token = token\<rparr> i (l1, l2, w)) =
               Inr \<lparr>mdo_Decisions = [], mdo_Count = 0\<rparr>))"
proof -
  let ?hc = "mcp_to fmt addr lib now token verifier env rt s base" and ?ds = "DListBySubject (sv_decisions s) (w_store w) (mdi_Subject i) (max 0 (mdi_Limit i))"
  let ?run = "nous_list_decisions bad ?hc \<lparr>mx_base = base, mx_token = token\<rparr> i (l1, l2, w)"
  obtain ok l1' l2' where t: "through_limiters now (decisions_request addr token i) l1 l2 = (ok, l1', l2')" by (metis prod_cases3)
  have small: "small_body None" by (simp add: small_body_def)
  note world = decisions_world [OF assms(2,3,1) t, of bad fmt lib env rt s base w]
  note result = decisions_result_cases [OF assms(2) refl, of bad ?hc base token "(l1, l2, w)"]
  note answer = decisions_answer [OF assms(3), of env rt s addr token w]
  note served = tool_served [OF tool_path_simps(3) assms(1) small, where ?l1.0 = l1 and q = "decisions_query i" and meth = "''GET''"]
  consider "\<not> ok" | "ok" "mdi_Subject i = []" | err where "ok" "mdi_Subject i \<noteq> []" "?ds = Inl err"
    | ds where "ok" "mdi_Subject i \<noteq> []" "?ds = Inr ds" by (metis sum.exhaust)
  then show ?thesis
  proof cases
    case 1
    then have "through_limiters now (decisions_request addr token i) l1 l2 = (False, l1', l2')" using t by simp
    from result(1) [OF tool_limited [OF tool_path_simps(3) assms(1) small this]] show ?thesis using 1 world by (auto simp: t)
  next
    case 2
    from served(1) [OF t [unfolded eqTrueI [OF 2(1)]] answer [unfolded if_P [OF 2(2)]]]
    have "\<exists>e. ?run = (Inl e, (l1', l2', w))" by (intro result(1)) simp
    then show ?thesis using 2 world by (auto simp: t)
  next
    case 3
    from served(1) [OF t [unfolded eqTrueI [OF 3(1)]] answer [unfolded if_not_P [OF 3(2)] 3(3) sum.case]]
    have "\<exists>e. ?run = (Inl e, (l1', l2', w))" by (intro result(1)) simp
    then show ?thesis using 3 world by (auto simp: t)
  next
    case 4
    note r = t [unfolded eqTrueI [OF 4(1)]] answer [unfolded if_not_P [OF 4(2)] 4(3) sum.case]
    have "?run = (Inr \<lparr>mdo_Decisions = map (\<lambda>d. Some (norm_members (decisionToJSON (rt_str rt) d))) ds, mdo_Count = int (length ds)\<rparr>, (l1', l2', w))"
      if "list_all (listable fmt \<circ> decisionToJSON (rt_str rt)) ds"
      using result(2) [OF served(2) [where decode = decode_maps, OF r refl listed_wire [OF that]]] by simp
    moreover have "?run = (Inr \<lparr>mdo_Decisions = [], mdo_Count = 0\<rparr>, (l1', l2', w))"
      if "list_ex (\<lambda>d. \<not> encodable (decisionToJSON (rt_str rt) d)) ds"
    proof -
      have "\<not> encodable (VSlice ''decisionJSON'' (map (decisionToJSON (rt_str rt)) ds))" using that by (auto simp: list_ex_iff list_all_iff)
      from result(2) [OF served(3) [OF r refl this]] show ?thesis by simp
    qed
    ultimately show ?thesis using 4 world by (simp add: t)
  qed
qed

text \<open>A decision recorded with an infinite weight hides itself and every other decision of its subject.\<close>

definition sample_decision :: Decision where
  "sample_decision = \<lparr>d_ID = 31, d_Subject = ''commitment.evaluate'', d_ContextRefs = [], d_Inputs = None, d_Weights = Some [(''overdue'', PInf)],
     d_Outcome = None, d_Reason = ''r'', d_Confidence = 1, d_CreatedAt = 0\<rparr>"

theorem mcp_decisions_by_subject_witness:
  "fst (nous_list_decisions ErrPlain (mcp_to (\<lambda>_. ''0'') ''10.0.0.1:99'' (one_token_lib []) 0 ''secret'' None sample_http_env sample_runtime
      sample_server ''http://localhost:8080'') \<lparr>mx_base = ''http://localhost:8080'', mx_token = ''secret''\<rparr>
      \<lparr>mdi_Subject = ''commitment.evaluate'', mdi_ID = [], mdi_Limit = 5\<rparr>
      (fresh_limiters (sample_resolve_world\<lparr>w_store := memory_empty\<lparr>st_decisions := [(canonical_text 31, sample_decision)]\<rparr>\<rparr>))) =
    Inr \<lparr>mdo_Decisions = [], mdo_Count = 0\<rparr>"
proof -
  let ?w = "sample_resolve_world\<lparr>w_store := memory_empty\<lparr>st_decisions := [(canonical_text 31, sample_decision)]\<rparr>\<rparr>"
  let ?i = "\<lparr>mdi_Subject = ''commitment.evaluate'', mdi_ID = [], mdi_Limit = 5\<rparr>"
  have ds: "DListBySubject (sv_decisions sample_server) (w_store ?w) ''commitment.evaluate'' (max 0 5) = Inr [sample_decision]"
    by (simp add: sample_server_def http_NewServer_def memory_New_def sample_orders_def decisionRepo_ListBySubject_def
        cloneDecision_def copy_map_def sample_decision_def sort_slice_def limit_slice_def Let_def)
  have bad: "\<not> encodable (decisionToJSON canonical_text sample_decision)"
    by (simp add: decisionToJSON_def sample_decision_def opt_field_def)
  obtain l1 l2 where t: "through_limiters 0 (decisions_request ''10.0.0.1:99'' ''secret'' ?i)
      (NewRateLimiter (f_lit 100) 20) (NewRateLimiter (f_lit 50) 10) = (True, l1, l2)"
    using fresh_through [of None] by (simp only: small_body_def option.case) blast
  have "''secret'' \<noteq> [] \<or> (None :: Verifier option) = None" "mdi_ID ?i = []" "mdi_Limit ?i \<le> max_int64" by (simp_all add: max_int64_def)
  note mcp_decisions_by_subject [OF this, where s = sample_server and w = ?w and bad = ErrPlain and fmt = "\<lambda>_. ''0''"
      and addr = "''10.0.0.1:99''" and lib = "one_token_lib []" and now = 0 and env = sample_http_env and rt = sample_runtime
      and base = "''http://localhost:8080''" and ?l1.0 = "NewRateLimiter (f_lit 100) 20" and ?l2.0 = "NewRateLimiter (f_lit 50) 10"]
  then show ?thesis using ds bad unfolding t by (simp add: sample_runtime_def)
qed

end
