(* ===== verification/Nous_Process.thy ===== *)
theory Nous_Process
  imports Nous_Main Coordination
begin

text \<open>
  The process: the order in which \<^verbatim>\<open>run\<close> of \<^verbatim>\<open>cmd/nous/main.go\<close> opens and closes what it uses, the adapter health
  monitor with the gauges of \<^verbatim>\<open>internal/observability/metrics.go\<close>, and the constructor and the budget of the axi
  kernel in \<^verbatim>\<open>internal/coordination/axi.go\<close>. A run is the list of the calls that open, start, stop and close, with the
  error it returns; a deferred call runs when the function returns, last in first out.
\<close>

section \<open>Calls\<close>

datatype resource =
    ResTracer | ResStore | ResMnemos | ResChronos | ResRotator | ResGrpcListener | ResHttpListener | ResWorker

datatype service = SrvMonitor | SrvRotator | SrvGrpc | SrvHttp

datatype run_call = Opened resource | Closed resource | Started service | GracefulStop | HttpShutdown

type_synonym run_result = "run_call list \<times> error option"

text \<open>\<^verbatim>\<open>x := open(); defer x.Close(); ..\<close>\<close>

definition deferring :: "resource \<Rightarrow> run_result \<Rightarrow> run_result" where
  "deferring r rest = (case rest of (calls, err) \<Rightarrow> (Opened r # calls @ [Closed r], err))"

definition starting :: "service \<Rightarrow> run_result \<Rightarrow> run_result" where
  "starting s rest = (case rest of (calls, err) \<Rightarrow> (Started s # calls, err))"

definition failing :: "error \<Rightarrow> run_result" where
  "failing err = ([], Some err)"


section \<open>The run\<close>

text \<open>What ends the wait: a signal, or the return of one of the servers.\<close>

datatype ending = Signalled | GrpcReturned "error option" | HttpReturned "error option"

record 's run_env =
  rv_getenv :: "string \<Rightarrow> string"
  rv_lower :: "string \<Rightarrow> string"
  rv_printable :: "nat \<Rightarrow> bool"
  rv_InitTracer :: "error option"
  rv_open :: "string \<Rightarrow> string \<Rightarrow> error + 's Conn"
  rv_mnemos :: "Config \<Rightarrow> error + MnemosClient"
  rv_chronos :: "Config \<Rightarrow> error + ChronosClient"
  rv_praxis :: "Config \<Rightarrow> PraxisClient"
  rv_llm :: llm_env
  rv_Now :: "nat \<Rightarrow> time"
  rv_rand :: "string + string"
  rv_jwt_text :: "jwt_error \<Rightarrow> error"
  rv_tls :: "Config \<Rightarrow> error + tls_Config option"
  rv_Listen :: "string \<Rightarrow> error option"
  rv_cel :: cel_lib
  rv_build_text :: "build_error \<Rightarrow> error"
  rv_ending :: ending

text \<open>\<^verbatim>\<open>grpc.ErrServerStopped\<close> and \<^verbatim>\<open>http.ErrServerClosed\<close>.\<close>

definition ErrServerStopped :: error where
  "ErrServerStopped = ErrPlain ''grpc: the server has been stopped''"

definition ErrServerClosed :: error where
  "ErrServerClosed = ErrPlain ''http: Server closed''"

definition run_stop :: "bool \<Rightarrow> run_result" where
  "run_stop http = (GracefulStop # (if http then [HttpShutdown] else []), None)"

definition run_wait :: "'s run_env \<Rightarrow> bool \<Rightarrow> run_result" where
  "run_wait v http = (case rv_ending v of
       Signalled \<Rightarrow> run_stop http
     | GrpcReturned (Some err) \<Rightarrow> if err_root err \<noteq> ErrServerStopped then failing err else run_stop http
     | GrpcReturned None \<Rightarrow> run_stop http
     | HttpReturned (Some err) \<Rightarrow> if err_root err \<noteq> ErrServerClosed then failing err else run_stop http
     | HttpReturned None \<Rightarrow> run_stop http)"

definition run_worker :: "'s run_env \<Rightarrow> bool \<Rightarrow> run_result" where
  "run_worker v http = deferring ResWorker (run_wait v http)"

definition run_http :: "'s run_env \<Rightarrow> Config \<Rightarrow> run_result" where
  "run_http v cfg =
    (if HTTPAddr cfg \<noteq> [] then
       (case buildValidator (rv_cel v) (ValidationRules cfg) of
          Inl err \<Rightarrow> failing (ErrWrap ''validation'' (rv_build_text v err))
        | Inr validator \<Rightarrow>
           (case rv_Listen v (HTTPAddr cfg) of
              Some err \<Rightarrow> failing err
            | None \<Rightarrow> deferring ResHttpListener
                (case rv_tls v cfg of
                   Inl err \<Rightarrow> failing (ErrWrap ''http tls'' err)
                 | Inr _ \<Rightarrow> starting SrvHttp (run_worker v True))))
     else run_worker v False)"

definition run_grpc :: "'s run_env \<Rightarrow> Config \<Rightarrow> run_result" where
  "run_grpc v cfg =
    (case rv_tls v cfg of
       Inl err \<Rightarrow> failing (ErrWrap ''grpc tls'' err)
     | Inr _ \<Rightarrow>
        (case rv_Listen v (GRPCAddr cfg) of
           Some err \<Rightarrow> failing err
         | None \<Rightarrow> deferring ResGrpcListener (starting SrvGrpc (run_http v cfg))))"

definition run_keys :: "'s run_env \<Rightarrow> Config \<Rightarrow> run_result" where
  "run_keys v cfg =
    (case buildJWTRotator (rv_rand v) (rv_Now v 0) cfg of
       Inl err \<Rightarrow> failing (ErrWrap ''jwt rotator'' (rv_jwt_text v err))
     | Inr (Some rotator) \<Rightarrow> starting SrvRotator (deferring ResRotator (run_grpc v cfg))
     | Inr None \<Rightarrow>
        (case buildJWTVerifier cfg of
           Inl err \<Rightarrow> failing (ErrWrap ''jwt'' (rv_jwt_text v err))
         | Inr _ \<Rightarrow> run_grpc v cfg))"

definition run :: "'s run_env \<Rightarrow> run_result" where
  "run v = (case Load (rv_lower v) (rv_printable v) (rv_getenv v) of
       Inl err \<Rightarrow> failing err
     | Inr cfg \<Rightarrow>
    (case rv_InitTracer v of Some err \<Rightarrow> failing err | None \<Rightarrow> deferring ResTracer
    (case rv_open v (DBType cfg) (DBDSN cfg) of Inl err \<Rightarrow> failing err | Inr conn \<Rightarrow> deferring ResStore
    (case rv_mnemos v cfg of Inl err \<Rightarrow> failing err | Inr mnemos \<Rightarrow> deferring ResMnemos
    (case rv_chronos v cfg of Inl err \<Rightarrow> failing err | Inr chronos \<Rightarrow> deferring ResChronos
      (starting SrvMonitor
        (case run_pipelines (rv_llm v) (rv_Now v) conn mnemos chronos (rv_praxis v cfg) cfg of
           Inl err \<Rightarrow> failing err
         | Inr pipelines \<Rightarrow> run_keys v cfg)))))))"

text \<open>\<^verbatim>\<open>main\<close>: the exit code.\<close>

definition main_exit :: "string list \<Rightarrow> error option \<Rightarrow> 's run_env \<Rightarrow> int" where
  "main_exit args mcp v =
    (if 1 < length args \<and> args ! 1 = ''mcp'' then (case mcp of Some _ \<Rightarrow> 1 | None \<Rightarrow> 0)
     else (case snd (run v) of Some _ \<Rightarrow> 1 | None \<Rightarrow> 0))"


section \<open>Metrics\<close>

text \<open>The collectors \<^verbatim>\<open>NewMetrics\<close> registers with their labels; registering one name twice would panic.\<close>

definition NewMetrics :: "(string \<times> string list) list" where
  "NewMetrics =
    [(''nous_commitments_extracted_total'', [''status'']), (''nous_evaluations_run_total'', [''status'']),
     (''nous_interventions_created_total'', [''action'']),
     (''nous_http_request_duration_seconds'', [''method'', ''path'', ''status'']),
     (''nous_grpc_request_duration_seconds'', [''method'', ''status'']), (''nous_risk_score'', [''outcome'']),
     (''nous_mnemos_adapter_health'', [''adapter'']), (''nous_chronos_adapter_health'', [''adapter''])]"

text \<open>The gauge, its label value and what it is set to; other adapters have no gauge.\<close>

definition SetAdapterHealth :: "string \<Rightarrow> string \<Rightarrow> (string \<times> string \<times> float64) option" where
  "SetAdapterHealth adapter status =
    (let value = (if status = ''healthy'' then 1 else if status = ''degraded'' then f_lit (5/10) else 0)
     in if adapter = ''mnemos'' then Some (''nous_mnemos_adapter_health'', adapter, value)
        else if adapter = ''chronos'' then Some (''nous_chronos_adapter_health'', adapter, value)
        else None)"

text \<open>One tick of \<^verbatim>\<open>monitorAdapterHealth\<close>.\<close>

definition monitorAdapterHealth :: "mnemos_Adapter option \<Rightarrow> chronos_Adapter option \<Rightarrow> (string \<times> string \<times> float64) option list" where
  "monitorAdapterHealth mnemos chronos =
     (case mnemos of Some a \<Rightarrow> [SetAdapterHealth ''mnemos'' (mnemos_AdapterStatus a)] | None \<Rightarrow> []) @
     (case chronos of Some a \<Rightarrow> [SetAdapterHealth ''chronos'' (chronos_AdapterStatus a)] | None \<Rightarrow> [])"


section \<open>The axi kernel\<close>

record axi_Budget =
  MaxDuration :: duration
  MaxCapabilityInvocations :: int

definition axiBudgetFromEnv :: "(string \<Rightarrow> string) \<Rightarrow> axi_Budget" where
  "axiBudgetFromEnv env =
    (let b = \<lparr>MaxDuration = 5 * minute, MaxCapabilityInvocations = 1000\<rparr>;
         v = TrimSpace (env ''NOUS_AXI_MAX_DURATION'');
         b = (if v \<noteq> [] then (case time_ParseDuration v of Some d \<Rightarrow> if 0 < d then b\<lparr>MaxDuration := d\<rparr> else b | None \<Rightarrow> b) else b);
         v = TrimSpace (env ''NOUS_AXI_MAX_INVOCATIONS'');
         b = (if v \<noteq> [] then (case Atoi v of Some n \<Rightarrow> if 0 < n then b\<lparr>MaxCapabilityInvocations := n\<rparr> else b | None \<Rightarrow> b) else b)
     in b)"

text \<open>What axi-go answers while the plugin is defined and registered.\<close>

record axi_lib =
  al_NewActionName :: "string \<Rightarrow> error option"
  al_NewActionDefinition :: "string \<Rightarrow> error option"
  al_BindExecutor :: "string \<Rightarrow> error option"
  al_RegisterPlugin :: "string list \<Rightarrow> error option"

definition axiActionName :: string where "axiActionName = ''nous-execute-intervention''"
definition axiExecutorRef :: string where "axiExecutorRef = ''exec.execute_intervention''"

definition newPlugin :: "axi_lib \<Rightarrow> error + string list" where
  "newPlugin lib = (case al_NewActionName lib axiActionName of
       Some err \<Rightarrow> Inl (ErrWrap ''invalid action name'' err)
     | None \<Rightarrow> (case al_NewActionDefinition lib axiActionName of
         Some err \<Rightarrow> Inl (ErrWrap ''define action'' err)
       | None \<Rightarrow> (case al_BindExecutor lib axiExecutorRef of
           Some err \<Rightarrow> Inl (ErrWrap ''bind executor'' err)
         | None \<Rightarrow> Inr [axiActionName])))"

record AxiKernel =
  ak_budget :: axi_Budget
  ak_executors :: "(string \<times> PraxisClient) list"
  ak_actions :: "string list"

definition NewAxiKernel :: "axi_lib \<Rightarrow> (string \<Rightarrow> string) \<Rightarrow> PraxisClient option \<Rightarrow> bool \<Rightarrow> error + AxiKernel" where
  "NewAxiKernel lib env praxis logger = (case requirePraxis praxis of
       Some err \<Rightarrow> Inl err
     | None \<Rightarrow>
        if \<not> logger then Inl (ErrPlain ''coordination: bolt logger required'')
        else (case newPlugin lib of
            Inl err \<Rightarrow> Inl (ErrWrap ''coordination: build plugin'' err)
          | Inr plugin \<Rightarrow> (case al_RegisterPlugin lib plugin of
              Some err \<Rightarrow> Inl (ErrWrap ''coordination: register plugin'' err)
            | None \<Rightarrow> Inr \<lparr>ak_budget = axiBudgetFromEnv env, ak_executors = [(axiExecutorRef, the praxis)], ak_actions = plugin\<rparr>)))"


section \<open>Lemmas\<close>

lemma run_result_simps [simp]:
  "fst (starting s rr) = Started s # fst rr" "snd (starting s rr) = snd rr"
  "fst (deferring r rr) = Opened r # fst rr @ [Closed r]" "snd (deferring r rr) = snd rr"
  by (simp_all add: starting_def deferring_def split: prod.split)

text \<open>The resources open after some calls, the last one first; closing any other one is not allowed.\<close>

fun still_open :: "resource list \<Rightarrow> run_call list \<Rightarrow> resource list option" where
  "still_open rs [] = Some rs"
| "still_open rs (Opened r # cs) = still_open (r # rs) cs"
| "still_open rs (Closed r # cs) = (case rs of x # xs \<Rightarrow> if x = r then still_open xs cs else None | [] \<Rightarrow> None)"
| "still_open rs (_ # cs) = still_open rs cs"

definition tidy :: "run_result \<Rightarrow> bool" where
  "tidy rr \<longleftrightarrow> (\<forall>rs. still_open rs (fst rr) = Some rs)"

lemma still_open_append:
  "still_open rs (as @ bs) = (case still_open rs as of None \<Rightarrow> None | Some xs \<Rightarrow> still_open xs bs)"
  by (induction rs as rule: still_open.induct) (auto split: list.split)

named_theorems tidy_intros

lemma tidy_failing [tidy_intros]: "tidy (failing err)"
  by (simp add: tidy_def failing_def)

lemma tidy_starting [tidy_intros]: "tidy rr \<Longrightarrow> tidy (starting s rr)"
  by (simp add: tidy_def)

lemma tidy_deferring [tidy_intros]: "tidy rr \<Longrightarrow> tidy (deferring r rr)"
  by (simp add: tidy_def still_open_append)

lemma tidy_wait [tidy_intros]: "tidy (run_wait v http)"
  by (auto simp: tidy_def run_wait_def run_stop_def failing_def split: ending.split option.split)

lemma tidy_worker [tidy_intros]: "tidy (run_worker v http)"
  unfolding run_worker_def by (intro tidy_intros)

lemma tidy_http [tidy_intros]: "tidy (run_http v cfg)"
  unfolding run_http_def by (auto intro!: tidy_intros split: sum.split option.split)

lemma tidy_grpc [tidy_intros]: "tidy (run_grpc v cfg)"
  unfolding run_grpc_def by (auto intro!: tidy_intros split: sum.split option.split)

lemma tidy_keys [tidy_intros]: "tidy (run_keys v cfg)"
  unfolding run_keys_def by (auto intro!: tidy_intros split: sum.split option.split)

lemma tidy_run: "tidy (run v)"
  unfolding run_def by (auto intro!: tidy_intros split: sum.split option.split)

text \<open>An orderly end: the servers are asked to stop first, then the worker, then the rest is closed.\<close>

definition orderly :: "run_result \<Rightarrow> bool" where
  "orderly rr \<longleftrightarrow> (snd rr = None \<longrightarrow>
     (\<exists>pre post. fst rr = pre @ Closed ResWorker # post \<and> GracefulStop \<in> set pre \<and> (\<forall>r. Closed r \<notin> set pre)))"

named_theorems orderly_intros

lemma orderly_failing [orderly_intros]: "orderly (failing err)"
  by (simp add: orderly_def failing_def)

lemma orderly_starting [orderly_intros]:
  assumes "orderly rr"
  shows "orderly (starting s rr)"
  unfolding orderly_def
proof
  assume "snd (starting s rr) = None"
  then obtain pre post where "fst rr = pre @ Closed ResWorker # post" "GracefulStop \<in> set pre" "\<forall>r. Closed r \<notin> set pre"
    using assms by (auto simp: orderly_def)
  then show "\<exists>pre post. fst (starting s rr) = pre @ Closed ResWorker # post \<and> GracefulStop \<in> set pre \<and> (\<forall>r. Closed r \<notin> set pre)"
    by - (rule exI [of _ "Started s # pre"], simp)
qed

lemma orderly_deferring [orderly_intros]:
  assumes "orderly rr"
  shows "orderly (deferring r rr)"
  unfolding orderly_def
proof
  assume "snd (deferring r rr) = None"
  then obtain pre post where "fst rr = pre @ Closed ResWorker # post" "GracefulStop \<in> set pre" "\<forall>r. Closed r \<notin> set pre"
    using assms by (auto simp: orderly_def)
  then show "\<exists>pre post. fst (deferring r rr) = pre @ Closed ResWorker # post \<and> GracefulStop \<in> set pre \<and> (\<forall>r. Closed r \<notin> set pre)"
    by - (rule exI [of _ "Opened r # pre"], simp)
qed

lemma wait_stops:
  "snd (run_wait v http) = None \<Longrightarrow> GracefulStop \<in> set (fst (run_wait v http)) \<and> (\<forall>r. Closed r \<notin> set (fst (run_wait v http)))"
  by (auto simp: run_wait_def run_stop_def failing_def split: ending.splits option.splits if_splits)

lemma orderly_worker [orderly_intros]: "orderly (run_worker v http)"
  unfolding orderly_def
proof
  assume "snd (run_worker v http) = None"
  then have "snd (run_wait v http) = None" by (simp add: run_worker_def)
  from wait_stops [OF this]
  show "\<exists>pre post. fst (run_worker v http) = pre @ Closed ResWorker # post \<and> GracefulStop \<in> set pre \<and> (\<forall>r. Closed r \<notin> set pre)"
    by - (rule exI [of _ "Opened ResWorker # fst (run_wait v http)"], simp add: run_worker_def)
qed

lemma orderly_http [orderly_intros]: "orderly (run_http v cfg)"
  unfolding run_http_def by (auto intro!: orderly_intros split: sum.split option.split)

lemma orderly_grpc [orderly_intros]: "orderly (run_grpc v cfg)"
  unfolding run_grpc_def by (auto intro!: orderly_intros split: sum.split option.split)

lemma orderly_keys [orderly_intros]: "orderly (run_keys v cfg)"
  unfolding run_keys_def by (auto intro!: orderly_intros split: sum.split option.split)

lemma orderly_run: "orderly (run v)"
  unfolding run_def by (auto intro!: orderly_intros split: sum.split option.split)

lemma run_closes_store: "snd (run v) = None \<Longrightarrow> Closed ResStore \<in> set (fst (run v))"
  by (auto simp: run_def failing_def split: sum.splits option.splits)

text \<open>No name is registered twice, the gauges are registered, and a budget from the environment is positive.\<close>

lemma NewMetrics_registers: "distinct (map fst NewMetrics)"
  by (simp add: NewMetrics_def)

lemma health_registered: "SetAdapterHealth adapter status = Some (gauge, label, x) \<Longrightarrow> gauge \<in> set (map fst NewMetrics) \<and> 0 \<le> x \<and> x \<le> 1"
proof -
  have "0 \<le> f_lit (5/10)" "f_lit (5/10) \<le> 1" by code_simp+
  then show "SetAdapterHealth adapter status = Some (gauge, label, x) \<Longrightarrow> gauge \<in> set (map fst NewMetrics) \<and> 0 \<le> x \<and> x \<le> 1"
    by (auto simp: SetAdapterHealth_def NewMetrics_def Let_def zero_float64_def one_float64_def split: if_splits)
qed

lemma axi_budget_positive: "0 < MaxDuration (axiBudgetFromEnv env) \<and> 0 < MaxCapabilityInvocations (axiBudgetFromEnv env)"
  by (simp add: axiBudgetFromEnv_def Let_def split: option.split)


section \<open>Properties\<close>

text \<open>
  (C30) Whatever fails while the process starts or runs, what it has opened when \<^verbatim>\<open>run\<close> returns has been closed, in the reverse
  order of opening, and nothing else has been closed. When \<^verbatim>\<open>run\<close> returns without an error the gRPC server has been asked to
  stop before anything was closed, the worker has been stopped first, and the store was closed after it.
\<close>

theorem run_lifecycle:
  "still_open [] (fst (run v)) = Some []
   \<and> (snd (run v) = None \<longrightarrow> (\<exists>pre post. fst (run v) = pre @ Closed ResWorker # post \<and> GracefulStop \<in> set pre
        \<and> (\<forall>r. Closed r \<notin> set pre) \<and> Closed ResStore \<in> set post))"
proof (intro conjI impI)
  show "still_open [] (fst (run v)) = Some []" using tidy_run [of v] by (simp add: tidy_def)
  assume ok: "snd (run v) = None"
  then obtain pre post where split: "fst (run v) = pre @ Closed ResWorker # post" and pre: "GracefulStop \<in> set pre" "\<forall>r. Closed r \<notin> set pre"
    using orderly_run [of v] by (auto simp: orderly_def)
  have "Closed ResStore \<in> set post" using run_closes_store [OF ok] pre(2) by (auto simp: split)
  with split pre show "\<exists>pre post. fst (run v) = pre @ Closed ResWorker # post \<and> GracefulStop \<in> set pre
        \<and> (\<forall>r. Closed r \<notin> set pre) \<and> Closed ResStore \<in> set post" by blast
qed

text \<open>A process on the memory store that is ended by a signal.\<close>

definition sample_run :: "state run_env" where
  "sample_run = \<lparr>rv_getenv = odd_env, rv_lower = ascii_lower, rv_printable = (\<lambda>_. True), rv_InitTracer = None,
     rv_open = (\<lambda>t d. Inr (fst (memory_New canonical_text sample_orders))), rv_mnemos = (\<lambda>c. Inr sample_mnemos),
     rv_chronos = (\<lambda>c. Inr sample_chronos), rv_praxis = (\<lambda>c. silent_praxis), rv_llm = offline, rv_Now = (\<lambda>n. 2000), rv_rand = Inl ''no'',
     rv_jwt_text = (\<lambda>e. ErrPlain ''jwt''), rv_tls = (\<lambda>c. Inr None), rv_Listen = (\<lambda>a. None),
     rv_cel = \<lparr>cel_NewEnv = None, cel_Compile = (\<lambda>e. Inl (ErrPlain e))\<rparr>, rv_build_text = (\<lambda>e. ErrPlain ''rule''), rv_ending = Signalled\<rparr>"

lemma sample_run_ends: "snd (run sample_run) = None"
proof -
  let ?cfg = "read_config ascii_lower odd_env"
  have "TrimSpace [] = []" "ascii_lower [] = []" "ascii_lower ''sqlite'' = ''sqlite''" by (simp_all add: TrimSpace_def ascii_lower_def)
  then have l: "Load ascii_lower (\<lambda>_. True) odd_env = Inr ?cfg"
    by (simp add: Load_Inr read_config_def odd_env_def getenv_def parseDuration_def provider_ok_def load_llm_def store_types_def)
  have "HTTPAddr ?cfg = []" "JWTRotatePeriod ?cfg = 0" "JWTSecretHex ?cfg = []" "JWTPrevSecHex ?cfg = []"
    by (simp_all add: read_config_def odd_env_def parseDuration_def)
  then have "snd (run_keys sample_run ?cfg) = None"
    by (simp add: run_keys_def buildJWTRotator_def buildJWTVerifier_def run_grpc_def run_http_def run_worker_def run_wait_def run_stop_def
        sample_run_def)
  moreover obtain x e where "run_pipelines offline (\<lambda>n. 2000) (fst (memory_New canonical_text sample_orders)) sample_mnemos sample_chronos
      silent_praxis ?cfg = Inr (x, e)" using odd_env_builds by blast
  ultimately show ?thesis
    by (simp add: run_def l sample_run_def)
qed

theorem run_lifecycle_witness:
  "still_open [] (fst (run sample_run)) = Some [] \<and> (\<exists>pre post. fst (run sample_run) = pre @ Closed ResWorker # post \<and> GracefulStop \<in> set pre
        \<and> (\<forall>r. Closed r \<notin> set pre) \<and> Closed ResStore \<in> set post)"
  using run_lifecycle [of sample_run] sample_run_ends by simp

end
