(* ===== verification/Service.thy ===== *)
theory Service
  imports Grpc_Server Evaluation_Worker Coordination Default_Policy
begin

text \<open>
  The running service: the requests that reach the HTTP chain and the gRPC server of \<^verbatim>\<open>cmd/nous/main.go\<close> and the
  ticks of the worker, in any order, over one memory store. The mutex of the store makes every repository call one step; a
  whole request is taken as one step here. The theory shows what every such history keeps: the store invariant with
  referential integrity, the identity of what was stored, and the direction in which statuses move.
\<close>

section \<open>The traffic\<close>

text \<open>The methods of the gRPC service, with the request messages of \<open>Grpc_Server\<close>.\<close>

datatype grpc_request =
    GExtract ExtractRequest | GEvaluate EvaluateRequest | GListCommitments ListCommitmentsRequest
  | GGetCommitment string | GListDecisions string int | GGetDecision string
  | GListInterventions ListInterventionsRequest | GGetIntervention string | GResolveIntervention string string

datatype grpc_reply = OneMessage anyval | Messages "anyval list"

definition replying :: "('a \<Rightarrow> grpc_reply) \<Rightarrow> 'a grpc_result \<times> 'w \<Rightarrow> grpc_reply grpc_result \<times> 'w" where
  "replying f rw = (case rw of (r, w) \<Rightarrow> (map_sum (\<lambda>x. x) f r, w))"

definition grpc_dispatch :: "grpc_env \<Rightarrow> runtime \<Rightarrow> 's grpc_Server \<Rightarrow> (grpc_request, grpc_reply, 's world) unary_handler" where
  "grpc_dispatch env rt s q w = (case q of
       GExtract req \<Rightarrow> replying OneMessage (grpc_Extract env rt s req w)
     | GEvaluate req \<Rightarrow> replying OneMessage (grpc_Evaluate env rt s req w)
     | GListCommitments req \<Rightarrow> replying Messages (grpc_ListCommitments env rt s req w)
     | GGetCommitment i \<Rightarrow> replying OneMessage (GetCommitment env rt s i w)
     | GListDecisions subject limit \<Rightarrow> replying Messages (ListDecisions env rt s (subject, limit) w)
     | GGetDecision i \<Rightarrow> replying OneMessage (GetDecision env rt s i w)
     | GListInterventions req \<Rightarrow> replying Messages (ListInterventions env rt s req w)
     | GGetIntervention i \<Rightarrow> replying OneMessage (GetIntervention env rt s i w)
     | GResolveIntervention i status \<Rightarrow> replying OneMessage (ResolveIntervention env rt s (i, status) w))"

text \<open>
  One service: what \<^verbatim>\<open>run\<close> builds and serves. An event carries what varies from one to the next: the clock reading, the
  answers of the request's context, the request.
\<close>

record 's service =
  sc_rt :: runtime
  sc_henv :: http_env
  sc_genv :: grpc_env
  sc_lib :: jwt_lib
  sc_token :: string
  sc_verifier :: "Verifier option"
  sc_http :: "'s Server"
  sc_grpc :: "'s grpc_Server"
  sc_evaluator :: "'s Evaluator"

datatype event =
    EvHttp time "nat \<Rightarrow> error option" http_Request
  | EvGrpc time "nat \<Rightarrow> error option" "metadata option" grpc_request
  | EvTick time time "nat \<Rightarrow> error option"

type_synonym 's service_state = "RateLimiter \<times> RateLimiter \<times> 's world"

abbreviation world_of :: "'s service_state \<Rightarrow> 's world" where
  "world_of s \<equiv> snd (snd s)"

definition with_ctx :: "(nat \<Rightarrow> error option) \<Rightarrow> runtime \<Rightarrow> runtime" where
  "with_ctx ctx rt = rt\<lparr>rt_ctxErr := ctx\<rparr>"

definition service_step :: "'s service \<Rightarrow> 's service_state \<Rightarrow> event \<Rightarrow> 's service_state" where
  "service_step sv s ev = (case ev of
       EvHttp now ctx r \<Rightarrow> snd (root_handler ((sc_henv sv)\<lparr>he_now := now\<rparr>) (with_ctx ctx (sc_rt sv)) (sc_lib sv) now
           (sc_token sv) (sc_verifier sv) (sc_http sv) r s)
     | EvGrpc now ctx md q \<Rightarrow> (case s of (l1, l2, w) \<Rightarrow> (l1, l2,
           snd (CombinedAuthInterceptor (sc_lib sv) (rt_printable (sc_rt sv)) now (sc_token sv) (sc_verifier sv) md
             (grpc_dispatch ((sc_genv sv)\<lparr>ge_now := now\<rparr>) (with_ctx ctx (sc_rt sv)) (sc_grpc sv)) q w)))
     | EvTick t1 t2 ctx \<Rightarrow> (case s of (l1, l2, w) \<Rightarrow> (l1, l2, snd (tick (with_ctx ctx (sc_rt sv)) (sc_evaluator sv) t1 t2 w))))"

definition serve :: "'s service \<Rightarrow> event list \<Rightarrow> 's service_state \<Rightarrow> 's service_state" where
  "serve sv evs s = foldl (service_step sv) s evs"

text \<open>The limiters of \<^verbatim>\<open>main.go\<close>, a new memory store, nothing drawn and nothing sent.\<close>

definition fresh_state :: "state service_state" where
  "fresh_state = (NewRateLimiter (f_lit 100) 20, NewRateLimiter (f_lit 50) 10,
     \<lparr>w_store = memory_empty, w_out = [], w_ids = 0, w_ticks = 0\<rparr>)"

text \<open>Both transports and the worker share the repositories of one memory store.\<close>

definition memory_service :: "range_orders \<Rightarrow> state service \<Rightarrow> bool" where
  "memory_service r sv \<longleftrightarrow>
     memory_wired (sc_rt sv) r (sc_evaluator sv) \<and> memory_wired (sc_rt sv) r (sv_evaluator (sc_http sv))
     \<and> memory_wired (sc_rt sv) r (gs_evaluator (sc_grpc sv))
     \<and> memory_extractor (sc_rt sv) r (sv_extractor (sc_http sv)) \<and> memory_extractor (sc_rt sv) r (gs_extractor (sc_grpc sv))
     \<and> sv_intervs (sc_http sv) = conn_Interventions (fst (memory_New (rt_str (sc_rt sv)) r))
     \<and> gs_interventions (sc_grpc sv) = conn_Interventions (fst (memory_New (rt_str (sc_rt sv)) r))"

section \<open>What a history keeps\<close>

text \<open>
  The invariant: the rows are those the service creates. Commitments are pending and stay so, interventions belong to a
  stored commitment and suggest no action, all identifiers have been drawn, goals and tasks are never written.
\<close>

definition own_commitment :: "runtime \<Rightarrow> nat \<Rightarrow> Commitment \<Rightarrow> bool" where
  "own_commitment rt n c \<longleftrightarrow>
     Commitment_Validate c = None \<and> c_Status c = CommitmentPending \<and> drawn_from rt 0 n (c_ID c)"

definition own_decision :: "runtime \<Rightarrow> nat \<Rightarrow> Decision \<Rightarrow> bool" where
  "own_decision rt n d \<longleftrightarrow> Decision_Validate d = None \<and> drawn_from rt 0 n (d_ID d)"

definition own_intervention :: "runtime \<Rightarrow> nat \<Rightarrow> (string \<Rightarrow> Commitment option) \<Rightarrow> Intervention \<Rightarrow> bool" where
  "own_intervention rt n com iv \<longleftrightarrow> Intervention_Validate iv = None \<and> drawn_from rt 0 n (iv_ID iv)
     \<and> iv_SuggestedAction iv = None \<and> iv_TaskID iv = None
     \<and> (\<exists>k. iv_CommitmentID iv = Some k \<and> com (rt_str rt k) \<noteq> None)"

definition service_inv :: "runtime \<Rightarrow> state world \<Rightarrow> bool" where
  "service_inv rt w \<longleftrightarrow>
     table_wf (rt_str rt) c_ID (own_commitment rt (w_ids w)) (st_commitments (w_store w))
     \<and> table_wf (rt_str rt) d_ID (own_decision rt (w_ids w)) (st_decisions (w_store w))
     \<and> table_wf (rt_str rt) iv_ID (own_intervention rt (w_ids w) (map_of (st_commitments (w_store w))))
         (st_interventions (w_store w))
     \<and> st_goals (w_store w) = [] \<and> st_tasks (w_store w) = []"

text \<open>What may change of a stored row.\<close>

definition same_commitment :: "Commitment \<Rightarrow> Commitment \<Rightarrow> bool" where
  "same_commitment c c' \<longleftrightarrow> c' = c\<lparr>c_RiskScore := c_RiskScore c', c_LastEvaluatedAt := c_LastEvaluatedAt c',
     c_UpdatedAt := c_UpdatedAt c'\<rparr>"

definition same_intervention :: "Intervention \<Rightarrow> Intervention \<Rightarrow> bool" where
  "same_intervention iv iv' \<longleftrightarrow> iv' = iv\<lparr>iv_Status := iv_Status iv', iv_ResolvedAt := iv_ResolvedAt iv'\<rparr>
     \<and> InterventionStatus_CanTransitionTo\<^sup>*\<^sup>* (iv_Status iv) (iv_Status iv')"

definition table_keeps :: "('v \<Rightarrow> 'v \<Rightarrow> bool) \<Rightarrow> 'v rows \<Rightarrow> 'v rows \<Rightarrow> bool" where
  "table_keeps R m m' \<longleftrightarrow> (\<forall>k v. map_of m k = Some v \<longrightarrow> (\<exists>v'. map_of m' k = Some v' \<and> R v v'))"

definition store_keeps :: "state \<Rightarrow> state \<Rightarrow> bool" where
  "store_keeps st st' \<longleftrightarrow> table_keeps same_commitment (st_commitments st) (st_commitments st')
     \<and> table_keeps (=) (st_decisions st) (st_decisions st')
     \<and> table_keeps same_intervention (st_interventions st) (st_interventions st')"

text \<open>A piece of the program, within the first \<open>N\<close> identifiers, establishes the invariant again and keeps the rows.\<close>

definition keeps :: "runtime \<Rightarrow> nat \<Rightarrow> state world \<Rightarrow> state world \<Rightarrow> bool" where
  "keeps rt N w w' \<longleftrightarrow> w_ids w \<le> w_ids w'
     \<and> (w_ids w' \<le> N \<longrightarrow> service_inv rt w \<longrightarrow> service_inv rt w' \<and> store_keeps (w_store w) (w_store w'))"

lemma same_refl [simp]: "same_commitment c c" "same_intervention iv iv"
  by (simp_all add: same_commitment_def same_intervention_def)

lemma same_commitment_trans: "same_commitment a b \<Longrightarrow> same_commitment b c \<Longrightarrow> same_commitment a c"
  by (cases a; cases b; cases c) (auto simp: same_commitment_def)

lemma same_intervention_trans: "same_intervention a b \<Longrightarrow> same_intervention b c \<Longrightarrow> same_intervention a c"
  by (cases a; cases b; cases c) (auto simp: same_intervention_def)

lemma table_keepsD: "table_keeps R m m' \<Longrightarrow> map_of m k = Some v \<Longrightarrow> \<exists>v'. map_of m' k = Some v' \<and> R v v'"
  by (simp add: table_keeps_def)

lemma table_keeps_None: "table_keeps R m m' \<Longrightarrow> map_of m' k = None \<Longrightarrow> map_of m k = None"
  by (cases "map_of m k") (auto dest: table_keepsD)

lemma table_keeps_refl: "(\<And>v. R v v) \<Longrightarrow> table_keeps R m m"
  by (simp add: table_keeps_def)

lemma table_keeps_trans:
  "(\<And>a b c. R a b \<Longrightarrow> R b c \<Longrightarrow> R a c) \<Longrightarrow> table_keeps R m1 m2 \<Longrightarrow> table_keeps R m2 m3 \<Longrightarrow> table_keeps R m1 m3"
  unfolding table_keeps_def by metis

lemma table_keeps_update:
  "(\<And>v. R v v) \<Longrightarrow> (\<And>old. map_of m k = Some old \<Longrightarrow> R old v) \<Longrightarrow> table_keeps R m (AList.update k v m)"
  by (auto simp: table_keeps_def)

lemma table_keeps_new: "(\<And>v. R v v) \<Longrightarrow> map_of m k = None \<Longrightarrow> table_keeps R m (AList.update k v m)"
  by (auto simp: table_keeps_def)

lemma store_keeps_refl [simp]: "store_keeps st st"
  by (simp add: store_keeps_def table_keeps_refl)

lemma store_keeps_trans: "store_keeps a b \<Longrightarrow> store_keeps b c \<Longrightarrow> store_keeps a c"
  unfolding store_keeps_def
  by (elim conjE, intro conjI; rule table_keeps_trans, (assumption | erule same_commitment_trans | erule same_intervention_trans)?)
     (assumption | simp)+

lemma keeps_trans: "keeps rt N u v \<Longrightarrow> keeps rt N v w \<Longrightarrow> keeps rt N u w"
  unfolding keeps_def by (meson order.trans store_keeps_trans)

lemma keepsD:
  "keeps rt N w w' \<Longrightarrow> w_ids w' \<le> N \<Longrightarrow> service_inv rt w \<Longrightarrow> service_inv rt w' \<and> store_keeps (w_store w) (w_store w')"
  by (simp add: keeps_def)

lemma table_wf_mono:
  "table_wf str ident ok m \<Longrightarrow> (\<And>v. ok v \<Longrightarrow> ok' v) \<Longrightarrow> table_wf str ident ok' m"
  by (auto simp: table_wf_def)

lemma drawn_more: "drawn_from rt 0 n i \<Longrightarrow> n \<le> m \<Longrightarrow> drawn_from rt 0 m i"
  unfolding drawn_from_def using order.strict_trans2 by blast

text \<open>Drawing identifiers, reading the clock and calling out touch no row.\<close>

lemma own_mono:
  "own_commitment rt n c \<Longrightarrow> n \<le> m \<Longrightarrow> own_commitment rt m c"
  "own_decision rt n d \<Longrightarrow> n \<le> m \<Longrightarrow> own_decision rt m d"
  "own_intervention rt n com iv \<Longrightarrow> n \<le> m \<Longrightarrow> (\<And>k. com k \<noteq> None \<Longrightarrow> com' k \<noteq> None) \<Longrightarrow> own_intervention rt m com' iv"
  unfolding own_commitment_def own_decision_def own_intervention_def using drawn_more by blast+

lemma service_inv_more:
  assumes "service_inv rt w" and "w_store w' = w_store w" and "w_ids w \<le> w_ids w'"
  shows "service_inv rt w'"
  using assms(1) unfolding service_inv_def assms(2)
  by (elim conjE) (intro conjI; (assumption | erule table_wf_mono; blast intro: own_mono assms(3)))

lemma keeps_same_store: "w_store w' = w_store w \<Longrightarrow> w_ids w \<le> w_ids w' \<Longrightarrow> keeps rt N w w'"
  unfolding keeps_def using service_inv_more [of rt w w'] by simp

lemma keeps_refl [simp]: "keeps rt N w w"
  by (simp add: keeps_same_store)

lemma service_inv_wf: "service_inv rt w \<Longrightarrow> state_wf (rt_str rt) (w_store w)"
  unfolding service_inv_def state_wf_def own_commitment_def own_decision_def own_intervention_def
  by (auto intro: table_wf_mono)

lemma with_ctx_simps [simp]:
  "rt_uuid (with_ctx ctx rt) = rt_uuid rt" "rt_str (with_ctx ctx rt) = rt_str rt"
  "rt_printable (with_ctx ctx rt) = rt_printable rt" "rt_ctxErr (with_ctx ctx rt) = ctx"
  by (simp_all add: with_ctx_def)

lemma with_ctx_keeps [simp]:
  "drawn_from (with_ctx ctx rt) n m i = drawn_from rt n m i" "service_inv (with_ctx ctx rt) w = service_inv rt w"
  "keeps (with_ctx ctx rt) N w w' = keeps rt N w w'"
proof -
  show d: "drawn_from (with_ctx ctx rt) n m i = drawn_from rt n m i" for n m i by (simp add: drawn_from_def)
  have o: "own_commitment (with_ctx ctx rt) n = own_commitment rt n" "own_decision (with_ctx ctx rt) n = own_decision rt n"
    "own_intervention (with_ctx ctx rt) n com = own_intervention rt n com" for n com
    by (simp_all add: fun_eq_iff own_commitment_def own_decision_def own_intervention_def d)
  show i: "service_inv (with_ctx ctx rt) w = service_inv rt w" for w by (simp add: service_inv_def o)
  show "keeps (with_ctx ctx rt) N w w' = keeps rt N w w'" by (simp add: keeps_def i)
qed


section \<open>Identifiers are only drawn\<close>

text \<open>A pass draws at most two identifiers for each commitment it scans.\<close>

definition draws :: "nat \<Rightarrow> 's world \<Rightarrow> 's world \<Rightarrow> bool" where
  "draws n w w' \<longleftrightarrow> w_ids w \<le> w_ids w' \<and> w_ids w' \<le> w_ids w + n"

lemma draws_trans: "draws m u v \<Longrightarrow> draws n v w \<Longrightarrow> draws (m + n) u w"
  by (simp add: draws_def)

lemma recordDecision_ids: "draws 1 w (snd (recordDecision rt e c a sigs now w))"
  by (auto simp: draws_def recordDecision_def Let_def split: sum.splits option.splits prod.splits)

lemma intervene_ids: "draws 1 w (snd (intervene rt e c a now w))"
  by (auto simp: draws_def intervene_def Let_def split: sum.splits option.splits)

lemma Evaluate_save_ids: "w_ids (snd (Evaluate_save rt e c iv result w)) = w_ids w"
  by (cases "ISave (e_interventions e) (w_store w) iv") (auto simp: Evaluate_save_def Let_def split: option.splits)

lemma Evaluate_decide_draws: "draws 2 w (snd (Evaluate_decide rt e c a sigs now result w))"
proof -
  obtain dec w1 where 1: "recordDecision rt e c a sigs now w = (dec, w1)" by fastforce
  obtain ivr w2 where 2: "intervene rt e c a now w1 = (ivr, w2)" by fastforce
  have "draws 2 w w2"
    using draws_trans [OF recordDecision_ids [of w rt e c a sigs now]] intervene_ids [of w1 rt e c a now] 1 2
    by (metis one_add_one snd_conv)
  then show ?thesis by (simp add: draws_def Evaluate_decide_def 1 2 Evaluate_save_ids split: option.splits sum.splits)
qed

lemma Evaluate_one_draws: "draws 2 w (snd (Evaluate_one rt e opts now c result w))"
proof -
  obtain sigs w1 where 1: "fetchSignals e c (eo_SignalLookback opts) now w = (sigs, w1)" by fastforce
  obtain mems w2 where 2: "fetchMemories e c now w1 = (mems, w2)" by fastforce
  let ?a = "EvaluateCommitment (e_risk e) c sigs mems now"
  let ?w3 = "if e_metrics e then ObserveRiskScore ''scored'' (ra_Score ?a) w2 else w2"
  have i: "w_ids ?w3 = w_ids w"
    using fetch_store(2) [of e c "eo_SignalLookback opts" now w] fetch_store(4) [of e c now w1] 1 2 by auto
  obtain ue st where u: "CUpdateRisk (e_commitments e) (w_store ?w3) (c_ID c) (ra_Score ?a) now = (ue, st)" by fastforce
  show ?thesis using i Evaluate_decide_draws [of "?w3\<lparr>w_store := st\<rparr>" rt e c ?a sigs now]
    by (cases ue) (simp_all add: draws_def Evaluate_one_def 1 2 u Let_def del: if_split)
qed

lemma Evaluate_loop_draws: "draws (2 * length cs) w (snd (Evaluate_loop rt e opts now i cs result w))"
proof (induction cs arbitrary: i result w)
  case (Cons c cs)
  obtain r1 w1 where one: "Evaluate_one rt e opts now c result w = (r1, w1)" by fastforce
  have "draws 2 w w1" using Evaluate_one_draws [of w rt e opts now c result] one by simp
  from draws_trans [OF this Cons.IH [of w1 "Suc i" r1]] show ?case by (simp add: one draws_def split: option.split)
qed (simp add: draws_def)

lemma Evaluate_draws:
  assumes "CFindActive (e_commitments e) (w_store w) (eo_Limit opts) = Inr cs"
  shows "draws (2 * length cs) w (snd (Evaluate rt e opts w))"
  using Evaluate_loop_draws [of cs "start_world e w" rt e opts]
  by (simp add: Evaluate_scanned [OF assms] draws_def)

lemma Evaluate_ids: "w_ids w \<le> w_ids (snd (Evaluate rt e opts w))"
proof (cases "CFindActive (e_commitments e) (w_store w) (eo_Limit opts)")
  case (Inl err)
  then show ?thesis by (simp add: Evaluate_def Let_def)
next
  case (Inr cs)
  from Evaluate_draws [OF this, of rt] show ?thesis by (simp add: draws_def)
qed

text \<open>An intervention for a commitment that was not there before.\<close>

definition nudged :: "uuid \<Rightarrow> state world \<Rightarrow> state world \<Rightarrow> bool" where
  "nudged k w w' \<longleftrightarrow> (\<exists>x iv. map_of (st_interventions (w_store w')) x = Some iv \<and> iv_CommitmentID iv = Some k
     \<and> map_of (st_interventions (w_store w)) x = None)"

lemma nudged_after: "store_keeps (w_store u) (w_store v) \<Longrightarrow> nudged k v w \<Longrightarrow> nudged k u w"
proof -
  assume k: "store_keeps (w_store u) (w_store v)" and "nudged k v w"
  then obtain x iv where x: "map_of (st_interventions (w_store w)) x = Some iv" "iv_CommitmentID iv = Some k"
    "map_of (st_interventions (w_store v)) x = None" by (auto simp: nudged_def)
  have "map_of (st_interventions (w_store u)) x = None"
    using k x(3) unfolding store_keeps_def by (blast intro: table_keeps_None)
  with x show ?thesis by (auto simp: nudged_def)
qed

lemma same_intervention_for: "same_intervention iv iv' \<Longrightarrow> iv_CommitmentID iv' = iv_CommitmentID iv"
  by (cases iv; cases iv') (simp add: same_intervention_def)

lemma nudged_before: "nudged k u v \<Longrightarrow> store_keeps (w_store v) (w_store w) \<Longrightarrow> nudged k u w"
proof -
  assume "nudged k u v" and keep: "store_keeps (w_store v) (w_store w)"
  then obtain x iv where x: "map_of (st_interventions (w_store v)) x = Some iv" "iv_CommitmentID iv = Some k"
    "map_of (st_interventions (w_store u)) x = None" by (auto simp: nudged_def)
  obtain iv' where "map_of (st_interventions (w_store w)) x = Some iv'" "same_intervention iv iv'"
    using table_keepsD [OF _ x(1)] keep unfolding store_keeps_def by blast
  with x same_intervention_for [of iv iv'] show ?thesis by (auto simp: nudged_def)
qed


section \<open>The supply of identifiers\<close>

text \<open>
  The service relies on \<^verbatim>\<open>uuid.New\<close> for identifiers that are not nil and, within the first \<open>N\<close>, not repeated, and on
  their text for being distinct.
\<close>

locale id_supply = id_text "rt_str rt" for rt :: runtime +
  fixes N :: nat
  assumes distinct_ids: "inj_on (rt_uuid rt) {..<N}"
    and no_nil: "rt_uuid rt n \<noteq> uuid_Nil"
begin

lemma fresh_id: "n < N \<Longrightarrow> \<not> drawn_from rt 0 n (rt_uuid rt n)"
  using distinct_ids unfolding drawn_from_def
  by (metis inj_onD lessThan_iff less_irrefl order.strict_trans)

lemma drawn_new: "drawn_from rt 0 (Suc n) (rt_uuid rt n)"
  by (auto simp: drawn_from_def)

text \<open>A row saved under the identifier just drawn replaces none.\<close>

lemma fresh_row:
  assumes "table_wf (rt_str rt) ident ok m" and "\<And>v. ok v \<Longrightarrow> drawn_from rt 0 n (ident v)" and "n < N"
  shows "map_of m (rt_str rt (rt_uuid rt n)) = None"
proof (rule ccontr)
  assume "map_of m (rt_str rt (rt_uuid rt n)) \<noteq> None"
  then obtain v where "rt_str rt (rt_uuid rt n) = rt_str rt (ident v)" "ok v"
    using table_wf_lookup [OF assms(1)] by blast
  then show False using assms(2) fresh_id [OF assms(3)] by (metis str_eq)
qed

lemma keeps_new_commitment:
  assumes "c_ID c = rt_uuid rt (w_ids w)" and "c_Status c = CommitmentPending"
  shows "keeps rt N w (w\<lparr>w_ids := Suc (w_ids w), w_store := snd (commitmentRepo_Save (rt_str rt) (w_store w) c)\<rparr>)"
    (is "keeps rt N w ?w")
proof (cases "Commitment_Validate c")
  case None
  let ?m = "st_commitments (w_store w)"
  have st: "w_store ?w = (w_store w)\<lparr>st_commitments := AList.update (rt_str rt (c_ID c)) c ?m\<rparr>"
    by (simp add: commitmentRepo_Save_def None clone_simps)
  show ?thesis unfolding keeps_def
  proof (intro conjI impI)
    assume N: "w_ids ?w \<le> N" and inv: "service_inv rt w"
    have c: "table_wf (rt_str rt) c_ID (own_commitment rt (w_ids ?w)) ?m"
      using inv unfolding service_inv_def by (auto elim!: table_wf_mono intro: own_mono)
    have "own_commitment rt (w_ids ?w) c" using assms None drawn_new by (simp add: own_commitment_def)
    from table_wf_update [OF c, of c, OF this] inv show "service_inv rt ?w"
      unfolding service_inv_def st by (auto elim!: table_wf_mono intro: own_mono)
    have "map_of ?m (rt_str rt (c_ID c)) = None" unfolding assms(1)
      using inv N by (intro fresh_row [of c_ID "own_commitment rt (w_ids w)"]) (auto simp: service_inv_def own_commitment_def)
    then show "store_keeps (w_store w) (w_store ?w)"
      by (simp add: st store_keeps_def table_keeps_refl table_keeps_new)
  qed simp
qed (simp add: commitmentRepo_Save_def keeps_same_store)

lemma keeps_new_decision:
  assumes "d_ID d = rt_uuid rt (w_ids w)"
  shows "keeps rt N w (w\<lparr>w_ids := Suc (w_ids w), w_store := snd (decisionRepo_Save (rt_str rt) (w_store w) d)\<rparr>)"
    (is "keeps rt N w ?w")
proof (cases "Decision_Validate d")
  case None
  let ?m = "st_decisions (w_store w)"
  have st: "w_store ?w = (w_store w)\<lparr>st_decisions := AList.update (rt_str rt (d_ID d)) d ?m\<rparr>"
    by (simp add: decisionRepo_Save_def None clone_simps)
  show ?thesis unfolding keeps_def
  proof (intro conjI impI)
    assume N: "w_ids ?w \<le> N" and inv: "service_inv rt w"
    have c: "table_wf (rt_str rt) d_ID (own_decision rt (w_ids ?w)) ?m"
      using inv unfolding service_inv_def by (auto elim!: table_wf_mono intro: own_mono)
    have "own_decision rt (w_ids ?w) d" using assms None drawn_new by (simp add: own_decision_def)
    from table_wf_update [OF c, of d, OF this] inv show "service_inv rt ?w"
      unfolding service_inv_def st by (auto elim!: table_wf_mono intro: own_mono)
    have "map_of ?m (rt_str rt (d_ID d)) = None" unfolding assms(1)
      using inv N by (intro fresh_row [of d_ID "own_decision rt (w_ids w)"]) (auto simp: service_inv_def own_decision_def)
    then show "store_keeps (w_store w) (w_store ?w)"
      by (simp add: st store_keeps_def table_keeps_refl table_keeps_new)
  qed simp
qed (simp add: decisionRepo_Save_def keeps_same_store)

lemma keeps_new_intervention:
  assumes "iv_ID iv = rt_uuid rt (w_ids w)" and "iv_SuggestedAction iv = None" and "iv_TaskID iv = None"
    and "iv_CommitmentID iv = Some k" and "map_of (st_commitments (w_store w)) (rt_str rt k) \<noteq> None"
  shows "keeps rt N w (w\<lparr>w_ids := Suc (w_ids w), w_store := snd (interventionRepo_Save (rt_str rt) (w_store w) iv)\<rparr>)"
    (is "keeps rt N w ?w")
proof (cases "Intervention_Validate iv")
  case None
  let ?m = "st_interventions (w_store w)" and ?com = "map_of (st_commitments (w_store w))"
  have st: "w_store ?w = (w_store w)\<lparr>st_interventions := AList.update (rt_str rt (iv_ID iv)) iv ?m\<rparr>"
    by (simp add: interventionRepo_Save_def None clone_simps)
  show ?thesis unfolding keeps_def
  proof (intro conjI impI)
    assume N: "w_ids ?w \<le> N" and inv: "service_inv rt w"
    have c: "table_wf (rt_str rt) iv_ID (own_intervention rt (w_ids ?w) ?com) ?m"
      using inv unfolding service_inv_def by (auto elim!: table_wf_mono intro: own_mono)
    have "own_intervention rt (w_ids ?w) ?com iv" using assms None drawn_new by (simp add: own_intervention_def)
    from table_wf_update [OF c, of iv, OF this] inv show "service_inv rt ?w"
      unfolding service_inv_def st by (auto elim!: table_wf_mono intro: own_mono)
    have "map_of ?m (rt_str rt (iv_ID iv)) = None" unfolding assms(1)
      using inv N by (intro fresh_row [of iv_ID "own_intervention rt (w_ids w) ?com"]) (auto simp: service_inv_def own_intervention_def)
    then show "store_keeps (w_store w) (w_store ?w)"
      by (simp add: st store_keeps_def table_keeps_refl table_keeps_new)
  qed simp
qed (simp add: interventionRepo_Save_def keeps_same_store)

lemma keeps_UpdateRisk:
  assumes "\<not> out_of_unit score"
  shows "keeps rt N w (w\<lparr>w_store := snd (commitmentRepo_UpdateRisk (rt_str rt) (w_store w) k score t)\<rparr>)"
    (is "keeps rt N w ?w")
proof (cases "map_of (st_commitments (w_store w)) (rt_str rt k)")
  case None
  then show ?thesis by (simp add: UpdateRisk_missing keeps_same_store)
next
  case (Some c)
  let ?m = "st_commitments (w_store w)" and ?c = "c\<lparr>c_RiskScore := score, c_LastEvaluatedAt := Some t, c_UpdatedAt := t\<rparr>"
  have st: "w_store ?w = (w_store w)\<lparr>st_commitments := AList.update (rt_str rt k) ?c ?m\<rparr>" by (simp add: UpdateRisk_found Some)
  show ?thesis unfolding keeps_def
  proof (intro conjI impI)
    assume inv: "service_inv rt w"
    have tw: "table_wf (rt_str rt) c_ID (own_commitment rt (w_ids w)) ?m" using inv by (simp add: service_inv_def)
    from table_wf_lookup [OF tw Some] have k: "rt_str rt k = rt_str rt (c_ID ?c)" and ok: "own_commitment rt (w_ids w) ?c"
      using assms by (auto simp: own_commitment_def Commitment_Validate_None)
    from table_wf_update [OF tw, of ?c, OF ok] inv show "service_inv rt ?w"
      unfolding service_inv_def st k by (auto elim!: table_wf_mono intro: own_mono)
    have "same_commitment c ?c" by (simp add: same_commitment_def)
    then have "table_keeps same_commitment ?m (AList.update (rt_str rt k) ?c ?m)"
      using Some by (intro table_keeps_update) auto
    then show "store_keeps (w_store w) (w_store ?w)" by (simp add: st store_keeps_def table_keeps_refl)
  qed simp
qed

lemma keeps_resolved:
  assumes "map_of (st_interventions (w_store w)) (rt_str rt i) = Some iv"
    and "Intervention_Resolve iv status now = Inr iv'"
  shows "keeps rt N w (w\<lparr>w_store := snd (interventionRepo_Save (rt_str rt) (w_store w) iv')\<rparr>)" (is "keeps rt N w ?w")
proof (cases "Intervention_Validate iv'")
  case None
  let ?m = "st_interventions (w_store w)" and ?com = "map_of (st_commitments (w_store w))"
  have iv': "iv' = iv\<lparr>iv_Status := status, iv_ResolvedAt := Some now\<rparr>" "InterventionStatus_CanTransitionTo (iv_Status iv) status"
    using assms(2) by (auto simp: Intervention_Resolve_def split: if_splits)
  have st: "w_store ?w = (w_store w)\<lparr>st_interventions := AList.update (rt_str rt (iv_ID iv')) iv' ?m\<rparr>"
    by (simp add: interventionRepo_Save_def None clone_simps)
  show ?thesis unfolding keeps_def
  proof (intro conjI impI)
    assume inv: "service_inv rt w"
    have tw: "table_wf (rt_str rt) iv_ID (own_intervention rt (w_ids w) ?com) ?m" using inv by (simp add: service_inv_def)
    from table_wf_lookup [OF tw assms(1)] have k: "rt_str rt i = rt_str rt (iv_ID iv')" and "own_intervention rt (w_ids w) ?com iv"
      by (auto simp: iv'(1))
    then have "own_intervention rt (w_ids w) ?com iv'" using None by (simp add: own_intervention_def iv'(1))
    from table_wf_update [OF tw, of iv', OF this] inv show "service_inv rt ?w" unfolding service_inv_def st by simp
    have "same_intervention iv iv'" using iv' by (simp add: same_intervention_def r_into_rtranclp)
    then have "table_keeps same_intervention ?m (AList.update (rt_str rt (iv_ID iv')) iv' ?m)"
      using assms(1) unfolding k by (intro table_keeps_update) auto
    then show "store_keeps (w_store w) (w_store ?w)" by (simp add: st store_keeps_def table_keeps_refl)
  qed simp
qed (simp add: interventionRepo_Save_def)

text \<open>The evaluation pass.\<close>

lemma keeps_decide:
  assumes "memory_wired rt r e" and "\<not> out_of_unit (ra_Confidence a)"
    and "map_of (st_commitments (w_store w)) (rt_str rt (c_ID c)) \<noteq> None"
  shows "keeps rt N w (snd (Evaluate_decide rt e c a sigs now result w))"
proof -
  let ?dec = "pass_decision rt e c a sigs now (rt_uuid rt (w_ids w))"
  define w1 where "w1 = w\<lparr>w_ids := Suc (w_ids w), w_store := snd (decisionRepo_Save (rt_str rt) (w_store w) ?dec)\<rparr>"
  have k1: "keeps rt N w w1" unfolding w1_def by (rule keeps_new_decision) (simp add: pass_decision_def)
  have s1: "snd (decisionRepo_Save (rt_str rt) (w_store w) ?dec) = w_store w1" by (simp add: w1_def)
  obtain ivo w' res where w': "Evaluate_decide rt e c a sigs now result w = (res, w')"
    "w_ids w' = w_ids w + (if fires e a then 2 else 1)"
    "w_store w' = (case ivo of None \<Rightarrow> w_store w1 | Some iv \<Rightarrow> snd (interventionRepo_Save (rt_str rt) (w_store w1) iv))"
    "stored_intervention e c a now (rt_uuid rt (Suc (w_ids w))) ivo"
    using Evaluate_decide_memory [OF assms(1) _ assms(2), of c sigs now result w, unfolded Let_def s1] no_nil by blast
  show ?thesis
  proof (cases ivo)
    case None
    then have "keeps rt N w1 w'" using w'(2,3) by (intro keeps_same_store) (simp_all add: w1_def)
    with k1 show ?thesis using keeps_trans unfolding w'(1) snd_conv by blast
  next
    case (Some iv)
    then have iv: "iv_ID iv = rt_uuid rt (w_ids w1)" "fires e a" "iv_CommitmentID iv = Some (c_ID c)" "iv_TaskID iv = None"
      "iv_SuggestedAction iv = None"
      using w'(4) by (auto simp: stored_intervention_def pass_intervention_def w1_def split: if_splits)
    have "map_of (st_commitments (w_store w1)) (rt_str rt (c_ID c)) \<noteq> None"
      using assms(3) by (auto simp: w1_def decisionRepo_Save_def split: option.split)
    note k2 = keeps_new_intervention [OF iv(1,5,4,3) this]
    have "keeps rt N (w1\<lparr>w_ids := Suc (w_ids w1), w_store := snd (interventionRepo_Save (rt_str rt) (w_store w1) iv)\<rparr>) w'"
      using w'(2,3) iv(2) Some by (intro keeps_same_store) (simp_all add: w1_def)
    with k1 k2 show ?thesis using keeps_trans unfolding w'(1) snd_conv by blast
  qed
qed

text \<open>One iteration: the score is stored, and the rest runs exactly when the row was there.\<close>

lemma one_memory:
  assumes wired: "memory_wired rt r e"
  obtains sigs w4 res where "keeps rt N w w4" "st_interventions (w_store w4) = st_interventions (w_store w)" "w_ids w4 = w_ids w"
    "map_of (st_commitments (w_store w)) (rt_str rt (c_ID c)) = None \<longrightarrow> Evaluate_one rt e opts now c result w = (result, w4)"
    "map_of (st_commitments (w_store w)) (rt_str rt (c_ID c)) \<noteq> None \<longrightarrow>
       Evaluate_one rt e opts now c result w = Evaluate_decide rt e c (EvaluateCommitment (e_risk e) c sigs [] now) sigs now res w4
       \<and> map_of (st_commitments (w_store w4)) (rt_str rt (c_ID c)) \<noteq> None"
proof -
  obtain sigs w1 where 1: "fetchSignals e c (eo_SignalLookback opts) now w = (sigs, w1)" by fastforce
  obtain mems w2 where 2: "fetchMemories e c now w1 = (mems, w2)" by fastforce
  let ?a = "EvaluateCommitment (e_risk e) c sigs [] now"
  have a: "EvaluateCommitment (e_risk e) c sigs mems now = ?a" by (rule memories_irrelevant)
  define w3 where "w3 = (if e_metrics e then ObserveRiskScore ''scored'' (ra_Score ?a) w2 else w2)"
  have w3: "w_store w3 = w_store w" "w_ids w3 = w_ids w"
    using fetch_store(1,2) [of e c "eo_SignalLookback opts" now w] fetch_store(3,4) [of e c now w1] 1 2 by (auto simp: w3_def)
  define w4 where "w4 = w3\<lparr>w_store := snd (commitmentRepo_UpdateRisk (rt_str rt) (w_store w3) (c_ID c) (ra_Score ?a) now)\<rparr>"
  have one: "Evaluate_one rt e opts now c result w =
      (case fst (commitmentRepo_UpdateRisk (rt_str rt) (w_store w3) (c_ID c) (ra_Score ?a) now) of
         Some _ \<Rightarrow> (result, w4) | None \<Rightarrow> Evaluate_decide rt e c ?a sigs now (result\<lparr>r_Updated := Suc (r_Updated result)\<rparr>) w4)"
    by (cases "commitmentRepo_UpdateRisk (rt_str rt) (w_store w3) (c_ID c) (ra_Score ?a) now"; cases "e_metrics e")
       (simp_all add: Evaluate_one_def 1 2 a Let_def wired_ops [OF wired] w4_def w3_def split: option.split)
  show ?thesis
  proof (rule that [of w4 sigs "result\<lparr>r_Updated := Suc (r_Updated result)\<rparr>"])
    show "keeps rt N w w4" unfolding w4_def
      using keeps_trans keeps_same_store [OF w3(1)] w3(2) keeps_UpdateRisk [OF score_in_unit] by fastforce
    show "map_of (st_commitments (w_store w)) (rt_str rt (c_ID c)) = None \<longrightarrow> Evaluate_one rt e opts now c result w = (result, w4)"
      by (simp add: one w3(1) UpdateRisk_missing)
    show "map_of (st_commitments (w_store w)) (rt_str rt (c_ID c)) \<noteq> None \<longrightarrow>
        Evaluate_one rt e opts now c result w = Evaluate_decide rt e c ?a sigs now (result\<lparr>r_Updated := Suc (r_Updated result)\<rparr>) w4
        \<and> map_of (st_commitments (w_store w4)) (rt_str rt (c_ID c)) \<noteq> None"
      by (auto simp: one w3(1) UpdateRisk_found w4_def)
  qed (simp_all add: w4_def w3)
qed

lemma keeps_one:
  assumes wired: "memory_wired rt r e" and conf: "\<not> out_of_unit (c_Confidence c)"
  shows "keeps rt N w (snd (Evaluate_one rt e opts now c result w))"
proof -
  obtain sigs w4 res where k: "keeps rt N w w4" and "st_interventions (w_store w4) = st_interventions (w_store w)" "w_ids w4 = w_ids w"
    and missing: "map_of (st_commitments (w_store w)) (rt_str rt (c_ID c)) = None \<longrightarrow> Evaluate_one rt e opts now c result w = (result, w4)"
    and found: "map_of (st_commitments (w_store w)) (rt_str rt (c_ID c)) \<noteq> None \<longrightarrow>
       Evaluate_one rt e opts now c result w = Evaluate_decide rt e c (EvaluateCommitment (e_risk e) c sigs [] now) sigs now res w4
       \<and> map_of (st_commitments (w_store w4)) (rt_str rt (c_ID c)) \<noteq> None"
    by (rule one_memory [OF wired, of w c opts now result])
  show ?thesis
  proof (cases "map_of (st_commitments (w_store w)) (rt_str rt (c_ID c)) = None")
    case False
    have "keeps rt N w4 (snd (Evaluate_decide rt e c (EvaluateCommitment (e_risk e) c sigs [] now) sigs now res w4))"
      by (rule keeps_decide [OF wired]) (use conf found False in simp_all)
    with k found False show ?thesis using keeps_trans by simp
  qed (use k missing in simp)
qed

lemma keeps_loop:
  assumes "memory_wired rt r e"
  shows "\<forall>c \<in> set cs. \<not> out_of_unit (c_Confidence c) \<Longrightarrow> keeps rt N w (snd (Evaluate_loop rt e opts now i cs result w))"
proof (induction cs arbitrary: i result w)
  case (Cons c cs)
  obtain r1 w1 where one: "Evaluate_one rt e opts now c result w = (r1, w1)" by fastforce
  have "keeps rt N w (snd (Evaluate_one rt e opts now c result w))" using Cons.prems by (intro keeps_one [OF assms]) simp
  then have "keeps rt N w w1" unfolding one snd_conv .
  moreover have "keeps rt N w1 (snd (Evaluate_loop rt e opts now (Suc i) cs r1 w1))" using Cons.prems by (intro Cons.IH) simp
  ultimately have "keeps rt N w (snd (Evaluate_loop rt e opts now (Suc i) cs r1 w1))" by (rule keeps_trans)
  then show ?case by (simp add: one split: option.split)
qed simp

lemma keeps_Evaluate:
  assumes "memory_wired rt r e" and "range_order (rng_c r)"
  shows "keeps rt N w (snd (Evaluate rt e opts w))"
proof -
  obtain cs where cs: "commitmentRepo_FindActive (rng_c r) (w_store w) (eo_Limit opts) = Inr cs"
    by (simp add: commitmentRepo_FindActive_def Let_def)
  let ?loop = "snd (Evaluate_loop rt e opts (e_clock e (w_ticks w)) 0 cs (start_result cs) (start_world e w))"
  have ev: "snd (Evaluate rt e opts w) = ?loop"
    using Evaluate_scanned [of e w opts cs rt] cs by (simp add: wired_ops [OF assms(1)])
  show ?thesis unfolding keeps_def [of rt N w]
  proof (intro conjI impI)
    show "w_ids w \<le> w_ids (snd (Evaluate rt e opts w))" by (rule Evaluate_ids)
    assume N: "w_ids (snd (Evaluate rt e opts w)) \<le> N" and inv: "service_inv rt w"
    have "\<forall>c \<in> set cs. \<not> out_of_unit (c_Confidence c)"
    proof
      fix c assume "c \<in> set cs"
      then have "c \<in> set (rows_of (st_commitments (w_store w)))" using FindActive_rows [OF assms(2) cs] by blast
      then have "own_commitment rt (w_ids w) c"
        by (rule table_wf_ok [of "rt_str rt" c_ID, rotated]) (use inv in \<open>simp add: service_inv_def\<close>)
      then show "\<not> out_of_unit (c_Confidence c)" by (simp add: own_commitment_def Commitment_Validate_None)
    qed
    from keeps_loop [OF assms(1) this] have "keeps rt N (start_world e w) ?loop" .
    moreover have "keeps rt N w (start_world e w)" by (rule keeps_same_store) simp_all
    ultimately have "keeps rt N w (snd (Evaluate rt e opts w))" unfolding ev using keeps_trans by blast
    from keepsD [OF this N inv] show "service_inv rt (snd (Evaluate rt e opts w))" "store_keeps (w_store w) (w_store (snd (Evaluate rt e opts w)))"
      by blast+
  qed
qed

text \<open>A pass that reaches a commitment the policy acts on stores one more intervention for it.\<close>

lemma decide_nudges:
  assumes "memory_wired rt r e" and "\<not> out_of_unit (ra_Confidence a)" and "fires e a" and "service_inv rt w"
    and "w_ids (snd (Evaluate_decide rt e c a sigs now result w)) \<le> N"
  shows "nudged (c_ID c) w (snd (Evaluate_decide rt e c a sigs now result w))"
proof -
  let ?i = "rt_uuid rt (Suc (w_ids w))" and ?com = "map_of (st_commitments (w_store w))"
  obtain iv w' res where w': "Evaluate_decide rt e c a sigs now result w = (res, w')" "w_ids w' = w_ids w + 2"
    and store: "w_store w' = snd (interventionRepo_Save (rt_str rt) (snd (decisionRepo_Save (rt_str rt) (w_store w)
        (pass_decision rt e c a sigs now (rt_uuid rt (w_ids w))))) iv)"
    and iv: "iv_ID iv = ?i" "pass_intervention e c a now iv" "Intervention_Validate iv = None"
    using Evaluate_decide_memory [OF assms(1) _ assms(2), of c sigs now result w] no_nil assms(3)
    by (auto simp: stored_intervention_def Let_def)
  have ints: "map_of (st_interventions (w_store w')) = (map_of (st_interventions (w_store w)))(rt_str rt ?i \<mapsto> iv)"
    using iv by (simp add: store interventionRepo_Save_def decisionRepo_Save_def clone_simps split: option.split)
  have tw: "table_wf (rt_str rt) iv_ID (own_intervention rt (w_ids w) ?com) (st_interventions (w_store w))"
    using assms(4) by (simp add: service_inv_def)
  have "map_of (st_interventions (w_store w)) (rt_str rt ?i) = None"
    by (rule fresh_row [OF tw]) (use assms(5) in \<open>auto simp: own_intervention_def w' intro: drawn_more\<close>)
  then show ?thesis unfolding nudged_def w'(1) snd_conv ints
    by (intro exI [of _ "rt_str rt ?i"] exI [of _ iv]) (use iv(2) in \<open>simp add: pass_intervention_def\<close>)
qed

lemma one_nudges:
  assumes wired: "memory_wired rt r e" and conf: "\<not> out_of_unit (c_Confidence c)" and inv: "service_inv rt w"
    and N: "w_ids (snd (Evaluate_one rt e opts now c result w)) \<le> N"
    and row: "map_of (st_commitments (w_store w)) (rt_str rt (c_ID c)) \<noteq> None"
    and fire: "\<forall>sigs. fires e (EvaluateCommitment (e_risk e) c sigs [] now)"
  shows "nudged (c_ID c) w (snd (Evaluate_one rt e opts now c result w))"
proof -
  obtain sigs w4 res where k: "keeps rt N w w4" "st_interventions (w_store w4) = st_interventions (w_store w)" "w_ids w4 = w_ids w"
    and "map_of (st_commitments (w_store w)) (rt_str rt (c_ID c)) = None \<longrightarrow> Evaluate_one rt e opts now c result w = (result, w4)"
    and found: "map_of (st_commitments (w_store w)) (rt_str rt (c_ID c)) \<noteq> None \<longrightarrow>
       Evaluate_one rt e opts now c result w = Evaluate_decide rt e c (EvaluateCommitment (e_risk e) c sigs [] now) sigs now res w4
       \<and> map_of (st_commitments (w_store w4)) (rt_str rt (c_ID c)) \<noteq> None"
    by (rule one_memory [OF wired, of w c opts now result])
  let ?a = "EvaluateCommitment (e_risk e) c sigs [] now"
  have one: "Evaluate_one rt e opts now c result w = Evaluate_decide rt e c ?a sigs now res w4" using found row by simp
  have le: "w_ids w4 \<le> N" using N Evaluate_decide_draws [of w4 rt e c ?a sigs now res] unfolding one draws_def by simp
  have "nudged (c_ID c) w4 (snd (Evaluate_decide rt e c ?a sigs now res w4))"
    by (rule decide_nudges [OF wired]) (use conf fire keepsD [OF k(1) le inv] N in \<open>simp_all add: one\<close>)
  then show ?thesis using keepsD [OF k(1) le inv] unfolding one by (blast intro: nudged_after)
qed

lemma loop_nudges:
  assumes wired: "memory_wired rt r e" and ctx: "\<forall>i. rt_ctxErr rt i = None"
    and fire: "\<forall>sigs. fires e (EvaluateCommitment (e_risk e) c sigs [] now)"
  shows "\<forall>d \<in> set cs. \<not> out_of_unit (c_Confidence d) \<Longrightarrow> c \<in> set cs \<Longrightarrow> service_inv rt w \<Longrightarrow>
    w_ids (snd (Evaluate_loop rt e opts now i cs result w)) \<le> N \<Longrightarrow>
    map_of (st_commitments (w_store w)) (rt_str rt (c_ID c)) \<noteq> None \<Longrightarrow>
    nudged (c_ID c) w (snd (Evaluate_loop rt e opts now i cs result w))"
proof (induction cs arbitrary: i result w)
  case (Cons d cs)
  obtain r1 w1 where one: "Evaluate_one rt e opts now d result w = (r1, w1)" by fastforce
  let ?w2 = "snd (Evaluate_loop rt e opts now (Suc i) cs r1 w1)"
  have loop: "snd (Evaluate_loop rt e opts now i (d # cs) result w) = ?w2" using ctx one by simp
  have N: "w_ids ?w2 \<le> N" "w_ids w1 \<le> N"
    using Cons.prems(4) Evaluate_loop_draws [of cs w1 rt e opts now "Suc i" r1] unfolding loop draws_def by simp_all
  have conf: "\<not> out_of_unit (c_Confidence d)" "\<forall>d \<in> set cs. \<not> out_of_unit (c_Confidence d)" using Cons.prems(1) by simp_all
  have k1: "keeps rt N w w1" using keeps_one [OF wired conf(1), of w opts now result] one by simp
  note s1 = keepsD [OF k1 N(2) Cons.prems(3)]
  note s2 = keepsD [OF keeps_loop [OF wired conf(2), of w1 opts now "Suc i" r1] N(1)]
  show ?case
  proof (cases "d = c")
    case True
    have "nudged (c_ID d) w (snd (Evaluate_one rt e opts now d result w))"
      by (rule one_nudges [OF wired conf(1) Cons.prems(3)]) (use N(2) one True fire Cons.prems(5) in simp_all)
    then show ?thesis using s1 s2 one True unfolding loop by (auto intro: nudged_before)
  next
    case False
    have "map_of (st_commitments (w_store w1)) (rt_str rt (c_ID c)) \<noteq> None"
      using s1 Cons.prems(5) unfolding store_keeps_def by (meson table_keeps_None)
    then have "nudged (c_ID c) w1 ?w2" using Cons.IH [OF conf(2) _ _ N(1)] Cons.prems(2) False s1 by simp
    then show ?thesis using s1 unfolding loop by (blast intro: nudged_after)
  qed
qed simp

lemma Evaluate_nudges:
  assumes wired: "memory_wired rt r e" and rng: "range_order (rng_c r)" and ctx: "\<forall>i. rt_ctxErr rt i = None"
    and inv: "service_inv rt w" and N: "w_ids (snd (Evaluate rt e opts w)) \<le> N" and all: "eo_Limit opts = 0"
    and row: "map_of (st_commitments (w_store w)) k = Some c"
    and fire: "\<forall>sigs. fires e (EvaluateCommitment (e_risk e) c sigs [] (e_clock e (w_ticks w)))"
  shows "nudged (c_ID c) w (snd (Evaluate rt e opts w))"
proof -
  let ?rows = "rows_of (st_commitments (w_store w))"
  have tw: "table_wf (rt_str rt) c_ID (own_commitment rt (w_ids w)) (st_commitments (w_store w))"
    using inv by (simp add: service_inv_def)
  obtain cs where cs: "commitmentRepo_FindActive (rng_c r) (w_store w) (eo_Limit opts) = Inr cs"
    and mem: "set cs = {d \<in> set ?rows. CommitmentStatus_IsActive (c_Status d)}"
    using rng by (simp add: query_defs clone_simps Let_def all limit_slice_def set_sort_slice range_order_set)
  have own: "\<forall>d \<in> set ?rows. own_commitment rt (w_ids w) d" using table_wf_ok [OF tw] by blast
  have c: "k = rt_str rt (c_ID c)" "c \<in> set ?rows" using table_wf_lookup [OF tw row] table_wf_rows [OF tw] row by auto
  have "c \<in> set cs" using c own by (auto simp: mem own_commitment_def CommitmentStatus_IsActive_def)
  moreover have "\<forall>d \<in> set cs. \<not> out_of_unit (c_Confidence d)"
    using own by (auto simp: mem own_commitment_def Commitment_Validate_None)
  moreover have ev: "snd (Evaluate rt e opts w) =
      snd (Evaluate_loop rt e opts (e_clock e (w_ticks w)) 0 cs (start_result cs) (start_world e w))"
    using Evaluate_scanned [of e w opts cs rt] cs by (simp add: wired_ops [OF wired])
  moreover have "service_inv rt (start_world e w)" by (rule service_inv_more [OF inv]) simp_all
  ultimately have "nudged (c_ID c) (start_world e w) (snd (Evaluate rt e opts w))"
    using loop_nudges [OF wired ctx fire, of cs "start_world e w"] N row c(1) by simp
  then show ?thesis by (simp add: nudged_def)
qed

text \<open>Extraction.\<close>

lemma keeps_Extract_one:
  assumes "memory_extractor rt r x"
  shows "keeps rt N w (snd (Extract_one rt x now d (res, w)))"
proof (cases "kept_draft (x_minConfidence x) d")
  case True
  then obtain c where c: "CommitmentDraft_ToCommitment (rt_uuid rt (w_ids w)) d now = Inr c" "c_ID c = rt_uuid rt (w_ids w)"
    and one: "Extract_one rt x now d (res, w) = (res\<lparr>xr_Saved := xr_Saved res @ [rt_uuid rt (w_ids w)]\<rparr>,
       w\<lparr>w_ids := Suc (w_ids w), w_store := snd (commitmentRepo_Save (rt_str rt) (w_store w) c)\<rparr>)"
    using Extract_one_memory [OF assms no_nil, where d = d and now = now and res = res and w = w] by auto
  have "c_Status c = CommitmentPending" using c(1) by (auto simp: ToCommitment_Inr)
  from keeps_new_commitment [OF c(2) this] show ?thesis unfolding one snd_conv .
next
  case False
  then obtain n where "n = w_ids w \<or> n = Suc (w_ids w)"
    and "Extract_one rt x now d (res, w) = (res\<lparr>xr_Dropped := Suc (xr_Dropped res)\<rparr>, w\<lparr>w_ids := n\<rparr>)"
    using Extract_one_memory [OF assms no_nil, where d = d and now = now and res = res and w = w] by auto
  then show ?thesis by (auto intro: keeps_same_store)
qed

lemma keeps_Extract_drafts:
  assumes "memory_extractor rt r x"
  shows "keeps rt N w (snd (fold (Extract_one rt x now) ds (res, w)))"
proof (induction ds arbitrary: res w)
  case (Cons d ds)
  obtain r1 w1 where one: "Extract_one rt x now d (res, w) = (r1, w1)" by fastforce
  have "keeps rt N w w1" using keeps_Extract_one [OF assms, of w now d res] one by simp
  with Cons.IH [of w1 r1] one show ?case by (auto intro: keeps_trans)
qed simp

lemma keeps_Extract:
  assumes "memory_extractor rt r x"
  shows "keeps rt N w (snd (Extract rt x i w))"
proof (cases "x_extractor x i")
  case (Inl err)
  then show ?thesis by (simp add: Extract_def Let_def keeps_same_store)
next
  case (Inr drafts)
  let ?now = "x_clock x (w_ticks w)" and ?w0 = "w\<lparr>w_ticks := Suc (w_ticks w)\<rparr>"
  let ?zero = "\<lparr>xr_Considered = length drafts, xr_Saved = [], xr_Dropped = 0, xr_DecisionID = None\<rparr>"
  obtain r1 w1 where f: "fold (Extract_one rt x ?now) drafts (?zero, ?w0) = (r1, w1)" by fastforce
  define w2 where "w2 = (if x_metrics x then IncCommitmentsExtracted ''success'' (int (length (xr_Saved r1))) w1 else w1)"
  have w2: "w_store w2 = w_store w1" "w_ids w2 = w_ids w1" by (simp_all add: w2_def metric_defs)
  obtain dec where d: "d_ID dec = rt_uuid rt (w_ids w2)"
    "Extract_record rt x ?now i (r1, w2) = (r1\<lparr>xr_DecisionID := Some (rt_uuid rt (w_ids w2))\<rparr>,
       w2\<lparr>w_ids := Suc (w_ids w2), w_store := snd (decisionRepo_Save (rt_str rt) (w_store w2) dec)\<rparr>)"
    using Extract_record_memory [OF assms no_nil, where w = w2 and res = r1 and now = ?now and inp = i] by blast
  have "keeps rt N w ?w0" by (simp add: keeps_same_store)
  moreover have "keeps rt N ?w0 w1" using keeps_Extract_drafts [OF assms, of ?w0 ?now drafts ?zero] f by simp
  moreover have "keeps rt N w1 w2" by (simp add: keeps_same_store w2)
  moreover note keeps_new_decision [OF d(1)]
  moreover have "snd (Extract rt x i w) = w2\<lparr>w_ids := Suc (w_ids w2), w_store := snd (decisionRepo_Save (rt_str rt) (w_store w2) dec)\<rparr>"
    using f d(2) by (simp add: Extract_def Let_def Inr w2_def)
  ultimately show ?thesis using keeps_trans by metis
qed

text \<open>The handlers of both transports.\<close>

lemma keeps_handleExtract:
  assumes "memory_extractor rt r (sv_extractor s)"
  shows "keeps rt N w (snd (handleExtract env rt s req w))"
proof -
  have "keeps rt N w w'" if "Extract rt (sv_extractor s) i w = (re, w')" for i re w'
    using keeps_Extract [OF assms, of w i] that by simp
  then show ?thesis by (auto simp: handleExtract_def Let_def split: option.split prod.split)
qed

lemma keeps_grpc_Extract:
  assumes "memory_extractor rt r (gs_extractor s)"
  shows "keeps rt N w (snd (grpc_Extract env rt s req w))"
proof -
  have "keeps rt N w w'" if "Extract rt (gs_extractor s) i w = (re, w')" for i re w'
    using keeps_Extract [OF assms, of w i] that by simp
  then show ?thesis by (auto simp: grpc_Extract_def Let_def split: option.split prod.split)
qed

lemma keeps_evaluations:
  assumes "memory_wired rt r e" and "range_order (rng_c r)"
  shows "sv_evaluator hs = e \<Longrightarrow> keeps rt N w (snd (handleEvaluate henv rt hs req w))"
    and "gs_evaluator gs = e \<Longrightarrow> keeps rt N w (snd (grpc_Evaluate genv rt gs greq w))"
    and "keeps rt N w (snd (tick rt e t1 t2 w))"
proof -
  have "keeps rt N w w'" if "Evaluate rt e opts w = (re, w')" for opts re w'
    using keeps_Evaluate [OF assms, of w opts] that by simp
  note k = this
  show "keeps rt N w (snd (handleEvaluate henv rt hs req w))" if "sv_evaluator hs = e"
    using k by (auto simp: handleEvaluate_def that split: option.split prod.split)
  show "keeps rt N w (snd (grpc_Evaluate genv rt gs greq w))" if "gs_evaluator gs = e"
    using k by (auto simp: grpc_Evaluate_def Let_def that split: option.split prod.split)
  show "keeps rt N w (snd (tick rt e t1 t2 w))"
    using k by (auto simp: tick_def split: option.split prod.split)
qed

lemma keeps_resolutions:
  assumes "intervs = conn_Interventions (fst (memory_New (rt_str rt) r))"
  shows "sv_intervs hs = intervs \<Longrightarrow> keeps rt N w (snd (handleResolveIntervention henv rt hs pid req w))"
    and "gs_interventions gs = intervs \<Longrightarrow> keeps rt N w (snd (ResolveIntervention genv rt gs (pid, status) w))"
proof -
  have k: "keeps rt N w (w\<lparr>w_store := st\<rparr>)"
    if "interventionRepo_Get (rt_str rt) (w_store w) i = Inr iv" "Intervention_Resolve iv status now = Inr iv'"
      "interventionRepo_Save (rt_str rt) (w_store w) iv' = (err, st)" for i iv iv' status now err st
    using keeps_resolved [of w i iv status now iv'] that by (auto simp: interventionRepo_Get_row split: option.splits)
  show "keeps rt N w (snd (handleResolveIntervention henv rt hs pid req w))" if "sv_intervs hs = intervs"
    using k by (auto simp: handleResolveIntervention_def that assms split: option.split sum.split prod.split)
  show "keeps rt N w (snd (ResolveIntervention genv rt gs (pid, status) w))" if "gs_interventions gs = intervs"
    using k by (auto simp: ResolveIntervention_def that assms split: option.split sum.split prod.split)
qed

lemma keeps_mux:
  assumes "memory_extractor rt r (sv_extractor s)" and "memory_wired rt r (sv_evaluator s)" and "range_order (rng_c r)"
    and "sv_intervs s = conn_Interventions (fst (memory_New (rt_str rt) r))"
  shows "keeps rt N w (snd (mux env rt s req w))"
proof -
  have "keeps rt N w (snd (serve_route env rt s ro req w))" for ro
  proof (cases ro)
    case RExtract
    then show ?thesis by (simp add: serve_route_def keeps_handleExtract [OF assms(1)])
  next
    case REvaluate
    then show ?thesis by (simp add: serve_route_def keeps_evaluations(1) [OF assms(2,3)])
  next
    case (RResolve i)
    then show ?thesis by (simp add: serve_route_def keeps_resolutions(1) [OF refl assms(4)])
  qed (auto simp: serve_route_def handleListCommitments_def handleGetCommitment_def handleListDecisions_def
      handleGetDecision_def handleListInterventions_def handleHealth_def handleMetrics_def Let_def split: option.split sum.split)
  then show ?thesis by (auto simp: mux_def Let_def split: option.split)
qed

lemma keeps_dispatch:
  assumes "memory_extractor rt r (gs_extractor s)" and "memory_wired rt r (gs_evaluator s)" and "range_order (rng_c r)"
    and "gs_interventions s = conn_Interventions (fst (memory_New (rt_str rt) r))"
  shows "keeps rt N w (snd (grpc_dispatch env rt s q w))"
proof -
  have rep: "snd (replying f rw) = snd rw" for f and rw :: "'b grpc_result \<times> state world"
    by (simp add: replying_def split: prod.split)
  show ?thesis
  proof (cases q)
    case (GExtract req)
    then show ?thesis by (simp add: grpc_dispatch_def rep keeps_grpc_Extract [OF assms(1)])
  next
    case (GEvaluate req)
    then show ?thesis by (simp add: grpc_dispatch_def rep keeps_evaluations(2) [OF assms(2,3)])
  next
    case (GResolveIntervention i status)
    then show ?thesis by (simp add: grpc_dispatch_def rep keeps_resolutions(2) [OF refl assms(4)])
  qed (auto simp: grpc_dispatch_def rep grpc_ListCommitments_def GetCommitment_def ListDecisions_def GetDecision_def
      ListInterventions_def GetIntervention_def split: option.split sum.split)
qed

end

text \<open>The middlewares and interceptors pass the world on or leave it alone.\<close>

lemma root_handler_world:
  assumes "\<And>req. P (snd (mux env rt s req w))" and "P w"
  shows "P (world_of (snd (root_handler env rt lib now token verifier s r (l1, l2, w))))"
proof -
  have o: "P (snd (snd (OwnerRateLimitMiddleware (he_text env) now now (HTTPMiddleware now (mux env rt s)) r (l2, w))))" for r
    using assms by (auto simp: OwnerRateLimitMiddleware_def HTTPMiddleware_def Let_def split: prod.split sum.split)
       (metis snd_conv)+
  have c: "P (world_of (snd (RateLimitMiddleware now now
      (OwnerRateLimitMiddleware (he_text env) now now (HTTPMiddleware now (mux env rt s))) r (l1, l2, w))))" for r
    using o assms(2) by (auto simp: RateLimitMiddleware_def Let_def split: prod.split) (metis snd_conv)
  show ?thesis using c assms(2)
    by (auto simp: root_handler_def CombinedAuthMiddleware_def Let_def split: option.split)
qed

lemma interceptor_world:
  assumes "P (snd (h q w))" and "P w"
  shows "P (snd (CombinedAuthInterceptor lib printable now token verifier md h q w))"
  using assms by (auto simp: CombinedAuthInterceptor_def Let_def split: option.split)

lemma with_ctx_wired [simp]:
  "memory_wired (with_ctx ctx rt) r e = memory_wired rt r e" "memory_extractor (with_ctx ctx rt) r x = memory_extractor rt r x"
  by (simp_all add: memory_wired_def memory_extractor_def)

lemma id_supplyI:
  "inj (rt_str rt) \<Longrightarrow> \<forall>n. rt_uuid rt n \<noteq> uuid_Nil \<Longrightarrow> inj_on (rt_uuid rt) {..<N} \<Longrightarrow> id_supply rt N"
  by (simp add: id_supply_def id_supply_axioms_def id_text_def)

lemma with_ctx_supply: "id_supply rt N \<Longrightarrow> id_supply (with_ctx ctx rt) N"
  by (simp add: id_supply_def id_supply_axioms_def)

lemma service_step_keeps:
  assumes "memory_service r sv" and "range_order (rng_c r)" and "id_supply (sc_rt sv) N"
  shows "keeps (sc_rt sv) N (world_of s) (world_of (service_step sv s ev))"
proof -
  obtain l1 l2 w where s: "s = (l1, l2, w)" by (metis prod.collapse)
  note ms = assms(1) [unfolded memory_service_def]
  show ?thesis
  proof (cases ev)
    case (EvHttp now ctx q)
    let ?rt = "with_ctx ctx (sc_rt sv)"
    have "keeps ?rt N w (snd (mux env ?rt (sc_http sv) req w))" for env req
      by (rule id_supply.keeps_mux [OF with_ctx_supply [OF assms(3)] _ _ assms(2)]) (use ms in simp_all)
    then show ?thesis by (simp add: service_step_def EvHttp s root_handler_world)
  next
    case (EvGrpc now ctx md q)
    let ?rt = "with_ctx ctx (sc_rt sv)"
    have "keeps ?rt N w (snd (grpc_dispatch env ?rt (sc_grpc sv) q w))" for env
      by (rule id_supply.keeps_dispatch [OF with_ctx_supply [OF assms(3)] _ _ assms(2)]) (use ms in simp_all)
    then show ?thesis by (simp add: service_step_def EvGrpc s interceptor_world)
  next
    case (EvTick t1 t2 ctx)
    have "keeps (with_ctx ctx (sc_rt sv)) N w (snd (tick (with_ctx ctx (sc_rt sv)) (sc_evaluator sv) t1 t2 w))"
      by (rule id_supply.keeps_evaluations(3) [OF with_ctx_supply [OF assms(3)] _ assms(2)]) (use ms in simp)
    then show ?thesis by (simp add: service_step_def EvTick s)
  qed
qed

lemma serve_append: "serve sv (as @ bs) s = serve sv bs (serve sv as s)"
  by (simp add: serve_def)

lemma serve_keeps:
  assumes "memory_service r sv" and "range_order (rng_c r)" and "id_supply (sc_rt sv) N"
  shows "keeps (sc_rt sv) N (world_of s) (world_of (serve sv evs s))"
proof (induction evs rule: rev_induct)
  case (snoc ev evs)
  with service_step_keeps [OF assms, of "serve sv evs s" ev] show ?case by (auto simp: serve_def intro: keeps_trans)
qed (simp add: serve_def)

lemma fresh_inv: "service_inv rt (world_of fresh_state)"
  by (simp add: fresh_state_def service_inv_def memory_empty_def)

end
