(* ===== verification/Service_Properties.thy ===== *)
theory Service_Properties
  imports Service
begin

text \<open>
  What every history of the running service keeps, what it never does, and how often it repeats itself: the properties of
  \<open>Service\<close> with their witnesses, and the interpretation of its supply of identifiers.
\<close>

section \<open>Counting interventions\<close>

definition nudge_count :: "uuid \<Rightarrow> state \<Rightarrow> nat" where
  "nudge_count k st = length (filter (\<lambda>iv. iv_CommitmentID iv = Some k) (rows_of (st_interventions st)))"

lemma count_rows:
  assumes "distinct (keys_of m)"
  shows "length (filter p (rows_of m)) = card {x. \<exists>v. map_of m x = Some v \<and> p v}"
proof -
  have "length (filter p (rows_of m)) = length (map fst (filter (p \<circ> snd) m))" by (simp add: filter_map)
  also have "\<dots> = card (set (map fst (filter (p \<circ> snd) m)))"
    using assms by (intro distinct_card [symmetric] distinct_map_filter)
  also have "set (map fst (filter (p \<circ> snd) m)) = {x. \<exists>v. map_of m x = Some v \<and> p v}"
    using assms by (auto simp: image_iff dest: map_of_SomeD)
  finally show ?thesis .
qed

lemma nudge_count_mono:
  assumes "service_inv rt w" and "service_inv rt w'" and "store_keeps (w_store w) (w_store w')"
  shows "nudge_count k (w_store w) + (if nudged k w w' then 1 else 0) \<le> nudge_count k (w_store w')"
proof -
  let ?m = "st_interventions (w_store w)" and ?m' = "st_interventions (w_store w')"
  let ?K = "\<lambda>m. {x. \<exists>iv. map_of m x = Some iv \<and> iv_CommitmentID iv = Some k}"
  have d: "distinct (keys_of ?m)" "distinct (keys_of ?m')" using assms(1,2) by (simp_all add: service_inv_def table_wf_def)
  have f: "finite (?K ?m')" by (rule finite_subset [OF _ finite_dom_map_of [of ?m']]) auto
  have sub: "?K ?m \<subseteq> ?K ?m'"
  proof (rule subsetI)
    fix x assume "x \<in> ?K ?m"
    then obtain iv where iv: "map_of ?m x = Some iv" "iv_CommitmentID iv = Some k" by blast
    obtain iv' where "map_of ?m' x = Some iv'" "same_intervention iv iv'"
      using table_keepsD [OF _ iv(1)] assms(3) unfolding store_keeps_def by blast
    with iv(2) same_intervention_for [of iv iv'] show "x \<in> ?K ?m'" by auto
  qed
  have "?K ?m \<subset> ?K ?m'" if n: "nudged k w w'"
  proof -
    obtain x iv where "map_of ?m' x = Some iv" "iv_CommitmentID iv = Some k" "map_of ?m x = None" using n by (auto simp: nudged_def)
    then have "x \<in> ?K ?m'" "x \<notin> ?K ?m" by auto
    with sub show ?thesis by blast
  qed
  then have "nudged k w w' \<Longrightarrow> card (?K ?m) < card (?K ?m')" using psubset_card_mono [OF f] by blast
  with card_mono [OF f sub] have "card (?K ?m) + (if nudged k w w' then 1 else 0) \<le> card (?K ?m')"
    by (cases "nudged k w w'") auto
  then show ?thesis unfolding nudge_count_def count_rows [OF d(1)] count_rows [OF d(2)] .
qed


section \<open>Ticks past the due time\<close>

text \<open>A tick whose context is not cancelled while it runs.\<close>

definition clean_tick :: "event \<Rightarrow> bool" where
  "clean_tick ev \<longleftrightarrow> (\<exists>t1 t2. ev = EvTick t1 t2 (\<lambda>_. None))"

text \<open>The number of clean ticks whose clock reading is past an instant.\<close>

fun overdue_ticks :: "'s service \<Rightarrow> time \<Rightarrow> event list \<Rightarrow> 's service_state \<Rightarrow> nat" where
  "overdue_ticks sv due [] s = 0"
| "overdue_ticks sv due (ev # evs) s =
     (if clean_tick ev \<and> due < e_clock (sc_evaluator sv) (w_ticks (world_of s)) then 1 else 0)
     + overdue_ticks sv due evs (service_step sv s ev)"

definition default_engines :: "'s Evaluator \<Rightarrow> bool" where
  "default_engines e \<longleftrightarrow> e_risk e = risk_New risk_DefaultConfig
     \<and> e_intervention e = intervention_New intervention_DefaultConfig"

lemma overdue_fires:
  assumes "default_engines e" and "c_DueAt c = Some due" and "due < now"
  shows "fires e (EvaluateCommitment (e_risk e) c sigs [] now)"
  using default_score_overdue [OF assms(2,3), of sigs] assms(1)
  by (auto simp: default_engines_def fires_def default_assessment_def intervention_New_def intervention_DefaultConfig_def
      dest: f_le_less_trans)

lemma tick_world: "snd (tick rt e t1 t2 w) = snd (Evaluate rt e zero_options w)"
  by (simp add: tick_def split: prod.split option.split)

lemma tick_step:
  "world_of (service_step sv s (EvTick t1 t2 ctx)) = snd (Evaluate (with_ctx ctx (sc_rt sv)) (sc_evaluator sv) zero_options (world_of s))"
  by (cases s) (auto simp: service_step_def tick_world split: prod.split)

lemma overdue_tick_nudges:
  assumes ms: "memory_service r sv" and rng: "range_order (rng_c r)" and sup: "id_supply (sc_rt sv) N"
    and eng: "default_engines (sc_evaluator sv)" and inv: "service_inv (sc_rt sv) (world_of s)"
    and row: "map_of (st_commitments (w_store (world_of s))) x = Some c" and due: "c_DueAt c = Some due"
    and tick: "clean_tick ev" "due < e_clock (sc_evaluator sv) (w_ticks (world_of s))"
    and N: "w_ids (world_of (service_step sv s ev)) \<le> N"
  shows "nudged (c_ID c) (world_of s) (world_of (service_step sv s ev))"
proof -
  obtain l1 l2 w where s: "s = (l1, l2, w)" by (metis prod.collapse)
  obtain t1 t2 where ev: "ev = EvTick t1 t2 (\<lambda>_. None)" using tick(1) by (auto simp: clean_tick_def)
  let ?rt = "with_ctx (\<lambda>_. None) (sc_rt sv)" and ?e = "sc_evaluator sv"
  have step: "world_of (service_step sv s ev) = snd (Evaluate ?rt ?e zero_options w)"
    by (simp add: ev tick_step) (simp add: s)
  have "memory_wired ?rt r ?e" using ms by (simp add: memory_service_def)
  from id_supply.Evaluate_nudges [OF with_ctx_supply [OF sup] this rng, where w = w and opts = zero_options and k = x and c = c]
  show ?thesis unfolding step
    using inv row N overdue_fires [OF eng due tick(2)] unfolding step by (simp add: s zero_options_def)
qed

lemma overdue_counted:
  assumes ms: "memory_service r sv" and rng: "range_order (rng_c r)" and sup: "id_supply (sc_rt sv) N"
    and eng: "default_engines (sc_evaluator sv)"
  shows "service_inv (sc_rt sv) (world_of s) \<Longrightarrow> map_of (st_commitments (w_store (world_of s))) x = Some c \<Longrightarrow>
    c_DueAt c = Some due \<Longrightarrow> w_ids (world_of (serve sv evs s)) \<le> N \<Longrightarrow>
    nudge_count (c_ID c) (w_store (world_of s)) + overdue_ticks sv due evs s
      \<le> nudge_count (c_ID c) (w_store (world_of (serve sv evs s)))"
proof (induction evs arbitrary: s c)
  case (Cons ev evs)
  let ?s1 = "service_step sv s ev"
  have serve: "serve sv (ev # evs) s = serve sv evs ?s1" by (simp add: serve_def)
  note k = service_step_keeps [OF ms rng sup, of s ev] and k2 = serve_keeps [OF ms rng sup, of ?s1 evs]
  have N: "w_ids (world_of (serve sv evs ?s1)) \<le> N" "w_ids (world_of ?s1) \<le> N"
    using Cons.prems(4) k2 unfolding serve keeps_def by simp_all
  note s1 = keepsD [OF k N(2) Cons.prems(1)]
  obtain c' where c': "map_of (st_commitments (w_store (world_of ?s1))) x = Some c'" "same_commitment c c'"
    using table_keepsD [OF _ Cons.prems(2)] s1 unfolding store_keeps_def by blast
  then have same: "c_ID c' = c_ID c" "c_DueAt c' = Some due"
    using Cons.prems(3) by (cases c; cases c'; simp add: same_commitment_def)+
  have "nudge_count (c_ID c) (w_store (world_of ?s1)) + overdue_ticks sv due evs ?s1
      \<le> nudge_count (c_ID c) (w_store (world_of (serve sv evs ?s1)))"
    using Cons.IH [OF conjunct1 [OF s1] c'(1) same(2) N(1)] by (simp add: same(1))
  moreover have "nudge_count (c_ID c) (w_store (world_of s))
      + (if clean_tick ev \<and> due < e_clock (sc_evaluator sv) (w_ticks (world_of s)) then 1 else 0)
      \<le> nudge_count (c_ID c) (w_store (world_of ?s1))"
    using nudge_count_mono [OF Cons.prems(1) conjunct1 [OF s1] conjunct2 [OF s1], of "c_ID c"]
      overdue_tick_nudges [OF ms rng sup eng Cons.prems(1-3) _ _ N(2)]
    by (auto split: if_splits)
  ultimately show ?case unfolding serve by simp
qed (simp add: serve_def)


section \<open>A history in small\<close>

text \<open>
  A service whose extractor finds one commitment, due at instant 1000, in every text, with the engines of the default
  configuration and no authentication; a gRPC extraction and a tick of the worker at instant 2001.
\<close>

definition overdue_extractor :: "state Extractor" where
  "overdue_extractor = sample_extractor\<lparr>x_extractor :=
     (\<lambda>i. Inr [sample_draft\<lparr>cd_OwnerID := ei_OwnerID i, cd_DueAt := Some 1000\<rparr>])\<rparr>"

definition sample_service :: "state service" where
  "sample_service = \<lparr>sc_rt = sample_runtime, sc_henv = sample_http_env, sc_genv = sample_grpc_env, sc_lib = one_token_lib [],
     sc_token = [], sc_verifier = None,
     sc_http = http_NewServer overdue_extractor sample_evaluator (conn_Commitments sample_conn)
       (conn_Decisions sample_conn) (conn_Interventions sample_conn) None None,
     sc_grpc = grpc_NewServer overdue_extractor sample_evaluator (conn_Commitments sample_conn)
       (conn_Decisions sample_conn) (conn_Interventions sample_conn),
     sc_evaluator = sample_evaluator\<rparr>"

definition sample_extraction :: event where
  "sample_extraction = EvGrpc 50 (\<lambda>_. None) None
     (GExtract \<lparr>gx_OwnerId = ''u1'', gx_Text = ''x'', gx_Hints = [], gx_SourceRefs = []\<rparr>)"

definition sample_tick :: event where
  "sample_tick = EvTick 0 0 (\<lambda>_. None)"

definition extracted :: Commitment where
  "extracted = \<lparr>c_ID = 100, c_OwnerID = ''u1'', c_Description = ''call Bob'', c_SourceRefs = [], c_Entities = [],
     c_DueAt = Some 1000, c_Status = CommitmentPending, c_Confidence = 1, c_RiskScore = 0, c_LastEvaluatedAt = None,
     c_CreatedAt = 50, c_UpdatedAt = 50\<rparr>"

lemma sample_memory_service: "memory_service sample_orders sample_service"
  by (simp add: memory_service_def sample_service_def memory_wired_def memory_extractor_def sample_evaluator_def
      overdue_extractor_def sample_extractor_def http_NewServer_def grpc_NewServer_def sample_runtime_def)

lemma sample_rng: "range_order (rng_c sample_orders)"
  using range_order_rev by (simp add: sample_orders_def)

lemma sample_ids_parts:
  "inj (rt_str (sc_rt sample_service))" "\<forall>n. rt_uuid (sc_rt sample_service) n \<noteq> uuid_Nil"
  "inj_on (rt_uuid (sc_rt sample_service)) {..<6}"
  using sample_ids inj_canonical_text by (simp_all add: sample_service_def sample_runtime_def)

lemmas sample_supply = id_supplyI [OF sample_ids_parts]

lemma sample_engines: "default_engines (sc_evaluator sample_service)"
  by (simp add: default_engines_def sample_service_def sample_evaluator_def)

lemma sample_extracted:
  "\<exists>dec. serve sample_service [sample_extraction] fresh_state = (NewRateLimiter (f_lit 100) 20, NewRateLimiter (f_lit 50) 10,
     \<lparr>w_store = memory_empty\<lparr>st_commitments := [(canonical_text 100, extracted)], st_decisions := [(canonical_text 101, dec)]\<rparr>,
      w_out = [], w_ids = 2, w_ticks = 1\<rparr>)"
proof -
  let ?rt = "with_ctx (\<lambda>_. None) sample_runtime" and ?inp = "\<lparr>ei_OwnerID = ''u1'', ei_Text = ''x'', ei_Hints = [], ei_SourceRefs = []\<rparr>"
  let ?w0 = "\<lparr>w_store = memory_empty, w_out = [], w_ids = 0, w_ticks = 1\<rparr>"
  let ?d = "sample_draft\<lparr>cd_OwnerID := ''u1'', cd_DueAt := Some 1000\<rparr>"
  let ?r = "\<lparr>xr_Considered = 1, xr_Saved = [], xr_Dropped = 0, xr_DecisionID = None\<rparr>"
  have lit: "\<not> 1 < f_lit (5/10)" "TrimSpace ''u1'' = ''u1''" "TrimSpace ''call Bob'' = ''call Bob''" by code_simp+
  have id: "rt_uuid ?rt 0 = 100" "rt_uuid ?rt 1 = 101" "rt_str ?rt = canonical_text" by (simp_all add: sample_runtime_def)
  have "CommitmentDraft_ToCommitment 100 ?d 50 = Inr extracted"
    by (simp add: ToCommitment_Inr uuid_Nil_def lit sample_draft_def extracted_def out_of_unit_def)
  moreover have "Commitment_Validate extracted = None"
    by (simp add: Commitment_Validate_None extracted_def uuid_Nil_def out_of_unit_def zero_float64_def one_float64_def)
  ultimately have one: "Extract_one ?rt overdue_extractor 50 ?d (?r, ?w0) = (?r\<lparr>xr_Saved := [100]\<rparr>,
      ?w0\<lparr>w_ids := 1, w_store := memory_empty\<lparr>st_commitments := [(canonical_text 100, extracted)]\<rparr>\<rparr>)"
    using lit id by (simp add: Extract_one_def Let_def overdue_extractor_def sample_extractor_def sample_draft_def memory_New_def
        commitmentRepo_Save_def clone_simps memory_empty_def extracted_def)
  let ?w1 = "?w0\<lparr>w_ids := 1, w_store := memory_empty\<lparr>st_commitments := [(canonical_text 100, extracted)]\<rparr>\<rparr>"
  have mem: "memory_extractor ?rt sample_orders overdue_extractor"
    by (simp add: memory_extractor_def overdue_extractor_def sample_extractor_def sample_runtime_def)
  have nn: "rt_uuid ?rt (w_ids ?w1) \<noteq> uuid_Nil" by (simp add: sample_runtime_def uuid_Nil_def)
  obtain dec where dec: "d_ID dec = 101" "Decision_Validate dec = None"
    "snd (Extract_record ?rt overdue_extractor 50 ?inp (?r\<lparr>xr_Saved := [100]\<rparr>, ?w1)) =
      ?w1\<lparr>w_ids := 2, w_store := snd (decisionRepo_Save canonical_text (w_store ?w1) dec)\<rparr>"
    using Extract_record_memory [OF mem nn, where res = "?r\<lparr>xr_Saved := [100]\<rparr>" and now = 50 and inp = ?inp] id by auto
  have "snd (Extract ?rt overdue_extractor ?inp \<lparr>w_store = memory_empty, w_out = [], w_ids = 0, w_ticks = 0\<rparr>) =
      ?w1\<lparr>w_ids := 2, w_store := memory_empty\<lparr>st_commitments := [(canonical_text 100, extracted)],
        st_decisions := [(canonical_text 101, dec)]\<rparr>\<rparr>"
  proof -
    have x: "x_extractor overdue_extractor ?inp = Inr [?d]" "x_clock overdue_extractor n = 50" "\<not> x_metrics overdue_extractor" for n
      by (simp_all add: overdue_extractor_def sample_extractor_def)
    have "snd (decisionRepo_Save canonical_text (w_store ?w1) dec) = memory_empty\<lparr>st_commitments := [(canonical_text 100, extracted)],
        st_decisions := [(canonical_text 101, dec)]\<rparr>"
      using dec(1,2) by (simp add: decisionRepo_Save_def clone_simps memory_empty_def)
    with dec(3) one x show ?thesis by (auto simp: Extract_def Let_def split: prod.split)
  qed
  then show ?thesis
    by (intro exI [of _ dec]) (auto simp: serve_def service_step_def sample_extraction_def sample_service_def fresh_state_def
        CombinedAuthInterceptor_def grpc_dispatch_def replying_def grpc_Extract_def grpc_NewServer_def split: prod.split option.split)
qed

lemma sample_ticked_ids: "w_ids (world_of (serve sample_service ([sample_extraction] @ [sample_tick]) fresh_state)) \<le> 6"
proof -
  obtain dec where e: "serve sample_service [sample_extraction] fresh_state = (NewRateLimiter (f_lit 100) 20, NewRateLimiter (f_lit 50) 10,
     \<lparr>w_store = memory_empty\<lparr>st_commitments := [(canonical_text 100, extracted)], st_decisions := [(canonical_text 101, dec)]\<rparr>,
      w_out = [], w_ids = 2, w_ticks = 1\<rparr>)" using sample_extracted by blast
  let ?w = "world_of (serve sample_service [sample_extraction] fresh_state)" and ?e = "sc_evaluator sample_service"
  let ?rt = "with_ctx (\<lambda>_. None) (sc_rt sample_service)"
  have "memory_wired (sc_rt sample_service) sample_orders ?e" using sample_memory_service by (simp add: memory_service_def)
  moreover obtain cs where cs: "commitmentRepo_FindActive (rng_c sample_orders) (w_store ?w) (eo_Limit zero_options) = Inr cs"
    by (simp add: commitmentRepo_FindActive_def Let_def)
  ultimately have "draws (2 * length cs) ?w (snd (Evaluate ?rt ?e zero_options ?w))" by (intro Evaluate_draws) (simp add: wired_ops)
  moreover have "length cs \<le> 1" using FindActive_length [OF sample_rng cs] by (simp add: e memory_empty_def)
  moreover have "world_of (serve sample_service ([sample_extraction] @ [sample_tick]) fresh_state) = snd (Evaluate ?rt ?e zero_options ?w)"
    unfolding serve_append by (simp add: serve_def sample_tick_def tick_step)
  ultimately show ?thesis by (simp add: draws_def e)
qed

lemma sample_row: "map_of (st_commitments (w_store (world_of (serve sample_service [sample_extraction] fresh_state)))) (canonical_text 100) = Some extracted"
  using sample_extracted by auto

lemma sample_overdue: "overdue_ticks sample_service 1000 [sample_tick] (serve sample_service [sample_extraction] fresh_state) = 1"
  using sample_extracted by (auto simp: clean_tick_def sample_tick_def sample_service_def sample_evaluator_def)

lemma sample_proposal:
  "\<exists>iv. interventionRepo_Get canonical_text (w_store (world_of (serve sample_service ([sample_extraction] @ [sample_tick]) fresh_state)))
     (iv_ID iv) = Inr iv"
proof -
  let ?s1 = "serve sample_service [sample_extraction] fresh_state" and ?s2 = "serve sample_service ([sample_extraction] @ [sample_tick]) fresh_state"
  note keep = serve_keeps [OF sample_memory_service sample_rng sample_supply]
  have s2: "?s2 = service_step sample_service ?s1 sample_tick" by (simp add: serve_def)
  have ids: "w_ids (world_of ?s1) \<le> 6" using sample_extracted by auto
  have inv: "service_inv (sc_rt sample_service) (world_of ?s1)" "service_inv (sc_rt sample_service) (world_of ?s2)"
    using keepsD [OF keep [of fresh_state] ids fresh_inv] keepsD [OF keep [of fresh_state] sample_ticked_ids fresh_inv] by blast+
  have "nudged (c_ID extracted) (world_of ?s1) (world_of ?s2)" unfolding s2
    by (rule overdue_tick_nudges [OF sample_memory_service sample_rng sample_supply sample_engines inv(1) sample_row, where due = 1000])
      (use sample_overdue sample_ticked_ids [unfolded s2] in \<open>auto simp: extracted_def split: if_splits\<close>)
  then obtain x iv where iv: "map_of (st_interventions (w_store (world_of ?s2))) x = Some iv" by (auto simp: nudged_def)
  have "x = canonical_text (iv_ID iv)"
    using inv(2) table_wf_lookup [OF _ iv, of canonical_text iv_ID] by (auto simp: service_inv_def sample_service_def sample_runtime_def)
  with iv show ?thesis by (intro exI [of _ iv]) (simp add: interventionRepo_Get_row)
qed


section \<open>Identifiers without end\<close>

text \<open>Numbering the 128-bit identifiers from one is a supply for all but one of them.\<close>

definition counting_runtime :: runtime where
  "counting_runtime = \<lparr>rt_uuid = (\<lambda>n. if Suc n < 2 ^ 128 then of_nat (Suc n) else 1), rt_str = canonical_text,
     rt_printable = (\<lambda>_. True), rt_ctxErr = (\<lambda>_. None)\<rparr>"

lemma of_nat_inj128: "m < 2 ^ 128 \<Longrightarrow> n < 2 ^ 128 \<Longrightarrow> (of_nat m :: 128 word) = of_nat n \<Longrightarrow> m = n"
  by (drule arg_cong [of _ _ unat]) (simp add: unat_of_nat)

interpretation counting: id_supply counting_runtime "2 ^ 128 - 1"
proof unfold_locales
  show "inj (rt_str counting_runtime)" by (simp add: counting_runtime_def inj_canonical_text)
  show "inj_on (rt_uuid counting_runtime) {..<2 ^ 128 - 1}"
    by (rule inj_onI) (rule of_nat_inj128, simp_all add: counting_runtime_def)
  show "rt_uuid counting_runtime n \<noteq> uuid_Nil" for n
    using of_nat_inj128 [of "Suc n" 0] by (auto simp: counting_runtime_def uuid_Nil_def)
qed


section \<open>Properties\<close>

text \<open>
  (C3) The history of the service. From an empty memory store, after any sequence of HTTP requests, gRPC calls and worker
  ticks, whoever sends them and whenever they are cancelled, and while the identifiers drawn are distinct: every row is valid
  and stored under its own identifier, every commitment is pending, every intervention belongs to a stored commitment and
  suggests no action, and there are no goals or tasks. Whatever follows, no row is ever lost: a commitment keeps everything but its
  score and stamps, a decision is never altered, and an intervention changes only its status, along the lifecycle, and its
  resolution stamp.
\<close>

theorem service_history:
  assumes "memory_service r sv" and "range_order (rng_c r)" and "inj (rt_str (sc_rt sv))"
    and "\<forall>n. rt_uuid (sc_rt sv) n \<noteq> uuid_Nil" and "inj_on (rt_uuid (sc_rt sv)) {..<N}"
    and "w_ids (world_of (serve sv (evs @ later) fresh_state)) \<le> N"
  shows "service_inv (sc_rt sv) (world_of (serve sv evs fresh_state))
    \<and> service_inv (sc_rt sv) (world_of (serve sv (evs @ later) fresh_state))
    \<and> store_keeps (w_store (world_of (serve sv evs fresh_state))) (w_store (world_of (serve sv (evs @ later) fresh_state)))"
proof -
  note sup = id_supplyI [OF assms(3-5)]
  note k1 = serve_keeps [OF assms(1,2) sup, of fresh_state evs] and k2 = serve_keeps [OF assms(1,2) sup, of "serve sv evs fresh_state" later]
  have N: "w_ids (world_of (serve sv evs fresh_state)) \<le> N" using assms(6) k2 by (simp add: serve_append keeps_def)
  note s1 = keepsD [OF k1 N fresh_inv]
  from keepsD [OF k2 _ conjunct1 [OF s1]] s1 assms(6) show ?thesis by (simp add: serve_append)
qed

theorem service_history_witness:
  "service_inv sample_runtime (world_of (serve sample_service ([sample_extraction] @ [sample_tick]) fresh_state))
   \<and> (\<exists>c. map_of (st_commitments (w_store (world_of (serve sample_service ([sample_extraction] @ [sample_tick]) fresh_state))))
        (canonical_text 100) = Some c \<and> same_commitment extracted c)"
proof -
  note p = service_history [OF sample_memory_service sample_rng sample_ids_parts sample_ticked_ids]
  then show ?thesis using table_keepsD [OF _ sample_row]
    unfolding store_keeps_def by (simp add: sample_service_def)
qed

text \<open>
  (C16) Nothing the service proposes can be executed: whatever the traffic so far, an intervention read from the store carries no
  suggested action, so the direct kernel and the axi kernel, whatever Praxis client, logger and axi kernel are behind them,
  refuse it with \<^verbatim>\<open>ErrNoSuggestedAction\<close> and send nothing.
\<close>

theorem proposed_interventions_unexecutable:
  assumes "memory_service r sv" and "range_order (rng_c r)" and "inj (rt_str (sc_rt sv))"
    and "\<forall>n. rt_uuid (sc_rt sv) n \<noteq> uuid_Nil" and "inj_on (rt_uuid (sc_rt sv)) {..<N}"
    and "w_ids (world_of (serve sv evs fresh_state)) \<le> N"
    and "interventionRepo_Get (rt_str (sc_rt sv)) (w_store (world_of (serve sv evs fresh_state))) i = Inr iv"
  shows "DirectKernel_Execute str err_text k iv lg = ((empty_outcome (iv_ID iv), Some ErrNoSuggestedAction), lg)
    \<and> AxiKernel_Execute str err_text fmt_T json_map axi praxis iv ks lg
        = (Some (empty_outcome (iv_ID iv), Some ErrNoSuggestedAction), ks, lg)"
proof -
  note sup = id_supplyI [OF assms(3-5)]
  let ?w = "world_of (serve sv evs fresh_state)"
  have "service_inv (sc_rt sv) ?w" using keepsD [OF serve_keeps [OF assms(1,2) sup, of fresh_state evs] assms(6) fresh_inv] by blast
  then have tw: "table_wf (rt_str (sc_rt sv)) iv_ID (own_intervention (sc_rt sv) (w_ids ?w) (map_of (st_commitments (w_store ?w))))
      (st_interventions (w_store ?w))" by (simp add: service_inv_def)
  have "map_of (st_interventions (w_store ?w)) (rt_str (sc_rt sv) i) = Some iv"
    using assms(7) by (simp add: interventionRepo_Get_row split: option.splits)
  from table_wf_lookup [OF tw this] have "iv_SuggestedAction iv = None" by (simp add: own_intervention_def)
  then show ?thesis by (simp add: DirectKernel_Execute_def AxiKernel_Execute_def)
qed

theorem proposed_interventions_unexecutable_witness:
  "\<exists>i iv. interventionRepo_Get canonical_text (w_store (world_of (serve sample_service ([sample_extraction] @ [sample_tick]) fresh_state))) i = Inr iv
     \<and> (\<forall>k. DirectKernel_Execute canonical_text (\<lambda>_. []) k iv [] = ((empty_outcome (iv_ID iv), Some ErrNoSuggestedAction), []))"
proof -
  obtain iv where iv: "interventionRepo_Get (rt_str (sc_rt sample_service))
      (w_store (world_of (serve sample_service ([sample_extraction] @ [sample_tick]) fresh_state))) (iv_ID iv) = Inr iv"
    using sample_proposal by (auto simp: sample_service_def sample_runtime_def)
  then have "\<forall>k. DirectKernel_Execute canonical_text (\<lambda>_. []) k iv [] = ((empty_outcome (iv_ID iv), Some ErrNoSuggestedAction), [])"
    by (intro allI conjunct1 [OF proposed_interventions_unexecutable [OF sample_memory_service sample_rng sample_ids_parts sample_ticked_ids]])
  with iv show ?thesis by (auto simp: sample_service_def sample_runtime_def)
qed

text \<open>
  (C17) The worker repeats itself: with the default engines, every tick that runs to its end past the due time of a stored
  commitment stores one more intervention for it, whatever requests come in between (resolving the earlier ones included).
\<close>

theorem overdue_nudged_every_tick:
  assumes "memory_service r sv" and "range_order (rng_c r)" and "inj (rt_str (sc_rt sv))"
    and "\<forall>n. rt_uuid (sc_rt sv) n \<noteq> uuid_Nil" and "inj_on (rt_uuid (sc_rt sv)) {..<N}"
    and "w_ids (world_of (serve sv (evs @ later) fresh_state)) \<le> N" and "default_engines (sc_evaluator sv)"
    and "map_of (st_commitments (w_store (world_of (serve sv evs fresh_state)))) x = Some c" and "c_DueAt c = Some due"
  shows "nudge_count (c_ID c) (w_store (world_of (serve sv evs fresh_state))) + overdue_ticks sv due later (serve sv evs fresh_state)
    \<le> nudge_count (c_ID c) (w_store (world_of (serve sv (evs @ later) fresh_state)))"
proof -
  note sup = id_supplyI [OF assms(3-5)]
  have N: "w_ids (world_of (serve sv evs fresh_state)) \<le> N"
    using assms(6) serve_keeps [OF assms(1,2) sup, of "serve sv evs fresh_state" later] by (simp add: serve_append keeps_def)
  have "service_inv (sc_rt sv) (world_of (serve sv evs fresh_state))"
    using keepsD [OF serve_keeps [OF assms(1,2) sup, of fresh_state evs] N fresh_inv] by blast
  from overdue_counted [OF assms(1,2) sup assms(7) this assms(8,9)] assms(6) show ?thesis by (simp add: serve_append)
qed

theorem overdue_nudged_every_tick_witness:
  "1 \<le> nudge_count 100 (w_store (world_of (serve sample_service ([sample_extraction] @ [sample_tick]) fresh_state)))"
proof -
  have due: "c_DueAt extracted = Some 1000" "c_ID extracted = 100" by (simp_all add: extracted_def)
  from overdue_nudged_every_tick [OF sample_memory_service sample_rng sample_ids_parts sample_ticked_ids sample_engines sample_row due(1)]
  show ?thesis unfolding sample_overdue due(2) by simp
qed

end
