(* ===== verification/Sql_Service.thy ===== *)
theory Sql_Service
  imports Sql_Agree Service
begin

text \<open>
  The service over a SQL store. A service is put on the repositories of a connection; when two connections have the same writes
  and agreeing reads, the service behaves alike on both, which holds for those of SQLite and PostgreSQL over one driver.
\<close>

section \<open>A service on a connection\<close>

definition evaluator_on :: "'s Conn \<Rightarrow> 's Evaluator \<Rightarrow> 's Evaluator" where
  "evaluator_on conn e = e\<lparr>e_commitments := conn_Commitments conn, e_decisions := conn_Decisions conn,
     e_interventions := conn_Interventions conn\<rparr>"

definition extractor_on :: "'s Conn \<Rightarrow> 's Extractor \<Rightarrow> 's Extractor" where
  "extractor_on conn x = x\<lparr>x_commitments := conn_Commitments conn, x_decisions := conn_Decisions conn\<rparr>"

definition http_on :: "'s Conn \<Rightarrow> 's Server \<Rightarrow> 's Server" where
  "http_on conn s = s\<lparr>sv_extractor := extractor_on conn (sv_extractor s), sv_evaluator := evaluator_on conn (sv_evaluator s),
     sv_commitments := conn_Commitments conn, sv_decisions := conn_Decisions conn, sv_intervs := conn_Interventions conn\<rparr>"

definition grpc_on :: "'s Conn \<Rightarrow> 's grpc_Server \<Rightarrow> 's grpc_Server" where
  "grpc_on conn s = s\<lparr>gs_extractor := extractor_on conn (gs_extractor s), gs_evaluator := evaluator_on conn (gs_evaluator s),
     gs_commitments := conn_Commitments conn, gs_decisions := conn_Decisions conn, gs_interventions := conn_Interventions conn\<rparr>"

definition service_on :: "'s Conn \<Rightarrow> 's service \<Rightarrow> 's service" where
  "service_on conn sv = sv\<lparr>sc_http := http_on conn (sc_http sv), sc_grpc := grpc_on conn (sc_grpc sv),
     sc_evaluator := evaluator_on conn (sc_evaluator sv)\<rparr>"

text \<open>Answers that differ at most in the text of an error.\<close>

definition same_answer :: "http_Response \<Rightarrow> http_Response \<Rightarrow> bool" where
  "same_answer a b \<longleftrightarrow> hs_Status a = hs_Status b \<and> (hs_Status a = 200 \<longrightarrow> a = b)"

definition same_reply :: "'a grpc_result \<Rightarrow> 'a grpc_result \<Rightarrow> bool" where
  "same_reply a b \<longleftrightarrow> (\<forall>x. a = Inr x \<longleftrightarrow> b = Inr x)"

lemma same_answer_refl [simp]: "same_answer a a"
  by (simp add: same_answer_def)

lemma same_answer_error [simp]: "code \<noteq> 200 \<Longrightarrow> same_answer (httpError code a) (httpError code b)"
  by (simp add: same_answer_def httpError_def json_error_def)

lemma same_reply_simps [simp]: "same_reply a a" "same_reply (Inl x) (Inl y)"
  by (simp_all add: same_reply_def)

lemma agree_cases: "agree a b \<Longrightarrow> (\<exists>x. a = Inr x \<and> b = Inr x) \<or> (\<exists>e f. a = Inl e \<and> b = Inl f)"
  unfolding agree_def by (cases a; cases b) auto


text \<open>Handlers with the same answers and the same effects; the middlewares and interceptors pass that on.\<close>

definition same_handler :: "'w handler \<Rightarrow> 'w handler \<Rightarrow> bool" where
  "same_handler h h' \<longleftrightarrow> (\<forall>r w. same_answer (fst (h r w)) (fst (h' r w)) \<and> snd (h r w) = snd (h' r w))"

definition same_unary :: "('q, 'a, 'w) unary_handler \<Rightarrow> ('q, 'a, 'w) unary_handler \<Rightarrow> bool" where
  "same_unary h h' \<longleftrightarrow> (\<forall>q w. same_reply (fst (h q w)) (fst (h' q w)) \<and> snd (h q w) = snd (h' q w))"

lemma same_handlerD: "same_handler h h' \<Longrightarrow> \<exists>a a' w'. h r w = (a, w') \<and> h' r w = (a', w') \<and> same_answer a a'"
  unfolding same_handler_def by (metis prod.collapse)

lemma same_handler_snd: "same_handler h h' \<Longrightarrow> snd (h r w) = snd (h' r w)"
  by (simp add: same_handler_def)

lemma same_unary_snd: "same_unary h h' \<Longrightarrow> snd (h q w) = snd (h' q w)"
  by (simp add: same_unary_def)

lemma same_reply_iff: "same_reply a b \<longleftrightarrow> (case a of Inr x \<Rightarrow> b = Inr x | Inl _ \<Rightarrow> isl b)"
  unfolding same_reply_def by (cases a; cases b) auto

lemma same_answer_header:
  "same_answer a b \<Longrightarrow> same_answer (a\<lparr>hs_Header := x # hs_Header a\<rparr>) (b\<lparr>hs_Header := x # hs_Header b\<rparr>)"
  by (cases "hs_Status a = 200") (simp_all add: same_answer_def)

lemma HTTPMiddleware_same: "same_handler h h' \<Longrightarrow> same_handler (HTTPMiddleware now h) (HTTPMiddleware now h')"
  unfolding same_handler_def HTTPMiddleware_def Let_def case_prod_beta by (simp add: same_answer_header del: if_split)

lemma OwnerRateLimit_same:
  assumes "same_handler h h'"
  shows "same_handler (OwnerRateLimitMiddleware text now0 now h) (OwnerRateLimitMiddleware text now0 now h')"
  unfolding same_handler_def
proof (intro allI)
  fix r and lw :: "RateLimiter \<times> 'a"
  obtain l w where lw: "lw = (l, w)" by (cases lw)
  obtain k r' where k: "ownerKey r = (k, r')" by (cases "ownerKey r")
  obtain a1 a1' w1 where 1: "h r w = (a1, w1)" "h' r w = (a1', w1)" "same_answer a1 a1'" using same_handlerD [OF assms, of r w] by auto
  obtain a2 a2' w2 where 2: "h r' w = (a2, w2)" "h' r' w = (a2', w2)" "same_answer a2 a2'" using same_handlerD [OF assms, of r' w] by auto
  show "same_answer (fst (OwnerRateLimitMiddleware text now0 now h r lw)) (fst (OwnerRateLimitMiddleware text now0 now h' r lw))
      \<and> snd (OwnerRateLimitMiddleware text now0 now h r lw) = snd (OwnerRateLimitMiddleware text now0 now h' r lw)"
    unfolding OwnerRateLimitMiddleware_def lw k by (cases k; cases "isOpenPath (url_Path r)") (simp_all add: 1 2 case_prod_beta)
qed

lemma RateLimit_same:
  assumes "same_handler h h'"
  shows "same_handler (RateLimitMiddleware now0 now h) (RateLimitMiddleware now0 now h')"
  using assms unfolding same_handler_def RateLimitMiddleware_def Let_def case_prod_beta by auto

lemma CombinedAuth_same:
  assumes "same_handler h h'"
  shows "same_handler (CombinedAuthMiddleware lib printable now token verifier h) (CombinedAuthMiddleware lib printable now token verifier h')"
  using assms unfolding same_handler_def CombinedAuthMiddleware_def Let_def by (auto split: option.split)

lemma interceptor_same:
  assumes "same_unary h h'"
  shows "same_unary (CombinedAuthInterceptor lib printable now token verifier md h) (CombinedAuthInterceptor lib printable now token verifier md h')"
  using assms unfolding same_unary_def CombinedAuthInterceptor_def Let_def by (auto split: option.split)

lemma replying_same: "same_reply (fst a) (fst b) \<and> snd a = snd b \<Longrightarrow>
  same_reply (fst (replying f a)) (fst (replying f b)) \<and> snd (replying f a) = snd (replying f b)"
  unfolding replying_def case_prod_beta same_reply_iff by (cases "fst a"; cases "fst b") auto

lemma agree_reply:
  "agree a b \<Longrightarrow> same_reply (fst (case a of Inl err \<Rightarrow> (Inl (g err), w) | Inr x \<Rightarrow> (Inr (h x), w)))
     (fst (case b of Inl err \<Rightarrow> (Inl (g' err), w) | Inr x \<Rightarrow> (Inr (h x), w)))
   \<and> snd (case a of Inl err \<Rightarrow> (Inl (g err), w) | Inr x \<Rightarrow> (Inr (h x), w)) = snd (case b of Inl err \<Rightarrow> (Inl (g' err), w) | Inr x \<Rightarrow> (Inr (h x), w))"
  by (auto dest!: agree_cases)


section \<open>The contract\<close>

lemma agree_answer:
  "agree a b \<Longrightarrow> code \<noteq> 200 \<Longrightarrow>
     same_answer (fst (case a of Inl err \<Rightarrow> (httpError code (g err), w) | Inr x \<Rightarrow> (h x, w)))
       (fst (case b of Inl err \<Rightarrow> (httpError code (g err), w) | Inr x \<Rightarrow> (h x, w)))"
  by (auto dest!: agree_cases)

lemma http_on_parts [simp]:
  "sv_extractor (http_on c s) = extractor_on c (sv_extractor s)" "sv_evaluator (http_on c s) = evaluator_on c (sv_evaluator s)"
  "sv_commitments (http_on c s) = conn_Commitments c" "sv_decisions (http_on c s) = conn_Decisions c"
  "sv_intervs (http_on c s) = conn_Interventions c" "sv_metrics (http_on c s) = sv_metrics s"
  "sv_healthChecker (http_on c s) = sv_healthChecker s" "sv_validator (http_on c s) = sv_validator s"
  by (simp_all add: http_on_def)

lemma grpc_on_parts [simp]:
  "gs_extractor (grpc_on c g) = extractor_on c (gs_extractor g)" "gs_evaluator (grpc_on c g) = evaluator_on c (gs_evaluator g)"
  "gs_commitments (grpc_on c g) = conn_Commitments c" "gs_decisions (grpc_on c g) = conn_Decisions c"
  "gs_interventions (grpc_on c g) = conn_Interventions c"
  by (simp_all add: grpc_on_def)

locale agreeing_backends =
  fixes conn :: "'s Conn" and conn' :: "'s Conn"
  assumes writes: "CSave (conn_Commitments conn) = CSave (conn_Commitments conn')"
      "CUpdateRisk (conn_Commitments conn) = CUpdateRisk (conn_Commitments conn')"
      "DSave (conn_Decisions conn) = DSave (conn_Decisions conn')"
      "ISave (conn_Interventions conn) = ISave (conn_Interventions conn')"
    and reads: "agree (CFindActive (conn_Commitments conn) s n) (CFindActive (conn_Commitments conn') s n)"
      "agree (CGet (conn_Commitments conn) s k) (CGet (conn_Commitments conn') s k)"
      "agree (CList (conn_Commitments conn) s cf) (CList (conn_Commitments conn') s cf)"
      "agree (DGet (conn_Decisions conn) s k) (DGet (conn_Decisions conn') s k)"
      "agree (DListBySubject (conn_Decisions conn) s subject n) (DListBySubject (conn_Decisions conn') s subject n)"
      "agree (IGet (conn_Interventions conn) s k) (IGet (conn_Interventions conn') s k)"
      "agree (IList (conn_Interventions conn) s f) (IList (conn_Interventions conn') s f)"
begin

lemma evaluator_writes:
  "CUpdateRisk (e_commitments (evaluator_on conn e)) = CUpdateRisk (e_commitments (evaluator_on conn' e))"
  "DSave (e_decisions (evaluator_on conn e)) = DSave (e_decisions (evaluator_on conn' e))"
  "ISave (e_interventions (evaluator_on conn e)) = ISave (e_interventions (evaluator_on conn' e))"
  by (simp_all add: evaluator_on_def writes)

lemma evaluator_parts:
  "e_mnemos (evaluator_on conn e) = e_mnemos (evaluator_on conn' e)" "e_chronos (evaluator_on conn e) = e_chronos (evaluator_on conn' e)"
  "e_praxis (evaluator_on conn e) = e_praxis (evaluator_on conn' e)" "e_risk (evaluator_on conn e) = e_risk (evaluator_on conn' e)"
  "e_intervention (evaluator_on conn e) = e_intervention (evaluator_on conn' e)"
  "e_clock (evaluator_on conn e) = e_clock (evaluator_on conn' e)" "e_metrics (evaluator_on conn e) = e_metrics (evaluator_on conn' e)"
  by (simp_all add: evaluator_on_def)

lemma loop_same: "Evaluate_loop rt (evaluator_on conn e) opts now i cs result w = Evaluate_loop rt (evaluator_on conn' e) opts now i cs result w"
proof -
  have "Evaluate_one rt (evaluator_on conn e) opts now c res w = Evaluate_one rt (evaluator_on conn' e) opts now c res w" for c res w
    unfolding Evaluate_one_def Evaluate_decide_def Evaluate_save_def recordDecision_def intervene_def fetchSignals_def
      fetchMemories_def praxisDryRun_def evaluator_writes evaluator_parts by (rule refl)
  then show ?thesis by (induction cs arbitrary: i result w) (simp_all split: option.split prod.split)
qed

lemma Evaluate_same:
  "snd (Evaluate rt (evaluator_on conn e) opts w) = snd (Evaluate rt (evaluator_on conn' e) opts w)
   \<and> fst (fst (Evaluate rt (evaluator_on conn e) opts w)) = fst (fst (Evaluate rt (evaluator_on conn' e) opts w))
   \<and> (snd (fst (Evaluate rt (evaluator_on conn e) opts w)) = None \<longleftrightarrow> snd (fst (Evaluate rt (evaluator_on conn' e) opts w)) = None)"
proof -
  have f: "e_metrics (evaluator_on c e) = e_metrics e" "e_clock (evaluator_on c e) = e_clock e"
    "e_commitments (evaluator_on c e) = conn_Commitments c" for c by (simp_all add: evaluator_on_def)
  consider cs where "CFindActive (conn_Commitments conn) (w_store w) (eo_Limit opts) = Inr cs"
      "CFindActive (conn_Commitments conn') (w_store w) (eo_Limit opts) = Inr cs"
    | e1 e2 where "CFindActive (conn_Commitments conn) (w_store w) (eo_Limit opts) = Inl e1"
      "CFindActive (conn_Commitments conn') (w_store w) (eo_Limit opts) = Inl e2"
    using agree_cases [OF reads(1)] by blast
  then show ?thesis
  proof cases
    case 1
    then show ?thesis by (simp add: Evaluate_scanned f start_world_def loop_same)
  next
    case 2
    then show ?thesis by (simp add: Evaluate_def f Let_def)
  qed
qed

lemma Extract_same: "Extract rt (extractor_on conn x) i w = Extract rt (extractor_on conn' x) i w"
proof -
  have p: "CSave (x_commitments (extractor_on conn x)) = CSave (x_commitments (extractor_on conn' x))"
    "DSave (x_decisions (extractor_on conn x)) = DSave (x_decisions (extractor_on conn' x))"
    "x_extractor (extractor_on conn x) = x_extractor (extractor_on conn' x)" "x_clock (extractor_on conn x) = x_clock (extractor_on conn' x)"
    "x_minConfidence (extractor_on conn x) = x_minConfidence (extractor_on conn' x)"
    "x_metrics (extractor_on conn x) = x_metrics (extractor_on conn' x)" by (simp_all add: extractor_on_def writes)
  have q: "Extract_one rt (extractor_on conn x) = Extract_one rt (extractor_on conn' x)"
    "Extract_record rt (extractor_on conn x) = Extract_record rt (extractor_on conn' x)"
    unfolding fun_eq_iff Extract_one_def Extract_record_def p by blast+
  show ?thesis unfolding Extract_def p q by (rule refl)
qed

text \<open>Two results that agree, for a handler that looks at one.\<close>

lemma Evaluate_split:
  obtains res w' where "Evaluate rt (evaluator_on conn e) opts w = ((res, None), w')" "Evaluate rt (evaluator_on conn' e) opts w = ((res, None), w')"
  | res e1 e2 w' where "Evaluate rt (evaluator_on conn e) opts w = ((res, Some e1), w')" "Evaluate rt (evaluator_on conn' e) opts w = ((res, Some e2), w')"
proof -
  obtain r1 x1 w1 where 1: "Evaluate rt (evaluator_on conn e) opts w = ((r1, x1), w1)" by (metis prod.collapse)
  obtain r2 x2 w2 where 2: "Evaluate rt (evaluator_on conn' e) opts w = ((r2, x2), w2)" by (metis prod.collapse)
  have "w1 = w2" "r1 = r2" "x1 = None \<longleftrightarrow> x2 = None" using Evaluate_same [of rt e opts w] by (simp_all add: 1 2)
  then show ?thesis using that 1 2 by (cases x1; cases x2) auto
qed

lemma handleEvaluate_same:
  "same_answer (fst (handleEvaluate env rt (http_on conn s) r w)) (fst (handleEvaluate env rt (http_on conn' s) r w))
   \<and> snd (handleEvaluate env rt (http_on conn s) r w) = snd (handleEvaluate env rt (http_on conn' s) r w)"
  by (rule Evaluate_split [of rt "sv_evaluator s" "\<lparr>eo_Limit = 0, eo_SignalLookback = 0\<rparr>" w])
     (simp_all add: handleEvaluate_def)

lemma handleExtract_same: "handleExtract env rt (http_on conn s) = handleExtract env rt (http_on conn' s)"
  unfolding fun_eq_iff handleExtract_def http_on_parts Extract_same by blast

lemma handleResolve_same:
  "same_answer (fst (handleResolveIntervention env rt (http_on conn s) pid r w)) (fst (handleResolveIntervention env rt (http_on conn' s) pid r w))
   \<and> snd (handleResolveIntervention env rt (http_on conn s) pid r w) = snd (handleResolveIntervention env rt (http_on conn' s) pid r w)"
proof (cases "he_parse env pid")
  case (Some i)
  then show ?thesis using agree_cases [OF reads(6) [of "w_store w" i]]
    unfolding handleResolveIntervention_def http_on_parts writes by (auto split: option.split)
qed (simp add: handleResolveIntervention_def)

lemma reading_same:
  "same_answer (fst (handleListCommitments env rt (http_on conn s) r w)) (fst (handleListCommitments env rt (http_on conn' s) r w))"
  "same_answer (fst (handleGetCommitment env rt (http_on conn s) pid r w)) (fst (handleGetCommitment env rt (http_on conn' s) pid r w))"
  "same_answer (fst (handleListDecisions env rt (http_on conn s) r w)) (fst (handleListDecisions env rt (http_on conn' s) r w))"
  "same_answer (fst (handleGetDecision env rt (http_on conn s) pid r w)) (fst (handleGetDecision env rt (http_on conn' s) pid r w))"
  "same_answer (fst (handleListInterventions env rt (http_on conn s) r w)) (fst (handleListInterventions env rt (http_on conn' s) r w))"
proof -
  note rules = agree_answer [OF reads(2)] agree_answer [OF reads(3)] agree_answer [OF reads(4)] agree_answer [OF reads(5)]
    agree_answer [OF reads(7)]
  show "same_answer (fst (handleListCommitments env rt (http_on conn s) r w)) (fst (handleListCommitments env rt (http_on conn' s) r w))"
    unfolding handleListCommitments_def http_on_parts Let_def by (rule rules) simp
  show "same_answer (fst (handleGetCommitment env rt (http_on conn s) pid r w)) (fst (handleGetCommitment env rt (http_on conn' s) pid r w))"
    unfolding handleGetCommitment_def http_on_parts by (cases "he_parse env pid") (simp_all add: rules)
  show "same_answer (fst (handleListDecisions env rt (http_on conn s) r w)) (fst (handleListDecisions env rt (http_on conn' s) r w))"
    unfolding handleListDecisions_def http_on_parts Let_def by (cases "values_Get (hr_Query r) ''subject'' = []") (simp_all add: rules)
  show "same_answer (fst (handleGetDecision env rt (http_on conn s) pid r w)) (fst (handleGetDecision env rt (http_on conn' s) pid r w))"
    unfolding handleGetDecision_def http_on_parts by (cases "he_parse env pid") (simp_all add: rules)
  show "same_answer (fst (handleListInterventions env rt (http_on conn s) r w)) (fst (handleListInterventions env rt (http_on conn' s) r w))"
    unfolding handleListInterventions_def http_on_parts Let_def by (simp add: rules split: option.split)
qed

lemma mux_same: "same_handler (mux env rt (http_on conn s)) (mux env rt (http_on conn' s))"
proof -
  have "same_answer (fst (serve_route env rt (http_on conn s) ro r w)) (fst (serve_route env rt (http_on conn' s) ro r w))
      \<and> snd (serve_route env rt (http_on conn s) ro r w) = snd (serve_route env rt (http_on conn' s) ro r w)" for ro r w
  proof (cases ro)
    case RExtract
    then show ?thesis by (simp add: serve_route_def handleExtract_same)
  next
    case REvaluate
    then show ?thesis by (simp add: serve_route_def handleEvaluate_same)
  next
    case (RResolve i)
    then show ?thesis by (simp add: serve_route_def handleResolve_same)
  qed (simp_all add: serve_route_def reading_same handleHealth_def handleMetrics_def,
    auto simp: handleListCommitments_def handleGetCommitment_def handleListDecisions_def handleGetDecision_def
      handleListInterventions_def Let_def split: option.split sum.split)
  then show ?thesis unfolding same_handler_def mux_def Let_def by (auto split: option.split)
qed

lemma root_same:
  "same_handler (root_handler env rt lib now token verifier (http_on conn s)) (root_handler env rt lib now token verifier (http_on conn' s))"
  unfolding root_handler_def by (intro CombinedAuth_same RateLimit_same OwnerRateLimit_same HTTPMiddleware_same mux_same)

lemma grpc_Evaluate_same:
  "same_reply (fst (grpc_Evaluate env rt (grpc_on conn s) req w)) (fst (grpc_Evaluate env rt (grpc_on conn' s) req w))
   \<and> snd (grpc_Evaluate env rt (grpc_on conn s) req w) = snd (grpc_Evaluate env rt (grpc_on conn' s) req w)"
  by (rule Evaluate_split [of rt "gs_evaluator s" "case gv_SignalLookback req of None \<Rightarrow> \<lparr>eo_Limit = gv_Limit req, eo_SignalLookback = 0\<rparr>
        | Some d \<Rightarrow> \<lparr>eo_Limit = gv_Limit req, eo_SignalLookback = d\<rparr>" w])
     (simp_all add: grpc_Evaluate_def Let_def cong: option.case_cong split: option.splits)

lemma ResolveIntervention_same:
  "same_reply (fst (ResolveIntervention env rt (grpc_on conn s) req w)) (fst (ResolveIntervention env rt (grpc_on conn' s) req w))
   \<and> snd (ResolveIntervention env rt (grpc_on conn s) req w) = snd (ResolveIntervention env rt (grpc_on conn' s) req w)"
proof (cases req)
  case (Pair pid status)
  show ?thesis
  proof (cases "ge_parse env pid")
    case (Some i)
    then show ?thesis using agree_cases [OF reads(6) [of "w_store w" i]] Pair
      unfolding ResolveIntervention_def grpc_on_parts writes by auto
  qed (simp add: Pair ResolveIntervention_def)
qed

lemma dispatch_same: "same_unary (grpc_dispatch env rt (grpc_on conn s)) (grpc_dispatch env rt (grpc_on conn' s))"
  unfolding same_unary_def
proof (intro allI)
  fix q w
  note reply = agree_reply [OF reads(2)] agree_reply [OF reads(3)] agree_reply [OF reads(4)] agree_reply [OF reads(5)]
    agree_reply [OF reads(6)] agree_reply [OF reads(7)]
  show "same_reply (fst (grpc_dispatch env rt (grpc_on conn s) q w)) (fst (grpc_dispatch env rt (grpc_on conn' s) q w))
      \<and> snd (grpc_dispatch env rt (grpc_on conn s) q w) = snd (grpc_dispatch env rt (grpc_on conn' s) q w)"
  proof (cases q)
    case (GExtract req)
    then show ?thesis unfolding grpc_dispatch_def grpc_Extract_def grpc_on_parts Extract_same by simp
  next
    case (GEvaluate req)
    then show ?thesis using replying_same [OF grpc_Evaluate_same] by (simp add: grpc_dispatch_def)
  next
    case (GListCommitments req)
    then show ?thesis unfolding grpc_dispatch_def grpc_ListCommitments_def grpc_on_parts
      using replying_same [OF reply(2)] by simp
  next
    case (GGetCommitment i)
    then show ?thesis unfolding grpc_dispatch_def GetCommitment_def grpc_on_parts
      using replying_same [OF reply(1)] by (cases "ge_parse env i") simp_all
  next
    case (GListDecisions subject limit)
    then show ?thesis unfolding grpc_dispatch_def ListDecisions_def grpc_on_parts
      using replying_same [OF reply(4)] by simp
  next
    case (GGetDecision i)
    then show ?thesis unfolding grpc_dispatch_def GetDecision_def grpc_on_parts
      using replying_same [OF reply(3)] by (cases "ge_parse env i") simp_all
  next
    case (GListInterventions req)
    then show ?thesis unfolding grpc_dispatch_def ListInterventions_def grpc_on_parts
      using replying_same [OF reply(6)]
      by (cases "parse_optional env (gi_CommitmentId req)"; cases "parse_optional env (gi_TaskId req)") simp_all
  next
    case (GGetIntervention i)
    then show ?thesis unfolding grpc_dispatch_def GetIntervention_def grpc_on_parts
      using replying_same [OF reply(5)] by (cases "ge_parse env i") simp_all
  next
    case (GResolveIntervention i status)
    then show ?thesis using replying_same [OF ResolveIntervention_same] by (simp add: grpc_dispatch_def)
  qed
qed

lemma tick_same: "snd (tick rt (evaluator_on conn e) t1 t2 w) = snd (tick rt (evaluator_on conn' e) t1 t2 w)"
  by (rule Evaluate_split [of rt e zero_options w]) (simp_all add: tick_def)

lemma service_step_same: "service_step (service_on conn sv) s ev = service_step (service_on conn' sv) s ev"
proof (cases ev)
  case (EvHttp now ctx r)
  then show ?thesis by (simp add: service_step_def service_on_def same_handler_snd [OF root_same])
next
  case (EvGrpc now ctx md q)
  then show ?thesis
    by (simp add: service_step_def service_on_def same_unary_snd [OF interceptor_same [OF dispatch_same]] split: prod.split)
next
  case (EvTick t1 t2 ctx)
  then show ?thesis using tick_same by (simp add: service_step_def service_on_def split: prod.split)
qed

lemma serve_same: "serve (service_on conn sv) evs s = serve (service_on conn' sv) evs s"
  unfolding serve_def by (induction evs arbitrary: s) (simp_all add: service_step_same)

end

interpretation sql: agreeing_backends "postgres_newConn str parse fmt drv" "sqlite_newConn str parse fmt drv" for str parse fmt drv
  by unfold_locales
     (simp_all add: postgres_newConn_def sqlite_newConn_def commitment_save_agree update_risk_agree decision_save_agree
       intervention_save_agree get_agree list_agree)


section \<open>Properties\<close>

text \<open>
  (C14) The choice of the SQL backend does not show. Over the same driver, and whatever the clients, engines and credentials are, a
  service on the PostgreSQL store and the same service on the SQLite store go through the same states for every sequence
  of HTTP requests, gRPC calls and worker ticks: the same rows, the same outbound calls, the same identifiers and limiters.
  Every HTTP request gets the same status and, when that is 200, the same response, and every gRPC call the same message or
  an error from both.
\<close>

theorem sql_backends_indistinguishable:
  "serve (service_on (postgres_newConn str parse fmt drv) sv) evs s = serve (service_on (sqlite_newConn str parse fmt drv) sv) evs s
   \<and> same_answer (fst (root_handler env rt lib now token verifier (http_on (postgres_newConn str parse fmt drv) hs) r s))
       (fst (root_handler env rt lib now token verifier (http_on (sqlite_newConn str parse fmt drv) hs) r s))
   \<and> same_reply
       (fst (CombinedAuthInterceptor lib printable now token verifier md (grpc_dispatch genv rt (grpc_on (postgres_newConn str parse fmt drv) gs)) q w))
       (fst (CombinedAuthInterceptor lib printable now token verifier md (grpc_dispatch genv rt (grpc_on (sqlite_newConn str parse fmt drv) gs)) q w))"
proof (intro conjI)
  show "serve (service_on (postgres_newConn str parse fmt drv) sv) evs s = serve (service_on (sqlite_newConn str parse fmt drv) sv) evs s"
    by (rule sql.serve_same)
  show "same_answer (fst (root_handler env rt lib now token verifier (http_on (postgres_newConn str parse fmt drv) hs) r s))
      (fst (root_handler env rt lib now token verifier (http_on (sqlite_newConn str parse fmt drv) hs) r s))"
    using sql.root_same unfolding same_handler_def by blast
  show "same_reply
      (fst (CombinedAuthInterceptor lib printable now token verifier md (grpc_dispatch genv rt (grpc_on (postgres_newConn str parse fmt drv) gs)) q w))
      (fst (CombinedAuthInterceptor lib printable now token verifier md (grpc_dispatch genv rt (grpc_on (sqlite_newConn str parse fmt drv) gs)) q w))"
    using interceptor_same [OF sql.dispatch_same] unfolding same_unary_def by blast
qed

end
