(* ===== verification/Observability.thy ===== *)
theory Observability
  imports Http_Server Nous_Process
begin

text \<open>
  \<^verbatim>\<open>internal/observability\<close>: correlation identifiers in contexts, the log handler and the tracer (\<^verbatim>\<open>log.go\<close>,
  \<^verbatim>\<open>trace.go\<close>), the middleware and the interceptor with the context they hand on (\<^verbatim>\<open>middleware.go\<close>), and the rest of
  \<^verbatim>\<open>metrics.go\<close>. OpenTelemetry is the record \<open>otel\<close>: the identifier of the valid span of a context, and the context
  \<^verbatim>\<open>Tracer.Start\<close> derives. A handler of \<^verbatim>\<open>log/slog\<close> is an interface whose methods return handlers again, hence a
  codatatype; its output goes to a state of any type.
\<close>

section \<open>Contexts\<close>

datatype ctx_key = correlationKey | OtherKey string

datatype ctx_val = CtxString string | CtxOther string

type_synonym go_context = "(ctx_key \<times> ctx_val) list"

definition Background :: go_context where
  "Background = []"

definition context_WithValue :: "go_context \<Rightarrow> ctx_key \<Rightarrow> ctx_val \<Rightarrow> go_context" where
  "context_WithValue ctx k v = (k, v) # ctx"

definition context_Value :: "go_context \<Rightarrow> ctx_key \<Rightarrow> ctx_val option" where
  "context_Value ctx k = map_of ctx k"

record otel =
  ot_SpanID :: "go_context \<Rightarrow> string option"
  ot_Start :: "go_context \<Rightarrow> string \<Rightarrow> (string \<times> string) list \<Rightarrow> go_context"

definition WithCorrelationID :: "go_context \<Rightarrow> string \<Rightarrow> go_context" where
  "WithCorrelationID ctx i = context_WithValue ctx correlationKey (CtxString i)"

definition CorrelationID :: "otel \<Rightarrow> go_context \<Rightarrow> string" where
  "CorrelationID ot ctx =
    (let span = (case ot_SpanID ot ctx of Some i \<Rightarrow> i | None \<Rightarrow> []) in
     case context_Value ctx correlationKey of
       Some (CtxString i) \<Rightarrow> if i \<noteq> [] then i else span
     | _ \<Rightarrow> span)"


section \<open>Log records and handlers\<close>

type_synonym attr = "string \<times> anyval"

record slog_Record =
  lr_Time :: time
  lr_Level :: int
  lr_Message :: string
  lr_Attrs :: "attr list"

definition AddAttrs :: "attr list \<Rightarrow> slog_Record \<Rightarrow> slog_Record" where
  "AddAttrs as r = r\<lparr>lr_Attrs := lr_Attrs r @ as\<rparr>"

codatatype 'w slog_Handler = SlogHandler
  (sh_Enabled: "go_context \<Rightarrow> int \<Rightarrow> bool")
  (sh_Handle: "go_context \<Rightarrow> slog_Record \<Rightarrow> 'w \<Rightarrow> error option \<times> 'w")
  (sh_WithAttrs: "attr list \<Rightarrow> 'w slog_Handler")
  (sh_WithGroup: "string \<Rightarrow> 'w slog_Handler")

text \<open>\<^verbatim>\<open>Handler.Handle\<close>: the record, with the correlation identifier when there is one, for the parent.\<close>

definition Handler_Handle :: "otel \<Rightarrow> 'w slog_Handler \<Rightarrow> go_context \<Rightarrow> slog_Record \<Rightarrow> 'w \<Rightarrow> error option \<times> 'w" where
  "Handler_Handle ot parent ctx r =
    (let i = CorrelationID ot ctx;
         r = (if i \<noteq> [] then AddAttrs [(''correlation_id'', VString i)] r else r)
     in sh_Handle parent ctx r)"

definition Handler_Enabled :: "'w slog_Handler \<Rightarrow> go_context \<Rightarrow> int \<Rightarrow> bool" where
  "Handler_Enabled parent ctx level = sh_Enabled parent ctx level"

text \<open>The wrapped handler: \<^verbatim>\<open>WithAttrs\<close> and \<^verbatim>\<open>WithGroup\<close> wrap what the parent derives.\<close>

primcorec NewHandler :: "otel \<Rightarrow> 'w slog_Handler \<Rightarrow> 'w slog_Handler" where
  "sh_Enabled (NewHandler ot parent) = Handler_Enabled parent"
| "sh_Handle (NewHandler ot parent) = Handler_Handle ot parent"
| "sh_WithAttrs (NewHandler ot parent) = (\<lambda>as. NewHandler ot (sh_WithAttrs parent as))"
| "sh_WithGroup (NewHandler ot parent) = (\<lambda>name. NewHandler ot (sh_WithGroup parent name))"

text \<open>
  \<^verbatim>\<open>slog.Logger\<close>: a call asks \<^verbatim>\<open>Enabled\<close>, builds the record and ignores the error of \<^verbatim>\<open>Handle\<close>. The methods
  without a context pass \<^verbatim>\<open>context.Background()\<close>; all log calls of the sources are of this kind.
\<close>

definition Logger_log :: "'w slog_Handler \<Rightarrow> go_context \<Rightarrow> time \<Rightarrow> int \<Rightarrow> string \<Rightarrow> attr list \<Rightarrow> 'w \<Rightarrow> 'w" where
  "Logger_log h ctx now level msg as w =
    (if \<not> sh_Enabled h ctx level then w
     else snd (sh_Handle h ctx \<lparr>lr_Time = now, lr_Level = level, lr_Message = msg, lr_Attrs = as\<rparr> w))"

definition LevelInfo :: int where "LevelInfo = 0"
definition LevelWarn :: int where "LevelWarn = 4"
definition LevelError :: int where "LevelError = 8"

definition Logger_plain :: "'w slog_Handler \<Rightarrow> time \<Rightarrow> int \<Rightarrow> string \<Rightarrow> attr list \<Rightarrow> 'w \<Rightarrow> 'w" where
  "Logger_plain h = Logger_log h Background"

text \<open>
  \<^verbatim>\<open>slog.NewJSONHandler\<close> with nil options: records from the level Info on, one line each. A field is held with the
  groups that were open when it was added.
\<close>

record log_line =
  ll_Level :: int
  ll_Msg :: string
  ll_Fields :: "(string list \<times> string \<times> anyval) list"

primcorec json_handler :: "string list \<Rightarrow> (string list \<times> string \<times> anyval) list \<Rightarrow> log_line list slog_Handler" where
  "sh_Enabled (json_handler path pre) = (\<lambda>ctx level. LevelInfo \<le> level)"
| "sh_Handle (json_handler path pre) = (\<lambda>ctx r w. (None, w @ [\<lparr>ll_Level = lr_Level r, ll_Msg = lr_Message r,
     ll_Fields = pre @ map (\<lambda>(k, v). (path, k, v)) (lr_Attrs r)\<rparr>]))"
| "sh_WithAttrs (json_handler path pre) = (\<lambda>as. json_handler path (pre @ map (\<lambda>(k, v). (path, k, v)) as))"
| "sh_WithGroup (json_handler path pre) = (\<lambda>name. json_handler (if name = [] then path else path @ [name]) pre)"

text \<open>The logger of \<^verbatim>\<open>main\<close>.\<close>

definition main_logger :: "otel \<Rightarrow> log_line list slog_Handler" where
  "main_logger ot = NewHandler ot (json_handler [] [])"


section \<open>The tracer\<close>

text \<open>
  The global tracer is that of the default provider until \<^verbatim>\<open>InitTracer\<close> installs one for the service; it is never nil.
  The exporter is created first and may fail.
\<close>

record tracer_state =
  ts_provider :: "string option"
  ts_Tracer :: string

definition tracer_init :: tracer_state where
  "tracer_init = \<lparr>ts_provider = None, ts_Tracer = ''nous''\<rparr>"

definition InitTracer :: "error option \<Rightarrow> string \<Rightarrow> tracer_state \<Rightarrow> (error + string) \<times> tracer_state" where
  "InitTracer exporter serviceName ts = (case exporter of
       Some err \<Rightarrow> (Inl err, ts)
     | None \<Rightarrow> (Inr serviceName, \<lparr>ts_provider = Some serviceName, ts_Tracer = serviceName\<rparr>))"


section \<open>The middleware and the interceptor\<close>

datatype span_event = SpanStart string "(string \<times> string) list" | SpanEnd string

text \<open>A handler with its context; the state holds the spans started and ended so far. \<open>tracer\<close> is \<^verbatim>\<open>Tracer != nil\<close>.\<close>

definition request_id :: "time \<Rightarrow> http_Request \<Rightarrow> string" where
  "request_id now r =
    (let i = values_Get (hr_Header r) ''X-Correlation-Id'';
         i = (if i = [] then values_Get (hr_Header r) ''X-Request-Id'' else i);
         i = (if i = [] then formatShortID now else i)
     in i)"

definition HTTPMiddleware_ctx ::
  "otel \<Rightarrow> bool \<Rightarrow> time \<Rightarrow> (go_context \<Rightarrow> (span_event list \<times> 'w) handler) \<Rightarrow> go_context \<Rightarrow> (span_event list \<times> 'w) handler" where
  "HTTPMiddleware_ctx ot tracer now next ctx r sw = (case sw of (spans, w) \<Rightarrow>
    (let i = request_id now r; ctx = WithCorrelationID ctx i in
     if tracer then
       (let name = hr_Method r @ '' '' @ url_Path r;
            attrs = [(''http.method'', hr_Method r), (''http.path'', url_Path r), (''correlation_id'', i)];
            ctx = ot_Start ot ctx name attrs
        in case next ctx r (spans @ [SpanStart name attrs], w) of (resp, (spans, w)) \<Rightarrow>
             (resp\<lparr>hs_Header := (''X-Correlation-Id'', i) # hs_Header resp\<rparr>, (spans @ [SpanEnd name], w)))
     else (case next ctx r (spans, w) of (resp, sw) \<Rightarrow>
             (resp\<lparr>hs_Header := (''X-Correlation-Id'', i) # hs_Header resp\<rparr>, sw))))"

definition GRPCUnaryInterceptor ::
  "otel \<Rightarrow> bool \<Rightarrow> string \<Rightarrow> metadata option \<Rightarrow> (go_context \<Rightarrow> ('q, 'a, span_event list \<times> 'w) unary_handler) \<Rightarrow>
   go_context \<Rightarrow> ('q, 'a, span_event list \<times> 'w) unary_handler" where
  "GRPCUnaryInterceptor ot tracer fullMethod mdo h ctx req sw = (case sw of (spans, w) \<Rightarrow>
    (let ctx = (case mdo of None \<Rightarrow> ctx
           | Some md \<Rightarrow> (case md ''x-correlation-id'' of
               v # _ \<Rightarrow> if v \<noteq> [] then WithCorrelationID ctx v else ctx
             | [] \<Rightarrow> ctx))
     in if tracer then
          (let attrs = [(''rpc.method'', fullMethod)]; ctx = ot_Start ot ctx fullMethod attrs
           in case h ctx req (spans @ [SpanStart fullMethod attrs], w) of (resp, (spans, w)) \<Rightarrow>
                (resp, (spans @ [SpanEnd fullMethod], w)))
        else h ctx req (spans, w)))"


section \<open>The rest of the metrics\<close>

text \<open>A call of a collector: its registered name, the label values and the number.\<close>

datatype prom_call = PromAdd string "string list" float64 | PromObserve string "string list" float64 | PromSet string "string list" float64

fun prom_labels :: "prom_call \<Rightarrow> string \<times> nat" where
  "prom_labels (PromAdd name vals x) = (name, length vals)"
| "prom_labels (PromObserve name vals x) = (name, length vals)"
| "prom_labels (PromSet name vals x) = (name, length vals)"

definition ObserveHTTPDuration :: "string \<Rightarrow> string \<Rightarrow> string \<Rightarrow> float64 \<Rightarrow> prom_call" where
  "ObserveHTTPDuration meth path status duration = PromObserve ''nous_http_request_duration_seconds'' [meth, path, status] duration"

definition ObserveGRPCDuration :: "string \<Rightarrow> string \<Rightarrow> float64 \<Rightarrow> prom_call" where
  "ObserveGRPCDuration meth status duration = PromObserve ''nous_grpc_request_duration_seconds'' [meth, status] duration"

text \<open>The metrics entries of the outbound log, as calls.\<close>

definition prom_of_out :: "out_call \<Rightarrow> prom_call option" where
  "prom_of_out c = (case c of
       OutCounter name label x \<Rightarrow> Some (PromAdd name [label] x)
     | OutObserve name label x \<Rightarrow> Some (PromObserve name [label] x)
     | _ \<Rightarrow> None)"

definition Metrics_Handler :: "((string \<times> string list) list \<Rightarrow> http_Request \<Rightarrow> http_Response) \<Rightarrow> http_Request \<Rightarrow> http_Response" where
  "Metrics_Handler promhttp = promhttp NewMetrics"

definition Metrics_Snapshot :: "(string \<times> nat) list" where
  "Metrics_Snapshot = []"

definition RiskDistribution :: "(string \<times> nat) list" where
  "RiskDistribution = []"

definition SetGauge :: "string \<Rightarrow> nat \<Rightarrow> prom_call list" where
  "SetGauge key value = []"

definition IncGauge :: "string \<Rightarrow> int \<Rightarrow> prom_call list" where
  "IncGauge key delta = []"

definition DecGauge :: "string \<Rightarrow> prom_call list" where
  "DecGauge key = []"

text \<open>\<^verbatim>\<open>metricsOnce\<close>: the instance is made by the first call.\<close>

definition DefaultMetrics :: "(string \<times> string list) list option \<Rightarrow> (string \<times> string list) list \<times> (string \<times> string list) list option" where
  "DefaultMetrics inst = (case inst of None \<Rightarrow> (NewMetrics, Some NewMetrics) | Some m \<Rightarrow> (m, inst))"

record SLOThresholds =
  UptimePercent :: float64
  P99LatencySeconds :: float64
  ErrorRatePercent :: float64

definition DefaultSLOs :: SLOThresholds where
  "DefaultSLOs = \<lparr>UptimePercent = f_lit (999/10), P99LatencySeconds = f_lit (1/10), ErrorRatePercent = f_lit (1/10)\<rparr>"


section \<open>Lemmas\<close>

text \<open>What OpenTelemetry documents of \<^verbatim>\<open>Start\<close>: the context it returns is derived from the one it is given.\<close>

definition derives_contexts :: "otel \<Rightarrow> bool" where
  "derives_contexts ot \<longleftrightarrow>
     (\<forall>ctx name attrs. context_Value (ot_Start ot ctx name attrs) correlationKey = context_Value ctx correlationKey)"

lemma WithCorrelationID_value [simp]: "context_Value (WithCorrelationID ctx i) correlationKey = Some (CtxString i)"
  by (simp add: WithCorrelationID_def context_WithValue_def context_Value_def)

lemma CorrelationID_set: "context_Value ctx correlationKey = Some (CtxString i) \<Longrightarrow> i \<noteq> [] \<Longrightarrow> CorrelationID ot ctx = i"
  by (simp add: CorrelationID_def Let_def)

lemma request_id_nonempty: "request_id now r \<noteq> []"
  by (simp add: request_id_def formatShortID_def Let_def split: prod.split)

text \<open>Loggers derived by \<^verbatim>\<open>With\<close> and \<^verbatim>\<open>WithGroup\<close>.\<close>

datatype derivation = DWithAttrs "attr list" | DWithGroup string

fun derive :: "'w slog_Handler \<Rightarrow> derivation list \<Rightarrow> 'w slog_Handler" where
  "derive h [] = h"
| "derive h (DWithAttrs as # ds) = derive (sh_WithAttrs h as) ds"
| "derive h (DWithGroup name # ds) = derive (sh_WithGroup h name) ds"

lemma derive_NewHandler: "derive (NewHandler ot h) ds = NewHandler ot (derive h ds)"
  by (induction h ds rule: derive.induct) simp_all

definition correlation_attrs :: "otel \<Rightarrow> go_context \<Rightarrow> attr list" where
  "correlation_attrs ot ctx =
    (if CorrelationID ot ctx = [] then [] else [(''correlation_id'', VString (CorrelationID ot ctx))])"

lemma log_correlates:
  "Logger_log (derive (NewHandler ot h) ds) ctx now level msg as w
   = Logger_log (derive h ds) ctx now level msg (as @ correlation_attrs ot ctx) w"
  by (simp add: derive_NewHandler Logger_log_def Handler_Enabled_def Handler_Handle_def AddAttrs_def correlation_attrs_def)

lemma log_plain:
  "ot_SpanID ot Background = None \<Longrightarrow>
     Logger_plain (derive (NewHandler ot h) ds) now level msg as w = Logger_plain (derive h ds) now level msg as w"
  by (simp add: Logger_plain_def log_correlates correlation_attrs_def CorrelationID_def Background_def context_Value_def)

text \<open>Every span a handler is run in is ended after it.\<close>

fun span_end :: "span_event \<Rightarrow> span_event" where
  "span_end (SpanStart name attrs) = SpanEnd name"
| "span_end (SpanEnd name) = SpanEnd name"

lemma HTTPMiddleware_context:
  assumes "derives_contexts ot"
  shows "\<exists>ctx' sp. CorrelationID ot ctx' = request_id now r
    \<and> HTTPMiddleware_ctx ot tracer now next ctx r (spans, w) =
        (case next ctx' r (spans @ sp, w) of (resp, (spans', w')) \<Rightarrow>
          (resp\<lparr>hs_Header := (''X-Correlation-Id'', request_id now r) # hs_Header resp\<rparr>, (spans' @ map span_end sp, w')))"
proof -
  let ?i = "request_id now r" and ?name = "hr_Method r @ '' '' @ url_Path r"
  let ?attrs = "[(''http.method'', hr_Method r), (''http.path'', url_Path r), (''correlation_id'', ?i)]"
  let ?c = "WithCorrelationID ctx ?i"
  have v: "context_Value (ot_Start ot ?c ?name ?attrs) correlationKey = Some (CtxString ?i)"
    using assms by (simp add: derives_contexts_def)
  show ?thesis
  proof (cases tracer)
    case True
    then show ?thesis using CorrelationID_set [OF v request_id_nonempty]
      by (intro exI [of _ "ot_Start ot ?c ?name ?attrs"] exI [of _ "[SpanStart ?name ?attrs]"])
         (simp add: HTTPMiddleware_ctx_def Let_def)
  next
    case False
    then show ?thesis using CorrelationID_set [OF WithCorrelationID_value request_id_nonempty]
      by (intro exI [of _ ?c] exI [of _ "[]"]) (simp add: HTTPMiddleware_ctx_def Let_def split: prod.split)
  qed
qed

text \<open>Without its context and its spans the middleware is the one of the request chain.\<close>

lemma HTTPMiddleware_erases:
  assumes "\<And>ctx r spans w. (case next ctx r (spans, w) of (resp, (_, w')) \<Rightarrow> (resp, w')) = h r w"
  shows "(case HTTPMiddleware_ctx ot tracer now next ctx r (spans, w) of (resp, (_, w')) \<Rightarrow> (resp, w')) = HTTPMiddleware now h r w"
proof -
  have "fst (next c r (sp, w)) = fst (h r w)" "snd (snd (next c r (sp, w))) = snd (h r w)" for c sp
    using assms [of c r sp w] by (simp_all add: case_prod_beta prod_eq_iff)
  note e = this
  have "HTTPMiddleware now h r w = ((fst (h r w))\<lparr>hs_Header := (''X-Correlation-Id'', request_id now r) # hs_Header (fst (h r w))\<rparr>, snd (h r w))"
    by (simp add: HTTPMiddleware_def request_id_def Let_def case_prod_beta)
  then show ?thesis by (cases tracer) (simp_all add: HTTPMiddleware_ctx_def Let_def case_prod_beta e)
qed

lemma GRPCUnaryInterceptor_context:
  assumes "derives_contexts ot" and "mdo = Some md" and "md ''x-correlation-id'' = v # vs" and "v \<noteq> []"
  shows "\<exists>ctx' sp. CorrelationID ot ctx' = v \<and> GRPCUnaryInterceptor ot tracer fullMethod mdo h ctx req (spans, w) =
     (case h ctx' req (spans @ sp, w) of (resp, (spans', w')) \<Rightarrow> (resp, (spans' @ map span_end sp, w')))"
proof -
  let ?c = "WithCorrelationID ctx v" and ?attrs = "[(''rpc.method'', fullMethod)]"
  have c: "context_Value (ot_Start ot ?c fullMethod ?attrs) correlationKey = Some (CtxString v)"
    using assms(1) by (simp add: derives_contexts_def)
  show ?thesis
  proof (cases tracer)
    case True
    then show ?thesis using CorrelationID_set [OF c assms(4)] assms
      by (intro exI [of _ "ot_Start ot ?c fullMethod ?attrs"] exI [of _ "[SpanStart fullMethod ?attrs]"])
         (simp add: GRPCUnaryInterceptor_def Let_def)
  next
    case False
    then show ?thesis using CorrelationID_set [OF WithCorrelationID_value assms(4)] assms
      by (intro exI [of _ ?c] exI [of _ "[]"]) (simp add: GRPCUnaryInterceptor_def Let_def split: prod.split)
  qed
qed

text \<open>A failed start leaves the default tracer in place.\<close>

lemma InitTracer_failed: "fst (InitTracer exporter name ts) = Inl err \<Longrightarrow> snd (InitTracer exporter name ts) = ts"
  by (auto simp: InitTracer_def split: option.splits)

text \<open>The methods of the metrics use registered collectors with as many values as they have labels.\<close>

definition registered :: "(string \<times> nat) set" where
  "registered = set (map (\<lambda>(name, labels). (name, length labels)) NewMetrics)"

lemma metrics_registered:
  "prom_labels (ObserveHTTPDuration meth path status x) \<in> registered"
  "prom_labels (ObserveGRPCDuration meth status x) \<in> registered"
  "w_out (IncCommitmentsExtracted status n w) = w_out w @ [c] \<Longrightarrow> \<exists>p. prom_of_out c = Some p \<and> prom_labels p \<in> registered"
  "w_out (IncEvaluationsRun status n w) = w_out w @ [c] \<Longrightarrow> \<exists>p. prom_of_out c = Some p \<and> prom_labels p \<in> registered"
  "w_out (IncInterventionsCreated status n w) = w_out w @ [c] \<Longrightarrow> \<exists>p. prom_of_out c = Some p \<and> prom_labels p \<in> registered"
  "w_out (ObserveRiskScore status x w) = w_out w @ [c] \<Longrightarrow> \<exists>p. prom_of_out c = Some p \<and> prom_labels p \<in> registered"
  by (auto simp: registered_def NewMetrics_def ObserveHTTPDuration_def ObserveGRPCDuration_def prom_of_out_def metric_defs emit_def)

lemma DefaultMetrics_once: "DefaultMetrics inst = (m, inst') \<Longrightarrow> DefaultMetrics inst' = (m, inst')"
  by (auto simp: DefaultMetrics_def split: option.splits)


section \<open>Properties\<close>


text \<open>A tracer that puts the name of the span into the context, and a worker's log line through the logger of \<^verbatim>\<open>main\<close>.\<close>

definition naming_otel :: otel where
  "naming_otel = \<lparr>ot_SpanID = (\<lambda>ctx. None),
     ot_Start = (\<lambda>ctx name attrs. context_WithValue ctx (OtherKey ''span'') (CtxOther name))\<rparr>"


end
