(* ===== verification/Adapter_Wiring.thy ===== *)
theory Adapter_Wiring
  imports Adapters Nous_Process
begin

text \<open>
  The ends of the adapters and of the axi kernel: closing a connection and the bearer
  credentials of the two gRPC adapters (\<^verbatim>\<open>internal/adapters/chronos/grpc.go\<close>,
  \<^verbatim>\<open>mnemos/grpc.go\<close>), the credentials of the gRPC server (\<^verbatim>\<open>cmd/nous/main.go\<close>), and the plugin and
  the logging bridges the axi kernel hands to axi-go (\<^verbatim>\<open>internal/coordination/axi.go\<close>).

  The connection, axi-go and the bolt logger are arguments or lists of lines. What gRPC does with
  credentials that ask for a secure transport is the hypothesis \<open>refuses_insecure\<close>: its
  documentation says that such credentials are not sent on an insecure connection and that the
  call fails.
\<close>

section \<open>Connections and credentials\<close>

text \<open>Client and connection are set together, so a missing client is a missing connection.\<close>

definition chronos_Close :: "error option \<Rightarrow> chronos_Adapter \<Rightarrow> error option" where
  "chronos_Close conn_Close a = (case ca_client a of Some _ \<Rightarrow> conn_Close | None \<Rightarrow> None)"

definition mnemos_Close :: "error option \<Rightarrow> mnemos_Adapter \<Rightarrow> error option" where
  "mnemos_Close conn_Close a = (case ma_client a of Some _ \<Rightarrow> conn_Close | None \<Rightarrow> None)"

record bearerTokenCreds =
  btc_token :: string

definition RequireTransportSecurity :: "bearerTokenCreds \<Rightarrow> bool" where
  "RequireTransportSecurity b = True"

definition call_credentials :: "string \<Rightarrow> bearerTokenCreds list" where
  "call_credentials bearerToken = (if bearerToken = [] then [] else [\<lparr>btc_token = bearerToken\<rparr>])"

definition serverTransportCredentials ::
  "(tls_Config \<Rightarrow> 'creds) \<Rightarrow> (string \<Rightarrow> string \<Rightarrow> error + string) \<Rightarrow> (string \<Rightarrow> error + string) \<Rightarrow>
   (string \<Rightarrow> string option) \<Rightarrow> Config \<Rightarrow> error + 'creds" where
  "serverTransportCredentials NewTLS load_pair ReadFile AppendCertsFromPEM cfg =
    (case serverTLSConfig load_pair ReadFile AppendCertsFromPEM cfg of
       Inl err \<Rightarrow> Inl err
     | Inr tlsCfg \<Rightarrow> Inr (NewTLS tlsCfg))"


section \<open>Logging bridges and plugin of the axi kernel\<close>

datatype bolt_Level = BoltDebug | BoltInfo | BoltWarn | BoltError

text \<open>An event under construction is its level and the fields added so far; \<^verbatim>\<open>Msg\<close> writes the line.\<close>

type_synonym bolt_Event = "bolt_Level \<times> (string \<times> anyval) list"
type_synonym bolt_Line = "bolt_Level \<times> (string \<times> anyval) list \<times> string"

record axi_Field =
  fd_Key :: string
  fd_Value :: anyval

definition bolt_Any :: "bolt_Event \<Rightarrow> string \<Rightarrow> anyval \<Rightarrow> bolt_Event" where
  "bolt_Any ev k v = (fst ev, snd ev @ [(k, v)])"

definition bolt_Msg :: "bolt_Event \<Rightarrow> string \<Rightarrow> bolt_Line list \<Rightarrow> bolt_Line list" where
  "bolt_Msg ev msg out = out @ [(fst ev, snd ev, msg)]"

fun emit_fields :: "bolt_Event \<Rightarrow> axi_Field list \<Rightarrow> bolt_Event" where
  "emit_fields ev [] = ev"
| "emit_fields ev (f # fs) = emit_fields (bolt_Any ev (fd_Key f) (fd_Value f)) fs"

definition boltAxiLogger_emit :: "bolt_Event \<Rightarrow> string \<Rightarrow> axi_Field list \<Rightarrow> bolt_Line list \<Rightarrow> bolt_Line list" where
  "boltAxiLogger_emit ev msg flds out = bolt_Msg (emit_fields ev flds) msg out"

definition boltAxiLogger_log :: "bolt_Level \<Rightarrow> string \<Rightarrow> axi_Field list \<Rightarrow> bolt_Line list \<Rightarrow> bolt_Line list" where
  "boltAxiLogger_log level msg flds out = boltAxiLogger_emit (level, []) msg flds out"

definition boltAxiPublisher_Publish :: "string \<Rightarrow> time \<Rightarrow> bolt_Line list \<Rightarrow> bolt_Line list" where
  "boltAxiPublisher_Publish EventType OccurredAt out =
     bolt_Msg (bolt_Any (bolt_Any (BoltInfo, []) ''event_type'' (VString EventType))
         ''occurred_at'' (VString (RFC3339Nano_UTC (time_UTC OccurredAt)))) ''axi_event'' out"

definition axiPluginName :: string where "axiPluginName = ''nous.coordination''"

definition Contribute :: "(string \<Rightarrow> string list \<Rightarrow> error + 'c) \<Rightarrow> string list \<Rightarrow> error + 'c" where
  "Contribute NewPluginContribution actions = NewPluginContribution axiPluginName actions"

lemma emit_fields_all [simp]: "emit_fields ev fs = (fst ev, snd ev @ map (\<lambda>f. (fd_Key f, fd_Value f)) fs)"
  by (induction ev fs rule: emit_fields.induct) (simp_all add: bolt_Any_def)

text \<open>Whatever axi-go logs is one line of its level with every field, in order.\<close>

lemma axi_log_line:
  "boltAxiLogger_log level msg flds out = out @ [(level, map (\<lambda>f. (fd_Key f, fd_Value f)) flds, msg)]"
  by (simp add: boltAxiLogger_log_def boltAxiLogger_emit_def bolt_Msg_def)


section \<open>A bearer token without TLS\<close>

text \<open>
  Calls with credentials that require transport security fail on a connection without a
  certificate.
\<close>

definition refuses_insecure :: "string option \<Rightarrow> string \<Rightarrow> (messages \<Rightarrow> 'q \<Rightarrow> error + 'r) \<Rightarrow> bool" where
  "refuses_insecure cert token rpc \<longleftrightarrow>
     (cert = None \<and> list_ex RequireTransportSecurity (call_credentials token) \<longrightarrow> (\<forall>sent q. isl (rpc sent q)))"

text \<open>The calls of the Mnemos adapter with their clock readings.\<close>

datatype mnemos_op =
    OpRecall time time RecallQuery
  | OpAppendEvent time time time MnemosEvent

fun mnemos_call :: "(anyval \<Rightarrow> string) \<Rightarrow> mnemos_op \<Rightarrow> mnemos_Adapter \<Rightarrow> messages \<Rightarrow> bool \<times> mnemos_Adapter \<times> messages" where
  "mnemos_call fmt_v (OpRecall t1 t2 q) a sent =
     (case mnemos_Recall t1 t2 a q sent of (r, a', sent') \<Rightarrow> ((case r of Some (Inr _) \<Rightarrow> True | _ \<Rightarrow> False), a', sent'))"
| "mnemos_call fmt_v (OpAppendEvent t1 now t2 evt) a sent =
     (case mnemos_AppendEvent fmt_v t1 now t2 a evt sent of (r, a', sent') \<Rightarrow> ((case r of Some (Inr _) \<Rightarrow> True | _ \<Rightarrow> False), a', sent'))"

fun mnemos_calls :: "(anyval \<Rightarrow> string) \<Rightarrow> mnemos_op list \<Rightarrow> mnemos_Adapter \<Rightarrow> messages \<Rightarrow> bool list \<times> mnemos_Adapter \<times> messages" where
  "mnemos_calls fmt_v [] a sent = ([], a, sent)"
| "mnemos_calls fmt_v (op # ops) a sent =
     (case mnemos_call fmt_v op a sent of (ok, a', sent') \<Rightarrow>
      case mnemos_calls fmt_v ops a' sent' of (oks, a'', sent'') \<Rightarrow> (ok # oks, a'', sent''))"

lemma through_breaker_refused:
  assumes "body sent = (Inl err, sent')"
  shows "\<exists>e s. through_breaker b t1 t2 body sent = (Inl e, after_call b (t1, Some err, t2), s)"
proof -
  obtain did r b' where c: "Call b t1 (Some err) t2 = (did, r, b')" by (metis prod_cases3)
  then have "r \<noteq> None" using Call_ran by fastforce
  then show ?thesis using c by (auto simp: through_breaker_def assms after_call_def)
qed

definition dead_stub :: "mnemos_stub \<Rightarrow> bool" where
  "dead_stub stub \<longleftrightarrow> (\<forall>sent n. isl (ListEvents stub sent n)) \<and> (\<forall>sent evs. isl (AppendEvents stub sent evs))"

lemma dead_bodies:
  assumes "dead_stub stub"
  shows "\<exists>err s. list_events stub token q sent = (Inl err, s)"
    and "\<exists>err s. append_event fmt_v now stub token evt sent = (Inl err, s)"
proof -
  obtain e where "ListEvents stub sent (let limit = wrap32 (rq_Limit q) in if limit \<le> 0 then 10 else limit) = Inl e"
    using assms by (meson dead_stub_def isl_def)
  then show "\<exists>err s. list_events stub token q sent = (Inl err, s)"
    by (simp add: list_events_def Let_def)
  have a: "AppendEvents stub sent evs \<noteq> Inr n" for evs n
    using assms by (metis dead_stub_def sum.disc(2))
  show "\<exists>err s. append_event fmt_v now stub token evt sent = (Inl err, s)"
    unfolding append_event_def Let_def by (simp add: a split: sum.split)
qed

lemma dead_mnemos_call:
  assumes "dead_stub stub" and "ma_client a = Some stub" and "ma_breaker a = Some b"
  shows "\<exists>c s. Circuit_Breaker.failing c \<and> mnemos_call fmt_v op a sent = (False, a\<lparr>ma_breaker := Some (after_call b c)\<rparr>, s)"
proof (cases op)
  case (OpRecall t1 t2 q)
  obtain err s where "list_events stub (ma_bearerToken a) q sent = (Inl err, s)" using dead_bodies(1) [OF assms(1)] by blast
  from through_breaker_refused [of "list_events stub (ma_bearerToken a) q", OF this, of b t1 t2]
  obtain e s' where "through_breaker b t1 t2 (list_events stub (ma_bearerToken a) q) sent = (Inl e, after_call b (t1, Some err, t2), s')" by blast
  then show ?thesis by (intro exI [of _ "(t1, Some err, t2)"] exI [of _ s']) (simp add: OpRecall mnemos_Recall_def assms)
next
  case (OpAppendEvent t1 now t2 evt)
  obtain err s where "append_event fmt_v now stub (ma_bearerToken a) evt sent = (Inl err, s)"
    using dead_bodies(2) [OF assms(1)] by blast
  from through_breaker_refused [of "append_event fmt_v now stub (ma_bearerToken a) evt", OF this, of b t1 t2]
  obtain e s' where "through_breaker b t1 t2 (append_event fmt_v now stub (ma_bearerToken a) evt) sent = (Inl e, after_call b (t1, Some err, t2), s')" by blast
  then show ?thesis by (intro exI [of _ "(t1, Some err, t2)"] exI [of _ s']) (simp add: OpAppendEvent mnemos_AppendEvent_def assms)
qed

lemma dead_mnemos_calls:
  assumes "dead_stub stub" and "ma_client a = Some stub" and "ma_breaker a = Some b"
  shows "\<exists>cs s. list_all Circuit_Breaker.failing cs \<and> length cs = length ops \<and>
     mnemos_calls fmt_v ops a sent = (replicate (length ops) False, a\<lparr>ma_breaker := Some (run_calls b cs)\<rparr>, s)"
  using assms(2,3)
proof (induction ops arbitrary: a b sent)
  case (Cons op ops)
  obtain c s where c: "Circuit_Breaker.failing c" "mnemos_call fmt_v op a sent = (False, a\<lparr>ma_breaker := Some (after_call b c)\<rparr>, s)"
    using dead_mnemos_call [OF assms(1) Cons.prems] by blast
  obtain cs s' where "list_all Circuit_Breaker.failing cs" "length cs = length ops"
    "mnemos_calls fmt_v ops (a\<lparr>ma_breaker := Some (after_call b c)\<rparr>) s =
       (replicate (length ops) False, a\<lparr>ma_breaker := Some (run_calls (after_call b c) cs)\<rparr>, s')"
    using Cons.IH [of "a\<lparr>ma_breaker := Some (after_call b c)\<rparr>" "after_call b c" s] Cons.prems by auto
  then show ?case by (intro exI [of _ "c # cs"] exI [of _ s']) (simp add: c)
qed auto

text \<open>
  A Mnemos adapter built with a bearer token and without a certificate, given that gRPC does
  not send credentials that require transport security on an insecure connection: no call ever
  succeeds, and after five of them the health check fails.
\<close>

lemma mnemos_token_needs_tls:
  assumes "mnemos_NewGRPC load dial addr [] token = Inr a" and "addr \<noteq> []" and "token \<noteq> []"
    and "\<forall>stub. dial addr None = Inr stub \<longrightarrow>
      refuses_insecure None token (ListEvents stub) \<and> refuses_insecure None token (AppendEvents stub)"
    and "mnemos_calls fmt_v ops a sent = (oks, a', sent')"
  shows "True \<notin> set oks \<and> length oks = length ops
    \<and> (5 \<le> length ops \<longrightarrow> healthCheck ping addr (Some a') chronosAddr chronos praxisAddr praxis \<noteq> None)"
proof -
  obtain stub where a: "ma_client a = Some stub" "ma_breaker a = Some (breaker_New breaker_DefaultConfig)"
    and d: "dial addr None = Inr stub"
    using assms(1,2) by (auto simp: mnemos_NewGRPC_def dial_adapter_def split: sum.splits)
  have "dead_stub stub"
    using assms(3,4) d by (auto simp: refuses_insecure_def dead_stub_def call_credentials_def RequireTransportSecurity_def)
  from dead_mnemos_calls [OF this a, of ops fmt_v sent]
  obtain cs s where cs: "list_all Circuit_Breaker.failing cs" "length cs = length ops" and r: "mnemos_calls fmt_v ops a sent =
    (replicate (length ops) False, a\<lparr>ma_breaker := Some (run_calls (breaker_New breaker_DefaultConfig) cs)\<rparr>, s)" by blast
  have "healthCheck ping addr (Some a') chronosAddr chronos praxisAddr praxis \<noteq> None" if "5 \<le> length ops"
  proof -
    have "b_state (run_calls (breaker_New breaker_DefaultConfig) cs) \<noteq> StateClosed"
      using enough_failures_open [OF cs(1)] cs(2) that by simp
    then have "mnemos_AdapterStatus a' \<noteq> ''healthy''"
      using r assms(5) by (auto simp: mnemos_AdapterStatus_def breaker_status_def breaker_State_of_def split: breaker_State.split)
    then show ?thesis using assms(2) by (simp add: healthCheck_def probe_def split: option.split)
  qed
  then show ?thesis using r assms(5) by auto
qed

text \<open>Five recalls through a stub that refuses them.\<close>

definition refusing_stub :: mnemos_stub where
  "refusing_stub = \<lparr>ListEvents = (\<lambda>sent n. Inl (ErrPlain ''unauthenticated'')),
     AppendEvents = (\<lambda>sent evs. Inl (ErrPlain ''unauthenticated''))\<rparr>"

definition token_adapter :: mnemos_Adapter where
  "token_adapter = \<lparr>ma_client = Some refusing_stub, ma_bearerToken = ''secret'',
     ma_breaker = Some (breaker_New breaker_DefaultConfig)\<rparr>"

lemma five_recalls_refused:
  "healthCheck None ''mnemos:443''
     (Some (fst (snd (mnemos_calls (\<lambda>v. []) (replicate 5 (OpRecall 0 0 \<lparr>rq_Text = [], rq_Entities = [], rq_Since = None, rq_Limit = 0\<rparr>)) token_adapter []))))
     [] None [] None \<noteq> None"
proof -
  let ?ops = "replicate 5 (OpRecall 0 0 \<lparr>rq_Text = [], rq_Entities = [], rq_Since = None, rq_Limit = 0\<rparr>)"
  obtain oks a' s where r: "mnemos_calls (\<lambda>v. []) ?ops token_adapter [] = (oks, a', s)" by (metis prod_cases3)
  have "mnemos_NewGRPC (\<lambda>f. None) (\<lambda>addr cert. Inr refusing_stub) ''mnemos:443'' [] ''secret'' = Inr token_adapter"
    by (simp add: mnemos_NewGRPC_def dial_adapter_def token_adapter_def)
  from mnemos_token_needs_tls [OF this _ _ _ r, where ping = None and chronosAddr = "[]" and chronos = None
      and praxisAddr = "[]" and praxis = None]
  show ?thesis by (simp add: r refuses_insecure_def refusing_stub_def)
qed

end
