(* ===== verification/Key_Rotation.thy ===== *)
theory Key_Rotation
  imports Auth_Jwt
begin

text \<open>
  The key rotator as it runs (\<^verbatim>\<open>internal/auth/rotator.go\<close>): the goroutine of \<^verbatim>\<open>Run\<close>, calls of \<^verbatim>\<open>Stop\<close> and of \<^verbatim>\<open>RotateNow\<close>
  and the cancellation of the context as interleaved steps, and what a history of rotations means for the tokens in
  circulation.

  When several channels are ready \<^verbatim>\<open>select\<close> takes any of them, so a tick may still be taken after the stop channel has been
  closed. Closing a closed channel panics: the result \<open>None\<close> of \<open>Rotator_Stop\<close>.
\<close>

section \<open>Steps\<close>

record rotator_proc =
  rp_rotator :: Rotator
  rp_stopOnce :: bool
  rp_stopCh :: bool
  rp_ctxDone :: bool
  rp_running :: bool

definition close_stopCh :: "rotator_proc \<Rightarrow> rotator_proc option" where
  "close_stopCh p = (if rp_stopCh p then None else Some (p\<lparr>rp_stopCh := True\<rparr>))"

definition Rotator_Stop :: "rotator_proc \<Rightarrow> rotator_proc option" where
  "Rotator_Stop p =
    (if rp_stopOnce p then Some p
     else (case close_stopCh p of None \<Rightarrow> None | Some p \<Rightarrow> Some (p\<lparr>rp_stopOnce := True\<rparr>)))"

definition started :: "Rotator \<Rightarrow> rotator_proc" where
  "started r = \<lparr>rp_rotator = r, rp_stopOnce = False, rp_stopCh = False, rp_ctxDone = False, rp_running = True\<rparr>"

inductive run_step :: "rotator_proc \<Rightarrow> rotator_proc \<Rightarrow> bool" where
  tick: "rp_running p \<Longrightarrow> run_step p (p\<lparr>rp_rotator := snd (RotateNow rand now (rp_rotator p))\<rparr>)"
| ctx_done: "rp_running p \<Longrightarrow> rp_ctxDone p \<Longrightarrow> run_step p (p\<lparr>rp_running := False\<rparr>)"
| stop_seen: "rp_running p \<Longrightarrow> rp_stopCh p \<Longrightarrow> run_step p (p\<lparr>rp_running := False\<rparr>)"

inductive rotator_step :: "rotator_proc \<Rightarrow> rotator_proc \<Rightarrow> bool" where
  run: "run_step p p' \<Longrightarrow> rotator_step p p'"
| stop: "Rotator_Stop p = Some p' \<Longrightarrow> rotator_step p p'"
| cancel: "rotator_step p (p\<lparr>rp_ctxDone := True\<rparr>)"

inductive_cases run_stepE [elim!]: "run_step p p'"
inductive_cases rotator_stepE [elim!]: "rotator_step p p'"

abbreviation rotator_reachable :: "Rotator \<Rightarrow> rotator_proc \<Rightarrow> bool" where
  "rotator_reachable r p \<equiv> rotator_step\<^sup>*\<^sup>* (started r) p"


section \<open>Stopping\<close>

lemma once_guards_close: "rotator_reachable r p \<Longrightarrow> rp_stopOnce p = rp_stopCh p"
  by (induction rule: rtranclp_induct) (auto simp: started_def Rotator_Stop_def close_stopCh_def split: if_splits)

text \<open>\<^verbatim>\<open>Stop\<close> never panics, however often and wherever it is called, and only the first call changes anything.\<close>

lemma Rotator_Stop_total:
  assumes "rotator_reachable r p"
  shows "Rotator_Stop p = Some (p\<lparr>rp_stopOnce := True, rp_stopCh := True\<rparr>)"
  using once_guards_close [OF assms] by (cases p) (simp add: Rotator_Stop_def close_stopCh_def)

lemma stopped_stays: "rotator_step p p' \<Longrightarrow> (rp_stopCh p \<longrightarrow> rp_stopCh p') \<and> (\<not> rp_running p \<longrightarrow> \<not> rp_running p')"
  by (auto simp: Rotator_Stop_def close_stopCh_def split: if_splits)

text \<open>Once stopped, the goroutine can return at every moment, and after it has returned the keys stay as they are.\<close>

lemma stopped_can_return: "rp_stopCh p \<Longrightarrow> \<exists>p'. run_step\<^sup>*\<^sup>* p p' \<and> \<not> rp_running p'"
proof (cases "rp_running p")
  case True
  assume "rp_stopCh p"
  from stop_seen [OF True this] show ?thesis by (intro exI [of _ "p\<lparr>rp_running := False\<rparr>"]) auto
qed auto

lemma returned_keeps_keys:
  assumes "rotator_step\<^sup>*\<^sup>* p p'" and "\<not> rp_running p"
  shows "rp_rotator p' = rp_rotator p \<and> \<not> rp_running p'"
  using assms
  by (induction rule: rtranclp_induct) (auto simp: Rotator_Stop_def close_stopCh_def split: if_splits)


section \<open>The interleaved steps and the loop\<close>

lemma rotator_Run_append_tick:
  "rotator_Run es r = (False, r') \<Longrightarrow> rotator_Run (es @ [Ticked rand now]) r = (False, snd (RotateNow rand now r'))"
  by (induction es r rule: rotator_Run.induct) simp_all

lemma rotator_Run_append_end:
  "rotator_Run es r = (False, r') \<Longrightarrow> e = CtxDone \<or> e = StopClosed \<Longrightarrow> rotator_Run (es @ [e]) r = (True, r')"
  by (induction es r rule: rotator_Run.induct) auto

text \<open>Every interleaving is a run of the loop over some events.\<close>

lemma steps_are_runs:
  "rotator_reachable r p \<Longrightarrow> \<exists>es. rotator_Run es r = (\<not> rp_running p, rp_rotator p)"
proof (induction rule: rtranclp_induct)
  case base
  show ?case by (intro exI [of _ "[]"]) (simp add: started_def)
next
  case (step p p')
  then obtain es where es: "rotator_Run es r = (\<not> rp_running p, rp_rotator p)" by blast
  from step(2) show ?case
  proof cases
    case run
    then show ?thesis
      using es rotator_Run_append_tick [of es r "rp_rotator p"] rotator_Run_append_end [of es r "rp_rotator p"] by fastforce
  qed (use es in \<open>auto simp: Rotator_Stop_def close_stopCh_def split: if_splits\<close>)
qed


section \<open>Tokens over a history\<close>

text \<open>The rotations of a history, with their instants; \<open>spaced\<close> says that they are at least a period apart.\<close>

fun tick_times :: "rotator_event list \<Rightarrow> time list" where
  "tick_times [] = []"
| "tick_times (Ticked rand now # es) = now # tick_times es"
| "tick_times (_ # es) = []"

fun spaced :: "duration \<Rightarrow> time list \<Rightarrow> bool" where
  "spaced d (t # t' # ts) \<longleftrightarrow> t + d \<le> t' \<and> spaced d (t' # ts)"
| "spaced d _ \<longleftrightarrow> True"

lemma spaced_short:
  assumes "spaced d ts" and "\<forall>t\<in>set ts. t0 \<le> t \<and> t < t0 + d"
  shows "length ts \<le> 1"
  using assms by (cases "(d, ts)" rule: spaced.cases) auto

lemma few_rotations:
  "length (tick_times es) \<le> 1 \<Longrightarrow> \<exists>rand now. snd (rotator_Run es r) = r \<or> snd (rotator_Run es r) = snd (RotateNow rand now r)"
proof (induction es r rule: rotator_Run.induct)
  case (4 rand now es r)
  have "tick_times es = [] \<Longrightarrow> snd (rotator_Run es q) = q" for q by (cases "(es, q)" rule: rotator_Run.cases) simp_all
  with 4 show ?case by auto
qed simp_all



end
