(* ===== verification/Spec2Isabelle.thy ===== *)
theory Spec2Isabelle
  imports Default_Policy Pipeline_Extract Circuit_Breaker Evaluation_Worker Grpc_Server Coordination Nous_Main Llm_Golden Sql_Properties
    Mcp_Laws Nous_Process Service_Properties Sql_Service Observability Adapter_Wiring Key_Rotation
begin

text \<open>
  A verification library for Nous, a Go service that tracks commitments, scores their risk and proposes interventions.

  \<^bold>\<open>The program.\<close> A commitment enters through the extraction pipeline (a language model or a script turns text into drafts),
  is kept in a store (memory, SQLite or PostgreSQL), and is scored by the evaluation pipeline, which a background worker runs
  on every tick: scan the active commitments, ask Chronos for signals and Mnemos for memories, compute a score, store it,
  record a decision, and propose an intervention when the policy says so. HTTP, gRPC and MCP expose the pipelines and the
  repositories; a coordination kernel hands an accepted intervention to Praxis. The process is wired from environment variables.

  \<^bold>\<open>The language.\<close> \<open>Prelude\<close> has the fact collections and Go's sorting and limiting of slices; \<open>Go_Float64\<close> the arithmetic
  of \<^verbatim>\<open>float64\<close> (binary64, round to nearest even, with NaN and infinities); \<open>Go_Base\<close> identifiers, instants, durations with
  their 64-bit wrap-around, dynamically typed values, errors with their wrapping, and the formatting verbs; \<open>Go_Time\<close>,
  \<open>Go_Time_Parse\<close>, \<open>Go_Strconv\<close>, \<open>Go_Utf8\<close>, \<open>Go_Json\<close>, \<open>Go_Json_Print\<close> and \<open>Go_Any_Json\<close> what the sources use of the standard
  library. An error return is a sum or an option, a map an association list, a Go string its bytes. Stateful code passes its
  state explicitly: the record \<open>world\<close> of \<open>Pipeline_Evaluate\<close> holds the store, the log of outbound calls and the counters of
  identifiers and clock readings.

  \<^bold>\<open>Theories and sources.\<close>
  \<^item> \<open>Domain_Types\<close>, \<open>Domain_Commitment\<close>, \<open>Domain_Goal\<close>, \<open>Domain_Task\<close>, \<open>Domain_Intervention\<close>, \<open>Domain_Decision\<close>:
    \<^verbatim>\<open>internal/domain\<close>, one record per struct and one definition per method. \<open>Lifecycle\<close> is the contract of the status tables
    as a locale, interpreted for each of the six lifecycles.
  \<^item> \<open>Risk_Engine\<close>, \<open>Intervention_Engine\<close>, \<open>Default_Policy\<close>: \<^verbatim>\<open>internal/risk\<close>, \<^verbatim>\<open>internal/intervention\<close> and both together.
  \<^item> \<open>Ports\<close>, \<open>Memory_Store\<close>: \<^verbatim>\<open>internal/ports\<close> (interfaces as records of methods, the locale \<open>repository\<close>) and
    \<^verbatim>\<open>internal/store/memory\<close>; the order in which Go ranges over a map is an argument.
  \<^item> \<open>Sql_Base\<close>, \<open>Sqlite_Store\<close>, \<open>Postgres_Store\<close>, \<open>Sql_Schema\<close>: \<^verbatim>\<open>internal/store/sqlite\<close> and \<^verbatim>\<open>internal/store/postgres\<close>, the rows,
    the statements, the row scanners, the JSON columns and the migrations over a record \<open>driver\<close>. \<open>Sql_Json_Laws\<close>, \<open>Sql_Table\<close>,
    \<open>Sql_Refine\<close> and \<open>Sql_Store_Spec\<close> build the refinement (locales \<open>sql_table\<close>, \<open>sql_driver\<close>, \<open>sql_store\<close>); \<open>Sql_Agree\<close>,
    \<open>Sql_Open_Laws\<close> and \<open>Sql_Properties\<close> hold the properties and the interpretations for two drivers.
  \<^item> \<open>Pipeline_Evaluate\<close>, \<open>Evaluate_Laws\<close>, \<open>Pipeline_Extract\<close>: \<^verbatim>\<open>internal/pipeline\<close>, with \<^verbatim>\<open>internal/llm/extractor.go\<close> and
    \<^verbatim>\<open>scripted.go\<close>. \<open>Evaluation_Worker\<close>: \<^verbatim>\<open>internal/worker\<close>, \<^verbatim>\<open>Start\<close>, \<^verbatim>\<open>Stop\<close> and the loop as interleaved steps.
  \<^item> \<open>Circuit_Breaker\<close>, \<open>Adapters\<close>, \<open>Adapter_Laws\<close>: \<^verbatim>\<open>internal/circuit\<close> (sequential and interleaved calls) and
    \<^verbatim>\<open>internal/adapters\<close>.
  \<^item> \<open>Auth_Jwt\<close>, \<open>Key_Rotation\<close> (the rotator's goroutine, stop and cancellation interleaved), \<open>Rate_Limiter\<close>, \<open>Http_Middleware\<close>, \<open>Validation_Cel\<close>, \<open>Http_Server\<close>, \<open>Grpc_Server\<close>: \<^verbatim>\<open>internal/auth\<close>,
    \<^verbatim>\<open>internal/transport\<close>, \<^verbatim>\<open>internal/validation\<close>; \<open>root_handler\<close> is the whole middleware chain.
  \<^item> \<open>Llm_Context\<close>, \<open>Llm_Parse\<close>, \<open>Llm_Providers\<close>, \<open>Llm_Golden\<close>: \<^verbatim>\<open>internal/llm\<close>.
  \<^item> \<open>Coordination\<close>: \<^verbatim>\<open>internal/coordination\<close>. \<open>Config_Load\<close>: \<^verbatim>\<open>internal/config\<close> and \<^verbatim>\<open>internal/store/store.go\<close>.
  \<^item> \<open>Nous_Main\<close>, \<open>Nous_Process\<close>: \<^verbatim>\<open>cmd/nous/main.go\<close>, what \<^verbatim>\<open>run\<close> builds and the order in which it opens, serves and closes.
    \<open>Mcp_Server\<close>, \<open>Mcp_Laws\<close>: \<^verbatim>\<open>cmd/nous/mcp.go\<close>, and the tools against the HTTP server of this library.
    \<open>Adapter_Wiring\<close>: credentials and closing of the connections, the plugin and the logging bridges of the axi kernel.
  \<^item> \<open>Service\<close>, \<open>Service_Properties\<close>, \<open>Sql_Service\<close>: the components together. \<open>serve\<close> runs a list of events (HTTP requests
    through the whole chain, gRPC calls through their interceptor, worker ticks) over one store; the locale \<open>id_supply\<close> carries
    what each component keeps of the rows, the locale \<open>agreeing_backends\<close> what two stores with equal answers give to the layers above.
  \<^item> \<open>Observability\<close>: \<^verbatim>\<open>internal/observability\<close>, the correlation context, the slog handler (a codatatype, since a handler derives
    handlers), the tracer, the middleware and the interceptor with their spans, the metric methods.

  \<^bold>\<open>What is shown.\<close>
  \<^item> Evaluation: the exact effect of a pass on the memory store, which calls leave the process whatever the repositories and
    clients do, survival of failures and of cancellation; no escalation without a signal, and none at all behind the Chronos
    adapter, which refuses every query the pass makes.
  \<^item> Scoring and policy: scores explained by their factors, monotone in time, within [0,1] for every environment; the
    decision table of the policy.
  \<^item> Stores: the memory store and the SQL store each refine five partial maps (with different rules for what an upsert keeps),
    the two SQL backends agree, scans are in the documented order, decisions in SQL are written once; the PostgreSQL migrations
    can be resumed after any fault, the SQLite ones cannot run twice.
  \<^item> Concurrency: invariants of the circuit breaker under every interleaving, and the interleaving that wedges it; the worker's
    \<^verbatim>\<open>Stop\<close> is final and can always return.
  \<^item> Access: nothing happens without a credential, tokens verify soundly and survive the rotations of their lifetime, each limiter grants exactly
    its burst; resolving an intervention over HTTP and gRPC.
  \<^item> Extraction: what is saved and dropped, what a configured provider can produce, prompts within their budget, shares of the
    prompt variants.
  \<^item> Histories of the service: after any traffic the rows are valid, linked and only changed along their lifecycles, none is lost
    and no decision is altered; nothing the service proposes can be executed by a kernel; an overdue commitment gets one more
    intervention at every tick; a service on PostgreSQL and one on SQLite cannot be told apart over the same driver.
  \<^item> Observability: the correlation identifier reaches every handler and response, and no log line of the sources.
  \<^item> The whole: accepted configurations against what the store opens, the order of shutdown, and the MCP tools end to end
    through escaping, authentication, routing, JSON and the pipelines.

  \<^bold>\<open>Bounds and fuel.\<close> The JSON parser has fuel \<open>2 * length s + 2\<close>; \<open>parse_value_fuel\<close> shows that more fuel changes nothing and
  \<open>json_roundtrip\<close> that every printed value is read back, so the fuel is never what fails; \<open>max_depth\<close> is the nesting limit of
  10000 of \<^verbatim>\<open>encoding/json\<close>. \<open>Llm_Providers\<close> reads the members of an object with the length of the text as fuel. All other
  recursion has a termination proof. Counts in JSON responses are required to fit 64 bits where they are decoded.

  \<^bold>\<open>Parameters.\<close> Third-party code is an argument: the text and the parser of identifiers, the JWT library, CEL, axi-go, the gRPC
  stubs, the HTTP and AWS clients, the certificate functions, the SQL engines behind their drivers, the tracer. What a property
  relies on of them is a hypothesis (\<open>sql_driver\<close>, \<open>axi_laws\<close>, the assumptions of \<open>verify_sound\<close>) with a concrete instance in its
  witness. The shortest decimal of a float is the argument \<open>fmt\<close>; the lower-case mapping and the printable runes are arguments
  too. Random secrets, fresh identifiers and clock readings are numbered by the world.

  \<^bold>\<open>Not modelled.\<close> Generated protobuf code; where each log line is written (the logger and its handler are modelled, the calls
  are not) and the spans inside the pipelines; the export of spans and the exposition of metrics, which belong to their libraries; operands that only appear in the text of some error messages; the planner port, which has no
  implementation; the sharing of slices and maps between a caller and the memory store; concurrent SQL transactions and
  data races outside the breaker and the worker; the stdio loop and the schemas of mcp-go; TCP listeners and TLS handshakes.

  In a history each event runs to its end before the next begins; interleavings are covered by the models of the breaker and the
  worker. Histories over the SQL store are compared between the backends, and their repositories refine maps; the invariant of
  \<open>service_history\<close> is stated for the memory store.
\<close>

end
